(* ===== verification/WakuPrelude.thy ===== *)
theory WakuPrelude
  imports Main "HOL-Library.Word" "HOL-Library.AList"
begin

text \<open>
  The prelude of the development: exceptions as values, the JavaScript values that every
  component uses (object properties that may be absent, insertion-ordered sets, truncating
  remainder, the rounding of a number to a double) and the lemmas the components share.

  A function of the source that may throw returns \<open>'a res\<close>, that is \<open>exn + 'a\<close>: \<open>Inl\<close>
  carries the exception.  Rejected promises are exceptions as well.
\<close>

named_theorems res_simps \<open>evaluation of the exception monad\<close>
named_theorems bytes_simps \<open>lengths and reads of byte lists\<close>

section \<open>Exceptions\<close>

datatype exn = Error string | RangeError | TypeError

type_synonym 'a res = "exn + 'a"

definition rbind :: "'a res \<Rightarrow> ('a \<Rightarrow> 'b res) \<Rightarrow> 'b res" where
  "rbind r f = (case r of Inl e \<Rightarrow> Inl e | Inr x \<Rightarrow> f x)"

lemma rbind_simps [simp, res_simps]:
  "rbind (Inl e) f = Inl e"
  "rbind (Inr x) f = f x"
  by (simp_all add: rbind_def)

lemma rbind_eq_Inr [res_simps]: "rbind r f = Inr y \<longleftrightarrow> (\<exists>x. r = Inr x \<and> f x = Inr y)"
  by (cases r) auto

lemma rbind_eq_Inl [res_simps]:
  "rbind r f = Inl e \<longleftrightarrow> r = Inl e \<or> (\<exists>x. r = Inr x \<and> f x = Inl e)"
  by (cases r) auto

text \<open>\<open>xs.map(f)\<close> where \<open>f\<close> may throw: the first exception ends the loop.\<close>

fun mapM :: "('a \<Rightarrow> 'b res) \<Rightarrow> 'a list \<Rightarrow> 'b list res" where
  "mapM f [] = Inr []"
| "mapM f (x # xs) = rbind (f x) (\<lambda>y. rbind (mapM f xs) (\<lambda>ys. Inr (y # ys)))"

lemma mapM_Inr_iff: "mapM f xs = Inr ys \<longleftrightarrow> list_all2 (\<lambda>x y. f x = Inr y) xs ys"
proof (induction xs arbitrary: ys)
  case Nil
  then show ?case by auto
next
  case (Cons x xs)
  then show ?case by (cases ys) (auto simp: rbind_eq_Inr)
qed

lemma mapM_map: "(\<And>x. x \<in> set xs \<Longrightarrow> f x = Inr (g x)) \<Longrightarrow> mapM f xs = Inr (map g xs)"
  by (induction xs) auto

lemma mapM_cong [fundef_cong]:
  "xs = ys \<Longrightarrow> (\<And>x. x \<in> set ys \<Longrightarrow> f x = g x) \<Longrightarrow> mapM f xs = mapM g ys"
  by (induction xs arbitrary: ys) auto

lemma mapM_length: "mapM f xs = Inr ys \<Longrightarrow> length ys = length xs"
  by (auto simp: mapM_Inr_iff dest: list_all2_lengthD)

lemma mapM_mem: "mapM f xs = Inr ys \<Longrightarrow> y \<in> set ys \<Longrightarrow> \<exists>x \<in> set xs. f x = Inr y"
  by (induction xs arbitrary: ys) (auto simp: rbind_eq_Inr)

section \<open>Object properties\<close>

text \<open>
  A property of a JavaScript object: not there, there with the value \<open>undefined\<close>, or there
  with a value. \<open>k in o\<close> is \<open>present\<close>; reading it gives \<open>undefined\<close> in the first two cases.
\<close>

datatype 'a jsprop = Absent | Undefined | Val 'a

fun present :: "'a jsprop \<Rightarrow> bool" where
  "present Absent = False"
| "present Undefined = True"
| "present (Val x) = True"

fun propVal :: "'a jsprop \<Rightarrow> 'a option" where
  "propVal (Val x) = Some x"
| "propVal _ = None"

text \<open>The nullish operator \<open>a ?? d\<close>.\<close>

definition nullish :: "'a option \<Rightarrow> 'a \<Rightarrow> 'a" where
  "nullish a d = (case a of None \<Rightarrow> d | Some x \<Rightarrow> x)"

lemma nullish_simps [simp]: "nullish None d = d" "nullish (Some x) d = x"
  by (simp_all add: nullish_def)

section \<open>Sets in insertion order\<close>

text \<open>\<open>Array.from(new Set(xs))\<close>: the first occurrence of every element, in order.\<close>

fun uniq :: "'a list \<Rightarrow> 'a list" where
  "uniq [] = []"
| "uniq (x # xs) = x # filter (\<lambda>y. y \<noteq> x) (uniq xs)"

lemma set_uniq [simp]: "set (uniq xs) = set xs"
  by (induction xs) auto

lemma distinct_uniq [simp]: "distinct (uniq xs)"
  by (induction xs) auto

lemma uniq_id: "distinct xs \<Longrightarrow> uniq xs = xs"
proof (induction xs)
  case Nil
  then show ?case by simp
next
  case (Cons x xs)
  then have "filter (\<lambda>y. y \<noteq> x) xs = xs" by (auto simp: filter_id_conv)
  with Cons show ?case by simp
qed

lemma uniq_idem [simp]: "uniq (uniq xs) = uniq xs"
  by (simp add: uniq_id)

lemma uniq_Nil_iff [simp]: "uniq xs = [] \<longleftrightarrow> xs = []"
  by (cases xs) auto

lemma length_uniq_le: "length (uniq xs) \<le> length xs"
  by (induction xs) (auto intro: le_trans [OF length_filter_le])

lemma length_uniq: "length (uniq xs) = card (set xs)"
  by (metis distinct_card distinct_uniq set_uniq)

lemma uniq_map_inj: "inj_on f (set xs) \<Longrightarrow> uniq (map f xs) = map f (uniq xs)"
proof (induction xs)
  case Nil
  then show ?case by simp
next
  case (Cons x xs)
  then have "uniq (map f xs) = map f (uniq xs)" by simp
  moreover have "filter (\<lambda>y. f y \<noteq> f x) (uniq xs) = filter (\<lambda>y. y \<noteq> x) (uniq xs)"
    using Cons.prems by (intro filter_cong) (force simp: inj_on_def)+
  then have "filter (\<lambda>y. y \<noteq> f x) (map f (uniq xs)) = map f (filter (\<lambda>y. y \<noteq> x) (uniq xs))"
    by (simp add: filter_map comp_def)
  ultimately show ?case by simp
qed

lemma filter_uniq: "filter P (uniq xs) = uniq (filter P xs)"
proof (induction xs)
  case Nil
  then show ?case by simp
next
  case (Cons x xs)
  have "filter P (filter (\<lambda>y. y \<noteq> x) (uniq xs)) = filter (\<lambda>y. y \<noteq> x) (filter P (uniq xs))"
    by (simp add: conj_commute)
  moreover have "filter (\<lambda>y. P y \<and> y \<noteq> x) (uniq xs) = filter P (uniq xs)" if "\<not> P x"
    using that by (intro filter_cong) auto
  ultimately show ?case using Cons by (simp add: conj_commute)
qed

lemma uniq_snoc: "uniq (xs @ [x]) = (if x \<in> set xs then uniq xs else uniq xs @ [x])"
  by (induction xs) auto

lemma uniq_singleton_iff: "length (uniq xs) = 1 \<longleftrightarrow> xs \<noteq> [] \<and> (\<forall>x \<in> set xs. x = hd xs)"
  by (cases xs) (auto simp: filter_empty_conv)

section \<open>Counting and updating\<close>

definition cnt :: "('a \<Rightarrow> bool) \<Rightarrow> 'a list \<Rightarrow> int" where
  "cnt P xs = int (length (filter P xs))"

lemma cnt_append [simp]: "cnt P (xs @ [x]) = cnt P xs + of_bool (P x)"
  by (simp add: cnt_def)

lemma cnt_update: "t < length xs \<Longrightarrow> cnt P (xs[t := x]) = cnt P xs - of_bool (P (xs ! t)) + of_bool (P x)"
proof (induction xs arbitrary: t)
  case Nil
  then show ?case by simp
next
  case (Cons y ys)
  then show ?case by (cases t) (auto simp: cnt_def)
qed

lemma cnt_nonneg: "0 \<le> cnt P xs"
  by (simp add: cnt_def)

lemma cnt_mono: "(\<And>x. P x \<Longrightarrow> Q x) \<Longrightarrow> cnt P xs \<le> cnt Q xs"
  unfolding cnt_def by (induction xs) auto

lemma map_filter_update:
  "P x = P (xs ! i) \<Longrightarrow> f x = f (xs ! i) \<Longrightarrow> map f (filter P (xs[i := x])) = map f (filter P xs)"
proof (induction xs arbitrary: i)
  case Nil
  then show ?case by simp
next
  case (Cons y ys)
  then show ?case by (cases i) auto
qed

section \<open>Numbers\<close>

text \<open>The remainder \<open>a % b\<close>, whose sign is that of the dividend.\<close>

definition js_rem :: "int \<Rightarrow> int \<Rightarrow> int" where
  "js_rem a b = sgn a * (\<bar>a\<bar> mod \<bar>b\<bar>)"

lemma js_rem_nonneg: "0 \<le> a \<Longrightarrow> 0 < b \<Longrightarrow> js_rem a b = a mod b"
  by (cases "a = 0") (auto simp: js_rem_def)

text \<open>Division of bigints, which truncates.\<close>

definition js_quot :: "int \<Rightarrow> int \<Rightarrow> int" where
  "js_quot a b = sgn a * sgn b * (\<bar>a\<bar> div \<bar>b\<bar>)"

lemma js_quot_mult: "b \<noteq> 0 \<Longrightarrow> js_quot (a * b) b = a"
  by (simp add: js_quot_def abs_mult sgn_mult mult.commute mult.left_commute)
     (metis mult.commute mult_sgn_abs sgn_mult_self_eq mult.left_neutral mult.assoc)

text \<open>
  The double nearest to an integer (53 bits of significand, ties to even): the value of
  \<open>Number(b)\<close> for a bigint, and of an arithmetic operation whose exact result is \<open>i\<close>.
\<close>

fun double_shift :: "nat \<Rightarrow> nat \<Rightarrow> nat" where
  "double_shift 0 n = 0"
| "double_shift (Suc fuel) n = (if n < 2 ^ 53 then 0 else Suc (double_shift fuel (n div 2)))"

definition round_half_even :: "nat \<Rightarrow> nat \<Rightarrow> nat" where
  "round_half_even n k =
     (let q = n div 2 ^ k; r = n mod 2 ^ k
      in if 2 * r < 2 ^ k then q
         else if 2 * r = 2 ^ k then (if even q then q else q + 1)
         else q + 1)"

definition to_double :: "int \<Rightarrow> int" where
  "to_double i =
     (let n = nat \<bar>i\<bar>; k = double_shift 1024 n
      in sgn i * int (round_half_even n k * 2 ^ k))"

lemma to_double_exact: "\<bar>i\<bar> < 2 ^ 53 \<Longrightarrow> to_double i = i"
proof -
  assume "\<bar>i\<bar> < 2 ^ 53"
  then have "nat \<bar>i\<bar> < 2 ^ 53" by (simp add: nat_less_iff)
  moreover have "(1024::nat) = Suc 1023" by simp
  ultimately have "double_shift 1024 (nat \<bar>i\<bar>) = 0" by (metis double_shift.simps(2))
  then show ?thesis by (simp add: to_double_def round_half_even_def Let_def sgn_mult_abs)
qed

section \<open>Codecs\<close>

text \<open>
  The contract of every encoder and decoder pair of the source: on the valid values the encoder
  returns, and the decoder gives the value back.
\<close>

locale codec =
  fixes enc :: "'a \<Rightarrow> 'b res"
    and dec :: "'b \<Rightarrow> 'a res"
    and valid :: "'a \<Rightarrow> bool"
  assumes dec_enc: "valid x \<Longrightarrow> \<exists>b. enc x = Inr b \<and> dec b = Inr x"
begin

lemma roundtrip: "valid x \<Longrightarrow> rbind (enc x) dec = Inr x"
  using dec_enc by (auto simp: rbind_eq_Inr)

lemma dec_of_enc: "valid x \<Longrightarrow> enc x = Inr b \<Longrightarrow> dec b = Inr x"
  using dec_enc by fastforce

lemma enc_inj: "valid x \<Longrightarrow> valid y \<Longrightarrow> enc x = enc y \<Longrightarrow> x = y"
  using dec_enc by (metis sum.inject(2))

lemma list_roundtrip: "list_all valid xs \<Longrightarrow> \<exists>bs. mapM enc xs = Inr bs \<and> mapM dec bs = Inr xs"
proof (induction xs)
  case Nil
  then show ?case by simp
next
  case (Cons x xs)
  then show ?case using dec_enc [of x] by auto
qed

end

end
