(* ===== verification/JsMap.thy ===== *)
theory JsMap
  imports WakuPrelude
begin

text \<open>
  The \<open>Map\<close> objects of the source, as association lists in insertion order: \<open>set\<close> on a key
  that is there keeps its place, a new key goes to the end, and \<open>keys()\<close> lists them in order.
  The locale \<open>js_map\<close> is the interface the components rely on; the grouping loops of
  \<open>packages/utils/src/common\<close> are modelled here because every protocol shares them.
\<close>

type_synonym ('k, 'v) jsmap = "('k \<times> 'v) list"

definition jm_get :: "('k, 'v) jsmap \<Rightarrow> 'k \<Rightarrow> 'v option" where
  "jm_get m k = map_of m k"

definition jm_has :: "('k, 'v) jsmap \<Rightarrow> 'k \<Rightarrow> bool" where
  "jm_has m k = (jm_get m k \<noteq> None)"

definition jm_set :: "'k \<Rightarrow> 'v \<Rightarrow> ('k, 'v) jsmap \<Rightarrow> ('k, 'v) jsmap" where
  "jm_set k v m = AList.update k v m"

definition jm_delete :: "'k \<Rightarrow> ('k, 'v) jsmap \<Rightarrow> ('k, 'v) jsmap" where
  "jm_delete k m = AList.delete k m"

definition jm_keys :: "('k, 'v) jsmap \<Rightarrow> 'k list" where
  "jm_keys m = map fst m"

definition jm_wf :: "('k, 'v) jsmap \<Rightarrow> bool" where
  "jm_wf m = distinct (jm_keys m)"

section \<open>The interface of a map\<close>

locale js_map =
  fixes mempty :: "'m"
    and mget :: "'m \<Rightarrow> 'k \<Rightarrow> 'v option"
    and mset :: "'k \<Rightarrow> 'v \<Rightarrow> 'm \<Rightarrow> 'm"
    and mdelete :: "'k \<Rightarrow> 'm \<Rightarrow> 'm"
    and mkeys :: "'m \<Rightarrow> 'k list"
    and mwf :: "'m \<Rightarrow> bool"
  assumes get_empty: "mget mempty k = None"
    and get_set: "mget (mset k v m) k' = (if k' = k then Some v else mget m k')"
    and get_delete: "mget (mdelete k m) k' = (if k' = k then None else mget m k')"
    and keys_get: "k \<in> List.set (mkeys m) \<longleftrightarrow> mget m k \<noteq> None"
    and keys_set: "mkeys (mset k v m) = (if mget m k = None then mkeys m @ [k] else mkeys m)"
    and keys_delete: "mkeys (mdelete k m) = filter (\<lambda>k'. k' \<noteq> k) (mkeys m)"
    and wf_keys: "mwf m \<longleftrightarrow> distinct (mkeys m)"
begin

lemma wf_set: "mwf m \<Longrightarrow> mwf (mset k v m)"
  by (simp add: wf_keys keys_set keys_get)

lemma wf_delete: "mwf m \<Longrightarrow> mwf (mdelete k m)"
  by (simp add: wf_keys keys_delete)

lemma get_fold_set:
  "mget (fold (\<lambda>(k, v). mset k v) kvs m) k =
     (case map_of (rev kvs) k of None \<Rightarrow> mget m k | Some v \<Rightarrow> Some v)"
proof (induction kvs arbitrary: m)
  case Nil
  then show ?case by simp
next
  case (Cons kv kvs)
  then show ?case by (cases kv) (simp add: get_set map_add_def split: option.split)
qed

lemma get_fold_delete:
  "mget (fold mdelete ks m) k = (if k \<in> List.set ks then None else mget m k)"
  by (induction ks arbitrary: m) (auto simp: get_delete)

lemma wf_fold_delete: "mwf m \<Longrightarrow> mwf (fold mdelete ks m)"
  by (induction ks arbitrary: m) (auto simp: wf_delete)

lemma fold_delete_keys:
  "mkeys (fold mdelete ks m) = filter (\<lambda>k. k \<notin> List.set ks) (mkeys m)"
  by (induction ks arbitrary: m) (auto simp: keys_delete intro: filter_cong)

end

lemma jm_keys_set_raw: "map fst (AList.update k v m) = (if map_of m k = None then map fst m @ [k] else map fst m)"
  by (induction m) (auto split: if_splits)

interpretation jm: js_map "[] :: ('k, 'v) jsmap" jm_get jm_set jm_delete jm_keys jm_wf
proof
  fix m :: "('k, 'v) jsmap" and k k' v
  show "jm_get ([] :: ('k, 'v) jsmap) k = None" by (simp add: jm_get_def)
  show "jm_get (jm_set k v m) k' = (if k' = k then Some v else jm_get m k')"
    by (simp add: jm_get_def jm_set_def update_conv')
  show "jm_get (jm_delete k m) k' = (if k' = k then None else jm_get m k')"
    by (simp add: jm_get_def jm_delete_def delete_conv')
  show "k \<in> set (jm_keys m) \<longleftrightarrow> jm_get m k \<noteq> None"
    by (auto simp: jm_keys_def jm_get_def map_of_eq_None_iff)
  show "jm_keys (jm_set k v m) = (if jm_get m k = None then jm_keys m @ [k] else jm_keys m)"
    by (simp add: jm_keys_def jm_get_def jm_set_def jm_keys_set_raw)
  show "jm_keys (jm_delete k m) = filter (\<lambda>k'. k' \<noteq> k) (jm_keys m)"
    by (simp add: jm_keys_def jm_delete_def AList.delete_eq filter_map comp_def case_prod_unfold eq_commute [of k])
  show "jm_wf m \<longleftrightarrow> distinct (jm_keys m)" by (simp add: jm_wf_def)
qed

lemmas jm_simps [simp] = jm.get_empty jm.get_set jm.get_delete jm.wf_set jm.wf_delete

lemma jm_wf_Nil [simp]: "jm_wf []"
  by (simp add: jm_wf_def jm_keys_def)

lemma jm_keys_Nil [simp]: "jm_keys [] = []"
  by (simp add: jm_keys_def)

lemma jm_Nil_iff: "m = [] \<longleftrightarrow> jm_keys m = []"
  by (simp add: jm_keys_def)

lemma jm_has_iff: "jm_has m k \<longleftrightarrow> k \<in> set (jm_keys m)"
  by (simp add: jm_has_def jm.keys_get)

section \<open>Grouping\<close>

text \<open>
  The loop body shared by \<open>groupByContentTopic\<close> and \<open>contentTopicsByPubsubTopic\<close>: get the list
  of the key, start an empty one when there is none, push.
\<close>

definition jm_push :: "'k \<Rightarrow> 'v \<Rightarrow> ('k, 'v list) jsmap \<Rightarrow> ('k, 'v list) jsmap" where
  "jm_push k v m = (case jm_get m k of None \<Rightarrow> jm_set k [v] m | Some vs \<Rightarrow> jm_set k (vs @ [v]) m)"

text \<open>\<open>pushOrInitMapSet\<close>: the same with a \<open>Set\<close> under the key.\<close>

definition pushOrInitMapSet :: "('k, 'v list) jsmap \<Rightarrow> 'k \<Rightarrow> 'v \<Rightarrow> ('k, 'v list) jsmap" where
  "pushOrInitMapSet m k v =
     (let m' = (case jm_get m k of None \<Rightarrow> jm_set k [] m | Some _ \<Rightarrow> m);
          arr = (case jm_get m' k of None \<Rightarrow> [] | Some vs \<Rightarrow> vs)
      in jm_set k (if v \<in> set arr then arr else arr @ [v]) m')"

definition groupByKey :: "('a \<Rightarrow> 'k) \<Rightarrow> 'a list \<Rightarrow> ('k, 'a list) jsmap" where
  "groupByKey f xs = fold (\<lambda>x m. jm_push (f x) x m) xs []"

lemma jm_get_push:
  "jm_get (jm_push k v m) k' =
     (if k' = k then Some ((case jm_get m k of None \<Rightarrow> [] | Some vs \<Rightarrow> vs) @ [v]) else jm_get m k')"
  by (auto simp: jm_push_def split: option.split)

lemma jm_keys_push:
  "jm_keys (jm_push k v m) = (if jm_get m k = None then jm_keys m @ [k] else jm_keys m)"
  by (auto simp: jm_push_def jm.keys_set split: option.split)

lemma jm_wf_push: "jm_wf m \<Longrightarrow> jm_wf (jm_push k v m)"
  by (auto simp: jm_push_def split: option.split)

lemma groupByKey_snoc: "groupByKey f (xs @ [x]) = jm_push (f x) x (groupByKey f xs)"
  by (simp add: groupByKey_def)

lemma groupByKey_get:
  "jm_get (groupByKey f xs) k =
     (if k \<in> f ` set xs then Some (filter (\<lambda>x. f x = k) xs) else None)"
proof (induction xs rule: rev_induct)
  case Nil
  then show ?case by (simp add: groupByKey_def)
next
  case (snoc x xs)
  have "filter (\<lambda>y. f y = f x) xs = []" if "f x \<notin> f ` set xs"
    using that by (metis (mono_tags, lifting) filter_False imageI)
  with snoc show ?case by (auto simp: groupByKey_snoc jm_get_push)
qed

lemma groupByKey_keys: "jm_keys (groupByKey f xs) = uniq (map f xs)"
proof (induction xs rule: rev_induct)
  case Nil
  then show ?case by (simp add: groupByKey_def)
next
  case (snoc x xs)
  then show ?case by (auto simp: groupByKey_snoc jm_keys_push groupByKey_get uniq_snoc)
qed

lemma groupByKey_wf: "jm_wf (groupByKey f xs)"
  by (simp add: jm_wf_def groupByKey_keys)

lemma pushOrInitMapSet_get:
  "jm_get (pushOrInitMapSet m k v) k' =
     (if k' = k
      then Some (let vs = (case jm_get m k of None \<Rightarrow> [] | Some vs \<Rightarrow> vs)
                 in if v \<in> set vs then vs else vs @ [v])
      else jm_get m k')"
  by (auto simp: pushOrInitMapSet_def Let_def split: option.split)

lemma pushOrInitMapSet_wf: "jm_wf m \<Longrightarrow> jm_wf (pushOrInitMapSet m k v)"
  by (auto simp: pushOrInitMapSet_def Let_def split: option.split)

text \<open>Adding to a JavaScript set, a list without duplicates in the order of insertion.\<close>

definition set_add :: "'a \<Rightarrow> 'a list \<Rightarrow> 'a list" where
  "set_add x xs = (if x \<in> set xs then xs else xs @ [x])"

lemma set_add_set [simp]: "set (set_add x xs) = insert x (set xs)"
  by (auto simp: set_add_def)

end
