(* ===== verification/JsString.thy ===== *)
theory JsString
  imports WakuPrelude "HOL-Library.Sublist"
begin

text \<open>
  The strings of the source, as lists of characters: \<open>split\<close>, \<open>join\<close>, \<open>includes\<close>, \<open>startsWith\<close>,
  lower case, the decimal form a template literal gives an integer, and \<open>parseInt\<close>.  The
  strings the modelled code looks into are topics, record entries and status texts, which are
  ASCII; \<open>parseInt\<close> skips the ASCII white space.
\<close>

section \<open>Splitting and searching\<close>

fun js_split :: "char \<Rightarrow> string \<Rightarrow> string list" where
  "js_split c [] = [[]]"
| "js_split c (x # xs) =
     (if x = c then [] # js_split c xs
      else (case js_split c xs of [] \<Rightarrow> [[x]] | p # ps \<Rightarrow> (x # p) # ps))"

fun js_join :: "string \<Rightarrow> string list \<Rightarrow> string" where
  "js_join c [] = []"
| "js_join c [p] = p"
| "js_join c (p # q # ps) = p @ c @ js_join c (q # ps)"

lemma js_split_not_Nil [simp]: "js_split c s \<noteq> []"
  by (induction s) (auto split: list.split)

lemma js_split_append:
  "c \<notin> set p \<Longrightarrow> js_split c (p @ c # s) = p # js_split c s"
  by (induction p) auto

lemma js_split_no_sep: "c \<notin> set p \<Longrightarrow> js_split c p = [p]"
  by (induction p) auto

lemma js_split_join:
  "ps \<noteq> [] \<Longrightarrow> (\<And>p. p \<in> set ps \<Longrightarrow> c \<notin> set p) \<Longrightarrow> js_split c (js_join [c] ps) = ps"
proof (induction "[c]" ps rule: js_join.induct)
  case 1
  then show ?case by simp
next
  case (2 p)
  then show ?case by (simp add: js_split_no_sep)
next
  case (3 p q ps)
  then show ?case by (simp add: js_split_append)
qed

lemma js_join_split: "js_join [c] (js_split c s) = s"
proof (induction s)
  case Nil
  then show ?case by simp
next
  case (Cons x xs)
  obtain p ps where ps: "js_split c xs = p # ps"
    by (cases "js_split c xs") auto
  then show ?case using Cons by (cases ps) auto
qed

lemma js_split_parts: "p \<in> set (js_split c s) \<Longrightarrow> c \<notin> set p"
proof (induction s arbitrary: p)
  case Nil
  then show ?case by simp
next
  case (Cons x xs)
  then show ?case
    by (cases "js_split c xs") (auto split: if_splits)
qed

fun js_includes :: "string \<Rightarrow> string \<Rightarrow> bool" where
  "js_includes p [] = (p = [])"
| "js_includes p (x # xs) = (prefix p (x # xs) \<or> js_includes p xs)"

lemma js_includes_iff: "js_includes p s \<longleftrightarrow> (\<exists>u v. s = u @ p @ v)"
proof (induction s)
  case Nil
  then show ?case by auto
next
  case (Cons x xs)
  show ?case
  proof
    assume "js_includes p (x # xs)"
    then consider "prefix p (x # xs)" | "js_includes p xs" by auto
    then show "\<exists>u v. x # xs = u @ p @ v"
    proof cases
      case 1
      then obtain v where "x # xs = [] @ p @ v" by (auto simp: prefix_def)
      then show ?thesis by blast
    next
      case 2
      with Cons obtain u v where "x # xs = (x # u) @ p @ v" by auto
      then show ?thesis by blast
    qed
  next
    assume "\<exists>u v. x # xs = u @ p @ v"
    then obtain u v where uv: "x # xs = u @ p @ v" by blast
    show "js_includes p (x # xs)"
    proof (cases u)
      case Nil
      with uv have "prefix p (x # xs)" by (simp add: prefix_def)
      then show ?thesis by simp
    next
      case (Cons y u')
      with uv have "xs = u' @ p @ v" by simp
      with Cons.IH show ?thesis by auto
    qed
  qed
qed

abbreviation startsWith :: "string \<Rightarrow> string \<Rightarrow> bool" where
  "startsWith s p \<equiv> prefix p s"

text \<open>\<open>toLowerCase\<close> on ASCII.\<close>

definition lower_char :: "char \<Rightarrow> char" where
  "lower_char c = (let n = (of_char c :: nat) in if 65 \<le> n \<and> n \<le> 90 then char_of (n + 32) else c)"

definition toLowerCase :: "string \<Rightarrow> string" where
  "toLowerCase s = map lower_char s"

section \<open>Decimal numbers\<close>

definition digit :: "nat \<Rightarrow> char" where
  "digit d = char_of (48 + d)"

definition digit_val :: "nat \<Rightarrow> char \<Rightarrow> nat option" where
  "digit_val base c =
     (let n = (of_char c :: nat);
          v = (if 48 \<le> n \<and> n \<le> 57 then n - 48
               else if 97 \<le> n \<and> n \<le> 122 then n - 87
               else if 65 \<le> n \<and> n \<le> 90 then n - 55 else base)
      in if v < base then Some v else None)"

lemma of_char_digit: "d < 10 \<Longrightarrow> (of_char (digit d) :: nat) = 48 + d"
  by (simp add: digit_def)

lemma digit_val_digit [simp]: "d < 10 \<Longrightarrow> digit_val 10 (digit d) = Some d"
  by (simp add: digit_val_def of_char_digit)

fun show_nat :: "nat \<Rightarrow> string" where
  "show_nat n = (if n < 10 then [digit n] else show_nat (n div 10) @ [digit (n mod 10)])"

declare show_nat.simps [simp del]

definition show_int :: "int \<Rightarrow> string" where
  "show_int i = (if i < 0 then CHR ''-'' # show_nat (nat (- i)) else show_nat (nat i))"

lemma show_nat_digits: "c \<in> set (show_nat n) \<Longrightarrow> \<exists>d < 10. c = digit d"
proof (induction n rule: show_nat.induct)
  case (1 n)
  show ?case
  proof (cases "n < 10")
    case True
    with 1 show ?thesis by (auto simp: show_nat.simps [of n])
  next
    case False
    with 1 consider "c \<in> set (show_nat (n div 10))" | "c = digit (n mod 10)"
      by (auto simp: show_nat.simps [of n])
    then show ?thesis
      using 1 False by cases (auto intro: exI [of _ "n mod 10"])
  qed
qed

lemma show_nat_not_Nil [simp]: "show_nat n \<noteq> []"
  by (subst show_nat.simps) simp

lemma show_nat_val: "c \<in> set (show_nat n) \<Longrightarrow> 48 \<le> (of_char c :: nat) \<and> (of_char c :: nat) \<le> 57"
  by (auto dest!: show_nat_digits simp: of_char_digit)

lemma show_int_chars: "c \<in> set (show_int i) \<Longrightarrow> c = CHR ''-'' \<or> (48 \<le> (of_char c :: nat) \<and> (of_char c :: nat) \<le> 57)"
  by (auto simp: show_int_def dest: show_nat_val split: if_splits)

lemma show_int_not_Nil [simp]: "show_int i \<noteq> []"
  by (simp add: show_int_def)

section \<open>parseInt\<close>

fun take_digits :: "nat \<Rightarrow> string \<Rightarrow> nat list" where
  "take_digits base [] = []"
| "take_digits base (c # cs) =
     (case digit_val base c of None \<Rightarrow> [] | Some d \<Rightarrow> d # take_digits base cs)"

definition digits_val :: "nat \<Rightarrow> nat list \<Rightarrow> nat" where
  "digits_val base ds = foldl (\<lambda>a d. a * base + d) 0 ds"

definition is_space :: "char \<Rightarrow> bool" where
  "is_space c = (let n = (of_char c :: nat) in n = 32 \<or> (9 \<le> n \<and> n \<le> 13))"

text \<open>\<open>parseInt(s)\<close>; \<open>None\<close> is \<open>NaN\<close>.\<close>

definition parseInt :: "string \<Rightarrow> int option" where
  "parseInt s =
     (let t = dropWhile is_space s;
          neg = (t \<noteq> [] \<and> hd t = CHR ''-'');
          u = (if t \<noteq> [] \<and> (hd t = CHR ''-'' \<or> hd t = CHR ''+'') then tl t else t);
          hex = (prefix ''0x'' u \<or> prefix ''0X'' u);
          base = (if hex then 16 else 10);
          ds = take_digits base (if hex then drop 2 u else u)
      in if ds = [] then None
         else Some ((if neg then - 1 else 1) * int (digits_val base ds)))"

lemma take_digits_show_nat:
  "rest = [] \<or> digit_val 10 (hd rest) = None \<Longrightarrow>
     take_digits 10 (show_nat n @ rest) = map (\<lambda>c. the (digit_val 10 c)) (show_nat n)"
proof -
  assume rest: "rest = [] \<or> digit_val 10 (hd rest) = None"
  have "take_digits 10 (cs @ rest) = map (\<lambda>c. the (digit_val 10 c)) cs"
    if "\<And>c. c \<in> set cs \<Longrightarrow> \<exists>d < 10. c = digit d" for cs
    using that
  proof (induction cs)
    case Nil
    with rest show ?case by (cases rest) auto
  next
    case (Cons c cs)
    then obtain d where "d < 10" "c = digit d" by auto
    with Cons show ?case by auto
  qed
  then show ?thesis by (meson show_nat_digits)
qed

lemma digits_val_show_nat: "digits_val 10 (map (\<lambda>c. the (digit_val 10 c)) (show_nat n)) = n"
proof (induction n rule: show_nat.induct)
  case (1 n)
  show ?case
  proof (cases "n < 10")
    case True
    then show ?thesis by (subst show_nat.simps) (simp add: digits_val_def)
  next
    case False
    with 1 show ?thesis by (subst show_nat.simps) (simp add: digits_val_def)
  qed
qed

lemma show_nat_not_hex: "\<not> prefix ''0x'' (show_nat n)" "\<not> prefix ''0X'' (show_nat n)"
proof -
  have "CHR ''x'' \<notin> set (show_nat n)" "CHR ''X'' \<notin> set (show_nat n)"
    by (auto dest!: show_nat_val)
  then show "\<not> prefix ''0x'' (show_nat n)" "\<not> prefix ''0X'' (show_nat n)"
    by (auto simp: prefix_def)
qed

lemma hd_show_nat: "48 \<le> (of_char (hd (show_nat n)) :: nat) \<and> (of_char (hd (show_nat n)) :: nat) \<le> 57"
  by (rule show_nat_val [of _ n]) simp

theorem parseInt_show_nat: "parseInt (show_nat n) = Some (int n)"
proof -
  have h: "\<not> is_space (hd (show_nat n))" "hd (show_nat n) \<noteq> CHR ''-''" "hd (show_nat n) \<noteq> CHR ''+''"
    using hd_show_nat [of n] by (auto simp: is_space_def Let_def)
  then have "dropWhile is_space (show_nat n) = show_nat n"
    by (cases "show_nat n") auto
  with h show ?thesis
    using take_digits_show_nat [of "[]" n]
    by (simp add: parseInt_def Let_def show_nat_not_hex digits_val_show_nat)
qed

theorem parseInt_show_int: "parseInt (show_int i) = Some i"
proof (cases "i < 0")
  case False
  then show ?thesis by (simp add: show_int_def parseInt_show_nat)
next
  case True
  have "\<not> is_space CHR ''-''" by (simp add: is_space_def Let_def)
  with True show ?thesis
    using take_digits_show_nat [of "[]" "nat (- i)"]
    by (simp add: show_int_def parseInt_def Let_def show_nat_not_hex digits_val_show_nat)
qed

lemma show_int_inj: "show_int i = show_int j \<longleftrightarrow> i = j"
  by (metis option.inject parseInt_show_int)

end
