(* ===== verification/JsBytes.thy ===== *)
theory JsBytes
  imports WakuPrelude
begin

text \<open>
  Byte arrays: \<open>Uint8Array\<close>, \<open>DataView\<close> and the helpers of \<open>packages/utils/src/bytes/index.ts\<close>
  and \<open>is_size_valid.ts\<close>.  A byte is an \<open>8 word\<close>.  A read or write past the end throws
  \<open>RangeError\<close>, and a stored number wraps to the width of its field, as the ECMAScript
  standard says.  A \<open>Uint8Array\<close> that is only a window of a larger \<open>ArrayBuffer\<close> is the record
  \<open>u8view\<close>; where the code reads \<open>a.buffer\<close> it sees the buffer, not the window.
\<close>

type_synonym byte = "8 word"
type_synonym bytes = "byte list"

section \<open>Big-endian numbers\<close>

fun bytes_be :: "nat \<Rightarrow> int \<Rightarrow> bytes" where
  "bytes_be 0 v = []"
| "bytes_be (Suc k) v = bytes_be k (v div 256) @ [word_of_int v]"

definition val_be :: "bytes \<Rightarrow> int" where
  "val_be bs = foldl (\<lambda>a b. a * 256 + uint b) 0 bs"

lemma length_bytes_be [simp, bytes_simps]: "length (bytes_be k v) = k"
  by (induction k arbitrary: v) auto

lemma val_be_simps [simp]: "val_be [] = 0" "val_be (bs @ [b]) = val_be bs * 256 + uint b"
  by (simp_all add: val_be_def)

lemma mod_256_power: "(v div 256 mod 256 ^ k) * 256 + v mod 256 = v mod (256 * 256 ^ k)" for v :: int
  by (simp add: zmod_zmult2_eq)

theorem val_be_bytes_be: "val_be (bytes_be k v) = v mod 256 ^ k"
  by (induction k arbitrary: v) (simp_all add: mod_256_power uint_word_of_int)

lemma val_be_bounds: "0 \<le> val_be bs \<and> val_be bs < 256 ^ length bs"
proof (induction bs rule: rev_induct)
  case Nil
  then show ?case by simp
next
  case (snoc b bs)
  have "0 \<le> uint b" "uint b < 256" using uint_lt2p [of b] by simp_all
  with snoc show ?case by simp
qed

lemma bytes_be_val_be: "bytes_be (length bs) (val_be bs) = bs"
proof (induction bs rule: rev_induct)
  case Nil
  then show ?case by simp
next
  case (snoc b bs)
  have "0 \<le> uint b" "uint b < 256" using uint_lt2p [of b] by simp_all
  then have "(val_be bs * 256 + uint b) div 256 = val_be bs" by simp
  moreover have "(256 :: byte) = 0" by (simp add: word_uint_eq_iff)
  then have "(word_of_int (val_be bs * 256 + uint b) :: byte) = b"
    by (simp only: of_int_add of_int_mult of_int_numeral word_of_int_uint mult_zero_right add_0_left)
  ultimately show ?case using snoc by simp
qed

section \<open>Reads and writes\<close>

text \<open>\<open>dst.set(src, offset)\<close>.\<close>

definition u8_set :: "bytes \<Rightarrow> bytes \<Rightarrow> nat \<Rightarrow> bytes res" where
  "u8_set dst src off =
     (if off + length src \<le> length dst
      then Inr (take off dst @ src @ drop (off + length src) dst) else Inl RangeError)"

text \<open>\<open>DataView\<close>: \<open>getUint8\<close>, \<open>getUint16\<close> and \<open>getBigUint64\<close> are the widths 1, 2 and 8.\<close>

definition getBE :: "nat \<Rightarrow> bytes \<Rightarrow> nat \<Rightarrow> int res" where
  "getBE k bs off =
     (if off + k \<le> length bs then Inr (val_be (take k (drop off bs))) else Inl RangeError)"

definition setBE :: "nat \<Rightarrow> bytes \<Rightarrow> nat \<Rightarrow> int \<Rightarrow> bytes res" where
  "setBE k bs off v = u8_set bs (bytes_be k v) off"

lemma u8_set_fill:
  "length xs \<le> n \<Longrightarrow>
     u8_set (pre @ replicate n z) xs (length pre) = Inr (pre @ xs @ replicate (n - length xs) z)"
  by (simp add: u8_set_def)

lemma setBE_fill:
  "k \<le> n \<Longrightarrow>
     setBE k (pre @ replicate n z) (length pre) v = Inr (pre @ bytes_be k v @ replicate (n - k) z)"
  by (simp add: setBE_def u8_set_fill)

lemma getBE_append:
  "off = length pre \<Longrightarrow> getBE k (pre @ bytes_be k v @ post) off = Inr (v mod 256 ^ k)"
  by (simp add: getBE_def val_be_bytes_be)

lemma u8_set_length: "u8_set dst src off = Inr r \<Longrightarrow> length r = length dst"
  by (auto simp: u8_set_def split: if_splits)

text \<open>\<open>a.slice(i, j)\<close>: negative positions count from the end, both are cut to the length.\<close>

definition slice_pos :: "nat \<Rightarrow> int \<Rightarrow> nat" where
  "slice_pos n i = (if i < 0 then nat (max 0 (int n + i)) else min n (nat i))"

definition js_slice :: "'a list \<Rightarrow> int \<Rightarrow> int \<Rightarrow> 'a list" where
  "js_slice xs i j =
     (let a = slice_pos (length xs) i; b = slice_pos (length xs) j in take (b - a) (drop a xs))"

text \<open>\<open>a.slice(i)\<close>.\<close>

definition js_slice_from :: "'a list \<Rightarrow> int \<Rightarrow> 'a list" where
  "js_slice_from xs i = drop (slice_pos (length xs) i) xs"

lemma js_slice_nat: "js_slice xs (int i) (int j) = take (j - i) (drop i xs)"
  by (auto simp: js_slice_def slice_pos_def Let_def min_def)

lemma js_slice_from_nat: "js_slice_from xs (int i) = drop i xs"
  by (auto simp: js_slice_from_def slice_pos_def min_def)

section \<open>Windows of a buffer\<close>

record u8view =
  buffer :: bytes
  byteOffset :: nat
  byteLength :: nat

definition view_bytes :: "u8view \<Rightarrow> bytes" where
  "view_bytes v = take (byteLength v) (drop (byteOffset v) (buffer v))"

text \<open>\<open>new Uint8Array(...)\<close> and every \<open>slice\<close> own their whole buffer.\<close>

definition whole :: "bytes \<Rightarrow> u8view" where
  "whole bs = \<lparr>buffer = bs, byteOffset = 0, byteLength = length bs\<rparr>"

lemma view_bytes_whole [simp]: "view_bytes (whole bs) = bs"
  by (simp add: view_bytes_def whole_def)

lemma buffer_whole [simp]: "buffer (whole bs) = bs" "byteLength (whole bs) = length bs"
  by (simp_all add: whole_def)

section \<open>packages/utils/src/bytes/index.ts\<close>

text \<open>\<open>concat(byteArrays, totalLength)\<close>: a zeroed array filled from the left.\<close>

fun concat_loop :: "bytes \<Rightarrow> nat \<Rightarrow> bytes list \<Rightarrow> bytes res" where
  "concat_loop r off [] = Inr r"
| "concat_loop r off (b # bs) = rbind (u8_set r b off) (\<lambda>r'. concat_loop r' (off + length b) bs)"

definition concatU8 :: "bytes list \<Rightarrow> nat option \<Rightarrow> bytes res" where
  "concatU8 byteArrays totalLength =
     (let len = nullish totalLength (foldl (\<lambda>acc curr. acc + length curr) 0 byteArrays)
      in concat_loop (replicate len 0) 0 byteArrays)"

lemma foldl_length: "foldl (\<lambda>acc curr. acc + length curr) n xss = n + length (concat xss)"
  by (induction xss arbitrary: n) auto

lemma concat_loop_fill:
  "length (concat bss) \<le> n \<Longrightarrow>
     concat_loop (pre @ replicate n 0) (length pre) bss =
       Inr (pre @ concat bss @ replicate (n - length (concat bss)) 0)"
proof (induction bss arbitrary: pre n)
  case Nil
  then show ?case by simp
next
  case (Cons b bss)
  have "concat_loop ((pre @ b) @ replicate (n - length b) 0) (length (pre @ b)) bss =
      Inr ((pre @ b) @ concat bss @ replicate (n - length b - length (concat bss)) 0)"
    using Cons.prems by (intro Cons.IH) simp
  with Cons.prems show ?case by (simp add: u8_set_fill add.commute)
qed

theorem concatU8_spec:
  "concatU8 bss tot =
     (let n = length (concat bss); len = nullish tot n
      in if n \<le> len then Inr (concat bss @ replicate (len - n) 0) else Inl RangeError)"
proof -
  have long: "concat_loop r off bss = Inl RangeError"
    if "off \<le> length r" "length r < off + length (concat bss)" for r off and bss :: "bytes list"
    using that
  proof (induction bss arbitrary: r off)
    case Nil
    then show ?case by simp
  next
    case (Cons b bss)
    then show ?case
      by (auto simp: u8_set_def)
  qed
  show ?thesis
    using concat_loop_fill [of bss "nullish tot (length (concat bss))" "[]"]
      long [of 0 "replicate (nullish tot (length (concat bss))) 0" bss]
    by (auto simp: concatU8_def foldl_length Let_def)
qed

text \<open>\<open>numberToBytes\<close> on a bigint: \<open>setBigInt64\<close>, eight bytes.\<close>

definition numberToBytes :: "int \<Rightarrow> bytes" where
  "numberToBytes value = bytes_be 8 value"

section \<open>packages/utils/src/common/is_size_valid.ts\<close>

definition MB :: nat where "MB = 1024 ^ 2"

definition SIZE_CAP_IN_MB :: nat where "SIZE_CAP_IN_MB = 1"

text \<open>The quotient \<open>buf.length / MB\<close> is exact in a double, so it is at most 1 just when the length is at most \<open>MB\<close>.\<close>

definition isWireSizeUnderCap :: "bytes \<Rightarrow> bool" where
  "isWireSizeUnderCap buf = (length buf \<le> SIZE_CAP_IN_MB * MB)"

definition isMessageSizeUnderCap :: "('msg \<Rightarrow> bytes option res) \<Rightarrow> 'msg \<Rightarrow> bool res" where
  "isMessageSizeUnderCap toWire message =
     rbind (toWire message)
       (\<lambda>buf. Inr (case buf of None \<Rightarrow> False | Some b \<Rightarrow> isWireSizeUnderCap b))"

end
