(* ===== verification/UtilsCommon.thy ===== *)
theory UtilsCommon
  imports JsMap JsString JsBytes "HOL-Library.Multiset"
begin

text \<open>
  The helpers of \<open>packages/utils/src/common\<close> that the protocols share: the pseudo random subset
  (the draws of \<open>Math.random\<close> are the argument \<open>draw\<close>), removal from an array, the choice of a
  websocket address, and the adapter \<open>toAsyncIterator\<close>, whose run is a list of events: a message
  pushed by the receiver, one turn of the generator's loop, a call of \<open>stop\<close>.
\<close>

section \<open>random_subset.ts\<close>

text \<open>\<open>draw i\<close> is the result of \<open>randInt\<close> in the \<open>i\<close>-th turn.\<close>

fun shuffle_loop :: "(nat \<Rightarrow> nat) \<Rightarrow> nat list \<Rightarrow> 'a list \<Rightarrow> 'a list" where
  "shuffle_loop draw [] arr = arr"
| "shuffle_loop draw (i # is) arr =
     (let j = draw i; tmp = arr ! i; arr1 = arr[i := arr ! j]
      in shuffle_loop draw is (arr1[j := tmp]))"

definition shuffle :: "(nat \<Rightarrow> nat) \<Rightarrow> 'a list \<Rightarrow> 'a list" where
  "shuffle draw arr = (if length arr \<le> 1 then arr else shuffle_loop draw [0..<length arr] arr)"

definition getPseudoRandomSubset :: "(nat \<Rightarrow> nat) \<Rightarrow> 'a list \<Rightarrow> nat \<Rightarrow> 'a list" where
  "getPseudoRandomSubset draw values wantedNumber =
     (if length values \<le> wantedNumber \<or> length values \<le> 1 then values
      else js_slice (shuffle draw values) 0 (int wantedNumber))"

section \<open>index.ts\<close>

fun indexOf :: "'a list \<Rightarrow> 'a \<Rightarrow> nat option" where
  "indexOf [] v = None"
| "indexOf (x # xs) v = (if x = v then Some 0 else map_option Suc (indexOf xs v))"

definition removeItemFromArray :: "'a list \<Rightarrow> 'a \<Rightarrow> 'a list" where
  "removeItemFromArray arr v =
     (case indexOf arr v of None \<Rightarrow> arr | Some i \<Rightarrow> take i arr @ drop (Suc i) arr)"

definition getWsMultiaddrFromMultiaddrs :: "('ma \<Rightarrow> string) \<Rightarrow> 'ma list \<Rightarrow> 'ma res" where
  "getWsMultiaddrFromMultiaddrs showMa addresses =
     (case find (\<lambda>addr. js_includes ''ws'' (showMa addr) \<or> js_includes ''wss'' (showMa addr)) addresses of
        None \<Rightarrow> Inl (Error ''No ws multiaddr found in the given addresses'')
      | Some a \<Rightarrow> Inr a)"

section \<open>to_async_iterator.ts\<close>

record 'm iteratorState =
  it_messages :: "'m list"
  it_subscribed :: bool
  it_yielded :: "'m option list"
  it_return :: "'m option option"

datatype 'm iteratorEvent = Push 'm | Turn bool | Stop

definition toAsyncIterator :: "'m iteratorState" where
  "toAsyncIterator = \<lparr>it_messages = [], it_subscribed = True, it_yielded = [], it_return = None\<rparr>"

text \<open>One turn of the loop; \<open>timedOut\<close> is the test \<open>isWithTimeout && Date.now() - startTime >= timeoutMs\<close>.\<close>

definition iteratorTurn :: "bool \<Rightarrow> 'm iteratorState \<Rightarrow> 'm iteratorState" where
  "iteratorTurn timedOut s =
     (if it_return s \<noteq> None then s
      else if timedOut then s\<lparr>it_return := Some None\<rparr>
      else
        let message = (case it_messages s of [] \<Rightarrow> None | m # _ \<Rightarrow> Some m);
            s1 = s\<lparr>it_messages := tl (it_messages s)\<rparr>
        in if \<not> it_subscribed s1 \<and> length (it_messages s1) = 0 then s1\<lparr>it_return := Some message\<rparr>
           else if message = None \<and> it_subscribed s1 then s1
           else s1\<lparr>it_yielded := it_yielded s1 @ [message]\<rparr>)"

fun iteratorStep :: "'m iteratorEvent \<Rightarrow> 'm iteratorState \<Rightarrow> 'm iteratorState" where
  "iteratorStep (Push m) s = s\<lparr>it_messages := it_messages s @ [m]\<rparr>"
| "iteratorStep (Turn timedOut) s = iteratorTurn timedOut s"
| "iteratorStep Stop s = s\<lparr>it_subscribed := False\<rparr>"

definition iteratorRun :: "'m iteratorEvent list \<Rightarrow> 'm iteratorState" where
  "iteratorRun evs = fold iteratorStep evs toAsyncIterator"

definition pushed :: "'m iteratorEvent list \<Rightarrow> 'm list" where
  "pushed evs = List.map_filter (\<lambda>e. case e of Push m \<Rightarrow> Some m | _ \<Rightarrow> None) evs"

section \<open>Lemmas\<close>

lemma mset_swap_update:
  "i < length xs \<Longrightarrow> j < length xs \<Longrightarrow> mset (xs[i := xs ! j, j := xs ! i]) = mset xs"
  by (rule mset_swap)

lemma shuffle_loop_mset:
  "(\<And>i. i \<in> set is \<Longrightarrow> i < length arr \<and> draw i < length arr) \<Longrightarrow> mset (shuffle_loop draw is arr) = mset arr"
proof (induction draw "is" arr rule: shuffle_loop.induct)
  case (1 draw arr)
  then show ?case by simp
next
  case (2 draw i "is" arr)
  then have "mset (shuffle_loop draw is (arr[i := arr ! draw i, draw i := arr ! i])) =
      mset (arr[i := arr ! draw i, draw i := arr ! i])"
    by (intro "2.IH") auto
  with "2.prems" show ?case by (simp add: Let_def mset_swap)
qed

lemma shuffle_mset: "(\<And>i. draw i < length arr) \<Longrightarrow> mset (shuffle draw arr) = mset arr"
  by (auto simp: shuffle_def intro: shuffle_loop_mset)

lemma shuffle_length: "(\<And>i. draw i < length arr) \<Longrightarrow> length (shuffle draw arr) = length arr"
  using shuffle_mset mset_eq_length by metis

lemma getPseudoRandomSubset_mset:
  assumes "\<And>i. draw i < length values"
  shows "mset (getPseudoRandomSubset draw values n) \<subseteq># mset values"
proof -
  have "mset (take n (shuffle draw values)) \<subseteq># mset (shuffle draw values)"
    by (metis append_take_drop_id mset_append mset_subset_eq_add_left)
  with assms show ?thesis
    using js_slice_nat [of "shuffle draw values" 0 n] by (simp add: getPseudoRandomSubset_def shuffle_mset)
qed

lemma getPseudoRandomSubset_length:
  assumes "\<And>i. draw i < length values"
  shows "length (getPseudoRandomSubset draw values n) =
    (if length values \<le> 1 then length values else min n (length values))"
  using js_slice_nat [of "shuffle draw values" 0 n] assms
  by (simp add: getPseudoRandomSubset_def shuffle_length min_def)

lemma removeItemFromArray_remove1: "removeItemFromArray arr v = remove1 v arr"
  by (induction arr) (auto simp: removeItemFromArray_def split: option.splits)

lemma getWs_found:
  "getWsMultiaddrFromMultiaddrs showMa as = Inr a \<Longrightarrow> a \<in> set as \<and> js_includes ''ws'' (showMa a)"
proof -
  have "js_includes ''wss'' s \<Longrightarrow> js_includes ''ws'' s" for s
    unfolding js_includes_iff by (metis append_Cons append_assoc append_Nil)
  then show "getWsMultiaddrFromMultiaddrs showMa as = Inr a \<Longrightarrow> a \<in> set as \<and> js_includes ''ws'' (showMa a)"
    by (auto simp: getWsMultiaddrFromMultiaddrs_def find_Some_iff split: option.splits)
qed

definition iteratorInv :: "'m list \<Rightarrow> 'm iteratorState \<Rightarrow> bool" where
  "iteratorInv ps s =
     (None \<notin> set (it_yielded s) \<and>
      map the (it_yielded s) @ (case it_return s of Some (Some m) \<Rightarrow> [m] | _ \<Rightarrow> []) @ it_messages s = ps)"

lemma iteratorTurn_inv: "iteratorInv ps s \<Longrightarrow> iteratorInv ps (iteratorTurn t s)"
  by (cases "it_messages s")
     (auto simp: iteratorInv_def iteratorTurn_def Let_def split: option.splits)

lemma pushed_snoc: "pushed (evs @ [e]) = pushed evs @ (case e of Push m \<Rightarrow> [m] | _ \<Rightarrow> [])"
  by (simp add: pushed_def map_filter_def split: iteratorEvent.split)

lemma iteratorRun_inv: "iteratorInv (pushed evs) (iteratorRun evs)"
proof (induction evs rule: rev_induct)
  case Nil
  then show ?case by (simp add: iteratorInv_def iteratorRun_def toAsyncIterator_def pushed_def)
next
  case (snoc e evs)
  then show ?case
    by (cases e) (auto simp: iteratorRun_def pushed_snoc iteratorTurn_inv, auto simp: iteratorInv_def)
qed

lemma iterator_drain:
  "fold iteratorStep (replicate (length (ms @ [m])) (Turn False))
     \<lparr>it_messages = ms @ [m], it_subscribed = False, it_yielded = ys, it_return = None\<rparr> =
   \<lparr>it_messages = [], it_subscribed = False, it_yielded = ys @ map Some ms, it_return = Some (Some m)\<rparr>"
  by (induction ms arbitrary: ys) (auto simp: iteratorTurn_def Let_def)

lemma iterator_fill:
  "fold iteratorStep (map Push ms) s = s\<lparr>it_messages := it_messages s @ ms\<rparr>"
  by (induction ms arbitrary: s) auto

section \<open>Properties\<close>

text \<open>The iterator neither loses, nor repeats, nor reorders a message inside the loop: at every
  moment of every run the values it yielded, then the value it returned with, then its buffer are the
  messages the receiver pushed, in their order. But when \<open>stop\<close> is called with a non-empty
  buffer, the last message leaves the generator as its return value and not as a yielded one, so
  a \<open>for await\<close> loop does not see it.\<close>

theorem toAsyncIterator_conserves:
  "map the (it_yielded (iteratorRun evs)) @
     (case it_return (iteratorRun evs) of Some (Some m) \<Rightarrow> [m] | _ \<Rightarrow> []) @ it_messages (iteratorRun evs)
     = pushed evs \<and>
   (let r = iteratorRun (map Push (ms @ [m]) @ Stop # replicate (length (ms @ [m])) (Turn False))
    in it_yielded r = map Some ms \<and> it_return r = Some (Some m))"
proof
  show "map the (it_yielded (iteratorRun evs)) @
      (case it_return (iteratorRun evs) of Some (Some m) \<Rightarrow> [m] | _ \<Rightarrow> []) @ it_messages (iteratorRun evs)
      = pushed evs"
    using iteratorRun_inv [of evs] by (simp add: iteratorInv_def)
  show "let r = iteratorRun (map Push (ms @ [m]) @ Stop # replicate (length (ms @ [m])) (Turn False))
    in it_yielded r = map Some ms \<and> it_return r = Some (Some m)"
    using iterator_drain [of ms m "[]"]
    by (simp add: iteratorRun_def toAsyncIterator_def iterator_fill Let_def del: replicate.simps)
qed

text \<open>The pseudo random subset is a part of the input of the wanted size, whatever the draws: no
  value is invented or taken twice. An input of at most one value is returned whole, also when none
  was wanted.\<close>

theorem pseudo_random_subset:
  assumes "\<And>i. draw i < length values"
  shows "mset (getPseudoRandomSubset draw values n) \<subseteq># mset values \<and>
    length (getPseudoRandomSubset draw values n) =
      (if length values \<le> 1 then length values else min n (length values))"
  using getPseudoRandomSubset_mset getPseudoRandomSubset_length assms by blast

theorem pseudo_random_subset_witness:
  "mset (getPseudoRandomSubset (\<lambda>i. (i + 1) mod 3) [''a'', ''b'', ''c''] 2) \<subseteq># mset [''a'', ''b'', ''c'']"
  using pseudo_random_subset [of "\<lambda>i. (i + 1) mod 3" "[''a'', ''b'', ''c'']" 2] by simp

end
