(* ===== verification/EnrCodecs.thy ===== *)
theory EnrCodecs
  imports JsBytes
begin

text \<open>
  \<open>packages/enr/src/waku2_codec.ts\<close> and \<open>multiaddrs_codec.ts\<close>: the capability bits of a node
  record and its list of length-prefixed multiaddresses.  The multiaddr package is outside the
  repository: \<open>maBytes\<close> gives the bytes of an address, \<open>maOf\<close> parses bytes, \<open>maPeerId\<close> is
  \<open>getPeerId()\<close>.
\<close>

unbundle bit_operations_syntax

section \<open>waku2_codec.ts\<close>

record waku2 =
  w2_relay :: bool
  w2_store :: bool
  w2_filter :: bool
  w2_lightPush :: bool

definition encodeWaku2 :: "waku2 \<Rightarrow> int" where
  "encodeWaku2 protocols =
     (let b0 = 0;
          b1 = (if w2_lightPush protocols then b0 + 1 else b0);
          b2 = push_bit 1 b1;
          b3 = (if w2_filter protocols then b2 + 1 else b2);
          b4 = push_bit 1 b3;
          b5 = (if w2_store protocols then b4 + 1 else b4);
          b6 = push_bit 1 b5
      in if w2_relay protocols then b6 + 1 else b6)"

definition decodeWaku2 :: "int \<Rightarrow> waku2" where
  "decodeWaku2 byt0 =
     (let byt1 = drop_bit 1 byt0; byt2 = drop_bit 1 byt1; byt3 = drop_bit 1 byt2
      in \<lparr>w2_relay = (js_rem byt0 2 \<noteq> 0), w2_store = (js_rem byt1 2 \<noteq> 0),
          w2_filter = (js_rem byt2 2 \<noteq> 0), w2_lightPush = (js_rem byt3 2 \<noteq> 0)\<rparr>)"

section \<open>multiaddrs_codec.ts\<close>

definition MULTIADDR_LENGTH_SIZE :: nat where "MULTIADDR_LENGTH_SIZE = 2"

text \<open>\<open>new DataView(bytes.buffer, index, 2).getUint16(0)\<close> reads the buffer, whatever the window.\<close>

definition readSize :: "u8view \<Rightarrow> nat \<Rightarrow> int res" where
  "readSize v index = getBE MULTIADDR_LENGTH_SIZE (buffer v) index"

function decodeMultiaddrs_loop :: "(bytes \<Rightarrow> 'ma res) \<Rightarrow> u8view \<Rightarrow> nat \<Rightarrow> 'ma list res" where
  "decodeMultiaddrs_loop maOf v index =
     (if index < byteLength v then
        rbind (readSize v index)
          (\<lambda>size.
             let start = index + MULTIADDR_LENGTH_SIZE;
                 multiaddrBytes = js_slice (view_bytes v) (int start) (int start + size)
             in rbind (maOf multiaddrBytes)
                  (\<lambda>ma. rbind (decodeMultiaddrs_loop maOf v (start + nat size))
                     (\<lambda>mas. Inr (ma # mas))))
      else Inr [])"
  by pat_completeness auto
termination
  by (relation "measure (\<lambda>(_, v, index). byteLength v - index)") (auto simp: MULTIADDR_LENGTH_SIZE_def)

declare decodeMultiaddrs_loop.simps [simp del]

definition decodeMultiaddrs :: "(bytes \<Rightarrow> 'ma res) \<Rightarrow> u8view \<Rightarrow> 'ma list res" where
  "decodeMultiaddrs maOf v = decodeMultiaddrs_loop maOf v 0"

fun encodeMultiaddrs_loop ::
  "('ma \<Rightarrow> bytes) \<Rightarrow> ('ma \<Rightarrow> string option) \<Rightarrow> 'ma list \<Rightarrow> nat \<Rightarrow> bytes \<Rightarrow> bytes res" where
  "encodeMultiaddrs_loop maBytes maPeerId [] index bs = Inr bs"
| "encodeMultiaddrs_loop maBytes maPeerId (ma # mas) index bs =
     (if nullish (maPeerId ma) '''' \<noteq> ''''
      then Inl (Error ''multiaddr field MUST not contain peer id'')
      else rbind (setBE MULTIADDR_LENGTH_SIZE bs index (int (length (maBytes ma))))
        (\<lambda>bs1. rbind (u8_set bs1 (maBytes ma) (index + MULTIADDR_LENGTH_SIZE))
          (encodeMultiaddrs_loop maBytes maPeerId mas
             (index + MULTIADDR_LENGTH_SIZE + length (maBytes ma)))))"

definition encodeMultiaddrs ::
  "('ma \<Rightarrow> bytes) \<Rightarrow> ('ma \<Rightarrow> string option) \<Rightarrow> 'ma list \<Rightarrow> bytes res" where
  "encodeMultiaddrs maBytes maPeerId mas =
     (let totalLength = foldl (\<lambda>acc ma. acc + MULTIADDR_LENGTH_SIZE + length (maBytes ma)) 0 mas
      in encodeMultiaddrs_loop maBytes maPeerId mas 0 (replicate totalLength 0))"

section \<open>Lemmas\<close>

lemma encodeWaku2_bounds: "0 \<le> encodeWaku2 p \<and> encodeWaku2 p < 16"
  by (simp add: encodeWaku2_def Let_def)

lemma decodeWaku2_encode: "decodeWaku2 (encodeWaku2 p) = p"
  by (cases p; cases "w2_relay p"; cases "w2_store p"; cases "w2_filter p"; cases "w2_lightPush p")
     (simp_all add: decodeWaku2_def encodeWaku2_def Let_def js_rem_def drop_bit_eq_div push_bit_eq_mult)

lemma mod_mult2_eq_int8:
  "b mod 2 + 2 * (b div 2 mod 2) + 4 * (b div 4 mod 2) + 8 * (b div 8 mod 2) = b mod 16" for b :: int
proof -
  have e: "(8::int) * 2 = 16" "(4::int) * 2 = 8" "(2::int) * 2 = 4" by simp_all
  have "b mod (8 * 2) = 8 * (b div 8 mod 2) + b mod 8" by (rule zmod_zmult2_eq) simp
  moreover have "b mod (4 * 2) = 4 * (b div 4 mod 2) + b mod 4" by (rule zmod_zmult2_eq) simp
  moreover have "b mod (2 * 2) = 2 * (b div 2 mod 2) + b mod 2" by (rule zmod_zmult2_eq) simp
  ultimately show ?thesis unfolding e by linarith
qed

lemma js_rem_2: "0 \<le> x \<Longrightarrow> (js_rem x 2 \<noteq> 0) = odd x"
  unfolding even_iff_mod_2_eq_zero by (subst js_rem_nonneg) simp_all

lemma odd_term: "(if odd x then y + 1 else y) = y + x mod 2" for x y :: int
  by presburger

lemma encodeWaku2_decode:
  assumes "0 \<le> b"
  shows "encodeWaku2 (decodeWaku2 b) = b mod 16"
proof -
  have nn: "0 \<le> b div 2" "0 \<le> b div 4" "0 \<le> b div 8"
    using assms by (simp_all add: pos_imp_zdiv_nonneg_iff)
  have d: "b div 2 div 2 = b div 4" "b div 4 div 2 = b div 8"
    using zdiv_zmult2_eq [of 2 b 2] zdiv_zmult2_eq [of 2 b 4] by simp_all
  have "decodeWaku2 b = \<lparr>w2_relay = odd b, w2_store = odd (b div 2), w2_filter = odd (b div 4),
      w2_lightPush = odd (b div 8)\<rparr>"
    using nn assms by (simp only: decodeWaku2_def Let_def drop_bit_eq_div power_one_right d js_rem_2)
  moreover have "(((0 + x3) * 2 + x2) * 2 + x1) * 2 + x0 = x0 + 2 * x1 + 4 * x2 + 8 * x3" for x0 x1 x2 x3 :: int
    by simp
  ultimately have "encodeWaku2 (decodeWaku2 b) =
      b mod 2 + 2 * (b div 2 mod 2) + 4 * (b div 4 mod 2) + 8 * (b div 8 mod 2)"
    by (simp only: encodeWaku2_def waku2.simps Let_def push_bit_eq_mult power_one_right odd_term)
  also have "\<dots> = b mod 16"
    by (rule mod_mult2_eq_int8)
  finally show ?thesis .
qed

definition maEntry :: "bytes \<Rightarrow> bytes" where
  "maEntry bs = bytes_be 2 (int (length bs)) @ bs"

lemma total_length:
  "foldl (\<lambda>acc ma. acc + MULTIADDR_LENGTH_SIZE + length (maBytes ma)) n mas =
     n + length (concat (map (\<lambda>m. maEntry (maBytes m)) mas))"
  by (induction mas arbitrary: n) (auto simp: MULTIADDR_LENGTH_SIZE_def maEntry_def)

lemma encodeMultiaddrs_loop_spec:
  assumes "\<And>m. m \<in> set mas \<Longrightarrow> nullish (maPeerId m) '''' = ''''"
  shows "encodeMultiaddrs_loop maBytes maPeerId mas (length pre)
      (pre @ replicate (length (concat (map (\<lambda>m. maEntry (maBytes m)) mas))) 0) =
    Inr (pre @ concat (map (\<lambda>m. maEntry (maBytes m)) mas))"
  using assms
proof (induction mas arbitrary: pre)
  case Nil
  then show ?case by simp
next
  case (Cons m mas)
  let ?rest = "length (concat (map (\<lambda>m. maEntry (maBytes m)) mas))" and ?len = "bytes_be 2 (int (length (maBytes m)))"
  have "setBE 2 (pre @ replicate (2 + length (maBytes m) + ?rest) 0) (length pre) (int (length (maBytes m))) =
      Inr ((pre @ ?len) @ replicate (length (maBytes m) + ?rest) 0)"
    using setBE_fill [of 2 "2 + length (maBytes m) + ?rest" pre] by simp
  moreover have "u8_set ((pre @ ?len) @ replicate (length (maBytes m) + ?rest) 0) (maBytes m) (length pre + 2) =
      Inr ((pre @ ?len @ maBytes m) @ replicate ?rest 0)"
    using u8_set_fill [of "maBytes m" "length (maBytes m) + ?rest" "pre @ ?len"] by simp
  moreover have "length (pre @ ?len @ maBytes m) = length pre + 2 + length (maBytes m)" by simp
  moreover note Cons.IH [of "pre @ ?len @ maBytes m"]
  ultimately show ?case
    using Cons.prems by (simp add: MULTIADDR_LENGTH_SIZE_def maEntry_def add.assoc del: bytes_be.simps)
qed

lemma encodeMultiaddrs_spec:
  assumes "\<And>m. m \<in> set mas \<Longrightarrow> nullish (maPeerId m) '''' = ''''"
  shows "encodeMultiaddrs maBytes maPeerId mas = Inr (concat (map (\<lambda>m. maEntry (maBytes m)) mas))"
  using encodeMultiaddrs_loop_spec [of mas maPeerId maBytes "[]"] assms
  by (simp add: encodeMultiaddrs_def total_length)

lemma encodeMultiaddrs_peerId:
  assumes "m \<in> set mas" and "nullish (maPeerId m) '''' \<noteq> ''''"
  shows "\<exists>e. encodeMultiaddrs maBytes maPeerId mas = Inl e"
proof -
  have "\<exists>e. encodeMultiaddrs_loop maBytes maPeerId mas i bs = Inl e" for i bs
    using assms
  proof (induction mas arbitrary: i bs)
    case Nil
    then show ?case by simp
  next
    case (Cons m' mas)
    then show ?case
      by (auto simp: rbind_def split: sum.splits)
  qed
  then show ?thesis by (simp add: encodeMultiaddrs_def)
qed

lemma decodeMultiaddrs_loop_spec:
  assumes "\<And>m. m \<in> set mas \<Longrightarrow> length (maBytes m) < 65536 \<and> maOf (maBytes m) = Inr m"
  shows "decodeMultiaddrs_loop maOf (whole (pre @ concat (map (\<lambda>m. maEntry (maBytes m)) mas))) (length pre) = Inr mas"
  using assms
proof (induction mas arbitrary: pre)
  case Nil
  then show ?case by (simp add: decodeMultiaddrs_loop.simps)
next
  case (Cons m mas)
  let ?post = "concat (map (\<lambda>m. maEntry (maBytes m)) mas)" and ?len = "bytes_be 2 (int (length (maBytes m)))"
  let ?v = "whole (pre @ ?len @ maBytes m @ ?post)"
  have "readSize ?v (length pre) = Inr (int (length (maBytes m)))"
    using getBE_append [of "length pre" pre 2 "int (length (maBytes m))" "maBytes m @ ?post"] Cons.prems
    by (simp add: readSize_def MULTIADDR_LENGTH_SIZE_def)
  moreover have "js_slice (view_bytes ?v) (int (length pre + 2)) (int (length pre + 2) + int (length (maBytes m))) = maBytes m"
    using js_slice_nat [of "view_bytes ?v" "length pre + 2" "length pre + 2 + length (maBytes m)"]
    by (simp add: algebra_simps)
  moreover have "decodeMultiaddrs_loop maOf ?v (length pre + 2 + length (maBytes m)) = Inr mas"
    using Cons.IH [of "pre @ ?len @ maBytes m"] Cons.prems by (simp add: add.assoc del: bytes_be.simps)
  moreover have "length pre < byteLength ?v" by simp
  ultimately have "decodeMultiaddrs_loop maOf ?v (length pre) = Inr (m # mas)"
    using Cons.prems by (subst decodeMultiaddrs_loop.simps) (simp add: MULTIADDR_LENGTH_SIZE_def Let_def del: of_nat_add)
  then show ?case by (simp add: maEntry_def)
qed

lemma decodeMultiaddrs_encode:
  assumes "\<And>m. m \<in> set mas \<Longrightarrow> nullish (maPeerId m) '''' = '''' \<and> length (maBytes m) < 65536 \<and> maOf (maBytes m) = Inr m"
  shows "rbind (encodeMultiaddrs maBytes maPeerId mas) (\<lambda>bs. decodeMultiaddrs maOf (whole bs)) = Inr mas"
  using encodeMultiaddrs_spec [of mas maPeerId maBytes] decodeMultiaddrs_loop_spec [of mas maBytes maOf "[]"] assms
  by (simp add: decodeMultiaddrs_def)

interpretation waku2Codec: codec "\<lambda>p. Inr (encodeWaku2 p)" "\<lambda>b. Inr (decodeWaku2 b)" "\<lambda>_. True"
  by unfold_locales (simp add: decodeWaku2_encode)

interpretation multiaddrsCodec: codec "encodeMultiaddrs maBytes maPeerId" "\<lambda>bs. decodeMultiaddrs maOf (whole bs)"
    "list_all (\<lambda>m. nullish (maPeerId m) '''' = '''' \<and> length (maBytes m) < 65536 \<and> maOf (maBytes m) = Inr m)"
  for maBytes maPeerId maOf
proof
  fix mas
  assume "list_all (\<lambda>m. nullish (maPeerId m) '''' = '''' \<and> length (maBytes m) < 65536 \<and> maOf (maBytes m) = Inr m) mas"
  then show "\<exists>b. encodeMultiaddrs maBytes maPeerId mas = Inr b \<and> decodeMultiaddrs maOf (whole b) = Inr mas"
    using decodeMultiaddrs_encode [of mas maPeerId maBytes maOf] by (auto simp: list_all_iff rbind_eq_Inr)
qed

end
