(* ===== verification/Sharding.thy ===== *)
theory Sharding
  imports JsMap JsString JsBytes
begin

text \<open>
  \<open>packages/utils/src/common/sharding\<close>: static sharding (a cluster and shard indices), automatic
  sharding (content topics hashed to a shard) and the pubsub topic names both lead to.  The
  UTF-8 encoder and SHA-256 are packages outside the repository, so they are the arguments
  \<open>utf8\<close> and \<open>sha256\<close>.
\<close>

section \<open>Data\<close>

definition DEFAULT_CLUSTER_ID :: int where "DEFAULT_CLUSTER_ID = 1"

record singleShardInfo =
  ssi_clusterId :: "int option"
  ssi_shard :: "int option"

record shardInfo =
  sh_clusterId :: "int option"
  sh_shards :: "int list"

text \<open>
  \<open>Partial<NetworkConfig>\<close>: the code tells the kinds of configuration apart by which properties
  the object has.
\<close>

definition DefaultShardInfo :: shardInfo where
  "DefaultShardInfo = \<lparr>sh_clusterId = Some DEFAULT_CLUSTER_ID, sh_shards = [0, 1, 2, 3, 4, 5, 6, 7, 8]\<rparr>"

record networkConfig =
  nc_clusterId :: "int jsprop"
  nc_shards :: "int list jsprop"
  nc_contentTopics :: "string list jsprop"
  nc_application :: "string jsprop"
  nc_version :: "string jsprop"

record contentTopicFields =
  ct_generation :: int
  ct_application :: string
  ct_version :: string
  ct_topicName :: string
  ct_encoding :: string

datatype shardInfoOrTopic = Topic string | Shard singleShardInfo

text \<open>The configurations \<open>{clusterId, shards}\<close> and \<open>{clusterId, contentTopics}\<close>.\<close>

definition staticConfig :: "int option \<Rightarrow> int list \<Rightarrow> networkConfig" where
  "staticConfig c s =
     \<lparr>nc_clusterId = (case c of None \<Rightarrow> Undefined | Some i \<Rightarrow> Val i), nc_shards = Val s,
      nc_contentTopics = Absent, nc_application = Absent, nc_version = Absent\<rparr>"

definition autoConfig :: "int jsprop \<Rightarrow> string list \<Rightarrow> networkConfig" where
  "autoConfig c ts =
     \<lparr>nc_clusterId = c, nc_shards = Absent,
      nc_contentTopics = Val ts, nc_application = Absent, nc_version = Absent\<rparr>"

text \<open>The template literal \<open>/waku/2/rs/cluster/shard\<close>.\<close>

definition rsTopic :: "int \<Rightarrow> int \<Rightarrow> string" where
  "rsTopic c s = ''/waku/2/rs/'' @ show_int c @ ''/'' @ show_int s"

section \<open>type_guards.ts\<close>

definition isStaticSharding :: "networkConfig \<Rightarrow> bool" where
  "isStaticSharding config =
     (present (nc_clusterId config) \<and> present (nc_shards config) \<and> \<not> present (nc_contentTopics config))"

definition isAutoSharding :: "networkConfig \<Rightarrow> bool" where
  "isAutoSharding config = present (nc_contentTopics config)"

section \<open>Content topics\<close>

definition ensureValidContentTopic :: "string \<Rightarrow> contentTopicFields res" where
  "ensureValidContentTopic contentTopic =
     (let parts = js_split (CHR ''/'') contentTopic;
          fields = drop (length parts - 4) parts
      in if length parts < 5 \<or> length parts > 6 then Inl (Error ''Content topic format is invalid'')
         else rbind
           (if length parts = 6
            then (case parseInt (parts ! 1) of
                    None \<Rightarrow> Inl (Error ''Invalid generation field in content topic'')
                  | Some g \<Rightarrow> if g > 0 then Inl (Error ''Generation greater than 0 is not supported'')
                              else Inr g)
            else Inr 0)
           (\<lambda>generation.
              if fields ! 0 = [] then Inl (Error ''Application field cannot be empty'')
              else if fields ! 1 = [] then Inl (Error ''Version field cannot be empty'')
              else if fields ! 2 = [] then Inl (Error ''Topic name field cannot be empty'')
              else if fields ! 3 = [] then Inl (Error ''Encoding field cannot be empty'')
              else Inr \<lparr>ct_generation = generation, ct_application = fields ! 0,
                        ct_version = fields ! 1, ct_topicName = fields ! 2,
                        ct_encoding = fields ! 3\<rparr>))"

definition contentTopicToShardIndex ::
  "(string \<Rightarrow> bytes) \<Rightarrow> (bytes \<Rightarrow> bytes) \<Rightarrow> string \<Rightarrow> int \<Rightarrow> int res" where
  "contentTopicToShardIndex utf8 sha256 contentTopic networkShards =
     rbind (ensureValidContentTopic contentTopic)
       (\<lambda>f. let digest = sha256 (concat [utf8 (ct_application f), utf8 (ct_version f)])
             in rbind (getBE 8 (js_slice_from digest (- 8)) 0)
                  (\<lambda>v. if networkShards = 0 then Inl RangeError else Inr (js_rem v networkShards)))"

definition contentTopicToPubsubTopic ::
  "(string \<Rightarrow> bytes) \<Rightarrow> (bytes \<Rightarrow> bytes) \<Rightarrow> string \<Rightarrow> int option \<Rightarrow> int \<Rightarrow> string res" where
  "contentTopicToPubsubTopic utf8 sha256 contentTopic clusterId networkShards =
     (if contentTopic = [] then Inl (Error ''Content topic must be specified'')
      else rbind (contentTopicToShardIndex utf8 sha256 contentTopic networkShards)
             (\<lambda>shardIndex. Inr (rsTopic (nullish clusterId DEFAULT_CLUSTER_ID) shardIndex)))"

fun contentTopicsByPubsubTopic_loop ::
  "(string \<Rightarrow> string res) \<Rightarrow> string list \<Rightarrow> (string, string list) jsmap \<Rightarrow> (string, string list) jsmap res" where
  "contentTopicsByPubsubTopic_loop f [] m = Inr m"
| "contentTopicsByPubsubTopic_loop f (c # cs) m =
     rbind (f c) (\<lambda>p. contentTopicsByPubsubTopic_loop f cs (jm_push p c m))"

definition contentTopicsByPubsubTopic ::
  "(string \<Rightarrow> bytes) \<Rightarrow> (bytes \<Rightarrow> bytes) \<Rightarrow> string list \<Rightarrow> int \<Rightarrow> int \<Rightarrow>
     (string, string list) jsmap res" where
  "contentTopicsByPubsubTopic utf8 sha256 contentTopics clusterId networkShards =
     contentTopicsByPubsubTopic_loop
       (\<lambda>ct. contentTopicToPubsubTopic utf8 sha256 ct (Some clusterId) networkShards) contentTopics []"

section \<open>Shard information\<close>

definition singleShardInfoToPubsubTopic :: "singleShardInfo \<Rightarrow> string res" where
  "singleShardInfoToPubsubTopic shardInfo =
     (case ssi_shard shardInfo of
        None \<Rightarrow> Inl (Error ''Invalid shard'')
      | Some s \<Rightarrow> Inr (rsTopic (nullish (ssi_clusterId shardInfo) DEFAULT_CLUSTER_ID) s))"

definition singleShardInfosToShardInfo :: "singleShardInfo list \<Rightarrow> shardInfo res" where
  "singleShardInfosToShardInfo singleShardInfos =
     (if singleShardInfos = [] then Inl (Error ''Invalid shard'')
      else if length (uniq (map ssi_clusterId singleShardInfos)) \<noteq> 1
      then Inl (Error ''Passed shard infos have different clusterIds'')
      else Inr \<lparr>sh_clusterId = ssi_clusterId (hd singleShardInfos),
                sh_shards = List.map_filter ssi_shard singleShardInfos\<rparr>)"

definition propStr :: "string jsprop \<Rightarrow> string" where
  "propStr p = nullish (propVal p) ''undefined''"

definition shardInfoToPubsubTopics ::
  "(string \<Rightarrow> bytes) \<Rightarrow> (bytes \<Rightarrow> bytes) \<Rightarrow> networkConfig \<Rightarrow> string list res" where
  "shardInfoToPubsubTopics utf8 sha256 info =
     (case propVal (nc_contentTopics info) of
        Some contentTopics \<Rightarrow>
          rbind (mapM (\<lambda>ct. contentTopicToPubsubTopic utf8 sha256 ct (propVal (nc_clusterId info)) 8)
                   contentTopics) (\<lambda>ts. Inr (uniq ts))
      | None \<Rightarrow>
          if present (nc_shards info)
          then (case propVal (nc_shards info) of
                  None \<Rightarrow> Inl (Error ''Invalid shard'')
                | Some shards \<Rightarrow>
                    Inr (uniq (map (rsTopic (nullish (propVal (nc_clusterId info)) DEFAULT_CLUSTER_ID)) shards)))
          else if present (nc_application info) \<and> present (nc_version info)
          then rbind (contentTopicToPubsubTopic utf8 sha256
                   (''/'' @ propStr (nc_application info) @ ''/'' @ propStr (nc_version info) @ ''/default/default'')
                   (propVal (nc_clusterId info)) 8) (\<lambda>t. Inr [t])
          else Inl (Error ''Missing required configuration in shard parameters''))"

definition pubsubTopicToSingleShardInfo :: "string \<Rightarrow> singleShardInfo res" where
  "pubsubTopicToSingleShardInfo pubsubTopics =
     (let parts = js_split (CHR ''/'') pubsubTopics
      in if length parts \<noteq> 6 \<or> parts ! 1 \<noteq> ''waku'' \<or> parts ! 2 \<noteq> ''2'' \<or> parts ! 3 \<noteq> ''rs''
         then Inl (Error ''Invalid pubsub topic'')
         else (case (parseInt (parts ! 4), parseInt (parts ! 5)) of
                 (Some c, Some s) \<Rightarrow> Inr \<lparr>ssi_clusterId = Some c, ssi_shard = Some s\<rparr>
               | _ \<Rightarrow> Inl (Error ''Invalid clusterId or shard'')))"

definition pubsubTopicsToShardInfo :: "string list \<Rightarrow> shardInfo res" where
  "pubsubTopicsToShardInfo pubsubTopics =
     rbind (mapM pubsubTopicToSingleShardInfo pubsubTopics)
       (\<lambda>infos.
          let pairs = map (\<lambda>i. (the (ssi_clusterId i), the (ssi_shard i))) infos;
              shardInfoSet = uniq (map (\<lambda>(c, s). show_int c @ '':'' @ show_int s) pairs);
              clusterIds = uniq (map fst pairs)
          in if shardInfoSet = [] then Inl (Error ''No valid pubsub topics provided'')
             else if length clusterIds > 1
             then Inl (Error ''Pubsub topics from multiple cluster IDs are not supported'')
             else Inr \<lparr>sh_clusterId = Some (hd clusterIds),
                       sh_shards = map (\<lambda>info. the (parseInt (js_split (CHR '':'') info ! 1))) shardInfoSet\<rparr>)"

definition ensurePubsubTopicIsConfigured :: "string \<Rightarrow> string list \<Rightarrow> unit res" where
  "ensurePubsubTopicIsConfigured pubsubTopic configuredTopics =
     (if pubsubTopic \<in> set configuredTopics then Inr ()
      else Inl (Error ''Pubsub topic has not been configured on this instance''))"

definition determinePubsubTopic ::
  "(string \<Rightarrow> bytes) \<Rightarrow> (bytes \<Rightarrow> bytes) \<Rightarrow> string \<Rightarrow> shardInfoOrTopic option \<Rightarrow> string res" where
  "determinePubsubTopic utf8 sha256 contentTopic info =
     (case info of
        Some (Topic t) \<Rightarrow> Inr t
      | Some (Shard s) \<Rightarrow>
          if ssi_shard s \<noteq> None then singleShardInfoToPubsubTopic s
          else contentTopicToPubsubTopic utf8 sha256 contentTopic
                 (Some (nullish (ssi_clusterId s) DEFAULT_CLUSTER_ID)) 8
      | None \<Rightarrow> contentTopicToPubsubTopic utf8 sha256 contentTopic (Some DEFAULT_CLUSTER_ID) 8)"

definition derivePubsubTopicsFromNetworkConfig ::
  "(string \<Rightarrow> bytes) \<Rightarrow> (bytes \<Rightarrow> bytes) \<Rightarrow> networkConfig \<Rightarrow> string list res" where
  "derivePubsubTopicsFromNetworkConfig utf8 sha256 config =
     (if isStaticSharding config then
        (case propVal (nc_shards config) of
           None \<Rightarrow> Inl TypeError
         | Some shards \<Rightarrow>
             if shards = []
             then Inl (Error ''Invalid shards configuration: please provide at least one shard'')
             else shardInfoToPubsubTopics utf8 sha256 config)
      else if isAutoSharding config then
        (case propVal (nc_contentTopics config) of
           None \<Rightarrow> Inl TypeError
         | Some cts \<Rightarrow>
             if cts = []
             then Inl (Error ''Invalid content topics configuration: please provide at least one content topic'')
             else mapM (\<lambda>ct. contentTopicToPubsubTopic utf8 sha256 ct (propVal (nc_clusterId config)) 8) cts)
      else Inl (Error ''Unknown shard config. Please use ShardInfo or ContentTopicInfo''))"

definition ensureShardingConfigured ::
  "(string \<Rightarrow> bytes) \<Rightarrow> (bytes \<Rightarrow> bytes) \<Rightarrow> networkConfig \<Rightarrow> (shardInfo \<times> string list) res" where
  "ensureShardingConfigured utf8 sha256 config =
     (let clusterId = nullish (propVal (nc_clusterId config)) DEFAULT_CLUSTER_ID;
          shards = nullish (propVal (nc_shards config)) [];
          contentTopics = nullish (propVal (nc_contentTopics config)) []
      in if shards \<noteq> [] then
           rbind (shardInfoToPubsubTopics utf8 sha256 (staticConfig (Some clusterId) shards))
             (\<lambda>ts. Inr (\<lparr>sh_clusterId = Some clusterId, sh_shards = shards\<rparr>, ts))
         else if contentTopics \<noteq> [] then
           rbind (mapM (\<lambda>t. contentTopicToPubsubTopic utf8 sha256 t (Some clusterId) 8) contentTopics)
             (\<lambda>ts. rbind (mapM (\<lambda>t. contentTopicToShardIndex utf8 sha256 t 8) contentTopics)
                (\<lambda>ss. Inr (\<lparr>sh_clusterId = Some clusterId, sh_shards = uniq ss\<rparr>, uniq ts)))
         else Inl (Error ''Missing minimum required configuration options for static sharding or autosharding.''))"

section \<open>Topic names and shard information\<close>

lemma show_int_no_slash: "CHR ''/'' \<notin> set (show_int i)"
  by (auto dest!: show_int_chars)

lemma show_int_no_colon: "CHR '':'' \<notin> set (show_int i)"
  by (auto dest!: show_int_chars)

lemma rsTopic_split:
  "js_split (CHR ''/'') (rsTopic c s) = [[], ''waku'', ''2'', ''rs'', show_int c, show_int s]"
  by (simp add: rsTopic_def show_int_no_slash js_split_append js_split_no_sep)

lemma pubsubTopicToSingleShardInfo_rsTopic [simp]:
  "pubsubTopicToSingleShardInfo (rsTopic c s) = Inr \<lparr>ssi_clusterId = Some c, ssi_shard = Some s\<rparr>"
  by (simp add: pubsubTopicToSingleShardInfo_def rsTopic_split parseInt_show_int)

interpretation topicCodec: codec singleShardInfoToPubsubTopic pubsubTopicToSingleShardInfo
    "\<lambda>i. ssi_clusterId i \<noteq> None \<and> ssi_shard i \<noteq> None"
  by unfold_locales (auto simp: singleShardInfoToPubsubTopic_def)

lemma rsTopic_inj [simp]: "rsTopic c s = rsTopic c' s' \<longleftrightarrow> c = c' \<and> s = s'"
proof
  assume "rsTopic c s = rsTopic c' s'"
  then have "pubsubTopicToSingleShardInfo (rsTopic c s) = pubsubTopicToSingleShardInfo (rsTopic c' s')"
    by (rule arg_cong)
  then show "c = c' \<and> s = s'" by simp
qed simp

lemma uniq_map_rsTopic: "uniq (map (rsTopic c) ss) = map (rsTopic c) (uniq ss)"
  by (rule uniq_map_inj) (auto simp: inj_on_def)

definition shardPair :: "int \<Rightarrow> int \<Rightarrow> string" where
  "shardPair c s = show_int c @ '':'' @ show_int s"

lemma shardPair_split: "js_split (CHR '':'') (shardPair c s) = [show_int c, show_int s]"
  using js_split_append [of "CHR '':''" "show_int c" "show_int s"]
  by (simp add: shardPair_def show_int_no_colon js_split_no_sep)

lemma shardPair_shard: "the (parseInt (js_split (CHR '':'') (shardPair c s) ! 1)) = s"
  by (simp add: shardPair_split parseInt_show_int)

lemma uniq_map_shardPair: "uniq (map (shardPair c) ss) = map (shardPair c) (uniq ss)"
proof (rule uniq_map_inj)
  show "inj_on (shardPair c) (set ss)"
    by (rule inj_on_inverseI [where g = "\<lambda>p. the (parseInt (js_split (CHR '':'') p ! 1))"])
       (rule shardPair_shard)
qed

lemma uniq_replicate: "ss \<noteq> [] \<Longrightarrow> uniq (map (\<lambda>_. c) ss) = [c]"
  by (induction ss) (auto simp: filter_empty_conv)

lemma pubsubTopicsToShardInfo_rsTopics:
  assumes "ss \<noteq> []"
  shows "pubsubTopicsToShardInfo (map (rsTopic c) ss) =
    Inr \<lparr>sh_clusterId = Some c, sh_shards = uniq ss\<rparr>"
proof -
  let ?infos = "map (\<lambda>s. \<lparr>ssi_clusterId = Some c, ssi_shard = Some s\<rparr>) ss"
  have "mapM singleShardInfoToPubsubTopic ?infos = Inr (map (rsTopic c) ss)"
    by (induction ss) (auto simp: singleShardInfoToPubsubTopic_def)
  then have "mapM pubsubTopicToSingleShardInfo (map (rsTopic c) ss) = Inr ?infos"
    using topicCodec.list_roundtrip [of ?infos] by (auto simp: list_all_iff)
  moreover have "map (\<lambda>(c, s). show_int c @ '':'' @ show_int s)
      (map (\<lambda>i. (the (ssi_clusterId i), the (ssi_shard i))) ?infos) = map (shardPair c) ss"
    by (simp add: shardPair_def)
  moreover have "map fst (map (\<lambda>i. (the (ssi_clusterId i), the (ssi_shard i))) ?infos) = map (\<lambda>_. c) ss"
    by simp
  ultimately show ?thesis
    using assms by (simp only: pubsubTopicsToShardInfo_def rbind_simps Let_def)
      (simp add: uniq_map_shardPair uniq_replicate shardPair_shard [unfolded One_nat_def] comp_def)
qed

lemma shardInfoToPubsubTopics_static:
  "shardInfoToPubsubTopics utf8 sha256 (staticConfig c ss) =
     Inr (map (rsTopic (nullish c DEFAULT_CLUSTER_ID)) (uniq ss))"
  by (cases c) (simp_all add: shardInfoToPubsubTopics_def staticConfig_def uniq_map_rsTopic)

section \<open>Automatic sharding\<close>

lemma contentTopicToShardIndex_valid:
  assumes "ensureValidContentTopic t = Inr f" and "\<And>b. length (sha256 b) = 32" and "0 < n"
  shows "contentTopicToShardIndex utf8 sha256 t n =
    Inr (val_be (drop 24 (sha256 (utf8 (ct_application f) @ utf8 (ct_version f)))) mod n)"
  using assms val_be_bounds [of "drop 24 (sha256 (utf8 (ct_application f) @ utf8 (ct_version f)))"]
  by (simp add: contentTopicToShardIndex_def getBE_def js_slice_from_def slice_pos_def js_rem_nonneg)

lemma contentTopicToPubsubTopic_Inr:
  "contentTopicToPubsubTopic utf8 sha256 t c n = Inr p \<longleftrightarrow>
     t \<noteq> [] \<and> (\<exists>i. contentTopicToShardIndex utf8 sha256 t n = Inr i \<and>
                     p = rsTopic (nullish c DEFAULT_CLUSTER_ID) i)"
  by (auto simp: contentTopicToPubsubTopic_def rbind_eq_Inr)

lemma mapM_contentTopicToPubsubTopic:
  "mapM (\<lambda>t. contentTopicToPubsubTopic utf8 sha256 t c n) ts = Inr ps \<Longrightarrow>
   mapM (\<lambda>t. contentTopicToShardIndex utf8 sha256 t n) ts = Inr ss \<Longrightarrow>
   ps = map (rsTopic (nullish c DEFAULT_CLUSTER_ID)) ss"
  by (induction ts arbitrary: ps ss) (auto simp: rbind_eq_Inr contentTopicToPubsubTopic_Inr)

lemma contentTopicsByPubsubTopic_loop_Inr:
  "contentTopicsByPubsubTopic_loop f cs m = Inr m' \<longleftrightarrow>
     (\<forall>c \<in> set cs. \<exists>p. f c = Inr p) \<and> m' = fold (\<lambda>c. jm_push (projr (f c)) c) cs m"
  by (induction cs arbitrary: m) (auto simp: rbind_eq_Inr split: sum.splits)

lemma contentTopicsByPubsubTopic_Inr:
  "contentTopicsByPubsubTopic utf8 sha256 cts c n = Inr m \<longleftrightarrow>
     (\<forall>ct \<in> set cts. \<exists>p. contentTopicToPubsubTopic utf8 sha256 ct (Some c) n = Inr p) \<and>
     m = groupByKey (\<lambda>ct. projr (contentTopicToPubsubTopic utf8 sha256 ct (Some c) n)) cts"
  by (simp add: contentTopicsByPubsubTopic_def contentTopicsByPubsubTopic_loop_Inr groupByKey_def)

section \<open>Properties\<close>

text \<open>The name of a pubsub topic determines its cluster and shard: parsing the topic that
  \<open>singleShardInfoToPubsubTopic\<close> builds returns the shard and the cluster it was built from (the
  default cluster when none was given), and a missing shard is the error \<open>Invalid shard\<close>.\<close>

theorem pubsub_topic_roundtrip:
  "rbind (singleShardInfoToPubsubTopic i) pubsubTopicToSingleShardInfo =
     (case ssi_shard i of
        None \<Rightarrow> Inl (Error ''Invalid shard'')
      | Some s \<Rightarrow> Inr \<lparr>ssi_clusterId = Some (nullish (ssi_clusterId i) DEFAULT_CLUSTER_ID),
                       ssi_shard = Some s\<rparr>)"
  by (simp add: singleShardInfoToPubsubTopic_def split: option.split)

text \<open>For static sharding, the pubsub topics of a configuration carry the whole configuration:
  reading the shard information back gives the same cluster and the same shards without repetition;
  a configuration without shards has no topics to read it back from.\<close>

theorem static_topics_roundtrip:
  "rbind (shardInfoToPubsubTopics utf8 sha256 (staticConfig c ss)) pubsubTopicsToShardInfo =
     (if ss = [] then Inl (Error ''No valid pubsub topics provided'')
      else Inr \<lparr>sh_clusterId = Some (nullish c DEFAULT_CLUSTER_ID), sh_shards = uniq ss\<rparr>)"
proof (cases "ss = []")
  case True
  then show ?thesis by (simp add: shardInfoToPubsubTopics_static pubsubTopicsToShardInfo_def)
next
  case False
  then show ?thesis by (simp add: shardInfoToPubsubTopics_static pubsubTopicsToShardInfo_rsTopics)
qed

text \<open>Automatic sharding is total and consistent on valid content topics: a valid topic has a
  shard index, the index lies below the number of shards of the network, and every other valid topic
  of the same application and version has the same index, whatever its generation, name and
  encoding. SHA-256 returns 32 bytes.\<close>

theorem shard_index_bounds:
  assumes "\<And>b. length (sha256 b) = 32" and "0 < n" and "ensureValidContentTopic t = Inr f"
  shows "\<exists>i. contentTopicToShardIndex utf8 sha256 t n = Inr i \<and> 0 \<le> i \<and> i < n \<and>
    (\<forall>t' f'. ensureValidContentTopic t' = Inr f' \<longrightarrow> ct_application f' = ct_application f \<longrightarrow>
       ct_version f' = ct_version f \<longrightarrow> contentTopicToShardIndex utf8 sha256 t' n = Inr i)"
  using contentTopicToShardIndex_valid [OF assms(3,1,2)]
    contentTopicToShardIndex_valid [OF _ assms(1,2)] assms(2)
  by simp

definition demoSha :: "bytes \<Rightarrow> bytes" where
  "demoSha bs = replicate 31 0 @ [word_of_nat (length bs)]"

definition demoUtf8 :: "string \<Rightarrow> bytes" where
  "demoUtf8 s = map (\<lambda>c. word_of_nat (of_char c)) s"

theorem shard_index_bounds_witness:
  "\<exists>i. contentTopicToShardIndex demoUtf8 demoSha ''/app/1/name/proto'' 3 = Inr i \<and> 0 \<le> i \<and> i < 3"
proof -
  have "ensureValidContentTopic ''/app/1/name/proto'' =
      Inr \<lparr>ct_generation = 0, ct_application = ''app'', ct_version = ''1'', ct_topicName = ''name'',
           ct_encoding = ''proto''\<rparr>"
    by (simp add: ensureValidContentTopic_def)
  moreover have "length (demoSha b) = 32" for b by (simp add: demoSha_def)
  ultimately show ?thesis
    using shard_index_bounds [of demoSha 3 "''/app/1/name/proto''" _ demoUtf8] by auto
qed

text \<open>C19: A validated configuration is consistent with itself: the pubsub topics
  \<open>ensureShardingConfigured\<close> returns are those of the shard information it returns, without
  repetition, and reading them back gives the same cluster and shards.\<close>

theorem ensureShardingConfigured_consistent:
  assumes "ensureShardingConfigured utf8 sha256 config = Inr (info, topics)"
  shows "shardInfoToPubsubTopics utf8 sha256 (staticConfig (sh_clusterId info) (sh_shards info)) = Inr topics
    \<and> distinct topics \<and> topics \<noteq> []
    \<and> pubsubTopicsToShardInfo topics =
        Inr \<lparr>sh_clusterId = sh_clusterId info, sh_shards = uniq (sh_shards info)\<rparr>"
proof -
  obtain c where c: "sh_clusterId info = Some c" "topics = map (rsTopic c) (uniq (sh_shards info))"
    "sh_shards info \<noteq> []"
    using assms mapM_length
    by (fastforce simp: ensureShardingConfigured_def Let_def rbind_eq_Inr shardInfoToPubsubTopics_static
        uniq_map_rsTopic dest: mapM_contentTopicToPubsubTopic split: if_splits)
  then show ?thesis
    by (simp add: shardInfoToPubsubTopics_static pubsubTopicsToShardInfo_rsTopics distinct_map inj_on_def)
qed

theorem ensureShardingConfigured_consistent_witness:
  "pubsubTopicsToShardInfo [''/waku/2/rs/16/3'', ''/waku/2/rs/16/5''] =
     Inr \<lparr>sh_clusterId = Some 16, sh_shards = [3, 5]\<rparr>"
proof -
  have "ensureShardingConfigured demoUtf8 demoSha (staticConfig (Some 16) [3, 5, 3]) =
      Inr (\<lparr>sh_clusterId = Some 16, sh_shards = [3, 5, 3]\<rparr>, [''/waku/2/rs/16/3'', ''/waku/2/rs/16/5''])"
    by code_simp
  from ensureShardingConfigured_consistent [OF this] show ?thesis by simp
qed

text \<open>\<open>contentTopicsByPubsubTopic\<close> groups: it returns exactly when every content topic is
  valid, and then every pubsub topic maps to the content topics that belong to it, all of them, in
  their order, with no empty group.\<close>

theorem contentTopicsByPubsubTopic_groups:
  "(\<exists>m. contentTopicsByPubsubTopic utf8 sha256 cts c n = Inr m \<and> jm_wf m \<and>
      (\<forall>p. jm_get m p =
         (let group = filter (\<lambda>ct. contentTopicToPubsubTopic utf8 sha256 ct (Some c) n = Inr p) cts
          in if group = [] then None else Some group))) \<longleftrightarrow>
    list_all (\<lambda>ct. \<not> isl (contentTopicToPubsubTopic utf8 sha256 ct (Some c) n)) cts"
proof -
  let ?f = "\<lambda>ct. contentTopicToPubsubTopic utf8 sha256 ct (Some c) n"
  let ?ok = "\<forall>ct \<in> set cts. \<exists>q. ?f ct = Inr q"
  have group: "(if p \<in> (\<lambda>ct. projr (?f ct)) ` set cts then Some (filter (\<lambda>ct. projr (?f ct) = p) cts) else None)
      = (if filter (\<lambda>ct. ?f ct = Inr p) cts = [] then None else Some (filter (\<lambda>ct. ?f ct = Inr p) cts))"
    if "?ok" for p
  proof -
    have "filter (\<lambda>ct. projr (?f ct) = p) cts = filter (\<lambda>ct. ?f ct = Inr p) cts"
      using that by (intro filter_cong) auto
    moreover have "p \<in> (\<lambda>ct. projr (?f ct)) ` set cts \<longleftrightarrow> filter (\<lambda>ct. projr (?f ct) = p) cts \<noteq> []"
      by (auto simp: filter_empty_conv)
    ultimately show ?thesis by simp
  qed
  have ok: "list_all (\<lambda>ct. \<not> isl (?f ct)) cts \<longleftrightarrow> ?ok"
    by (auto simp: list_all_iff isl_def) (metis sum.exhaust)
  have "contentTopicsByPubsubTopic utf8 sha256 cts c n = Inr m \<longleftrightarrow>
      ?ok \<and> m = groupByKey (\<lambda>ct. projr (?f ct)) cts" for m
    by (rule contentTopicsByPubsubTopic_Inr)
  then show ?thesis
    unfolding ok by (cases "?ok") (simp_all add: groupByKey_get groupByKey_wf Let_def group del: filter_empty_conv)
qed

end
