(* ===== verification/RelayShardCodec.thy ===== *)
theory RelayShardCodec
  imports Sharding
begin

text \<open>
  \<open>packages/utils/src/common/relay_shard_codec.ts\<close>: the relay shard field of a node record.  Up
  to 63 shards are an index list of two bytes each (\<open>rs\<close>), 64 and more are a bit vector of 1,024
  shards (\<open>rsv\<close>).  Offsets and shards are integers as in the source, so a negative offset is a
  \<open>RangeError\<close> of the view and \<open>%\<close> takes the sign of its dividend.
\<close>

unbundle bit_operations_syntax

section \<open>Definitions\<close>

definition getUint8 :: "bytes \<Rightarrow> int \<Rightarrow> int res" where
  "getUint8 view off = (if off < 0 then Inl RangeError else getBE 1 view (nat off))"

definition setUint8 :: "bytes \<Rightarrow> int \<Rightarrow> int \<Rightarrow> bytes res" where
  "setUint8 view off v = (if off < 0 then Inl RangeError else setBE 1 view (nat off) v)"

fun decode_rsv :: "bytes \<Rightarrow> nat list \<Rightarrow> int list res" where
  "decode_rsv view [] = Inr []"
| "decode_rsv view (i # is) =
     (let byteIndex = i div 8 + 2; bitIndex = 7 - i mod 8
      in rbind (getUint8 view (int byteIndex))
           (\<lambda>v. rbind (decode_rsv view is)
              (\<lambda>shards. Inr (if v AND push_bit bitIndex 1 \<noteq> 0 then int i # shards else shards))))"

fun decode_rs :: "bytes \<Rightarrow> nat \<Rightarrow> nat \<Rightarrow> int list res" where
  "decode_rs view 0 offset = Inr []"
| "decode_rs view (Suc remaining) offset =
     (if offset + 1 \<ge> length view then Inl (Error ''Unexpected end of data'')
      else rbind (getBE 2 view offset)
             (\<lambda>s. rbind (decode_rs view remaining (offset + 2)) (\<lambda>shards. Inr (s # shards))))"

definition decodeRelayShard :: "bytes \<Rightarrow> shardInfo res" where
  "decodeRelayShard bs =
     (if length bs < 3 then Inl (Error ''Insufficient data'')
      else rbind (getBE 2 bs 0)
        (\<lambda>clusterId.
           rbind (if length bs = 130 then decode_rsv bs [0..<1024]
                  else rbind (getBE 1 bs 2) (\<lambda>numIndices. decode_rs bs (nat numIndices) 3))
             (\<lambda>shards. Inr \<lparr>sh_clusterId = Some clusterId, sh_shards = shards\<rparr>)))"

fun encode_rsv :: "int list \<Rightarrow> bytes \<Rightarrow> bytes res" where
  "encode_rsv [] view = Inr view"
| "encode_rsv (index # shards) view =
     (let byteIndex = index div 8 + 2; bitIndex = nat (7 - js_rem index 8)
      in rbind (getUint8 view byteIndex)
           (\<lambda>v. rbind (setUint8 view byteIndex (v OR push_bit bitIndex 1)) (encode_rsv shards)))"

fun encode_rs :: "int list \<Rightarrow> nat \<Rightarrow> bytes \<Rightarrow> bytes res" where
  "encode_rs [] offset view = Inr view"
| "encode_rs (s # shards) offset view =
     rbind (setBE 2 view offset s) (encode_rs shards (offset + 2))"

definition encodeRelayShard :: "shardInfo \<Rightarrow> bytes res" where
  "encodeRelayShard info =
     (let shards = sh_shards info;
          totalLength = (if length shards \<ge> 64 then 130 else 3 + 2 * length shards)
      in rbind (setBE 2 (replicate totalLength 0) 0 (nullish (sh_clusterId info) 0))
           (\<lambda>view.
              if length shards \<ge> 64 then encode_rsv shards view
              else rbind (setBE 1 view 2 (int (length shards))) (encode_rs shards 3)))"

section \<open>The index list\<close>

lemma bytes_be_1: "bytes_be 1 v = [word_of_int v]"
  by (simp add: One_nat_def)

lemma encode_rs_spec:
  "encode_rs ss (length pre) (pre @ replicate (2 * length ss) 0) = Inr (pre @ concat (map (bytes_be 2) ss))"
proof (induction ss arbitrary: pre)
  case Nil
  then show ?case by simp
next
  case (Cons s ss)
  have "setBE 2 (pre @ replicate (2 * length (s # ss)) 0) (length pre) s =
      Inr ((pre @ bytes_be 2 s) @ replicate (2 * length ss) 0)"
    using setBE_fill [of 2 "2 * length (s # ss)" pre 0 s] by simp
  moreover note Cons.IH [of "pre @ bytes_be 2 s"]
  ultimately show ?case by simp
qed

lemma decode_rs_spec:
  "offset = length pre \<Longrightarrow>
     decode_rs (pre @ concat (map (bytes_be 2) ss)) (length ss) offset = Inr (map (\<lambda>s. s mod 65536) ss)"
proof (induction ss arbitrary: pre offset)
  case Nil
  then show ?case by simp
next
  case (Cons s ss)
  have "decode_rs ((pre @ bytes_be 2 s) @ concat (map (bytes_be 2) ss)) (length ss) (offset + 2) =
      Inr (map (\<lambda>s. s mod 65536) ss)"
    using Cons.prems by (intro Cons.IH) simp
  then show ?case
    using Cons.prems getBE_append [of offset pre 2 s "concat (map (bytes_be 2) ss)"] by simp
qed

lemma encodeRelayShard_rs:
  assumes "length (sh_shards info) < 64"
  shows "encodeRelayShard info =
    Inr (bytes_be 2 (nullish (sh_clusterId info) 0) @ bytes_be 1 (int (length (sh_shards info))) @
         concat (map (bytes_be 2) (sh_shards info)))"
proof -
  let ?n = "length (sh_shards info)" and ?c = "bytes_be 2 (nullish (sh_clusterId info) 0)"
  have "setBE 2 (replicate (3 + 2 * ?n) 0) 0 (nullish (sh_clusterId info) 0) =
      Inr (?c @ replicate (1 + 2 * ?n) 0)"
    using setBE_fill [of 2 "3 + 2 * ?n" "[]"] by simp
  moreover have "setBE 1 (?c @ replicate (1 + 2 * ?n) 0) 2 (int ?n) =
      Inr ((?c @ bytes_be 1 (int ?n)) @ replicate (2 * ?n) 0)"
    using setBE_fill [of 1 "1 + 2 * ?n" ?c] by simp
  ultimately show ?thesis
    using assms encode_rs_spec [of "sh_shards info" "?c @ bytes_be 1 (int ?n)"]
    by (simp add: encodeRelayShard_def Let_def del: bytes_be.simps)
qed

lemma decodeRelayShard_rs:
  assumes "length ss < 64"
  shows "decodeRelayShard (bytes_be 2 c @ bytes_be 1 (int (length ss)) @ concat (map (bytes_be 2) ss)) =
    Inr \<lparr>sh_clusterId = Some (c mod 65536), sh_shards = map (\<lambda>s. s mod 65536) ss\<rparr>"
proof -
  let ?bs = "bytes_be 2 c @ bytes_be 1 (int (length ss)) @ concat (map (bytes_be 2) ss)"
  have "length (concat (map (bytes_be 2) ss)) = 2 * length ss"
    by (induction ss) auto
  then have len: "length ?bs = 3 + 2 * length ss" by simp
  have "getBE 2 ?bs 0 = Inr (c mod 65536)"
    using getBE_append [of 0 "[]" 2 c] by simp
  moreover have "getBE 1 ?bs 2 = Inr (int (length ss))"
    using getBE_append [of 2 "bytes_be 2 c" 1 "int (length ss)" "concat (map (bytes_be 2) ss)"] assms
    by simp
  moreover have "decode_rs ?bs (length ss) 3 = Inr (map (\<lambda>s. s mod 65536) ss)"
    using decode_rs_spec [of 3 "bytes_be 2 c @ bytes_be 1 (int (length ss))" ss] by simp
  moreover have "3 + 2 * length ss \<noteq> 130" by presburger
  ultimately show ?thesis
    using len by (simp add: decodeRelayShard_def del: bytes_be.simps)
qed

section \<open>The bit vector\<close>

definition rsvBit :: "bytes \<Rightarrow> nat \<Rightarrow> bool" where
  "rsvBit view i = bit (view ! (i div 8 + 2)) (7 - i mod 8)"

lemma getUint8_nth: "k < length view \<Longrightarrow> getUint8 view (int k) = Inr (uint (view ! k))"
  by (simp add: getUint8_def getBE_def take_Suc_conv_app_nth hd_drop_conv_nth take_Suc val_be_def)

lemma setUint8_nth: "k < length view \<Longrightarrow> setUint8 view (int k) v = Inr (view[k := word_of_int v])"
  by (simp add: setUint8_def setBE_def u8_set_def upd_conv_take_nth_drop One_nat_def)

lemma encode_rsv_step:
  assumes "length view = 130" and "i < 1024"
  defines "k \<equiv> i div 8 + 2" and "j \<equiv> 7 - i mod 8"
  shows "encode_rsv (int i # ss) view =
    encode_rsv ss (view[k := word_of_int (uint (view ! k) OR push_bit j 1)])"
proof -
  have k: "k < length view" "int i div 8 + 2 = int k" using assms by (auto simp: zdiv_int)
  have "nat (7 - js_rem (int i) 8) = j" unfolding js_rem_nonneg [of "int i" 8, simplified] j_def
    by (simp add: nat_diff_distrib' nat_mod_distrib)
  with k show ?thesis by (simp add: getUint8_nth setUint8_nth)
qed

lemma rsvBit_update:
  assumes "length view = 130" and "i < 1024" and "m < 1024"
  defines "k \<equiv> i div 8 + 2" and "j \<equiv> 7 - i mod 8"
  shows "rsvBit (view[k := word_of_int (uint (view ! k) OR push_bit j 1)]) m \<longleftrightarrow> rsvBit view m \<or> m = i"
proof (cases "m div 8 = i div 8")
  case False
  then show ?thesis using assms by (auto simp: rsvBit_def)
next
  case True
  then have "m = i \<longleftrightarrow> m mod 8 = i mod 8" by (metis div_mult_mod_eq)
  moreover have "7 - m mod 8 = 7 - i mod 8 \<longleftrightarrow> m mod 8 = i mod 8"
    using mod_less_divisor [of 8 m] mod_less_divisor [of 8 i] by linarith
  moreover have "7 - m mod 8 < (8::nat)" by simp
  ultimately show ?thesis
    using True assms
    by (auto simp: rsvBit_def bit_simps j_def simp del: diff_less_Suc)
qed

lemma encode_rsv_spec:
  assumes "length view = 130" and "\<And>s. s \<in> set ss \<Longrightarrow> s < 1024"
  shows "\<exists>view'. encode_rsv (map int ss) view = Inr view' \<and> length view' = 130 \<and>
    take 2 view' = take 2 view \<and> (\<forall>m < 1024. rsvBit view' m \<longleftrightarrow> rsvBit view m \<or> m \<in> set ss)"
  using assms
proof (induction ss arbitrary: view)
  case Nil
  then show ?case by simp
next
  case (Cons s ss)
  let ?k = "s div 8 + 2" and ?j = "7 - s mod 8"
  let ?v = "view[?k := word_of_int (uint (view ! ?k) OR push_bit ?j 1)]"
  have "take 2 ?v = take 2 view" "length ?v = 130"
    using Cons.prems by (simp_all add: take_update_cancel)
  moreover obtain view' where "encode_rsv (map int ss) ?v = Inr view'" "length view' = 130"
      "take 2 view' = take 2 ?v" "\<forall>m < 1024. rsvBit view' m \<longleftrightarrow> rsvBit ?v m \<or> m \<in> set ss"
    using Cons.IH [of ?v] Cons.prems by auto
  moreover have "s < 1024" using Cons.prems by simp
  ultimately show ?case
    using Cons.prems(1) encode_rsv_step [of view s "map int ss"] rsvBit_update [of view s]
    by (auto simp del: encode_rsv.simps)
qed

lemma decode_rsv_spec:
  assumes "length view = 130" and "\<And>i. i \<in> set is \<Longrightarrow> i < 1024"
  shows "decode_rsv view is = Inr (map int (filter (rsvBit view) is))"
  using assms(2)
proof (induction "is")
  case Nil
  then show ?case by simp
next
  case (Cons i "is")
  then have "i < 1024" by simp
  then have "i div 8 + 2 < length view" using assms(1) by simp
  moreover have "(uint b AND push_bit j 1 \<noteq> 0) = bit b j" if "j < 8" for b :: byte and j
    using that by (simp add: push_bit_eq_mult and_exp_eq_0_iff_not_bit bit_uint_iff)
  moreover have "7 - i mod 8 < 8" by simp
  ultimately show ?case
    using Cons getUint8_nth [of "i div 8 + 2" view]
    by (simp add: rsvBit_def Let_def del: of_nat_add)
qed

lemma rsvBit_zero: "length pre = 2 \<Longrightarrow> i < 1024 \<Longrightarrow> \<not> rsvBit (pre @ replicate 128 0) i"
  by (auto simp: rsvBit_def nth_append)

lemma encodeRelayShard_rsv:
  assumes "64 \<le> length ss" and "\<And>s. s \<in> set ss \<Longrightarrow> s < 1024"
  shows "\<exists>bs. encodeRelayShard \<lparr>sh_clusterId = c, sh_shards = map int ss\<rparr> = Inr bs \<and> length bs = 130 \<and>
    take 2 bs = bytes_be 2 (nullish c 0) \<and> (\<forall>m < 1024. rsvBit bs m \<longleftrightarrow> m \<in> set ss)"
proof -
  let ?v = "bytes_be 2 (nullish c 0) @ replicate 128 0"
  have "setBE 2 (replicate 130 0) 0 (nullish c 0) = Inr ?v"
    using setBE_fill [of 2 130 "[]"] by simp
  moreover have "length ?v = 130" by simp
  then obtain bs where "encode_rsv (map int ss) ?v = Inr bs" "length bs = 130" "take 2 bs = take 2 ?v"
      "\<forall>m < 1024. rsvBit bs m \<longleftrightarrow> rsvBit ?v m \<or> m \<in> set ss"
    using encode_rsv_spec [of ?v ss] assms(2) by blast
  ultimately show ?thesis
    using assms(1) by (auto simp: encodeRelayShard_def rsvBit_zero simp del: bytes_be.simps)
qed

lemma filter_upt_set:
  "(\<And>s. s \<in> set ss \<Longrightarrow> s < n) \<Longrightarrow> filter (\<lambda>i. i \<in> set ss) [0..<n] = sorted_list_of_set (set ss)"
  by (intro sorted_distinct_set_unique) (auto intro: sorted_wrt_filter)

lemma decodeRelayShard_rsv:
  assumes "length bs = 130"
  shows "decodeRelayShard bs =
    Inr \<lparr>sh_clusterId = Some (val_be (take 2 bs)), sh_shards = map int (filter (rsvBit bs) [0..<1024])\<rparr>"
proof -
  have "decode_rsv bs [0..<1024] = Inr (map int (filter (rsvBit bs) [0..<1024]))"
    using assms by (intro decode_rsv_spec) auto
  with assms show ?thesis by (simp add: decodeRelayShard_def getBE_def)
qed

lemma encode_rsv_out_of_range:
  assumes "length view = 130" and "\<And>s. s \<in> set ss \<Longrightarrow> 0 \<le> s" and "\<exists>s \<in> set ss. 1024 \<le> s"
  shows "encode_rsv ss view = Inl RangeError"
  using assms
proof (induction ss arbitrary: view)
  case Nil
  then show ?case by simp
next
  case (Cons s ss)
  show ?case
  proof (cases "s < 1024")
    case True
    then obtain i where "s = int i" "i < 1024" using Cons.prems(2) nonneg_int_cases
      by (metis list.set_intros(1) of_nat_less_iff of_nat_numeral)
    with Cons True show ?thesis
      by (auto simp: encode_rsv_step simp del: encode_rsv.simps)
  next
    case False
    then have "128 \<le> s div 8" by simp
    then have "getUint8 view (s div 8 + 2) = Inl RangeError"
      using Cons.prems(1) by (simp add: getUint8_def getBE_def)
    then show ?thesis by (simp add: Let_def)
  qed
qed

section \<open>The contract of the codec\<close>

definition relayShardValid :: "shardInfo \<Rightarrow> bool" where
  "relayShardValid info =
     ((case sh_clusterId info of None \<Rightarrow> False | Some c \<Rightarrow> 0 \<le> c \<and> c < 65536) \<and>
      list_all (\<lambda>s. 0 \<le> s \<and> s < (if length (sh_shards info) < 64 then 65536 else 1024)) (sh_shards info))"

definition relayShardNormal :: "shardInfo \<Rightarrow> shardInfo" where
  "relayShardNormal info =
     (if length (sh_shards info) < 64 then info
      else info\<lparr>sh_shards := sorted_list_of_set (set (sh_shards info))\<rparr>)"

lemma map_int_nat: "(\<And>s. s \<in> set ss \<Longrightarrow> 0 \<le> s) \<Longrightarrow> map int (map nat ss) = ss"
  by (induction ss) auto

lemma sorted_list_of_set_int: "map int (sorted_list_of_set (set ss)) = sorted_list_of_set (int ` set ss)"
  by (intro sorted_distinct_set_unique) (auto simp: sorted_wrt_map distinct_map inj_on_def)

lemma relayShard_roundtrip_normal:
  assumes "relayShardValid info"
  shows "rbind (encodeRelayShard info) decodeRelayShard = Inr (relayShardNormal info)"
proof -
  obtain c where c: "sh_clusterId info = Some c" "0 \<le> c" "c < 65536"
    using assms by (auto simp: relayShardValid_def split: option.splits)
  show ?thesis
  proof (cases "length (sh_shards info) < 64")
    case True
    then have "map (\<lambda>s. s mod 65536) (sh_shards info) = sh_shards info"
      using assms by (intro map_idI) (auto simp: relayShardValid_def list_all_iff)
    with True c show ?thesis
      using decodeRelayShard_rs [OF True, of c] mod_pos_pos_trivial [of c 65536]
      by (cases info) (simp add: encodeRelayShard_rs relayShardNormal_def del: bytes_be.simps)
  next
    case False
    define ss where "ss = map nat (sh_shards info)"
    have ss: "map int ss = sh_shards info" "\<And>s. s \<in> set ss \<Longrightarrow> s < 1024" "64 \<le> length ss"
      using assms False map_int_nat [of "sh_shards info"]
      by (auto simp: relayShardValid_def list_all_iff ss_def)
    then have info: "info = \<lparr>sh_clusterId = Some c, sh_shards = map int ss\<rparr>" using c by (cases info) simp
    obtain bs where bs: "encodeRelayShard info = Inr bs" "length bs = 130" "take 2 bs = bytes_be 2 c"
        "\<And>m. m < 1024 \<Longrightarrow> rsvBit bs m \<longleftrightarrow> m \<in> set ss"
      using encodeRelayShard_rsv [OF ss(3,2), of "Some c"] info by auto
    then have "filter (rsvBit bs) [0..<1024] = sorted_list_of_set (set ss)"
      using filter_upt_set [of ss 1024] ss(2) filter_cong [of "[0..<1024]" _ "rsvBit bs" "\<lambda>i. i \<in> set ss"]
      by auto
    with bs c False show ?thesis
      by (simp add: decodeRelayShard_rsv val_be_bytes_be relayShardNormal_def sorted_list_of_set_int
          info flip: ss(1))
  qed
qed

interpretation relayShardCodec: codec encodeRelayShard decodeRelayShard
    "\<lambda>info. relayShardValid info \<and> relayShardNormal info = info"
proof
  fix info :: shardInfo
  assume "relayShardValid info \<and> relayShardNormal info = info"
  then show "\<exists>b. encodeRelayShard info = Inr b \<and> decodeRelayShard b = Inr info"
    using relayShard_roundtrip_normal [of info] by (auto simp: rbind_eq_Inr)
qed

text \<open>C37: Decoding an encoded relay shard field gives the shard information back: unchanged up to 63
  shards, and as the sorted set of its shards from 64 on, when the field is a bit vector. The cluster
  fits 16 bits, and so does a listed shard; a shard of the bit vector is below 1,024.\<close>

theorem relay_shard_roundtrip:
  assumes "sh_clusterId info = Some c" and "0 \<le> c" and "c < 65536"
    and "\<And>s. s \<in> set (sh_shards info) \<Longrightarrow> 0 \<le> s \<and> s < (if length (sh_shards info) < 64 then 65536 else 1024)"
  shows "rbind (encodeRelayShard info) decodeRelayShard =
    Inr (if length (sh_shards info) < 64 then info
         else \<lparr>sh_clusterId = Some c, sh_shards = sorted_list_of_set (set (sh_shards info))\<rparr>)"
proof -
  have "relayShardValid info" using assms by (simp add: relayShardValid_def list_all_iff)
  then show ?thesis
    using relayShard_roundtrip_normal assms(1) by (cases info) (simp add: relayShardNormal_def)
qed

theorem relay_shard_roundtrip_witness:
  "rbind (encodeRelayShard \<lparr>sh_clusterId = Some 16, sh_shards = [7, 2, 65535]\<rparr>) decodeRelayShard =
     Inr \<lparr>sh_clusterId = Some 16, sh_shards = [7, 2, 65535]\<rparr>"
  by (subst relay_shard_roundtrip) auto

text \<open>From 64 non-negative shards on, encoding succeeds exactly when every shard is below 1,024,
  the capacity of the bit vector; one that is not makes the write run past the 130 bytes and throws.\<close>

theorem relay_shard_capacity:
  assumes "64 \<le> length (sh_shards info)" and "\<And>s. s \<in> set (sh_shards info) \<Longrightarrow> 0 \<le> s"
  shows "(if \<forall>s \<in> set (sh_shards info). s < 1024
          then \<exists>bs. encodeRelayShard info = Inr bs \<and> length bs = 130
          else encodeRelayShard info = Inl RangeError)"
proof (cases "\<forall>s \<in> set (sh_shards info). s < 1024")
  case True
  have "map int (map nat (sh_shards info)) = sh_shards info" by (rule map_int_nat) (rule assms(2))
  moreover have "64 \<le> length (map nat (sh_shards info))" using assms(1) by simp
  moreover have "s < 1024" if "s \<in> set (map nat (sh_shards info))" for s
    using True that assms(2) by auto
  ultimately obtain bs where "encodeRelayShard info = Inr bs" "length bs = 130"
    using encodeRelayShard_rsv [of "map nat (sh_shards info)" "sh_clusterId info"] by (cases info) auto
  with True show ?thesis by auto
next
  case False
  then have "encode_rsv (sh_shards info) view = Inl RangeError" if "length view = 130" for view
    using that assms(2) by (intro encode_rsv_out_of_range) (auto simp: not_less)
  moreover obtain view where "setBE 2 (replicate 130 0) 0 (nullish (sh_clusterId info) 0) = Inr view"
      "length view = 130"
    using setBE_fill [of 2 130 "[]"] by fastforce
  ultimately show ?thesis
    using False assms(1) by (simp add: encodeRelayShard_def)
qed

theorem relay_shard_capacity_witness:
  "encodeRelayShard \<lparr>sh_clusterId = Some 1, sh_shards = replicate 63 4 @ [1024]\<rparr> = Inl RangeError"
proof -
  let ?info = "\<lparr>sh_clusterId = Some 1, sh_shards = replicate 63 4 @ [1024]\<rparr>"
  have "64 \<le> length (sh_shards ?info)" "\<And>s. s \<in> set (sh_shards ?info) \<Longrightarrow> 0 \<le> s" by auto
  from relay_shard_capacity [OF this] show ?thesis by (simp split: if_splits)
qed

end
