(* ===== verification/Enr.thy ===== *)
theory Enr
  imports EnrCodecs RelayShardCodec "HOL-Library.Multiset"
begin

text \<open>
  \<open>packages/enr/src\<close>: node records (\<open>raw_enr.ts\<close>, \<open>enr.ts\<close>), their location multiaddresses
  (\<open>get_multiaddr.ts\<close>, \<open>multiaddr_from_fields.ts\<close>), and their encoding (\<open>encoder.ts\<close>,
  \<open>decoder.ts\<close>, \<open>creator.ts\<close>).  RLP, the curve, Keccak, the text encodings and multiaddresses are
  packages outside the repository: the record \<open>enrLib\<close> holds the functions of theirs that the code
  calls.  The values of a record are arrays that own their buffer.
\<close>

section \<open>State\<close>

record ('pid, 'ma) enrLib =
  rlpEncode :: "bytes list \<Rightarrow> bytes"
  rlpDecode :: "bytes \<Rightarrow> bytes list res"
  keccak256 :: "bytes \<Rightarrow> bytes"
  secpSign :: "bytes \<Rightarrow> bytes \<Rightarrow> bytes"
  secpVerify :: "bytes \<Rightarrow> bytes \<Rightarrow> bytes \<Rightarrow> bool res"
  secpRawBytes :: "bool \<Rightarrow> bytes \<Rightarrow> bytes res"
  utf8Enc :: "string \<Rightarrow> bytes"
  utf8Dec :: "bytes \<Rightarrow> string res"
  bytesToHex :: "bytes \<Rightarrow> string"
  base64Enc :: "bytes \<Rightarrow> string"
  base64Dec :: "string \<Rightarrow> bytes res"
  sortKeys :: "string list \<Rightarrow> string list"
  peerIdOf :: "bytes \<Rightarrow> 'pid res"
  peerIdStr :: "'pid \<Rightarrow> string"
  convertToString :: "string \<Rightarrow> bytes \<Rightarrow> string res"
  convertToBytes :: "string \<Rightarrow> string \<Rightarrow> bytes res"
  maBytes :: "'ma \<Rightarrow> bytes"
  maOf :: "bytes \<Rightarrow> 'ma res"
  maOfStr :: "string \<Rightarrow> 'ma res"
  maPeerId :: "'ma \<Rightarrow> string option"
  maProtoNames :: "'ma \<Rightarrow> string list"
  maTuples :: "'ma \<Rightarrow> (int \<times> bytes option) list"
  maEncapsulate :: "'ma \<Rightarrow> 'ma \<Rightarrow> 'ma"

record 'pid enr =
  enr_kvs :: "(string, bytes) jsmap"
  enr_seq :: int
  enr_signature :: "bytes option"
  enr_peerId :: "'pid option"

definition ERR_INVALID_ID :: exn where "ERR_INVALID_ID = Error ''Invalid record id''"
definition ERR_NO_SIGNATURE :: exn where "ERR_NO_SIGNATURE = Error ''No valid signature found''"
definition MAX_RECORD_SIZE :: nat where "MAX_RECORD_SIZE = 300"

section \<open>raw_enr.ts\<close>

definition enr_get :: "string \<Rightarrow> 'pid enr \<Rightarrow> bytes option" where
  "enr_get k e = jm_get (enr_kvs e) k"

definition enr_set :: "string \<Rightarrow> bytes \<Rightarrow> 'pid enr \<Rightarrow> 'pid enr" where
  "enr_set k v e = e\<lparr>enr_signature := None, enr_seq := enr_seq e + 1, enr_kvs := jm_set k v (enr_kvs e)\<rparr>"

text \<open>\<open>delete\<close> is that of \<open>Map\<close>: it is not overridden.\<close>

definition enr_delete :: "string \<Rightarrow> 'pid enr \<Rightarrow> 'pid enr" where
  "enr_delete k e = e\<lparr>enr_kvs := jm_delete k (enr_kvs e)\<rparr>"

definition enr_id :: "('pid, 'ma) enrLib \<Rightarrow> 'pid enr \<Rightarrow> string res" where
  "enr_id L e = (case enr_get ''id'' e of None \<Rightarrow> Inl (Error ''id not found.'') | Some i \<Rightarrow> utf8Dec L i)"

definition enr_publicKey :: "('pid, 'ma) enrLib \<Rightarrow> 'pid enr \<Rightarrow> bytes option res" where
  "enr_publicKey L e =
     rbind (enr_id L e) (\<lambda>i. if i = ''v4'' then Inr (enr_get ''secp256k1'' e) else Inl ERR_INVALID_ID)"

definition enr_rs :: "'pid enr \<Rightarrow> shardInfo option res" where
  "enr_rs e = (case enr_get ''rs'' e of None \<Rightarrow> Inr None | Some b \<Rightarrow> rbind (decodeRelayShard b) (\<lambda>s. Inr (Some s)))"

definition enr_rsv :: "'pid enr \<Rightarrow> shardInfo option res" where
  "enr_rsv e = (case enr_get ''rsv'' e of None \<Rightarrow> Inr None | Some b \<Rightarrow> rbind (decodeRelayShard b) (\<lambda>s. Inr (Some s)))"

definition deleteUndefined :: "string \<Rightarrow> 'v option \<Rightarrow> ('v \<Rightarrow> bytes res) \<Rightarrow> 'pid enr \<Rightarrow> 'pid enr res" where
  "deleteUndefined key v transform e =
     (case v of Some x \<Rightarrow> rbind (transform x) (\<lambda>b. Inr (enr_set key b e)) | None \<Rightarrow> Inr (enr_delete key e))"

definition getStringValue :: "('pid, 'ma) enrLib \<Rightarrow> 'pid enr \<Rightarrow> string \<Rightarrow> string \<Rightarrow> string option res" where
  "getStringValue L e key proto =
     (case enr_get key e of None \<Rightarrow> Inr None | Some raw \<Rightarrow> rbind (convertToString L proto raw) (\<lambda>s. Inr (Some s)))"

text \<open>\<open>Number(s)\<close> on the decimal string of a port; the inner \<open>None\<close> is \<open>NaN\<close>.\<close>

definition getNumberAsStringValue ::
  "('pid, 'ma) enrLib \<Rightarrow> 'pid enr \<Rightarrow> string \<Rightarrow> string \<Rightarrow> int option option res" where
  "getNumberAsStringValue L e key proto =
     (case enr_get key e of None \<Rightarrow> Inr None
      | Some raw \<Rightarrow> rbind (convertToString L proto raw) (\<lambda>s. Inr (Some (parseInt s))))"

definition setStringValue ::
  "('pid, 'ma) enrLib \<Rightarrow> string \<Rightarrow> string \<Rightarrow> string option \<Rightarrow> 'pid enr \<Rightarrow> 'pid enr res" where
  "setStringValue L key proto v e = deleteUndefined key v (convertToBytes L proto) e"

definition setNumberAsStringValue ::
  "('pid, 'ma) enrLib \<Rightarrow> string \<Rightarrow> string \<Rightarrow> int option \<Rightarrow> 'pid enr \<Rightarrow> 'pid enr res" where
  "setNumberAsStringValue L key proto v e = setStringValue L key proto (map_option show_int v) e"

definition get_ip :: "('pid, 'ma) enrLib \<Rightarrow> 'pid enr \<Rightarrow> string option res" where
  "get_ip L e = getStringValue L e ''ip'' ''ip4''"
definition set_ip :: "('pid, 'ma) enrLib \<Rightarrow> string option \<Rightarrow> 'pid enr \<Rightarrow> 'pid enr res" where
  "set_ip L v e = setStringValue L ''ip'' ''ip4'' v e"
definition get_tcp :: "('pid, 'ma) enrLib \<Rightarrow> 'pid enr \<Rightarrow> int option option res" where
  "get_tcp L e = getNumberAsStringValue L e ''tcp'' ''tcp''"
definition set_tcp :: "('pid, 'ma) enrLib \<Rightarrow> int option \<Rightarrow> 'pid enr \<Rightarrow> 'pid enr res" where
  "set_tcp L v e = setNumberAsStringValue L ''tcp'' ''tcp'' v e"
definition get_udp :: "('pid, 'ma) enrLib \<Rightarrow> 'pid enr \<Rightarrow> int option option res" where
  "get_udp L e = getNumberAsStringValue L e ''udp'' ''udp''"
definition set_udp :: "('pid, 'ma) enrLib \<Rightarrow> int option \<Rightarrow> 'pid enr \<Rightarrow> 'pid enr res" where
  "set_udp L v e = setNumberAsStringValue L ''udp'' ''udp'' v e"
definition get_ip6 :: "('pid, 'ma) enrLib \<Rightarrow> 'pid enr \<Rightarrow> string option res" where
  "get_ip6 L e = getStringValue L e ''ip6'' ''ip6''"
definition set_ip6 :: "('pid, 'ma) enrLib \<Rightarrow> string option \<Rightarrow> 'pid enr \<Rightarrow> 'pid enr res" where
  "set_ip6 L v e = setStringValue L ''ip6'' ''ip6'' v e"
definition get_tcp6 :: "('pid, 'ma) enrLib \<Rightarrow> 'pid enr \<Rightarrow> int option option res" where
  "get_tcp6 L e = getNumberAsStringValue L e ''tcp6'' ''tcp''"
definition set_tcp6 :: "('pid, 'ma) enrLib \<Rightarrow> int option \<Rightarrow> 'pid enr \<Rightarrow> 'pid enr res" where
  "set_tcp6 L v e = setNumberAsStringValue L ''tcp6'' ''tcp'' v e"
definition get_udp6 :: "('pid, 'ma) enrLib \<Rightarrow> 'pid enr \<Rightarrow> int option option res" where
  "get_udp6 L e = getNumberAsStringValue L e ''udp6'' ''udp''"
definition set_udp6 :: "('pid, 'ma) enrLib \<Rightarrow> int option \<Rightarrow> 'pid enr \<Rightarrow> 'pid enr res" where
  "set_udp6 L v e = setNumberAsStringValue L ''udp6'' ''udp'' v e"

definition get_multiaddrs :: "('pid, 'ma) enrLib \<Rightarrow> 'pid enr \<Rightarrow> 'ma list option res" where
  "get_multiaddrs L e =
     (case enr_get ''multiaddrs'' e of None \<Rightarrow> Inr None
      | Some raw \<Rightarrow> rbind (decodeMultiaddrs (maOf L) (whole raw)) (\<lambda>m. Inr (Some m)))"

definition set_multiaddrs :: "('pid, 'ma) enrLib \<Rightarrow> 'ma list option \<Rightarrow> 'pid enr \<Rightarrow> 'pid enr res" where
  "set_multiaddrs L v e = deleteUndefined ''multiaddrs'' v (encodeMultiaddrs (maBytes L) (maPeerId L)) e"

text \<open>\<open>raw[0]\<close> of an empty array is \<open>undefined\<close>, whose bits are all 0.\<close>

definition get_waku2 :: "'pid enr \<Rightarrow> waku2 option" where
  "get_waku2 e =
     (case enr_get ''waku2'' e of None \<Rightarrow> None
      | Some raw \<Rightarrow> Some (decodeWaku2 (case raw of [] \<Rightarrow> 0 | b # _ \<Rightarrow> uint b)))"

definition set_waku2 :: "waku2 option \<Rightarrow> 'pid enr \<Rightarrow> 'pid enr res" where
  "set_waku2 v e = deleteUndefined ''waku2'' v (\<lambda>w. Inr [word_of_int (encodeWaku2 w)]) e"

section \<open>get_multiaddr.ts and multiaddr_from_fields.ts\<close>

datatype transportProtocol = UDP | UDP4 | UDP6 | TCP | TCP4 | TCP6

definition multiaddrFromFields ::
  "('pid, 'ma) enrLib \<Rightarrow> string \<Rightarrow> string \<Rightarrow> bytes \<Rightarrow> bytes \<Rightarrow> 'ma res" where
  "multiaddrFromFields L ipFamily protocol ipBytes protocolBytes =
     rbind (convertToString L ipFamily ipBytes)
       (\<lambda>ip. rbind (maOfStr L (''/'' @ ipFamily @ ''/'' @ ip))
         (\<lambda>ma. rbind (convertToString L protocol protocolBytes)
           (\<lambda>port. rbind (maOfStr L (''/'' @ protocol @ ''/'' @ port))
             (\<lambda>ma2. Inr (maEncapsulate L ma ma2)))))"

definition locationOfVersion ::
  "('pid, 'ma) enrLib \<Rightarrow> 'pid enr \<Rightarrow> bool \<Rightarrow> string \<Rightarrow> 'ma option res" where
  "locationOfVersion L e isIpv6 protoName =
     (case enr_get (if isIpv6 then ''ip6'' else ''ip'') e of
        None \<Rightarrow> Inr None
      | Some ipVal \<Rightarrow>
          (case enr_get (if isIpv6 then protoName @ ''6'' else protoName) e of
             None \<Rightarrow> Inr None
           | Some protoVal \<Rightarrow>
               rbind (multiaddrFromFields L (if isIpv6 then ''ip6'' else ''ip4'') protoName ipVal protoVal)
                 (\<lambda>m. Inr (Some m))))"

fun locationMultiaddrFromEnrFields ::
  "('pid, 'ma) enrLib \<Rightarrow> 'pid enr \<Rightarrow> transportProtocol \<Rightarrow> 'ma option res" where
  "locationMultiaddrFromEnrFields L e UDP4 = locationOfVersion L e False ''udp''"
| "locationMultiaddrFromEnrFields L e UDP6 = locationOfVersion L e True ''udp''"
| "locationMultiaddrFromEnrFields L e TCP4 = locationOfVersion L e False ''tcp''"
| "locationMultiaddrFromEnrFields L e TCP6 = locationOfVersion L e True ''tcp''"
| "locationMultiaddrFromEnrFields L e UDP =
     rbind (locationOfVersion L e False ''udp'')
       (\<lambda>m. case m of Some x \<Rightarrow> Inr (Some x) | None \<Rightarrow> locationOfVersion L e True ''udp'')"
| "locationMultiaddrFromEnrFields L e TCP =
     rbind (locationOfVersion L e False ''tcp'')
       (\<lambda>m. case m of Some x \<Rightarrow> Inr (Some x) | None \<Rightarrow> locationOfVersion L e True ''tcp'')"

section \<open>enr.ts\<close>

definition enr_create ::
  "('pid, 'ma) enrLib \<Rightarrow> (string, bytes) jsmap \<Rightarrow> int \<Rightarrow> bytes option \<Rightarrow> 'pid enr" where
  "enr_create L kvs seq sig =
     (let e = \<lparr>enr_kvs = kvs, enr_seq = seq, enr_signature = sig, enr_peerId = None\<rparr>
      in case enr_publicKey L e of
           Inr (Some pk) \<Rightarrow> (case peerIdOf L pk of Inl _ \<Rightarrow> e | Inr p \<Rightarrow> e\<lparr>enr_peerId := Some p\<rparr>)
         | _ \<Rightarrow> e)"

definition v4_nodeId :: "('pid, 'ma) enrLib \<Rightarrow> bytes \<Rightarrow> string res" where
  "v4_nodeId L pubKey =
     rbind (secpRawBytes L False pubKey) (\<lambda>raw. Inr (bytesToHex L (keccak256 L (js_slice_from raw 1))))"

definition enr_nodeId :: "('pid, 'ma) enrLib \<Rightarrow> 'pid enr \<Rightarrow> string option res" where
  "enr_nodeId L e =
     rbind (enr_id L e)
       (\<lambda>i. if i = ''v4''
             then rbind (enr_publicKey L e)
               (\<lambda>pk. case pk of None \<Rightarrow> Inr None | Some k \<Rightarrow> rbind (v4_nodeId L k) (\<lambda>n. Inr (Some n)))
             else Inl ERR_INVALID_ID)"

text \<open>\<open>if (this.rs && this.rsv) ...; return this.rs || this.rsv\<close>: when \<open>rs\<close> is there, \<open>rsv\<close> is read too.\<close>

definition enr_shardInfo :: "'pid enr \<Rightarrow> shardInfo option res" where
  "enr_shardInfo e =
     rbind (enr_rs e)
       (\<lambda>rs. case rs of Some s \<Rightarrow> rbind (enr_rsv e) (\<lambda>_. Inr (Some s)) | None \<Rightarrow> enr_rsv e)"

definition setLocationMultiaddr :: "('pid, 'ma) enrLib \<Rightarrow> 'ma \<Rightarrow> 'pid enr \<Rightarrow> 'pid enr res" where
  "setLocationMultiaddr L ma e =
     (let protoNames = maProtoNames L ma;
          proto1 = (if length protoNames > 1 then Some (protoNames ! 1) else None)
      in if length protoNames \<noteq> 2 \<and> proto1 \<noteq> Some ''udp'' \<and> proto1 \<noteq> Some ''tcp''
         then Inl (Error ''Invalid multiaddr'')
         else (case maTuples L ma of
                 (code0, v0) # (code1, v1) # _ \<Rightarrow>
                   (case (v0, v1) of
                      (Some addr, Some port) \<Rightarrow>
                        if code0 = 4
                        then Inr (enr_set (the proto1) port (enr_set ''ip'' addr e))
                        else Inr (enr_set (the proto1 @ ''6'') port (enr_set ''ip6'' addr e))
                    | _ \<Rightarrow> Inl (Error ''Invalid multiaddr''))
               | _ \<Rightarrow> Inl TypeError))"

definition withPeerId :: "('pid, 'ma) enrLib \<Rightarrow> 'pid \<Rightarrow> 'ma \<Rightarrow> 'ma res" where
  "withPeerId L p ma = rbind (maOfStr L (''/p2p/'' @ peerIdStr L p)) (\<lambda>m. Inr (maEncapsulate L ma m))"

definition getAllLocationMultiaddrs :: "('pid, 'ma) enrLib \<Rightarrow> 'pid enr \<Rightarrow> 'ma list res" where
  "getAllLocationMultiaddrs L e =
     rbind (mapM (locationMultiaddrFromEnrFields L e) [TCP4, UDP4, TCP6, UDP6])
       (\<lambda>ms. rbind (get_multiaddrs L e)
         (\<lambda>more. mapM (\<lambda>ma. case enr_peerId e of Some p \<Rightarrow> withPeerId L p ma | None \<Rightarrow> Inr ma)
                    (List.map_filter id ms @ nullish more [])))"

definition enr_peerInfo :: "('pid, 'ma) enrLib \<Rightarrow> 'pid enr \<Rightarrow> ('pid \<times> 'ma list) option res" where
  "enr_peerInfo L e =
     (case enr_peerId e of None \<Rightarrow> Inr None
      | Some p \<Rightarrow> rbind (getAllLocationMultiaddrs L e) (\<lambda>mas. Inr (Some (p, mas))))"

definition getFullMultiaddr :: "('pid, 'ma) enrLib \<Rightarrow> 'pid enr \<Rightarrow> transportProtocol \<Rightarrow> 'ma option res" where
  "getFullMultiaddr L e protocol =
     (case enr_peerId e of None \<Rightarrow> Inr None
      | Some p \<Rightarrow> rbind (locationMultiaddrFromEnrFields L e protocol)
          (\<lambda>m. case m of None \<Rightarrow> Inr None | Some ma \<Rightarrow> rbind (withPeerId L p ma) (\<lambda>f. Inr (Some f))))"

definition getFullMultiaddrs :: "('pid, 'ma) enrLib \<Rightarrow> 'pid enr \<Rightarrow> 'ma list res" where
  "getFullMultiaddrs L e =
     (case enr_peerId e of None \<Rightarrow> Inr []
      | Some p \<Rightarrow> rbind (get_multiaddrs L e)
          (\<lambda>m. case m of None \<Rightarrow> Inr [] | Some mas \<Rightarrow> mapM (withPeerId L p) mas))"

definition verifySignature :: "('pid, 'ma) enrLib \<Rightarrow> bytes \<Rightarrow> bytes \<Rightarrow> bytes \<Rightarrow> bool" where
  "verifySignature L sig message publicKey =
     (case secpVerify L (js_slice sig 0 64) message publicKey of Inl _ \<Rightarrow> False | Inr b \<Rightarrow> b)"

definition enr_verify :: "('pid, 'ma) enrLib \<Rightarrow> bytes \<Rightarrow> bytes \<Rightarrow> 'pid enr \<Rightarrow> bool res" where
  "enr_verify L data sig e =
     (if enr_get ''id'' e = None then Inl ERR_INVALID_ID
      else rbind (enr_id L e)
        (\<lambda>i. if i \<noteq> ''v4'' then Inl ERR_INVALID_ID
              else rbind (enr_publicKey L e)
                (\<lambda>pk. case pk of None \<Rightarrow> Inl (Error ''Failed to verify ENR: No public key'')
                       | Some k \<Rightarrow> Inr (verifySignature L sig (keccak256 L data) k))))"

definition v4_sign :: "('pid, 'ma) enrLib \<Rightarrow> bytes \<Rightarrow> bytes \<Rightarrow> bytes" where
  "v4_sign L privKey msg = secpSign L (keccak256 L msg) privKey"

definition enr_sign :: "('pid, 'ma) enrLib \<Rightarrow> bytes \<Rightarrow> bytes \<Rightarrow> 'pid enr \<Rightarrow> (bytes \<times> 'pid enr) res" where
  "enr_sign L data privateKey e =
     rbind (enr_id L e)
       (\<lambda>i. if i = ''v4''
             then (let s = v4_sign L privateKey data in Inr (s, e\<lparr>enr_signature := Some s\<rparr>))
             else Inl ERR_INVALID_ID)"

section \<open>encoder.ts\<close>

definition toValues ::
  "('pid, 'ma) enrLib \<Rightarrow> 'pid enr \<Rightarrow> bytes option \<Rightarrow> (bytes list \<times> 'pid enr) res" where
  "toValues L e privateKey =
     (let kvs = concat (map (\<lambda>k. [utf8Enc L k, nullish (enr_get k e) []]) (sortKeys L (jm_keys (enr_kvs e))));
          content = [word_of_int (enr_seq e)] # kvs
      in case privateKey of
           Some key \<Rightarrow> rbind (enr_sign L (rlpEncode L content) key e) (\<lambda>(s, e'). Inr (s # content, e'))
         | None \<Rightarrow> (case enr_signature e of None \<Rightarrow> Inl ERR_NO_SIGNATURE | Some s \<Rightarrow> Inr (s # content, e)))"

definition enr_toBytes ::
  "('pid, 'ma) enrLib \<Rightarrow> 'pid enr \<Rightarrow> bytes option \<Rightarrow> (bytes \<times> 'pid enr) res" where
  "enr_toBytes L e privateKey =
     rbind (toValues L e privateKey)
       (\<lambda>(values, e'). let encoded = rlpEncode L values
          in if length encoded \<ge> MAX_RECORD_SIZE then Inl (Error ''ENR must be less than 300 bytes'')
             else Inr (encoded, e'))"

definition enr_toString ::
  "('pid, 'ma) enrLib \<Rightarrow> 'pid enr \<Rightarrow> bytes option \<Rightarrow> (string \<times> 'pid enr) res" where
  "enr_toString L e privateKey =
     rbind (enr_toBytes L e privateKey) (\<lambda>(bs, e'). Inr (''enr:'' @ base64Enc L bs, e'))"

section \<open>decoder.ts\<close>

definition decodeSeq :: "bytes \<Rightarrow> int" where
  "decodeSeq seq = (if seq = [] then 0 else val_be seq)"

fun checkValues :: "bytes list \<Rightarrow> (bytes \<times> bytes \<times> bytes list) res" where
  "checkValues values =
     (if length values mod 2 \<noteq> 0 then Inl (Error ''Decoded ENR must have an even number of elements'')
      else case values of
             [] \<Rightarrow> Inl (Error ''Decoded ENR invalid signature: must be a byte array'')
           | [_] \<Rightarrow> Inl (Error ''Decoded ENR invalid sequence number: must be a byte array'')
           | signature # seq # kvs \<Rightarrow> Inr (signature, seq, kvs))"

fun kvsLoop :: "('pid, 'ma) enrLib \<Rightarrow> bytes list \<Rightarrow> (string, bytes) jsmap \<Rightarrow> (string, bytes) jsmap" where
  "kvsLoop L (k # v # kvs) obj =
     kvsLoop L kvs (case utf8Dec L k of Inl _ \<Rightarrow> obj | Inr s \<Rightarrow> jm_set s v obj)"
| "kvsLoop L _ obj = obj"

definition checkSignature ::
  "('pid, 'ma) enrLib \<Rightarrow> bytes \<Rightarrow> bytes list \<Rightarrow> 'pid enr \<Rightarrow> bytes \<Rightarrow> unit res" where
  "checkSignature L seq kvs e signature =
     rbind (enr_verify L (rlpEncode L (seq # kvs)) signature e)
       (\<lambda>ok. if ok then Inr () else Inl (Error ''Unable to verify ENR signature''))"

definition fromValues :: "('pid, 'ma) enrLib \<Rightarrow> bytes list \<Rightarrow> 'pid enr res" where
  "fromValues L values =
     rbind (checkValues values)
       (\<lambda>(signature, seq, kvs).
          let e = enr_create L (kvsLoop L kvs []) (decodeSeq seq) (Some signature)
          in rbind (checkSignature L seq kvs e signature) (\<lambda>_. Inr e))"

definition fromRLP :: "('pid, 'ma) enrLib \<Rightarrow> bytes \<Rightarrow> 'pid enr res" where
  "fromRLP L encoded = rbind (rlpDecode L encoded) (fromValues L)"

definition enr_fromString :: "('pid, 'ma) enrLib \<Rightarrow> string \<Rightarrow> 'pid enr res" where
  "enr_fromString L encoded =
     (if \<not> startsWith encoded ''enr:'' then Inl (Error ''string encoded ENR must start with enr:'')
      else rbind (base64Dec L (drop 4 encoded)) (fromRLP L))"

section \<open>creator.ts and crypto.ts\<close>

definition compressPublicKey :: "('pid, 'ma) enrLib \<Rightarrow> bytes \<Rightarrow> bytes res" where
  "compressPublicKey L publicKey =
     rbind (if length publicKey = 64 then concatU8 [[4], publicKey] (Some 65) else Inr publicKey)
       (secpRawBytes L True)"

definition fromPublicKey :: "('pid, 'ma) enrLib \<Rightarrow> bytes \<Rightarrow> (string, bytes) jsmap \<Rightarrow> 'pid enr res" where
  "fromPublicKey L publicKey kvs =
     rbind (if length publicKey \<noteq> 33 then compressPublicKey L publicKey else Inr publicKey)
       (\<lambda>pk. Inr (enr_create L (jm_set ''secp256k1'' pk (jm_set ''id'' (utf8Enc L ''v4'') kvs)) 1 None))"

section \<open>Lemmas\<close>

lemma enr_get_set [simp]: "enr_get k' (enr_set k v e) = (if k' = k then Some v else enr_get k' e)"
  by (simp add: enr_get_def enr_set_def)

lemma enr_get_delete [simp]: "enr_get k' (enr_delete k e) = (if k' = k then None else enr_get k' e)"
  by (simp add: enr_get_def enr_delete_def)

lemma enr_set_fields [simp]:
  "enr_signature (enr_set k v e) = None" "enr_seq (enr_set k v e) = enr_seq e + 1"
  "enr_signature (enr_delete k e) = enr_signature e" "enr_seq (enr_delete k e) = enr_seq e"
  by (simp_all add: enr_set_def enr_delete_def)

lemma enr_get_cong:
  assumes "\<And>k. enr_get k d = enr_get k e"
  shows "enr_id L d = enr_id L e" "enr_publicKey L d = enr_publicKey L e"
    "enr_verify L data sig d = enr_verify L data sig e"
proof -
  show id: "enr_id L d = enr_id L e" using assms by (simp add: enr_id_def)
  show key: "enr_publicKey L d = enr_publicKey L e"
    using assms by (simp add: enr_publicKey_def id cong: if_cong)
  show "enr_verify L data sig d = enr_verify L data sig e"
    using assms by (simp add: enr_verify_def id key cong: if_cong)
qed

lemma enr_create_get [simp]: "enr_get k (enr_create L kvs seq sig) = jm_get kvs k"
  by (auto simp: enr_create_def enr_get_def Let_def split: sum.split option.split)

lemma enr_create_fields [simp]:
  "enr_seq (enr_create L kvs seq sig) = seq" "enr_signature (enr_create L kvs seq sig) = sig"
  by (auto simp: enr_create_def Let_def split: sum.split option.split)

lemma kvsLoop_get:
  assumes "\<And>s. utf8Dec L (utf8Enc L s) = Inr s"
  shows "jm_get (kvsLoop L (concat (map (\<lambda>k. [utf8Enc L k, v k]) ks)) obj) k =
    (if k \<in> set ks then Some (v k) else jm_get obj k)"
  by (induction ks arbitrary: obj) (auto simp: assms)

definition enrLibLaws :: "('pid, 'ma) enrLib \<Rightarrow> bytes \<Rightarrow> bytes \<Rightarrow> bool" where
  "enrLibLaws L privateKey publicKey \<longleftrightarrow>
     (\<forall>vs. rlpDecode L (rlpEncode L vs) = Inr vs) \<and>
     (\<forall>s. utf8Dec L (utf8Enc L s) = Inr s) \<and>
     (\<forall>ks. mset (sortKeys L ks) = mset ks) \<and>
     (\<forall>m. secpVerify L (js_slice (secpSign L m privateKey) 0 64) m publicKey = Inr True)"

lemma sortKeys_set: "enrLibLaws L sk pk \<Longrightarrow> set (sortKeys L ks) = set ks"
  unfolding enrLibLaws_def by (metis set_mset_mset)

lemma fromValues_toValues:
  assumes laws: "enrLibLaws L sk pk" and id: "enr_get ''id'' e = Some (utf8Enc L ''v4'')"
    and key: "enr_get ''secp256k1'' e = Some pk"
    and enc: "toValues L e (Some sk) = Inr (vs, e')"
  shows "\<exists>d. fromValues L vs = Inr d \<and> (\<forall>k. enr_get k d = enr_get k e) \<and>
    enr_seq d = enr_seq e mod 256 \<and> enr_signature d = enr_signature e' \<and> enr_signature d \<noteq> None"
proof -
  let ?kvs = "concat (map (\<lambda>k. [utf8Enc L k, nullish (enr_get k e) []]) (sortKeys L (jm_keys (enr_kvs e))))"
  let ?seq = "[word_of_int (enr_seq e)] :: bytes"
  let ?sig = "v4_sign L sk (rlpEncode L (?seq # ?kvs))"
  have utf8: "utf8Dec L (utf8Enc L s) = Inr s" for s using laws by (simp add: enrLibLaws_def)
  have eid: "enr_id L e = Inr ''v4''" by (simp add: enr_id_def id utf8)
  have vs: "vs = ?sig # ?seq # ?kvs" "enr_signature e' = Some ?sig"
    using enc by (auto simp: toValues_def enr_sign_def eid Let_def)
  let ?d = "enr_create L (kvsLoop L ?kvs []) (decodeSeq ?seq) (Some ?sig)"
  have get: "enr_get k ?d = enr_get k e" for k
  proof -
    have "k \<in> set (jm_keys (enr_kvs e)) \<longleftrightarrow> enr_get k e \<noteq> None"
      by (simp add: jm.keys_get enr_get_def)
    then show ?thesis
      by (auto simp: kvsLoop_get [of L "\<lambda>k. nullish (enr_get k e) []", OF utf8] sortKeys_set [OF laws])
  qed
  have "even (length (concat (map (\<lambda>k. [utf8Enc L k, nullish (enr_get k e) []]) ks)))" for ks
    by (induction ks) auto
  then have even: "even (length ?kvs)" .
  have "enr_verify L (rlpEncode L (?seq # ?kvs)) ?sig ?d = Inr True"
    unfolding enr_get_cong(3) [of ?d e, OF get]
    using laws by (simp add: enr_verify_def id eid key enr_publicKey_def verifySignature_def v4_sign_def
        enrLibLaws_def)
  moreover have "checkValues vs = Inr (?sig, ?seq, ?kvs)"
    using even by (simp add: vs(1) even_iff_mod_2_eq_zero)
  ultimately have "fromValues L vs = Inr ?d"
    by (simp add: fromValues_def checkSignature_def del: checkValues.simps)
  moreover have "enr_seq ?d = enr_seq e mod 256"
    by (simp add: decodeSeq_def val_be_def uint_word_of_int)
  ultimately show ?thesis using get vs(2) by auto
qed

text \<open>What a decoded record says stands in the values it was decoded from.\<close>

lemma kvsLoop_source:
  "jm_get (kvsLoop L kvs obj) k = Some v \<Longrightarrow>
     jm_get obj k = Some v \<or> (\<exists>i. Suc (2 * i) < length kvs \<and> utf8Dec L (kvs ! (2 * i)) = Inr k \<and> kvs ! Suc (2 * i) = v)"
proof (induction L kvs obj rule: kvsLoop.induct)
  case (1 L kb vb kvs obj)
  consider (there) "jm_get (case utf8Dec L kb of Inl _ \<Rightarrow> obj | Inr s \<Rightarrow> jm_set s vb obj) k = Some v"
    | (later) i where "Suc (2 * i) < length kvs" "utf8Dec L (kvs ! (2 * i)) = Inr k" "kvs ! Suc (2 * i) = v"
    using 1 by auto
  then show ?case
  proof cases
    case there
    then show ?thesis by (cases "utf8Dec L kb") (auto split: if_splits intro!: exI [of _ 0])
  next
    case (later i)
    then show ?thesis by (intro disjI2 exI [of _ "Suc i"]) simp
  qed
qed simp_all

lemma enr_verify_Inr:
  "enr_verify L data sig e = Inr b \<longleftrightarrow>
     enr_id L e = Inr ''v4'' \<and> (\<exists>pk. enr_get ''secp256k1'' e = Some pk \<and> b = verifySignature L sig (keccak256 L data) pk)"
proof (cases "enr_get ''id'' e")
  case None
  then show ?thesis by (simp add: enr_verify_def enr_id_def)
next
  case (Some i)
  then show ?thesis
    by (cases "enr_get ''secp256k1'' e") (auto simp: enr_verify_def enr_publicKey_def rbind_eq_Inr)
qed

lemma fromValues_shape:
  "fromValues L (sig # seq # kvs) =
     (if odd (length kvs) then Inl (Error ''Decoded ENR must have an even number of elements'')
      else let e = enr_create L (kvsLoop L kvs []) (decodeSeq seq) (Some sig)
           in rbind (checkSignature L seq kvs e sig) (\<lambda>_. Inr e))"
  by (simp add: fromValues_def odd_iff_mod_2_eq_one)

lemma checkSignature_Inr:
  "checkSignature L seq kvs e sig = Inr u \<longleftrightarrow> enr_verify L (rlpEncode L (seq # kvs)) sig e = Inr True"
  by (cases "enr_verify L (rlpEncode L (seq # kvs)) sig e") (auto simp: checkSignature_def)

lemma fromValues_Inr:
  "fromValues L (sig # seq # kvs) = Inr e \<longleftrightarrow>
     even (length kvs) \<and> e = enr_create L (kvsLoop L kvs []) (decodeSeq seq) (Some sig) \<and>
     enr_verify L (rlpEncode L (seq # kvs)) sig e = Inr True"
  by (auto simp: fromValues_shape rbind_eq_Inr checkSignature_Inr Let_def)

text \<open>The content that was signed is not collided with.\<close>

definition uniqueDigest :: "('pid, 'ma) enrLib \<Rightarrow> bytes list set \<Rightarrow> bytes list \<Rightarrow> bool" where
  "uniqueDigest L contents content \<longleftrightarrow> (\<forall>c \<in> contents. keccak256 L (rlpEncode L c) = keccak256 L (rlpEncode L content) \<longrightarrow> c = content)"

text \<open>A library for the witnesses: byte strings are listed with a mark before every byte and after
  every string, and a signature is the start of the message followed by the key.\<close>

fun demoRlpDecode :: "bytes \<Rightarrow> bytes \<Rightarrow> bytes list res" where
  "demoRlpDecode [] acc = (if acc = [] then Inr [] else Inl (Error ''truncated''))"
| "demoRlpDecode (m # bs) acc =
     (if m = 0 then rbind (demoRlpDecode bs []) (\<lambda>xs. Inr (acc # xs))
      else case bs of [] \<Rightarrow> Inl (Error ''truncated'') | b # bs' \<Rightarrow> demoRlpDecode bs' (acc @ [b]))"

definition demoRlpEncode :: "bytes list \<Rightarrow> bytes" where
  "demoRlpEncode xs = concat (map (\<lambda>b. concat (map (\<lambda>x. [1, x]) b) @ [0]) xs)"

definition demoSign :: "bytes \<Rightarrow> bytes \<Rightarrow> bytes" where
  "demoSign m k = take 64 (m @ k @ replicate 64 0)"

definition demoEnrLib :: "(string, string) enrLib" where
  "demoEnrLib =
     \<lparr>rlpEncode = demoRlpEncode, rlpDecode = (\<lambda>bs. demoRlpDecode bs []), keccak256 = demoSha,
      secpSign = demoSign, secpVerify = (\<lambda>s m k. Inr (s = demoSign m k)), secpRawBytes = (\<lambda>_. Inr),
      utf8Enc = demoUtf8, utf8Dec = (\<lambda>bs. Inr (map (\<lambda>b. char_of (unat b)) bs)),
      bytesToHex = (\<lambda>bs. map (\<lambda>b. char_of (unat b)) bs), base64Enc = (\<lambda>bs. map (\<lambda>b. char_of (unat b)) bs),
      base64Dec = (\<lambda>s. Inr (demoUtf8 s)), sortKeys = id, peerIdOf = (\<lambda>bs. Inr ''peer''), peerIdStr = id,
      convertToString = (\<lambda>_ bs. Inr (map (\<lambda>b. char_of (unat b)) bs)), convertToBytes = (\<lambda>_ s. Inr (demoUtf8 s)),
      maBytes = demoUtf8, maOf = (\<lambda>bs. Inr (map (\<lambda>b. char_of (unat b)) bs)), maOfStr = Inr,
      maPeerId = (\<lambda>_. None), maProtoNames = (\<lambda>s. tl (js_split (CHR ''/'') s)), maTuples = (\<lambda>_. []),
      maEncapsulate = (@)\<rparr>"

lemma demoRlp_entry:
  "demoRlpDecode (concat (map (\<lambda>x. [1, x]) b) @ 0 # rest) acc =
     rbind (demoRlpDecode rest []) (\<lambda>xs. Inr ((acc @ b) # xs))"
  by (induction b arbitrary: acc) auto

lemma demoRlp_roundtrip: "demoRlpDecode (demoRlpEncode xs) [] = Inr xs"
  by (induction xs) (auto simp: demoRlpEncode_def demoRlp_entry)

lemma demoUtf8_roundtrip: "map (\<lambda>b. char_of (unat b)) (demoUtf8 s) = s"
  by (induction s) (auto simp: demoUtf8_def unat_of_nat)

lemma demoSign_length: "length (demoSign m k) = 64"
  by (simp add: demoSign_def)

lemma demoEnrLib_laws: "enrLibLaws demoEnrLib k k"
proof -
  have "js_slice (demoSign m k) 0 64 = demoSign m k" for m k
    using js_slice_nat [of "demoSign m k" 0 64] demoSign_length [of m k] by simp
  then show ?thesis
    by (simp add: enrLibLaws_def demoEnrLib_def demoRlp_roundtrip demoUtf8_roundtrip)
qed

section \<open>Properties\<close>

text \<open>C24: A signed node record survives its encoding: decoding the bytes of a record of the \<open>v4\<close>
  scheme that was signed with the key of its public key succeeds, the signature verifies, and every
  key has its value back. The sequence number comes back modulo 256, because the encoder writes it as
  one byte. The laws of the library are that RLP and UTF-8 decoding invert encoding, that sorting
  permutes, and that a signature verifies under the public key of the key that made it.\<close>

theorem enr_roundtrip:
  assumes "enrLibLaws L privateKey publicKey"
    and "enr_get ''id'' e = Some (utf8Enc L ''v4'')" and "enr_get ''secp256k1'' e = Some publicKey"
    and "enr_toBytes L e (Some privateKey) = Inr (bs, e')"
  shows "length bs < 300 \<and> (\<exists>d. fromRLP L bs = Inr d \<and> (\<forall>k. enr_get k d = enr_get k e) \<and>
    enr_seq d = enr_seq e mod 256 \<and> enr_signature d = enr_signature e' \<and> enr_signature d \<noteq> None)"
proof -
  obtain vs where vs: "toValues L e (Some privateKey) = Inr (vs, e')" "bs = rlpEncode L vs" "length bs < 300"
    using assms(4) by (auto simp: enr_toBytes_def MAX_RECORD_SIZE_def rbind_eq_Inr Let_def split: if_splits)
  then have "fromRLP L bs = fromValues L vs"
    using assms(1) by (simp add: fromRLP_def enrLibLaws_def)
  with fromValues_toValues [OF assms(1-3) vs(1)] vs(3) show ?thesis by simp
qed

definition demoEnr :: "string enr" where
  "demoEnr = \<lparr>enr_kvs = [(''id'', demoUtf8 ''v4''), (''ip'', [127, 0, 0, 1]), (''secp256k1'', [2, 7])],
     enr_seq = 300, enr_signature = None, enr_peerId = None\<rparr>"

theorem enr_roundtrip_witness:
  "\<exists>bs e' d. enr_toBytes demoEnrLib demoEnr (Some [2, 7]) = Inr (bs, e') \<and> fromRLP demoEnrLib bs = Inr d \<and>
     enr_get ''ip'' d = Some [127, 0, 0, 1] \<and> enr_seq d = 44"
proof -
  have "\<not> isl (enr_toBytes demoEnrLib demoEnr (Some [2, 7]))" by code_simp
  then obtain bs e' where enc: "enr_toBytes demoEnrLib demoEnr (Some [2, 7]) = Inr (bs, e')"
    by (cases "enr_toBytes demoEnrLib demoEnr (Some [2, 7])") auto
  have "enr_get ''id'' demoEnr = Some (utf8Enc demoEnrLib ''v4'')" "enr_get ''secp256k1'' demoEnr = Some [2, 7]"
    "enr_get ''ip'' demoEnr = Some [127, 0, 0, 1]" "enr_seq demoEnr = 300"
    by (simp_all add: demoEnr_def demoEnrLib_def enr_get_def jm_get_def)
  with enr_roundtrip [OF demoEnrLib_laws _ _ enc] enc show ?thesis by fastforce
qed

text \<open>C36: A record says nothing that its key did not sign. When the holder of a public key has signed the contents \<open>contents\<close>, and nothing
  else verifies under that key, a text that decodes to a record with this key has one of these contents: the sequence number and
  every value of the record were signed. A record with any other content, under whatever signature, is the error
  \<open>Unable to verify ENR signature\<close>.\<close>

theorem forged_record_rejected:
  assumes unforgeable: "\<And>s m. secpVerify L s m pk = Inr True \<Longrightarrow> m \<in> (\<lambda>c. keccak256 L (rlpEncode L c)) ` contents"
    and decoded: "startsWith s ''enr:''" "base64Dec L (drop 4 s) = Inr bs" "rlpDecode L bs = Inr (sig # seq # kvs)" "even (length kvs)"
    and unique: "uniqueDigest L contents (seq # kvs)"
    and claimed: "claimed = enr_create L (kvsLoop L kvs []) (decodeSeq seq) (Some sig)"
    and key: "enr_id L claimed = Inr ''v4''" "enr_get ''secp256k1'' claimed = Some pk"
  shows "if seq # kvs \<in> contents
     then (\<forall>e. enr_fromString L s = Inr e \<longrightarrow> enr_seq e = decodeSeq seq \<and>
             (\<forall>k v. enr_get k e = Some v \<longrightarrow> (\<exists>i. Suc (2 * i) < length kvs \<and> utf8Dec L (kvs ! (2 * i)) = Inr k \<and> kvs ! Suc (2 * i) = v)))
     else enr_fromString L s = Inl (Error ''Unable to verify ENR signature'')"
proof -
  have str: "enr_fromString L s = fromValues L (sig # seq # kvs)"
    using decoded by (simp add: enr_fromString_def fromRLP_def)
  show ?thesis
  proof (cases "seq # kvs \<in> contents")
    case True
    have "enr_seq e = decodeSeq seq \<and>
        (\<forall>k v. enr_get k e = Some v \<longrightarrow> (\<exists>i. Suc (2 * i) < length kvs \<and> utf8Dec L (kvs ! (2 * i)) = Inr k \<and> kvs ! Suc (2 * i) = v))"
      if "fromValues L (sig # seq # kvs) = Inr e" for e
    proof -
      have "e = enr_create L (kvsLoop L kvs []) (decodeSeq seq) (Some sig)" using that by (simp add: fromValues_Inr)
      then show ?thesis using kvsLoop_source [of L kvs "[]"] by (simp add: jm_get_def)
    qed
    with True show ?thesis unfolding str by simp
  next
    case False
    then have "\<not> verifySignature L sig (keccak256 L (rlpEncode L (seq # kvs))) pk"
      using unforgeable unique by (fastforce simp: verifySignature_def uniqueDigest_def split: sum.splits)
    then have "enr_verify L (rlpEncode L (seq # kvs)) sig claimed = Inr False" using key by (simp add: enr_verify_Inr)
    with False decoded(4) show ?thesis unfolding str by (simp add: fromValues_shape claimed [symmetric] checkSignature_def)
  qed
qed

text \<open>A record whose address was changed: the holder of the key signed one content, and only its digest verifies.\<close>

definition signedContent :: "bytes list" where
  "signedContent = [[1], demoUtf8 ''id'', demoUtf8 ''v4'', demoUtf8 ''ip'', [127, 0, 0, 1], demoUtf8 ''secp256k1'', [2, 7]]"

definition forgedContent :: "bytes list" where
  "forgedContent = [[1], demoUtf8 ''id'', demoUtf8 ''v4'', demoUtf8 ''ip'', [10, 0, 0, 1], demoUtf8 ''secp256k1'', [2, 7]]"

definition onceSigned :: "(string, string) enrLib" where
  "onceSigned = demoEnrLib\<lparr>keccak256 := id, secpVerify := (\<lambda>s m k. Inr (m = demoRlpEncode signedContent))\<rparr>"

theorem forged_record_rejected_witness:
  "enr_fromString onceSigned (''enr:'' @ base64Enc onceSigned (demoRlpEncode ([9] # forgedContent))) =
     Inl (Error ''Unable to verify ENR signature'')"
proof -
  let ?s = "''enr:'' @ base64Enc onceSigned (demoRlpEncode ([9] # forgedContent))"
  let ?kvs = "tl forgedContent"
  let ?claimed = "enr_create onceSigned (kvsLoop onceSigned ?kvs []) (decodeSeq [1]) (Some [9])"
  have content: "[1] # ?kvs = forgedContent" "even (length ?kvs)" "forgedContent \<notin> {signedContent}"
    by (simp_all add: forgedContent_def signedContent_def)
  have inj: "demoRlpEncode a = demoRlpEncode b \<Longrightarrow> a = b" for a b using demoRlp_roundtrip by (metis sum.inject(2))
  have "base64Dec onceSigned (drop 4 ?s) = Inr (demoRlpEncode ([9] # forgedContent))"
  proof -
    have "unat b < 256" for b :: byte using unsigned_less [of b] by simp
    then have "unat b mod 256 = unat b" for b :: byte by simp
    then show ?thesis by (simp add: onceSigned_def demoEnrLib_def demoUtf8_def comp_def)
  qed
  moreover have "rlpDecode onceSigned (demoRlpEncode ([9] # forgedContent)) = Inr ([9] # [1] # ?kvs)"
    using content(1) by (simp add: onceSigned_def demoEnrLib_def demoRlp_roundtrip)
  moreover have "uniqueDigest onceSigned {signedContent} ([1] # ?kvs)"
    using inj by (auto simp: uniqueDigest_def onceSigned_def demoEnrLib_def)
  moreover have "enr_id onceSigned ?claimed = Inr ''v4''" "enr_get ''secp256k1'' ?claimed = Some [2, 7]" by code_simp+
  moreover have "m \<in> (\<lambda>c. keccak256 onceSigned (rlpEncode onceSigned c)) ` {signedContent}"
    if "secpVerify onceSigned s m [2, 7] = Inr True" for s m
    using that by (simp add: onceSigned_def demoEnrLib_def)
  moreover have "startsWith ?s ''enr:''" by simp
  ultimately show ?thesis
    using forged_record_rejected [of onceSigned "[2, 7]" "{signedContent}" ?s _ "[9]" "[1]" ?kvs ?claimed] content by simp
qed

text \<open>The setters of a record and its getters agree, and the shard information a record carries is the
  one encoded into it: after setting, \<open>waku2\<close> and \<open>multiaddrs\<close> read back what was set, an \<open>rs\<close>
  field reads back as the normal form of the shard information. Setting a value drops the signature and
  advances the sequence number; setting \<open>undefined\<close> deletes the key but keeps the signature and the
  sequence number of the record that still had it.\<close>

theorem enr_fields_roundtrip:
  assumes "relayShardValid info" and "enr_get ''rsv'' e = None"
    and "\<And>m. m \<in> set mas \<Longrightarrow> nullish (maPeerId L m) '''' = '''' \<and> length (maBytes L m) < 65536 \<and> maOf L (maBytes L m) = Inr m"
  shows "rbind (set_waku2 (Some w) e) (\<lambda>e. Inr (get_waku2 e)) = Inr (Some w) \<and>
    rbind (set_multiaddrs L (Some mas) e) (get_multiaddrs L) = Inr (Some mas) \<and>
    rbind (encodeRelayShard info) (\<lambda>b. enr_shardInfo (enr_set ''rs'' b e)) = Inr (Some (relayShardNormal info)) \<and>
    rbind (set_waku2 (Some w) e) (\<lambda>e. Inr (enr_signature e, enr_seq e)) = Inr (None, enr_seq e + 1) \<and>
    rbind (set_waku2 None e) (\<lambda>e. Inr (enr_signature e, enr_seq e)) = Inr (enr_signature e, enr_seq e)"
proof -
  have "uint (word_of_int (encodeWaku2 w) :: byte) = encodeWaku2 w"
    using encodeWaku2_bounds [of w] by (simp add: uint_word_of_int)
  moreover have "rbind (encodeMultiaddrs (maBytes L) (maPeerId L) mas) (\<lambda>bs. decodeMultiaddrs (maOf L) (whole bs)) = Inr mas"
    using assms(3) by (rule decodeMultiaddrs_encode)
  moreover obtain b where "encodeRelayShard info = Inr b" "decodeRelayShard b = Inr (relayShardNormal info)"
    using relayShard_roundtrip_normal [OF assms(1)] by (auto simp: rbind_eq_Inr)
  ultimately show ?thesis
    using assms(2)
    by (auto simp: set_waku2_def get_waku2_def set_multiaddrs_def get_multiaddrs_def deleteUndefined_def
        enr_shardInfo_def enr_rs_def enr_rsv_def decodeWaku2_encode rbind_eq_Inr)
qed

theorem enr_fields_roundtrip_witness:
  "rbind (set_multiaddrs demoEnrLib (Some [''/dns4/a/tcp/1/wss'']) demoEnr) (get_multiaddrs demoEnrLib) =
     Inr (Some [''/dns4/a/tcp/1/wss''])"
proof -
  have "relayShardValid \<lparr>sh_clusterId = Some 1, sh_shards = [2]\<rparr>" "enr_get ''rsv'' demoEnr = None"
    by (simp_all add: relayShardValid_def demoEnr_def enr_get_def jm_get_def)
  moreover have "nullish (maPeerId demoEnrLib m) '''' = '''' \<and> length (maBytes demoEnrLib m) < 65536 \<and>
      maOf demoEnrLib (maBytes demoEnrLib m) = Inr m" if "m \<in> set [''/dns4/a/tcp/1/wss'']" for m
    using that demoUtf8_roundtrip by (simp add: demoEnrLib_def) (simp add: demoUtf8_def)
  ultimately show ?thesis using enr_fields_roundtrip by blast
qed

end
