(* ===== verification/Message.thy ===== *)
theory Message
  imports Sharding
begin

text \<open>
  \<open>packages/core/src/lib/message/version_0.ts\<close>, \<open>packages/core/src/lib/to_proto_message.ts\<close> and
  \<open>packages/message-hash/src/index.ts\<close>: the messages of the protocol, their encoder and decoder
  without encryption, and the deterministic hash.  The protobuf code is generated from the schema
  and is the pair of arguments \<open>wireEncode\<close> and \<open>wireDecode\<close>; UTF-8 and SHA-256 are arguments as in
  \<open>Sharding\<close>.  A \<open>Date\<close> is its time value in milliseconds, \<open>None\<close> when it is invalid.
\<close>

section \<open>Data\<close>

record rateLimitProof =
  rl_proof :: bytes
  rl_merkleRoot :: bytes
  rl_epoch :: bytes
  rl_shareX :: bytes
  rl_shareY :: bytes
  rl_nullifier :: bytes
  rl_rlnIdentifier :: bytes

record protoMessage =
  pm_payload :: bytes
  pm_contentTopic :: string
  pm_version :: "int option"
  pm_timestamp :: "int option"
  pm_meta :: "bytes option"
  pm_rateLimitProof :: "rateLimitProof option"
  pm_ephemeral :: "bool option"

type_synonym date = "int option"

record message =
  msg_payload :: bytes
  msg_timestamp :: "date option"
  msg_rateLimitProof :: "rateLimitProof option"

record decodedMessage =
  dm_pubsubTopic :: string
  dm_proto :: protoMessage

section \<open>to_proto_message.ts\<close>

record wireMessage =
  wire_payload :: bytes
  wire_contentTopic :: string
  wire_version :: "int jsprop"
  wire_timestamp :: "int jsprop"
  wire_meta :: "bytes jsprop"
  wire_rateLimitProof :: "rateLimitProof jsprop"
  wire_ephemeral :: "bool jsprop"

definition EmptyMessage :: protoMessage where
  "EmptyMessage = \<lparr>pm_payload = [], pm_contentTopic = [], pm_version = None, pm_timestamp = None,
     pm_meta = None, pm_rateLimitProof = None, pm_ephemeral = None\<rparr>"

text \<open>Spreading \<open>wire\<close> over the empty message: a property that is there replaces the default.\<close>

definition spread :: "'a jsprop \<Rightarrow> 'a option \<Rightarrow> 'a option" where
  "spread p d = (if present p then propVal p else d)"

definition toProtoMessage :: "wireMessage \<Rightarrow> protoMessage" where
  "toProtoMessage wire =
     \<lparr>pm_payload = wire_payload wire, pm_contentTopic = wire_contentTopic wire,
      pm_version = spread (wire_version wire) (pm_version EmptyMessage),
      pm_timestamp = spread (wire_timestamp wire) (pm_timestamp EmptyMessage),
      pm_meta = spread (wire_meta wire) (pm_meta EmptyMessage),
      pm_rateLimitProof = spread (wire_rateLimitProof wire) (pm_rateLimitProof EmptyMessage),
      pm_ephemeral = spread (wire_ephemeral wire) (pm_ephemeral EmptyMessage)\<rparr>"

section \<open>version_0.ts\<close>

definition OneMillion :: int where "OneMillion = 1000000"
definition Version :: int where "Version = 0"

text \<open>\<open>new Date(t)\<close>: a time value beyond 8.64e15 milliseconds is invalid.\<close>

definition newDate :: "int \<Rightarrow> date" where
  "newDate t = (if \<bar>t\<bar> \<le> 8640000000000000 then Some t else None)"

text \<open>\<open>BigInt(timestamp.valueOf())\<close> throws on the \<open>NaN\<close> of an invalid date.\<close>

definition bigIntOfDate :: "date \<Rightarrow> int res" where
  "bigIntOfDate d = (case d of None \<Rightarrow> Inl RangeError | Some t \<Rightarrow> Inr t)"

definition dm_ephemeral :: "decodedMessage \<Rightarrow> bool" where
  "dm_ephemeral m = nullish (pm_ephemeral (dm_proto m)) False"

definition dm_payload :: "decodedMessage \<Rightarrow> bytes" where
  "dm_payload m = pm_payload (dm_proto m)"

definition dm_contentTopic :: "decodedMessage \<Rightarrow> string" where
  "dm_contentTopic m = pm_contentTopic (dm_proto m)"

definition dm_rawTimestamp :: "decodedMessage \<Rightarrow> int option" where
  "dm_rawTimestamp m = pm_timestamp (dm_proto m)"

definition dm_timestamp :: "decodedMessage \<Rightarrow> date option" where
  "dm_timestamp m =
     (case pm_timestamp (dm_proto m) of
        None \<Rightarrow> None
      | Some t \<Rightarrow> if t = 0 then None else Some (newDate (to_double (js_quot t OneMillion))))"

definition dm_meta :: "decodedMessage \<Rightarrow> bytes option" where
  "dm_meta m = pm_meta (dm_proto m)"

definition dm_version :: "decodedMessage \<Rightarrow> int" where
  "dm_version m = nullish (pm_version (dm_proto m)) 0"

definition dm_rateLimitProof :: "decodedMessage \<Rightarrow> rateLimitProof option" where
  "dm_rateLimitProof m = pm_rateLimitProof (dm_proto m)"

record encoder =
  enc_contentTopic :: string
  enc_ephemeral :: bool
  enc_pubsubTopic :: string
  enc_metaSetter :: "(protoMessage \<Rightarrow> bytes) option"

definition newEncoder :: "string \<Rightarrow> bool option \<Rightarrow> string \<Rightarrow> (protoMessage \<Rightarrow> bytes) option \<Rightarrow> encoder res" where
  "newEncoder contentTopic ephemeral pubsubTopic metaSetter =
     (if contentTopic = [] then Inl (Error ''Content topic must be specified'')
      else Inr \<lparr>enc_contentTopic = contentTopic, enc_ephemeral = nullish ephemeral False,
                enc_pubsubTopic = pubsubTopic, enc_metaSetter = metaSetter\<rparr>)"

text \<open>\<open>now\<close> is the date \<open>new Date()\<close> gives.\<close>

definition toProtoObj :: "encoder \<Rightarrow> date \<Rightarrow> message \<Rightarrow> protoMessage res" where
  "toProtoObj enc now message =
     (let timestamp = nullish (msg_timestamp message) now
      in rbind (bigIntOfDate timestamp)
           (\<lambda>t. let p = \<lparr>pm_payload = msg_payload message, pm_contentTopic = enc_contentTopic enc,
                       pm_version = Some Version, pm_timestamp = Some (t * OneMillion), pm_meta = None,
                       pm_rateLimitProof = msg_rateLimitProof message, pm_ephemeral = Some (enc_ephemeral enc)\<rparr>
                 in Inr (case enc_metaSetter enc of None \<Rightarrow> p | Some setter \<Rightarrow> p\<lparr>pm_meta := Some (setter p)\<rparr>)))"

definition toWire :: "(protoMessage \<Rightarrow> bytes) \<Rightarrow> encoder \<Rightarrow> date \<Rightarrow> message \<Rightarrow> bytes res" where
  "toWire wireEncode enc now message = rbind (toProtoObj enc now message) (\<lambda>p. Inr (wireEncode p))"

definition createEncoder ::
  "(string \<Rightarrow> bytes) \<Rightarrow> (bytes \<Rightarrow> bytes) \<Rightarrow> string option \<Rightarrow> singleShardInfo option \<Rightarrow> string \<Rightarrow>
     bool option \<Rightarrow> (protoMessage \<Rightarrow> bytes) option \<Rightarrow> encoder res" where
  "createEncoder utf8 sha256 pubsubTopic pubsubTopicShardInfo contentTopic ephemeral metaSetter =
     rbind (determinePubsubTopic utf8 sha256 contentTopic
              (case pubsubTopic of Some t \<Rightarrow> Some (Topic t) | None \<Rightarrow> map_option Shard pubsubTopicShardInfo))
       (\<lambda>topic. newEncoder contentTopic ephemeral topic metaSetter)"

record decoder =
  dec_pubsubTopic :: string
  dec_contentTopic :: string

definition newDecoder :: "string \<Rightarrow> string \<Rightarrow> decoder res" where
  "newDecoder pubsubTopic contentTopic =
     (if contentTopic = [] then Inl (Error ''Content topic must be specified'')
      else Inr \<lparr>dec_pubsubTopic = pubsubTopic, dec_contentTopic = contentTopic\<rparr>)"

definition fromWireToProtoObj :: "(bytes \<Rightarrow> protoMessage res) \<Rightarrow> bytes \<Rightarrow> protoMessage res" where
  "fromWireToProtoObj wireDecode bs =
     rbind (wireDecode bs)
       (\<lambda>p. Inr (p\<lparr>pm_ephemeral := Some (nullish (pm_ephemeral p) False)\<rparr>))"

text \<open>
  \<open>proto.version ?? 0 !== Version\<close> parses as \<open>proto.version ?? (0 !== Version)\<close>: the test is the version
  itself when there is one, and \<open>0 !== 0\<close> otherwise.
\<close>

definition versionRejected :: "protoMessage \<Rightarrow> bool" where
  "versionRejected p = (case pm_version p of Some v \<Rightarrow> v \<noteq> 0 | None \<Rightarrow> 0 \<noteq> Version)"

definition fromProtoObj :: "string \<Rightarrow> protoMessage \<Rightarrow> decodedMessage option" where
  "fromProtoObj pubsubTopic p =
     (if versionRejected p then None else Some \<lparr>dm_pubsubTopic = pubsubTopic, dm_proto = p\<rparr>)"

definition createDecoder ::
  "(string \<Rightarrow> bytes) \<Rightarrow> (bytes \<Rightarrow> bytes) \<Rightarrow> string \<Rightarrow> shardInfoOrTopic option \<Rightarrow> decoder res" where
  "createDecoder utf8 sha256 contentTopic pubsubTopicShardInfo =
     rbind (determinePubsubTopic utf8 sha256 contentTopic pubsubTopicShardInfo)
       (\<lambda>topic. newDecoder topic contentTopic)"

section \<open>The message hash\<close>

text \<open>\<open>timestamp: Date | number | bigint | undefined\<close>; the number \<open>0\<close> and the bigint \<open>0n\<close> are falsy.\<close>

datatype timestamp = Date date | Num int | Big int

fun tryConvertTimestampToBytes :: "timestamp option \<Rightarrow> bytes option res" where
  "tryConvertTimestampToBytes None = Inr None"
| "tryConvertTimestampToBytes (Some (Big t)) =
     (if t = 0 then Inr None else Inr (Some (numberToBytes t)))"
| "tryConvertTimestampToBytes (Some (Num t)) =
     (if t = 0 then Inr None else Inr (Some (numberToBytes (t * 1000000))))"
| "tryConvertTimestampToBytes (Some (Date d)) =
     rbind (bigIntOfDate d) (\<lambda>t. Inr (Some (numberToBytes (t * 1000000))))"

definition messageHash ::
  "(string \<Rightarrow> bytes) \<Rightarrow> (bytes \<Rightarrow> bytes) \<Rightarrow> string \<Rightarrow> bytes \<Rightarrow> string \<Rightarrow> bytes option \<Rightarrow> timestamp option \<Rightarrow> bytes res" where
  "messageHash utf8 sha256 pubsubTopic payload contentTopic meta ts =
     rbind (tryConvertTimestampToBytes ts)
       (\<lambda>timestampBytes.
          rbind (concatU8 (List.map_filter id
                   [Some (utf8 pubsubTopic), Some payload, Some (utf8 contentTopic), meta, timestampBytes]) None)
            (\<lambda>bs. Inr (sha256 bs)))"

text \<open>The two types of message the hash is taken of.\<close>

definition messageHashProto :: "(string \<Rightarrow> bytes) \<Rightarrow> (bytes \<Rightarrow> bytes) \<Rightarrow> string \<Rightarrow> protoMessage \<Rightarrow> bytes res" where
  "messageHashProto utf8 sha256 pubsubTopic p =
     messageHash utf8 sha256 pubsubTopic (pm_payload p) (pm_contentTopic p) (pm_meta p)
       (map_option Big (pm_timestamp p))"

definition messageHashDecoded ::
  "(string \<Rightarrow> bytes) \<Rightarrow> (bytes \<Rightarrow> bytes) \<Rightarrow> string \<Rightarrow> decodedMessage \<Rightarrow> bytes res" where
  "messageHashDecoded utf8 sha256 pubsubTopic m =
     messageHash utf8 sha256 pubsubTopic (dm_payload m) (dm_contentTopic m) (dm_meta m)
       (map_option Date (dm_timestamp m))"

definition messageHashStr :: "(bytes \<Rightarrow> string) \<Rightarrow> bytes res \<Rightarrow> string res" where
  "messageHashStr hex hash = rbind hash (\<lambda>h. Inr (hex h))"

section \<open>Lemmas\<close>

lemma messageHash_eq:
  "messageHash utf8 sha256 topic payload ct meta ts =
     rbind (tryConvertTimestampToBytes ts)
       (\<lambda>t. Inr (sha256 (utf8 topic @ payload @ utf8 ct @ nullish meta [] @ nullish t [])))"
  unfolding messageHash_def
  by (intro arg_cong2 [where f = rbind] refl ext)
     (auto simp: concatU8_spec map_filter_simps split: option.split)

lemma dm_timestamp_valid:
  assumes "pm_timestamp (dm_proto m) = Some t" and "t \<noteq> 0" and "\<bar>t\<bar> \<le> 2 ^ 63"
  shows "dm_timestamp m = Some (Some (js_quot t OneMillion))"
proof -
  have "\<bar>t\<bar> div 1000000 \<le> 9223372036854775808 div 1000000"
    using assms(3) by (intro zdiv_mono1) auto
  then have "\<bar>t\<bar> div 1000000 < 9223372036855" by simp
  then have "\<bar>js_quot t OneMillion\<bar> < 9223372036855"
    using assms(2) by (simp add: js_quot_def OneMillion_def abs_mult pos_imp_zdiv_nonneg_iff)
  then show ?thesis
    using assms(1,2) to_double_exact [of "js_quot t OneMillion"] by (simp add: dm_timestamp_def newDate_def)
qed

lemma dm_timestamp_exact:
  "pm_timestamp (dm_proto m) = Some t \<Longrightarrow> t \<noteq> 0 \<Longrightarrow> \<bar>t\<bar> < 2 ^ 63 \<Longrightarrow> dm_timestamp m = Some (Some (js_quot t OneMillion))"
  by (rule dm_timestamp_valid) simp_all

section \<open>Properties\<close>

text \<open>The message hash of a received message loses what its date does not hold: it is the hash over the
  topic, the payload, the content topic, the meta field and the timestamp cut down to whole
  milliseconds, so it equals the hash of the message on the wire when the timestamp is a multiple of a
  million nanoseconds. A timestamp is a signed 64-bit number.\<close>

theorem message_hash_of_decoded:
  assumes "pm_timestamp p = Some t" and "t \<noteq> 0" and "\<bar>t\<bar> < 2 ^ 63"
  shows "messageHashDecoded utf8 sha256 topic \<lparr>dm_pubsubTopic = topic, dm_proto = p\<rparr> =
      Inr (sha256 (utf8 topic @ pm_payload p @ utf8 (pm_contentTopic p) @ nullish (pm_meta p) [] @
             bytes_be 8 (js_quot t 1000000 * 1000000)))
    \<and> messageHashProto utf8 sha256 topic p =
      Inr (sha256 (utf8 topic @ pm_payload p @ utf8 (pm_contentTopic p) @ nullish (pm_meta p) [] @ bytes_be 8 t))
    \<and> (1000000 dvd t \<longrightarrow> messageHashDecoded utf8 sha256 topic \<lparr>dm_pubsubTopic = topic, dm_proto = p\<rparr> =
        messageHashProto utf8 sha256 topic p)"
proof -
  have "js_quot t 1000000 * 1000000 = t" if "1000000 dvd t"
    using that js_quot_mult [of 1000000] by (auto simp: dvd_def mult.commute)
  then show ?thesis
    using assms dm_timestamp_exact [of "\<lparr>dm_pubsubTopic = topic, dm_proto = p\<rparr>" t]
    by (simp add: messageHashDecoded_def messageHashProto_def messageHash_eq bigIntOfDate_def dm_payload_def
        dm_contentTopic_def dm_meta_def OneMillion_def numberToBytes_def del: bytes_be.simps)
qed

definition demoProto :: "int \<Rightarrow> protoMessage" where
  "demoProto t = \<lparr>pm_payload = [1, 2], pm_contentTopic = ''/app/1/name/proto'', pm_version = Some 0,
     pm_timestamp = Some t, pm_meta = None, pm_rateLimitProof = None, pm_ephemeral = Some False\<rparr>"

theorem message_hash_of_decoded_witness:
  "messageHashDecoded demoUtf8 demoSha ''t'' \<lparr>dm_pubsubTopic = ''t'', dm_proto = demoProto 5000000\<rparr> =
     messageHashProto demoUtf8 demoSha ''t'' (demoProto 5000000)"
  using message_hash_of_decoded [of "demoProto 5000000" 5000000 demoUtf8 demoSha "''t''"]
  by (auto simp: demoProto_def)

lemma message_v0_arrives:
  assumes wire: "\<And>p. toProtoObj enc now msg = Inr p \<Longrightarrow> wireDecode (wireEncode p) = Inr p"
    and date: "nullish (msg_timestamp msg) now = Some ms" and "ms \<noteq> 0" and "\<bar>ms\<bar> < 9000000000000"
  shows "\<exists>bs p m. toWire wireEncode enc now msg = Inr bs \<and> fromWireToProtoObj wireDecode bs = Inr p \<and>
    fromProtoObj topic p = Some m \<and> dm_payload m = msg_payload msg \<and>
    dm_contentTopic m = enc_contentTopic enc \<and> dm_timestamp m = Some (Some ms) \<and>
    dm_ephemeral m = enc_ephemeral enc \<and> dm_rateLimitProof m = msg_rateLimitProof msg \<and>
    dm_version m = 0 \<and> dm_pubsubTopic m = topic \<and> (dm_meta m = None \<longleftrightarrow> enc_metaSetter enc = None)"
proof -
  obtain p where p1: "toProtoObj enc now msg = Inr p"
    using date by (auto simp: toProtoObj_def Let_def bigIntOfDate_def)
  then have p: "toProtoObj enc now msg = Inr p" "pm_timestamp p = Some (ms * 1000000)"
      "pm_payload p = msg_payload msg" "pm_contentTopic p = enc_contentTopic enc" "pm_version p = Some 0"
      "pm_ephemeral p = Some (enc_ephemeral enc)" "pm_rateLimitProof p = msg_rateLimitProof msg"
      "pm_meta p = None \<longleftrightarrow> enc_metaSetter enc = None"
    using date
    by (auto simp: toProtoObj_def Let_def bigIntOfDate_def Version_def OneMillion_def split: option.splits)
  have range: "\<bar>ms * 1000000\<bar> < 2 ^ 63" using assms(4) by (simp add: abs_mult)
  let ?m = "\<lparr>dm_pubsubTopic = topic, dm_proto = p\<lparr>pm_ephemeral := Some (nullish (pm_ephemeral p) False)\<rparr>\<rparr>"
  have "dm_timestamp ?m = Some (Some ms)"
    using dm_timestamp_exact [of ?m "ms * 1000000"] p(2) range assms(3)
    by (simp add: OneMillion_def js_quot_mult)
  moreover have "toWire wireEncode enc now msg = Inr (wireEncode p)" by (simp add: toWire_def p(1))
  ultimately show ?thesis
    using p wire [OF p(1)]
    by (simp add: fromWireToProtoObj_def fromProtoObj_def versionRejected_def dm_payload_def
        dm_contentTopic_def dm_ephemeral_def dm_rateLimitProof_def dm_version_def dm_meta_def)
qed

text \<open>A message sent without encryption arrives: the decoder accepts the bytes the encoder wrote and
  the received message has the payload, content topic, ephemeral flag, proof and date of the sent one,
  version 0, and a meta field exactly when the encoder has a setter. The protobuf code decodes the message it encoded,
  and the date lies in the range of a 64-bit number of nanoseconds and is not the epoch itself.\<close>

theorem message_v0_roundtrip:
  assumes wire: "\<And>p. toProtoObj enc now msg = Inr p \<Longrightarrow> wireDecode (wireEncode p) = Inr p"
    and date: "nullish (msg_timestamp msg) now = Some ms" and "ms \<noteq> 0" and "\<bar>ms\<bar> < 9000000000000"
  shows "\<exists>bs p m. toWire wireEncode enc now msg = Inr bs \<and> fromWireToProtoObj wireDecode bs = Inr p \<and>
    fromProtoObj topic p = Some m \<and> dm_payload m = msg_payload msg \<and>
    dm_contentTopic m = enc_contentTopic enc \<and> dm_timestamp m = Some (Some ms) \<and>
    dm_ephemeral m = enc_ephemeral enc \<and> dm_rateLimitProof m = msg_rateLimitProof msg \<and>
    dm_version m = 0 \<and> dm_pubsubTopic m = topic \<and> (dm_meta m = None \<longleftrightarrow> enc_metaSetter enc = None)"
  by (rule message_v0_arrives [OF assms])

text \<open>For the witness: bytes that spell out a message with the fields the witness uses.\<close>

definition demoWireEncode :: "protoMessage \<Rightarrow> bytes" where
  "demoWireEncode p = bytes_be 8 (nullish (pm_timestamp p) 0) @ pm_payload p"

definition demoWireDecode :: "bytes \<Rightarrow> protoMessage res" where
  "demoWireDecode bs = Inr (demoProto 0\<lparr>pm_timestamp := Some (val_be (take 8 bs)), pm_payload := drop 8 bs\<rparr>)"

definition demoEncoder :: encoder where
  "demoEncoder = \<lparr>enc_contentTopic = ''/app/1/name/proto'', enc_ephemeral = False, enc_pubsubTopic = ''t'',
     enc_metaSetter = None\<rparr>"

definition demoMessage :: message where
  "demoMessage = \<lparr>msg_payload = [4, 5], msg_timestamp = Some (Some 7), msg_rateLimitProof = None\<rparr>"

theorem message_v0_roundtrip_witness:
  "\<exists>bs p m. toWire demoWireEncode demoEncoder None demoMessage = Inr bs \<and>
     fromWireToProtoObj demoWireDecode bs = Inr p \<and> fromProtoObj ''t'' p = Some m \<and>
     dm_payload m = [4, 5] \<and> dm_timestamp m = Some (Some 7)"
proof -
  have "demoWireDecode (demoWireEncode p) = Inr p" if "toProtoObj demoEncoder None demoMessage = Inr p" for p
    using that by (auto simp: toProtoObj_def demoEncoder_def demoMessage_def bigIntOfDate_def demoWireDecode_def
        demoWireEncode_def demoProto_def Version_def OneMillion_def val_be_bytes_be simp del: bytes_be.simps)
  then show ?thesis
    using message_v0_roundtrip [of demoEncoder None demoMessage demoWireDecode demoWireEncode 7 "''t''"]
    by (auto simp: demoMessage_def)
qed

end
