(* ===== verification/Encryption.thy ===== *)
theory Encryption
  imports Message
begin

text \<open>
  \<open>packages/message-encryption/src\<close>: the envelope of the payload (\<open>encryption.ts\<close>), ECIES
  (\<open>crypto/ecies.ts\<close>), the symmetric cipher (\<open>crypto/symmetric.ts\<close>) and the encoders and decoders
  built on them (\<open>symmetric.ts\<close>, \<open>ecies.ts\<close>, \<open>decoded_message.ts\<close>).  The primitives of WebCrypto, of
  the secp256k1 package and of js-sha3 are the fields of \<open>cryptoLib\<close>; what the code draws from
  \<open>randomBytes\<close> is an argument.
\<close>

unbundle bit_operations_syntax

section \<open>Data\<close>

record cryptoLib =
  aesGcmEncrypt :: "bytes \<Rightarrow> bytes \<Rightarrow> bytes \<Rightarrow> bytes res"
  aesGcmDecrypt :: "bytes \<Rightarrow> bytes \<Rightarrow> bytes \<Rightarrow> bytes res"
  aesCtrEncrypt :: "bytes \<Rightarrow> bytes \<Rightarrow> bytes \<Rightarrow> bytes res"
  aesCtrDecrypt :: "bytes \<Rightarrow> bytes \<Rightarrow> bytes \<Rightarrow> bytes res"
  hmacSha256Sign :: "bytes \<Rightarrow> bytes \<Rightarrow> bytes res"
  hmacSha256Verify :: "bytes \<Rightarrow> bytes \<Rightarrow> bytes \<Rightarrow> bool res"
  libSha256 :: "bytes \<Rightarrow> bytes"
  libKeccak256 :: "bytes \<Rightarrow> bytes"
  libSign :: "bytes \<Rightarrow> bytes \<Rightarrow> (bytes \<times> int) res"
  libRecover :: "bytes \<Rightarrow> bytes \<Rightarrow> int \<Rightarrow> bytes option res"
  libSharedSecret :: "bytes \<Rightarrow> bytes \<Rightarrow> bytes res"
  libPublicKey :: "bytes \<Rightarrow> bytes"

definition FlagsLength :: nat where "FlagsLength = 1"
definition FlagMask :: int where "FlagMask = 3"
definition IsSignedMask :: int where "IsSignedMask = 4"
definition PaddingTarget :: nat where "PaddingTarget = 256"
definition SignatureLength :: nat where "SignatureLength = 65"
definition ivSize :: nat where "ivSize = 12"

record signatureInfo =
  sig_signature :: bytes
  sig_publicKey :: "bytes option"

section \<open>encryption.ts: the envelope\<close>

text \<open>The views of \<open>message.buffer\<close>: the messages here own their buffer.\<close>

definition getSizeOfPayloadSizeField :: "bytes \<Rightarrow> nat res" where
  "getSizeOfPayloadSizeField message = rbind (getBE 1 message 0) (\<lambda>f. Inr (nat (f AND FlagMask)))"

text \<open>\<open>getInt32(0, true)\<close>.\<close>

definition getInt32LE :: "bytes \<Rightarrow> int res" where
  "getInt32LE bs =
     (if length bs < 4 then Inl RangeError
      else let v = val_be (rev (take 4 bs)) in Inr (if v \<ge> 2 ^ 31 then v - 2 ^ 32 else v))"

definition getPayloadSize :: "bytes \<Rightarrow> nat \<Rightarrow> int res" where
  "getPayloadSize message sizeOfPayloadSizeField =
     (let payloadSizeBytes = js_slice message 1 (1 + int sizeOfPayloadSizeField)
      in rbind (if sizeOfPayloadSizeField < 4
                then concatU8 [payloadSizeBytes, replicate (4 - sizeOfPayloadSizeField) 0] (Some 4)
                else Inr payloadSizeBytes)
           getInt32LE)"

definition isMessageSigned :: "bytes \<Rightarrow> bool res" where
  "isMessageSigned message = rbind (getBE 1 message 0) (\<lambda>f. Inr (f AND IsSignedMask = IsSignedMask))"

text \<open>The loop divides a double by 256 while it is at least 256: that many digits the length has.\<close>

fun sizeFieldLoop :: "nat \<Rightarrow> nat" where
  "sizeFieldLoop i = (if i \<ge> 256 then Suc (sizeFieldLoop (i div 256)) else 1)"

declare sizeFieldLoop.simps [simp del]

definition computeSizeOfPayloadSizeField :: "bytes \<Rightarrow> nat" where
  "computeSizeOfPayloadSizeField payload = sizeFieldLoop (length payload)"

text \<open>\<open>a[0] |= m\<close>.\<close>

definition orFirst :: "int \<Rightarrow> bytes \<Rightarrow> bytes" where
  "orFirst m bs = (case bs of [] \<Rightarrow> [] | b # r \<Rightarrow> word_of_int (uint b OR m) # r)"

definition addPayloadSizeField :: "bytes \<Rightarrow> bytes \<Rightarrow> bytes res" where
  "addPayloadSizeField msg payload =
     (let fieldSize = computeSizeOfPayloadSizeField payload;
          field = js_slice (rev (bytes_be 4 (int (length payload)))) 0 (int fieldSize)
      in rbind (concatU8 [msg, field] None) (\<lambda>m. Inr (orFirst (int fieldSize) m)))"

definition validateDataIntegrity :: "bytes \<Rightarrow> nat \<Rightarrow> bool" where
  "validateDataIntegrity v expectedSize =
     (if length v \<noteq> expectedSize then False
      else expectedSize \<le> 3 \<or> list_ex (\<lambda>i. i \<noteq> 0) v)"

definition getSignature :: "bytes \<Rightarrow> bytes" where
  "getSignature message = js_slice message (int (length message) - int SignatureLength) (int (length message))"

definition getHash :: "cryptoLib \<Rightarrow> bytes \<Rightarrow> bool \<Rightarrow> bytes" where
  "getHash C message isSigned =
     (if isSigned
      then libKeccak256 C (js_slice message 0 (int (length message) - int SignatureLength))
      else libKeccak256 C message)"

definition ecRecoverPubKey :: "cryptoLib \<Rightarrow> bytes \<Rightarrow> bytes \<Rightarrow> bytes option res" where
  "ecRecoverPubKey C hash signature =
     rbind (getBE 1 (js_slice_from signature 64) 0)
       (\<lambda>recovery. libRecover C hash (js_slice signature 0 64) recovery)"

definition crypto_sign :: "cryptoLib \<Rightarrow> bytes \<Rightarrow> bytes \<Rightarrow> bytes res" where
  "crypto_sign C message privateKey =
     rbind (libSign C message privateKey)
       (\<lambda>(signature, recoveryId). concatU8 [signature, [word_of_int recoveryId]] (Some (length signature + 1)))"

text \<open>\<open>pad\<close> is \<open>randomBytes(paddingSize)\<close>.\<close>

definition preCipher :: "cryptoLib \<Rightarrow> (nat \<Rightarrow> bytes) \<Rightarrow> bytes \<Rightarrow> bytes option \<Rightarrow> bytes res" where
  "preCipher C randomPad messagePayload sigPrivKey =
     rbind (addPayloadSizeField [0] messagePayload)
       (\<lambda>envelope0. rbind (concatU8 [envelope0, messagePayload] None)
         (\<lambda>envelope1.
            let rawSize = FlagsLength + computeSizeOfPayloadSizeField messagePayload + length messagePayload
                  + (if sigPrivKey = None then 0 else SignatureLength);
                remainder = rawSize mod PaddingTarget;
                paddingSize = PaddingTarget - remainder;
                pad = randomPad paddingSize
            in if \<not> validateDataIntegrity pad paddingSize
               then Inl (Error ''failed to generate random padding'')
               else rbind (concatU8 [envelope1, pad] None)
                 (\<lambda>envelope2.
                    case sigPrivKey of
                      None \<Rightarrow> Inr envelope2
                    | Some key \<Rightarrow>
                        let envelope3 = orFirst IsSignedMask envelope2
                        in rbind (crypto_sign C (libKeccak256 C envelope3) key)
                             (\<lambda>bytesSignature. concatU8 [envelope3, bytesSignature] None))))"

definition postCipher :: "cryptoLib \<Rightarrow> bytes \<Rightarrow> (bytes \<times> signatureInfo option) option res" where
  "postCipher C message =
     rbind (getSizeOfPayloadSizeField message)
       (\<lambda>sizeOfPayloadSizeField.
          if sizeOfPayloadSizeField = 0 then Inr None
          else rbind (getPayloadSize message sizeOfPayloadSizeField)
            (\<lambda>payloadSize.
               let payloadStart = 1 + int sizeOfPayloadSizeField;
                   payload = js_slice message payloadStart (payloadStart + payloadSize)
               in rbind (isMessageSigned message)
                    (\<lambda>isSigned.
                       if isSigned
                       then (let signature = getSignature message; hash = getHash C message isSigned
                             in rbind (ecRecoverPubKey C hash signature)
                                  (\<lambda>publicKey. Inr (Some (payload,
                                     Some \<lparr>sig_signature = signature, sig_publicKey = publicKey\<rparr>))))
                       else Inr (Some (payload, None)))))"

section \<open>crypto/ecies.ts\<close>

function kdf_loop :: "cryptoLib \<Rightarrow> bytes \<Rightarrow> nat \<Rightarrow> nat \<Rightarrow> nat \<Rightarrow> bytes \<Rightarrow> bytes res" where
  "kdf_loop C secret outputLength ctr written result =
     (if written < outputLength then
        rbind (concatU8 [bytes_be 4 (int ctr), secret] (Some (4 + length secret)))
          (\<lambda>countersSecret.
             let hashResult = libSha256 C countersSecret
             in rbind (concatU8 [result, hashResult] (Some (length result + length hashResult)))
                  (kdf_loop C secret outputLength (ctr + 1) (written + 32)))
      else Inr result)"
  by pat_completeness auto
termination
  by (relation "measure (\<lambda>(_, _, outputLength, _, written, _). outputLength - written)") auto

declare kdf_loop.simps [simp del]

definition kdf :: "cryptoLib \<Rightarrow> bytes \<Rightarrow> nat \<Rightarrow> bytes res" where
  "kdf C secret outputLength = kdf_loop C secret outputLength 1 0 []"

definition derive :: "cryptoLib \<Rightarrow> bytes \<Rightarrow> bytes \<Rightarrow> bytes res" where
  "derive C privateKeyA publicKeyB =
     (if length privateKeyA \<noteq> 32 then Inl (Error ''Bad private key, it should be 32 bytes'')
      else if length publicKeyB \<noteq> 65 then Inl (Error ''Bad public key, it should be 65 bytes'')
      else if publicKeyB ! 0 \<noteq> 4 then Inl (Error ''Bad public key, a valid public key would begin with 4'')
      else rbind (libSharedSecret C privateKeyA publicKeyB) (\<lambda>px. Inr (js_slice_from px 1)))"

text \<open>\<open>ephemPrivateKey\<close> and \<open>iv\<close> are \<open>randomBytes(32)\<close> and \<open>randomBytes(16)\<close>.\<close>

definition ecies_encrypt :: "cryptoLib \<Rightarrow> bytes \<Rightarrow> bytes \<Rightarrow> bytes \<Rightarrow> bytes \<Rightarrow> bytes res" where
  "ecies_encrypt C ephemPrivateKey iv publicKeyTo msg =
     rbind (derive C ephemPrivateKey publicKeyTo)
       (\<lambda>sharedPx. rbind (kdf C sharedPx 32)
         (\<lambda>hash. let encryptionKey = js_slice hash 0 16
            in rbind (aesCtrEncrypt C iv encryptionKey msg)
              (\<lambda>cipherText. rbind (concatU8 [iv, cipherText] (Some (length iv + length cipherText)))
                (\<lambda>ivCipherText. let macKey = libSha256 C (js_slice_from hash 16)
                   in rbind (hmacSha256Sign C macKey ivCipherText)
                     (\<lambda>hmac. let ephemPublicKey = libPublicKey C ephemPrivateKey
                        in concatU8 [ephemPublicKey, ivCipherText, hmac]
                             (Some (length ephemPublicKey + length ivCipherText + length hmac)))))))"

definition metaLength :: nat where "metaLength = 1 + 64 + 16 + 32"

definition ecies_decrypt :: "cryptoLib \<Rightarrow> bytes \<Rightarrow> bytes \<Rightarrow> bytes res" where
  "ecies_decrypt C privateKey encrypted =
     (if length encrypted \<le> metaLength then Inl (Error ''Invalid Ciphertext. Data is too small'')
      else if encrypted ! 0 \<noteq> 4 then Inl (Error ''Not a valid ciphertext. It should begin with 4'')
      else
        let ephemPublicKey = js_slice encrypted 0 65;
            cipherTextLength = int (length encrypted - metaLength);
            iv = js_slice encrypted 65 (65 + 16);
            cipherAndIv = js_slice encrypted 65 (65 + 16 + cipherTextLength);
            ciphertext = js_slice_from cipherAndIv 16;
            msgMac = js_slice_from encrypted (65 + 16 + cipherTextLength)
        in rbind (derive C privateKey ephemPublicKey)
             (\<lambda>px. rbind (kdf C px 32)
               (\<lambda>hash. let macKey = libSha256 C (js_slice_from hash 16); encryptionKey = js_slice hash 0 16
                  in rbind (hmacSha256Verify C macKey cipherAndIv msgMac)
                       (\<lambda>ok. if \<not> ok then Inl (Error ''Incorrect MAC'')
                              else aesCtrDecrypt C iv encryptionKey ciphertext))))"

section \<open>encryption.ts: the ciphers\<close>

definition encryptAsymmetric :: "cryptoLib \<Rightarrow> bytes \<Rightarrow> bytes \<Rightarrow> bytes \<Rightarrow> bytes \<Rightarrow> bytes res" where
  "encryptAsymmetric C ephemPrivateKey iv d publicKey = ecies_encrypt C ephemPrivateKey iv publicKey d"

definition decryptAsymmetric :: "cryptoLib \<Rightarrow> bytes \<Rightarrow> bytes \<Rightarrow> bytes res" where
  "decryptAsymmetric C payload privKey = ecies_decrypt C privKey payload"

definition encryptSymmetric :: "cryptoLib \<Rightarrow> bytes \<Rightarrow> bytes \<Rightarrow> bytes \<Rightarrow> bytes res" where
  "encryptSymmetric C iv d key = rbind (aesGcmEncrypt C iv key d) (\<lambda>cipher. concatU8 [cipher, iv] None)"

definition decryptSymmetric :: "cryptoLib \<Rightarrow> bytes \<Rightarrow> bytes \<Rightarrow> bytes res" where
  "decryptSymmetric C payload key =
     (let ivStart = int (length payload) - int ivSize;
          cipher = js_slice payload 0 ivStart;
          iv = js_slice_from payload ivStart
      in aesGcmDecrypt C iv key cipher)"

section \<open>symmetric.ts and ecies.ts\<close>

definition EncryptionVersion :: int where "EncryptionVersion = 1"

record cipherEncoder =
  ce_pubsubTopic :: string
  ce_contentTopic :: string
  ce_sigPrivKey :: "bytes option"
  ce_ephemeral :: bool
  ce_metaSetter :: "(protoMessage \<Rightarrow> bytes) option"

definition newCipherEncoder ::
  "string \<Rightarrow> string \<Rightarrow> bytes option \<Rightarrow> bool option \<Rightarrow> (protoMessage \<Rightarrow> bytes) option \<Rightarrow> cipherEncoder res" where
  "newCipherEncoder pubsubTopic contentTopic sigPrivKey ephemeral metaSetter =
     (if contentTopic = [] then Inl (Error ''Content topic must be specified'')
      else Inr \<lparr>ce_pubsubTopic = pubsubTopic, ce_contentTopic = contentTopic, ce_sigPrivKey = sigPrivKey,
                ce_ephemeral = nullish ephemeral False, ce_metaSetter = metaSetter\<rparr>)"

text \<open>\<open>toProtoObj\<close> of both encoders, with their cipher as an argument.\<close>

definition cipherToProtoObj ::
  "cryptoLib \<Rightarrow> (bytes \<Rightarrow> bytes res) \<Rightarrow> (nat \<Rightarrow> bytes) \<Rightarrow> cipherEncoder \<Rightarrow> date \<Rightarrow> message \<Rightarrow> protoMessage res" where
  "cipherToProtoObj C encrypt randomPad enc now message =
     (let timestamp = nullish (msg_timestamp message) now
      in rbind (preCipher C randomPad (msg_payload message) (ce_sigPrivKey enc))
           (\<lambda>preparedPayload. rbind (encrypt preparedPayload)
             (\<lambda>payload. rbind (bigIntOfDate timestamp)
               (\<lambda>t. let p = \<lparr>pm_payload = payload, pm_contentTopic = ce_contentTopic enc,
                         pm_version = Some EncryptionVersion, pm_timestamp = Some (t * OneMillion), pm_meta = None,
                         pm_rateLimitProof = msg_rateLimitProof message, pm_ephemeral = Some (ce_ephemeral enc)\<rparr>
                     in Inr (case ce_metaSetter enc of None \<Rightarrow> p | Some setter \<Rightarrow> p\<lparr>pm_meta := Some (setter p)\<rparr>)))))"

definition symmetric_toProtoObj ::
  "cryptoLib \<Rightarrow> bytes \<Rightarrow> bytes \<Rightarrow> (nat \<Rightarrow> bytes) \<Rightarrow> cipherEncoder \<Rightarrow> date \<Rightarrow> message \<Rightarrow> protoMessage res" where
  "symmetric_toProtoObj C iv symKey randomPad enc now message =
     cipherToProtoObj C (\<lambda>d. encryptSymmetric C iv d symKey) randomPad enc now message"

definition ecies_toProtoObj ::
  "cryptoLib \<Rightarrow> bytes \<Rightarrow> bytes \<Rightarrow> bytes \<Rightarrow> (nat \<Rightarrow> bytes) \<Rightarrow> cipherEncoder \<Rightarrow> date \<Rightarrow> message \<Rightarrow> protoMessage res" where
  "ecies_toProtoObj C ephemPrivateKey iv publicKey randomPad enc now message =
     cipherToProtoObj C (\<lambda>d. encryptAsymmetric C ephemPrivateKey iv d publicKey) randomPad enc now message"

definition symmetric_toWire ::
  "(protoMessage \<Rightarrow> bytes) \<Rightarrow> cryptoLib \<Rightarrow> bytes \<Rightarrow> bytes \<Rightarrow> (nat \<Rightarrow> bytes) \<Rightarrow> cipherEncoder \<Rightarrow> date \<Rightarrow> message \<Rightarrow> bytes res" where
  "symmetric_toWire wireEncode C iv symKey randomPad enc now message =
     rbind (symmetric_toProtoObj C iv symKey randomPad enc now message) (\<lambda>p. Inr (wireEncode p))"

definition ecies_toWire ::
  "(protoMessage \<Rightarrow> bytes) \<Rightarrow> cryptoLib \<Rightarrow> bytes \<Rightarrow> bytes \<Rightarrow> bytes \<Rightarrow> (nat \<Rightarrow> bytes) \<Rightarrow> cipherEncoder \<Rightarrow> date \<Rightarrow> message \<Rightarrow> bytes res" where
  "ecies_toWire wireEncode C ephemPrivateKey iv publicKey randomPad enc now message =
     rbind (ecies_toProtoObj C ephemPrivateKey iv publicKey randomPad enc now message) (\<lambda>p. Inr (wireEncode p))"

record encryptedMessage = decodedMessage +
  em_decodedPayload :: bytes
  em_signature :: "bytes option"
  em_signaturePublicKey :: "bytes option"

definition em_payload :: "encryptedMessage \<Rightarrow> bytes" where
  "em_payload m = em_decodedPayload m"

definition em_verifySignature :: "bytes \<Rightarrow> encryptedMessage \<Rightarrow> bool" where
  "em_verifySignature publicKey m =
     (case em_signaturePublicKey m of None \<Rightarrow> False | Some k \<Rightarrow> k = publicKey)"

text \<open>\<open>fromProtoObj\<close> of both decoders: a failed decryption is caught, an exception of \<open>postCipher\<close> is not.\<close>

definition cipherFromProtoObj ::
  "cryptoLib \<Rightarrow> (bytes \<Rightarrow> bytes res) \<Rightarrow> string \<Rightarrow> protoMessage \<Rightarrow> encryptedMessage option res" where
  "cipherFromProtoObj C decrypt pubsubTopic p =
     (if pm_version p \<noteq> Some EncryptionVersion then Inr None
      else case decrypt (pm_payload p) of
             Inl e \<Rightarrow> Inr None
           | Inr payload \<Rightarrow>
               rbind (postCipher C payload)
                 (\<lambda>r. case r of
                        None \<Rightarrow> Inr None
                      | Some (decoded, sig) \<Rightarrow>
                          Inr (Some \<lparr>dm_pubsubTopic = pubsubTopic, dm_proto = p, em_decodedPayload = decoded,
                                     em_signature = map_option sig_signature sig,
                                     em_signaturePublicKey = Option.bind sig sig_publicKey\<rparr>)))"

definition symmetric_fromProtoObj ::
  "cryptoLib \<Rightarrow> bytes \<Rightarrow> string \<Rightarrow> protoMessage \<Rightarrow> encryptedMessage option res" where
  "symmetric_fromProtoObj C symKey = cipherFromProtoObj C (\<lambda>d. decryptSymmetric C d symKey)"

definition ecies_fromProtoObj ::
  "cryptoLib \<Rightarrow> bytes \<Rightarrow> string \<Rightarrow> protoMessage \<Rightarrow> encryptedMessage option res" where
  "ecies_fromProtoObj C privateKey = cipherFromProtoObj C (\<lambda>d. decryptAsymmetric C d privateKey)"

definition createCipherEncoder ::
  "(string \<Rightarrow> bytes) \<Rightarrow> (bytes \<Rightarrow> bytes) \<Rightarrow> string option \<Rightarrow> singleShardInfo option \<Rightarrow> string \<Rightarrow>
     bytes option \<Rightarrow> bool option \<Rightarrow> (protoMessage \<Rightarrow> bytes) option \<Rightarrow> cipherEncoder res" where
  "createCipherEncoder utf8 sha256 pubsubTopic pubsubTopicShardInfo contentTopic sigPrivKey ephemeral metaSetter =
     rbind (determinePubsubTopic utf8 sha256 contentTopic
              (case pubsubTopic of Some t \<Rightarrow> Some (Topic t) | None \<Rightarrow> map_option Shard pubsubTopicShardInfo))
       (\<lambda>topic. newCipherEncoder topic contentTopic sigPrivKey ephemeral metaSetter)"

section \<open>Lemmas on the envelope\<close>

lemma concatU8_all [simp]:
  "concatU8 bss None = Inr (concat bss)" "n = length (concat bss) \<Longrightarrow> concatU8 bss (Some n) = Inr (concat bss)"
  by (simp_all add: concatU8_spec)

lemma sizeFieldLoop_bounds:
  "0 < sizeFieldLoop n \<and> n < 256 ^ sizeFieldLoop n \<and> (sizeFieldLoop n = 1 \<or> 256 ^ (sizeFieldLoop n - 1) \<le> n)"
proof (induction n rule: sizeFieldLoop.induct)
  case (1 n)
  show ?case
  proof (cases "256 \<le> n")
    case False
    then show ?thesis by (simp add: sizeFieldLoop.simps [of n])
  next
    case True
    let ?k = "sizeFieldLoop (n div 256)"
    have k: "0 < ?k" "n div 256 < 256 ^ ?k" "?k = 1 \<or> 256 ^ (?k - 1) \<le> n div 256" using 1 True by auto
    have "n < 256 * 256 ^ ?k" using k(2) by (simp add: div_less_iff_less_mult mult.commute)
    moreover have "256 * 256 ^ (?k - 1) = (256::nat) ^ ?k"
      using k(1) by (metis power_Suc Suc_pred' )
    then have "256 ^ ?k \<le> n" using k True by (cases "?k = 1") (auto simp: less_eq_div_iff_mult_less_eq mult.commute)
    ultimately show ?thesis using True by (simp add: sizeFieldLoop.simps [of n])
  qed
qed

lemma sizeFieldLoop_le: "n < 256 ^ k \<Longrightarrow> 0 < k \<Longrightarrow> sizeFieldLoop n \<le> k"
proof (rule ccontr)
  assume a: "n < 256 ^ k" "0 < k" "\<not> sizeFieldLoop n \<le> k"
  then have "256 ^ k \<le> (256 :: nat) ^ (sizeFieldLoop n - 1)" by (intro power_increasing) auto
  moreover have "256 ^ (sizeFieldLoop n - 1) \<le> n"
    using a sizeFieldLoop_bounds [of n] by linarith
  ultimately show False using a(1) by linarith
qed

lemma bytes_be_zero: "bytes_be k 0 = replicate k 0"
  by (induction k) (simp_all add: replicate_append_same)

lemma bytes_be_lead: "0 \<le> n \<Longrightarrow> n < 256 ^ s \<Longrightarrow> bytes_be (k + s) n = replicate k 0 @ bytes_be s n"
proof (induction s arbitrary: n)
  case 0
  then have "n = 0" by simp
  then show ?case by (simp add: bytes_be_zero)
next
  case (Suc s)
  then have "n div 256 < 256 ^ s" by (simp add: div_less_iff_less_mult mult.commute zdiv_mono1)
  with Suc show ?case by (simp add: pos_imp_zdiv_nonneg_iff)
qed

definition sizeField :: "bytes \<Rightarrow> bytes" where
  "sizeField p = take (computeSizeOfPayloadSizeField p) (rev (bytes_be 4 (int (length p))))"

lemma addPayloadSizeField_spec:
  "addPayloadSizeField [0] p = Inr (word_of_int (int (computeSizeOfPayloadSizeField p)) # sizeField p)"
  using js_slice_nat [of _ 0 "computeSizeOfPayloadSizeField p"]
  by (simp add: addPayloadSizeField_def Let_def orFirst_def sizeField_def)

lemma sizeField_length: "computeSizeOfPayloadSizeField p \<le> 4 \<Longrightarrow> length (sizeField p) = computeSizeOfPayloadSizeField p"
  by (simp add: sizeField_def)

lemma sizeField_value:
  assumes "computeSizeOfPayloadSizeField p \<le> 3"
  shows "getInt32LE (sizeField p @ replicate (4 - computeSizeOfPayloadSizeField p) 0) = Inr (int (length p))"
proof -
  let ?s = "computeSizeOfPayloadSizeField p" and ?n = "int (length p)"
  have "length p < 256 ^ ?s"
    using sizeFieldLoop_bounds [of "length p"] by (simp add: computeSizeOfPayloadSizeField_def)
  then have n: "?n < 256 ^ ?s" by (metis of_nat_less_iff of_nat_numeral of_nat_power)
  have lead: "bytes_be 4 ?n = replicate (4 - ?s) 0 @ bytes_be ?s ?n"
    using bytes_be_lead [of ?n ?s "4 - ?s"] n assms by simp
  have rev: "rev (sizeField p @ replicate (4 - ?s) 0) = bytes_be 4 ?n"
    by (simp add: sizeField_def rev_take lead)
  have len: "length (sizeField p @ replicate (4 - ?s) 0) = 4" using assms by (simp add: sizeField_length)
  have "(256::int) ^ ?s \<le> 256 ^ 3" using assms by (intro power_increasing) auto
  moreover have "(256::int) ^ 3 = 16777216" by simp
  ultimately have small: "?n < 16777216" using n by linarith
  then have "?n < 2 ^ 31" "?n mod 256 ^ 4 = ?n" by simp_all
  then show ?thesis
    using len by (simp only: getInt32LE_def take_all_iff [THEN iffD2] order_refl rev val_be_bytes_be Let_def) simp
qed

lemma getPayloadSize_spec:
  assumes "computeSizeOfPayloadSizeField p \<le> 3"
  shows "getPayloadSize (f # sizeField p @ rest) (computeSizeOfPayloadSizeField p) = Inr (int (length p))"
proof -
  let ?s = "computeSizeOfPayloadSizeField p"
  have "length (sizeField p) = ?s" using assms by (simp add: sizeField_length)
  then have "js_slice (f # sizeField p @ rest) 1 (1 + int ?s) = sizeField p"
    using js_slice_nat [of "f # sizeField p @ rest" 1 "1 + ?s"] by simp
  moreover have "concatU8 [sizeField p, replicate (4 - ?s) 0] (Some 4) = Inr (sizeField p @ replicate (4 - ?s) 0)"
    using concatU8_all(2) [of 4 "[sizeField p, replicate (4 - ?s) 0]"] assms by (simp add: sizeField_length)
  ultimately show ?thesis
    using assms sizeField_value [OF assms] by (simp add: getPayloadSize_def)
qed

definition envelopeFlags :: "bytes \<Rightarrow> bool \<Rightarrow> byte" where
  "envelopeFlags p isSig =
     (let b = word_of_int (int (computeSizeOfPayloadSizeField p)) in if isSig then word_of_int (uint b OR 4) else b)"

lemma getBE_first: "getBE (Suc 0) (b # bs) 0 = Inr (uint b)"
  by (simp add: getBE_def val_be_def)

lemma envelope_flags_small:
  assumes "computeSizeOfPayloadSizeField p \<le> 3"
  shows "getSizeOfPayloadSizeField (envelopeFlags p isSig # bs) = Inr (computeSizeOfPayloadSizeField p)"
    "isMessageSigned (envelopeFlags p isSig # bs) = Inr isSig"
proof -
  have "0 < computeSizeOfPayloadSizeField p"
    using sizeFieldLoop_bounds by (simp add: computeSizeOfPayloadSizeField_def)
  then have s: "computeSizeOfPayloadSizeField p = 1 \<or> computeSizeOfPayloadSizeField p = 2 \<or>
      computeSizeOfPayloadSizeField p = 3"
    using assms by linarith
  show "getSizeOfPayloadSizeField (envelopeFlags p isSig # bs) = Inr (computeSizeOfPayloadSizeField p)"
    using s by (elim disjE; cases isSig)
      (simp_all add: getSizeOfPayloadSizeField_def getBE_first envelopeFlags_def FlagMask_def)
  show "isMessageSigned (envelopeFlags p isSig # bs) = Inr isSig"
    using s by (elim disjE; cases isSig)
      (simp_all add: isMessageSigned_def getBE_first envelopeFlags_def IsSignedMask_def)
qed

lemma envelope_flags_large:
  assumes "computeSizeOfPayloadSizeField p = 4"
  shows "getSizeOfPayloadSizeField (envelopeFlags p isSig # bs) = Inr 0"
  using assms by (cases isSig) (simp_all add: getSizeOfPayloadSizeField_def getBE_first envelopeFlags_def FlagMask_def)

definition signLaw :: "cryptoLib \<Rightarrow> bytes \<Rightarrow> bytes \<Rightarrow> bool" where
  "signLaw C key pk \<longleftrightarrow>
     (\<forall>m. \<exists>s r. libSign C m key = Inr (s, r) \<and> length s = 64 \<and> 0 \<le> r \<and> r < 256 \<and>
            libRecover C m s r = Inr (Some pk))"

lemma pad_mod: "(r + (256 - r mod 256)) mod 256 = (0 :: nat)"
proof -
  obtain q m where qm: "r = 256 * q + m" "r mod 256 = m" "m < 256"
    using that [of "r div 256" "r mod 256"] by simp
  then have "r + (256 - r mod 256) = 256 * (q + 1)" unfolding qm(2) by simp
  then show ?thesis by (simp only: mod_mult_self1_is_0)
qed

definition envelopeSigned :: "cryptoLib \<Rightarrow> bytes option \<Rightarrow> bytes \<Rightarrow> bytes \<Rightarrow> bool" where
  "envelopeSigned C key body sig =
     (case key of None \<Rightarrow> sig = []
      | Some k \<Rightarrow> (\<exists>s r. libSign C (libKeccak256 C body) k = Inr (s, r) \<and> sig = s @ [word_of_int r]))"

lemma preCipher_spec:
  assumes pad: "\<And>n. 0 < n \<Longrightarrow> n \<le> 256 \<Longrightarrow> validateDataIntegrity (randomPad n) n"
    and sign: "\<And>k. key = Some k \<Longrightarrow> signLaw C k pk"
    and size: "computeSizeOfPayloadSizeField p \<le> 4"
  shows "\<exists>body sig pad. preCipher C randomPad p key = Inr (body @ sig) \<and>
    body = envelopeFlags p (key \<noteq> None) # sizeField p @ p @ pad \<and>
    length pad \<le> 256 \<and>
    envelopeSigned C key body sig \<and> length sig = (if key = None then 0 else 65) \<and> 256 dvd length (body @ sig)"
proof -
  let ?s = "computeSizeOfPayloadSizeField p"
  let ?raw = "FlagsLength + ?s + length p + (if key = None then 0 else SignatureLength)"
  let ?n = "PaddingTarget - ?raw mod PaddingTarget"
  let ?pad = "randomPad ?n"
  let ?body = "envelopeFlags p (key \<noteq> None) # sizeField p @ p @ ?pad"
  define n where "n = ?n"
  have "0 < n \<and> n \<le> 256" using mod_less_divisor [of 256 ?raw] by (simp add: n_def PaddingTarget_def)
  then have valid: "validateDataIntegrity (randomPad n) n" by (intro pad) auto
  then have len: "length (randomPad n) = n" by (simp add: validateDataIntegrity_def split: if_splits)
  have "(?raw + n) mod 256 = 0"
    unfolding n_def PaddingTarget_def by (rule pad_mod)
  moreover have "length ?body = Suc (?s + (length p + n))"
    unfolding n_def by (simp only: length_Cons length_append len [unfolded n_def] sizeField_length [OF size])
  then have "length ?body + (if key = None then 0 else 65) = ?raw + n"
    by (simp only: FlagsLength_def SignatureLength_def)
  ultimately have dvd: "256 dvd length ?body + (if key = None then 0 else 65)" by presburger
  have small: "length ?pad \<le> 256" unfolding len [unfolded n_def] by (simp add: PaddingTarget_def)
  note valid = valid [unfolded n_def]
  show ?thesis
  proof (cases key)
    case None
    then have "preCipher C randomPad p key = Inr (?body @ [])"
      using valid by (simp add: preCipher_def addPayloadSizeField_spec Let_def envelopeFlags_def)
    with None dvd small show ?thesis by (intro exI [of _ ?body] exI [of _ "[]"] exI [of _ ?pad]) (simp add: envelopeSigned_def)
  next
    case (Some k)
    then obtain s r where s: "libSign C (libKeccak256 C ?body) k = Inr (s, r)" "length s = 64"
      using sign unfolding signLaw_def by blast
    then have "crypto_sign C (libKeccak256 C ?body) k = Inr (s @ [word_of_int r])"
      by (simp add: crypto_sign_def)
    moreover have "orFirst IsSignedMask (word_of_int (int ?s) # sizeField p @ p @ ?pad) = ?body"
      using Some by (simp add: orFirst_def envelopeFlags_def IsSignedMask_def Let_def)
    ultimately have "preCipher C randomPad p key = Inr (?body @ s @ [word_of_int r])"
      using valid Some by (simp add: preCipher_def addPayloadSizeField_spec Let_def)
    with Some dvd s small show ?thesis
      by (intro exI [of _ ?body] exI [of _ "s @ [word_of_int r]"] exI [of _ ?pad]) (simp add: envelopeSigned_def)
  qed
qed

lemma postCipher_signed:
  assumes "computeSizeOfPayloadSizeField p \<le> 3" and "signLaw C k pk"
    and "body = envelopeFlags p True # sizeField p @ p @ pad" and "envelopeSigned C (Some k) body sig"
  shows "postCipher C (body @ sig) = Inr (Some (p, Some \<lparr>sig_signature = sig, sig_publicKey = Some pk\<rparr>))"
proof -
  let ?s = "computeSizeOfPayloadSizeField p"
  obtain s r where sr: "sig = s @ [word_of_int r]" "length s = 64" "0 \<le> r" "r < 256"
      "libRecover C (libKeccak256 C body) s r = Inr (Some pk)"
  proof -
    obtain s r where "libSign C (libKeccak256 C body) k = Inr (s, r)" "sig = s @ [word_of_int r]"
      using assms(4) by (auto simp: envelopeSigned_def)
    moreover obtain s' r' where "libSign C (libKeccak256 C body) k = Inr (s', r')" "length s' = 64" "0 \<le> r'" "r' < 256"
        "libRecover C (libKeccak256 C body) s' r' = Inr (Some pk)"
      using assms(2) unfolding signLaw_def by blast
    ultimately show ?thesis using that by simp
  qed
  have len: "length (body @ sig) - 65 = length body" "int (length (body @ sig)) - 65 = int (length body)"
    using sr by simp_all
  have "getSignature (body @ sig) = sig"
    unfolding getSignature_def SignatureLength_def
    using js_slice_nat [of "body @ sig" "length body" "length (body @ sig)"] len(2) by simp
  moreover have "getHash C (body @ sig) True = libKeccak256 C body"
    unfolding getHash_def SignatureLength_def
    using js_slice_nat [of "body @ sig" 0 "length body"] len(2) by simp
  moreover have "ecRecoverPubKey C h sig = libRecover C h s r" for h
    using sr js_slice_from_nat [of sig 64] js_slice_nat [of sig 0 64]
    by (simp add: ecRecoverPubKey_def getBE_first uint_word_of_int)
  moreover have "js_slice (body @ sig) (1 + int ?s) (1 + int ?s + int (length p)) = p"
    using js_slice_nat [of "body @ sig" "1 + ?s" "1 + ?s + length p"] assms(1,3)
    by (simp add: sizeField_length add.assoc)
  moreover have "?s \<noteq> 0"
    using sizeFieldLoop_bounds by (simp add: computeSizeOfPayloadSizeField_def)
  ultimately show ?thesis
    using assms(1,3) sr(5) envelope_flags_small [OF assms(1), of True] getPayloadSize_spec [OF assms(1)]
    by (simp add: postCipher_def Let_def add.assoc)
qed

lemma postCipher_unsigned:
  assumes "computeSizeOfPayloadSizeField p \<le> 3"
  shows "postCipher C (envelopeFlags p False # sizeField p @ p @ pad) = Inr (Some (p, None))"
proof -
  let ?s = "computeSizeOfPayloadSizeField p"
  have "js_slice (envelopeFlags p False # sizeField p @ p @ pad) (1 + int ?s) (1 + int ?s + int (length p)) = p"
    using js_slice_nat [of "envelopeFlags p False # sizeField p @ p @ pad" "1 + ?s" "1 + ?s + length p"] assms
    by (simp add: sizeField_length add.assoc)
  moreover have "?s \<noteq> 0"
    using sizeFieldLoop_bounds by (simp add: computeSizeOfPayloadSizeField_def)
  ultimately show ?thesis
    using envelope_flags_small [OF assms, of False] getPayloadSize_spec [OF assms]
    by (simp add: postCipher_def Let_def add.assoc)
qed

section \<open>Lemmas on the ciphers\<close>

lemma kdf_32:
  assumes "\<And>b. length (libSha256 C b) = 32"
  shows "kdf C secret 32 = Inr (libSha256 C (bytes_be 4 1 @ secret))"
proof -
  have "kdf_loop C secret 32 2 32 h = Inr h" for h by (simp add: kdf_loop.simps)
  then show ?thesis
    unfolding kdf_def by (subst kdf_loop.simps) (simp add: numeral_2_eq_2 del: bytes_be.simps)
qed

definition eciesLaws :: "cryptoLib \<Rightarrow> bytes \<Rightarrow> bytes \<Rightarrow> bytes \<Rightarrow> bytes \<Rightarrow> bool" where
  "eciesLaws C privA pubA privB pubB \<longleftrightarrow>
     (\<forall>b. length (libSha256 C b) = 32) \<and>
     length privA = 32 \<and> length privB = 32 \<and> length pubA = 65 \<and> length pubB = 65 \<and>
     pubA ! 0 = 4 \<and> pubB ! 0 = 4 \<and> libPublicKey C privA = pubA \<and>
     (\<exists>x. libSharedSecret C privA pubB = Inr x \<and> libSharedSecret C privB pubA = Inr x) \<and>
     (\<forall>iv k m. \<exists>c. aesCtrEncrypt C iv k m = Inr c \<and> length c = length m \<and> aesCtrDecrypt C iv k c = Inr m) \<and>
     (\<forall>k m. \<exists>h. hmacSha256Sign C k m = Inr h \<and> length h = 32 \<and> hmacSha256Verify C k m h = Inr True)"

lemma ecies_split:
  assumes "length pub = 65" and "length iv = 16" and "length c = n" and "length h = 32"
  defines "e \<equiv> pub @ (iv @ c) @ h"
  shows "length e = metaLength + n" "js_slice e 0 65 = pub" "js_slice e 65 81 = iv"
    "js_slice e 65 (81 + int n) = iv @ c" "js_slice_from (iv @ c) 16 = c"
    "js_slice_from e (81 + int n) = h"
  using assms js_slice_nat [of e 0 65] js_slice_nat [of e 65 81] js_slice_nat [of e 65 "81 + n"]
    js_slice_from_nat [of "iv @ c" 16] js_slice_from_nat [of e "81 + n"]
  by (simp_all add: metaLength_def)

lemma ecies_roundtrip_aux:
  assumes laws: "eciesLaws C privA pubA privB pubB" and iv: "length iv = 16"
  shows "\<exists>e. ecies_encrypt C privA iv pubB msg = Inr e \<and>
    ecies_decrypt C privB e =
      (if msg = [] then Inl (Error ''Invalid Ciphertext. Data is too small'') else Inr msg)"
proof -
  obtain x where x: "libSharedSecret C privA pubB = Inr x" "libSharedSecret C privB pubA = Inr x"
    using laws unfolding eciesLaws_def by blast
  have keys: "length privA = 32" "length privB = 32" "length pubA = 65" "length pubB = 65"
    "pubA ! 0 = 4" "pubB ! 0 = 4" "libPublicKey C privA = pubA" "\<And>b. length (libSha256 C b) = 32"
    using laws unfolding eciesLaws_def by simp_all
  let ?px = "js_slice_from x 1"
  have der: "derive C privA pubB = Inr ?px" "derive C privB pubA = Inr ?px"
    using keys x by (simp_all add: derive_def)
  define hash where "hash = libSha256 C (bytes_be 4 1 @ ?px)"
  have kdf: "kdf C ?px 32 = Inr hash" unfolding hash_def by (rule kdf_32) (rule keys)
  let ?mk = "libSha256 C (js_slice_from hash 16)" and ?ek = "js_slice hash 0 16"
  obtain c where c: "aesCtrEncrypt C iv ?ek msg = Inr c" "length c = length msg" "aesCtrDecrypt C iv ?ek c = Inr msg"
    using laws unfolding eciesLaws_def by blast
  obtain h where h: "hmacSha256Sign C ?mk (iv @ c) = Inr h" "length h = 32"
      "hmacSha256Verify C ?mk (iv @ c) h = Inr True"
    using laws unfolding eciesLaws_def by blast
  define e where "e = pubA @ (iv @ c) @ h"
  have enc: "ecies_encrypt C privA iv pubB msg = Inr e"
    using der(1) kdf c(1) h(1) keys(7) by (simp add: ecies_encrypt_def e_def)
  note sp = ecies_split [OF keys(3) iv c(2) h(2), folded e_def]
  have "e ! 0 = 4" using keys by (simp add: nth_append e_def)
  moreover have "int (length e - metaLength) = int (length msg)" "length e \<le> metaLength \<longleftrightarrow> msg = []"
    using sp(1) by simp_all
  ultimately have "ecies_decrypt C privB e =
      (if msg = [] then Inl (Error ''Invalid Ciphertext. Data is too small'') else Inr msg)"
    using der(2) kdf c h sp(2-) by (simp add: ecies_decrypt_def Let_def)
  with enc show ?thesis by blast
qed

lemma symmetric_roundtrip_aux:
  assumes "length iv = 12" and "aesGcmEncrypt C iv key d = Inr c" and "aesGcmDecrypt C iv key c = Inr d"
  shows "\<exists>e. encryptSymmetric C iv d key = Inr e \<and> decryptSymmetric C e key = Inr d"
proof -
  have "js_slice (c @ iv) 0 (int (length c)) = c" "js_slice_from (c @ iv) (int (length c)) = iv"
    using js_slice_nat [of "c @ iv" 0 "length c"] js_slice_from_nat [of "c @ iv" "length c"] by simp_all
  moreover have "int (length (c @ iv)) - int ivSize = int (length c)" using assms(1) by (simp add: ivSize_def)
  ultimately show ?thesis
    using assms(2,3) by (simp add: encryptSymmetric_def decryptSymmetric_def Let_def del: length_append)
qed

definition padLaw :: "(nat \<Rightarrow> bytes) \<Rightarrow> bool" where
  "padLaw randomPad \<longleftrightarrow> (\<forall>n. 0 < n \<longrightarrow> n \<le> 256 \<longrightarrow> validateDataIntegrity (randomPad n) n)"

definition signerLaw :: "cryptoLib \<Rightarrow> bytes option \<Rightarrow> bytes \<Rightarrow> bool" where
  "signerLaw C key pk \<longleftrightarrow> (case key of None \<Rightarrow> True | Some k \<Rightarrow> signLaw C k pk)"

lemma envelope_roundtrip_aux:
  assumes "padLaw randomPad" and "signerLaw C key pk" and "length p < 2 ^ 24"
  shows "\<exists>env sig. preCipher C randomPad p key = Inr env \<and> env \<noteq> [] \<and> length env \<le> length p + 325 \<and>
    256 dvd length env \<and> postCipher C env = Inr (Some (p, sig)) \<and>
    map_option sig_publicKey sig = (if key = None then None else Some (Some pk))"
proof -
  have s: "computeSizeOfPayloadSizeField p \<le> 3"
    unfolding computeSizeOfPayloadSizeField_def using assms(3) by (intro sizeFieldLoop_le) simp_all
  have pad: "\<And>n. 0 < n \<Longrightarrow> n \<le> 256 \<Longrightarrow> validateDataIntegrity (randomPad n) n"
    and sign: "\<And>k. key = Some k \<Longrightarrow> signLaw C k pk"
    using assms(1,2) by (auto simp: padLaw_def signerLaw_def)
  have "computeSizeOfPayloadSizeField p \<le> 4" using s by simp
  from preCipher_spec [OF pad sign this] obtain body sig pad where
    b: "preCipher C randomPad p key = Inr (body @ sig)"
      "body = envelopeFlags p (key \<noteq> None) # sizeField p @ p @ pad" "length pad \<le> 256"
      "envelopeSigned C key body sig" "length sig = (if key = None then 0 else 65)" "256 dvd length (body @ sig)"
    by blast
  have "length body + length sig \<le> length p + 325" using b(2,3,5) s by (simp add: sizeField_length split: if_splits)
  then have len: "length (body @ sig) \<le> length p + 325" by simp
  show ?thesis
  proof (cases key)
    case None
    then show ?thesis using b len postCipher_unsigned [OF s, of C pad] by auto
  next
    case (Some k)
    then have "postCipher C (body @ sig) = Inr (Some (p, Some \<lparr>sig_signature = sig, sig_publicKey = Some pk\<rparr>))"
      using b sign by (intro postCipher_signed [OF s]) auto
    with Some b len show ?thesis by auto
  qed
qed

section \<open>The interface of a message cipher\<close>

locale messageCipher = codec encrypt decrypt valid
  for encrypt :: "bytes \<Rightarrow> bytes res" and decrypt :: "bytes \<Rightarrow> bytes res" and valid :: "bytes \<Rightarrow> bool"
begin

text \<open>The envelope that is encrypted is as long as the payload, a few sizes, the padding and a signature.\<close>

lemma message_sealed:
  assumes "\<And>d. d \<noteq> [] \<Longrightarrow> valid d" and "padLaw randomPad" and "signerLaw C (ce_sigPrivKey enc) pk"
    and "length (msg_payload msg) < 2 ^ 24" and "nullish (msg_timestamp msg) now = Some ms"
  shows "\<exists>p m env. length env \<le> length (msg_payload msg) + 325 \<and> encrypt env = Inr (pm_payload p) \<and>
    pm_payload (dm_proto m) = pm_payload p \<and> cipherToProtoObj C encrypt randomPad enc now msg = Inr p \<and>
    cipherFromProtoObj C decrypt topic p = Inr (Some m) \<and> em_payload m = msg_payload msg \<and>
    em_signaturePublicKey m = (if ce_sigPrivKey enc = None then None else Some pk) \<and>
    pm_timestamp (dm_proto m) = Some (ms * 1000000) \<and> pm_contentTopic (dm_proto m) = ce_contentTopic enc \<and>
    dm_pubsubTopic m = topic"
proof -
  obtain env sig where env: "preCipher C randomPad (msg_payload msg) (ce_sigPrivKey enc) = Inr env" "env \<noteq> []"
      "length env \<le> length (msg_payload msg) + 325"
      "postCipher C env = Inr (Some (msg_payload msg, sig))"
      "map_option sig_publicKey sig = (if ce_sigPrivKey enc = None then None else Some (Some pk))"
    using envelope_roundtrip_aux [OF assms(2-4)] by blast
  then have "\<exists>c. encrypt env = Inr c \<and> decrypt c = Inr env" using assms(1) by (intro dec_enc)
  then obtain c where c: "encrypt env = Inr c" "decrypt c = Inr env" by blast
  have "Option.bind sig sig_publicKey = (if ce_sigPrivKey enc = None then None else Some pk)"
    using env(5) by (cases sig) (auto split: if_splits)
  then show ?thesis
    using env c assms(5)
    by (auto simp: cipherToProtoObj_def cipherFromProtoObj_def bigIntOfDate_def Let_def em_payload_def
        EncryptionVersion_def OneMillion_def split: option.split)
qed

lemma message_roundtrip:
  assumes "\<And>d. d \<noteq> [] \<Longrightarrow> valid d" and "padLaw randomPad" and "signerLaw C (ce_sigPrivKey enc) pk"
    and "length (msg_payload msg) < 2 ^ 24" and "nullish (msg_timestamp msg) now = Some ms"
  shows "\<exists>p m. cipherToProtoObj C encrypt randomPad enc now msg = Inr p \<and>
    cipherFromProtoObj C decrypt topic p = Inr (Some m) \<and> em_payload m = msg_payload msg \<and>
    em_signaturePublicKey m = (if ce_sigPrivKey enc = None then None else Some pk) \<and>
    pm_timestamp (dm_proto m) = Some (ms * 1000000) \<and> pm_contentTopic (dm_proto m) = ce_contentTopic enc \<and>
    dm_pubsubTopic m = topic"
  using message_sealed [OF assms] by blast

end

interpretation symmetricCipher: messageCipher
    "\<lambda>d. encryptSymmetric C iv d key" "\<lambda>d. decryptSymmetric C d key"
    "\<lambda>d. length iv = 12 \<and> (\<exists>c. aesGcmEncrypt C iv key d = Inr c \<and> aesGcmDecrypt C iv key c = Inr d)"
  for C iv key
  by unfold_locales (use symmetric_roundtrip_aux in blast)

interpretation eciesCipher: messageCipher
    "\<lambda>d. encryptAsymmetric C privA iv d pubB" "\<lambda>d. decryptAsymmetric C d privB"
    "\<lambda>d. d \<noteq> [] \<and> length iv = 16 \<and> eciesLaws C privA pubA privB pubB"
  for C privA pubA privB pubB iv
  by unfold_locales (metis ecies_roundtrip_aux encryptAsymmetric_def decryptAsymmetric_def)

section \<open>Properties\<close>

text \<open>C28: The envelope of a payload opens to the payload: for fewer than 2 to the 24 bytes,
  \<open>postCipher\<close> returns the payload \<open>preCipher\<close> wrapped, with the public key of the signer exactly
  when it was signed, and the envelope is a multiple of 256 bytes long. From there to 2 to the 32 bytes
  the size of the size field does not fit its two flag bits, and the envelope opens to nothing. The
  random padding is not all zero, and a signature recovers to the public key of its signer.\<close>

theorem envelope_roundtrip:
  assumes "padLaw randomPad" and "signerLaw C key pk"
  shows "(length p < 2 ^ 24 \<longrightarrow>
      (\<exists>env sig. preCipher C randomPad p key = Inr env \<and> 256 dvd length env \<and>
         postCipher C env = Inr (Some (p, sig)) \<and>
         map_option sig_publicKey sig = (if key = None then None else Some (Some pk)))) \<and>
    (2 ^ 24 \<le> length p \<and> length p < 2 ^ 32 \<longrightarrow>
      (\<exists>env. preCipher C randomPad p key = Inr env \<and> postCipher C env = Inr None))"
proof (intro conjI impI)
  assume "length p < 2 ^ 24"
  then show "\<exists>env sig. preCipher C randomPad p key = Inr env \<and> 256 dvd length env \<and>
      postCipher C env = Inr (Some (p, sig)) \<and>
      map_option sig_publicKey sig = (if key = None then None else Some (Some pk))"
    using envelope_roundtrip_aux [OF assms] by blast
next
  assume l: "2 ^ 24 \<le> length p \<and> length p < 2 ^ 32"
  then have "256 ^ 3 \<le> length p" "length p < 256 ^ 4" by simp_all
  moreover have "sizeFieldLoop (length p) \<le> 4" using l by (intro sizeFieldLoop_le) simp_all
  moreover have "(256::nat) ^ sizeFieldLoop (length p) \<le> 256 ^ 3" if "sizeFieldLoop (length p) \<le> 3"
    using that by (intro power_increasing) auto
  ultimately have s: "computeSizeOfPayloadSizeField p = 4"
    using sizeFieldLoop_bounds [of "length p"] unfolding computeSizeOfPayloadSizeField_def by linarith
  have pad: "\<And>n. 0 < n \<Longrightarrow> n \<le> 256 \<Longrightarrow> validateDataIntegrity (randomPad n) n"
    and sign: "\<And>k. key = Some k \<Longrightarrow> signLaw C k pk"
    using assms by (auto simp: padLaw_def signerLaw_def)
  have "computeSizeOfPayloadSizeField p \<le> 4" using s by simp
  from preCipher_spec [OF pad sign this] obtain body sig pad where
    "preCipher C randomPad p key = Inr (body @ sig)" "body = envelopeFlags p (key \<noteq> None) # sizeField p @ p @ pad"
    by blast
  then show "\<exists>env. preCipher C randomPad p key = Inr env \<and> postCipher C env = Inr None"
    using envelope_flags_large [OF s] by (simp add: postCipher_def)
qed

definition demoPad :: "nat \<Rightarrow> bytes" where "demoPad n = replicate n 1"

definition demoCrypto :: cryptoLib where
  "demoCrypto =
     \<lparr>aesGcmEncrypt = (\<lambda>_ _. Inr), aesGcmDecrypt = (\<lambda>_ _. Inr), aesCtrEncrypt = (\<lambda>_ _. Inr),
      aesCtrDecrypt = (\<lambda>_ _. Inr), hmacSha256Sign = (\<lambda>k m. Inr (demoSha m)),
      hmacSha256Verify = (\<lambda>k m h. Inr (h = demoSha m)), libSha256 = demoSha, libKeccak256 = demoSha,
      libSign = (\<lambda>m k. Inr (replicate 64 0, 1)), libRecover = (\<lambda>m s r. Inr (Some [9])),
      libSharedSecret = (\<lambda>_ _. Inr (replicate 33 3)), libPublicKey = (\<lambda>_. 4 # replicate 64 0)\<rparr>"

lemma demo_laws: "padLaw demoPad" "signerLaw demoCrypto key [9]"
  "eciesLaws demoCrypto (replicate 32 1) (4 # replicate 64 0) (replicate 32 2) (4 # replicate 64 0)"
  by (auto simp: padLaw_def demoPad_def validateDataIntegrity_def list_ex_iff signerLaw_def signLaw_def
      demoCrypto_def eciesLaws_def demoSha_def split: option.split)

theorem envelope_roundtrip_witness:
  "\<exists>env sig. preCipher demoCrypto demoPad [1, 2, 3] (Some [7]) = Inr env \<and> 256 dvd length env \<and>
     postCipher demoCrypto env = Inr (Some ([1, 2, 3], sig)) \<and> map_option sig_publicKey sig = Some (Some [9])"
  using envelope_roundtrip [OF demo_laws(1,2), of "[1, 2, 3]" "Some [7]"] by simp

text \<open>A message encrypted with a symmetric key is received under that key: the decoder returns the
  payload that was sent, its topic and timestamp, and the public key of the signer when the message
  was signed. AES-GCM decrypts what it encrypted, the initialisation vector has 12 bytes.\<close>

theorem symmetric_message_roundtrip:
  assumes "\<And>d. \<exists>c. aesGcmEncrypt C iv key d = Inr c \<and> aesGcmDecrypt C iv key c = Inr d"
    and "length iv = 12" and "padLaw randomPad" and "signerLaw C (ce_sigPrivKey enc) pk"
    and "length (msg_payload msg) < 2 ^ 24" and "nullish (msg_timestamp msg) now = Some ms"
  shows "\<exists>p m. symmetric_toProtoObj C iv key randomPad enc now msg = Inr p \<and>
    symmetric_fromProtoObj C key topic p = Inr (Some m) \<and> em_payload m = msg_payload msg \<and>
    em_signaturePublicKey m = (if ce_sigPrivKey enc = None then None else Some pk) \<and>
    pm_timestamp (dm_proto m) = Some (ms * 1000000) \<and> pm_contentTopic (dm_proto m) = ce_contentTopic enc \<and>
    dm_pubsubTopic m = topic"
  unfolding symmetric_toProtoObj_def symmetric_fromProtoObj_def
  using assms by (intro symmetricCipher.message_roundtrip) auto

definition demoCipherEncoder :: cipherEncoder where
  "demoCipherEncoder = \<lparr>ce_pubsubTopic = ''t'', ce_contentTopic = ''/app/1/name/proto'', ce_sigPrivKey = Some [7],
     ce_ephemeral = False, ce_metaSetter = None\<rparr>"

theorem symmetric_message_roundtrip_witness:
  "\<exists>p m. symmetric_toProtoObj demoCrypto (replicate 12 0) [5] demoPad demoCipherEncoder None demoMessage = Inr p \<and>
     symmetric_fromProtoObj demoCrypto [5] ''t'' p = Inr (Some m) \<and> em_payload m = [4, 5] \<and>
     em_signaturePublicKey m = Some [9]"
proof -
  have "\<exists>c. aesGcmEncrypt demoCrypto iv k d = Inr c \<and> aesGcmDecrypt demoCrypto iv k c = Inr d" for iv k d
    by (simp add: demoCrypto_def)
  from symmetric_message_roundtrip [OF this _ demo_laws(1,2), where iv = "replicate 12 0"
      and enc = demoCipherEncoder and msg = demoMessage and now = None and ms = 7]
  show ?thesis by (fastforce simp: demoMessage_def demoCipherEncoder_def)
qed

text \<open>A message encrypted with ECIES is received by the owner of the key: the decoder with the private
  key of the recipient returns the payload that was encrypted for its public key, with topic, timestamp
  and signer. ECIES itself refuses to decrypt only the empty text, which an envelope never is. Both
  sides derive the same secret, AES-CTR inverts and keeps the length, the MAC verifies.\<close>

theorem ecies_message_roundtrip:
  assumes "eciesLaws C ephemPriv ephemPub privKey pubKey" and "length iv = 16" and "padLaw randomPad"
    and "signerLaw C (ce_sigPrivKey enc) pk"
    and "length (msg_payload msg) < 2 ^ 24" and "nullish (msg_timestamp msg) now = Some ms"
  shows "\<exists>p m. ecies_toProtoObj C ephemPriv iv pubKey randomPad enc now msg = Inr p \<and>
    ecies_fromProtoObj C privKey topic p = Inr (Some m) \<and> em_payload m = msg_payload msg \<and>
    em_signaturePublicKey m = (if ce_sigPrivKey enc = None then None else Some pk) \<and>
    pm_timestamp (dm_proto m) = Some (ms * 1000000) \<and> pm_contentTopic (dm_proto m) = ce_contentTopic enc \<and>
    dm_pubsubTopic m = topic"
  unfolding ecies_toProtoObj_def ecies_fromProtoObj_def
  using assms by (intro eciesCipher.message_roundtrip [where pubA = ephemPub]) auto

theorem ecies_message_roundtrip_witness:
  "\<exists>p m. ecies_toProtoObj demoCrypto (replicate 32 1) (replicate 16 0) (4 # replicate 64 0) demoPad
       demoCipherEncoder None demoMessage = Inr p \<and>
     ecies_fromProtoObj demoCrypto (replicate 32 2) ''t'' p = Inr (Some m) \<and> em_payload m = [4, 5] \<and>
     em_signaturePublicKey m = Some [9]"
  using ecies_message_roundtrip [OF demo_laws(3) _ demo_laws(1,2), where iv = "replicate 16 0"
      and enc = demoCipherEncoder and msg = demoMessage and now = None and ms = 7]
  by (fastforce simp: demoMessage_def demoCipherEncoder_def)

end
