(* ===== verification/StateMachine.thy ===== *)
theory StateMachine
  imports Main
begin

text \<open>
  The contract of the components that keep a state: a step relation with its reachable states, or a
  function that executes one event, and an invariant that the initial state has and every step keeps.
\<close>

inductive reach :: "('s \<Rightarrow> bool) \<Rightarrow> ('s \<Rightarrow> 's \<Rightarrow> bool) \<Rightarrow> 's \<Rightarrow> bool" for init step where
  reach_init: "init s \<Longrightarrow> reach init step s"
| reach_step: "reach init step s \<Longrightarrow> step s t \<Longrightarrow> reach init step t"

definition runEvents :: "('e \<Rightarrow> 's \<Rightarrow> 's) \<Rightarrow> 'e list \<Rightarrow> 's \<Rightarrow> 's" where
  "runEvents exec evs s = fold exec evs s"

lemma runEvents_simps:
  "runEvents exec [] s = s" "runEvents exec (e # evs) s = runEvents exec evs (exec e s)"
  "runEvents exec (evs @ [e]) s = exec e (runEvents exec evs s)"
  by (simp_all add: runEvents_def)

locale invariant_system =
  fixes init :: "'s \<Rightarrow> bool"
    and step :: "'s \<Rightarrow> 's \<Rightarrow> bool"
    and inv :: "'s \<Rightarrow> bool"
  assumes inv_init: "init s \<Longrightarrow> inv s"
    and inv_step: "inv s \<Longrightarrow> step s t \<Longrightarrow> inv t"
begin

lemma reachable_inv: "reach init step s \<Longrightarrow> inv s"
  by (induction rule: reach.induct) (auto intro: inv_init inv_step)

end

locale event_system =
  fixes start :: "'s \<Rightarrow> bool"
    and exec :: "'e \<Rightarrow> 's \<Rightarrow> 's"
    and inv :: "'s \<Rightarrow> bool"
  assumes start_inv: "start s \<Longrightarrow> inv s"
    and exec_inv: "inv s \<Longrightarrow> inv (exec e s)"

sublocale event_system \<subseteq> invariant_system start "\<lambda>s t. \<exists>e. t = exec e s" inv
  by unfold_locales (auto intro: start_inv exec_inv)

context event_system
begin

lemma run_inv: "inv s \<Longrightarrow> inv (runEvents exec evs s)"
  unfolding runEvents_def by (induction evs arbitrary: s) (auto intro: exec_inv)

lemma run_from_start: "start s \<Longrightarrow> inv (runEvents exec evs s)"
  using run_inv start_inv by blast

lemma run_reachable: "start s \<Longrightarrow> reach start (\<lambda>s t. \<exists>e. t = exec e s) (runEvents exec evs s)"
proof (induction evs rule: rev_induct)
  case Nil
  then show ?case by (simp add: runEvents_def reach_init)
next
  case (snoc e evs)
  then show ?case unfolding runEvents_def by (auto intro: reach_step)
qed

end

text \<open>
  A component that implements an abstract specification: every event is some steps of the specification on the abstractions of
  the states.
\<close>

locale refinement = event_system start exec inv
  for start :: "'s \<Rightarrow> bool" and exec :: "'e \<Rightarrow> 's \<Rightarrow> 's" and inv :: "'s \<Rightarrow> bool" +
  fixes abs :: "'s \<Rightarrow> 'a"
    and spec_init :: "'a"
    and spec_step :: "'a \<Rightarrow> 'a \<Rightarrow> bool"
  assumes start_abs: "start s \<Longrightarrow> abs s = spec_init"
    and exec_refines: "inv s \<Longrightarrow> spec_step\<^sup>*\<^sup>* (abs s) (abs (exec e s))"
begin

lemma run_refines: "start s \<Longrightarrow> spec_step\<^sup>*\<^sup>* spec_init (abs (runEvents exec evs s))"
proof (induction evs rule: rev_induct)
  case Nil
  then show ?case by (simp add: runEvents_def start_abs)
next
  case (snoc e evs)
  then have "inv (runEvents exec evs s)" by (intro run_from_start)
  from exec_refines [OF this, of e] snoc show ?case by (simp add: runEvents_def)
qed

end

end
