(* ===== verification/StreamManager.thy ===== *)
theory StreamManager
  imports WakuPrelude StateMachine JsMap
begin

text \<open>
  \<open>packages/core/src/lib/stream_manager\<close>: the pool of streams of one protocol.  Connections and
  streams belong to libp2p, so the state holds the connections it reports, and \<open>newStream\<close> is a step
  of the environment that adds a fresh, unlocked stream.  A call of \<open>getStream\<close> runs in pieces between
  its \<open>await\<close>s: the phase of each call is kept in the state and the step relation interleaves them.
  \<open>sm_next\<close> numbers the streams ever created and is not part of the code.
\<close>

section \<open>Data\<close>

record stream =
  st_id :: nat
  st_protocol :: string
  st_writeStatus :: "string option"

record connection =
  cn_status :: string
  cn_open :: int
  cn_streams :: "stream list"

datatype 'p phase = AwaitScheduled 'p | Creating 'p | Created 'p nat | Returned 'p nat | Failed 'p

record 'p streamManager =
  sm_connections :: "'p \<Rightarrow> connection list"
  sm_locked :: "nat list"
  sm_pool :: "'p list"
  sm_ongoing :: "'p list"
  sm_calls :: "(nat, 'p phase) jsmap"
  sm_next :: nat

section \<open>utils.ts\<close>

text \<open>The sort is stable and puts the latest connection first.\<close>

definition selectOpenConnection :: "connection list \<Rightarrow> connection option" where
  "selectOpenConnection connections =
     (case sort_key (\<lambda>c. - cn_open c) (filter (\<lambda>c. cn_status c = ''open'') connections) of
        [] \<Rightarrow> None | c # _ \<Rightarrow> Some c)"

section \<open>stream_manager.ts\<close>

definition isStreamLocked :: "nat list \<Rightarrow> stream \<Rightarrow> bool" where
  "isStreamLocked locked s = (st_id s \<in> set locked)"

definition lockStream :: "nat \<Rightarrow> 'p streamManager \<Rightarrow> 'p streamManager" where
  "lockStream s S = S\<lparr>sm_locked := s # sm_locked S\<rparr>"

text \<open>Only the first stream of the protocol is looked at.\<close>

definition getOpenStreamForCodec :: "string \<Rightarrow> connection list \<Rightarrow> nat list \<Rightarrow> nat option" where
  "getOpenStreamForCodec multicodec connections locked =
     (case selectOpenConnection connections of
        None \<Rightarrow> None
      | Some connection \<Rightarrow>
          (case find (\<lambda>s. st_protocol s = multicodec) (cn_streams connection) of
             None \<Rightarrow> None
           | Some stream \<Rightarrow>
               if nullish (st_writeStatus stream) [] \<in> {''done'', ''closed'', ''closing''} \<or> isStreamLocked locked stream
               then None else Some (st_id stream)))"

text \<open>\<open>createStream\<close>: \<open>outcome i\<close> is what the \<open>i\<close>-th call of \<open>newStream\<close> gives.\<close>

fun createStream_loop :: "(nat \<Rightarrow> nat res) \<Rightarrow> nat list \<Rightarrow> nat option" where
  "createStream_loop outcome [] = None"
| "createStream_loop outcome (i # is) =
     (case outcome i of Inr s \<Rightarrow> Some s | Inl _ \<Rightarrow> createStream_loop outcome is)"

definition createStream :: "connection list \<Rightarrow> (nat \<Rightarrow> nat res) \<Rightarrow> nat \<Rightarrow> nat res" where
  "createStream connections outcome retries =
     (case selectOpenConnection connections of
        None \<Rightarrow> Inl (Error ''Failed to get a connection to the peer'')
      | Some _ \<Rightarrow>
          (case createStream_loop outcome [0..<retries + 1] of
             None \<Rightarrow> Inl (Error ''Failed to create a new stream'')
           | Some s \<Rightarrow> Inr s))"

text \<open>The part of \<open>getStream\<close> after the scheduled stream was awaited, up to \<open>newStream\<close>.\<close>

definition takeStream :: "string \<Rightarrow> nat \<Rightarrow> 'p \<Rightarrow> 'p streamManager \<Rightarrow> 'p streamManager" where
  "takeStream multicodec r p S =
     (case getOpenStreamForCodec multicodec (sm_connections S p) (sm_locked S) of
        Some s \<Rightarrow> (lockStream s S)\<lparr>sm_calls := jm_set r (Returned p s) (sm_calls S)\<rparr>
      | None \<Rightarrow>
          if selectOpenConnection (sm_connections S p) = None
          then S\<lparr>sm_calls := jm_set r (Failed p) (sm_calls S)\<rparr>
          else S\<lparr>sm_calls := jm_set r (Creating p) (sm_calls S)\<rparr>)"

definition getStream_begin :: "string \<Rightarrow> nat \<Rightarrow> 'p \<Rightarrow> 'p streamManager \<Rightarrow> 'p streamManager" where
  "getStream_begin multicodec r p S =
     (if p \<in> set (sm_pool S)
      then S\<lparr>sm_pool := filter (\<lambda>q. q \<noteq> p) (sm_pool S), sm_calls := jm_set r (AwaitScheduled p) (sm_calls S)\<rparr>
      else takeStream multicodec r p S)"

text \<open>
  \<open>createStreamWithLock\<close> up to its \<open>await\<close>: a peer whose creation is under way is skipped.  The steps
  \<open>scheduled_done\<close> and \<open>scheduled_failed\<close> are its end.
\<close>

definition createStreamWithLock :: "'p \<Rightarrow> 'p streamManager \<Rightarrow> 'p streamManager" where
  "createStreamWithLock p S =
     (if p \<in> set (sm_ongoing S) then S
      else S\<lparr>sm_ongoing := p # sm_ongoing S\<rparr>)"

definition scheduleNewStream :: "'p \<Rightarrow> 'p streamManager \<Rightarrow> 'p streamManager" where
  "scheduleNewStream p S =
     (let S1 = (if p \<in> set (sm_pool S) then S\<lparr>sm_pool := filter (\<lambda>q. q \<noteq> p) (sm_pool S)\<rparr> else S);
          S2 = createStreamWithLock p S1
      in S2\<lparr>sm_pool := p # sm_pool S2\<rparr>)"

definition handlePeerUpdateStreamPool :: "string \<Rightarrow> 'p \<Rightarrow> string list \<Rightarrow> 'p streamManager \<Rightarrow> 'p streamManager" where
  "handlePeerUpdateStreamPool multicodec p protocols S =
     (if multicodec \<notin> set protocols then S
      else if getOpenStreamForCodec multicodec (sm_connections S p) (sm_locked S) \<noteq> None then S
      else scheduleNewStream p S)"

section \<open>Runs\<close>

text \<open>The environment adds a fresh stream of the protocol to some connection of the peer.\<close>

definition streamIds :: "connection list \<Rightarrow> nat set" where
  "streamIds cs = (\<Union>c \<in> set cs. st_id ` set (cn_streams c))"

inductive smStep :: "string \<Rightarrow> 'p streamManager \<Rightarrow> 'p streamManager \<Rightarrow> bool" for multicodec where
  begin_call: "jm_get (sm_calls S) r = None \<Longrightarrow> smStep multicodec S (getStream_begin multicodec r p S)"
| resume: "jm_get (sm_calls S) r = Some (AwaitScheduled p) \<Longrightarrow> smStep multicodec S (takeStream multicodec r p S)"
| created: "jm_get (sm_calls S) r = Some (Creating p) \<Longrightarrow> streamIds cs \<subseteq> insert (sm_next S) (streamIds (sm_connections S p)) \<Longrightarrow>
    smStep multicodec S (S\<lparr>sm_connections := (sm_connections S)(p := cs), sm_next := sm_next S + 1,
      sm_calls := jm_set r (Created p (sm_next S)) (sm_calls S)\<rparr>)"
| create_failed: "jm_get (sm_calls S) r = Some (Creating p) \<Longrightarrow>
    smStep multicodec S (S\<lparr>sm_calls := jm_set r (Failed p) (sm_calls S)\<rparr>)"
| return_created: "jm_get (sm_calls S) r = Some (Created p s) \<Longrightarrow>
    smStep multicodec S ((lockStream s S)\<lparr>sm_calls := jm_set r (Returned p s) (sm_calls S)\<rparr>)"
| peer_update: "smStep multicodec S (handlePeerUpdateStreamPool multicodec p protocols S)"
| scheduled_done: "p \<in> set (sm_ongoing S) \<Longrightarrow> streamIds cs \<subseteq> insert (sm_next S) (streamIds (sm_connections S p)) \<Longrightarrow>
    smStep multicodec S (S\<lparr>sm_connections := (sm_connections S)(p := cs), sm_next := sm_next S + 1,
      sm_ongoing := filter (\<lambda>q. q \<noteq> p) (sm_ongoing S)\<rparr>)"
| scheduled_failed: "smStep multicodec S (S\<lparr>sm_ongoing := filter (\<lambda>q. q \<noteq> p) (sm_ongoing S)\<rparr>)"
| network: "\<forall>p. streamIds (conns p) \<subseteq> streamIds (sm_connections S p) \<Longrightarrow>
    smStep multicodec S (S\<lparr>sm_connections := conns\<rparr>)"

definition smInit :: "'p streamManager \<Rightarrow> bool" where
  "smInit S \<longleftrightarrow> sm_locked S = [] \<and> sm_pool S = [] \<and> sm_ongoing S = [] \<and> sm_calls S = [] \<and>
     sm_next S = 0 \<and> (\<forall>p. streamIds (sm_connections S p) = {})"

section \<open>Lemmas\<close>

text \<open>Every stream that a call holds is locked, and every stream of a connection has been numbered.\<close>

definition smInv :: "'p streamManager \<Rightarrow> bool" where
  "smInv S \<longleftrightarrow>
     (\<forall>r p s. jm_get (sm_calls S) r = Some (Returned p s) \<longrightarrow> s \<in> set (sm_locked S)) \<and>
     (\<forall>p s. s \<in> streamIds (sm_connections S p) \<longrightarrow> s < sm_next S) \<and>
     (\<forall>s \<in> set (sm_locked S). s < sm_next S) \<and>
     (\<forall>r p s. jm_get (sm_calls S) r = Some (Created p s) \<longrightarrow> s < sm_next S)"

lemma selectOpenConnection_Some:
  "selectOpenConnection cs = Some c \<Longrightarrow>
     c \<in> set cs \<and> cn_status c = ''open'' \<and> (\<forall>d \<in> set cs. cn_status d = ''open'' \<longrightarrow> cn_open d \<le> cn_open c)"
proof -
  assume a: "selectOpenConnection cs = Some c"
  let ?l = "sort_key (\<lambda>c. - cn_open c) (filter (\<lambda>c. cn_status c = ''open'') cs)"
  obtain rest where l: "?l = c # rest"
    using a by (cases ?l) (auto simp: selectOpenConnection_def)
  then have "set (c # rest) = {d \<in> set cs. cn_status d = ''open''}"
    using set_sort [of "\<lambda>c. - cn_open c"] by (metis set_filter)
  moreover have "sorted (map (\<lambda>c. - cn_open c) (c # rest))"
    using sorted_sort_key [of "\<lambda>c. - cn_open c" "filter (\<lambda>c. cn_status c = ''open'') cs"] l by simp
  ultimately show ?thesis by auto
qed

lemma selectOpenConnection_None: "selectOpenConnection cs = None \<longleftrightarrow> (\<forall>c \<in> set cs. cn_status c \<noteq> ''open'')"
proof -
  have "sort_key (\<lambda>c. - cn_open c) (filter (\<lambda>c. cn_status c = ''open'') cs) = [] \<longleftrightarrow>
      filter (\<lambda>c. cn_status c = ''open'') cs = []"
    by (metis set_empty set_sort)
  then show ?thesis
    by (auto simp: selectOpenConnection_def filter_empty_conv split: list.split)
qed

lemma getOpen_unlocked:
  "getOpenStreamForCodec multicodec cs locked = Some s \<Longrightarrow> s \<notin> set locked \<and> s \<in> streamIds cs"
proof -
  assume "getOpenStreamForCodec multicodec cs locked = Some s"
  then obtain c st where c: "selectOpenConnection cs = Some c"
      "find (\<lambda>s. st_protocol s = multicodec) (cn_streams c) = Some st" "s = st_id st" "st_id st \<notin> set locked"
    by (auto simp: getOpenStreamForCodec_def isStreamLocked_def split: option.splits if_splits)
  moreover have "st \<in> set (cn_streams c)" using c(2) by (auto simp: find_Some_iff)
  ultimately show ?thesis using selectOpenConnection_Some [OF c(1)] by (auto simp: streamIds_def)
qed

lemma smInv_init: "smInit S \<Longrightarrow> smInv S"
  by (simp add: smInit_def smInv_def)

lemma takeStream_inv: "smInv S \<Longrightarrow> smInv (takeStream multicodec r p S)"
proof (cases "getOpenStreamForCodec multicodec (sm_connections S p) (sm_locked S)")
  case None
  then show "smInv S \<Longrightarrow> smInv (takeStream multicodec r p S)"
    by (auto simp: takeStream_def smInv_def)
next
  case (Some s)
  then show "smInv S \<Longrightarrow> smInv (takeStream multicodec r p S)"
    using getOpen_unlocked [OF Some]
    by (simp add: takeStream_def smInv_def lockStream_def) blast
qed

lemma smInv_pool: "smInv S \<Longrightarrow> smInv (S\<lparr>sm_pool := q\<rparr>)" "smInv S \<Longrightarrow> smInv (S\<lparr>sm_ongoing := q\<rparr>)"
  by (simp_all add: smInv_def)

lemma getStream_begin_inv: "smInv S \<Longrightarrow> smInv (getStream_begin multicodec r p S)"
  by (auto simp: getStream_begin_def takeStream_inv) (auto simp: smInv_def)

lemma handlePeerUpdate_inv: "smInv S \<Longrightarrow> smInv (handlePeerUpdateStreamPool multicodec p protocols S)"
  by (auto simp: handlePeerUpdateStreamPool_def scheduleNewStream_def createStreamWithLock_def Let_def
      intro: smInv_pool)

lemma smInv_newStream:
  assumes "smInv S" and "streamIds cs \<subseteq> insert (sm_next S) (streamIds (sm_connections S p))"
  shows "smInv (S\<lparr>sm_connections := (sm_connections S)(p := cs), sm_next := sm_next S + 1\<rparr>)"
  using assms by (simp add: smInv_def) (metis insert_iff less_Suc_eq subsetD)

lemma smInv_step: "smStep multicodec S T \<Longrightarrow> smInv S \<Longrightarrow> smInv T"
proof (induction rule: smStep.induct)
  case (created S r p cs)
  have "smInv (S\<lparr>sm_connections := (sm_connections S)(p := cs), sm_next := sm_next S + 1\<rparr>)"
    using created by (intro smInv_newStream)
  then show ?case by (simp add: smInv_def)
next
  case (return_created S r p s)
  then show ?case by (auto simp: smInv_def lockStream_def)
next
  case (scheduled_done p S cs)
  then show ?case using smInv_newStream [of S cs p] by (simp add: smInv_def)
next
  case (network conns S)
  then show ?case by (simp add: smInv_def) blast
next
  case (create_failed S r p)
  then show ?case by (simp add: smInv_def)
qed (simp_all add: takeStream_inv getStream_begin_inv handlePeerUpdate_inv smInv_pool)

interpretation streams: invariant_system smInit "smStep multicodec" smInv for multicodec
  by unfold_locales (auto intro: smInv_init smInv_step)

inductive_cases smStep_cases: "smStep multicodec S T"

section \<open>Properties\<close>

text \<open>C38: A stream that was handed out is not found again: in every state the manager can reach, under
  every interleaving of calls, peer updates and changes of the network, the stream
  \<open>getOpenStreamForCodec\<close> finds for a peer is held by no call, because every
  stream a call returned is locked and locks are never taken back.\<close>

theorem found_stream_is_free:
  assumes "reach smInit (smStep multicodec) S"
    and "getOpenStreamForCodec multicodec (sm_connections S p) (sm_locked S) = Some s"
  shows "\<forall>r q. jm_get (sm_calls S) r \<noteq> Some (Returned q s)"
  using streams.reachable_inv [OF assms(1)] getOpen_unlocked [OF assms(2)] by (auto simp: smInv_def)

definition demoStreams :: "string streamManager" where
  "demoStreams =
     \<lparr>sm_connections = (\<lambda>q. if q = ''p''
        then [\<lparr>cn_status = ''open'', cn_open = 5,
               cn_streams = [\<lparr>st_id = 0, st_protocol = ''store'', st_writeStatus = None\<rparr>]\<rparr>] else []),
      sm_locked = [], sm_pool = [''p''], sm_ongoing = [], sm_calls = [], sm_next = 1\<rparr>"

theorem found_stream_is_free_witness:
  "\<forall>r q. jm_get (sm_calls demoStreams) r \<noteq> Some (Returned q 0)"
proof -
  let ?cs = "[\<lparr>cn_status = ''open'', cn_open = 5,
               cn_streams = [\<lparr>st_id = 0, st_protocol = ''store'', st_writeStatus = None\<rparr>]\<rparr>]"
  let ?S0 = "\<lparr>sm_connections = (\<lambda>q. []), sm_locked = [], sm_pool = [], sm_ongoing = [], sm_calls = [],
      sm_next = 0\<rparr> :: string streamManager"
  let ?S1 = "handlePeerUpdateStreamPool ''store'' ''p'' [''store''] ?S0"
  have s1: "?S1 = ?S0\<lparr>sm_pool := [''p''], sm_ongoing := [''p'']\<rparr>"
    by (simp add: handlePeerUpdateStreamPool_def getOpenStreamForCodec_def selectOpenConnection_def
        scheduleNewStream_def createStreamWithLock_def)
  have "reach smInit (smStep ''store'') ?S0" by (rule reach_init) (simp add: smInit_def streamIds_def)
  then have r1: "reach smInit (smStep ''store'') ?S1" by (rule reach_step) (rule smStep.peer_update)
  let ?S2 = "?S1\<lparr>sm_connections := (sm_connections ?S1)(''p'' := ?cs), sm_next := sm_next ?S1 + 1,
      sm_ongoing := filter (\<lambda>q. q \<noteq> ''p'') (sm_ongoing ?S1)\<rparr>"
  have "reach smInit (smStep ''store'') ?S2"
    by (rule reach_step [OF r1]) (rule smStep.scheduled_done, simp_all add: s1 streamIds_def)
  moreover have "?S2 = demoStreams" by (simp add: s1 demoStreams_def fun_eq_iff)
  ultimately have "reach smInit (smStep ''store'') demoStreams" by simp
  moreover have "getOpenStreamForCodec ''store'' (sm_connections demoStreams ''p'') (sm_locked demoStreams) = Some 0"
    by (simp add: demoStreams_def getOpenStreamForCodec_def selectOpenConnection_def isStreamLocked_def)
  ultimately show ?thesis by (rule found_stream_is_free)
qed

text \<open>A stream that is being created is not protected: it is locked only when the call that
  created it resumes, so a call that runs in between finds the same stream, and both calls return it.\<close>

theorem created_stream_race:
  "\<exists>T. reach smInit (smStep multicodec) T \<and> jm_get (sm_calls T) 0 = Some (Returned p 0) \<and>
     jm_get (sm_calls T) 1 = Some (Returned p 0)"
proof -
  let ?cn = "\<lambda>ss. \<lparr>cn_status = ''open'', cn_open = 0, cn_streams = ss\<rparr>"
  let ?st = "\<lparr>st_id = 0, st_protocol = multicodec, st_writeStatus = None\<rparr>"
  let ?S0 = "\<lparr>sm_connections = (\<lambda>q. if q = p then [?cn []] else []), sm_locked = [], sm_pool = [],
      sm_ongoing = [], sm_calls = [], sm_next = 0\<rparr> "
  let ?S1 = "getStream_begin multicodec 0 p ?S0"
  let ?S2 = "?S1\<lparr>sm_connections := (sm_connections ?S1)(p := [?cn [?st]]), sm_next := sm_next ?S1 + 1,
      sm_calls := jm_set 0 (Created p (sm_next ?S1)) (sm_calls ?S1)\<rparr>"
  let ?S3 = "getStream_begin multicodec 1 p ?S2"
  let ?S4 = "(lockStream 0 ?S3)\<lparr>sm_calls := jm_set 0 (Returned p 0) (sm_calls ?S3)\<rparr>"
  have "smInit ?S0" by (simp add: smInit_def streamIds_def)
  then have r0: "reach smInit (smStep multicodec) ?S0" by (rule reach_init)
  have s1: "jm_get (sm_calls ?S1) 0 = Some (Creating p)" "sm_next ?S1 = 0" "sm_pool ?S1 = []" "sm_locked ?S1 = []"
    "jm_get (sm_calls ?S1) (Suc 0) = None"
    by (simp_all add: getStream_begin_def takeStream_def getOpenStreamForCodec_def selectOpenConnection_def)
  have r1: "reach smInit (smStep multicodec) ?S1"
    by (rule reach_step [OF r0]) (rule smStep.begin_call, simp)
  have r2: "reach smInit (smStep multicodec) ?S2"
    by (rule reach_step [OF r1]) (rule smStep.created, rule s1(1), auto simp: streamIds_def s1(2))
  have open2: "getOpenStreamForCodec multicodec (sm_connections ?S2 p) (sm_locked ?S2) = Some 0"
    by (simp add: getOpenStreamForCodec_def selectOpenConnection_def isStreamLocked_def s1(4))
  have s3: "?S3 = (lockStream 0 ?S2)\<lparr>sm_calls := jm_set 1 (Returned p 0) (sm_calls ?S2)\<rparr>"
    using open2 s1(3) unfolding getStream_begin_def takeStream_def by (simp add: lockStream_def)
  have r3: "reach smInit (smStep multicodec) ?S3"
    by (rule reach_step [OF r2]) (rule smStep.begin_call, simp add: s1(5))
  have c3: "jm_get (sm_calls ?S3) 0 = Some (Created p 0)" "jm_get (sm_calls ?S3) 1 = Some (Returned p 0)"
    unfolding s3 by (simp_all add: s1(2))
  have r4: "reach smInit (smStep multicodec) ?S4"
    by (rule reach_step [OF r3]) (rule smStep.return_created, rule c3(1))
  have "jm_get (sm_calls ?S4) 0 = Some (Returned p 0)" "jm_get (sm_calls ?S4) 1 = Some (Returned p 0)"
    using c3(2) by simp_all
  with r4 show ?thesis by blast
qed

end
