(* ===== verification/CoreProtocol.thy ===== *)
theory CoreProtocol
  imports Message UtilsCommon
begin

text \<open>
  \<open>packages/interfaces/src/protocols.ts\<close> and \<open>packages/core/src/lib/light_push\<close>: the results of the
  request/response protocols, and the light push client.  What libp2p does for a request is an
  argument: \<open>getStream p\<close> obtains a stream or rejects, \<open>exchange p bs\<close> sends the bytes on it and
  collects the chunks of the answer.  The generated protobuf code and the uuid of a request are
  arguments as well.
\<close>

section \<open>Results\<close>

datatype protocolError =
    GENERIC_FAIL | ENCODE_FAILED | DECODE_FAILED | EMPTY_PAYLOAD | SIZE_TOO_BIG | TOPIC_NOT_CONFIGURED
  | TOPIC_DECODER_MISMATCH | INVALID_DECODER_TOPICS | NO_PEER_AVAILABLE | NO_STREAM_AVAILABLE
  | NO_RESPONSE | REMOTE_PEER_REJECTED | REQUEST_TIMEOUT | RLN_IDENTITY_MISSING | RLN_MEMBERSHIP_INDEX
  | RLN_LIMIT_MISSING | RLN_PROOF_GENERATION

fun protocolErrorStr :: "protocolError \<Rightarrow> string" where
  "protocolErrorStr GENERIC_FAIL = ''Generic error''"
| "protocolErrorStr ENCODE_FAILED = ''Failed to encode''"
| "protocolErrorStr DECODE_FAILED = ''Failed to decode''"
| "protocolErrorStr EMPTY_PAYLOAD = ''Payload is empty''"
| "protocolErrorStr SIZE_TOO_BIG = ''Size is too big''"
| "protocolErrorStr TOPIC_NOT_CONFIGURED = ''Topic not configured''"
| "protocolErrorStr TOPIC_DECODER_MISMATCH = ''Topic decoder mismatch''"
| "protocolErrorStr INVALID_DECODER_TOPICS = ''Invalid decoder topics''"
| "protocolErrorStr NO_PEER_AVAILABLE = ''No peer available''"
| "protocolErrorStr NO_STREAM_AVAILABLE = ''No stream available''"
| "protocolErrorStr NO_RESPONSE = ''No response received''"
| "protocolErrorStr REMOTE_PEER_REJECTED = ''Remote peer rejected''"
| "protocolErrorStr REQUEST_TIMEOUT = ''Request timeout''"
| "protocolErrorStr RLN_IDENTITY_MISSING = ''Identity credentials are not set''"
| "protocolErrorStr RLN_MEMBERSHIP_INDEX = ''Membership index is not set''"
| "protocolErrorStr RLN_LIMIT_MISSING = ''User message limit is not set''"
| "protocolErrorStr RLN_PROOF_GENERATION = ''Proof generation failed''"

record 'p failure =
  fl_error :: protocolError
  fl_peerId :: "'p option"

datatype 'p coreResult = CSuccess 'p | CFailure "'p failure"

record 'p sdkResult =
  sdk_successes :: "'p list"
  sdk_failures :: "'p failure list"

definition failWith :: "protocolError \<Rightarrow> 'p \<Rightarrow> 'p coreResult" where
  "failWith e p = CFailure \<lparr>fl_error = e, fl_peerId = Some p\<rparr>"

text \<open>The loop over the settled promises; a rejected one is a failure without a peer.\<close>

fun settleStep :: "'p coreResult res \<Rightarrow> 'p sdkResult \<Rightarrow> 'p sdkResult" where
  "settleStep (Inl e) r = r\<lparr>sdk_failures := sdk_failures r @ [\<lparr>fl_error = GENERIC_FAIL, fl_peerId = None\<rparr>]\<rparr>"
| "settleStep (Inr (CSuccess p)) r = r\<lparr>sdk_successes := sdk_successes r @ [p]\<rparr>"
| "settleStep (Inr (CFailure f)) r = r\<lparr>sdk_failures := sdk_failures r @ [f]\<rparr>"

definition settle :: "'p coreResult res list \<Rightarrow> 'p sdkResult" where
  "settle results = fold settleStep results \<lparr>sdk_successes = [], sdk_failures = []\<rparr>"

section \<open>light_push/utils.ts\<close>

definition RLN_GENERATION_PREFIX_ERROR :: string where
  "RLN_GENERATION_PREFIX_ERROR = ''could not generate rln-v2 proof''"

definition isRLNResponseError :: "string option \<Rightarrow> bool" where
  "isRLNResponseError info =
     (case info of None \<Rightarrow> False
      | Some i \<Rightarrow> if i = [] then False else js_includes RLN_GENERATION_PREFIX_ERROR i)"

definition matchRLNErrorMessage :: "string \<Rightarrow> protocolError" where
  "matchRLNErrorMessage info =
     (let infoLowerCase = toLowerCase info
      in case find (\<lambda>e. js_includes (toLowerCase (protocolErrorStr e)) infoLowerCase)
                [RLN_IDENTITY_MISSING, RLN_MEMBERSHIP_INDEX, RLN_LIMIT_MISSING] of
           Some e \<Rightarrow> e
         | None \<Rightarrow> RLN_PROOF_GENERATION)"

section \<open>light_push/push_rpc.ts\<close>

record pushResponse =
  pr_isSuccess :: bool
  pr_info :: "string option"

record pushRpc =
  rpc_requestId :: string
  rpc_request :: "(protoMessage \<times> string) option"
  rpc_response :: "pushResponse option"

definition pushRpc_createRequest :: "string \<Rightarrow> protoMessage \<Rightarrow> string \<Rightarrow> pushRpc" where
  "pushRpc_createRequest uuid message pubsubTopic =
     \<lparr>rpc_requestId = uuid, rpc_request = Some (message, pubsubTopic), rpc_response = None\<rparr>"

section \<open>light_push/light_push.ts\<close>

text \<open>The interface \<open>IEncoder\<close>: an encoder may refuse a message (\<open>undefined\<close>) or throw.\<close>

record iencoder =
  ie_pubsubTopic :: string
  ie_contentTopic :: string
  ie_toWire :: "message \<Rightarrow> bytes option res"
  ie_toProtoObj :: "message \<Rightarrow> protoMessage option res"

definition preparePushMessage :: "string \<Rightarrow> iencoder \<Rightarrow> message \<Rightarrow> protocolError + pushRpc" where
  "preparePushMessage uuid encoder message =
     (if msg_payload message = [] then Inl EMPTY_PAYLOAD
      else case isMessageSizeUnderCap (ie_toWire encoder) message of
             Inl _ \<Rightarrow> Inl GENERIC_FAIL
           | Inr False \<Rightarrow> Inl SIZE_TOO_BIG
           | Inr True \<Rightarrow>
               (case ie_toProtoObj encoder message of
                  Inl _ \<Rightarrow> Inl GENERIC_FAIL
                | Inr None \<Rightarrow> Inl ENCODE_FAILED
                | Inr (Some protoMessage) \<Rightarrow>
                    Inr (pushRpc_createRequest uuid protoMessage (ie_pubsubTopic encoder))))"

record 'p pushNet =
  pn_getStream :: "'p \<Rightarrow> unit res"
  pn_exchange :: "'p \<Rightarrow> bytes \<Rightarrow> bytes list res"
  pn_encode :: "pushRpc \<Rightarrow> bytes"
  pn_decode :: "bytes \<Rightarrow> pushRpc res"
  pn_uuid :: string

definition lightPush_send :: "'p pushNet \<Rightarrow> iencoder \<Rightarrow> message \<Rightarrow> 'p \<Rightarrow> 'p coreResult" where
  "lightPush_send N encoder message peerId =
     (case preparePushMessage (pn_uuid N) encoder message of
        Inl e \<Rightarrow> failWith e peerId
      | Inr query \<Rightarrow>
          (case pn_getStream N peerId of
             Inl _ \<Rightarrow> failWith NO_STREAM_AVAILABLE peerId
           | Inr _ \<Rightarrow>
               (case pn_exchange N peerId (pn_encode N query) of
                  Inl _ \<Rightarrow> failWith GENERIC_FAIL peerId
                | Inr chunks \<Rightarrow>
                    (case pn_decode N (concat chunks) of
                       Inl _ \<Rightarrow> failWith DECODE_FAILED peerId
                     | Inr rpc \<Rightarrow>
                         (case rpc_response rpc of
                            None \<Rightarrow> failWith NO_RESPONSE peerId
                          | Some response \<Rightarrow>
                              if isRLNResponseError (pr_info response)
                              then failWith (matchRLNErrorMessage (the (pr_info response))) peerId
                              else if \<not> pr_isSuccess response then failWith REMOTE_PEER_REJECTED peerId
                              else CSuccess peerId)))))"

section \<open>The interface of a core protocol\<close>

text \<open>
  What the SDK relies on: an operation asked of a peer answers about that peer, or rejects.
\<close>

locale core_operation =
  fixes oper :: "'p \<Rightarrow> 'p coreResult res"
  assumes about_peer: "oper p = Inr r \<Longrightarrow> r = CSuccess p \<or> (\<exists>e. r = failWith e p)"
begin

definition succeeds :: "'p \<Rightarrow> bool" where
  "succeeds p = (oper p = Inr (CSuccess p))"

definition failureOf :: "'p \<Rightarrow> 'p failure" where
  "failureOf p =
     (case oper p of Inr (CFailure f) \<Rightarrow> f | _ \<Rightarrow> \<lparr>fl_error = GENERIC_FAIL, fl_peerId = None\<rparr>)"

lemma settle_step:
  "settleStep (oper p) r =
     (if succeeds p then r\<lparr>sdk_successes := sdk_successes r @ [p]\<rparr>
      else r\<lparr>sdk_failures := sdk_failures r @ [failureOf p]\<rparr>)"
proof (cases "oper p")
  case (Inl e)
  then show ?thesis by (simp add: succeeds_def failureOf_def)
next
  case (Inr r')
  then show ?thesis using about_peer [OF Inr] by (auto simp: succeeds_def failureOf_def failWith_def)
qed

lemma settle_peers:
  "settle (map oper ps) =
     \<lparr>sdk_successes = filter succeeds ps, sdk_failures = map failureOf (filter (\<lambda>p. \<not> succeeds p) ps)\<rparr>"
  unfolding settle_def
proof (induction ps rule: rev_induct)
  case Nil
  then show ?case by simp
next
  case (snoc p ps)
  then show ?case by (simp add: settle_step)
qed

lemma settle_complete:
  "length (sdk_successes (settle (map oper ps))) + length (sdk_failures (settle (map oper ps))) = length ps"
  by (simp add: settle_peers sum_length_filter_compl)

lemma failure_peer: "f \<in> set (sdk_failures (settle (map oper ps))) \<Longrightarrow> fl_peerId f = Some p \<Longrightarrow> p \<in> set ps \<and> \<not> succeeds p"
proof -
  assume "f \<in> set (sdk_failures (settle (map oper ps)))" "fl_peerId f = Some p"
  then obtain q where q: "q \<in> set ps" "\<not> succeeds q" "f = failureOf q" by (auto simp: settle_peers)
  moreover have "fl_peerId (failureOf q) \<in> {None, Some q}"
  proof (cases "oper q")
    case (Inl e)
    then show ?thesis by (simp add: failureOf_def)
  next
    case (Inr r)
    then show ?thesis using about_peer [OF Inr] by (auto simp: failureOf_def failWith_def)
  qed
  ultimately show ?thesis using \<open>fl_peerId f = Some p\<close> by auto
qed

end

lemma lightPush_send_about:
  "lightPush_send N encoder message p = CSuccess p \<or> (\<exists>e. lightPush_send N encoder message p = failWith e p)"
  by (auto simp: lightPush_send_def Let_def split: sum.split option.split)

interpretation push: core_operation "\<lambda>p. Inr (lightPush_send N encoder message p)" for N encoder message
  by unfold_locales (metis lightPush_send_about sum.inject(2))

section \<open>Properties\<close>

text \<open>A light push succeeds exactly when every stage does: the payload is not empty, its wire form
  is at most one megabyte, the encoder accepts the message, a stream is open, the answer arrives,
  decodes and holds a response that reports success and no RLN error. Otherwise the result is a
  failure that names the peer that was asked.\<close>

theorem lightPush_send_success:
  "(lightPush_send N encoder message p = CSuccess p \<longleftrightarrow>
     (\<exists>wire protoMsg u chunks rpc response.
        msg_payload message \<noteq> [] \<and> ie_toWire encoder message = Inr (Some wire) \<and> length wire \<le> 1048576 \<and>
        ie_toProtoObj encoder message = Inr (Some protoMsg) \<and> pn_getStream N p = Inr u \<and>
        pn_exchange N p (pn_encode N (pushRpc_createRequest (pn_uuid N) protoMsg (ie_pubsubTopic encoder))) = Inr chunks \<and>
        pn_decode N (concat chunks) = Inr rpc \<and> rpc_response rpc = Some response \<and>
        \<not> isRLNResponseError (pr_info response) \<and> pr_isSuccess response)) \<and>
   (lightPush_send N encoder message p = CSuccess p \<or>
     (\<exists>e. lightPush_send N encoder message p = CFailure \<lparr>fl_error = e, fl_peerId = Some p\<rparr>))"
proof
  have prep: "preparePushMessage u encoder message = Inr q \<longleftrightarrow>
      msg_payload message \<noteq> [] \<and>
      (\<exists>wire. ie_toWire encoder message = Inr (Some wire) \<and> length wire \<le> 1048576) \<and>
      (\<exists>protoMsg. ie_toProtoObj encoder message = Inr (Some protoMsg) \<and>
         q = pushRpc_createRequest u protoMsg (ie_pubsubTopic encoder))" for u q
    by (auto simp: preparePushMessage_def isMessageSizeUnderCap_def isWireSizeUnderCap_def SIZE_CAP_IN_MB_def
        MB_def rbind_def split: sum.splits option.splits bool.splits)
  have send: "lightPush_send N encoder message p = CSuccess p \<longleftrightarrow>
      (\<exists>q u chunks rpc response. preparePushMessage (pn_uuid N) encoder message = Inr q \<and> pn_getStream N p = Inr u \<and>
         pn_exchange N p (pn_encode N q) = Inr chunks \<and> pn_decode N (concat chunks) = Inr rpc \<and>
         rpc_response rpc = Some response \<and> \<not> isRLNResponseError (pr_info response) \<and> pr_isSuccess response)"
    by (auto simp: lightPush_send_def failWith_def split: sum.splits option.splits)
  show "lightPush_send N encoder message p = CSuccess p \<longleftrightarrow>
     (\<exists>wire protoMsg u chunks rpc response.
        msg_payload message \<noteq> [] \<and> ie_toWire encoder message = Inr (Some wire) \<and> length wire \<le> 1048576 \<and>
        ie_toProtoObj encoder message = Inr (Some protoMsg) \<and> pn_getStream N p = Inr u \<and>
        pn_exchange N p (pn_encode N (pushRpc_createRequest (pn_uuid N) protoMsg (ie_pubsubTopic encoder))) = Inr chunks \<and>
        pn_decode N (concat chunks) = Inr rpc \<and> rpc_response rpc = Some response \<and>
        \<not> isRLNResponseError (pr_info response) \<and> pr_isSuccess response)"
    unfolding send prep by blast
  show "lightPush_send N encoder message p = CSuccess p \<or>
     (\<exists>e. lightPush_send N encoder message p = CFailure \<lparr>fl_error = e, fl_peerId = Some p\<rparr>)"
    using lightPush_send_about [of N encoder message p] by (auto simp: failWith_def)
qed

text \<open>An RLN refusal is named by its text, whatever its case: the three specific errors are
  recognised in this order of precedence, and any other text is a failed proof generation.\<close>

theorem matchRLNErrorMessage_cases:
  "matchRLNErrorMessage info =
     (let has = (\<lambda>e. \<exists>u v. toLowerCase info = u @ toLowerCase (protocolErrorStr e) @ v)
      in if has RLN_IDENTITY_MISSING then RLN_IDENTITY_MISSING
         else if has RLN_MEMBERSHIP_INDEX then RLN_MEMBERSHIP_INDEX
         else if has RLN_LIMIT_MISSING then RLN_LIMIT_MISSING
         else RLN_PROOF_GENERATION)"
  unfolding matchRLNErrorMessage_def Let_def js_includes_iff
  by (simp only: find.simps split: if_split) simp

theorem matchRLNErrorMessage_cases_witness:
  "matchRLNErrorMessage ''x: MEMBERSHIP index is not SET!'' = RLN_MEMBERSHIP_INDEX"
proof -
  have "js_includes (toLowerCase (protocolErrorStr RLN_MEMBERSHIP_INDEX)) (toLowerCase ''x: MEMBERSHIP index is not SET!'')"
    "\<not> js_includes (toLowerCase (protocolErrorStr RLN_IDENTITY_MISSING)) (toLowerCase ''x: MEMBERSHIP index is not SET!'')"
    by code_simp+
  then show ?thesis
    unfolding js_includes_iff by (subst matchRLNErrorMessage_cases) (simp only: Let_def if_True if_False)
qed

end
