(* ===== verification/CoreFilter.thy ===== *)
theory CoreFilter
  imports CoreProtocol
begin

text \<open>
  \<open>packages/core/src/lib/filter\<close>: the requests of the filter client and the handler of pushed
  messages.  libp2p and the protobuf code are the arguments described in \<open>CoreProtocol\<close>.
\<close>

section \<open>filter_rpc.ts\<close>

datatype filterSubscribeType = SUBSCRIBER_PING | SUBSCRIBE | UNSUBSCRIBE | UNSUBSCRIBE_ALL

record filterRequest =
  fr_requestId :: string
  fr_type :: filterSubscribeType
  fr_pubsubTopic :: "string option"
  fr_contentTopics :: "string list"

record filterResponse =
  fs_requestId :: string
  fs_statusCode :: int
  fs_statusDesc :: "string option"

record messagePush =
  mp_wakuMessage :: "wireMessage option"
  mp_pubsubTopic :: "string option"

definition createSubscribeRequest :: "string \<Rightarrow> string \<Rightarrow> string list \<Rightarrow> filterRequest" where
  "createSubscribeRequest uuid pubsubTopic contentTopics =
     \<lparr>fr_requestId = uuid, fr_type = SUBSCRIBE, fr_pubsubTopic = Some pubsubTopic, fr_contentTopics = contentTopics\<rparr>"

definition createUnsubscribeRequest :: "string \<Rightarrow> string \<Rightarrow> string list \<Rightarrow> filterRequest" where
  "createUnsubscribeRequest uuid pubsubTopic contentTopics =
     \<lparr>fr_requestId = uuid, fr_type = UNSUBSCRIBE, fr_pubsubTopic = Some pubsubTopic, fr_contentTopics = contentTopics\<rparr>"

definition createUnsubscribeAllRequest :: "string \<Rightarrow> string \<Rightarrow> filterRequest" where
  "createUnsubscribeAllRequest uuid pubsubTopic =
     \<lparr>fr_requestId = uuid, fr_type = UNSUBSCRIBE_ALL, fr_pubsubTopic = Some pubsubTopic, fr_contentTopics = []\<rparr>"

definition createSubscriberPingRequest :: "string \<Rightarrow> filterRequest" where
  "createSubscriberPingRequest uuid =
     \<lparr>fr_requestId = uuid, fr_type = SUBSCRIBER_PING, fr_pubsubTopic = Some [], fr_contentTopics = []\<rparr>"

section \<open>filter.ts: requests\<close>

record 'p filterNet =
  fn_getStream :: "'p \<Rightarrow> unit res"
  fn_exchange :: "'p \<Rightarrow> bytes \<Rightarrow> bytes list res"
  fn_send :: "'p \<Rightarrow> bytes \<Rightarrow> unit res"
  fn_encode :: "filterRequest \<Rightarrow> bytes"
  fn_decodeResponse :: "bytes \<Rightarrow> filterResponse res"
  fn_decodePush :: "bytes \<Rightarrow> messagePush res"
  fn_uuid :: string

text \<open>The tail every answered request shares: decode the first chunk and look at the status code.\<close>

definition statusResult :: "'p filterNet \<Rightarrow> 'p \<Rightarrow> bytes \<Rightarrow> 'p coreResult res" where
  "statusResult N peerId chunk =
     rbind (fn_decodeResponse N chunk)
       (\<lambda>r. if fs_statusCode r < 200 \<or> fs_statusCode r \<ge> 300
             then Inr (failWith REMOTE_PEER_REJECTED peerId) else Inr (CSuccess peerId))"

text \<open>\<open>subscribe\<close> has no test for an empty answer: \<open>res[0].slice()\<close> throws a \<open>TypeError\<close> then.\<close>

definition filter_subscribe :: "'p filterNet \<Rightarrow> string \<Rightarrow> 'p \<Rightarrow> string list \<Rightarrow> 'p coreResult res" where
  "filter_subscribe N pubsubTopic peerId contentTopics =
     rbind (fn_getStream N peerId)
       (\<lambda>_. let request = createSubscribeRequest (fn_uuid N) pubsubTopic contentTopics
         in case fn_exchange N peerId (fn_encode N request) of
              Inl _ \<Rightarrow> Inr (failWith GENERIC_FAIL peerId)
            | Inr [] \<Rightarrow> Inl TypeError
            | Inr (c # _) \<Rightarrow> statusResult N peerId c)"

definition filter_unsubscribe :: "'p filterNet \<Rightarrow> string \<Rightarrow> 'p \<Rightarrow> string list \<Rightarrow> 'p coreResult res" where
  "filter_unsubscribe N pubsubTopic peerId contentTopics =
     (case fn_getStream N peerId of
        Inl _ \<Rightarrow> Inr (failWith NO_STREAM_AVAILABLE peerId)
      | Inr _ \<Rightarrow>
          (case fn_send N peerId (fn_encode N (createUnsubscribeRequest (fn_uuid N) pubsubTopic contentTopics)) of
             Inl _ \<Rightarrow> Inr (failWith GENERIC_FAIL peerId)
           | Inr _ \<Rightarrow> Inr (CSuccess peerId)))"

definition filter_unsubscribeAll :: "'p filterNet \<Rightarrow> string \<Rightarrow> 'p \<Rightarrow> 'p coreResult res" where
  "filter_unsubscribeAll N pubsubTopic peerId =
     rbind (fn_getStream N peerId)
       (\<lambda>_. rbind (fn_exchange N peerId (fn_encode N (createUnsubscribeAllRequest (fn_uuid N) pubsubTopic)))
         (\<lambda>chunks. case chunks of
            [] \<Rightarrow> Inr (failWith NO_RESPONSE peerId)
          | c # _ \<Rightarrow> statusResult N peerId c))"

definition filter_ping :: "'p filterNet \<Rightarrow> 'p \<Rightarrow> 'p coreResult res" where
  "filter_ping N peerId =
     (case fn_getStream N peerId of
        Inl _ \<Rightarrow> Inr (failWith NO_STREAM_AVAILABLE peerId)
      | Inr _ \<Rightarrow>
          (case fn_exchange N peerId (fn_encode N (createSubscriberPingRequest (fn_uuid N))) of
             Inl _ \<Rightarrow> Inr (failWith GENERIC_FAIL peerId)
           | Inr [] \<Rightarrow> Inr (failWith NO_RESPONSE peerId)
           | Inr (c # _) \<Rightarrow> statusResult N peerId c))"

section \<open>filter.ts: pushed messages\<close>

text \<open>
  The loop over the chunks of an incoming stream.  \<open>handle\<close> is \<open>handleIncomingMessage\<close> acting on the
  state of its owner; an exception, of the decoder or of the handler, ends the loop, and so does a
  push without a message or without a topic.
\<close>

fun filter_onRequest ::
  "'p filterNet \<Rightarrow> (string \<Rightarrow> wireMessage \<Rightarrow> string \<Rightarrow> 's \<Rightarrow> 's res) \<Rightarrow> string \<Rightarrow> bytes list \<Rightarrow> 's \<Rightarrow> 's" where
  "filter_onRequest N handle peerIdStr [] st = st"
| "filter_onRequest N handle peerIdStr (c # cs) st =
     (case fn_decodePush N c of
        Inl _ \<Rightarrow> st
      | Inr push \<Rightarrow>
          (case mp_wakuMessage push of
             None \<Rightarrow> st
           | Some wakuMessage \<Rightarrow>
               (case mp_pubsubTopic push of
                  None \<Rightarrow> st
                | Some topic \<Rightarrow>
                    if topic = [] then st
                    else (case handle topic wakuMessage peerIdStr st of
                            Inl _ \<Rightarrow> st
                          | Inr st' \<Rightarrow> filter_onRequest N handle peerIdStr cs st'))))"

section \<open>Lemmas\<close>

lemma statusResult_about: "statusResult N p c = Inr r \<Longrightarrow> r = CSuccess p \<or> (\<exists>e. r = failWith e p)"
  by (auto simp: statusResult_def rbind_eq_Inr split: if_splits)

lemma statusResult_success:
  "statusResult N p c = Inr (CSuccess p) \<longleftrightarrow>
     (\<exists>r. fn_decodeResponse N c = Inr r \<and> 200 \<le> fs_statusCode r \<and> fs_statusCode r < 300)"
  by (cases "fn_decodeResponse N c") (auto simp: statusResult_def failWith_def)

interpretation subscribeOp: core_operation "\<lambda>p. filter_subscribe N pubsubTopic p contentTopics"
  for N pubsubTopic contentTopics
proof
  fix p r
  assume "filter_subscribe N pubsubTopic p contentTopics = Inr r"
  then show "r = CSuccess p \<or> (\<exists>e. r = failWith e p)"
    by (auto simp: filter_subscribe_def rbind_def Let_def dest!: statusResult_about split: sum.splits list.splits)
qed

interpretation unsubscribeOp: core_operation "\<lambda>p. filter_unsubscribe N pubsubTopic p contentTopics"
  for N pubsubTopic contentTopics
  by unfold_locales (auto simp: filter_unsubscribe_def split: sum.splits)

interpretation unsubscribeAllOp: core_operation "\<lambda>p. filter_unsubscribeAll N pubsubTopic p" for N pubsubTopic
proof
  fix p r
  assume "filter_unsubscribeAll N pubsubTopic p = Inr r"
  then show "r = CSuccess p \<or> (\<exists>e. r = failWith e p)"
    by (auto simp: filter_unsubscribeAll_def rbind_def dest!: statusResult_about split: sum.splits list.splits)
qed

interpretation pingOp: core_operation "\<lambda>p. filter_ping N p" for N
proof
  fix p r
  assume "filter_ping N p = Inr r"
  then show "r = CSuccess p \<or> (\<exists>e. r = failWith e p)"
    by (auto simp: filter_ping_def dest!: statusResult_about split: sum.splits list.splits)
qed

text \<open>The pushes of a stream that are handled: those before the first that is not a whole push.\<close>

definition pushOf :: "'p filterNet \<Rightarrow> bytes \<Rightarrow> (string \<times> wireMessage) option" where
  "pushOf N c =
     (case fn_decodePush N c of
        Inl _ \<Rightarrow> None
      | Inr push \<Rightarrow>
          (case (mp_pubsubTopic push, mp_wakuMessage push) of
             (Some t, Some m) \<Rightarrow> if t = [] then None else Some (t, m)
           | _ \<Rightarrow> None))"

section \<open>Properties\<close>

text \<open>The four filter requests succeed exactly when the stream is there and the peer confirms: a
  status code from 200 to 299 in the first chunk of the answer, or for \<open>unsubscribe\<close>, which awaits no
  answer, that the request was sent. An empty answer is \<open>NO_RESPONSE\<close> for \<open>ping\<close> and
  \<open>unsubscribeAll\<close>, but an exception for \<open>subscribe\<close>.\<close>

theorem filter_requests_outcome:
  "(filter_subscribe N topic p cts = Inr (CSuccess p) \<longleftrightarrow>
     (\<exists>u c cs r. fn_getStream N p = Inr u \<and>
        fn_exchange N p (fn_encode N (createSubscribeRequest (fn_uuid N) topic cts)) = Inr (c # cs) \<and>
        fn_decodeResponse N c = Inr r \<and> 200 \<le> fs_statusCode r \<and> fs_statusCode r < 300)) \<and>
   (filter_ping N p = Inr (CSuccess p) \<longleftrightarrow>
     (\<exists>u c cs r. fn_getStream N p = Inr u \<and>
        fn_exchange N p (fn_encode N (createSubscriberPingRequest (fn_uuid N))) = Inr (c # cs) \<and>
        fn_decodeResponse N c = Inr r \<and> 200 \<le> fs_statusCode r \<and> fs_statusCode r < 300)) \<and>
   (filter_unsubscribeAll N topic p = Inr (CSuccess p) \<longleftrightarrow>
     (\<exists>u c cs r. fn_getStream N p = Inr u \<and>
        fn_exchange N p (fn_encode N (createUnsubscribeAllRequest (fn_uuid N) topic)) = Inr (c # cs) \<and>
        fn_decodeResponse N c = Inr r \<and> 200 \<le> fs_statusCode r \<and> fs_statusCode r < 300)) \<and>
   (filter_unsubscribe N topic p cts = Inr (CSuccess p) \<longleftrightarrow>
     (\<exists>u v. fn_getStream N p = Inr u \<and>
        fn_send N p (fn_encode N (createUnsubscribeRequest (fn_uuid N) topic cts)) = Inr v))"
  by (intro conjI)
     (auto simp: filter_subscribe_def filter_ping_def filter_unsubscribeAll_def filter_unsubscribe_def rbind_def
        Let_def statusResult_success failWith_def split: sum.splits list.splits)

text \<open>Pushed messages are handled in their order and up to the first chunk that is not a whole push
  (undecodable, without a message or without a topic), which ends the handling of the stream.\<close>

theorem filter_onRequest_handles:
  assumes "\<And>t m p s. \<exists>s'. handle t m p s = Inr s'"
  shows "filter_onRequest N handle p cs st =
    fold (\<lambda>(t, m) s. projr (handle t m p s)) (map (the \<circ> pushOf N) (takeWhile (\<lambda>c. pushOf N c \<noteq> None) cs)) st"
proof (induction cs arbitrary: st)
  case Nil
  then show ?case by simp
next
  case (Cons c cs)
  show ?case
  proof (cases "pushOf N c")
    case None
    then show ?thesis by (auto simp: pushOf_def split: sum.splits option.splits if_splits)
  next
    case (Some tm)
    obtain t m where tm: "tm = (t, m)" by (cases tm)
    obtain s' where s': "handle t m p st = Inr s'" using assms by blast
    have "filter_onRequest N handle p (c # cs) st = filter_onRequest N handle p cs s'"
      using Some s' by (auto simp: pushOf_def tm split: sum.splits option.splits if_splits)
    then show ?thesis using Cons.IH [of s'] Some s' by (simp add: tm)
  qed
qed

definition demoFilterNet :: "string filterNet" where
  "demoFilterNet =
     \<lparr>fn_getStream = (\<lambda>_. Inr ()), fn_exchange = (\<lambda>_ b. Inr [b]), fn_send = (\<lambda>_ _. Inr ()),
      fn_encode = (\<lambda>_. [200]), fn_decodeResponse = (\<lambda>b. Inr \<lparr>fs_requestId = ''r'', fs_statusCode = val_be b, fs_statusDesc = None\<rparr>),
      fn_decodePush = (\<lambda>b. Inr \<lparr>mp_wakuMessage = Some \<lparr>wire_payload = b, wire_contentTopic = ''/a/1/b/c'',
          wire_version = Absent, wire_timestamp = Absent, wire_meta = Absent, wire_rateLimitProof = Absent,
          wire_ephemeral = Absent\<rparr>, mp_pubsubTopic = (if b = [0] then None else Some ''t'')\<rparr>),
      fn_uuid = ''u''\<rparr>"

theorem filter_onRequest_handles_witness:
  "filter_onRequest demoFilterNet (\<lambda>t m p s. Inr (s @ [wire_payload m])) ''p'' [[1], [2], [0], [3]] [] = [[1], [2]]"
  by (subst filter_onRequest_handles) (simp_all add: pushOf_def demoFilterNet_def)

end
