(* ===== verification/CoreStore.thy ===== *)
theory CoreStore
  imports CoreProtocol
begin

text \<open>
  \<open>packages/core/src/lib/store\<close>: the query of a store node and its pagination.  \<open>queryPerPage\<close> is
  a generator: \<open>queryPages n\<close> is what its consumer has after \<open>n\<close> turns of the loop, the pages
  yielded and how the generator stands.
\<close>

section \<open>rpc.ts\<close>

definition DEFAULT_PAGE_SIZE :: int where "DEFAULT_PAGE_SIZE = 20"
definition MAX_PAGE_SIZE :: int where "MAX_PAGE_SIZE = 100"
definition ONE_MILLION :: int where "ONE_MILLION = 1000000"

record queryRequestParams =
  qp_includeData :: bool
  qp_pubsubTopic :: "string option"
  qp_contentTopics :: "string list option"
  qp_timeStart :: "date option"
  qp_timeEnd :: "date option"
  qp_messageHashes :: "bytes list option"
  qp_paginationCursor :: "bytes option"
  qp_paginationForward :: bool
  qp_paginationLimit :: "int option"

record storeQueryRequest =
  sq_requestId :: string
  sq_includeData :: bool
  sq_pubsubTopic :: "string option"
  sq_contentTopics :: "string list option"
  sq_timeStart :: "int option"
  sq_timeEnd :: "int option"
  sq_messageHashes :: "bytes list"
  sq_paginationCursor :: "bytes option"
  sq_paginationForward :: bool
  sq_paginationLimit :: "int option"

record wakuMessageKeyValue =
  kv_messageHash :: "bytes option"
  kv_message :: "wireMessage option"
  kv_pubsubTopic :: "string option"

record storeQueryResponse =
  sr_statusCode :: "int option"
  sr_statusDesc :: "string option"
  sr_messages :: "wakuMessageKeyValue list"

definition truthyStr :: "string option \<Rightarrow> bool" where
  "truthyStr s = (case s of None \<Rightarrow> False | Some x \<Rightarrow> x \<noteq> [])"

definition truthyNum :: "int option \<Rightarrow> bool" where
  "truthyNum n = (case n of None \<Rightarrow> False | Some x \<Rightarrow> x \<noteq> 0)"

text \<open>\<open>BigInt(date.getTime() * ONE_MILLION)\<close>: the product is a double, \<open>NaN\<close> for an invalid date.\<close>

definition storeTime :: "date option \<Rightarrow> int option res" where
  "storeTime d =
     (case d of None \<Rightarrow> Inr None
      | Some None \<Rightarrow> Inl RangeError
      | Some (Some t) \<Rightarrow> Inr (Some (to_double (t * ONE_MILLION))))"

definition storeQuery_create :: "string \<Rightarrow> queryRequestParams \<Rightarrow> storeQueryRequest res" where
  "storeQuery_create uuid params =
     rbind (storeTime (qp_timeStart params))
       (\<lambda>timeStart. rbind (storeTime (qp_timeEnd params))
         (\<lambda>timeEnd.
            let request = \<lparr>sq_requestId = uuid, sq_includeData = qp_includeData params,
                  sq_pubsubTopic = qp_pubsubTopic params, sq_contentTopics = qp_contentTopics params,
                  sq_timeStart = timeStart, sq_timeEnd = timeEnd,
                  sq_messageHashes = nullish (qp_messageHashes params) [],
                  sq_paginationCursor = qp_paginationCursor params,
                  sq_paginationForward = qp_paginationForward params,
                  sq_paginationLimit = (if truthyNum (qp_paginationLimit params)
                                        then qp_paginationLimit params else None)\<rparr>
            in if (truthyStr (qp_pubsubTopic params) \<and> qp_contentTopics params = None) \<or>
                  (\<not> truthyStr (qp_pubsubTopic params) \<and> qp_contentTopics params \<noteq> None)
               then Inl (Error ''Both pubsubTopic and contentTopics must be set or unset'')
               else if qp_messageHashes params \<noteq> None \<and>
                  (truthyStr (qp_pubsubTopic params) \<or> qp_contentTopics params \<noteq> None \<or>
                   qp_timeStart params \<noteq> None \<or> qp_timeEnd params \<noteq> None)
               then Inl (Error ''Message hash lookup queries cannot include content filter criteria'')
               else Inr request))"

section \<open>store.ts\<close>

record 'p storeNet =
  sn_getStream :: "'p \<Rightarrow> unit res"
  sn_exchange :: "'p \<Rightarrow> bytes \<Rightarrow> bytes list res"
  sn_encode :: "storeQueryRequest \<Rightarrow> bytes"
  sn_decode :: "bytes \<Rightarrow> storeQueryResponse res"
  sn_uuid :: string

text \<open>The decoders by content topic; each is the \<open>fromProtoObj\<close> of its decoder.\<close>

type_synonym 't decoders = "(string, string \<Rightarrow> protoMessage \<Rightarrow> 't option res) jsmap"

definition decodeStored :: "'t decoders \<Rightarrow> wakuMessageKeyValue \<Rightarrow> 't option res" where
  "decodeStored decs protoMsg =
     (case kv_message protoMsg of
        None \<Rightarrow> Inr None
      | Some m \<Rightarrow>
          if wire_contentTopic m = [] then Inr None
          else (case jm_get decs (wire_contentTopic m) of
                  None \<Rightarrow> Inr None
                | Some decode \<Rightarrow> decode (nullish (kv_pubsubTopic protoMsg) []) (toProtoMessage m)))"

datatype 't pageTurn = PageBreak | PageThrow exn | Page "'t option res list" "bytes option" bool

definition queryTurn ::
  "'p storeNet \<Rightarrow> queryRequestParams \<Rightarrow> 't decoders \<Rightarrow> 'p \<Rightarrow> bytes option \<Rightarrow> 't pageTurn" where
  "queryTurn N queryOpts decs peerId currentCursor =
     (case storeQuery_create (sn_uuid N) (queryOpts\<lparr>qp_paginationCursor := currentCursor\<rparr>) of
        Inl e \<Rightarrow> PageThrow e
      | Inr request \<Rightarrow>
          (case sn_getStream N peerId of
             Inl _ \<Rightarrow> PageBreak
           | Inr _ \<Rightarrow>
               (case sn_exchange N peerId (sn_encode N request) of
                  Inl e \<Rightarrow> PageThrow e
                | Inr chunks \<Rightarrow>
                    (case sn_decode N (concat chunks) of
                       Inl e \<Rightarrow> PageThrow e
                     | Inr response \<Rightarrow>
                         if \<not> truthyNum (sr_statusCode response) \<or> nullish (sr_statusCode response) 0 \<ge> 300
                         then PageThrow (Error ''Store query failed with status code'')
                         else if sr_messages response = [] then PageBreak
                         else
                           let messages = sr_messages response;
                               cursor = (if qp_paginationForward queryOpts then kv_messageHash (last messages)
                                         else kv_messageHash (hd messages));
                               n = int (length messages);
                               limit = (if truthyNum (qp_paginationLimit queryOpts)
                                        then nullish (qp_paginationLimit queryOpts) 0 else DEFAULT_PAGE_SIZE)
                           in Page (map (decodeStored decs) messages) cursor (n > MAX_PAGE_SIZE \<and> n < limit)))))"

datatype queryEnd = Finished | Threw exn | Running

fun queryPages ::
  "nat \<Rightarrow> 'p storeNet \<Rightarrow> queryRequestParams \<Rightarrow> 't decoders \<Rightarrow> 'p \<Rightarrow> bytes option \<Rightarrow> 't option res list list \<times> queryEnd" where
  "queryPages 0 N opts decs peerId cursor = ([], Running)"
| "queryPages (Suc n) N opts decs peerId cursor =
     (case queryTurn N opts decs peerId cursor of
        PageBreak \<Rightarrow> ([], Finished)
      | PageThrow e \<Rightarrow> ([], Threw e)
      | Page msgs cursor' stop \<Rightarrow>
          if stop then ([msgs], Finished)
          else (case queryPages n N opts decs peerId cursor' of (pages, r) \<Rightarrow> (msgs # pages, r)))"

definition queryPerPage ::
  "nat \<Rightarrow> 'p storeNet \<Rightarrow> queryRequestParams \<Rightarrow> 't decoders \<Rightarrow> 'p \<Rightarrow> 't option res list list \<times> queryEnd" where
  "queryPerPage n N queryOpts decs peerId =
     (case qp_contentTopics queryOpts of
        None \<Rightarrow> ([], Threw TypeError)
      | Some topics \<Rightarrow>
          if js_join '','' topics \<noteq> js_join '','' (jm_keys decs)
          then ([], Threw (Error ''Internal error, the decoders should match the query's content topics''))
          else queryPages n N queryOpts decs peerId (qp_paginationCursor queryOpts))"

section \<open>A store node\<close>

text \<open>
  What the protocol promises of a store that holds the messages \<open>ms\<close>: forward, the first \<open>k\<close> after
  the cursor; backward, the last \<open>k\<close> before it, both in the order of the store.
\<close>

definition afterCursor :: "bytes option \<Rightarrow> wakuMessageKeyValue list \<Rightarrow> wakuMessageKeyValue list" where
  "afterCursor c ms = (case c of None \<Rightarrow> ms | Some h \<Rightarrow> tl (dropWhile (\<lambda>m. kv_messageHash m \<noteq> Some h) ms))"

definition beforeCursor :: "bytes option \<Rightarrow> wakuMessageKeyValue list \<Rightarrow> wakuMessageKeyValue list" where
  "beforeCursor c ms = (case c of None \<Rightarrow> ms | Some h \<Rightarrow> takeWhile (\<lambda>m. kv_messageHash m \<noteq> Some h) ms)"

definition storePage :: "bool \<Rightarrow> nat \<Rightarrow> bytes option \<Rightarrow> wakuMessageKeyValue list \<Rightarrow> wakuMessageKeyValue list" where
  "storePage forward k c ms =
     (if forward then take k (afterCursor c ms)
      else drop (length (beforeCursor c ms) - k) (beforeCursor c ms))"

definition storeAnswers :: "'p storeNet \<Rightarrow> queryRequestParams \<Rightarrow> 'p \<Rightarrow> nat \<Rightarrow> wakuMessageKeyValue list \<Rightarrow> bool" where
  "storeAnswers N opts p k ms \<longleftrightarrow>
     (\<forall>c. c = None \<or> c \<in> kv_messageHash ` set ms \<longrightarrow> (\<exists>request chunks response.
        storeQuery_create (sn_uuid N) (opts\<lparr>qp_paginationCursor := c\<rparr>) = Inr request \<and>
        sn_getStream N p = Inr () \<and> sn_exchange N p (sn_encode N request) = Inr chunks \<and>
        sn_decode N (concat chunks) = Inr response \<and> sr_statusCode response = Some 200 \<and>
        sr_messages response = storePage (qp_paginationForward opts) k c ms))"

definition distinctHashes :: "wakuMessageKeyValue list \<Rightarrow> bool" where
  "distinctHashes ms \<longleftrightarrow> distinct (map kv_messageHash ms) \<and> None \<notin> kv_messageHash ` set ms"

section \<open>Lemmas\<close>

lemma queryTurn_store:
  assumes "storeAnswers N opts p k ms" and "k \<le> 100" and "c = None \<or> c \<in> kv_messageHash ` set ms"
  shows "queryTurn N opts decs p c =
    (let page = storePage (qp_paginationForward opts) k c ms
     in if page = [] then PageBreak
        else Page (map (decodeStored decs) page)
               (kv_messageHash (if qp_paginationForward opts then last page else hd page)) False)"
proof -
  obtain request chunks response where r:
      "storeQuery_create (sn_uuid N) (opts\<lparr>qp_paginationCursor := c\<rparr>) = Inr request"
      "sn_getStream N p = Inr ()" "sn_exchange N p (sn_encode N request) = Inr chunks"
      "sn_decode N (concat chunks) = Inr response" "sr_statusCode response = Some 200"
      "sr_messages response = storePage (qp_paginationForward opts) k c ms"
    using assms(1) [unfolded storeAnswers_def, rule_format, OF assms(3)] by blast
  have "length (storePage (qp_paginationForward opts) k c ms) \<le> k"
    by (auto simp: storePage_def)
  then have "\<not> int (length (storePage (qp_paginationForward opts) k c ms)) > MAX_PAGE_SIZE"
    using assms(2) by (simp add: MAX_PAGE_SIZE_def)
  then show ?thesis
    using r by (simp add: queryTurn_def truthyNum_def Let_def)
qed

lemma afterCursor_last:
  assumes "distinctHashes (pre @ rest)" and "pre \<noteq> []"
  shows "afterCursor (kv_messageHash (last pre)) (pre @ rest) = rest"
proof -
  obtain init m where pre: "pre = init @ [m]" using assms(2) by (cases pre rule: rev_cases) auto
  then obtain h where h: "kv_messageHash m = Some h"
    using assms(1) by (cases "kv_messageHash m") (auto simp: distinctHashes_def)
  have "dropWhile (\<lambda>x. kv_messageHash x \<noteq> Some h) (init @ m # rest) = m # rest"
    using assms(1) h pre by (subst dropWhile_append2) (auto simp: distinctHashes_def image_iff)
  then show ?thesis by (simp add: afterCursor_def pre h)
qed

lemma beforeCursor_hd:
  assumes "distinctHashes (rest @ post)" and "post \<noteq> []"
  shows "beforeCursor (kv_messageHash (hd post)) (rest @ post) = rest"
proof -
  obtain m post' where post: "post = m # post'" using assms(2) by (cases post) auto
  then obtain h where h: "kv_messageHash m = Some h"
    using assms(1) by (cases "kv_messageHash m") (auto simp: distinctHashes_def)
  have "takeWhile (\<lambda>x. kv_messageHash x \<noteq> Some h) (rest @ m # post') = rest"
    using assms(1) h post by (subst takeWhile_append2) (auto simp: distinctHashes_def image_iff)
  then show ?thesis by (simp add: beforeCursor_def post h)
qed

lemma queryPages_step:
  assumes "queryTurn N opts decs p c = Page page c' False"
    and "queryPages n N opts decs p c' = (pages, r)"
  shows "queryPages (Suc n) N opts decs p c = (page # pages, r)"
  using assms by simp

lemma fuel_step: "0 < k \<Longrightarrow> rest \<noteq> [] \<Longrightarrow> length rest + k \<le> k * Suc n \<Longrightarrow> length rest - k + k \<le> k * n"
  by (cases n; cases "length rest < k") (auto simp: Suc_le_eq)

lemma queryPages_forward:
  assumes "storeAnswers N opts p k ms" and "0 < k" and "k \<le> 100" and "distinctHashes ms"
    and "qp_paginationForward opts" and "ms = pre @ rest"
    and "c = (if pre = [] then None else kv_messageHash (last pre))" and "length rest + k \<le> k * n"
  shows "\<exists>pages. queryPages n N opts decs p c = (pages, Finished) \<and>
    concat pages = map (decodeStored decs) rest"
  using assms(6-8)
proof (induction n arbitrary: pre rest c)
  case 0
  then show ?case using assms(2) by simp
next
  case (Suc n)
  have page: "storePage (qp_paginationForward opts) k c ms = take k rest"
    using Suc.prems assms(4,5) afterCursor_last [of pre rest]
    by (cases "pre = []") (simp_all add: storePage_def afterCursor_def)
  have c: "c = None \<or> c \<in> kv_messageHash ` set ms" using Suc.prems by auto
  note turn = queryTurn_store [OF assms(1,3) c, of decs, unfolded page Let_def]
  show ?case
  proof (cases "rest = []")
    case True
    then show ?thesis using turn by simp
  next
    case False
    then have ne: "take k rest \<noteq> []" using assms(2) by auto
    obtain pages where "queryPages n N opts decs p (kv_messageHash (last (take k rest))) = (pages, Finished)"
        "concat pages = map (decodeStored decs) (drop k rest)"
      using Suc.IH [of "pre @ take k rest" "drop k rest" "kv_messageHash (last (take k rest))"]
        Suc.prems ne fuel_step [OF assms(2) False Suc.prems(3)] by auto
    moreover have "queryTurn N opts decs p c =
        Page (map (decodeStored decs) (take k rest)) (kv_messageHash (last (take k rest))) False"
      using turn ne assms(5) by simp
    ultimately show ?thesis
      using queryPages_step by (metis append_take_drop_id concat.simps(2) map_append)
  qed
qed

lemma queryPages_backward:
  assumes "storeAnswers N opts p k ms" and "0 < k" and "k \<le> 100" and "distinctHashes ms"
    and "\<not> qp_paginationForward opts" and "ms = rest @ post"
    and "c = (if post = [] then None else kv_messageHash (hd post))" and "length rest + k \<le> k * n"
  shows "\<exists>pages. queryPages n N opts decs p c = (pages, Finished) \<and>
    concat (rev pages) = map (decodeStored decs) rest"
  using assms(6-8)
proof (induction n arbitrary: post rest c)
  case 0
  then show ?case using assms(2) by simp
next
  case (Suc n)
  let ?j = "length rest - k"
  have page: "storePage (qp_paginationForward opts) k c ms = drop ?j rest"
    using Suc.prems assms(4,5) beforeCursor_hd [of rest post]
    by (cases "post = []") (simp_all add: storePage_def beforeCursor_def)
  have c: "c = None \<or> c \<in> kv_messageHash ` set ms" using Suc.prems by auto
  note turn = queryTurn_store [OF assms(1,3) c, of decs, unfolded page Let_def]
  show ?case
  proof (cases "rest = []")
    case True
    then show ?thesis using turn by simp
  next
    case False
    then have "?j < length rest" using assms(2) by (simp add: diff_less)
    then have ne: "drop ?j rest \<noteq> []" by simp
    obtain pages where "queryPages n N opts decs p (kv_messageHash (hd (drop ?j rest))) = (pages, Finished)"
        "concat (rev pages) = map (decodeStored decs) (take ?j rest)"
      using Suc.IH [of "take ?j rest" "drop ?j rest @ post" "kv_messageHash (hd (drop ?j rest))"]
        Suc.prems ne fuel_step [OF assms(2) False Suc.prems(3)] by auto
    moreover have "queryTurn N opts decs p c =
        Page (map (decodeStored decs) (drop ?j rest)) (kv_messageHash (hd (drop ?j rest))) False"
      using turn ne assms(5) by simp
    ultimately have "queryPages (Suc n) N opts decs p c = (map (decodeStored decs) (drop ?j rest) # pages, Finished)"
      by (intro queryPages_step)
    moreover have "concat (rev (map (decodeStored decs) (drop ?j rest) # pages)) = map (decodeStored decs) rest"
      using \<open>concat (rev pages) = _\<close> by (simp flip: map_append)
    ultimately show ?thesis by blast
  qed
qed

section \<open>Properties\<close>

lemma pagination_complete:
  assumes "storeAnswers N opts p k ms" and "0 < k" and "k \<le> 100" and "distinctHashes ms"
    and "qp_contentTopics opts = Some (jm_keys decs)" and "qp_paginationCursor opts = None"
    and "length ms + k \<le> k * n"
  shows "\<exists>pages. queryPerPage n N opts decs p = (pages, Finished) \<and>
    concat (if qp_paginationForward opts then pages else rev pages) = map (decodeStored decs) ms"
proof -
  have "queryPerPage n N opts decs p = queryPages n N opts decs p None"
    using assms(5,6) by (simp add: queryPerPage_def)
  then show ?thesis
    using queryPages_forward [OF assms(1-4), of "[]" ms None n decs]
      queryPages_backward [OF assms(1-4), of ms "[]" None n decs] assms(7)
    by (cases "qp_paginationForward opts") auto
qed

text \<open>Pagination delivers the store: against a node that answers every query with the page after (or,
  backward, before) the cursor, which is the hash of one of its messages, of \<open>k\<close> messages at most and \<open>k\<close> from 1 to 100, the generator ends
  after at most one turn more than there are pages, and its pages together are all messages of the
  store in their order, each once, decoded; backward the pages come in the opposite order. The
  messages of a store have different hashes.\<close>

theorem store_pagination_complete:
  assumes "storeAnswers N opts p k ms" and "0 < k" and "k \<le> 100" and "distinctHashes ms"
    and "qp_contentTopics opts = Some (jm_keys decs)" and "qp_paginationCursor opts = None"
    and "length ms + k \<le> k * n"
  shows "\<exists>pages. queryPerPage n N opts decs p = (pages, Finished) \<and>
    concat (if qp_paginationForward opts then pages else rev pages) = map (decodeStored decs) ms"
  by (rule pagination_complete [OF assms])

definition demoStored :: "nat \<Rightarrow> wakuMessageKeyValue" where
  "demoStored i = \<lparr>kv_messageHash = Some [word_of_nat i],
     kv_message = Some \<lparr>wire_payload = [word_of_nat i], wire_contentTopic = ''c'', wire_version = Absent, wire_timestamp = Absent,
       wire_meta = Absent, wire_rateLimitProof = Absent, wire_ephemeral = Absent\<rparr>, kv_pubsubTopic = None\<rparr>"

definition demoStoreOpts :: queryRequestParams where
  "demoStoreOpts = \<lparr>qp_includeData = True, qp_pubsubTopic = Some ''t'', qp_contentTopics = Some [],
     qp_timeStart = None, qp_timeEnd = None, qp_messageHashes = None, qp_paginationCursor = None,
     qp_paginationForward = True, qp_paginationLimit = Some 2\<rparr>"

definition demoStoreNet :: "string storeNet" where
  "demoStoreNet = \<lparr>sn_getStream = (\<lambda>_. Inr ()), sn_exchange = (\<lambda>_ b. Inr [b]),
     sn_encode = (\<lambda>r. case sq_paginationCursor r of None \<Rightarrow> [] | Some c \<Rightarrow> 1 # c),
     sn_decode = (\<lambda>b. Inr \<lparr>sr_statusCode = Some 200, sr_statusDesc = None,
        sr_messages = storePage True 2 (case b of [] \<Rightarrow> None | _ # c \<Rightarrow> Some c) (map demoStored [0, 1, 2])\<rparr>),
     sn_uuid = ''u''\<rparr>"

theorem store_pagination_complete_witness:
  "\<exists>pages. queryPerPage 3 demoStoreNet demoStoreOpts ([] :: string decoders) ''p'' = (pages, Finished) \<and>
     concat pages = map (decodeStored []) (map demoStored [0, 1, 2])"
proof -
  have "storeAnswers demoStoreNet demoStoreOpts ''p'' 2 (map demoStored [0, 1, 2])"
    by (auto simp: storeAnswers_def demoStoreNet_def demoStoreOpts_def storeQuery_create_def storeTime_def
        truthyStr_def split: option.split)
  moreover have "distinctHashes (map demoStored [0, 1, 2])"
    by (auto simp: distinctHashes_def demoStored_def)
  ultimately have "\<exists>pages. queryPerPage 3 demoStoreNet demoStoreOpts ([] :: string decoders) ''p'' = (pages, Finished) \<and>
      concat (if qp_paginationForward demoStoreOpts then pages else rev pages) =
        map (decodeStored []) (map demoStored [0, 1, 2])"
    by (intro store_pagination_complete [where k = 2 and ms = "map demoStored [0, 1, 2]"]) (simp_all add: demoStoreOpts_def)
  then show ?thesis by (simp add: demoStoreOpts_def)
qed

text \<open>A store request is built exactly for the queries the protocol allows: a pubsub topic and a list
  of content topics are given together or not at all, a lookup by message hash carries no topic,
  content topic or time, and the dates are valid. So no query that names a topic, as every query
  of the SDK does, can look messages up by hash.\<close>

theorem storeQuery_create_valid:
  "(\<exists>r. storeQuery_create uuid params = Inr r) \<longleftrightarrow>
     qp_timeStart params \<noteq> Some None \<and> qp_timeEnd params \<noteq> Some None \<and>
     (truthyStr (qp_pubsubTopic params) \<longleftrightarrow> qp_contentTopics params \<noteq> None) \<and>
     (qp_messageHashes params = None \<or>
       \<not> truthyStr (qp_pubsubTopic params) \<and> qp_contentTopics params = None \<and>
       qp_timeStart params = None \<and> qp_timeEnd params = None)"
  by (auto simp: storeQuery_create_def storeTime_def rbind_eq_Inr Let_def split: option.splits)

end
