(* ===== verification/Metadata.thy ===== *)
theory Metadata
  imports CoreProtocol RelayShardCodec StateMachine
begin

text \<open>
  \<open>packages/core/src/lib/metadata/metadata.ts\<close>: the shard information a node exchanges with its
  peers.  The state is the map of confirmed handshakes, what the node wrote into libp2p's peer
  store and what it wrote to the streams of its peers; a call returns the new state and its outcome,
  where \<open>Inl\<close> is a rejection.
\<close>

section \<open>Definitions\<close>

record 'p metadata =
  md_handshakes :: "('p, shardInfo) jsmap"
  md_peerStore :: "('p, bytes) jsmap"
  md_written :: "('p \<times> bytes) list"

record 'p metadataNet =
  mn_peer :: "'p \<Rightarrow> bool res"
  mn_getStream :: "'p \<Rightarrow> unit res"
  mn_exchange :: "'p \<Rightarrow> bytes \<Rightarrow> bytes list res"
  mn_encodeRequest :: "shardInfo \<Rightarrow> bytes"
  mn_encodeResponse :: "shardInfo \<Rightarrow> bytes"
  mn_decodeResponse :: "bytes \<Rightarrow> shardInfo option res"
  mn_merge :: "'p \<Rightarrow> bytes \<Rightarrow> unit res"

datatype metadataResult = MetadataOk shardInfo | MetadataErr protocolError

text \<open>\<open>pipe([x], lp.encode, stream, lp.decode, all)\<close>: the bytes are written to the stream of the peer, and what the peer writes is read.\<close>

definition exchange :: "'p metadataNet \<Rightarrow> 'p \<Rightarrow> bytes \<Rightarrow> 'p metadata \<Rightarrow> 'p metadata \<times> bytes list res" where
  "exchange N peerId bs S = (S\<lparr>md_written := md_written S @ [(peerId, bs)]\<rparr>, mn_exchange N peerId bs)"

definition decodeMetadataResponse :: "'p metadataNet \<Rightarrow> bytes list \<Rightarrow> metadataResult res" where
  "decodeMetadataResponse N encodedResponse =
     rbind (mn_decodeResponse N (concat encodedResponse))
       (\<lambda>r. Inr (case r of None \<Rightarrow> MetadataErr DECODE_FAILED | Some s \<Rightarrow> MetadataOk s))"

definition savePeerShardInfo :: "'p metadataNet \<Rightarrow> 'p \<Rightarrow> shardInfo \<Rightarrow> 'p metadata \<Rightarrow> 'p metadata res" where
  "savePeerShardInfo N peerId info S =
     rbind (encodeRelayShard info)
       (\<lambda>bs. rbind (mn_merge N peerId bs)
         (\<lambda>_. Inr (S\<lparr>md_peerStore := jm_set peerId bs (md_peerStore S),
                     md_handshakes := jm_set peerId info (md_handshakes S)\<rparr>)))"

definition metadata_query ::
  "'p metadataNet \<Rightarrow> string list \<Rightarrow> 'p \<Rightarrow> 'p metadata \<Rightarrow> 'p metadata \<times> metadataResult res" where
  "metadata_query N pubsubTopics peerId S =
     (case pubsubTopicsToShardInfo pubsubTopics of
        Inl e \<Rightarrow> (S, Inl e)
      | Inr own \<Rightarrow>
          (case mn_peer N peerId of
             Inl e \<Rightarrow> (S, Inl e)
           | Inr False \<Rightarrow> (S, Inr (MetadataErr NO_PEER_AVAILABLE))
           | Inr True \<Rightarrow>
               (case mn_getStream N peerId of
                  Inl _ \<Rightarrow> (S, Inr (MetadataErr NO_STREAM_AVAILABLE))
                | Inr _ \<Rightarrow>
                    (case exchange N peerId (mn_encodeRequest N own) S of
                       (S1, encodedResponse) \<Rightarrow>
                         (case rbind encodedResponse (decodeMetadataResponse N) of
                            Inl e \<Rightarrow> (S1, Inl e)
                          | Inr (MetadataErr e) \<Rightarrow> (S1, Inr (MetadataErr e))
                          | Inr (MetadataOk info) \<Rightarrow>
                              (case savePeerShardInfo N peerId info S1 of
                                 Inl e \<Rightarrow> (S1, Inl e)
                               | Inr S2 \<Rightarrow> (S2, Inr (MetadataOk info))))))))"

definition confirmOrAttemptHandshake ::
  "'p metadataNet \<Rightarrow> string list \<Rightarrow> 'p \<Rightarrow> 'p metadata \<Rightarrow> 'p metadata \<times> metadataResult res" where
  "confirmOrAttemptHandshake N pubsubTopics peerId S =
     (case jm_get (md_handshakes S) peerId of
        Some info \<Rightarrow> (S, Inr (MetadataOk info))
      | None \<Rightarrow> metadata_query N pubsubTopics peerId S)"

text \<open>The handler of a request: exceptions are caught, and the answer of the peer is saved too.\<close>

definition metadata_onRequest :: "'p metadataNet \<Rightarrow> string list \<Rightarrow> 'p \<Rightarrow> 'p metadata \<Rightarrow> 'p metadata" where
  "metadata_onRequest N pubsubTopics remotePeer S =
     (case pubsubTopicsToShardInfo pubsubTopics of
        Inl _ \<Rightarrow> S
      | Inr own \<Rightarrow>
          (case exchange N remotePeer (mn_encodeResponse N own) S of
             (S1, encodedResponse) \<Rightarrow>
               (case rbind encodedResponse (decodeMetadataResponse N) of
                  Inr (MetadataOk info) \<Rightarrow>
                    (case savePeerShardInfo N remotePeer info S1 of Inl _ \<Rightarrow> S1 | Inr S2 \<Rightarrow> S2)
                | _ \<Rightarrow> S1)))"

datatype 'p metadataEvent = Query "'p metadataNet" 'p | Confirm "'p metadataNet" 'p | Request "'p metadataNet" 'p

fun metadataExec :: "string list \<Rightarrow> 'p metadataEvent \<Rightarrow> 'p metadata \<Rightarrow> 'p metadata" where
  "metadataExec topics (Query N p) S = fst (metadata_query N topics p S)"
| "metadataExec topics (Confirm N p) S = fst (confirmOrAttemptHandshake N topics p S)"
| "metadataExec topics (Request N p) S = metadata_onRequest N topics p S"

section \<open>Lemmas\<close>

definition metadataInv :: "'p metadata \<Rightarrow> bool" where
  "metadataInv S \<longleftrightarrow>
     (\<forall>p info. jm_get (md_handshakes S) p = Some info \<longrightarrow>
        (\<exists>bs. encodeRelayShard info = Inr bs \<and> jm_get (md_peerStore S) p = Some bs))"

lemma exchange_inv: "metadataInv S \<Longrightarrow> exchange N p bs S = (S', r) \<Longrightarrow> metadataInv S'"
  by (auto simp: metadataInv_def exchange_def)

lemma savePeerShardInfo_inv:
  "metadataInv S \<Longrightarrow> savePeerShardInfo N p info S = Inr S' \<Longrightarrow>
     metadataInv S' \<and> jm_get (md_handshakes S') p = Some info"
  by (auto simp: metadataInv_def savePeerShardInfo_def rbind_eq_Inr)

lemma metadata_query_inv: "metadataInv S \<Longrightarrow> metadataInv (fst (metadata_query N topics p S))"
  by (auto simp: metadata_query_def dest: savePeerShardInfo_inv exchange_inv
      split: sum.split bool.split metadataResult.split prod.split)

lemma metadata_onRequest_inv: "metadataInv S \<Longrightarrow> metadataInv (metadata_onRequest N topics p S)"
  by (auto simp: metadata_onRequest_def dest: savePeerShardInfo_inv exchange_inv split: sum.split metadataResult.split prod.split)

interpretation metadataEvents: event_system
    "\<lambda>S. md_handshakes S = [] \<and> md_peerStore S = []" "metadataExec topics" metadataInv for topics
proof
  fix S :: "'p metadata"
  show "md_handshakes S = [] \<and> md_peerStore S = [] \<Longrightarrow> metadataInv S" by (simp add: metadataInv_def)
next
  fix S :: "'p metadata" and e
  assume "metadataInv S"
  then show "metadataInv (metadataExec topics e S)"
    by (cases e) (auto simp: confirmOrAttemptHandshake_def metadata_query_inv metadata_onRequest_inv split: option.split)
qed

lemma metadata_query_confirms:
  "metadata_query N topics p S = (S', Inr (MetadataOk info)) \<Longrightarrow> jm_get (md_handshakes S') p = Some info"
  by (auto simp: metadata_query_def savePeerShardInfo_def rbind_eq_Inr
      split: sum.splits bool.splits metadataResult.splits prod.splits)

section \<open>Properties\<close>

text \<open>A confirmed handshake is backed by the peer store: after any sequence of queries, confirmations
  and incoming requests, over any network, the shard information remembered for a peer is what the
  peer store holds in encoded form. A confirmation that succeeded is remembered: the next one returns
  the same shard information and changes nothing, even without a network.\<close>

theorem handshakes_backed:
  "metadataInv (runEvents (metadataExec topics) evs \<lparr>md_handshakes = [], md_peerStore = [], md_written = []\<rparr>) \<and>
   (case confirmOrAttemptHandshake N topics p S of
      (S', Inr (MetadataOk info)) \<Rightarrow> confirmOrAttemptHandshake N' topics' p S' = (S', Inr (MetadataOk info))
    | _ \<Rightarrow> True)"
proof
  show "metadataInv (runEvents (metadataExec topics) evs \<lparr>md_handshakes = [], md_peerStore = [], md_written = []\<rparr>)"
    by (rule metadataEvents.run_from_start) simp
  show "case confirmOrAttemptHandshake N topics p S of
      (S', Inr (MetadataOk info)) \<Rightarrow> confirmOrAttemptHandshake N' topics' p S' = (S', Inr (MetadataOk info))
    | _ \<Rightarrow> True"
    by (auto simp: confirmOrAttemptHandshake_def dest: metadata_query_confirms
        split: prod.split sum.split metadataResult.split option.split)
qed

end
