(* ===== verification/KeepAlive.thy ===== *)
theory KeepAlive
  imports Sharding Message StateMachine
begin

text \<open>
  \<open>packages/core/src/lib/connection_manager\<close>, the files \<open>keep_alive_manager.ts\<close> and \<open>utils.ts\<close>:
  the intervals that ping a peer, and the ping that the peer store remembers.  The timers of the
  JavaScript runtime are part of the state: \<open>ka_running\<close> lists the intervals that were set and not
  cleared, with what their callback does.  The relay timers are keyed by the \<open>PeerId\<close> object itself,
  so a peer is a pair of an object identity and a text.
\<close>

section \<open>Data\<close>

record peerRef =
  pr_object :: nat
  pr_str :: string

datatype timerJob = PingJob string | RelayJob string

record keepAlive =
  ka_ping :: "(string, nat) jsmap"
  ka_relay :: "(nat, nat list) jsmap"
  ka_running :: "(nat \<times> timerJob) list"
  ka_next :: nat

record keepAliveOptions =
  ko_pingKeepAlive :: int
  ko_relayKeepAlive :: int

record relayView =
  rv_pubsubTopics :: "string list"
  rv_meshPeers :: "string \<Rightarrow> string list"

definition newKeepAlive :: keepAlive where
  "newKeepAlive = \<lparr>ka_ping = [], ka_relay = [], ka_running = [], ka_next = 0\<rparr>"

section \<open>Timers of the runtime\<close>

definition setInterval :: "timerJob \<Rightarrow> keepAlive \<Rightarrow> nat \<times> keepAlive" where
  "setInterval job K = (ka_next K, K\<lparr>ka_running := ka_running K @ [(ka_next K, job)], ka_next := ka_next K + 1\<rparr>)"

definition clearInterval :: "nat \<Rightarrow> keepAlive \<Rightarrow> keepAlive" where
  "clearInterval i K = K\<lparr>ka_running := filter (\<lambda>(j, _). j \<noteq> i) (ka_running K)\<rparr>"

section \<open>keep_alive_manager.ts\<close>

definition RelayPingContentTopic :: string where
  "RelayPingContentTopic = ''/relay-ping/1/ping/null''"

definition keepAlive_stop :: "peerRef \<Rightarrow> keepAlive \<Rightarrow> keepAlive" where
  "keepAlive_stop peerId K =
     (let K1 = (case jm_get (ka_ping K) (pr_str peerId) of
                  None \<Rightarrow> K
                | Some i \<Rightarrow> (clearInterval i K)\<lparr>ka_ping := jm_delete (pr_str peerId) (ka_ping K)\<rparr>)
      in case jm_get (ka_relay K1) (pr_object peerId) of
           None \<Rightarrow> K1
         | Some is \<Rightarrow> (fold clearInterval is K1)\<lparr>ka_relay := jm_delete (pr_object peerId) (ka_relay K1)\<rparr>)"

text \<open>
  The intervals that were set before an exception stay: the loop returns the state in both cases.
  \<open>encoderOf\<close> is \<open>createEncoder\<close> on the shard of the topic, of which only the failure matters here.
\<close>

fun scheduleRelayPings ::
  "(singleShardInfo \<Rightarrow> encoder res) \<Rightarrow> relayView \<Rightarrow> string \<Rightarrow> string list \<Rightarrow> nat list \<Rightarrow> keepAlive \<Rightarrow>
     keepAlive \<times> nat list res" where
  "scheduleRelayPings encoderOf relay peerIdStr [] intervals K = (K, Inr intervals)"
| "scheduleRelayPings encoderOf relay peerIdStr (topic # topics) intervals K =
     (if peerIdStr \<notin> set (rv_meshPeers relay topic)
      then scheduleRelayPings encoderOf relay peerIdStr topics intervals K
      else (case rbind (pubsubTopicToSingleShardInfo topic) encoderOf of
              Inl e \<Rightarrow> (K, Inl e)
            | Inr _ \<Rightarrow>
                (case setInterval (RelayJob topic) K of
                   (i, K1) \<Rightarrow> scheduleRelayPings encoderOf relay peerIdStr topics (intervals @ [i]) K1)))"

definition keepAlive_start ::
  "(singleShardInfo \<Rightarrow> encoder res) \<Rightarrow> keepAliveOptions \<Rightarrow> relayView option \<Rightarrow> peerRef \<Rightarrow> keepAlive \<Rightarrow>
     keepAlive \<times> unit res" where
  "keepAlive_start encoderOf opts relay peerId K =
     (let K1 = keepAlive_stop peerId K;
          K2 = (if ko_pingKeepAlive opts \<noteq> 0
                then (case setInterval (PingJob (pr_str peerId)) K1 of
                        (i, K') \<Rightarrow> K'\<lparr>ka_ping := jm_set (pr_str peerId) i (ka_ping K')\<rparr>)
                else K1)
      in case relay of
           None \<Rightarrow> (K2, Inr ())
         | Some r \<Rightarrow>
             if ko_relayKeepAlive opts = 0 then (K2, Inr ())
             else (case scheduleRelayPings encoderOf r (pr_str peerId) (rv_pubsubTopics r) [] K2 of
                     (K3, Inl e) \<Rightarrow> (K3, Inl e)
                   | (K3, Inr intervals) \<Rightarrow>
                       (K3\<lparr>ka_relay := jm_set (pr_object peerId) intervals (ka_relay K3)\<rparr>, Inr ())))"

text \<open>
  \<open>stopAll\<close> goes over \<open>Object.values\<close> of the two maps. The entries of a \<open>Map\<close> are not own properties
  of the object, so \<open>objectValues\<close> of a map has no element.
\<close>

definition objectValues :: "('k, 'v) jsmap \<Rightarrow> 'v list" where
  "objectValues m = []"

definition keepAlive_stopAll :: "keepAlive \<Rightarrow> keepAlive" where
  "keepAlive_stopAll K =
     (fold clearInterval (objectValues (ka_ping K) @ concat (objectValues (ka_relay K))) K)
       \<lparr>ka_ping := [], ka_relay := []\<rparr>"

definition connectionsExist :: "keepAlive \<Rightarrow> bool" where
  "connectionsExist K = (ka_ping K \<noteq> [] \<or> ka_relay K \<noteq> [])"

section \<open>Pings\<close>

type_synonym pingStore = "(string, bytes) jsmap"

text \<open>The callback of a ping interval: \<open>ping\<close> and \<open>merge\<close> are libp2p's; their failures are logged.\<close>

definition pingTick :: "(string \<Rightarrow> bytes) \<Rightarrow> int res \<Rightarrow> unit res \<Rightarrow> string \<Rightarrow> pingStore \<Rightarrow> pingStore" where
  "pingTick utf8 ping merge p store =
     (case ping of
        Inl _ \<Rightarrow> store
      | Inr n \<Rightarrow> (case merge of Inl _ \<Rightarrow> store | Inr _ \<Rightarrow> jm_set p (utf8 (show_int n)) store))"

text \<open>
  \<open>Number(s)\<close> on decimal integers, the only texts that \<open>pingTick\<close> writes; \<open>None\<close> is \<open>NaN\<close>.
\<close>

definition isDecimal :: "string \<Rightarrow> bool" where
  "isDecimal s =
     (let u = (if s \<noteq> [] \<and> (hd s = CHR ''-'' \<or> hd s = CHR ''+'') then tl s else s)
      in u \<noteq> [] \<and> list_all (\<lambda>c. digit_val 10 c \<noteq> None) u)"

definition jsNumber :: "string \<Rightarrow> int option" where
  "jsNumber s = (if list_all is_space s then Some 0 else if isDecimal s then parseInt s else None)"

definition getPeerPing :: "(bytes \<Rightarrow> string res) \<Rightarrow> bytes option option \<Rightarrow> int option" where
  "getPeerPing bytesToUtf8 peer =
     (case peer of
        None \<Rightarrow> Some (- 1)
      | Some None \<Rightarrow> Some (- 1)
      | Some (Some bs) \<Rightarrow> (case bytesToUtf8 bs of Inl _ \<Rightarrow> Some (- 1) | Inr s \<Rightarrow> jsNumber s))"

section \<open>Lemmas\<close>

text \<open>
  What holds in every state: identifiers are fresh, every ping timer of the map runs, and every running
  ping interval is the timer of its peer.
\<close>

definition keepAliveInv :: "keepAlive \<Rightarrow> bool" where
  "keepAliveInv K \<longleftrightarrow>
     distinct (map fst (ka_running K)) \<and>
     (\<forall>(i, j) \<in> set (ka_running K). i < ka_next K) \<and>
     (\<forall>r is. jm_get (ka_relay K) r = Some is \<longrightarrow>
        (\<forall>i \<in> set is. i < ka_next K \<and> (\<forall>s. (i, PingJob s) \<notin> set (ka_running K)))) \<and>
     (\<forall>i s. (i, PingJob s) \<in> set (ka_running K) \<longleftrightarrow> jm_get (ka_ping K) s = Some i)"

lemma keepAliveInv_next: "keepAliveInv K \<Longrightarrow> (i, j) \<in> set (ka_running K) \<Longrightarrow> i < ka_next K"
  unfolding keepAliveInv_def by blast

lemma keepAliveInv_ping: "keepAliveInv K \<Longrightarrow> (i, PingJob s) \<in> set (ka_running K) \<longleftrightarrow> jm_get (ka_ping K) s = Some i"
  unfolding keepAliveInv_def by blast

lemma keepAliveInv_id: "keepAliveInv K \<Longrightarrow> (i, j) \<in> set (ka_running K) \<Longrightarrow> (i, j') \<in> set (ka_running K) \<Longrightarrow> j = j'"
  unfolding keepAliveInv_def by (meson eq_key_imp_eq_value)

lemma fold_clearInterval:
  "fold clearInterval is K = K\<lparr>ka_running := filter (\<lambda>(j, _). j \<notin> set is) (ka_running K)\<rparr>"
proof (induction "is" arbitrary: K)
  case Nil
  have "filter (\<lambda>(j, _). True) (ka_running K) = ka_running K" by (simp add: case_prod_unfold)
  then show ?case by simp
next
  case (Cons i "is")
  have "filter (\<lambda>(j, _). j \<notin> set is) (filter (\<lambda>(j, _). j \<noteq> i) (ka_running K)) =
      filter (\<lambda>(j, _). j \<notin> set (i # is)) (ka_running K)"
    by (auto intro!: filter_cong simp: case_prod_unfold)
  then show ?case by (simp add: Cons.IH) (simp add: clearInterval_def)
qed

text \<open>The two halves of \<open>stop\<close>, and of \<open>start\<close>, each keep the invariant.\<close>

lemma clear_ping_inv:
  assumes "keepAliveInv K" and "jm_get (ka_ping K) s = Some i"
  shows "keepAliveInv ((clearInterval i K)\<lparr>ka_ping := jm_delete s (ka_ping K)\<rparr>)"
proof -
  have "(i, PingJob s) \<in> set (ka_running K)" using assms by (simp add: keepAliveInv_ping)
  then have "(i, PingJob t) \<in> set (ka_running K) \<longleftrightarrow> t = s" for t
    using assms(1) by (auto dest: keepAliveInv_id)
  then have other: "jm_get (ka_ping K) t = Some j \<and> t \<noteq> s \<longleftrightarrow> jm_get (ka_ping K) t = Some j \<and> j \<noteq> i" for t j
    using assms by (metis keepAliveInv_ping option.inject)
  have "distinct (map fst (filter (\<lambda>(j, _). j \<noteq> i) (ka_running K)))"
    using assms(1) by (simp add: keepAliveInv_def distinct_map_filter)
  moreover have "(j, PingJob t) \<in> set (filter (\<lambda>(j, _). j \<noteq> i) (ka_running K)) \<longleftrightarrow>
      jm_get (jm_delete s (ka_ping K)) t = Some j" for j t
    using other [of t j] by (auto simp: keepAliveInv_ping [OF assms(1)])
  ultimately show ?thesis
    using assms(1) unfolding keepAliveInv_def clearInterval_def by simp blast
qed

lemma clear_relay_inv:
  assumes "keepAliveInv K" and "jm_get (ka_relay K) r = Some is"
  shows "keepAliveInv ((fold clearInterval is K)\<lparr>ka_relay := jm_delete r (ka_relay K)\<rparr>)"
proof -
  have "distinct (map fst (filter (\<lambda>(j, _). j \<notin> set is) (ka_running K)))"
    using assms(1) by (simp add: keepAliveInv_def distinct_map_filter)
  moreover have "\<And>i s. i \<in> set is \<Longrightarrow> (i, PingJob s) \<notin> set (ka_running K)"
    using assms unfolding keepAliveInv_def by blast
  ultimately show ?thesis
    using assms unfolding keepAliveInv_def fold_clearInterval by (auto split: if_splits)
qed

lemma keepAlive_stop_inv: "keepAliveInv K \<Longrightarrow> keepAliveInv (keepAlive_stop p K)"
  unfolding keepAlive_stop_def Let_def
  using clear_ping_inv clear_relay_inv by (fastforce split: option.split)

lemma keepAlive_stop_ping: "ka_ping (keepAlive_stop p K) = (if jm_get (ka_ping K) (pr_str p) = None then ka_ping K else jm_delete (pr_str p) (ka_ping K))"
  by (simp add: keepAlive_stop_def Let_def fold_clearInterval clearInterval_def split: option.split)

lemma set_ping_inv:
  assumes "keepAliveInv K" and "jm_get (ka_ping K) s = None" and "setInterval (PingJob s) K = (i, K')"
  shows "keepAliveInv (K'\<lparr>ka_ping := jm_set s i (ka_ping K')\<rparr>)"
proof -
  have fresh: "(ka_next K, j) \<notin> set (ka_running K)" "fst ` set (ka_running K) \<inter> {ka_next K} = {}" for j
    using assms(1) by (auto dest: keepAliveInv_next)
  have not_s: "(j, PingJob s) \<notin> set (ka_running K)" for j
    using assms(1,2) by (simp add: keepAliveInv_ping)
  have K': "K' = K\<lparr>ka_running := ka_running K @ [(ka_next K, PingJob s)], ka_next := ka_next K + 1\<rparr>" "i = ka_next K"
    using assms(3) by (auto simp: setInterval_def)
  show ?thesis
    using assms(1) fresh not_s unfolding keepAliveInv_def K' by (auto simp: less_Suc_eq) (metis less_irrefl_nat)
qed

lemma set_relay_inv: "keepAliveInv K \<Longrightarrow> setInterval (RelayJob t) K = (i, K') \<Longrightarrow> keepAliveInv K'"
  unfolding keepAliveInv_def setInterval_def by (fastforce simp: image_iff)

lemma keepAliveInv_relay:
  "keepAliveInv K \<Longrightarrow> jm_get (ka_relay K) r = Some is \<Longrightarrow> i \<in> set is \<Longrightarrow>
     i < ka_next K \<and> (\<forall>s. (i, PingJob s) \<notin> set (ka_running K))"
  unfolding keepAliveInv_def by blast

lemma scheduleRelayPings_inv:
  "scheduleRelayPings encoderOf relay p topics intervals K = (K', r) \<Longrightarrow> keepAliveInv K \<Longrightarrow>
     (\<And>i. i \<in> set intervals \<Longrightarrow> i < ka_next K \<and> (\<forall>s. (i, PingJob s) \<notin> set (ka_running K))) \<Longrightarrow>
     keepAliveInv K' \<and> ka_ping K' = ka_ping K \<and> ka_relay K' = ka_relay K \<and>
     (\<forall>is i. r = Inr is \<longrightarrow> i \<in> set is \<longrightarrow> i < ka_next K' \<and> (\<forall>s. (i, PingJob s) \<notin> set (ka_running K')))"
proof (induction topics arbitrary: intervals K)
  case Nil
  then show ?case by auto
next
  case (Cons topic topics)
  show ?case
  proof (cases "p \<in> set (rv_meshPeers relay topic)")
    case False
    with Cons.prems show ?thesis by (intro Cons.IH) auto
  next
    case mesh: True
    show ?thesis
    proof (cases "rbind (pubsubTopicToSingleShardInfo topic) encoderOf")
      case (Inl e)
      with mesh Cons.prems(1) have "K' = K" "r = Inl e" by auto
      with Cons.prems(2) show ?thesis by simp
    next
      case (Inr enc)
      define K1 where "K1 = snd (setInterval (RelayJob topic) K)"
      have set1: "setInterval (RelayJob topic) K = (ka_next K, K1)" by (simp add: K1_def setInterval_def)
      have fields: "ka_ping K1 = ka_ping K" "ka_relay K1 = ka_relay K" "ka_next K1 = Suc (ka_next K)"
        "ka_running K1 = ka_running K @ [(ka_next K, RelayJob topic)]"
        by (simp_all add: K1_def setInterval_def)
      have inv1: "keepAliveInv K1" using Cons.prems(2) set1 by (rule set_relay_inv)
      have "scheduleRelayPings encoderOf relay p topics (intervals @ [ka_next K]) K1 = (K', r)"
        using Cons.prems(1) mesh Inr set1 by simp
      moreover have "i < ka_next K1 \<and> (\<forall>s. (i, PingJob s) \<notin> set (ka_running K1))"
        if "i \<in> set (intervals @ [ka_next K])" for i
        using that Cons.prems(2,3) keepAliveInv_next [OF Cons.prems(2)] fields by (auto simp: less_Suc_eq)
      ultimately show ?thesis using Cons.IH [of "intervals @ [ka_next K]" K1] inv1 fields by simp
    qed
  qed
qed

lemma set_relay_timers_inv:
  "keepAliveInv K \<Longrightarrow> (\<And>i. i \<in> set is \<Longrightarrow> i < ka_next K \<and> (\<forall>s. (i, PingJob s) \<notin> set (ka_running K))) \<Longrightarrow>
     keepAliveInv (K\<lparr>ka_relay := jm_set r is (ka_relay K)\<rparr>)"
  unfolding keepAliveInv_def by (auto split: if_splits)

text \<open>The invariant and the ping timers after \<open>start\<close>.\<close>

lemma keepAlive_start_inv:
  assumes "keepAliveInv K"
  shows "keepAliveInv (fst (keepAlive_start encoderOf opts relay p K))"
    and "jm_get (ka_ping (fst (keepAlive_start encoderOf opts relay p K))) s =
      (if s = pr_str p then (if ko_pingKeepAlive opts = 0 then None else Some (ka_next (keepAlive_stop p K)))
       else jm_get (ka_ping K) s)"
proof -
  define K1 where "K1 = keepAlive_stop p K"
  define K2 where "K2 = (if ko_pingKeepAlive opts \<noteq> 0
      then (case setInterval (PingJob (pr_str p)) K1 of (i, K') \<Rightarrow> K'\<lparr>ka_ping := jm_set (pr_str p) i (ka_ping K')\<rparr>)
      else K1)"
  have inv1: "keepAliveInv K1" using assms by (simp add: K1_def keepAlive_stop_inv)
  have get1: "jm_get (ka_ping K1) t = (if t = pr_str p then None else jm_get (ka_ping K) t)" for t
    by (auto simp: K1_def keepAlive_stop_ping)
  have inv2: "keepAliveInv K2"
    using set_ping_inv [OF inv1] inv1 by (auto simp: K2_def get1 split: prod.split)
  have get2: "jm_get (ka_ping K2) t = (if t = pr_str p then (if ko_pingKeepAlive opts = 0 then None else Some (ka_next K1))
      else jm_get (ka_ping K) t)" for t
    by (auto simp: K2_def get1 setInterval_def)
  have start: "fst (keepAlive_start encoderOf opts relay p K) =
      (case relay of None \<Rightarrow> K2 | Some r \<Rightarrow>
         if ko_relayKeepAlive opts = 0 then K2
         else (case scheduleRelayPings encoderOf r (pr_str p) (rv_pubsubTopics r) [] K2 of
                 (K3, Inl e) \<Rightarrow> K3 | (K3, Inr is) \<Rightarrow> K3\<lparr>ka_relay := jm_set (pr_object p) is (ka_relay K3)\<rparr>))"
    unfolding keepAlive_start_def Let_def K1_def [symmetric] unfolding K2_def [symmetric]
    by (simp split: option.split prod.split sum.split)
  have relay: "keepAliveInv K3 \<and> ka_ping K3 = ka_ping K2 \<and>
      (\<forall>is. res = Inr is \<longrightarrow> keepAliveInv (K3\<lparr>ka_relay := jm_set (pr_object p) is (ka_relay K3)\<rparr>))"
    if "scheduleRelayPings encoderOf r (pr_str p) (rv_pubsubTopics r) [] K2 = (K3, res)" for r K3 res
  proof -
    have all: "keepAliveInv K3" "ka_ping K3 = ka_ping K2"
      "\<And>is i. res = Inr is \<Longrightarrow> i \<in> set is \<Longrightarrow> i < ka_next K3 \<and> (\<forall>s. (i, PingJob s) \<notin> set (ka_running K3))"
      using scheduleRelayPings_inv [OF that inv2] by auto
    then show ?thesis using set_relay_timers_inv [OF all(1)] by blast
  qed
  show "keepAliveInv (fst (keepAlive_start encoderOf opts relay p K))"
    using inv2 relay by (auto simp: start split: option.split prod.split sum.split)
  show "jm_get (ka_ping (fst (keepAlive_start encoderOf opts relay p K))) s =
      (if s = pr_str p then (if ko_pingKeepAlive opts = 0 then None else Some (ka_next (keepAlive_stop p K)))
       else jm_get (ka_ping K) s)"
    using relay by (auto simp: start get2 K1_def split: option.split prod.split sum.split)
qed

datatype keepAliveEvent = KStart keepAliveOptions "relayView option" peerRef | KStop peerRef

fun keepAliveExec :: "(singleShardInfo \<Rightarrow> encoder res) \<Rightarrow> keepAliveEvent \<Rightarrow> keepAlive \<Rightarrow> keepAlive" where
  "keepAliveExec encoderOf (KStart opts relay p) K = fst (keepAlive_start encoderOf opts relay p K)"
| "keepAliveExec encoderOf (KStop p) K = keepAlive_stop p K"

interpretation keepAlives: event_system "\<lambda>K. K = newKeepAlive" "keepAliveExec encoderOf" keepAliveInv for encoderOf
proof
  fix K :: keepAlive and e
  show "K = newKeepAlive \<Longrightarrow> keepAliveInv K" by (simp add: keepAliveInv_def newKeepAlive_def)
  show "keepAliveInv K \<Longrightarrow> keepAliveInv (keepAliveExec encoderOf e K)"
    by (cases e) (auto simp: keepAlive_stop_inv keepAlive_start_inv)
qed

definition pingsOf :: "string \<Rightarrow> keepAlive \<Rightarrow> (nat \<times> timerJob) list" where
  "pingsOf s K = filter (\<lambda>(i, job). job = PingJob s) (ka_running K)"

lemma pingsOf_eq:
  assumes "keepAliveInv K"
  shows "pingsOf s K = (case jm_get (ka_ping K) s of None \<Rightarrow> [] | Some i \<Rightarrow> [(i, PingJob s)])"
proof (cases "jm_get (ka_ping K) s")
  case None
  then have "\<And>i. (i, PingJob s) \<notin> set (ka_running K)" using assms by (simp add: keepAliveInv_ping)
  then have "pingsOf s K = []" unfolding pingsOf_def by (auto simp: filter_empty_conv)
  with None show ?thesis by simp
next
  case (Some i)
  have distinct: "distinct (pingsOf s K)"
    using assms unfolding keepAliveInv_def pingsOf_def by (simp add: distinct_map)
  have set: "set (pingsOf s K) = {(i, PingJob s)}"
    unfolding pingsOf_def using assms Some by (auto simp: keepAliveInv_ping)
  then have "length (pingsOf s K) = 1" using distinct distinct_card [of "pingsOf s K"] by simp
  then obtain x where "pingsOf s K = [x]" by (auto simp: length_Suc_conv)
  with set have "pingsOf s K = [(i, PingJob s)]" by simp
  with Some show ?thesis by simp
qed

lemma isDecimal_show_nat: "isDecimal (show_nat n)"
proof -
  have "c \<noteq> CHR ''-'' \<and> c \<noteq> CHR ''+'' \<and> digit_val 10 c \<noteq> None" if "c \<in> set (show_nat n)" for c
    using show_nat_val [OF that] show_nat_digits [OF that] by auto
  then show ?thesis unfolding isDecimal_def Let_def
    by (cases "show_nat n") (auto simp: list_all_iff)
qed

lemma show_nat_not_space: "\<not> list_all is_space (show_nat n)"
proof -
  have "hd (show_nat n) \<in> set (show_nat n)" by simp
  moreover have "\<not> is_space (hd (show_nat n))" using hd_show_nat [of n] by (auto simp: is_space_def)
  ultimately show ?thesis unfolding list_all_iff by blast
qed

lemma jsNumber_show_nat: "jsNumber (show_nat n) = Some (int n)"
  by (simp add: jsNumber_def show_nat_not_space isDecimal_show_nat parseInt_show_nat)

text \<open>The ping that a successful tick writes is the one the connection manager sorts by.\<close>

lemma ping_remembered:
  "(\<And>s. bytesToUtf8 (utf8 s) = Inr s) \<Longrightarrow> 0 \<le> n \<Longrightarrow>
     getPeerPing bytesToUtf8 (Some (jm_get (pingTick utf8 (Inr n) (Inr ()) p store) p)) = Some n"
  by (simp add: pingTick_def getPeerPing_def show_int_def jsNumber_show_nat)

section \<open>Properties\<close>

text \<open>Whatever starts and stops came before, at most one ping interval runs for a peer. \<open>start\<close>
  leaves exactly one, a new one, when pings are enabled and none when the period is 0; \<open>stop\<close> leaves none;
  both leave the pings of every other peer alone. This holds also when the relay pings of \<open>start\<close> throw.\<close>

theorem keep_alive_one_ping:
  "let K = runEvents (keepAliveExec encoderOf) evs newKeepAlive;
       K1 = fst (keepAlive_start encoderOf opts relay p K);
       K2 = keepAlive_stop p K
   in length (pingsOf s K) \<le> 1 \<and>
      length (pingsOf s K1) =
        (if s = pr_str p then (if ko_pingKeepAlive opts = 0 then 0 else 1) else length (pingsOf s K)) \<and>
      pingsOf s K2 = (if s = pr_str p then [] else pingsOf s K) \<and>
      set (pingsOf (pr_str p) K) \<inter> set (pingsOf (pr_str p) K1) = {}"
proof -
  define K where "K = runEvents (keepAliveExec encoderOf) evs newKeepAlive"
  have inv: "keepAliveInv K" unfolding K_def by (rule keepAlives.run_from_start) simp
  note eqs = pingsOf_eq [OF inv] pingsOf_eq [OF keepAlive_start_inv(1) [OF inv]]
    pingsOf_eq [OF keepAlive_stop_inv [OF inv]]
  have next_le: "ka_next (keepAlive_stop p K) = ka_next K"
    by (simp add: keepAlive_stop_def Let_def fold_clearInterval clearInterval_def split: option.split)
  have "jm_get (ka_ping K) (pr_str p) = Some i \<Longrightarrow> i < ka_next K" for i
    using keepAliveInv_ping [OF inv] keepAliveInv_next [OF inv] by blast
  then show ?thesis
    unfolding Let_def K_def [symmetric]
    by (auto simp: eqs keepAlive_start_inv(2) [OF inv] keepAlive_stop_ping next_le split: option.split)
qed

text \<open>\<open>stopAll\<close> forgets the timers without clearing them: every interval that ran still runs, the manager
  reports that there is none, and no later \<open>stop\<close> of any peer clears one of them.\<close>

theorem stopAll_leaks_timers:
  "ka_running (keepAlive_stopAll K) = ka_running K \<and>
   \<not> connectionsExist (keepAlive_stopAll K) \<and>
   ka_running (fold keepAlive_stop ps (keepAlive_stopAll K)) = ka_running K"
proof -
  have stopped: "fold keepAlive_stop ps K' = K'" if "ka_ping K' = []" "ka_relay K' = []" for K'
    using that by (induction ps arbitrary: K') (simp_all add: keepAlive_stop_def)
  have all: "keepAlive_stopAll K = K\<lparr>ka_ping := [], ka_relay := []\<rparr>"
    by (simp add: keepAlive_stopAll_def objectValues_def)
  show ?thesis by (simp add: all connectionsExist_def stopped)
qed

end
