(* ===== verification/ConnectionManager.thy ===== *)
theory ConnectionManager
  imports KeepAlive RelayShardCodec "HOL-Library.Multiset"
begin

text \<open>
  \<open>packages/core/src/lib/connection_manager/connection_manager.ts\<close>: which peers are dialled, how often
  and how many at a time.  The methods are asynchronous, so a call is a task that is cut at its \<open>await\<close>s
  and every event of the model runs one piece: a call from outside, the end of an \<open>await\<close>, or a change
  that libp2p makes to its connections and its peer store, both of which are part of the state.
  The flag of a dialling task says that \<open>attemptDial\<close> started it and is not part of the code.
\<close>

section \<open>Data\<close>

record cmConn =
  cc_remotePeer :: peerRef
  cc_tags :: "string list"

record storedPeer =
  sp_tags :: "string list"
  sp_protocols :: "string list"
  sp_shardInfo :: "bytes option"
  sp_ping :: "bytes option"

datatype dialInput = DialPeerId peerRef | DialMultiaddr string

datatype task =
    ShardCheck peerRef
  | BootstrapCheck peerRef
  | AttemptsCheck peerRef
  | Admitted peerRef
  | Dialing string nat bool "peerRef option"
  | Tagging string nat bool peerRef
  | Cleanup string "peerRef option"
  | Discover string "peerRef option"
  | DiscoveryTags peerRef
  | ConnectTags peerRef
  | Dropping peerRef
  | Resolved "peerRef option"
  | Rejected exn

datatype cmEmitted =
    ConnectionStatus bool
  | PeerConnectBootstrap string
  | PeerConnectPeerExchange string
  | PeerDiscoveryBootstrap string
  | PeerDiscoveryPeerExchange string
  | DnsFindPeers

record connectionManagerOptions =
  co_maxDialAttemptsForPeer :: nat
  co_maxBootstrapPeersAllowed :: int
  co_maxParallelDials :: int
  co_keepAlive :: keepAliveOptions

definition defaultOptions :: connectionManagerOptions where
  "defaultOptions = \<lparr>co_maxDialAttemptsForPeer = 3, co_maxBootstrapPeersAllowed = 1, co_maxParallelDials = 3,
     co_keepAlive = \<lparr>ko_pingKeepAlive = 5 * 60, ko_relayKeepAlive = 5 * 60\<rparr>\<rparr>"

text \<open>What the manager is given, and the library functions it calls.\<close>

record cmEnv =
  ce_options :: connectionManagerOptions
  ce_pubsubTopics :: "string list"
  ce_relay :: "relayView option"
  ce_encoderOf :: "singleShardInfo \<Rightarrow> encoder res"
  ce_multiaddrPeerId :: "string \<Rightarrow> string option res"
  ce_utf8 :: "string \<Rightarrow> bytes"
  ce_sha256 :: "bytes \<Rightarrow> bytes"
  ce_bytesToUtf8 :: "bytes \<Rightarrow> string res"
  ce_hasDnsDiscovery :: bool

record connectionManager =
  cm_dialAttempts :: "(string, int) jsmap"
  cm_dialErrors :: "(string, string) jsmap"
  cm_active :: int
  cm_queue :: "peerRef list"
  cm_networkConnected :: bool
  cm_keepAlive :: keepAlive
  cm_emitted :: "cmEmitted list"
  cm_connections :: "cmConn list"
  cm_store :: "(string, storedPeer) jsmap"
  cm_onLine :: "bool option"
  cm_listening :: bool
  cm_tasks :: "task list"

definition newConnectionManager :: connectionManager where
  "newConnectionManager = \<lparr>cm_dialAttempts = [], cm_dialErrors = [], cm_active = 0, cm_queue = [],
     cm_networkConnected = False, cm_keepAlive = newKeepAlive, cm_emitted = [], cm_connections = [],
     cm_store = [], cm_onLine = None, cm_listening = True, cm_tasks = []\<rparr>"

definition newTask :: "task \<Rightarrow> connectionManager \<Rightarrow> connectionManager" where
  "newTask k S = S\<lparr>cm_tasks := cm_tasks S @ [k]\<rparr>"

definition setTask :: "nat \<Rightarrow> task \<Rightarrow> connectionManager \<Rightarrow> connectionManager" where
  "setTask t k S = S\<lparr>cm_tasks := (cm_tasks S)[t := k]\<rparr>"

definition emit :: "cmEmitted \<Rightarrow> connectionManager \<Rightarrow> connectionManager" where
  "emit e S = S\<lparr>cm_emitted := cm_emitted S @ [e]\<rparr>"

definition connectionsOf :: "string \<Rightarrow> connectionManager \<Rightarrow> cmConn list" where
  "connectionsOf p S = filter (\<lambda>c. pr_str (cc_remotePeer c) = p) (cm_connections S)"

section \<open>Reads\<close>

definition isConnected :: "connectionManager \<Rightarrow> bool" where
  "isConnected S = (if cm_onLine S = Some False then False else cm_networkConnected S)"

definition BOOTSTRAP :: string where "BOOTSTRAP = ''bootstrap''"
definition PEER_EXCHANGE :: string where "PEER_EXCHANGE = ''peer-exchange''"
definition LOCAL :: string where "LOCAL = ''local-peer-cache''"

definition getTagNamesForPeer :: "string \<Rightarrow> connectionManager \<Rightarrow> string list" where
  "getTagNamesForPeer p S = (case jm_get (cm_store S) p of None \<Rightarrow> [] | Some peer \<Rightarrow> sp_tags peer)"

definition getPeerShardInfo :: "string \<Rightarrow> connectionManager \<Rightarrow> shardInfo option res" where
  "getPeerShardInfo p S =
     (case jm_get (cm_store S) p of
        None \<Rightarrow> Inl (Error ''NotFound'')
      | Some peer \<Rightarrow>
          (case sp_shardInfo peer of
             None \<Rightarrow> Inr None
           | Some bs \<Rightarrow> rbind (decodeRelayShard bs) (\<lambda>s. Inr (Some s))))"

definition isPeerTopicConfigured :: "cmEnv \<Rightarrow> string \<Rightarrow> connectionManager \<Rightarrow> bool res" where
  "isPeerTopicConfigured E p S =
     rbind (getPeerShardInfo p S)
       (\<lambda>info. case info of
          None \<Rightarrow> Inr True
        | Some s \<Rightarrow>
            rbind (shardInfoToPubsubTopics (ce_utf8 E) (ce_sha256 E) (staticConfig (sh_clusterId s) (sh_shards s)))
              (\<lambda>topics. Inr (\<exists>topic \<in> set topics. topic \<in> set (ce_pubsubTopics E))))"

definition bootstrapConnections :: "connectionManager \<Rightarrow> int" where
  "bootstrapConnections S = int (length (filter (\<lambda>c. BOOTSTRAP \<in> set (cc_tags c)) (cm_connections S)))"

definition isPeerDialableBasedOnBootstrapStatus :: "cmEnv \<Rightarrow> string \<Rightarrow> connectionManager \<Rightarrow> bool" where
  "isPeerDialableBasedOnBootstrapStatus E p S =
     (if BOOTSTRAP \<notin> set (getTagNamesForPeer p S) then True
      else bootstrapConnections S < co_maxBootstrapPeersAllowed (ce_options E))"

definition getDialablePeerInfo :: "cmEnv \<Rightarrow> dialInput \<Rightarrow> string res" where
  "getDialablePeerInfo E peer =
     (case peer of
        DialPeerId p \<Rightarrow> Inr (pr_str p)
      | DialMultiaddr a \<Rightarrow>
          rbind (ce_multiaddrPeerId E a)
            (\<lambda>p. if nullish p [] = [] then Inl (Error ''Failed to dial multiaddr: missing peer ID'')
                 else Inr (nullish p [])))"

text \<open>A dial with given protocols goes to \<open>dialProtocol\<close> of libp2p: a stream, or an exception.\<close>

definition rawDialPeerWithProtocols ::
  "(string \<Rightarrow> string list \<Rightarrow> 'stream res) \<Rightarrow> cmEnv \<Rightarrow> dialInput \<Rightarrow> string list \<Rightarrow> 'stream res" where
  "rawDialPeerWithProtocols dialProtocol E peer protocolCodecs =
     rbind (getDialablePeerInfo E peer) (\<lambda>peerDialInfo. dialProtocol peerDialInfo protocolCodecs)"

section \<open>Dialling\<close>

text \<open>\<open>attemptDial\<close> up to its first \<open>await\<close>: the state does not change.\<close>

definition attemptDial_begin :: "peerRef \<Rightarrow> connectionManager \<Rightarrow> task" where
  "attemptDial_begin p S = (if connectionsOf (pr_str p) S \<noteq> [] then Resolved None else ShardCheck p)"

definition processDialQueue :: "cmEnv \<Rightarrow> connectionManager \<Rightarrow> connectionManager" where
  "processDialQueue E S =
     (case cm_queue S of
        [] \<Rightarrow> S
      | p # queue \<Rightarrow>
          if cm_active S < co_maxParallelDials (ce_options E)
          then newTask (attemptDial_begin p S) (S\<lparr>cm_queue := queue\<rparr>) else S)"

definition dialResult :: "peerRef option \<Rightarrow> task" where
  "dialResult conn = (case conn of None \<Rightarrow> Rejected (Error ''Failed to dial peer'') | Some q \<Rightarrow> Resolved (Some q))"

definition attemptDnsDiscovery_begin :: "nat \<Rightarrow> string \<Rightarrow> peerRef option \<Rightarrow> connectionManager \<Rightarrow> connectionManager" where
  "attemptDnsDiscovery_begin t key conn S =
     setTask t (if cm_connections S \<noteq> [] then dialResult conn else Discover key conn) S"

definition attemptDnsDiscovery_end :: "cmEnv \<Rightarrow> nat \<Rightarrow> peerRef option \<Rightarrow> connectionManager \<Rightarrow> connectionManager" where
  "attemptDnsDiscovery_end E t conn S =
     setTask t (dialResult conn)
       (if cm_store S \<noteq> [] then S else if ce_hasDnsDiscovery E then emit DnsFindPeers S else S)"

text \<open>
  The end of the loop of \<open>dialPeer\<close>. The peer is deleted only when \<open>peerId\<close> is set, that is when some
  attempt got a connection.
\<close>

definition dialLoop_exit :: "cmEnv \<Rightarrow> nat \<Rightarrow> string \<Rightarrow> nat \<Rightarrow> peerRef option \<Rightarrow> connectionManager \<Rightarrow> connectionManager" where
  "dialLoop_exit E t key dialAttempt conn S =
     (let S1 = processDialQueue E (S\<lparr>cm_active := cm_active S - 1\<rparr>)
      in if dialAttempt = co_maxDialAttemptsForPeer (ce_options E)
         then (let S2 = S1\<lparr>cm_dialErrors := jm_delete key (cm_dialErrors S1)\<rparr>
               in if conn = None then attemptDnsDiscovery_begin t key conn S2
                  else setTask t (Cleanup key conn) S2)
         else setTask t (dialResult conn) S1)"

definition dialLoop :: "cmEnv \<Rightarrow> nat \<Rightarrow> string \<Rightarrow> nat \<Rightarrow> bool \<Rightarrow> peerRef option \<Rightarrow> connectionManager \<Rightarrow> connectionManager" where
  "dialLoop E t key dialAttempt auto conn S =
     (if dialAttempt < co_maxDialAttemptsForPeer (ce_options E)
      then setTask t (Dialing key dialAttempt auto conn) S
      else dialLoop_exit E t key dialAttempt conn S)"

definition dialPeer_begin :: "cmEnv \<Rightarrow> nat \<Rightarrow> dialInput \<Rightarrow> bool \<Rightarrow> connectionManager \<Rightarrow> connectionManager" where
  "dialPeer_begin E t peer auto S =
     (case getDialablePeerInfo E peer of
        Inl e \<Rightarrow> setTask t (Rejected e) S
      | Inr key \<Rightarrow> dialLoop E t key 0 auto None (S\<lparr>cm_active := cm_active S + 1\<rparr>))"

definition dialAttempt_failed ::
  "cmEnv \<Rightarrow> nat \<Rightarrow> string \<Rightarrow> nat \<Rightarrow> bool \<Rightarrow> peerRef option \<Rightarrow> string \<Rightarrow> connectionManager \<Rightarrow> connectionManager" where
  "dialAttempt_failed E t key dialAttempt auto conn err S =
     dialLoop E t key (dialAttempt + 1) auto conn
       (S\<lparr>cm_dialErrors := jm_set key err (cm_dialErrors S),
          cm_dialAttempts := jm_set key (int (dialAttempt + 1)) (cm_dialAttempts S)\<rparr>)"

definition tagConnections :: "string \<Rightarrow> string list \<Rightarrow> cmConn list \<Rightarrow> cmConn list" where
  "tagConnections p tags conns =
     map (\<lambda>c. if pr_str (cc_remotePeer c) = p then c\<lparr>cc_tags := uniq (cc_tags c @ tags)\<rparr> else c) conns"

definition startKeepAlive :: "cmEnv \<Rightarrow> peerRef \<Rightarrow> connectionManager \<Rightarrow> keepAlive \<times> unit res" where
  "startKeepAlive E p S = keepAlive_start (ce_encoderOf E) (co_keepAlive (ce_options E)) (ce_relay E) p (cm_keepAlive S)"

definition dial_connected :: "cmEnv \<Rightarrow> nat \<Rightarrow> string \<Rightarrow> nat \<Rightarrow> bool \<Rightarrow> peerRef \<Rightarrow> connectionManager \<Rightarrow> connectionManager" where
  "dial_connected E t key dialAttempt auto q S =
     (let S1 = S\<lparr>cm_connections := tagConnections (pr_str q) (getTagNamesForPeer (pr_str q) S) (cm_connections S),
                 cm_dialAttempts := jm_set (pr_str q) (- 1) (cm_dialAttempts S)\<rparr>
      in case startKeepAlive E q S1 of
           (K, Inr _) \<Rightarrow> dialLoop_exit E t key dialAttempt (Some q) (S1\<lparr>cm_keepAlive := K\<rparr>)
         | (K, Inl _) \<Rightarrow> dialAttempt_failed E t key dialAttempt auto (Some q) ''keep alive'' (S1\<lparr>cm_keepAlive := K\<rparr>))"

text \<open>The last piece of \<open>attemptDial\<close>, after \<open>shouldDialPeer\<close> returned true.\<close>

definition attemptDial_admitted :: "cmEnv \<Rightarrow> nat \<Rightarrow> peerRef \<Rightarrow> connectionManager \<Rightarrow> connectionManager" where
  "attemptDial_admitted E t p S =
     (if cm_active S \<ge> co_maxParallelDials (ce_options E)
      then setTask t (Resolved None) (S\<lparr>cm_queue := cm_queue S @ [p]\<rparr>)
      else dialPeer_begin E t (DialPeerId p) True S)"

section \<open>Connections\<close>

definition dispatchWakuConnectionEvent :: "connectionManager \<Rightarrow> connectionManager" where
  "dispatchWakuConnectionEvent S = emit (ConnectionStatus (isConnected S)) S"

definition setP2PNetworkConnected :: "connectionManager \<Rightarrow> connectionManager" where
  "setP2PNetworkConnected S =
     (if \<not> cm_networkConnected S then dispatchWakuConnectionEvent (S\<lparr>cm_networkConnected := True\<rparr>) else S)"

definition setP2PNetworkDisconnected :: "connectionManager \<Rightarrow> connectionManager" where
  "setP2PNetworkDisconnected S =
     (if cm_networkConnected S \<and> cm_connections S = []
      then dispatchWakuConnectionEvent (S\<lparr>cm_networkConnected := False\<rparr>) else S)"

definition dropConnection :: "peerRef \<Rightarrow> connectionManager \<Rightarrow> connectionManager" where
  "dropConnection p S = S\<lparr>cm_keepAlive := keepAlive_stop p (cm_keepAlive S)\<rparr>"

definition onPeerConnect :: "cmEnv \<Rightarrow> peerRef \<Rightarrow> connectionManager \<Rightarrow> connectionManager" where
  "onPeerConnect E p S =
     (case startKeepAlive E p S of
        (K, Inl e) \<Rightarrow> newTask (Rejected e) (S\<lparr>cm_keepAlive := K\<rparr>)
      | (K, Inr _) \<Rightarrow> newTask (ConnectTags p) (S\<lparr>cm_keepAlive := K\<rparr>))"

definition onPeerConnect_tags :: "cmEnv \<Rightarrow> nat \<Rightarrow> peerRef \<Rightarrow> connectionManager \<Rightarrow> connectionManager" where
  "onPeerConnect_tags E t p S =
     (if BOOTSTRAP \<in> set (getTagNamesForPeer (pr_str p) S)
      then (if bootstrapConnections S > co_maxBootstrapPeersAllowed (ce_options E)
            then setTask t (Dropping p) (dropConnection p S)
            else setTask t (Resolved None) (setP2PNetworkConnected (emit (PeerConnectBootstrap (pr_str p)) S)))
      else setTask t (Resolved None) (setP2PNetworkConnected (emit (PeerConnectPeerExchange (pr_str p)) S)))"

definition onPeerDisconnect :: "peerRef \<Rightarrow> connectionManager \<Rightarrow> connectionManager" where
  "onPeerDisconnect p S = setP2PNetworkDisconnected (S\<lparr>cm_keepAlive := keepAlive_stop p (cm_keepAlive S)\<rparr>)"

definition dispatchDiscoveryEvent :: "peerRef \<Rightarrow> connectionManager \<Rightarrow> connectionManager" where
  "dispatchDiscoveryEvent p S =
     emit (if BOOTSTRAP \<in> set (getTagNamesForPeer (pr_str p) S)
           then PeerDiscoveryBootstrap (pr_str p) else PeerDiscoveryPeerExchange (pr_str p)) S"

definition onPeerDiscovery_tags :: "nat \<Rightarrow> peerRef \<Rightarrow> connectionManager \<Rightarrow> connectionManager" where
  "onPeerDiscovery_tags t p S =
     setTask t (attemptDial_begin p S) (dispatchDiscoveryEvent p S)"

definition cm_stop :: "connectionManager \<Rightarrow> connectionManager" where
  "cm_stop S = S\<lparr>cm_keepAlive := keepAlive_stopAll (cm_keepAlive S), cm_listening := False\<rparr>"

text \<open>The peers of the store that have no connection under the very same \<open>PeerId\<close> object are dialled.\<close>

definition dialPeerStorePeers :: "peerRef list \<Rightarrow> connectionManager \<Rightarrow> connectionManager" where
  "dialPeerStorePeers peerInfos S =
     fold (\<lambda>p S. if \<exists>c \<in> set (cm_connections S). pr_object (cc_remotePeer c) = pr_object p then S
                 else newTask (attemptDial_begin p S) S) peerInfos S"

section \<open>Queries\<close>

definition storedOf :: "connectionManager \<Rightarrow> string list \<Rightarrow> (string \<times> storedPeer) list" where
  "storedOf S ids = List.map_filter (\<lambda>p. map_option (Pair p) (jm_get (cm_store S) p)) ids"

text \<open>
  \<open>getConnectedPeers\<close>: \<open>sort\<close> is stable. When some ping is \<open>NaN\<close> the comparison is not consistent and
  ECMAScript leaves the order open: \<open>anyOrder\<close> stands for it.
\<close>

definition getConnectedPeers ::
  "cmEnv \<Rightarrow> ((string \<times> storedPeer) list \<Rightarrow> (string \<times> storedPeer) list) \<Rightarrow> string option \<Rightarrow> string list \<Rightarrow>
     connectionManager \<Rightarrow> (string \<times> storedPeer) list" where
  "getConnectedPeers E anyOrder multicodec peerIDs S =
     (let peers = filter (\<lambda>(_, peer). case multicodec of None \<Rightarrow> True | Some c \<Rightarrow> c = [] \<or> c \<in> set (sp_protocols peer))
                    (storedOf S peerIDs);
          ping = (\<lambda>(_, peer). getPeerPing (ce_bytesToUtf8 E) (Some (sp_ping peer)))
      in if \<forall>x \<in> set peers. ping x \<noteq> None then sort_key (\<lambda>x. the (ping x)) peers else anyOrder peers)"

record 'a byDiscovery =
  bd_bootstrap :: "'a list"
  bd_peerExchange :: "'a list"
  bd_local :: "'a list"

text \<open>The \<open>if\<close>/\<open>else if\<close> cascade of \<open>getPeersByDiscovery\<close> on one list of peers.\<close>

fun classifyPeers :: "(string \<Rightarrow> string list) \<Rightarrow> string list \<Rightarrow> string byDiscovery \<Rightarrow> string byDiscovery" where
  "classifyPeers tagsOf [] B = B"
| "classifyPeers tagsOf (p # ps) B =
     classifyPeers tagsOf ps
       (if BOOTSTRAP \<in> set (tagsOf p) then B\<lparr>bd_bootstrap := bd_bootstrap B @ [p]\<rparr>
        else if PEER_EXCHANGE \<in> set (tagsOf p) then B\<lparr>bd_peerExchange := bd_peerExchange B @ [p]\<rparr>
        else if LOCAL \<in> set (tagsOf p) then B\<lparr>bd_local := bd_local B @ [p]\<rparr>
        else B)"

definition noPeers :: "string byDiscovery" where
  "noPeers = \<lparr>bd_bootstrap = [], bd_peerExchange = [], bd_local = []\<rparr>"

text \<open>A connected peer that the store does not know makes \<open>peerStore.get\<close> throw.\<close>

definition getPeersByDiscovery :: "connectionManager \<Rightarrow> (string byDiscovery \<times> string byDiscovery) res" where
  "getPeersByDiscovery S =
     (let connected = map (\<lambda>c. pr_str (cc_remotePeer c)) (cm_connections S);
          tagsOf = (\<lambda>p. getTagNamesForPeer p S)
      in if \<forall>p \<in> set connected. jm_get (cm_store S) p \<noteq> None
         then Inr (classifyPeers tagsOf (jm_keys (cm_store S)) noPeers, classifyPeers tagsOf connected noPeers)
         else Inl (Error ''NotFound''))"

section \<open>Runs\<close>

datatype cmEvent =
    CallAttemptDial peerRef
  | CallDialPeer dialInput
  | DialStored "peerRef list"
  | DropConnection peerRef
  | StopManager
  | Discovered peerRef
  | PeerConnected peerRef
  | PeerDisconnected peerRef
  | BrowserNetwork bool
  | Network "cmConn list" "(string, storedPeer) jsmap"
  | Resume nat
  | DialOk nat peerRef
  | DialFails nat string
  | CleanupFails nat

text \<open>What a call does when its \<open>await\<close> returns.\<close>

fun resumeTask :: "cmEnv \<Rightarrow> nat \<Rightarrow> task \<Rightarrow> connectionManager \<Rightarrow> connectionManager" where
  "resumeTask E t (ShardCheck p) S =
     setTask t (case isPeerTopicConfigured E (pr_str p) S of
                  Inl e \<Rightarrow> Rejected e
                | Inr same \<Rightarrow> if same then BootstrapCheck p else Resolved None) S"
| "resumeTask E t (BootstrapCheck p) S =
     setTask t (if isPeerDialableBasedOnBootstrapStatus E (pr_str p) S then AttemptsCheck p else Resolved None) S"
| "resumeTask E t (AttemptsCheck p) S =
     setTask t (if jm_has (cm_dialAttempts S) (pr_str p) then Resolved None else Admitted p) S"
| "resumeTask E t (Admitted p) S = attemptDial_admitted E t p S"
| "resumeTask E t (Tagging key dialAttempt auto q) S = dial_connected E t key dialAttempt auto q S"
| "resumeTask E t (Cleanup key conn) S =
     attemptDnsDiscovery_begin t key conn
       (case conn of None \<Rightarrow> S | Some q \<Rightarrow> S\<lparr>cm_store := jm_delete (pr_str q) (cm_store S)\<rparr>)"
| "resumeTask E t (Discover key conn) S = attemptDnsDiscovery_end E t conn S"
| "resumeTask E t (DiscoveryTags p) S = onPeerDiscovery_tags t p S"
| "resumeTask E t (ConnectTags p) S = onPeerConnect_tags E t p S"
| "resumeTask E t (Dropping p) S = setTask t (Resolved None) (setP2PNetworkConnected S)"
| "resumeTask E t _ S = S"

definition taskAt :: "nat \<Rightarrow> connectionManager \<Rightarrow> task" where
  "taskAt t S = (if t < length (cm_tasks S) then cm_tasks S ! t else Resolved None)"

fun cmExec :: "cmEnv \<Rightarrow> cmEvent \<Rightarrow> connectionManager \<Rightarrow> connectionManager" where
  "cmExec E (CallAttemptDial p) S = newTask (attemptDial_begin p S) S"
| "cmExec E (CallDialPeer peer) S = dialPeer_begin E (length (cm_tasks S)) peer False (newTask (Resolved None) S)"
| "cmExec E (DialStored ps) S = dialPeerStorePeers ps S"
| "cmExec E (DropConnection p) S = dropConnection p S"
| "cmExec E StopManager S = cm_stop S"
| "cmExec E (Discovered p) S = (if cm_listening S then newTask (DiscoveryTags p) S else S)"
| "cmExec E (PeerConnected p) S = (if cm_listening S then onPeerConnect E p S else S)"
| "cmExec E (PeerDisconnected p) S = (if cm_listening S then onPeerDisconnect p S else S)"
| "cmExec E (BrowserNetwork b) S =
     (let S1 = S\<lparr>cm_onLine := Some b\<rparr> in if cm_listening S then dispatchWakuConnectionEvent S1 else S1)"
| "cmExec E (Network conns store) S = S\<lparr>cm_connections := conns, cm_store := store\<rparr>"
| "cmExec E (Resume t) S = resumeTask E t (taskAt t S) S"
| "cmExec E (DialOk t q) S =
     (case taskAt t S of Dialing key n auto _ \<Rightarrow> setTask t (Tagging key n auto q) S | _ \<Rightarrow> S)"
| "cmExec E (DialFails t err) S =
     (case taskAt t S of Dialing key n auto conn \<Rightarrow> dialAttempt_failed E t key n auto conn err S | _ \<Rightarrow> S)"
| "cmExec E (CleanupFails t) S =
     (case taskAt t S of
        Cleanup key conn \<Rightarrow> setTask t (Rejected (Error ''Error deleting undialable peer'')) S
      | Discover key conn \<Rightarrow> setTask t (Rejected (Error ''Error deleting undialable peer'')) S
      | _ \<Rightarrow> S)"

section \<open>Lemmas\<close>

fun isDialing :: "task \<Rightarrow> bool" where
  "isDialing (Dialing _ _ _ _) = True"
| "isDialing (Tagging _ _ _ _) = True"
| "isDialing _ = False"

fun isAutoDial :: "task \<Rightarrow> bool" where
  "isAutoDial (Dialing _ _ auto _) = auto"
| "isAutoDial (Tagging _ _ auto _) = auto"
| "isAutoDial _ = False"

fun attemptsOf :: "task \<Rightarrow> nat" where
  "attemptsOf (Dialing _ n _ _) = n"
| "attemptsOf (Tagging _ n _ _) = n"
| "attemptsOf _ = 0"

text \<open>The dials counted, the dials that \<open>attemptDial\<close> started, the attempts of each dial and of each peer.\<close>

definition cmBounds :: "cmEnv \<Rightarrow> connectionManager \<Rightarrow> bool" where
  "cmBounds E S \<longleftrightarrow>
     (\<forall>k \<in> set (cm_tasks S). isDialing k \<longrightarrow> attemptsOf k < co_maxDialAttemptsForPeer (ce_options E)) \<and>
     (\<forall>p n. jm_get (cm_dialAttempts S) p = Some n \<longrightarrow> - 1 \<le> n \<and> n \<le> int (co_maxDialAttemptsForPeer (ce_options E)))"

definition cmInv :: "cmEnv \<Rightarrow> connectionManager \<Rightarrow> bool" where
  "cmInv E S \<longleftrightarrow>
     cm_active S = cnt isDialing (cm_tasks S) \<and>
     cnt isAutoDial (cm_tasks S) \<le> max 0 (co_maxParallelDials (ce_options E)) \<and>
     cmBounds E S"

lemma set_update_task: "t < length xs \<Longrightarrow> (\<forall>k \<in> set xs. P k) \<Longrightarrow> P x \<Longrightarrow> (\<forall>k \<in> set (xs[t := x]). P k)"
  using set_update_subset_insert [of xs t x] by blast

lemma isAutoDial_isDialing: "\<not> isDialing k \<Longrightarrow> \<not> isAutoDial k"
  by (cases k) auto

lemma attemptDial_begin_idle [simp]: "\<not> isDialing (attemptDial_begin p S)"
  by (simp add: attemptDial_begin_def)

lemma dialResult_idle [simp]: "\<not> isDialing (dialResult conn)"
  by (simp add: dialResult_def split: option.split)

lemma cmInv_newTask: "cmInv E S \<Longrightarrow> \<not> isDialing k \<Longrightarrow> cmInv E (newTask k S)"
  by (auto simp: cmInv_def cmBounds_def newTask_def isAutoDial_isDialing)

lemma cmInv_setTask:
  "cmInv E S \<Longrightarrow> t < length (cm_tasks S) \<Longrightarrow> \<not> isDialing (cm_tasks S ! t) \<Longrightarrow> \<not> isDialing k \<Longrightarrow> cmInv E (setTask t k S)"
  unfolding cmInv_def cmBounds_def setTask_def
  by (auto simp: cnt_update isAutoDial_isDialing dest!: subsetD [OF set_update_subset_insert])

text \<open>Parts of the state that the invariant does not look at.\<close>

lemma cmInv_irrelevant [simp]:
  "cmInv E (S\<lparr>cm_queue := q\<rparr>) = cmInv E S"
  "cmInv E (S\<lparr>cm_dialErrors := d\<rparr>) = cmInv E S"
  "cmInv E (S\<lparr>cm_networkConnected := b\<rparr>) = cmInv E S"
  "cmInv E (S\<lparr>cm_keepAlive := K\<rparr>) = cmInv E S"
  "cmInv E (S\<lparr>cm_emitted := es\<rparr>) = cmInv E S"
  "cmInv E (S\<lparr>cm_connections := cs\<rparr>) = cmInv E S"
  "cmInv E (S\<lparr>cm_store := st\<rparr>) = cmInv E S"
  "cmInv E (S\<lparr>cm_onLine := l\<rparr>) = cmInv E S"
  "cmInv E (S\<lparr>cm_listening := b\<rparr>) = cmInv E S"
  by (simp_all add: cmInv_def cmBounds_def)

lemma cmInv_emit [simp]: "cmInv E (emit e S) = cmInv E S"
  by (simp add: emit_def)

lemma cmInv_network [simp]:
  "cmInv E (setP2PNetworkConnected S) = cmInv E S"
  "cmInv E (setP2PNetworkDisconnected S) = cmInv E S"
  "cmInv E (dispatchWakuConnectionEvent S) = cmInv E S"
  "cmInv E (dropConnection p S) = cmInv E S"
  by (simp_all add: setP2PNetworkConnected_def setP2PNetworkDisconnected_def dispatchWakuConnectionEvent_def dropConnection_def)

lemma tasks_network [simp]:
  "cm_tasks (setP2PNetworkConnected S) = cm_tasks S"
  "cm_tasks (dropConnection p S) = cm_tasks S"
  "cm_tasks (emit e S) = cm_tasks S"
  by (simp_all add: setP2PNetworkConnected_def dispatchWakuConnectionEvent_def dropConnection_def emit_def)

lemma cmInv_processDialQueue: "cmInv E S \<Longrightarrow> cmInv E (processDialQueue E S)"
  by (simp add: processDialQueue_def cmInv_newTask split: list.split)

lemma processDialQueue_tasks:
  "t < length (cm_tasks S) \<Longrightarrow> t < length (cm_tasks (processDialQueue E S)) \<and> cm_tasks (processDialQueue E S) ! t = cm_tasks S ! t"
  by (auto simp: processDialQueue_def newTask_def nth_append split: list.split)

lemma processDialQueue_setTask:
  "t < length (cm_tasks S) \<Longrightarrow> processDialQueue E (setTask t k S) = setTask t k (processDialQueue E S)"
  by (auto simp: processDialQueue_def newTask_def setTask_def attemptDial_begin_def connectionsOf_def
      list_update_append split: list.split)

lemma setTask_setTask [simp]: "setTask t k (setTask t k' S) = setTask t k S"
  by (simp add: setTask_def)

lemma setTask_tasks [simp]:
  "length (cm_tasks (setTask t k S)) = length (cm_tasks S)"
  "t < length (cm_tasks S) \<Longrightarrow> cm_tasks (setTask t k S) ! t = k"
  by (simp_all add: setTask_def)

text \<open>
  The task \<open>t\<close> is inside the loop of \<open>dialPeer\<close>: its dial is counted, and the invariant holds once the
  task is put aside.
\<close>

definition inDial :: "cmEnv \<Rightarrow> nat \<Rightarrow> connectionManager \<Rightarrow> bool" where
  "inDial E t S \<longleftrightarrow> t < length (cm_tasks S) \<and>
     cmInv E (setTask t (Resolved None) (S\<lparr>cm_active := cm_active S - 1\<rparr>))"

lemma attemptDnsDiscovery_begin_inv:
  "t < length (cm_tasks S) \<Longrightarrow> cmInv E (setTask t (Resolved None) S) \<Longrightarrow>
     cmInv E (attemptDnsDiscovery_begin t key conn S)"
  using cmInv_setTask [of E "setTask t (Resolved None) S" t] by (auto simp: attemptDnsDiscovery_begin_def)

lemma dialLoop_exit_inv:
  assumes "inDial E t S"
  shows "cmInv E (dialLoop_exit E t key n conn S)"
proof -
  define S0 where "S0 = S\<lparr>cm_active := cm_active S - 1\<rparr>"
  define S1 where "S1 = processDialQueue E S0"
  have len: "t < length (cm_tasks S0)" "t < length (cm_tasks S1)"
    using assms processDialQueue_tasks by (auto simp: inDial_def S0_def S1_def)
  have "cmInv E (processDialQueue E (setTask t (Resolved None) S0))"
    using assms by (simp add: inDial_def S0_def cmInv_processDialQueue)
  then have S1: "cmInv E (setTask t (Resolved None) S1)"
    using len by (simp add: S1_def processDialQueue_setTask)
  have idle: "cmInv E (setTask t k S1)" if "\<not> isDialing k" for k
    using cmInv_setTask [OF S1, of t k] that len by simp
  have S2: "setTask t k (S1\<lparr>cm_dialErrors := d\<rparr>) = (setTask t k S1)\<lparr>cm_dialErrors := d\<rparr>" for k d
    by (simp add: setTask_def)
  have "cmInv E (attemptDnsDiscovery_begin t key conn (S1\<lparr>cm_dialErrors := d\<rparr>))" for conn d
    using S1 len by (intro attemptDnsDiscovery_begin_inv) (simp_all add: S2)
  then show ?thesis
    unfolding dialLoop_exit_def Let_def S0_def [symmetric] unfolding S1_def [symmetric]
    by (simp add: idle S2)
qed

lemma dialLoop_inv:
  assumes "inDial E t S" and "auto \<Longrightarrow> cnt isAutoDial (cm_tasks (setTask t (Resolved None) S)) < co_maxParallelDials (ce_options E)"
  shows "cmInv E (dialLoop E t key n auto conn S)"
proof (cases "n < co_maxDialAttemptsForPeer (ce_options E)")
  case False
  then show ?thesis using assms(1) by (simp add: dialLoop_def dialLoop_exit_inv)
next
  case True
  have t: "t < length (cm_tasks S)" using assms(1) by (simp add: inDial_def)
  have bounds: "cmBounds E (setTask t (Resolved None) S)"
    using assms(1) by (simp add: inDial_def cmInv_def cmBounds_def setTask_def)
  have "cmBounds E (setTask t (Dialing key n auto conn) S)"
    using bounds True set_update_task [of t "(cm_tasks S)[t := Resolved None]"
        "\<lambda>k. isDialing k \<longrightarrow> attemptsOf k < co_maxDialAttemptsForPeer (ce_options E)" "Dialing key n auto conn"] t
    by (simp add: cmBounds_def setTask_def)
  then show ?thesis
    using assms True t by (auto simp: dialLoop_def cmInv_def inDial_def setTask_def cnt_update)
qed

text \<open>The three ways into the loop: a new call, a failed attempt, a connection.\<close>

lemma inDial_fields [simp]:
  "inDial E t (S\<lparr>cm_dialErrors := d\<rparr>) = inDial E t S"
  "inDial E t (S\<lparr>cm_keepAlive := K\<rparr>) = inDial E t S"
  "inDial E t (S\<lparr>cm_connections := cs\<rparr>) = inDial E t S"
  by (simp_all add: inDial_def setTask_def cmInv_def cmBounds_def)

lemma inDial_attempts:
  "inDial E t S \<Longrightarrow> - 1 \<le> n \<Longrightarrow> n \<le> int (co_maxDialAttemptsForPeer (ce_options E)) \<Longrightarrow>
     inDial E t (S\<lparr>cm_dialAttempts := jm_set p n (cm_dialAttempts S)\<rparr>)"
  by (auto simp: inDial_def setTask_def cmInv_def cmBounds_def)

lemma inDial_of_dialing:
  assumes "cmInv E S" and "t < length (cm_tasks S)" and "isDialing (cm_tasks S ! t)"
  shows "inDial E t S"
proof -
  have "\<forall>k \<in> set ((cm_tasks S)[t := Resolved None]). isDialing k \<longrightarrow> attemptsOf k < co_maxDialAttemptsForPeer (ce_options E)"
    using assms by (intro set_update_task) (auto simp: cmInv_def cmBounds_def)
  then show ?thesis
    using assms by (auto simp: inDial_def setTask_def cmInv_def cmBounds_def cnt_update)
qed

lemma inDial_begin:
  assumes "cmInv E S" and "t < length (cm_tasks S)" and "\<not> isDialing (cm_tasks S ! t)"
  shows "inDial E t (S\<lparr>cm_active := cm_active S + 1\<rparr>)"
  using cmInv_setTask [OF assms(1,2,3), of "Resolved None"] assms(2) by (simp add: inDial_def setTask_def)

lemma auto_others:
  assumes "cmInv E S" and "t < length (cm_tasks S)" and "isAutoDial (cm_tasks S ! t)"
  shows "cnt isAutoDial (cm_tasks (setTask t (Resolved None) S)) < max 0 (co_maxParallelDials (ce_options E))"
  using assms by (auto simp: cmInv_def setTask_def cnt_update)

lemma dialAttempt_failed_inv:
  assumes "inDial E t S" and "n < co_maxDialAttemptsForPeer (ce_options E)"
    and "auto \<Longrightarrow> cnt isAutoDial (cm_tasks (setTask t (Resolved None) S)) < co_maxParallelDials (ce_options E)"
  shows "cmInv E (dialAttempt_failed E t key n auto conn err S)"
  unfolding dialAttempt_failed_def
proof (rule dialLoop_inv)
  show "inDial E t (S\<lparr>cm_dialErrors := jm_set key err (cm_dialErrors S),
      cm_dialAttempts := jm_set key (int (n + 1)) (cm_dialAttempts S)\<rparr>)"
    using inDial_attempts [of E t "S\<lparr>cm_dialErrors := jm_set key err (cm_dialErrors S)\<rparr>" "int (n + 1)" key] assms(1,2)
    by simp
qed (use assms(3) in \<open>simp add: setTask_def\<close>)

lemma dialPeer_begin_inv:
  assumes "cmInv E S" and "t < length (cm_tasks S)" and "\<not> isDialing (cm_tasks S ! t)"
    and "auto \<Longrightarrow> cm_active S < co_maxParallelDials (ce_options E)"
  shows "cmInv E (dialPeer_begin E t peer auto S)"
proof (cases "getDialablePeerInfo E peer")
  case (Inl e)
  with assms(1-3) show ?thesis by (simp add: dialPeer_begin_def cmInv_setTask)
next
  case (Inr key)
  have "cnt isAutoDial (cm_tasks S) \<le> cm_active S"
    using assms(1) cnt_mono [of isAutoDial isDialing] isAutoDial_isDialing by (auto simp: cmInv_def)
  then have "auto \<Longrightarrow> cnt isAutoDial (cm_tasks (setTask t (Resolved None) S)) < co_maxParallelDials (ce_options E)"
    using assms(2-4) isAutoDial_isDialing by (auto simp: setTask_def cnt_update)
  then show ?thesis
    using Inr inDial_begin [OF assms(1-3)]
    by (auto simp: dialPeer_begin_def setTask_def intro!: dialLoop_inv)
qed

lemma dial_connected_inv:
  assumes "cmInv E S" and "t < length (cm_tasks S)" and "cm_tasks S ! t = Tagging key n auto q'"
  shows "cmInv E (dial_connected E t key n auto q S)"
proof -
  define S1 where "S1 = S\<lparr>cm_connections := tagConnections (pr_str q) (getTagNamesForPeer (pr_str q) S) (cm_connections S),
      cm_dialAttempts := jm_set (pr_str q) (- 1) (cm_dialAttempts S)\<rparr>"
  have n: "n < co_maxDialAttemptsForPeer (ce_options E)"
    using assms nth_mem [OF assms(2)] unfolding cmInv_def cmBounds_def by fastforce
  have "inDial E t S" using assms by (simp add: inDial_of_dialing)
  then have S1: "inDial E t S1"
    using inDial_attempts [of E t "S\<lparr>cm_connections := _\<rparr>"] by (simp add: S1_def)
  have auto: "auto \<Longrightarrow> cnt isAutoDial (cm_tasks (setTask t (Resolved None) S)) < co_maxParallelDials (ce_options E)"
    using auto_others [OF assms(1,2)] assms(3) cnt_nonneg [of isAutoDial "cm_tasks (setTask t (Resolved None) S)"] by auto
  have failed: "cmInv E (dialAttempt_failed E t key n auto (Some q) err (S1\<lparr>cm_keepAlive := K\<rparr>))" for err K
    using S1 n auto by (intro dialAttempt_failed_inv) (simp_all add: setTask_def S1_def)
  show ?thesis
    unfolding dial_connected_def Let_def S1_def [symmetric]
    using failed S1 by (simp add: dialLoop_exit_inv split: prod.split sum.split)
qed

lemma resumeTask_inv:
  assumes "cmInv E S" and "t < length (cm_tasks S)" and "cm_tasks S ! t = k"
  shows "cmInv E (resumeTask E t k S)"
proof (cases "isDialing k")
  case True
  then show ?thesis using assms by (cases k) (auto intro: dial_connected_inv)
next
  case False
  have set: "cmInv E (setTask t k' S')" if "cmInv E S'" "cm_tasks S' = cm_tasks S" "\<not> isDialing k'" for k' S'
    using that assms False by (intro cmInv_setTask) auto
  have dns: "cmInv E (attemptDnsDiscovery_begin t key conn S')" if "cmInv E S'" "cm_tasks S' = cm_tasks S" for key conn S'
    using that set assms by (intro attemptDnsDiscovery_begin_inv) auto
  show ?thesis
    using assms False
    by (cases k) (auto simp: set dns attemptDial_admitted_def attemptDnsDiscovery_end_def onPeerDiscovery_tags_def dispatchDiscoveryEvent_def Let_def
        onPeerConnect_tags_def intro!: dialPeer_begin_inv split: sum.split option.split)
qed

lemma newTask_tasks [simp]: "cm_tasks (newTask k S) = cm_tasks S @ [k]"
  by (simp add: newTask_def)

lemma taskAt_dialing: "taskAt t S = k \<Longrightarrow> k \<noteq> Resolved None \<Longrightarrow> t < length (cm_tasks S) \<and> cm_tasks S ! t = k"
  by (auto simp: taskAt_def split: if_splits)

lemma cmExec_dial_inv:
  assumes "cmInv E S" and "taskAt t S = Dialing key n auto conn"
  shows "cmInv E (setTask t (Tagging key n auto q) S)" and "cmInv E (dialAttempt_failed E t key n auto conn err S)"
proof -
  have t: "t < length (cm_tasks S)" "cm_tasks S ! t = Dialing key n auto conn" using taskAt_dialing assms(2) by auto
  have n: "n < co_maxDialAttemptsForPeer (ce_options E)"
    using assms(1) t nth_mem [OF t(1)] unfolding cmInv_def cmBounds_def by fastforce
  have "\<forall>k \<in> set ((cm_tasks S)[t := Tagging key n auto q]). isDialing k \<longrightarrow> attemptsOf k < co_maxDialAttemptsForPeer (ce_options E)"
    using assms(1) t n by (intro set_update_task) (auto simp: cmInv_def cmBounds_def)
  then show "cmInv E (setTask t (Tagging key n auto q) S)"
    using assms(1) t by (auto simp: setTask_def cmInv_def cmBounds_def cnt_update)
  have "auto \<Longrightarrow> cnt isAutoDial (cm_tasks (setTask t (Resolved None) S)) < co_maxParallelDials (ce_options E)"
    using auto_others [OF assms(1) t(1)] t cnt_nonneg [of isAutoDial "cm_tasks (setTask t (Resolved None) S)"] by auto
  then show "cmInv E (dialAttempt_failed E t key n auto conn err S)"
    using assms(1) t n by (intro dialAttempt_failed_inv inDial_of_dialing) simp_all
qed

lemma dialPeerStorePeers_inv: "cmInv E S \<Longrightarrow> cmInv E (dialPeerStorePeers ps S)"
  unfolding dialPeerStorePeers_def by (induction ps arbitrary: S) (auto simp: cmInv_newTask)

interpretation connectionManagers: event_system "\<lambda>S. S = newConnectionManager" "cmExec E" "cmInv E" for E
proof
  fix S and e
  show "S = newConnectionManager \<Longrightarrow> cmInv E S" by (simp add: cmInv_def cmBounds_def newConnectionManager_def cnt_def)
  assume inv: "cmInv E S"
  show "cmInv E (cmExec E e S)"
  proof (cases e)
    case (CallDialPeer peer)
    have "cmInv E (newTask (Resolved None) S)" using inv by (rule cmInv_newTask) simp
    with CallDialPeer show ?thesis by (auto intro!: dialPeer_begin_inv simp: nth_append)
  next
    case (Resume t)
    have "resumeTask E t (Resolved None) S = S" by simp
    with Resume inv show ?thesis by (auto simp: taskAt_def intro: resumeTask_inv)
  next
    case (CleanupFails t)
    then show ?thesis using inv taskAt_dialing [of t S] by (auto intro!: cmInv_setTask split: task.split)
  qed (use inv in \<open>auto simp: dialPeerStorePeers_inv cm_stop_def onPeerConnect_def onPeerDisconnect_def Let_def
        cmExec_dial_inv intro!: cmInv_newTask split: prod.split sum.split task.split\<close>)
qed

text \<open>A peer with a recorded attempt, and no task that has been cleared to dial it.\<close>

fun dialsPeer :: "string \<Rightarrow> task \<Rightarrow> bool" where
  "dialsPeer p (Admitted r) = (pr_str r = p)"
| "dialsPeer p (Dialing key _ _ _) = (key = p)"
| "dialsPeer p (Tagging key _ _ _) = (key = p)"
| "dialsPeer p _ = False"

definition settledPeer :: "string \<Rightarrow> connectionManager \<Rightarrow> bool" where
  "settledPeer p S \<longleftrightarrow> jm_has (cm_dialAttempts S) p \<and> list_all (\<lambda>k. \<not> dialsPeer p k) (cm_tasks S)"

fun dialsDirectly :: "cmEnv \<Rightarrow> string \<Rightarrow> cmEvent \<Rightarrow> bool" where
  "dialsDirectly E p (CallDialPeer peer) = (getDialablePeerInfo E peer = Inr p)"
| "dialsDirectly E p _ = False"

named_theorems settled_intros \<open>operations that keep a settled peer settled\<close>

lemma settled_fields [simp]:
  "settledPeer p (S\<lparr>cm_queue := q\<rparr>) = settledPeer p S"
  "settledPeer p (S\<lparr>cm_active := a\<rparr>) = settledPeer p S"
  "settledPeer p (S\<lparr>cm_dialErrors := d\<rparr>) = settledPeer p S"
  "settledPeer p (S\<lparr>cm_networkConnected := b\<rparr>) = settledPeer p S"
  "settledPeer p (S\<lparr>cm_keepAlive := K\<rparr>) = settledPeer p S"
  "settledPeer p (S\<lparr>cm_emitted := es\<rparr>) = settledPeer p S"
  "settledPeer p (S\<lparr>cm_connections := cs\<rparr>) = settledPeer p S"
  "settledPeer p (S\<lparr>cm_store := st\<rparr>) = settledPeer p S"
  "settledPeer p (S\<lparr>cm_onLine := l\<rparr>) = settledPeer p S"
  "settledPeer p (S\<lparr>cm_listening := b\<rparr>) = settledPeer p S"
  by (simp_all add: settledPeer_def)

lemma settled_network [simp]:
  "settledPeer p (emit e S) = settledPeer p S"
  "settledPeer p (setP2PNetworkConnected S) = settledPeer p S"
  "settledPeer p (setP2PNetworkDisconnected S) = settledPeer p S"
  "settledPeer p (dispatchWakuConnectionEvent S) = settledPeer p S"
  "settledPeer p (dropConnection q S) = settledPeer p S"
  by (simp_all add: setP2PNetworkConnected_def setP2PNetworkDisconnected_def dispatchWakuConnectionEvent_def
      dropConnection_def emit_def)

lemma settled_attempts: "settledPeer p S \<Longrightarrow> settledPeer p (S\<lparr>cm_dialAttempts := jm_set q n (cm_dialAttempts S)\<rparr>)"
  by (simp add: settledPeer_def jm_has_def)

lemma settled_newTask [settled_intros]: "settledPeer p S \<Longrightarrow> \<not> dialsPeer p k \<Longrightarrow> settledPeer p (newTask k S)"
  by (simp add: settledPeer_def newTask_def)

lemma settled_setTask [settled_intros]: "settledPeer p S \<Longrightarrow> \<not> dialsPeer p k \<Longrightarrow> settledPeer p (setTask t k S)"
  unfolding settledPeer_def setTask_def list_all_iff using set_update_subset_insert [of "cm_tasks S" t k] by auto

lemma quiet_tasks [simp]: "\<not> dialsPeer p (attemptDial_begin q S)" "\<not> dialsPeer p (dialResult conn)"
  by (simp_all add: attemptDial_begin_def dialResult_def split: option.split)

lemma settled_processDialQueue [settled_intros]: "settledPeer p S \<Longrightarrow> settledPeer p (processDialQueue E S)"
  by (simp add: processDialQueue_def settled_newTask split: list.split)

lemma settled_dns [settled_intros]: "settledPeer p S \<Longrightarrow> settledPeer p (attemptDnsDiscovery_begin t key conn S)"
  by (simp add: attemptDnsDiscovery_begin_def settled_setTask)

lemma settled_dialLoop_exit [settled_intros]: "settledPeer p S \<Longrightarrow> settledPeer p (dialLoop_exit E t key n conn S)"
  by (simp add: dialLoop_exit_def Let_def settled_intros)

lemma settled_dialLoop [settled_intros]:
  "settledPeer p S \<Longrightarrow> key \<noteq> p \<Longrightarrow> settledPeer p (dialLoop E t key n auto conn S)"
  by (simp add: dialLoop_def settled_intros)

lemma settled_dialAttempt_failed [settled_intros]:
  "settledPeer p S \<Longrightarrow> key \<noteq> p \<Longrightarrow> settledPeer p (dialAttempt_failed E t key n auto conn err S)"
  using settled_attempts [of p "S\<lparr>cm_dialErrors := jm_set key err (cm_dialErrors S)\<rparr>"]
  by (simp add: dialAttempt_failed_def settled_dialLoop)

lemma settled_dialPeer_begin [settled_intros]:
  "settledPeer p S \<Longrightarrow> getDialablePeerInfo E peer \<noteq> Inr p \<Longrightarrow> settledPeer p (dialPeer_begin E t peer auto S)"
  by (auto simp: dialPeer_begin_def intro!: settled_intros split: sum.split)

lemma settled_dial_connected [settled_intros]:
  "settledPeer p S \<Longrightarrow> key \<noteq> p \<Longrightarrow> settledPeer p (dial_connected E t key n auto q S)"
  using settled_attempts [of p "S\<lparr>cm_connections := _\<rparr>"]
  by (auto simp: dial_connected_def Let_def intro!: settled_intros split: prod.split sum.split)

lemma settled_task: "settledPeer p S \<Longrightarrow> \<not> dialsPeer p (taskAt t S)"
  by (auto simp: settledPeer_def taskAt_def list_all_length)

lemma settled_resume: "settledPeer p S \<Longrightarrow> \<not> dialsPeer p k \<Longrightarrow> settledPeer p (resumeTask E t k S)"
  by (cases k) (auto simp: attemptDial_admitted_def attemptDnsDiscovery_end_def onPeerDiscovery_tags_def dispatchDiscoveryEvent_def Let_def
      onPeerConnect_tags_def getDialablePeerInfo_def settledPeer_def [of p S] intro!: settled_intros split: sum.split option.split)

lemma settled_dialPeerStorePeers: "settledPeer p S \<Longrightarrow> settledPeer p (dialPeerStorePeers ps S)"
  unfolding dialPeerStorePeers_def by (induction ps arbitrary: S) (auto simp: settled_newTask)

lemma settled_exec: "settledPeer p S \<Longrightarrow> \<not> dialsDirectly E p e \<Longrightarrow> settledPeer p (cmExec E e S)"
proof (cases e)
  case (Resume t)
  assume "settledPeer p S"
  with Resume show ?thesis by (simp add: settled_resume settled_task)
next
  case (DialOk t q)
  assume "settledPeer p S"
  with DialOk settled_task [of p S t] show ?thesis by (auto intro!: settled_intros split: task.split)
next
  case (DialFails t err)
  assume "settledPeer p S"
  with DialFails settled_task [of p S t] show ?thesis by (auto intro!: settled_intros split: task.split)
qed (auto simp: cm_stop_def onPeerConnect_def onPeerDisconnect_def Let_def settled_dialPeerStorePeers
    intro!: settled_intros split: prod.split sum.split task.split)

text \<open>Failed attempts of one dial, one after the other.\<close>

lemma taskAt_setTask [simp]: "t < length (cm_tasks S) \<Longrightarrow> taskAt t (setTask t k S) = k"
  by (simp add: taskAt_def)

declare runEvents_simps [simp]

definition failures :: "nat \<Rightarrow> string list \<Rightarrow> cmEvent list" where
  "failures t errs = map (DialFails t) errs"

lemma failures_simps [simp]: "failures t [] = []" "failures t (e # es) = DialFails t e # failures t es"
  "failures t (es @ [e]) = failures t es @ [DialFails t e]"
  by (simp_all add: failures_def)

lemma failing_dial:
  "taskAt t S = Dialing key n auto conn \<Longrightarrow> n + length errs < co_maxDialAttemptsForPeer (ce_options E) \<Longrightarrow>
     \<exists>errors attempts.
       runEvents (cmExec E) (failures t errs) S =
         setTask t (Dialing key (n + length errs) auto conn) (S\<lparr>cm_dialErrors := errors, cm_dialAttempts := attempts\<rparr>)"
proof (induction errs rule: rev_induct)
  case Nil
  then have "setTask t (Dialing key n auto conn) S = S"
    using taskAt_dialing [OF Nil(1)] by (simp add: setTask_def list_update_same_conv)
  then show ?case by (intro exI [of _ "cm_dialErrors S"] exI [of _ "cm_dialAttempts S"]) simp
next
  case (snoc err errs)
  then obtain errors attempts where run: "runEvents (cmExec E) (failures t errs) S =
      setTask t (Dialing key (n + length errs) auto conn) (S\<lparr>cm_dialErrors := errors, cm_dialAttempts := attempts\<rparr>)"
    by auto
  have t: "t < length (cm_tasks S)" using taskAt_dialing [OF snoc.prems(1)] by simp
  let ?errors = "jm_set key err errors" and ?attempts = "jm_set key (int (n + length errs + 1)) attempts"
  have "cmExec E (DialFails t err) (runEvents (cmExec E) (failures t errs) S) =
      setTask t (Dialing key (n + length (errs @ [err])) auto conn) (S\<lparr>cm_dialErrors := ?errors, cm_dialAttempts := ?attempts\<rparr>)"
    using snoc.prems t by (simp add: run dialAttempt_failed_def dialLoop_def setTask_def taskAt_def)
  then show ?case by (auto simp: setTask_def)
qed

lemma processDialQueue_fields [simp]:
  "cm_active (processDialQueue E S) = cm_active S"
  "cm_store (processDialQueue E S) = cm_store S"
  "cm_connections (processDialQueue E S) = cm_connections S"
  "cm_dialAttempts (processDialQueue E S) = cm_dialAttempts S"
  "cm_dialErrors (processDialQueue E S) = cm_dialErrors S"
  "cm_keepAlive (processDialQueue E S) = cm_keepAlive S"
  by (simp_all add: processDialQueue_def newTask_def split: list.split)

lemma setTask_fields [simp]:
  "cm_active (setTask t k S) = cm_active S"
  "cm_store (setTask t k S) = cm_store S"
  "cm_connections (setTask t k S) = cm_connections S"
  "cm_dialAttempts (setTask t k S) = cm_dialAttempts S"
  "cm_dialErrors (setTask t k S) = cm_dialErrors S"
  "cm_keepAlive (setTask t k S) = cm_keepAlive S"
  by (simp_all add: setTask_def)

lemma last_failure:
  fixes err :: string
  assumes "taskAt t S = Dialing key n auto None" and "n + 1 = co_maxDialAttemptsForPeer (ce_options E)"
  defines "S' \<equiv> cmExec E (DialFails t err) S"
  shows "cm_active S' = cm_active S - 1" "cm_store S' = cm_store S" "cm_connections S' = cm_connections S"
    "jm_get (cm_dialAttempts S') key = Some (int n + 1)" "jm_get (cm_dialErrors S') key = None"
    "taskAt t S' = (if cm_connections S \<noteq> [] then Rejected (Error ''Failed to dial peer'') else Discover key None)"
  using assms taskAt_dialing [OF assms(1)]
  by (auto simp: S'_def dialAttempt_failed_def dialLoop_def dialLoop_exit_def Let_def attemptDnsDiscovery_begin_def
      dialResult_def processDialQueue_tasks)

lemma startKeepAlive_cong: "cm_keepAlive S = cm_keepAlive S' \<Longrightarrow> startKeepAlive E q S = startKeepAlive E q S'"
  by (simp add: startKeepAlive_def)

lemma connected_dial:
  assumes "taskAt t S = Dialing key n auto conn" and "n < co_maxDialAttemptsForPeer (ce_options E)"
    and "snd (startKeepAlive E q S) = Inr ()"
  defines "S' \<equiv> cmExec E (Resume t) (cmExec E (DialOk t q) S)"
  shows "taskAt t S' = Resolved (Some q)" "cm_active S' = cm_active S - 1"
    "jm_get (cm_dialAttempts S') (pr_str q) = Some (- 1)" "cm_keepAlive S' = fst (startKeepAlive E q S)"
proof -
  have t: "t < length (cm_tasks S)" using taskAt_dialing [OF assms(1)] by simp
  define S1 where "S1 = setTask t (Tagging key n auto q) S"
  define S2 where "S2 = S1\<lparr>cm_connections := tagConnections (pr_str q) (getTagNamesForPeer (pr_str q) S1) (cm_connections S1),
                 cm_dialAttempts := jm_set (pr_str q) (- 1) (cm_dialAttempts S1)\<rparr>"
  have "startKeepAlive E q S2 = startKeepAlive E q S" by (rule startKeepAlive_cong) (simp add: S2_def S1_def)
  then obtain K where K: "startKeepAlive E q S2 = (K, Inr ())" "K = fst (startKeepAlive E q S)"
    using assms(3) by (cases "startKeepAlive E q S") auto
  have "S' = dialLoop_exit E t key n (Some q) (S2\<lparr>cm_keepAlive := K\<rparr>)"
    using assms(1) t K unfolding S'_def by (simp add: S1_def [symmetric] dial_connected_def Let_def S2_def [symmetric])
       (simp add: S1_def S2_def dial_connected_def Let_def)
  then show "taskAt t S' = Resolved (Some q)" "cm_active S' = cm_active S - 1"
    "jm_get (cm_dialAttempts S') (pr_str q) = Some (- 1)" "cm_keepAlive S' = fst (startKeepAlive E q S)"
    using t assms(2) K(2) by (simp_all add: dialLoop_exit_def Let_def dialResult_def processDialQueue_tasks S2_def S1_def)
qed

lemma unstarted_dial:
  assumes "taskAt t S = Dialing key n auto conn" and "n < co_maxDialAttemptsForPeer (ce_options E)"
    and "snd (startKeepAlive E q S) = Inl e"
  defines "S' \<equiv> cmExec E (Resume t) (cmExec E (DialOk t q) S)"
  shows "cm_keepAlive S' = fst (startKeepAlive E q S)"
    and "n + 1 < co_maxDialAttemptsForPeer (ce_options E) \<Longrightarrow> taskAt t S' = Dialing key (n + 1) auto (Some q)"
    and "n + 1 < co_maxDialAttemptsForPeer (ce_options E) \<Longrightarrow> cm_active S' = cm_active S"
    and "n + 1 < co_maxDialAttemptsForPeer (ce_options E) \<Longrightarrow> jm_get (cm_dialAttempts S') key = Some (int n + 1)"
proof -
  have t: "t < length (cm_tasks S)" using taskAt_dialing [OF assms(1)] by simp
  define S1 where "S1 = setTask t (Tagging key n auto q) S"
  define S2 where "S2 = S1\<lparr>cm_connections := tagConnections (pr_str q) (getTagNamesForPeer (pr_str q) S1) (cm_connections S1),
                 cm_dialAttempts := jm_set (pr_str q) (- 1) (cm_dialAttempts S1)\<rparr>"
  have "startKeepAlive E q S2 = startKeepAlive E q S" by (rule startKeepAlive_cong) (simp add: S2_def S1_def)
  then obtain K where K: "startKeepAlive E q S2 = (K, Inl e)" "K = fst (startKeepAlive E q S)"
    using assms(3) by (cases "startKeepAlive E q S") auto
  have S': "S' = dialAttempt_failed E t key n auto (Some q) ''keep alive'' (S2\<lparr>cm_keepAlive := K\<rparr>)"
    using assms(1) t K unfolding S'_def by (simp add: S1_def [symmetric] dial_connected_def Let_def S2_def [symmetric])
       (simp add: S1_def S2_def dial_connected_def Let_def)
  show "cm_keepAlive S' = fst (startKeepAlive E q S)"
    using K(2) by (simp add: S' dialAttempt_failed_def dialLoop_def dialLoop_exit_def Let_def dialResult_def attemptDnsDiscovery_begin_def)
  assume "n + 1 < co_maxDialAttemptsForPeer (ce_options E)"
  then show "taskAt t S' = Dialing key (n + 1) auto (Some q)" "cm_active S' = cm_active S"
    "jm_get (cm_dialAttempts S') key = Some (int n + 1)"
    using t by (simp_all add: S' dialAttempt_failed_def dialLoop_def S2_def S1_def)
qed

lemma classifyPeers_acc:
  "classifyPeers tagsOf ps \<lparr>bd_bootstrap = b, bd_peerExchange = x, bd_local = l\<rparr> =
     \<lparr>bd_bootstrap = b @ filter (\<lambda>p. BOOTSTRAP \<in> set (tagsOf p)) ps,
      bd_peerExchange = x @ filter (\<lambda>p. BOOTSTRAP \<notin> set (tagsOf p) \<and> PEER_EXCHANGE \<in> set (tagsOf p)) ps,
      bd_local = l @ filter (\<lambda>p. BOOTSTRAP \<notin> set (tagsOf p) \<and> PEER_EXCHANGE \<notin> set (tagsOf p) \<and>
                                 LOCAL \<in> set (tagsOf p)) ps\<rparr>"
  by (induction ps arbitrary: b x l) simp_all

lemmas classifyPeers_noPeers = classifyPeers_acc [of _ _ "[]" "[]" "[]", folded noPeers_def, simplified]

text \<open>The answer of \<open>getConnectedPeers\<close>: the stored peers of the protocol, the best ping first.\<close>

lemma getConnectedPeers_sorted:
  fixes E S ids multicodec
  defines "ping \<equiv> \<lambda>(_ :: string, peer). getPeerPing (ce_bytesToUtf8 E) (Some (sp_ping peer))"
  defines "peers \<equiv> filter (\<lambda>(_, peer). case multicodec of None \<Rightarrow> True | Some c \<Rightarrow> c = [] \<or> c \<in> set (sp_protocols peer)) (storedOf S ids)"
  assumes "\<forall>x \<in> set peers. ping x \<noteq> None"
  shows "mset (getConnectedPeers E anyOrder multicodec ids S) = mset peers"
    and "sorted (map (\<lambda>x. the (ping x)) (getConnectedPeers E anyOrder multicodec ids S))"
proof -
  have "getConnectedPeers E anyOrder multicodec ids S = sort_key (\<lambda>x. the (ping x)) peers"
    using assms(3) unfolding getConnectedPeers_def Let_def peers_def ping_def by (rule if_P)
  then show "mset (getConnectedPeers E anyOrder multicodec ids S) = mset peers"
    and "sorted (map (\<lambda>x. the (ping x)) (getConnectedPeers E anyOrder multicodec ids S))" by simp_all
qed

text \<open>A dial that fails some times and then connects.\<close>

lemma dial_connects:
  fixes q :: peerRef
  assumes "taskAt t S = Dialing key 0 auto None" and "length errs < co_maxDialAttemptsForPeer (ce_options E)"
  defines "S1 \<equiv> runEvents (cmExec E) (failures t errs @ [DialOk t q, Resume t]) S"
  shows "cm_keepAlive S1 = fst (startKeepAlive E q S) \<and>
    (case snd (startKeepAlive E q S) of
       Inr _ \<Rightarrow> taskAt t S1 = Resolved (Some q) \<and> cm_active S1 = cm_active S - 1 \<and> jm_get (cm_dialAttempts S1) (pr_str q) = Some (- 1)
     | Inl _ \<Rightarrow> length errs + 1 < co_maxDialAttemptsForPeer (ce_options E) \<longrightarrow>
         taskAt t S1 = Dialing key (length errs + 1) auto (Some q) \<and> cm_active S1 = cm_active S \<and>
         jm_get (cm_dialAttempts S1) key = Some (int (length errs) + 1))"
proof -
  have t: "t < length (cm_tasks S)" using taskAt_dialing [OF assms(1)] by simp
  have "0 + length errs < co_maxDialAttemptsForPeer (ce_options E)" using assms(2) by simp
  then obtain errors attempts where run: "runEvents (cmExec E) (failures t errs) S =
      setTask t (Dialing key (length errs) auto None) (S\<lparr>cm_dialErrors := errors, cm_dialAttempts := attempts\<rparr>)"
    using failing_dial [OF assms(1)] unfolding add_0 by blast
  define S0 where "S0 = runEvents (cmExec E) (failures t errs) S"
  have S0: "taskAt t S0 = Dialing key (length errs) auto None" "cm_active S0 = cm_active S" "startKeepAlive E q S0 = startKeepAlive E q S"
    using t by (simp_all add: S0_def run startKeepAlive_cong [of "setTask _ _ _" S])
  have S1: "S1 = cmExec E (Resume t) (cmExec E (DialOk t q) S0)" by (simp add: S1_def S0_def runEvents_def)
  show ?thesis
    using connected_dial [OF S0(1) assms(2), of q] unstarted_dial [OF S0(1) assms(2), of q]
    by (cases "snd (startKeepAlive E q S)") (simp_all add: S1 S0)
qed

section \<open>Properties\<close>

text \<open>C5: After any events, in any interleaving of the asynchronous calls, the counter of active dials is the
  number of dials under way, the dials that \<open>attemptDial\<close> started are at most \<open>maxParallelDials\<close>, no dial
  and no peer has more than \<open>maxDialAttemptsForPeer\<close> attempts, and a peer marked \<open>-1\<close> is the only one below 0.\<close>

theorem dial_limits:
  "let S = runEvents (cmExec E) evs newConnectionManager;
       attempts = int (co_maxDialAttemptsForPeer (ce_options E))
   in cm_active S = cnt isDialing (cm_tasks S) \<and>
      cnt isAutoDial (cm_tasks S) \<le> max 0 (co_maxParallelDials (ce_options E)) \<and>
      list_all (\<lambda>k. int (attemptsOf k) \<le> attempts) (cm_tasks S) \<and>
      (case jm_get (cm_dialAttempts S) p of None \<Rightarrow> True | Some n \<Rightarrow> - 1 \<le> n \<and> n \<le> attempts)"
proof -
  define S where "S = runEvents (cmExec E) evs newConnectionManager"
  have inv: "cmInv E S" unfolding S_def by (rule connectionManagers.run_from_start) simp
  have "attemptsOf k \<le> co_maxDialAttemptsForPeer (ce_options E)" if "k \<in> set (cm_tasks S)" for k
  proof (cases "isDialing k")
    case True
    with that inv show ?thesis by (auto simp: cmInv_def cmBounds_def)
  qed (cases k, auto)
  with inv show ?thesis
    unfolding Let_def S_def [symmetric] by (auto simp: cmInv_def cmBounds_def list_all_iff split: option.split)
qed

text \<open>C12: A peer whose dial has an outcome on record, and that no call is about to dial, is never dialled again
  by the manager itself, whatever discoveries, connections and queue steps follow: only a call of \<open>dialPeer\<close>
  for that peer dials it.\<close>

theorem settled_peer_not_redialed:
  "settledPeer p S \<Longrightarrow> list_all (\<lambda>e. \<not> dialsDirectly E p e) evs \<Longrightarrow>
     settledPeer p (runEvents (cmExec E) evs S)"
  by (induction evs arbitrary: S) (auto simp: settled_exec)


section \<open>Concrete runs\<close>

definition demoDialPeer :: "string \<Rightarrow> peerRef" where
  "demoDialPeer p = \<lparr>pr_object = length p, pr_str = p\<rparr>"

definition demoStoredPeer :: storedPeer where
  "demoStoredPeer = \<lparr>sp_tags = [], sp_protocols = [], sp_shardInfo = None, sp_ping = None\<rparr>"

definition demoCmEnv :: cmEnv where
  "demoCmEnv = \<lparr>ce_options = defaultOptions\<lparr>co_maxParallelDials := 1\<rparr>, ce_pubsubTopics = [], ce_relay = None,
     ce_encoderOf = (\<lambda>_. Inl TypeError), ce_multiaddrPeerId = (\<lambda>a. Inr (Some a)), ce_utf8 = demoUtf8,
     ce_sha256 = demoSha, ce_bytesToUtf8 = (\<lambda>_. Inr []), ce_hasDnsDiscovery = False\<rparr>"

definition demoStore :: "(string, storedPeer) jsmap" where
  "demoStore = [(''a'', demoStoredPeer), (''b'', demoStoredPeer), (''c'', demoStoredPeer)]"

text \<open>Three peers are discovered while one dial is allowed; the second connects by itself.\<close>

definition stallRun :: "cmEvent list" where
  "stallRun =
     [Network [] demoStore, CallAttemptDial (demoDialPeer ''a''), CallAttemptDial (demoDialPeer ''b''), CallAttemptDial (demoDialPeer ''c'')] @
     map Resume [0, 0, 0, 0, 1, 1, 1, 1, 2, 2, 2, 2] @
     [Network [\<lparr>cc_remotePeer = demoDialPeer ''b'', cc_tags = []\<rparr>] demoStore] @
     failures 0 [''refused'', ''refused'', ''refused'']"

text \<open>One peer is discovered twice before its first dial has an outcome.\<close>

definition twiceRun :: "cmEvent list" where
  "twiceRun =
     [Network [] demoStore, CallAttemptDial (demoDialPeer ''a''), CallAttemptDial (demoDialPeer ''a'')] @
     map Resume [0, 0, 0, 1, 1, 1, 0, 1]"

fun finishedTask :: "task \<Rightarrow> bool" where
  "finishedTask (Resolved _) = True"
| "finishedTask (Rejected _) = True"
| "finishedTask _ = False"

lemmas run_simps = stallRun_def twiceRun_def demoCmEnv_def demoStore_def demoStoredPeer_def demoDialPeer_def defaultOptions_def
  newConnectionManager_def newTask_def setTask_def taskAt_def attemptDial_begin_def connectionsOf_def
  isPeerTopicConfigured_def getPeerShardInfo_def isPeerDialableBasedOnBootstrapStatus_def getTagNamesForPeer_def
  attemptDial_admitted_def dialPeer_begin_def getDialablePeerInfo_def dialLoop_def dialAttempt_failed_def dialLoop_exit_def
  attemptDnsDiscovery_begin_def dialResult_def processDialQueue_def jm_get_def jm_set_def jm_delete_def jm_has_def

text \<open>Two limits of the dial queue. A queued peer can be left behind: \<open>processDialQueue\<close> takes one peer per
  finished dial and takes no other when that one needs no dial, so there is a run after which no call is
  under way, nothing is being dialled and a peer without a connection still waits in the queue. And the check for an
  active dial looks at recorded attempts only, so a peer that is discovered twice is dialled twice at once.\<close>

theorem dial_queue_limits:
  "let S = runEvents (cmExec demoCmEnv) stallRun newConnectionManager;
       T = runEvents (cmExec (demoCmEnv\<lparr>ce_options := defaultOptions\<rparr>)) twiceRun newConnectionManager
   in cm_queue S = [demoDialPeer ''c''] \<and> cm_active S = 0 \<and> list_all finishedTask (cm_tasks S) \<and>
      connectionsOf ''c'' S = [] \<and>
      cm_tasks T = [Dialing ''a'' 0 True None, Dialing ''a'' 0 True None]"
  by (simp add: run_simps Let_def numeral_2_eq_2 numeral_3_eq_3)

theorem settled_peer_not_redialed_witness:
  "settledPeer ''a'' (runEvents (cmExec demoCmEnv) [Discovered (demoDialPeer ''a''), Resume 0, Resume 0]
     (newConnectionManager\<lparr>cm_dialAttempts := [(''a'', - 1)], cm_store := demoStore\<rparr>))"
  by (rule settled_peer_not_redialed) (simp_all add: settledPeer_def run_simps)

definition demoDial :: connectionManager where
  "demoDial = newConnectionManager\<lparr>cm_tasks := [Dialing ''a'' 0 True None], cm_active := 1, cm_store := demoStore\<rparr>"


end
