(* ===== verification/PeerManager.thy ===== *)
theory PeerManager
  imports JsBytes StateMachine
begin

text \<open>
  \<open>packages/sdk/src/peer_manager/peer_manager.ts\<close>: the connections that the service protocols use are
  marked with a tag.  The state is libp2p's list of connections; libp2p opens and closes them, and the
  manager only adds its tag.
\<close>

section \<open>Definitions\<close>

record lockConn =
  lc_remotePeer :: string
  lc_status :: string
  lc_tags :: "string list"

definition DEFAULT_NUM_PEERS_TO_USE :: int where "DEFAULT_NUM_PEERS_TO_USE = 2"

definition CONNECTION_LOCK_TAG :: string where "CONNECTION_LOCK_TAG = ''peer-manager-lock''"

text \<open>The constructor: \<open>config?.numPeersToUse || DEFAULT_NUM_PEERS_TO_USE\<close>.\<close>

definition numPeersToUse :: "int option \<Rightarrow> int" where
  "numPeersToUse config = (if nullish config 0 = 0 then DEFAULT_NUM_PEERS_TO_USE else nullish config 0)"

definition isConnectionLocked :: "lockConn \<Rightarrow> bool" where
  "isConnectionLocked c = (CONNECTION_LOCK_TAG \<in> set (lc_tags c))"

definition lockedOpen :: "lockConn \<Rightarrow> bool" where
  "lockedOpen c = (lc_status c = ''open'' \<and> isConnectionLocked c)"

definition unlockedOpen :: "lockConn \<Rightarrow> bool" where
  "unlockedOpen c = (lc_status c = ''open'' \<and> \<not> isConnectionLocked c)"

definition getLockedConnections :: "lockConn list \<Rightarrow> lockConn list" where
  "getLockedConnections conns = filter lockedOpen conns"

definition getUnlockedConnections :: "lockConn list \<Rightarrow> lockConn list" where
  "getUnlockedConnections conns = filter unlockedOpen conns"

definition lockConnection :: "lockConn \<Rightarrow> lockConn" where
  "lockConnection c = c\<lparr>lc_tags := lc_tags c @ [CONNECTION_LOCK_TAG]\<rparr>"

definition getPeers :: "lockConn list \<Rightarrow> string list" where
  "getPeers conns = map lc_remotePeer (getLockedConnections conns)"

text \<open>
  The connections are objects that the code selects and changes in place: the positions of the selected
  ones are kept, and the connections at these positions get the tag.
\<close>

definition positions :: "(lockConn \<Rightarrow> bool) \<Rightarrow> lockConn list \<Rightarrow> nat list" where
  "positions P conns = filter (\<lambda>i. P (conns ! i)) [0..<length conns]"

definition lockAt :: "nat list \<Rightarrow> lockConn list \<Rightarrow> lockConn list" where
  "lockAt is conns = fold (\<lambda>i cs. cs[i := lockConnection (cs ! i)]) is conns"

definition requestRenew :: "int \<Rightarrow> string \<Rightarrow> lockConn list \<Rightarrow> lockConn list \<times> string option" where
  "requestRenew numPeers peerId conns =
     (let neededPeers = numPeers - int (length (getLockedConnections conns))
      in if neededPeers = 0 then (conns, None)
         else (let chosen = js_slice (positions (\<lambda>c. unlockedOpen c \<and> lc_remotePeer c \<noteq> peerId) conns) 0 neededPeers
               in (lockAt chosen conns,
                   case chosen of [] \<Rightarrow> None | i # _ \<Rightarrow> Some (lc_remotePeer (conns ! i)))))"

definition lockPeerIfNeeded :: "int \<Rightarrow> string \<Rightarrow> lockConn list \<Rightarrow> lockConn list" where
  "lockPeerIfNeeded numPeers peerId conns =
     (let neededPeers = numPeers - int (length (getLockedConnections conns))
      in if neededPeers = 0 then conns
         else lockAt (positions (\<lambda>c. unlockedOpen c \<and> lc_remotePeer c = peerId) conns) conns)"

section \<open>Runs\<close>

text \<open>
  libp2p opens a connection without the tag, and may close or drop any. \<open>single\<close> says that it opens no
  second connection to a peer.
\<close>

datatype pmEvent =
    Opened string
  | Closed nat
  | OnConnected string
  | OnDisconnected string
  | Renew string

definition openTo :: "string \<Rightarrow> lockConn list \<Rightarrow> bool" where
  "openTo p conns = (\<exists>c \<in> set conns. lc_status c = ''open'' \<and> lc_remotePeer c = p)"

fun pmExec :: "int \<Rightarrow> bool \<Rightarrow> pmEvent \<Rightarrow> lockConn list \<Rightarrow> lockConn list" where
  "pmExec n single (Opened p) conns =
     (if single \<and> openTo p conns then conns
      else conns @ [\<lparr>lc_remotePeer = p, lc_status = ''open'', lc_tags = []\<rparr>])"
| "pmExec n single (Closed i) conns = conns[i := (conns ! i)\<lparr>lc_status := ''closed''\<rparr>]"
| "pmExec n single (OnConnected p) conns = lockPeerIfNeeded n p conns"
| "pmExec n single (OnDisconnected p) conns = fst (requestRenew n p conns)"
| "pmExec n single (Renew p) conns = fst (requestRenew n p conns)"

section \<open>Lemmas\<close>

lemma lockedOpen_lock [simp]: "lockedOpen (lockConnection c) \<longleftrightarrow> lc_status c = ''open''"
  by (simp add: lockedOpen_def lockConnection_def isConnectionLocked_def)

lemma lockConnection_fields [simp]:
  "lc_remotePeer (lockConnection c) = lc_remotePeer c" "lc_status (lockConnection c) = lc_status c"
  by (simp_all add: lockConnection_def)

lemma lockAt_Nil [simp]: "lockAt [] conns = conns"
  by (simp add: lockAt_def)

lemma lockAt_Cons: "lockAt (i # is) conns = lockAt is (conns[i := lockConnection (conns ! i)])"
  by (simp add: lockAt_def)

lemma lockAt_length [simp]: "length (lockAt is conns) = length conns"
  by (induction "is" arbitrary: conns) (simp_all add: lockAt_Cons)

lemma lockAt_nth: "distinct is \<Longrightarrow> set is \<subseteq> {..<length conns} \<Longrightarrow> j < length conns \<Longrightarrow>
    lockAt is conns ! j = (if j \<in> set is then lockConnection (conns ! j) else conns ! j)"
  by (induction "is" arbitrary: conns) (auto simp: lockAt_Cons nth_list_update)

lemma positions_props: "distinct (positions P conns)" "i \<in> set (positions P conns) \<longleftrightarrow> i < length conns \<and> P (conns ! i)"
  by (auto simp: positions_def)

lemma js_slice_0: "js_slice xs 0 (int k) = take k xs"
  using js_slice_nat [of xs 0 k] by simp

text \<open>The open connections keep their peers, and locking \<open>k\<close> unlocked connections adds \<open>k\<close> locked ones.\<close>

definition openPeers :: "lockConn list \<Rightarrow> string list" where
  "openPeers conns = map lc_remotePeer (filter (\<lambda>c. lc_status c = ''open'') conns)"

lemma openPeers_lockAt [simp]: "openPeers (lockAt is conns) = openPeers conns"
  by (induction "is" arbitrary: conns) (simp_all add: lockAt_Cons openPeers_def map_filter_update)

definition lockedCount :: "lockConn list \<Rightarrow> int" where
  "lockedCount conns = cnt lockedOpen conns"

lemma lockedCount_length: "lockedCount conns = int (length (getLockedConnections conns))"
  by (simp add: lockedCount_def cnt_def getLockedConnections_def)

lemma locked_lockAt:
  "distinct is \<Longrightarrow> (\<And>i. i \<in> set is \<Longrightarrow> i < length conns \<and> unlockedOpen (conns ! i)) \<Longrightarrow>
     lockedCount (lockAt is conns) = lockedCount conns + int (length is)"
proof (induction "is" arbitrary: conns)
  case (Cons i "is")
  let ?conns = "conns[i := lockConnection (conns ! i)]"
  have i: "i < length conns" "unlockedOpen (conns ! i)" using Cons.prems by auto
  then have "lockedCount ?conns = lockedCount conns + 1"
    using lockedOpen_lock [of "conns ! i"]
    by (auto simp: lockedCount_def cnt_update unlockedOpen_def lockedOpen_def [of "conns ! i"])
  moreover have "lockedCount (lockAt is ?conns) = lockedCount ?conns + int (length is)"
    using Cons.prems by (intro Cons.IH) (auto simp: nth_list_update)
  ultimately show ?case by (simp add: lockAt_Cons)
qed simp

lemma positions_length: "int (length (positions P conns)) = cnt P conns"
  using distinct_card [OF positions_props(1), of P conns]
  by (simp add: cnt_def length_filter_conv_card positions_props(2) set_eq_iff [symmetric] positions_def)

lemma one_connection_of_peer:
  assumes "distinct (openPeers conns)"
  shows "cnt (\<lambda>c. unlockedOpen c \<and> lc_remotePeer c = p) conns \<le> 1"
proof -
  let ?f = "filter (\<lambda>q. q = p) (openPeers conns)"
  have "distinct ?f" using assms by simp
  moreover have "set ?f \<subseteq> {p}" by auto
  ultimately have "length ?f \<le> 1" by (metis card.empty card_insert_le_m1 card_mono distinct_card finite.emptyI finite.insertI is_singletonI is_singleton_def le_numeral_extra(4) card_1_singleton_iff One_nat_def)
  moreover have "length ?f = length (filter (\<lambda>c. lc_status c = ''open'' \<and> lc_remotePeer c = p) conns)"
    by (simp add: openPeers_def filter_map comp_def conj_commute)
  ultimately have "cnt (\<lambda>c. lc_status c = ''open'' \<and> lc_remotePeer c = p) conns \<le> 1" by (simp add: cnt_def)
  moreover have "cnt (\<lambda>c. unlockedOpen c \<and> lc_remotePeer c = p) conns \<le> cnt (\<lambda>c. lc_status c = ''open'' \<and> lc_remotePeer c = p) conns"
    by (rule cnt_mono) (simp add: unlockedOpen_def)
  ultimately show ?thesis by simp
qed

definition pmInv :: "int \<Rightarrow> lockConn list \<Rightarrow> bool" where
  "pmInv n conns \<longleftrightarrow> lockedCount conns \<le> n \<and> distinct (openPeers conns)"

lemma lockPeerIfNeeded_inv: "pmInv n conns \<Longrightarrow> pmInv n (lockPeerIfNeeded n p conns)"
proof -
  assume inv: "pmInv n conns"
  let ?P = "\<lambda>c. unlockedOpen c \<and> lc_remotePeer c = p"
  have "lockedCount (lockAt (positions ?P conns) conns) = lockedCount conns + cnt ?P conns"
    by (subst locked_lockAt) (auto simp: positions_props positions_length)
  with inv one_connection_of_peer [of conns p] show ?thesis
    by (auto simp: pmInv_def lockPeerIfNeeded_def Let_def lockedCount_length [symmetric])
qed

text \<open>What \<open>requestRenew\<close> locks while the limit is not exceeded.\<close>

lemma requestRenew_locks:
  assumes "pmInv n conns"
  shows "lockedCount (fst (requestRenew n p conns)) =
    min n (lockedCount conns + cnt (\<lambda>c. unlockedOpen c \<and> lc_remotePeer c \<noteq> p) conns)"
    and "openPeers (fst (requestRenew n p conns)) = openPeers conns"
proof -
  let ?is = "positions (\<lambda>c. unlockedOpen c \<and> lc_remotePeer c \<noteq> p) conns"
  obtain k where k: "n - lockedCount conns = int k"
    using assms by (metis add_diff_cancel_left' pmInv_def zle_iff_zadd)
  have distinct: "distinct (take k ?is)" by (simp add: positions_props distinct_take)
  have "lockedCount (lockAt (take k ?is) conns) = lockedCount conns + int (length (take k ?is))"
    using distinct by (rule locked_lockAt) (auto simp: positions_props dest: in_set_takeD)
  then have count: "lockedCount (lockAt (take k ?is) conns) = min n (lockedCount conns + cnt (\<lambda>c. unlockedOpen c \<and> lc_remotePeer c \<noteq> p) conns)"
    using k by (simp add: positions_length [symmetric] min_def)
  have run: "fst (requestRenew n p conns) = lockAt (take k ?is) conns"
    using k by (simp add: requestRenew_def Let_def lockedCount_length [symmetric] js_slice_0)
  show "lockedCount (fst (requestRenew n p conns)) =
    min n (lockedCount conns + cnt (\<lambda>c. unlockedOpen c \<and> lc_remotePeer c \<noteq> p) conns)"
    using count by (simp add: run)
  show "openPeers (fst (requestRenew n p conns)) = openPeers conns" by (simp add: run)
qed

lemma requestRenew_inv: "pmInv n conns \<Longrightarrow> pmInv n (fst (requestRenew n p conns))"
  using requestRenew_locks [of n conns p] by (simp add: pmInv_def)

lemma distinct_filter_drop:
  "distinct (map f (filter P xs)) \<Longrightarrow> \<not> P x \<Longrightarrow>
     distinct (map f (filter P (xs[i := x]))) \<and> set (filter P (xs[i := x])) \<subseteq> set (filter P xs)"
proof (induction xs arbitrary: i)
  case (Cons y ys)
  then show ?case by (cases i) (auto split: if_splits)
qed simp

lemma close_inv: "pmInv n conns \<Longrightarrow> pmInv n (conns[i := (conns ! i)\<lparr>lc_status := ''closed''\<rparr>])"
proof (cases "i < length conns")
  case True
  assume inv: "pmInv n conns"
  let ?c = "(conns ! i)\<lparr>lc_status := ''closed''\<rparr>"
  have "distinct (openPeers (conns[i := ?c]))"
    using inv distinct_filter_drop [of lc_remotePeer "\<lambda>c. lc_status c = ''open''" conns ?c i]
    by (simp add: pmInv_def openPeers_def)
  moreover have "lockedCount (conns[i := ?c]) \<le> lockedCount conns"
    using True by (simp add: lockedCount_def cnt_update lockedOpen_def)
  ultimately show ?thesis using inv by (simp add: pmInv_def)
qed (simp add: list_update_beyond)

lemma open_inv: "pmInv n conns \<Longrightarrow> \<not> openTo p conns \<Longrightarrow> pmInv n (conns @ [\<lparr>lc_remotePeer = p, lc_status = ''open'', lc_tags = []\<rparr>])"
  by (auto simp: pmInv_def lockedCount_def lockedOpen_def isConnectionLocked_def openPeers_def openTo_def)

lemma pmExec_inv: "pmInv n conns \<Longrightarrow> pmInv n (pmExec n True e conns)"
  by (cases e) (auto simp: lockPeerIfNeeded_inv requestRenew_inv close_inv open_inv)

lemma numPeersToUse_nonneg: "0 \<le> numPeersToUse (map_option int config)"
  by (simp add: numPeersToUse_def DEFAULT_NUM_PEERS_TO_USE_def nullish_def split: option.split)

interpretation peerManagers: event_system "\<lambda>conns. conns = []" "pmExec (numPeersToUse (map_option int config)) True"
    "pmInv (numPeersToUse (map_option int config))" for config
proof
  fix conns e
  show "conns = [] \<Longrightarrow> pmInv (numPeersToUse (map_option int config)) conns"
    by (simp add: pmInv_def lockedCount_def cnt_def openPeers_def numPeersToUse_nonneg)
qed (rule pmExec_inv)

lemma getPeers_subset: "set (getPeers conns) \<subseteq> set (openPeers conns)"
  by (auto simp: getPeers_def getLockedConnections_def openPeers_def lockedOpen_def)

lemma getPeers_distinct: "distinct (openPeers conns) \<Longrightarrow> distinct (getPeers conns)"
proof -
  have "getPeers conns = map lc_remotePeer (filter isConnectionLocked (filter (\<lambda>c. lc_status c = ''open'') conns))"
    by (simp add: getPeers_def getLockedConnections_def lockedOpen_def [abs_def])
  moreover have "distinct (openPeers conns) \<Longrightarrow> distinct (map lc_remotePeer (filter isConnectionLocked (filter (\<lambda>c. lc_status c = ''open'') conns)))"
    unfolding openPeers_def by (rule distinct_map_filter)
  ultimately show "distinct (openPeers conns) \<Longrightarrow> distinct (getPeers conns)" by simp
qed

lemma openPeers_nth:
  "distinct (openPeers conns) \<Longrightarrow> c \<in> set conns \<Longrightarrow> d \<in> set conns \<Longrightarrow> lc_status c = ''open'' \<Longrightarrow> lc_status d = ''open'' \<Longrightarrow>
     lc_remotePeer c = lc_remotePeer d \<Longrightarrow> c = d"
  by (auto simp: openPeers_def distinct_map inj_on_def)

lemma requestRenew_peer:
  assumes "pmInv n conns" and "requestRenew n p conns = (conns', Some q)"
  shows "q \<noteq> p" "q \<in> set (getPeers conns')" "q \<notin> set (getPeers conns)"
proof -
  define chosen where "chosen = js_slice (positions (\<lambda>c. unlockedOpen c \<and> lc_remotePeer c \<noteq> p) conns) 0
      (n - int (length (getLockedConnections conns)))"
  obtain i "is" where i: "chosen = i # is" "q = lc_remotePeer (conns ! i)" "conns' = lockAt chosen conns"
    using assms(2) by (auto simp: requestRenew_def Let_def chosen_def [symmetric] split: if_splits list.splits)
  have sub: "set chosen \<subseteq> set (positions (\<lambda>c. unlockedOpen c \<and> lc_remotePeer c \<noteq> p) conns)" "distinct chosen"
    by (auto simp: chosen_def js_slice_def Let_def positions_props(1) distinct_take distinct_drop
        simp del: in_set_conv_nth dest!: in_set_takeD in_set_dropD)
  have ci: "i < length conns" "unlockedOpen (conns ! i)" "lc_remotePeer (conns ! i) \<noteq> p"
    using sub i(1) by (auto simp: positions_props)
  show "q \<noteq> p" using ci i by simp
  have "conns' ! i = lockConnection (conns ! i)" "i < length conns'"
    using sub i ci by (auto simp: lockAt_nth positions_props subset_iff)
  then have "lockConnection (conns ! i) \<in> set conns'" by (metis nth_mem)
  moreover have "lockedOpen (lockConnection (conns ! i))" using ci(2) by (simp add: unlockedOpen_def)
  ultimately show "q \<in> set (getPeers conns')"
    unfolding getPeers_def getLockedConnections_def i(2)
    by (metis (mono_tags, lifting) image_eqI list.set_map lockConnection_fields(1) mem_Collect_eq set_filter)
  have "\<not> (c \<in> set conns \<and> lockedOpen c \<and> lc_remotePeer c = q)" for c
    using openPeers_nth [of conns c "conns ! i"] assms(1) ci i(2)
    by (auto simp: pmInv_def lockedOpen_def unlockedOpen_def)
  then show "q \<notin> set (getPeers conns)" by (auto simp: getPeers_def getLockedConnections_def)
qed

section \<open>Properties\<close>

text \<open>C22: While libp2p keeps at most one open connection per peer, the manager never uses more than \<open>numPeersToUse\<close>
  peers, each once and each with an open connection. \<open>requestRenew\<close> fills the free places as far as there are other
  open connections, never with the peer it replaces, and returns a peer that was not used before.\<close>

theorem locked_peers_bounded:
  "let n = numPeersToUse (map_option int config);
       S = runEvents (pmExec n True) evs [];
       S' = fst (requestRenew n p S)
   in int (length (getPeers S)) \<le> n \<and> distinct (getPeers S) \<and> set (getPeers S) \<subseteq> set (openPeers S) \<and>
      int (length (getPeers S')) =
        min n (int (length (getPeers S)) + cnt (\<lambda>c. unlockedOpen c \<and> lc_remotePeer c \<noteq> p) S) \<and>
      (case snd (requestRenew n p S) of
         None \<Rightarrow> True
       | Some q \<Rightarrow> q \<noteq> p \<and> q \<in> set (getPeers S') \<and> q \<notin> set (getPeers S))"
proof -
  define n where "n = numPeersToUse (map_option int config)"
  define S where "S = runEvents (pmExec n True) evs []"
  have inv: "pmInv n S" unfolding S_def n_def by (rule peerManagers.run_from_start) simp
  have count: "int (length (getPeers T)) = lockedCount T" for T by (simp add: getPeers_def lockedCount_length)
  have "case snd (requestRenew n p S) of None \<Rightarrow> True
      | Some q \<Rightarrow> q \<noteq> p \<and> q \<in> set (getPeers (fst (requestRenew n p S))) \<and> q \<notin> set (getPeers S)"
    using requestRenew_peer [OF inv, of p "fst (requestRenew n p S)"] by (auto simp: prod_eq_iff split: option.split)
  then show ?thesis
    unfolding Let_def n_def [symmetric] S_def [symmetric]
    using inv getPeers_subset [of S] getPeers_distinct [of S] requestRenew_locks(1) [OF inv, of p]
    by (simp add: count pmInv_def)
qed

text \<open>
  Without that assumption the limit is not kept: two connections to one peer are both locked when one
  place is free, and a limit that is exceeded makes \<open>slice(0, neededPeers)\<close> count from the end, so the next
  renewal locks further peers instead of none.
\<close>

theorem locked_peers_overshoot:
  "getPeers (runEvents (pmExec 2 False)
     [Opened ''a'', OnConnected ''a'', Opened ''b'', Opened ''b'', OnConnected ''b'',
      Opened ''c'', Opened ''d'', Renew ''x''] []) = [''a'', ''b'', ''b'', ''c'']"
  by (simp add: runEvents_def lockPeerIfNeeded_def requestRenew_def positions_def lockAt_def getPeers_def Let_def
      getLockedConnections_def lockedOpen_def unlockedOpen_def isConnectionLocked_def lockConnection_def
      CONNECTION_LOCK_TAG_def js_slice_def slice_pos_def upt_rec)

end
