(* ===== verification/HealthIndicator.thy ===== *)
theory HealthIndicator
  imports StateMachine
begin

text \<open>
  \<open>packages/sdk/src/health_indicator/health_indicator.ts\<close>: the health of a node, recomputed when a peer
  connects or disconnects.  A connection is given by what the peer store answers for its peer, the list of
  protocols or nothing; the abstract specification is the table of the class comment.
\<close>

section \<open>Definitions\<close>

datatype healthStatus = Unhealthy | MinimallyHealthy | SufficientlyHealthy

fun healthRank :: "healthStatus \<Rightarrow> nat" where
  "healthRank Unhealthy = 0"
| "healthRank MinimallyHealthy = 1"
| "healthRank SufficientlyHealthy = 2"

instantiation healthStatus :: linorder
begin

definition less_eq_healthStatus :: "healthStatus \<Rightarrow> healthStatus \<Rightarrow> bool" where
  "less_eq_healthStatus a b \<longleftrightarrow> healthRank a \<le> healthRank b"

definition less_healthStatus :: "healthStatus \<Rightarrow> healthStatus \<Rightarrow> bool" where
  "less_healthStatus a b \<longleftrightarrow> healthRank a < healthRank b"

instance
proof
  fix a b c :: healthStatus
  show "a < b \<longleftrightarrow> a \<le> b \<and> \<not> b \<le> a" unfolding less_eq_healthStatus_def less_healthStatus_def by arith
  show "a \<le> a" unfolding less_eq_healthStatus_def by (rule le_refl)
  show "a \<le> b \<Longrightarrow> b \<le> c \<Longrightarrow> a \<le> c" unfolding less_eq_healthStatus_def by (rule le_trans)
  show "a \<le> b \<Longrightarrow> b \<le> a \<Longrightarrow> a = b" unfolding less_eq_healthStatus_def by (cases a; cases b) simp_all
  show "a \<le> b \<or> b \<le> a" unfolding less_eq_healthStatus_def by arith
qed

end

definition FilterSubscribeCodec :: string where "FilterSubscribeCodec = ''/vac/waku/filter-subscribe/2.0.0-beta1''"

definition LightPushCodec :: string where "LightPushCodec = ''/vac/waku/lightpush/2.0.0-beta1''"

record healthIndicator =
  hi_value :: healthStatus
  hi_dispatched :: "healthStatus list"

definition newHealthIndicator :: healthIndicator where
  "newHealthIndicator = \<lparr>hi_value = Unhealthy, hi_dispatched = []\<rparr>"

definition supporting :: "string \<Rightarrow> string list option list \<Rightarrow> nat" where
  "supporting p peers = length (filter (\<lambda>q. case q of None \<Rightarrow> False | Some protocols \<Rightarrow> p \<in> set protocols) peers)"

definition onPeerChange :: "string list option list \<Rightarrow> healthIndicator \<Rightarrow> healthIndicator" where
  "onPeerChange peers H =
     (let filterPeers = supporting FilterSubscribeCodec peers;
          lightPushPeers = supporting LightPushCodec peers;
          H' = (if peers = [] then H\<lparr>hi_value := Unhealthy\<rparr>
                else if filterPeers \<ge> 2 \<and> lightPushPeers \<ge> 2 then H\<lparr>hi_value := SufficientlyHealthy\<rparr>
                else if filterPeers = 1 \<and> lightPushPeers = 1 then H\<lparr>hi_value := MinimallyHealthy\<rparr>
                else H)
      in H'\<lparr>hi_dispatched := hi_dispatched H' @ [hi_value H']\<rparr>)"

section \<open>Specification\<close>

text \<open>The comment of the class, on the peers that support both protocols.\<close>

definition supportsBoth :: "string list option \<Rightarrow> bool" where
  "supportsBoth q = (case q of None \<Rightarrow> False | Some protocols \<Rightarrow> {FilterSubscribeCodec, LightPushCodec} \<subseteq> set protocols)"

definition healthSpec :: "nat \<Rightarrow> healthStatus" where
  "healthSpec n = (if n \<ge> 2 then SufficientlyHealthy else if n = 1 then MinimallyHealthy else Unhealthy)"

definition servicePeers :: "string list option list \<Rightarrow> nat" where
  "servicePeers peers = length (filter supportsBoth peers)"

text \<open>What the code expects of the network: a peer supports both protocols or none.\<close>

definition uniformPeer :: "string list option \<Rightarrow> bool" where
  "uniformPeer q = (case q of None \<Rightarrow> True
     | Some protocols \<Rightarrow> (FilterSubscribeCodec \<in> set protocols) = (LightPushCodec \<in> set protocols))"

lemma healthSpec_mono: "m \<le> n \<Longrightarrow> healthSpec m \<le> healthSpec n"
  by (auto simp: healthSpec_def less_eq_healthStatus_def)

lemma supporting_uniform:
  "list_all uniformPeer peers \<Longrightarrow>
     supporting FilterSubscribeCodec peers = servicePeers peers \<and> supporting LightPushCodec peers = servicePeers peers"
  by (induction peers) (auto simp: supporting_def servicePeers_def supportsBoth_def uniformPeer_def split: option.splits)

lemma servicePeers_Nil [simp]: "servicePeers [] = 0"
  by (simp add: servicePeers_def)

lemma servicePeers_le_supporting: "servicePeers peers \<le> supporting FilterSubscribeCodec peers"
  by (induction peers) (auto simp: supporting_def servicePeers_def supportsBoth_def split: option.splits)

section \<open>Properties\<close>

text \<open>C39: When every peer supports both service protocols or neither, the status after a peer change is the documented one
  for the number of such peers, is what is dispatched, and does not depend on the past, except that a
  node whose connections all are to other peers keeps the status it had; a node without connections is unhealthy.\<close>

theorem health_documented:
  "list_all uniformPeer peers \<Longrightarrow>
     hi_value (onPeerChange peers H) =
       (if servicePeers peers = 0 \<and> peers \<noteq> [] then hi_value H else healthSpec (servicePeers peers)) \<and>
     hi_dispatched (onPeerChange peers H) = hi_dispatched H @ [hi_value (onPeerChange peers H)]"
  using supporting_uniform [of peers] servicePeers_Nil
  by (auto simp: onPeerChange_def Let_def healthSpec_def)

definition servicePeer :: "string list option" where
  "servicePeer = Some [FilterSubscribeCodec, LightPushCodec]"

theorem health_documented_witness:
  "hi_value (onPeerChange [servicePeer, None, servicePeer] newHealthIndicator) = SufficientlyHealthy"
proof -
  have "list_all uniformPeer [servicePeer, None, servicePeer]"
    by (simp add: uniformPeer_def servicePeer_def)
  moreover have "servicePeers [servicePeer, None, servicePeer] = 2"
    by (simp add: servicePeers_def supportsBoth_def servicePeer_def)
  ultimately show ?thesis
    using health_documented [of "[servicePeer, None, servicePeer]" newHealthIndicator] by (simp add: healthSpec_def)
qed

text \<open>
  Without uniform peers the status departs from the comment both ways: with two filter peers of which one is a
  light push peer it is left at the old value, and two peers with one protocol each make the node minimally
  healthy although no peer supports both.
\<close>

theorem health_not_documented:
  "hi_value (onPeerChange [servicePeer, Some [FilterSubscribeCodec]] newHealthIndicator) = Unhealthy \<and>
   servicePeers [servicePeer, Some [FilterSubscribeCodec]] = 1 \<and>
   hi_value (onPeerChange [Some [LightPushCodec], Some [FilterSubscribeCodec]] newHealthIndicator) = MinimallyHealthy \<and>
   servicePeers [Some [LightPushCodec], Some [FilterSubscribeCodec]] = 0"
  by (simp add: onPeerChange_def Let_def supporting_def servicePeers_def supportsBoth_def servicePeer_def
      newHealthIndicator_def FilterSubscribeCodec_def LightPushCodec_def)

end
