(* ===== verification/SdkLightPush.thy ===== *)
theory SdkLightPush
  imports CoreProtocol
begin

text \<open>
  \<open>packages/sdk/src/light_push/light_push.ts\<close>: a message is pushed to every peer of the peer manager, and the
  failures may be retried in the background.  The peers come as an argument; \<open>fn\<close> of a retry takes the number of the
  attempt as well, since two attempts on one peer may differ.
\<close>

section \<open>Definitions\<close>

definition DEFAULT_MAX_ATTEMPTS :: nat where "DEFAULT_MAX_ATTEMPTS = 3"

record senderOptions =
  so_autoRetry :: bool
  so_maxAttempts :: "nat option"

definition DEFAULT_SEND_OPTIONS :: senderOptions where
  "DEFAULT_SEND_OPTIONS = \<lparr>so_autoRetry = False, so_maxAttempts = Some DEFAULT_MAX_ATTEMPTS\<rparr>"

text \<open>The loop over the results, with the number of retries that were started.\<close>

fun sendResults :: "bool \<Rightarrow> 'p coreResult res list \<Rightarrow> 'p sdkResult \<times> nat \<Rightarrow> 'p sdkResult \<times> nat" where
  "sendResults autoRetry [] acc = acc"
| "sendResults autoRetry (r # rs) (acc, retries) =
     sendResults autoRetry rs
       (settleStep r acc, case r of Inr (CFailure _) \<Rightarrow> if autoRetry then retries + 1 else retries | _ \<Rightarrow> retries)"

definition lightPush_sdkSend ::
  "'p pushNet \<Rightarrow> string list \<Rightarrow> 'p list \<Rightarrow> iencoder \<Rightarrow> message \<Rightarrow> senderOptions \<Rightarrow> 'p sdkResult \<times> nat" where
  "lightPush_sdkSend N pubsubTopics peerIds encoder message options =
     (case ensurePubsubTopicIsConfigured (ie_pubsubTopic encoder) pubsubTopics of
        Inl _ \<Rightarrow> (\<lparr>sdk_successes = [], sdk_failures = [\<lparr>fl_error = TOPIC_NOT_CONFIGURED, fl_peerId = None\<rparr>]\<rparr>, 0)
      | Inr _ \<Rightarrow>
          if peerIds = []
          then (\<lparr>sdk_successes = [], sdk_failures = [\<lparr>fl_error = NO_PEER_AVAILABLE, fl_peerId = None\<rparr>]\<rparr>, 0)
          else sendResults (so_autoRetry options) (map (\<lambda>p. Inr (lightPush_send N encoder message p)) peerIds)
                 (\<lparr>sdk_successes = [], sdk_failures = []\<rparr>, 0))"

text \<open>The peers that are tried, in order, and how the loop ends: \<open>Inl\<close> is a rejection of \<open>fn\<close>.\<close>

fun retryLoop :: "(nat \<Rightarrow> 'p \<Rightarrow> 'p coreResult res) \<Rightarrow> 'p list \<Rightarrow> nat list \<Rightarrow> 'p list \<times> bool res" where
  "retryLoop fn peerIds [] = ([], Inr False)"
| "retryLoop fn peerIds (i # is) =
     (let p = peerIds ! (i mod length peerIds)
      in case fn i p of
           Inl e \<Rightarrow> ([p], Inl e)
         | Inr (CSuccess _) \<Rightarrow> ([p], Inr True)
         | Inr (CFailure _) \<Rightarrow> (case retryLoop fn peerIds is of (ps, r) \<Rightarrow> (p # ps, r)))"

definition attemptRetries :: "(nat \<Rightarrow> 'p \<Rightarrow> 'p coreResult res) \<Rightarrow> nat option \<Rightarrow> 'p list \<Rightarrow> 'p list \<times> bool res" where
  "attemptRetries fn maxAttempts peerIds =
     (let n = (if nullish maxAttempts 0 = 0 then DEFAULT_MAX_ATTEMPTS else nullish maxAttempts 0)
      in if peerIds = [] then ([], Inr False) else retryLoop fn peerIds [0..<n])"

section \<open>Lemmas\<close>

lemma sendResults_fst: "fst (sendResults autoRetry rs acc) = fold settleStep rs (fst acc)"
proof (induction rs arbitrary: acc)
  case (Cons r rs)
  then show ?case by (cases acc) simp
qed simp

lemma sendResults_snd:
  "snd (sendResults autoRetry rs acc) =
     snd acc + (if autoRetry then length (filter (\<lambda>r. case r of Inr (CFailure _) \<Rightarrow> True | _ \<Rightarrow> False) rs) else 0)"
proof (induction rs arbitrary: acc)
  case (Cons r rs)
  then show ?case by (cases acc) (simp split: sum.split coreResult.split)
qed simp

lemma sdkSend_peers:
  assumes "ie_pubsubTopic encoder \<in> set pubsubTopics" and "peerIds \<noteq> []"
  shows "fst (lightPush_sdkSend N pubsubTopics peerIds encoder message options) =
    settle (map (\<lambda>p. Inr (lightPush_send N encoder message p)) peerIds)"
  using assms by (simp add: lightPush_sdkSend_def ensurePubsubTopicIsConfigured_def sendResults_fst settle_def)

text \<open>The attempts of the loop: it stops after the first that is no failure.\<close>

lemma retryLoop_tried:
  "\<exists>k \<le> length is. fst (retryLoop fn peerIds is) = map (\<lambda>i. peerIds ! (i mod length peerIds)) (take k is) \<and>
     (\<forall>j < k - 1. \<exists>f. fn (is ! j) (peerIds ! ((is ! j) mod length peerIds)) = Inr (CFailure f)) \<and>
     (snd (retryLoop fn peerIds is) = Inr False \<longrightarrow> k = length is) \<and>
     (snd (retryLoop fn peerIds is) = Inr True \<longrightarrow>
        0 < k \<and> (\<exists>q. fn (is ! (k - 1)) (peerIds ! ((is ! (k - 1)) mod length peerIds)) = Inr (CSuccess q)))"
proof (induction "is")
  case Nil
  then show ?case by simp
next
  case (Cons i "is")
  let ?p = "peerIds ! (i mod length peerIds)"
  show ?case
  proof (cases "\<exists>f. fn i ?p = Inr (CFailure f)")
    case False
    then have "fst (retryLoop fn peerIds (i # is)) = [?p]" "snd (retryLoop fn peerIds (i # is)) \<noteq> Inr False"
      "snd (retryLoop fn peerIds (i # is)) = Inr True \<longrightarrow> (\<exists>q. fn i ?p = Inr (CSuccess q))"
      by (auto simp: Let_def split: sum.split coreResult.split)
    then show ?thesis by (intro exI [of _ 1]) simp
  next
    case True
    then have step: "fst (retryLoop fn peerIds (i # is)) = ?p # fst (retryLoop fn peerIds is)"
      "snd (retryLoop fn peerIds (i # is)) = snd (retryLoop fn peerIds is)"
      by (auto simp: Let_def split: prod.split)
    obtain k where k: "k \<le> length is"
      "fst (retryLoop fn peerIds is) = map (\<lambda>i. peerIds ! (i mod length peerIds)) (take k is)"
      "\<forall>j < k - 1. \<exists>f. fn (is ! j) (peerIds ! ((is ! j) mod length peerIds)) = Inr (CFailure f)"
      "snd (retryLoop fn peerIds is) = Inr False \<longrightarrow> k = length is"
      "snd (retryLoop fn peerIds is) = Inr True \<longrightarrow>
        0 < k \<and> (\<exists>q. fn (is ! (k - 1)) (peerIds ! ((is ! (k - 1)) mod length peerIds)) = Inr (CSuccess q))"
      using Cons.IH by blast
    have "\<exists>f. fn ((i # is) ! j) (peerIds ! (((i # is) ! j) mod length peerIds)) = Inr (CFailure f)" if "j < k" for j
      using that True k(3) by (cases j) auto
    moreover have "(i # is) ! k = is ! (k - 1)" if "0 < k" using that by (cases k) auto
    ultimately show ?thesis
      unfolding step using k by (intro exI [of _ "Suc k"]) (auto simp: simp del: retryLoop.simps)
  qed
qed

section \<open>Properties\<close>

text \<open>C20: A push reports every peer exactly once, in the order of the peers: the peers whose push succeeded, and one
  failure for each of the others, naming it. A topic that is not configured and a missing peer are single
  failures without a peer and nothing is sent. Retries are started once per failure, and only with \<open>autoRetry\<close>.\<close>

theorem light_push_reports_all_peers:
  "let (result, retries) = lightPush_sdkSend N pubsubTopics peerIds encoder message options;
       ok = (\<lambda>p. lightPush_send N encoder message p = CSuccess p);
       failed = filter (\<lambda>p. \<not> ok p) peerIds
   in if ie_pubsubTopic encoder \<notin> set pubsubTopics
      then sdk_successes result = [] \<and> map fl_error (sdk_failures result) = [TOPIC_NOT_CONFIGURED] \<and> retries = 0
      else if peerIds = []
      then sdk_successes result = [] \<and> map fl_error (sdk_failures result) = [NO_PEER_AVAILABLE] \<and> retries = 0
      else sdk_successes result = filter ok peerIds \<and>
           map fl_peerId (sdk_failures result) = map Some failed \<and>
           map (\<lambda>f. CFailure f) (sdk_failures result) = map (lightPush_send N encoder message) failed \<and>
           retries = (if so_autoRetry options then length failed else 0)"
proof -
  let ?send = "lightPush_send N encoder message"
  have fail: "\<exists>f. ?send p = CFailure f \<and> fl_peerId f = Some p" if "?send p \<noteq> CSuccess p" for p
    using that lightPush_send_about [of N encoder message p] by (auto simp: failWith_def)
  have ok: "push.succeeds N encoder message = (\<lambda>p. ?send p = CSuccess p)"
    by (simp add: push.succeeds_def fun_eq_iff)
  have failure: "CFailure (push.failureOf N encoder message p) = ?send p \<and>
      fl_peerId (push.failureOf N encoder message p) = Some p" if "?send p \<noteq> CSuccess p" for p
    using fail [OF that] by (auto simp: push.failureOf_def)
  have is_fail: "(case Inr (?send p) :: exn + _ of Inl _ \<Rightarrow> False | Inr (CSuccess _) \<Rightarrow> False | Inr (CFailure _) \<Rightarrow> True) = (?send p \<noteq> CSuccess p)" for p
    using lightPush_send_about [of N encoder message p] by (auto simp: failWith_def)
  have "snd (lightPush_sdkSend N pubsubTopics peerIds encoder message options) =
      (if so_autoRetry options then length (filter (\<lambda>p. ?send p \<noteq> CSuccess p) peerIds) else 0)"
    if "ie_pubsubTopic encoder \<in> set pubsubTopics" "peerIds \<noteq> []"
    using that is_fail by (simp add: lightPush_sdkSend_def ensurePubsubTopicIsConfigured_def sendResults_snd filter_map comp_def)
  moreover note sdkSend_peers [of encoder pubsubTopics peerIds N message options] push.settle_peers [of N encoder message peerIds]
  ultimately show ?thesis
    using failure
    by (auto simp: Let_def case_prod_unfold ok lightPush_sdkSend_def ensurePubsubTopicIsConfigured_def)
qed

text \<open>The retries go round the peers in order, at most \<open>maxAttempts\<close> of them (3 when it is missing or 0), each
  after a failure of the one before; they end with the first success, and without one only after all attempts or a rejection.\<close>

theorem retries_bounded:
  "let n = (if nullish maxAttempts 0 = 0 then 3 else nullish maxAttempts 0);
       (tried, result) = attemptRetries fn maxAttempts (p # ps)
   in tried = map (\<lambda>i. (p # ps) ! (i mod length (p # ps))) [0..<length tried] \<and> length tried \<le> n \<and>
      list_all (\<lambda>i. \<exists>f. fn i ((p # ps) ! (i mod length (p # ps))) = Inr (CFailure f)) [0..<length tried - 1] \<and>
      (case result of
         Inl e \<Rightarrow> True
       | Inr False \<Rightarrow> length tried = n
       | Inr True \<Rightarrow> tried \<noteq> [] \<and> (\<exists>q. fn (length tried - 1) (last tried) = Inr (CSuccess q)))"
proof -
  define n where "n = (if nullish maxAttempts 0 = 0 then 3 else nullish maxAttempts 0)"
  define peers where "peers = p # ps"
  have run: "attemptRetries fn maxAttempts peers = retryLoop fn peers [0..<n]"
    by (simp add: attemptRetries_def n_def DEFAULT_MAX_ATTEMPTS_def peers_def)
  obtain k where k: "k \<le> length [0..<n]" "fst (retryLoop fn peers [0..<n]) = map (\<lambda>i. peers ! (i mod length peers)) (take k [0..<n])"
      "\<forall>j < k - 1. \<exists>f. fn ([0..<n] ! j) (peers ! (([0..<n] ! j) mod length peers)) = Inr (CFailure f)"
      "snd (retryLoop fn peers [0..<n]) = Inr False \<longrightarrow> k = length [0..<n]"
      "snd (retryLoop fn peers [0..<n]) = Inr True \<longrightarrow>
        0 < k \<and> (\<exists>q. fn ([0..<n] ! (k - 1)) (peers ! (([0..<n] ! (k - 1)) mod length peers)) = Inr (CSuccess q))"
    using retryLoop_tried [of "[0..<n]" fn peers] by blast
  have tried: "fst (retryLoop fn peers [0..<n]) = map (\<lambda>i. peers ! (i mod length peers)) [0..<k]"
    using k(1,2) by (simp add: take_upt)
  have failed: "\<exists>f. fn j (peers ! (j mod length peers)) = Inr (CFailure f)" if "j < k - 1" for j
    using that k(1,3) by auto
  have "snd (retryLoop fn peers [0..<n]) = Inr True \<Longrightarrow>
      0 < k \<and> (\<exists>q. fn (k - 1) (last (map (\<lambda>i. peers ! (i mod length peers)) [0..<k])) = Inr (CSuccess q))"
    using k(1,5) by (auto simp: last_map)
  then show ?thesis
    unfolding run n_def [symmetric] peers_def [symmetric] Let_def case_prod_unfold tried
    using k(1,4) failed by (auto simp: list_all_iff split: sum.split bool.split)
qed

end
