(* ===== verification/SdkStore.thy ===== *)
theory SdkStore
  imports CoreStore
begin

text \<open>
  \<open>packages/sdk/src/store/store.ts\<close>: queries over decoders.  The pages come from \<open>queryPerPage\<close>; they are
  computed lazily, so a consumer that stops early sees a prefix of them.  The choice of \<open>Math.random\<close> is the
  argument \<open>pick\<close>, and the order in which the callbacks of a page settle is the argument \<open>settled\<close>.
\<close>

section \<open>Definitions\<close>

record 't sdkDecoder =
  sd_pubsubTopic :: string
  sd_contentTopic :: string
  sd_fromProtoObj :: "string \<Rightarrow> protoMessage \<Rightarrow> 't option res"

fun decodersAsMap :: "'t sdkDecoder list \<Rightarrow> 't decoders \<Rightarrow> 't decoders res" where
  "decodersAsMap [] m = Inr m"
| "decodersAsMap (dec # decs) m =
     (if jm_has m (sd_contentTopic dec) then Inl (Error ''API does not support different decoder per content topic'')
      else decodersAsMap decs (jm_set (sd_contentTopic dec) (sd_fromProtoObj dec) m))"

definition validateDecodersAndPubsubTopic ::
  "string list \<Rightarrow> 't sdkDecoder list \<Rightarrow> (string \<times> string list \<times> 't decoders) res" where
  "validateDecodersAndPubsubTopic configured decs =
     (if decs = [] then Inl (Error ''No decoders provided'')
      else
        let uniquePubsubTopicsInQuery = uniq (map sd_pubsubTopic decs)
        in if length uniquePubsubTopicsInQuery > 1
           then Inl (Error ''API does not support querying multiple pubsub topics at once'')
           else
             let topic = hd uniquePubsubTopicsInQuery
             in rbind (ensurePubsubTopicIsConfigured topic configured)
                  (\<lambda>_. rbind (decodersAsMap decs [])
                    (\<lambda>m. let contentTopics = map sd_contentTopic (filter (\<lambda>d. sd_pubsubTopic d = topic) decs)
                         in if contentTopics = [] then Inl (Error ''No decoders found for topic'')
                            else Inr (topic, contentTopics, m))))"

text \<open>\<open>...options\<close> of a \<open>Partial<QueryRequestParams>\<close>: a property that is there wins, also with \<open>undefined\<close>.\<close>

record queryOverrides =
  qo_includeData :: "bool jsprop"
  qo_pubsubTopic :: "string jsprop"
  qo_contentTopics :: "string list jsprop"
  qo_timeStart :: "date jsprop"
  qo_timeEnd :: "date jsprop"
  qo_messageHashes :: "bytes list jsprop"
  qo_paginationCursor :: "bytes jsprop"
  qo_paginationForward :: "bool jsprop"
  qo_paginationLimit :: "int jsprop"

definition noOverrides :: queryOverrides where
  "noOverrides = \<lparr>qo_includeData = Absent, qo_pubsubTopic = Absent, qo_contentTopics = Absent, qo_timeStart = Absent,
     qo_timeEnd = Absent, qo_messageHashes = Absent, qo_paginationCursor = Absent, qo_paginationForward = Absent,
     qo_paginationLimit = Absent\<rparr>"

definition spreadBool :: "bool jsprop \<Rightarrow> bool \<Rightarrow> bool" where
  "spreadBool p d = (if present p then nullish (propVal p) False else d)"

definition queryOptsOf :: "string \<Rightarrow> string list \<Rightarrow> queryOverrides \<Rightarrow> queryRequestParams" where
  "queryOptsOf pubsubTopic contentTopics options =
     \<lparr>qp_includeData = spreadBool (qo_includeData options) True,
      qp_pubsubTopic = spread (qo_pubsubTopic options) (Some pubsubTopic),
      qp_contentTopics = spread (qo_contentTopics options) (Some contentTopics),
      qp_timeStart = spread (qo_timeStart options) None,
      qp_timeEnd = spread (qo_timeEnd options) None,
      qp_messageHashes = spread (qo_messageHashes options) None,
      qp_paginationCursor = spread (qo_paginationCursor options) None,
      qp_paginationForward = spreadBool (qo_paginationForward options) True,
      qp_paginationLimit = spread (qo_paginationLimit options) None\<rparr>"

text \<open>
  \<open>getPeerToUse\<close>: \<open>connectedPeers\<close> is what \<open>getConnectedPeers\<close> returns. The peer that was asked for is
  looked up, and not used.
\<close>

definition getPeerToUse :: "string option \<Rightarrow> string list \<Rightarrow> (nat \<Rightarrow> nat) \<Rightarrow> string list \<Rightarrow> string option" where
  "getPeerToUse optionPeer connectedPeers pick peerIds =
     (let peerId = (if truthyStr optionPeer then find (\<lambda>p. Some p = optionPeer) connectedPeers else None)
      in if peerIds \<noteq> [] then Some (peerIds ! pick (length peerIds)) else None)"

record storeSdk =
  ss_pubsubTopics :: "string list"
  ss_optionPeer :: "string option"
  ss_connectedPeers :: "string list"
  ss_peers :: "string list"
  ss_pick :: "nat \<Rightarrow> nat"

text \<open>\<open>fuel\<close> bounds the turns of the inner generator.\<close>

definition queryGenerator ::
  "nat \<Rightarrow> string storeNet \<Rightarrow> storeSdk \<Rightarrow> 't sdkDecoder list \<Rightarrow> queryOverrides \<Rightarrow> 't option res list list \<times> queryEnd" where
  "queryGenerator fuel N S decs options =
     (case validateDecodersAndPubsubTopic (ss_pubsubTopics S) decs of
        Inl e \<Rightarrow> ([], Threw e)
      | Inr (pubsubTopic, contentTopics, m) \<Rightarrow>
          (case getPeerToUse (ss_optionPeer S) (ss_connectedPeers S) (ss_pick S) (ss_peers S) of
             None \<Rightarrow> ([], Threw (Error ''No peers available to query''))
           | Some peer \<Rightarrow> queryPerPage fuel N (queryOptsOf pubsubTopic contentTopics options) m peer))"

text \<open>
  \<open>processMessages\<close>: the callbacks of a page are all called, in order, before the first \<open>await\<close> returns, so
  the test of \<open>abort\<close> never skips one; the last to settle decides. The list is what the callback was called on.
\<close>

definition processMessages :: "('t \<Rightarrow> bool res) \<Rightarrow> ('t list \<Rightarrow> 't list) \<Rightarrow> 't option res list \<Rightarrow> 't list \<times> bool res" where
  "processMessages callback settled messages =
     (case mapM id messages of
        Inl e \<Rightarrow> ([], Inl e)
      | Inr messagesOrUndef \<Rightarrow>
          let processedMessages = List.map_filter id messagesOrUndef
          in (processedMessages,
              rbind (mapM callback processedMessages)
                (\<lambda>_. Inr (case settled processedMessages of
                            [] \<Rightarrow> False
                          | m # ms \<Rightarrow> (case callback (last (m # ms)) of Inl _ \<Rightarrow> False | Inr b \<Rightarrow> b)))))"

fun queryWithOrderedCallback_loop ::
  "('t \<Rightarrow> bool res) \<Rightarrow> ('t list \<Rightarrow> 't list) \<Rightarrow> queryEnd \<Rightarrow> 't option res list list \<Rightarrow> 't list \<times> queryEnd" where
  "queryWithOrderedCallback_loop callback settled end [] = ([], end)"
| "queryWithOrderedCallback_loop callback settled end (page # pages) =
     (case processMessages callback settled page of
        (calls, Inl e) \<Rightarrow> (calls, Threw e)
      | (calls, Inr True) \<Rightarrow> (calls, Finished)
      | (calls, Inr False) \<Rightarrow>
          (case queryWithOrderedCallback_loop callback settled end pages of (calls', r) \<Rightarrow> (calls @ calls', r)))"

definition queryWithOrderedCallback ::
  "nat \<Rightarrow> string storeNet \<Rightarrow> storeSdk \<Rightarrow> ('t list \<Rightarrow> 't list) \<Rightarrow> 't sdkDecoder list \<Rightarrow> ('t \<Rightarrow> bool res) \<Rightarrow> queryOverrides \<Rightarrow>
     't list \<times> queryEnd" where
  "queryWithOrderedCallback fuel N S settled decs callback options =
     (case queryGenerator fuel N S decs options of
        (pages, r) \<Rightarrow> queryWithOrderedCallback_loop callback settled r pages)"

text \<open>With promises the callback also gets the messages that were not decoded, and the failures.\<close>

fun queryWithPromiseCallback_loop ::
  "('t option res \<Rightarrow> bool res) \<Rightarrow> ('t option res list \<Rightarrow> 't option res list) \<Rightarrow> queryEnd \<Rightarrow> 't option res list list \<Rightarrow>
     't option res list \<times> queryEnd" where
  "queryWithPromiseCallback_loop callback settled end [] = ([], end)"
| "queryWithPromiseCallback_loop callback settled end (page # pages) =
     (case mapM callback page of
        Inl e \<Rightarrow> (page, Threw e)
      | Inr _ \<Rightarrow>
          let abort = (case settled page of
                         [] \<Rightarrow> False
                       | m # ms \<Rightarrow> (case callback (last (m # ms)) of Inl _ \<Rightarrow> False | Inr b \<Rightarrow> b))
          in if abort then (page, Finished)
             else (case queryWithPromiseCallback_loop callback settled end pages of (calls', r) \<Rightarrow> (page @ calls', r)))"

definition queryWithPromiseCallback ::
  "nat \<Rightarrow> string storeNet \<Rightarrow> storeSdk \<Rightarrow> ('t option res list \<Rightarrow> 't option res list) \<Rightarrow> 't sdkDecoder list \<Rightarrow>
     ('t option res \<Rightarrow> bool res) \<Rightarrow> queryOverrides \<Rightarrow> 't option res list \<times> queryEnd" where
  "queryWithPromiseCallback fuel N S settled decs callback options =
     (case queryGenerator fuel N S decs options of
        (pages, r) \<Rightarrow> queryWithPromiseCallback_loop callback settled r pages)"

section \<open>Lemmas\<close>

lemma decodersAsMap_Inr:
  "decodersAsMap decs m = Inr m' \<Longrightarrow> distinct (jm_keys m) \<Longrightarrow>
     jm_keys m' = jm_keys m @ map sd_contentTopic decs \<and> distinct (jm_keys m')"
proof (induction decs arbitrary: m)
  case Nil
  then show ?case by simp
next
  case (Cons d decs)
  then have new: "\<not> jm_has m (sd_contentTopic d)"
    and rest: "decodersAsMap decs (jm_set (sd_contentTopic d) (sd_fromProtoObj d) m) = Inr m'"
    by (auto split: if_splits)
  have keys: "jm_keys (jm_set (sd_contentTopic d) (sd_fromProtoObj d) m) = jm_keys m @ [sd_contentTopic d]"
    using new by (simp add: jm.keys_set jm_has_def)
  have "distinct (jm_keys (jm_set (sd_contentTopic d) (sd_fromProtoObj d) m))"
    using Cons.prems(2) new by (simp add: keys jm_has_iff)
  from Cons.IH [OF rest this] show ?case unfolding keys by (elim conjE, intro conjI) simp_all
qed

lemma validateDecoders_Inr:
  assumes "validateDecodersAndPubsubTopic configured decs = Inr (topic, contentTopics, m)"
  shows "contentTopics = map sd_contentTopic decs" "jm_keys m = contentTopics" "distinct contentTopics"
    "topic \<in> set configured" "\<And>d. d \<in> set decs \<Longrightarrow> sd_pubsubTopic d = topic"
proof -
  have decs: "decs \<noteq> []" "length (uniq (map sd_pubsubTopic decs)) \<le> 1"
    and topic: "topic = hd (uniq (map sd_pubsubTopic decs))" "topic \<in> set configured"
    and m: "decodersAsMap decs [] = Inr m"
    and cts: "contentTopics = map sd_contentTopic (filter (\<lambda>d. sd_pubsubTopic d = topic) decs)"
    using assms
    by (auto simp: validateDecodersAndPubsubTopic_def Let_def rbind_eq_Inr ensurePubsubTopicIsConfigured_def split: if_splits)
  have "length (uniq (map sd_pubsubTopic decs)) = 1" using decs by (cases "uniq (map sd_pubsubTopic decs)") auto
  then have "\<forall>x \<in> set (map sd_pubsubTopic decs). x = hd (map sd_pubsubTopic decs)"
    unfolding uniq_singleton_iff by blast
  moreover have "topic = hd (map sd_pubsubTopic decs)" using decs(1) topic(1) by (cases decs) auto
  ultimately show all: "\<And>d. d \<in> set decs \<Longrightarrow> sd_pubsubTopic d = topic" by simp
  then show "contentTopics = map sd_contentTopic decs" using cts by (simp cong: filter_cong)
  then show "jm_keys m = contentTopics" "distinct contentTopics" using decodersAsMap_Inr [OF m] by auto
  show "topic \<in> set configured" by (rule topic(2))
qed

text \<open>One page, and all pages, when every message can be decoded and no callback asks to stop.\<close>

definition delivered :: "'t option res list \<Rightarrow> 't list" where
  "delivered page = List.map_filter (\<lambda>r. case r of Inl _ \<Rightarrow> None | Inr x \<Rightarrow> x) page"

lemma delivered_append: "delivered (xs @ ys) = delivered xs @ delivered ys"
  by (simp add: delivered_def List.map_filter_def)

lemma mapM_id_delivered: "mapM id page = Inr xs \<Longrightarrow> List.map_filter id xs = delivered page"
  by (induction page arbitrary: xs) (auto simp: delivered_def List.map_filter_def rbind_eq_Inr)

lemma mapM_id_ok: "list_all (\<lambda>r. \<not> isl r) page \<Longrightarrow> \<exists>xs. mapM id page = Inr xs"
proof (induction page)
  case (Cons r page)
  then show ?case by (cases r) auto
qed simp

lemma mapM_callback_ok: "(\<And>x. callback x = Inr False) \<Longrightarrow> mapM callback xs = Inr (map (\<lambda>_. False) xs)"
  by (induction xs) auto

lemma processMessages_continue:
  "list_all (\<lambda>r. \<not> isl r) page \<Longrightarrow> (\<And>x. callback x = Inr False) \<Longrightarrow>
     processMessages callback settled page = (delivered page, Inr False)"
  using mapM_id_ok [of page] mapM_id_delivered [of page]
  by (auto simp: processMessages_def Let_def mapM_callback_ok split: list.split)

lemma ordered_loop_continue:
  "list_all (list_all (\<lambda>r. \<not> isl r)) pages \<Longrightarrow> (\<And>x. callback x = Inr False) \<Longrightarrow>
     queryWithOrderedCallback_loop callback settled end pages = (delivered (concat pages), end)"
  by (induction pages) (auto simp: processMessages_continue delivered_append, simp add: delivered_def List.map_filter_def)

lemma list_all_concat: "list_all P (concat xss) = list_all (list_all P) xss"
  by (auto simp: list_all_iff)

text \<open>
  A request to stop inside a page: every callback of the page is called, and when the callbacks settle in
  their order only the answer of the last one counts.
\<close>

theorem abort_decided_by_last:
  "list_all (\<lambda>r. \<not> isl r) page \<Longrightarrow> mapM callback (delivered page) = Inr answers \<Longrightarrow>
     processMessages callback (\<lambda>ms. ms) page = (delivered page, Inr (answers \<noteq> [] \<and> last answers))"
proof -
  assume page: "list_all (\<lambda>r. \<not> isl r) page" and answers: "mapM callback (delivered page) = Inr answers"
  obtain xs where xs: "mapM id page = Inr xs" "List.map_filter id xs = delivered page"
    using mapM_id_ok [OF page] mapM_id_delivered by blast
  have rel: "list_all2 (\<lambda>x y. callback x = Inr y) (delivered page) answers" using answers by (simp add: mapM_Inr_iff)
  show ?thesis
  proof (cases "delivered page" rule: rev_cases)
    case Nil
    then show ?thesis using xs answers by (simp add: processMessages_def)
  next
    case (snoc init m)
    then obtain ys y where "answers = ys @ [y]" "callback m = Inr y"
      using rel by (auto simp: list_all2_append1 list_all2_Cons1)
    then show ?thesis
      using xs answers snoc by (cases "init") (simp_all add: processMessages_def)
  qed
qed

text \<open>The configured peer is looked up and then ignored.\<close>

theorem configured_peer_ignored:
  "getPeerToUse optionPeer connectedPeers pick peerIds = getPeerToUse None [] pick peerIds"
  by (simp add: getPeerToUse_def)

text \<open>A query with ordered callback over a node that answers page by page.\<close>

lemma ordered_query:
  assumes "validateDecodersAndPubsubTopic (ss_pubsubTopics S) decs = Inr (topic, contentTopics, m)"
    and "ss_peers S \<noteq> []" and "p = ss_peers S ! ss_pick S (length (ss_peers S))"
    and "storeAnswers N (queryOptsOf topic contentTopics noOverrides) p k ms"
    and "0 < k" and "k \<le> 100" and "distinctHashes ms" and "length ms + k \<le> k * fuel"
    and "list_all (\<lambda>kv. \<not> isl (decodeStored m kv)) ms" and "\<And>x. callback x = Inr False"
  shows "queryWithOrderedCallback fuel N S settled decs callback noOverrides =
    (delivered (map (decodeStored m) ms), Finished)"
proof -
  let ?opts = "queryOptsOf topic contentTopics noOverrides"
  have opts: "qp_paginationForward ?opts" "qp_contentTopics ?opts = Some contentTopics" "qp_paginationCursor ?opts = None"
    by (simp_all add: queryOptsOf_def noOverrides_def spreadBool_def spread_def)
  obtain pages where pages: "queryPages fuel N ?opts m p None = (pages, Finished)"
      "concat pages = map (decodeStored m) ms"
    using queryPages_forward [OF assms(4-7) opts(1), of "[]" ms None fuel m] assms(8) by auto
  have "queryGenerator fuel N S decs noOverrides = (pages, Finished)"
    using assms(1-3) validateDecoders_Inr(2) [OF assms(1)] pages(1) opts(2,3)
    by (simp add: queryGenerator_def getPeerToUse_def queryPerPage_def)
  moreover have "list_all (list_all (\<lambda>r. \<not> isl r)) pages"
    using assms(9) unfolding list_all_concat [symmetric] pages(2) by (simp add: list_all_iff)
  ultimately show ?thesis
    using ordered_loop_continue [of pages callback settled Finished] assms(10) pages(2)
    by (simp add: queryWithOrderedCallback_def)
qed

section \<open>Properties\<close>

text \<open>C8: A query with ordered callback over a node that holds \<open>ms\<close> and answers page by page hands over every message of
  the store that its decoders accept, each once and in the order of the store, over as many pages as it takes, and
  then ends, when all can be decoded and no callback asks to stop. The decoders only have to be valid: at least one, one configured pubsub topic,
  one decoder per content topic.\<close>

theorem ordered_query_delivers_store:
  assumes "validateDecodersAndPubsubTopic (ss_pubsubTopics S) decs = Inr (topic, contentTopics, m)"
    and "ss_peers S \<noteq> []" and "p = ss_peers S ! ss_pick S (length (ss_peers S))"
    and "storeAnswers N (queryOptsOf topic contentTopics noOverrides) p k ms"
    and "0 < k" and "k \<le> 100" and "distinctHashes ms" and "length ms + k \<le> k * fuel"
    and "list_all (\<lambda>kv. \<not> isl (decodeStored m kv)) ms" and "\<And>x. callback x = Inr False"
  shows "queryWithOrderedCallback fuel N S settled decs callback noOverrides =
    (delivered (map (decodeStored m) ms), Finished)"
  using assms by (rule ordered_query)

definition demoStoreSdk :: storeSdk where
  "demoStoreSdk = \<lparr>ss_pubsubTopics = [''t''], ss_optionPeer = None, ss_connectedPeers = [], ss_peers = [''p''],
     ss_pick = (\<lambda>_. 0)\<rparr>"

definition demoDecoder :: "bytes sdkDecoder" where
  "demoDecoder = \<lparr>sd_pubsubTopic = ''t'', sd_contentTopic = ''c'', sd_fromProtoObj = (\<lambda>t m. Inr (Some (pm_payload m)))\<rparr>"

theorem ordered_query_delivers_store_witness:
  "queryWithOrderedCallback 3 demoStoreNet demoStoreSdk (\<lambda>ms. ms) [demoDecoder] (\<lambda>_. Inr False) noOverrides =
     ([[0], [1], [2]], Finished)"
proof -
  have "queryWithOrderedCallback 3 demoStoreNet demoStoreSdk (\<lambda>ms. ms) [demoDecoder] (\<lambda>_. Inr False) noOverrides =
      (delivered (map (decodeStored [(''c'', sd_fromProtoObj demoDecoder)]) (map demoStored [0, 1, 2])), Finished)"
  proof (rule ordered_query_delivers_store [where k = 2 and p = "''p''" and topic = "''t''" and contentTopics = "[''c'']"])
    show "validateDecodersAndPubsubTopic (ss_pubsubTopics demoStoreSdk) [demoDecoder] =
        Inr (''t'', [''c''], [(''c'', sd_fromProtoObj demoDecoder)])"
      by (simp add: validateDecodersAndPubsubTopic_def demoStoreSdk_def demoDecoder_def ensurePubsubTopicIsConfigured_def
          jm_has_def jm_set_def Let_def)
    show "storeAnswers demoStoreNet (queryOptsOf ''t'' [''c''] noOverrides) ''p'' 2 (map demoStored [0, 1, 2])"
      by (auto simp: storeAnswers_def demoStoreNet_def queryOptsOf_def noOverrides_def spreadBool_def spread_def storeQuery_create_def
          storeTime_def truthyStr_def split: option.split)
    show "distinctHashes (map demoStored [0, 1, 2])" by (auto simp: distinctHashes_def demoStored_def)
  qed (simp_all add: demoStoreSdk_def decodeStored_def demoStored_def demoDecoder_def jm_get_def)
  then show ?thesis
    by (simp add: decodeStored_def demoStored_def demoDecoder_def jm_get_def delivered_def List.map_filter_def
        toProtoMessage_def)
qed

end
