(* ===== verification/SdkFilter.thy ===== *)
theory SdkFilter
  imports CoreFilter PeerManager
begin

text \<open>
  \<open>packages/sdk/src/filter\<close>: the subscriptions of a node by pubsub topic, the callbacks of each by content topic, and the
  monitor that follows its peers.  A method that waits for peers is cut where it calls them: what it sends is a
  result, and the answers are an argument of its second half.  The connections are those of the peer manager.
  The messages handed to callbacks are a log in the state, with the hash they were recognised by.
\<close>

section \<open>Configuration\<close>

definition DEFAULT_KEEP_ALIVE :: int where "DEFAULT_KEEP_ALIVE = 60000"
definition DEFAULT_MAX_PINGS :: int where "DEFAULT_MAX_PINGS = 3"
definition DEFAULT_LIGHT_PUSH_FILTER_CHECK :: bool where "DEFAULT_LIGHT_PUSH_FILTER_CHECK = False"

record filterConfig =
  fc_keepAliveIntervalMs :: int
  fc_pingsBeforePeerRenewed :: int
  fc_enableLightPushFilterCheck :: bool

definition orNum :: "int option \<Rightarrow> int \<Rightarrow> int" where
  "orNum a d = (if nullish a 0 = 0 then d else nullish a 0)"

definition buildConfig :: "int option \<Rightarrow> int option \<Rightarrow> bool option \<Rightarrow> filterConfig" where
  "buildConfig keepAliveIntervalMs pingsBeforePeerRenewed enableLightPushFilterCheck =
     \<lparr>fc_keepAliveIntervalMs = orNum keepAliveIntervalMs DEFAULT_KEEP_ALIVE,
      fc_pingsBeforePeerRenewed = orNum pingsBeforePeerRenewed DEFAULT_MAX_PINGS,
      fc_enableLightPushFilterCheck =
        (if nullish enableLightPushFilterCheck False then True else DEFAULT_LIGHT_PUSH_FILTER_CHECK)\<rparr>"

section \<open>State\<close>

record 't subDecoder =
  fd_pubsubTopic :: string
  fd_contentTopic :: string
  fd_fromProtoObj :: "string \<Rightarrow> wireMessage \<Rightarrow> 't option res"

text \<open>A callback is known by a number.\<close>

record 't subscription =
  su_pubsubTopic :: string
  su_callbacks :: "(string, 't subDecoder list \<times> nat) jsmap"
  su_peerIds :: "string list"
  su_isStarted :: bool
  su_keepAlive :: bool
  su_pingFailed :: "(string, int) jsmap"
  su_received :: "string list"
  su_receivedFromPeer :: "string list"
  su_verifiedPeers :: "string list"
  su_log :: "(string \<times> nat \<times> 't) list"

definition newSubscription :: "string \<Rightarrow> 't subscription" where
  "newSubscription pubsubTopic = \<lparr>su_pubsubTopic = pubsubTopic, su_callbacks = [], su_peerIds = [], su_isStarted = False,
     su_keepAlive = False, su_pingFailed = [], su_received = [], su_receivedFromPeer = [], su_verifiedPeers = [], su_log = []\<rparr>"

section \<open>subscription_monitor.ts\<close>

definition MAX_SUBSCRIBE_ATTEMPTS :: nat where "MAX_SUBSCRIBE_ATTEMPTS = 3"

definition reservedContentTopic :: "string \<Rightarrow> string" where
  "reservedContentTopic ownPeerId = ''/js-waku-subscription-ping/1/'' @ ownPeerId @ ''/utf8''"

definition startKeepAlive :: "'t subscription \<Rightarrow> 't subscription" where
  "startKeepAlive S = (if su_keepAlive S then S else S\<lparr>su_keepAlive := True\<rparr>)"

definition stopKeepAlive :: "'t subscription \<Rightarrow> 't subscription" where
  "stopKeepAlive S = (if \<not> su_keepAlive S then S else S\<lparr>su_keepAlive := False\<rparr>)"

lemma keepAlive_timer [simp]: "startKeepAlive S = S\<lparr>su_keepAlive := True\<rparr>" "stopKeepAlive S = S\<lparr>su_keepAlive := False\<rparr>"
  by (simp_all add: startKeepAlive_def stopKeepAlive_def)

definition monitor_start :: "'t subscription \<Rightarrow> 't subscription" where
  "monitor_start S = (if su_isStarted S then S else startKeepAlive (S\<lparr>su_isStarted := True\<rparr>))"

definition monitor_stop :: "'t subscription \<Rightarrow> 't subscription" where
  "monitor_stop S = (if \<not> su_isStarted S then S else stopKeepAlive (S\<lparr>su_isStarted := False\<rparr>))"

definition monitor_getPeers :: "lockConn list \<Rightarrow> 't subscription \<Rightarrow> 't subscription" where
  "monitor_getPeers conns S = (if \<not> su_isStarted S then S\<lparr>su_peerIds := getPeers conns\<rparr> else S)"

definition notifyMessageReceived :: "string \<Rightarrow> string \<Rightarrow> 't subscription \<Rightarrow> 't subscription \<times> bool" where
  "notifyMessageReceived peerId hash S =
     (let S1 = S\<lparr>su_verifiedPeers := set_add peerId (su_verifiedPeers S),
                 su_receivedFromPeer := set_add (peerId @ ''-'' @ hash) (su_receivedFromPeer S)\<rparr>
      in if hash \<in> set (su_received S1) then (S1, True)
         else (S1\<lparr>su_received := set_add hash (su_received S1)\<rparr>, False))"

text \<open>
  \<open>subscribe\<close> of the monitor: \<open>ask i p\<close> is the answer of the \<open>i\<close>-th request. The result holds the peers that were asked, in
  order, and \<open>Inl\<close> when a request was rejected.
\<close>

fun monitor_subscribe ::
  "(nat \<Rightarrow> string \<Rightarrow> string coreResult res) \<Rightarrow> int \<Rightarrow> nat list \<Rightarrow> string option \<Rightarrow> lockConn list \<Rightarrow>
     lockConn list \<times> string list \<times> unit res" where
  "monitor_subscribe ask n [] peerId conns = (conns, [], Inr ())"
| "monitor_subscribe ask n (i # is) None conns = (conns, [], Inr ())"
| "monitor_subscribe ask n (i # is) (Some p) conns =
     (case ask i p of
        Inl e \<Rightarrow> (conns, [p], Inl e)
      | Inr (CSuccess _) \<Rightarrow> (conns, [p], Inr ())
      | Inr (CFailure _) \<Rightarrow>
          (case requestRenew n p conns of
             (conns', peerId') \<Rightarrow>
               (case monitor_subscribe ask n is peerId' conns' of (conns'', ps, r) \<Rightarrow> (conns'', p # ps, r))))"

text \<open>
  The end of a \<open>ping\<close>, on the answer of the peer: the new state, and the peer of the \<open>subscribe\<close> that follows, if one
  follows.
\<close>

definition monitor_ping ::
  "filterConfig \<Rightarrow> int \<Rightarrow> string \<Rightarrow> bool \<Rightarrow> string coreResult \<Rightarrow> 't subscription \<times> lockConn list \<Rightarrow>
     ('t subscription \<times> lockConn list) \<times> string option option" where
  "monitor_ping config n peerId renewOnFirstFail response S =
     (case S of (sub, conns) \<Rightarrow>
        let failed = (case response of CFailure _ \<Rightarrow> True | CSuccess _ \<Rightarrow> False)
        in if failed \<and> renewOnFirstFail
           then (case requestRenew n peerId conns of (conns', newPeer) \<Rightarrow> ((sub, conns'), Some newPeer))
           else
             let prev = nullish (jm_get (su_pingFailed sub) peerId) 0;
                 sub1 = (if failed then sub\<lparr>su_pingFailed := jm_set peerId (prev + 1) (su_pingFailed sub)\<rparr>
                         else sub\<lparr>su_pingFailed := jm_set peerId 0 (su_pingFailed sub)\<rparr>);
                 madeAttempts = nullish (jm_get (su_pingFailed sub1) peerId) 0
             in if madeAttempts \<ge> fc_pingsBeforePeerRenewed config
                then (case requestRenew n peerId conns of (conns', newPeer) \<Rightarrow> ((sub1, conns'), Some newPeer))
                else ((sub1, conns), None))"

text \<open>The listeners; each returns the peers it then calls \<open>subscribe\<close> (or, on a new connection status, \<open>ping\<close>) for.\<close>

definition monitor_onConnectionChange :: "bool \<Rightarrow> 't subscription \<Rightarrow> 't subscription \<times> string list" where
  "monitor_onConnectionChange isConnected S =
     (if \<not> isConnected then (stopKeepAlive S, []) else (S, su_peerIds S))"

definition monitor_onConnectionChange_end :: "'t subscription \<Rightarrow> 't subscription" where
  "monitor_onConnectionChange_end S = startKeepAlive S"

definition monitor_onPeerConnected :: "lockConn list \<Rightarrow> 't subscription \<Rightarrow> 't subscription \<times> string list" where
  "monitor_onPeerConnected conns S =
     (if su_peerIds S \<noteq> [] then (S, []) else (S\<lparr>su_peerIds := getPeers conns\<rparr>, getPeers conns))"

definition monitor_onPeerDisconnected :: "string \<Rightarrow> lockConn list \<Rightarrow> 't subscription \<Rightarrow> 't subscription \<times> string list" where
  "monitor_onPeerDisconnected p conns S =
     (if p \<notin> set (su_peerIds S) then (S, []) else (S\<lparr>su_peerIds := getPeers conns\<rparr>, getPeers conns))"

section \<open>subscription.ts\<close>

text \<open>
  The first half of \<open>subscribe\<close>: a mismatch ends it; otherwise the peers and content topics that are asked, the grouped
  decoders, and the array of decoders, which is the caller's own one and has grown with the filter check.
\<close>

record 't subscribeRequest =
  sr_decoders :: "'t subDecoder list"
  sr_grouped :: "(string, 't subDecoder list) jsmap"
  sr_peers :: "string list"
  sr_contentTopics :: "string list"

definition subscription_subscribe ::
  "filterConfig \<Rightarrow> (string \<Rightarrow> string \<Rightarrow> 't subDecoder) \<Rightarrow> string \<Rightarrow> lockConn list \<Rightarrow> 't subDecoder list \<Rightarrow> 't subscription \<Rightarrow>
     string sdkResult + ('t subscription \<times> 't subscribeRequest)" where
  "subscription_subscribe config decoderFor ownPeerId conns decoders S =
     (if \<exists>d \<in> set decoders. fd_pubsubTopic d \<noteq> su_pubsubTopic S
      then Inl \<lparr>sdk_successes = [], sdk_failures = [\<lparr>fl_error = TOPIC_DECODER_MISMATCH, fl_peerId = None\<rparr>]\<rparr>
      else
        let decodersArray = (if fc_enableLightPushFilterCheck config
                             then decoders @ [decoderFor (reservedContentTopic ownPeerId) (su_pubsubTopic S)] else decoders);
            grouped = groupByKey fd_contentTopic decodersArray;
            S1 = monitor_getPeers conns S
        in Inr (S1, \<lparr>sr_decoders = decodersArray, sr_grouped = grouped, sr_peers = su_peerIds S1,
                     sr_contentTopics = jm_keys grouped\<rparr>))"

definition saveCallbacks ::
  "string \<Rightarrow> (string, 't subDecoder list) jsmap \<Rightarrow> nat \<Rightarrow> (string, 't subDecoder list \<times> nat) jsmap \<Rightarrow>
     (string, 't subDecoder list \<times> nat) jsmap" where
  "saveCallbacks reserved grouped callback callbacks =
     fold (\<lambda>(contentTopic, decoders) m. if contentTopic = reserved then m else jm_set contentTopic (decoders, callback) m)
       grouped callbacks"

definition subscription_subscribed ::
  "string \<Rightarrow> 't subscribeRequest \<Rightarrow> nat \<Rightarrow> string coreResult res list \<Rightarrow> 't subscription \<Rightarrow> 't subscription \<times> string sdkResult" where
  "subscription_subscribed ownPeerId request callback results S =
     (monitor_start (S\<lparr>su_callbacks := saveCallbacks (reservedContentTopic ownPeerId) (sr_grouped request) callback (su_callbacks S)\<rparr>),
      settle results)"

text \<open>
  \<open>unsubscribe\<close>: the content topics are forgotten in the continuation of each request that was not rejected.
\<close>

definition subscription_unsubscribed ::
  "string list \<Rightarrow> string coreResult res list \<Rightarrow> 't subscription \<Rightarrow> 't subscription \<times> string sdkResult" where
  "subscription_unsubscribed contentTopics results S =
     (let S1 = fold (\<lambda>r S. case r of Inl _ \<Rightarrow> S
                         | Inr _ \<Rightarrow> S\<lparr>su_callbacks := fold jm_delete contentTopics (su_callbacks S)\<rparr>) results S
      in (if su_callbacks S1 = [] then monitor_stop S1 else S1, settle results))"

definition subscription_unsubscribedAll :: "string coreResult res list \<Rightarrow> 't subscription \<Rightarrow> 't subscription \<times> string sdkResult" where
  "subscription_unsubscribedAll results S = (monitor_stop (S\<lparr>su_callbacks := []\<rparr>), settle results)"

definition subscription_ping :: "string filterNet \<Rightarrow> lockConn list \<Rightarrow> 't subscription \<Rightarrow> 't subscription \<times> string sdkResult" where
  "subscription_ping N conns S =
     (let S1 = monitor_getPeers conns S in (S1, settle (map (filter_ping N) (su_peerIds S1))))"

text \<open>
  \<open>pushMessage\<close>: \<open>Promise.any\<close> gives the first decoder that succeeds; \<open>first\<close> is the order in which they do.
\<close>

definition pushMessage ::
  "('t list \<Rightarrow> 't list) \<Rightarrow> string \<Rightarrow> 't subDecoder list \<times> nat \<Rightarrow> wireMessage \<Rightarrow> 't subscription \<Rightarrow> 't subscription" where
  "pushMessage first hash subscriptionCallback message S =
     (case subscriptionCallback of (decoders, callback) \<Rightarrow>
        if wire_contentTopic message = [] then S
        else
          let decoded = List.map_filter (\<lambda>d. case fd_fromProtoObj d (su_pubsubTopic S) message of
                                               Inr (Some m) \<Rightarrow> Some m | _ \<Rightarrow> None) decoders
          in (case first decoded of
                [] \<Rightarrow> S
              | m # _ \<Rightarrow> S\<lparr>su_log := su_log S @ [(hash, callback, m)]\<rparr>))"

definition processIncomingMessage ::
  "(string \<Rightarrow> wireMessage \<Rightarrow> string res) \<Rightarrow> ('t list \<Rightarrow> 't list) \<Rightarrow> wireMessage \<Rightarrow> string \<Rightarrow> 't subscription \<Rightarrow> 't subscription res" where
  "processIncomingMessage hashOf first message peerIdStr S =
     rbind (hashOf (su_pubsubTopic S) message)
       (\<lambda>hash. case notifyMessageReceived peerIdStr hash S of
          (S1, True) \<Rightarrow> Inr S1
        | (S1, False) \<Rightarrow>
            (case jm_get (su_callbacks S1) (wire_contentTopic message) of
               None \<Rightarrow> Inr S1
             | Some subscriptionCallback \<Rightarrow> Inr (pushMessage first hash subscriptionCallback message S1)))"

section \<open>filter.ts\<close>

type_synonym 't activeSubscriptions = "(string, 't subscription) jsmap"

definition handleIncomingMessage ::
  "(string \<Rightarrow> wireMessage \<Rightarrow> string res) \<Rightarrow> ('t list \<Rightarrow> 't list) \<Rightarrow> string \<Rightarrow> wireMessage \<Rightarrow> string \<Rightarrow> 't activeSubscriptions \<Rightarrow>
     't activeSubscriptions res" where
  "handleIncomingMessage hashOf first pubsubTopic wakuMessage peerIdStr subs =
     (case jm_get subs pubsubTopic of
        None \<Rightarrow> Inr subs
      | Some S \<Rightarrow>
          rbind (processIncomingMessage hashOf first wakuMessage peerIdStr S)
            (\<lambda>S'. Inr (jm_set pubsubTopic S' subs)))"

definition getUniquePubsubTopics :: "'t subDecoder list \<Rightarrow> string list" where
  "getUniquePubsubTopics decoders = uniq (map fd_pubsubTopic decoders)"

definition createSubscription ::
  "string list \<Rightarrow> string list \<Rightarrow> string \<Rightarrow> 't activeSubscriptions \<Rightarrow> ('t activeSubscriptions \<times> protocolError option) res" where
  "createSubscription pubsubTopics peerIds pubsubTopic subs =
     rbind (ensurePubsubTopicIsConfigured pubsubTopic pubsubTopics)
       (\<lambda>_. Inr (if peerIds = [] then (subs, Some NO_PEER_AVAILABLE)
             else (case jm_get subs pubsubTopic of
                     Some _ \<Rightarrow> (subs, None)
                   | None \<Rightarrow> (jm_set pubsubTopic (newSubscription pubsubTopic) subs, None))))"

text \<open>\<open>Filter.subscribe\<close> up to the call of the subscription.\<close>

definition filterSdk_subscribe ::
  "string list \<Rightarrow> string list \<Rightarrow> 't subDecoder list \<Rightarrow> 't activeSubscriptions \<Rightarrow>
     ('t activeSubscriptions \<times> (protocolError + string)) res" where
  "filterSdk_subscribe pubsubTopics peerIds decoders subs =
     (case getUniquePubsubTopics decoders of
        [pubsubTopic] \<Rightarrow>
          rbind (createSubscription pubsubTopics peerIds pubsubTopic subs)
            (\<lambda>(subs', error). Inr (subs', case error of Some e \<Rightarrow> Inl e | None \<Rightarrow> Inr pubsubTopic))
      | _ \<Rightarrow> Inr (subs, Inl INVALID_DECODER_TOPICS))"

definition filterSdk_subscribeWithUnsubscribe ::
  "string list \<Rightarrow> string list \<Rightarrow> 't subDecoder list \<Rightarrow> 't activeSubscriptions \<Rightarrow> ('t activeSubscriptions \<times> string) res" where
  "filterSdk_subscribeWithUnsubscribe pubsubTopics peerIds decoders subs =
     (case getUniquePubsubTopics decoders of
        [] \<Rightarrow> Inl (Error ''Failed to subscribe: no pubsubTopic found on decoders provided.'')
      | [pubsubTopic] \<Rightarrow>
          rbind (createSubscription pubsubTopics peerIds pubsubTopic subs)
            (\<lambda>(subs', error). case error of
               Some e \<Rightarrow> Inl (Error (''Failed to create subscription: '' @ protocolErrorStr e))
             | None \<Rightarrow> Inr (subs', pubsubTopic))
      | _ \<Rightarrow> Inl (Error ''Failed to subscribe: all decoders should have the same pubsub topic. Use createSubscription to be more agile.''))"

section \<open>Runs\<close>

record 't filterEnv =
  fe_pubsubTopics :: "string list"
  fe_config :: filterConfig
  fe_numPeers :: int
  fe_ownPeerId :: string
  fe_decoderFor :: "string \<Rightarrow> string \<Rightarrow> 't subDecoder"
  fe_hashOf :: "string \<Rightarrow> wireMessage \<Rightarrow> string res"
  fe_first :: "'t list \<Rightarrow> 't list"

record 't filterState =
  fs_subs :: "'t activeSubscriptions"
  fs_conns :: "lockConn list"
  fs_pending :: "(string \<times> 't subscribeRequest \<times> nat) list"

definition newFilter :: "'t filterState" where
  "newFilter = \<lparr>fs_subs = [], fs_conns = [], fs_pending = []\<rparr>"

text \<open>
  A subscription is sent by \<open>Subscribe\<close>, and finished by \<open>Subscribed\<close> when all peers have answered; any event may come between.
\<close>

datatype 't filterEvent =
    Incoming string wireMessage string
  | Subscribe "'t subDecoder list" nat
  | Subscribed nat "string coreResult res list"
  | Unsubscribed string "string list" "string coreResult res list"
  | UnsubscribedAll string "string coreResult res list"
  | Pinged string string bool "string coreResult"
  | MonitorPeerConnected string
  | MonitorPeerDisconnected string string
  | MonitorConnection string bool
  | MonitorReconnected string
  | Connections "lockConn list"

definition onSub :: "string \<Rightarrow> ('t subscription \<Rightarrow> 't subscription) \<Rightarrow> 't filterState \<Rightarrow> 't filterState" where
  "onSub topic f F =
     (case jm_get (fs_subs F) topic of None \<Rightarrow> F | Some S \<Rightarrow> F\<lparr>fs_subs := jm_set topic (f S) (fs_subs F)\<rparr>)"

fun filterExec :: "'t filterEnv \<Rightarrow> 't filterEvent \<Rightarrow> 't filterState \<Rightarrow> 't filterState" where
  "filterExec E (Incoming topic message peer) F =
     (case handleIncomingMessage (fe_hashOf E) (fe_first E) topic message peer (fs_subs F) of
        Inl _ \<Rightarrow> F | Inr subs \<Rightarrow> F\<lparr>fs_subs := subs\<rparr>)"
| "filterExec E (Subscribe decoders callback) F =
     (case filterSdk_subscribe (fe_pubsubTopics E) (getPeers (fs_conns F)) decoders (fs_subs F) of
        Inr (subs, Inr topic) \<Rightarrow>
          (case jm_get subs topic of
             None \<Rightarrow> F
           | Some S \<Rightarrow>
               (case subscription_subscribe (fe_config E) (fe_decoderFor E) (fe_ownPeerId E) (fs_conns F) decoders S of
                  Inl _ \<Rightarrow> F\<lparr>fs_subs := subs\<rparr>
                | Inr (S', request) \<Rightarrow>
                    F\<lparr>fs_subs := jm_set topic S' subs, fs_pending := fs_pending F @ [(topic, request, callback)]\<rparr>))
      | _ \<Rightarrow> F)"
| "filterExec E (Subscribed i results) F =
     (if i < length (fs_pending F)
      then (case fs_pending F ! i of (topic, request, callback) \<Rightarrow>
              onSub topic (\<lambda>S. fst (subscription_subscribed (fe_ownPeerId E) request callback results S)) F)
      else F)"
| "filterExec E (Unsubscribed topic contentTopics results) F = onSub topic (\<lambda>S. fst (subscription_unsubscribed contentTopics results S)) F"
| "filterExec E (UnsubscribedAll topic results) F = onSub topic (\<lambda>S. fst (subscription_unsubscribedAll results S)) F"
| "filterExec E (Pinged topic peer renew response) F =
     (case jm_get (fs_subs F) topic of
        None \<Rightarrow> F
      | Some S \<Rightarrow>
          (case monitor_ping (fe_config E) (fe_numPeers E) peer renew response (S, fs_conns F) of
             ((S', conns), _) \<Rightarrow> F\<lparr>fs_subs := jm_set topic S' (fs_subs F), fs_conns := conns\<rparr>))"
| "filterExec E (MonitorPeerConnected topic) F = onSub topic (\<lambda>S. fst (monitor_onPeerConnected (fs_conns F) S)) F"
| "filterExec E (MonitorPeerDisconnected topic p) F = onSub topic (\<lambda>S. fst (monitor_onPeerDisconnected p (fs_conns F) S)) F"
| "filterExec E (MonitorConnection topic b) F = onSub topic (\<lambda>S. fst (monitor_onConnectionChange b S)) F"
| "filterExec E (MonitorReconnected topic) F = onSub topic monitor_onConnectionChange_end F"
| "filterExec E (Connections conns) F = F\<lparr>fs_conns := conns\<rparr>"

section \<open>Lemmas\<close>

text \<open>What was handed over was recognised, each time by another hash.\<close>

definition onceOk :: "'t subscription \<Rightarrow> bool" where
  "onceOk S \<longleftrightarrow> distinct (map fst (su_log S)) \<and> fst ` set (su_log S) \<subseteq> set (su_received S)"

definition filterInv :: "'t filterState \<Rightarrow> bool" where
  "filterInv F \<longleftrightarrow> (\<forall>topic S. jm_get (fs_subs F) topic = Some S \<longrightarrow> onceOk S)"

lemma filterInv_set: "filterInv F \<Longrightarrow> onceOk S \<Longrightarrow> filterInv (F\<lparr>fs_subs := jm_set topic S (fs_subs F)\<rparr>)"
  by (simp add: filterInv_def)

lemma filterInv_fields [simp]:
  "filterInv (F\<lparr>fs_conns := c\<rparr>) = filterInv F"
  "filterInv (F\<lparr>fs_pending := q\<rparr>) = filterInv F"
  by (simp_all add: filterInv_def)

lemma onSub_inv: "filterInv F \<Longrightarrow> (\<And>S. onceOk S \<Longrightarrow> onceOk (f S)) \<Longrightarrow> filterInv (onSub topic f F)"
  by (auto simp: onSub_def filterInv_def split: option.split)

text \<open>Only an incoming message changes the log and what was received.\<close>

lemma onceOk_fields [simp]:
  "onceOk (S\<lparr>su_callbacks := c\<rparr>) = onceOk S"
  "onceOk (S\<lparr>su_peerIds := ps\<rparr>) = onceOk S"
  "onceOk (S\<lparr>su_isStarted := b\<rparr>) = onceOk S"
  "onceOk (S\<lparr>su_keepAlive := b\<rparr>) = onceOk S"
  "onceOk (S\<lparr>su_pingFailed := m\<rparr>) = onceOk S"
  "onceOk (S\<lparr>su_receivedFromPeer := r\<rparr>) = onceOk S"
  "onceOk (S\<lparr>su_verifiedPeers := v\<rparr>) = onceOk S"
  by (simp_all add: onceOk_def)

lemma onceOk_new [simp]: "onceOk (newSubscription topic)"
  by (simp add: onceOk_def newSubscription_def)

lemma onceOk_monitor [simp]:
  "onceOk (monitor_start S) = onceOk S" "onceOk (monitor_stop S) = onceOk S"
  "onceOk (monitor_getPeers conns S) = onceOk S"
  by (simp_all add: monitor_start_def monitor_stop_def monitor_getPeers_def)

lemma unsubscribe_fold:
  "fold (\<lambda>r S. case r of Inl _ \<Rightarrow> S | Inr _ \<Rightarrow> S\<lparr>su_callbacks := fold jm_delete cts (su_callbacks S)\<rparr>) results S =
     S\<lparr>su_callbacks := fold (\<lambda>r c. case r of Inl _ \<Rightarrow> c | Inr _ \<Rightarrow> fold jm_delete cts c) results (su_callbacks S)\<rparr>"
  by (induction results arbitrary: S) (simp_all split: sum.split)

lemma processIncomingMessage_once:
  assumes "onceOk S" and "processIncomingMessage hashOf first message p S = Inr S'"
  shows "onceOk S'"
proof -
  obtain hash where hash: "hashOf (su_pubsubTopic S) message = Inr hash"
    using assms(2) by (auto simp: processIncomingMessage_def rbind_eq_Inr)
  obtain S1 seen where notify: "notifyMessageReceived p hash S = (S1, seen)" by fastforce
  have S1: "su_log S1 = su_log S" "set (su_received S1) = insert hash (set (su_received S))" "seen = (hash \<in> set (su_received S))"
    using notify by (auto simp: notifyMessageReceived_def Let_def split: if_splits)
  have "su_received (pushMessage first hash cb message S1) = su_received S1"
    "su_log (pushMessage first hash cb message S1) = su_log S1 \<or>
     (\<exists>c m. su_log (pushMessage first hash cb message S1) = su_log S1 @ [(hash, c, m)])" for cb
    by (auto simp: pushMessage_def Let_def split: prod.split list.split)
  note push = this
  show ?thesis
  proof (cases "seen \<or> jm_get (su_callbacks S1) (wire_contentTopic message) = None")
    case True
    then have "S' = S1" using assms(2) hash notify by (auto simp: processIncomingMessage_def split: bool.splits option.splits)
    then show ?thesis using assms(1) S1 by (auto simp: onceOk_def)
  next
    case False
    then obtain cb where "S' = pushMessage first hash cb message S1"
      using assms(2) hash notify by (auto simp: processIncomingMessage_def)
    moreover have "hash \<notin> fst ` set (su_log S)" using False S1(3) assms(1) by (auto simp: onceOk_def)
    ultimately show ?thesis
      using push [of cb] S1 assms(1) by (auto simp: onceOk_def) (metis fst_conv image_eqI subsetD)+
  qed
qed

lemma monitor_ping_once: "monitor_ping config n p renew response (S, conns) = ((S', conns'), call) \<Longrightarrow> onceOk S \<Longrightarrow> onceOk S'"
  by (auto simp: monitor_ping_def Let_def split: if_splits prod.splits coreResult.splits)

lemma createSubscription_inv:
  "filterInv F \<Longrightarrow> createSubscription topics peers topic (fs_subs F) = Inr (subs, e) \<Longrightarrow> filterInv (F\<lparr>fs_subs := subs\<rparr>)"
  by (auto simp: createSubscription_def rbind_eq_Inr filterInv_def split: if_splits option.splits)

lemma filterSdk_subscribe_inv:
  "filterInv F \<Longrightarrow> filterSdk_subscribe topics peers decs (fs_subs F) = Inr (subs, r) \<Longrightarrow> filterInv (F\<lparr>fs_subs := subs\<rparr>)"
  by (auto simp: filterSdk_subscribe_def rbind_eq_Inr dest: createSubscription_inv split: list.splits)

lemma subscription_subscribe_once:
  "subscription_subscribe config decFor own conns decs S = Inr (S', request) \<Longrightarrow> onceOk S \<Longrightarrow> onceOk S'"
  by (auto simp: subscription_subscribe_def Let_def split: if_splits)

interpretation filters: event_system "\<lambda>F. F = newFilter" "filterExec E" filterInv for E :: "'t filterEnv"
proof
  fix F :: "'t filterState" and e
  show "F = newFilter \<Longrightarrow> filterInv F" by (simp add: filterInv_def newFilter_def)
  assume inv: "filterInv F"
  have get: "jm_get (fs_subs F) topic = Some S \<Longrightarrow> onceOk S" for topic S using inv by (auto simp: filterInv_def)
  have on: "(\<And>S. onceOk S \<Longrightarrow> onceOk (f S)) \<Longrightarrow> filterInv (onSub topic f F)" for topic f
    using inv by (rule onSub_inv)
  show "filterInv (filterExec E e F)"
  proof (cases e)
    case (Incoming topic message peer)
    then show ?thesis using inv get
      by (auto simp: handleIncomingMessage_def rbind_eq_Inr intro!: filterInv_set dest: processIncomingMessage_once
          split: sum.split option.splits)
  next
    case (Subscribe decoders callback)
    show ?thesis
    proof (cases "filterSdk_subscribe (fe_pubsubTopics E) (getPeers (fs_conns F)) decoders (fs_subs F)")
      case (Inr r)
      then obtain subs r' where r: "r = (subs, r')" by fastforce
      have subs: "filterInv (F\<lparr>fs_subs := subs\<rparr>)" using filterSdk_subscribe_inv [OF inv] Inr r by blast
      show ?thesis
      proof (cases r')
        case (Inl e)
        then show ?thesis using Subscribe Inr r inv by simp
      next
        case (Inr topic)
        show ?thesis
        proof (cases "jm_get subs topic")
          case None
          then show ?thesis using Subscribe \<open>filterSdk_subscribe _ _ _ _ = Inr r\<close> r Inr inv by simp
        next
          case (Some S)
          then have S: "onceOk S" using subs by (simp add: filterInv_def)
          have "filterInv (F\<lparr>fs_subs := jm_set topic S' subs, fs_pending := q\<rparr>)" if "onceOk S'" for S' q
            using filterInv_set [OF subs that, of topic] by (simp add: filterInv_def)
          then show ?thesis
            using Subscribe \<open>filterSdk_subscribe _ _ _ _ = Inr r\<close> r Inr Some subs S
            by (auto dest: subscription_subscribe_once split: sum.split)
        qed
      qed
    qed (use Subscribe inv in simp)
  next
    case (Subscribed i results)
    then show ?thesis using inv by (auto intro!: on simp: subscription_subscribed_def split: prod.split)
  next
    case (Unsubscribed topic contentTopics results)
    then show ?thesis by (auto intro!: on simp: subscription_unsubscribed_def Let_def unsubscribe_fold)
  next
    case (Pinged topic peer renew response)
    then show ?thesis using inv get
      by (auto simp: filterInv_set dest: monitor_ping_once split: option.split prod.split)
  qed (use inv in \<open>auto intro!: on simp: subscription_unsubscribedAll_def monitor_onPeerConnected_def
      monitor_onPeerDisconnected_def monitor_onConnectionChange_def monitor_onConnectionChange_end_def\<close>)
qed

lemma fold_delete_callbacks:
  "jm_get (fold (\<lambda>r c. case r of Inl _ \<Rightarrow> c | Inr _ \<Rightarrow> fold jm_delete cts c) results m) ct =
     (if (\<exists>r \<in> set results. \<not> isl r) \<and> ct \<in> set cts then None else jm_get m ct)"
  by (induction results arbitrary: m) (auto simp: jm.get_fold_delete isl_def split: sum.split)

lemma unsubscribe_resolves: "\<not> isl (filter_unsubscribe N topic p cts)"
  by (auto simp: filter_unsubscribe_def isl_def Let_def split: sum.splits)

text \<open>The pings of one peer in a row, with the renewals they lead to.\<close>

definition pingFailed :: "string coreResult \<Rightarrow> bool" where
  "pingFailed r = (case r of CFailure _ \<Rightarrow> True | CSuccess _ \<Rightarrow> False)"

definition trailing :: "string coreResult list \<Rightarrow> nat" where
  "trailing rs = length (takeWhile pingFailed (rev rs))"

fun pingRun ::
  "filterConfig \<Rightarrow> int \<Rightarrow> string \<Rightarrow> string coreResult list \<Rightarrow> 't subscription \<times> lockConn list \<Rightarrow>
     ('t subscription \<times> lockConn list) \<times> bool list" where
  "pingRun config n p [] S = (S, [])"
| "pingRun config n p (r # rs) S =
     (case monitor_ping config n p False r S of
        (S1, call) \<Rightarrow> (case pingRun config n p rs S1 of (S2, calls) \<Rightarrow> (S2, (call \<noteq> None) # calls)))"

lemma pingRun_snoc:
  "pingRun config n p (rs @ [r]) S =
     (case pingRun config n p rs S of (S1, calls) \<Rightarrow>
        (case monitor_ping config n p False r S1 of (S2, call) \<Rightarrow> (S2, calls @ [call \<noteq> None])))"
  by (induction rs arbitrary: S) (simp_all split: prod.split)

lemma trailing_simps [simp]: "trailing [] = 0" "trailing (rs @ [r]) = (if pingFailed r then Suc (trailing rs) else 0)"
  by (simp_all add: trailing_def)

lemma monitor_ping_counts:
  assumes "monitor_ping config n p False r (S, conns) = ((S', conns'), call)"
  shows "jm_get (su_pingFailed S') p = Some (if pingFailed r then nullish (jm_get (su_pingFailed S) p) 0 + 1 else 0)"
    and "su_peerIds S' = su_peerIds S"
    and "call \<noteq> None \<longleftrightarrow> fc_pingsBeforePeerRenewed config \<le> nullish (jm_get (su_pingFailed S') p) 0"
  using assms by (auto simp: monitor_ping_def pingFailed_def Let_def split: coreResult.splits if_splits prod.splits)

text \<open>The peers that one \<open>subscribe\<close> of the monitor asks.\<close>

lemma monitor_subscribe_asked:
  "monitor_subscribe ask n is peerId conns = (conns', ps, r) \<Longrightarrow>
     length ps \<le> length is \<and> (ps = [] \<or> is = [] \<or> peerId = Some (hd ps))"
proof (induction "is" arbitrary: peerId conns conns' ps r)
  case (Cons i "is")
  then show ?case by (cases peerId) (fastforce split: sum.splits coreResult.splits prod.splits)+
qed simp

section \<open>Properties\<close>

text \<open>C3: No message is handed to the application twice: whatever subscriptions, answers, renewals, disconnections and messages from whatever
  peers come in whatever order, the hashes of the messages that a subscription handed to callbacks are all different, and a message whose
  hash was received before, from any peer, changes nothing but the record of the peers it came from.\<close>

theorem filter_delivers_at_most_once:
  "(case jm_get (fs_subs (runEvents (filterExec E) evs newFilter)) topic of
      None \<Rightarrow> True
    | Some S \<Rightarrow> distinct (map fst (su_log S)) \<and> set (map fst (su_log S)) \<subseteq> set (su_received S)) \<and>
   (case processIncomingMessage hashOf first message p S of
      Inl e \<Rightarrow> True
    | Inr S1 \<Rightarrow>
        (case processIncomingMessage hashOf first' message q (S1\<lparr>su_callbacks := callbacks\<rparr>) of
           Inl e \<Rightarrow> False
         | Inr S2 \<Rightarrow> su_log S2 = su_log S1 \<and> su_received S2 = su_received S1 \<and> su_callbacks S2 = callbacks \<and>
                    q \<in> set (su_verifiedPeers S2)))"
proof
  have "filterInv (runEvents (filterExec E) evs newFilter)" by (rule filters.run_from_start) simp
  then show "case jm_get (fs_subs (runEvents (filterExec E) evs newFilter)) topic of
      None \<Rightarrow> True
    | Some S \<Rightarrow> distinct (map fst (su_log S)) \<and> set (map fst (su_log S)) \<subseteq> set (su_received S)"
    by (auto simp: filterInv_def onceOk_def split: option.split)
  show "case processIncomingMessage hashOf first message p S of
      Inl e \<Rightarrow> True
    | Inr S1 \<Rightarrow>
        (case processIncomingMessage hashOf first' message q (S1\<lparr>su_callbacks := callbacks\<rparr>) of
           Inl e \<Rightarrow> False
         | Inr S2 \<Rightarrow> su_log S2 = su_log S1 \<and> su_received S2 = su_received S1 \<and> su_callbacks S2 = callbacks \<and>
                    q \<in> set (su_verifiedPeers S2))"
  proof (cases "processIncomingMessage hashOf first message p S")
    case (Inr S1)
    then obtain hash where hash: "hashOf (su_pubsubTopic S) message = Inr hash"
      by (auto simp: processIncomingMessage_def rbind_eq_Inr)
    have "su_pubsubTopic S1 = su_pubsubTopic S \<and> hash \<in> set (su_received S1)"
      using Inr hash by (auto simp: processIncomingMessage_def notifyMessageReceived_def pushMessage_def Let_def
          split: if_splits option.splits prod.splits list.splits)
    then show ?thesis
      using Inr hash by (simp add: processIncomingMessage_def notifyMessageReceived_def Let_def)
  qed simp
qed

text \<open>
  So a message that comes before the callbacks of its content topic are saved, while some peer has not answered the
  subscription yet, is never handed over, however often peers push it.
\<close>

theorem early_message_lost:
  "hashOf (su_pubsubTopic S) message = Inr hash \<Longrightarrow> jm_get (su_callbacks S) (wire_contentTopic message) = None \<Longrightarrow>
     \<exists>S1. processIncomingMessage hashOf first message p S = Inr S1 \<and> su_log S1 = su_log S \<and>
       (\<exists>S2. processIncomingMessage hashOf first message q (S1\<lparr>su_callbacks := callbacks\<rparr>) = Inr S2 \<and> su_log S2 = su_log S)"
  by (auto simp: processIncomingMessage_def notifyMessageReceived_def Let_def)

text \<open>\<open>unsubscribe\<close> forgets exactly the given content topics, when there is a peer to tell, and no other; without peers it forgets
  nothing. The monitor stops when no callback is left. The result names the peers that were told and one failure for each other peer.\<close>

theorem unsubscribe_forgets:
  "let results = map (\<lambda>p. filter_unsubscribe N topic p cts) peers;
       (S', result) = subscription_unsubscribed cts results S
   in jm_get (su_callbacks S') ct = (if peers \<noteq> [] \<and> ct \<in> set cts then None else jm_get (su_callbacks S) ct) \<and>
      (su_isStarted S' \<longleftrightarrow> su_isStarted S \<and> su_callbacks S' \<noteq> []) \<and>
      sdk_successes result = filter (\<lambda>p. filter_unsubscribe N topic p cts = Inr (CSuccess p)) peers \<and>
      length (sdk_successes result) + length (sdk_failures result) = length peers"
proof -
  let ?results = "map (\<lambda>p. filter_unsubscribe N topic p cts) peers"
  have "(\<exists>r \<in> set ?results. \<not> isl r) \<longleftrightarrow> peers \<noteq> []"
    by (cases peers) (auto simp: unsubscribe_resolves)
  then have get: "jm_get (fold (\<lambda>r c. case r of Inl _ \<Rightarrow> c | Inr _ \<Rightarrow> fold jm_delete cts c) ?results (su_callbacks S)) ct =
      (if peers \<noteq> [] \<and> ct \<in> set cts then None else jm_get (su_callbacks S) ct)"
    by (simp add: fold_delete_callbacks)
  have ok: "unsubscribeOp.succeeds N topic cts = (\<lambda>p. filter_unsubscribe N topic p cts = Inr (CSuccess p))"
    by (simp add: unsubscribeOp.succeeds_def fun_eq_iff)
  have all: "length (sdk_successes (settle ?results)) + length (sdk_failures (settle ?results)) = length peers"
    by (rule unsubscribeOp.settle_complete)
  have started: "su_isStarted (monitor_stop T) = False" "su_callbacks (monitor_stop T) = su_callbacks T" for T :: "'b subscription"
    by (simp_all add: monitor_stop_def)
  define callbacks where "callbacks = fold (\<lambda>r c. case r of Inl _ \<Rightarrow> c | Inr _ \<Rightarrow> fold jm_delete cts c) ?results (su_callbacks S)"
  have run: "subscription_unsubscribed cts ?results S =
      (if callbacks = [] then monitor_stop (S\<lparr>su_callbacks := callbacks\<rparr>) else S\<lparr>su_callbacks := callbacks\<rparr>, settle ?results)"
    by (simp add: subscription_unsubscribed_def Let_def unsubscribe_fold callbacks_def)
  show ?thesis
    unfolding Let_def run using get [folded callbacks_def] all
    by (cases "callbacks = []") (simp_all add: started unsubscribeOp.settle_peers ok)
qed

text \<open>The monitor counts the pings of a peer that failed since the last one that succeeded, and every ping from the
  \<open>pingsBeforePeerRenewed\<close>-th failure on asks the peer manager for another peer. The counter is not reset by a renewal and the
  monitor keeps its list of peers, so the failing peer is pinged, and renewed, again each time.\<close>

theorem monitor_renews_after_failures:
  "let ((S', conns'), calls) = pingRun config n p rs (S\<lparr>su_pingFailed := []\<rparr>, conns)
   in nullish (jm_get (su_pingFailed S') p) 0 = int (trailing rs) \<and> su_peerIds S' = su_peerIds S \<and>
      calls = map (\<lambda>i. fc_pingsBeforePeerRenewed config \<le> int (trailing (take (i + 1) rs))) [0..<length rs]"
proof (induction rs rule: rev_induct)
  case Nil
  then show ?case by simp
next
  case (snoc r rs)
  obtain S1 conns1 calls where run: "pingRun config n p rs (S\<lparr>su_pingFailed := []\<rparr>, conns) = ((S1, conns1), calls)"
    by (metis surj_pair)
  obtain S2 conns2 call where ping: "monitor_ping config n p False r (S1, conns1) = ((S2, conns2), call)"
    by (metis surj_pair)
  have IH: "nullish (jm_get (su_pingFailed S1) p) 0 = int (trailing rs)" "su_peerIds S1 = su_peerIds S"
    "calls = map (\<lambda>i. fc_pingsBeforePeerRenewed config \<le> int (trailing (take (i + 1) rs))) [0..<length rs]"
    using snoc.IH run by simp_all
  have count: "nullish (jm_get (su_pingFailed S2) p) 0 = int (trailing (rs @ [r]))"
    using monitor_ping_counts(1) [OF ping] IH(1) by simp
  have earlier: "map (\<lambda>i. fc_pingsBeforePeerRenewed config \<le> int (trailing (take (i + 1) (rs @ [r])))) [0..<length rs] = calls"
    unfolding IH(3) by (rule map_cong) auto
  show ?case
    using run ping count earlier IH(2) monitor_ping_counts(2,3) [OF ping]
    by (simp add: pingRun_snoc)
qed

end
