(* ===== verification/Relay.thy ===== *)
theory Relay
  imports CoreProtocol UtilsCommon StateMachine
begin

text \<open>
  \<open>packages/relay/src\<close>: sending over gossipsub and the observers of incoming messages, by pubsub topic and content topic.
  The maps of sets of observers stand for the list of the live observers, which is the specification of the deliveries.
  Gossipsub is a parameter.  An observer is an object of its own, known by the number \<open>ob_id\<close>; a callback is known by a number,
  and the messages handed to callbacks are a log in the state.
\<close>

section \<open>message\_validator.ts and topic\_only\_message.ts\<close>

datatype validatorResult = Accept | Reject

definition messageValidator :: "(bytes \<Rightarrow> wireMessage res) \<Rightarrow> bytes \<Rightarrow> validatorResult" where
  "messageValidator decode data =
     (case decode data of
        Inl _ \<Rightarrow> Reject
      | Inr protoMessage \<Rightarrow> if wire_contentTopic protoMessage = [] \<or> wire_payload protoMessage = [] then Reject else Accept)"

text \<open>\<open>TopicOnlyDecoder.fromWireToProtoObj\<close>; \<open>decodeTopic\<close> reads the content topic of the wire form.\<close>

definition topicOnly_fromWire :: "(bytes \<Rightarrow> string res) \<Rightarrow> bytes \<Rightarrow> protoMessage option res" where
  "topicOnly_fromWire decodeTopic bs =
     rbind (decodeTopic bs)
       (\<lambda>ct. Inr (Some \<lparr>pm_payload = [], pm_contentTopic = ct, pm_version = None, pm_timestamp = None, pm_meta = None,
                       pm_rateLimitProof = None, pm_ephemeral = None\<rparr>))"

section \<open>State\<close>

record 'm relayDecoder =
  rd_pubsubTopic :: string
  rd_contentTopic :: string
  rd_fromWireToProtoObj :: "bytes \<Rightarrow> protoMessage option res"
  rd_fromProtoObj :: "string \<Rightarrow> protoMessage \<Rightarrow> 'm option res"

record 'm observer =
  ob_id :: nat
  ob_decoder :: "'m relayDecoder"
  ob_callback :: nat

type_synonym 'm observers = "(string, (string, 'm observer list) jsmap) jsmap"

record 'm relay =
  rl_pubsubTopics :: "string list"
  rl_observers :: "'m observers"
  rl_next :: nat
  rl_log :: "(nat \<times> 'm) list"

definition newRelay :: "string list \<Rightarrow> 'm relay" where
  "newRelay pubsubTopics = \<lparr>rl_pubsubTopics = uniq pubsubTopics, rl_observers = [], rl_next = 0, rl_log = []\<rparr>"

section \<open>relay.ts\<close>

text \<open>\<open>publish\<close> of gossipsub returns the recipients. A rejection of \<open>toWire\<close> or \<open>publish\<close> is \<open>Inl\<close>.\<close>

definition relay_send ::
  "(string \<Rightarrow> bytes \<Rightarrow> 'p list res) \<Rightarrow> string list \<Rightarrow> iencoder \<Rightarrow> message \<Rightarrow> 'p sdkResult res" where
  "relay_send publish pubsubTopics encoder message =
     (let failed = (\<lambda>e. \<lparr>sdk_successes = [], sdk_failures = [\<lparr>fl_error = e, fl_peerId = None\<rparr>]\<rparr>)
      in if ie_pubsubTopic encoder \<notin> set pubsubTopics then Inr (failed TOPIC_NOT_CONFIGURED)
         else rbind (ie_toWire encoder message)
                (\<lambda>msg. case msg of
                   None \<Rightarrow> Inr (failed ENCODE_FAILED)
                 | Some m \<Rightarrow>
                     if \<not> isWireSizeUnderCap m then Inr (failed SIZE_TOO_BIG)
                     else rbind (publish (ie_pubsubTopic encoder) m)
                            (\<lambda>recipients. Inr \<lparr>sdk_successes = recipients, sdk_failures = []\<rparr>)))"

definition addObserver :: "'m relayDecoder \<Rightarrow> nat \<Rightarrow> 'm relay \<Rightarrow> 'm relay \<times> (string \<times> 'm observer)" where
  "addObserver decoder callback R =
     (let pubsubTopic = rd_pubsubTopic decoder;
          ctObs = nullish (jm_get (rl_observers R) pubsubTopic) [];
          obs = \<lparr>ob_id = rl_next R, ob_decoder = decoder, ob_callback = callback\<rparr>;
          ctObs' = pushOrInitMapSet ctObs (rd_contentTopic decoder) obs
      in (R\<lparr>rl_observers := jm_set pubsubTopic ctObs' (rl_observers R), rl_next := rl_next R + 1\<rparr>, (pubsubTopic, obs)))"

fun relay_subscribe :: "'m relayDecoder list \<Rightarrow> nat \<Rightarrow> 'm relay \<Rightarrow> 'm relay \<times> (string \<times> 'm observer) list" where
  "relay_subscribe [] callback R = (R, [])"
| "relay_subscribe (d # ds) callback R =
     (case addObserver d callback R of
        (R1, o1) \<Rightarrow> (case relay_subscribe ds callback R1 of (R2, os) \<Rightarrow> (R2, o1 # os)))"

fun removeObservers :: "(string \<times> 'm observer) list \<Rightarrow> 'm relay \<Rightarrow> 'm relay" where
  "removeObservers [] R = R"
| "removeObservers ((pubsubTopic, obs) # os) R =
     (case jm_get (rl_observers R) pubsubTopic of
        None \<Rightarrow> removeObservers os R
      | Some ctObs \<Rightarrow>
          (case jm_get ctObs (rd_contentTopic (ob_decoder obs)) of
             None \<Rightarrow> removeObservers os R
           | Some obsSet \<Rightarrow>
               removeObservers os
                 (R\<lparr>rl_observers :=
                      jm_set pubsubTopic
                        (jm_set (rd_contentTopic (ob_decoder obs)) (filter (\<lambda>x. ob_id x \<noteq> ob_id obs) obsSet) ctObs)
                        (rl_observers R)\<rparr>)))"

definition observersFor :: "string \<Rightarrow> string \<Rightarrow> 'm relay \<Rightarrow> 'm observer list" where
  "observersFor pubsubTopic contentTopic R =
     nullish (jm_get (nullish (jm_get (rl_observers R) pubsubTopic) []) contentTopic) []"

text \<open>What one observer makes of the bytes; exceptions are caught and logged.\<close>

definition observe :: "string \<Rightarrow> bytes \<Rightarrow> 'm observer \<Rightarrow> (nat \<times> 'm) option" where
  "observe pubsubTopic bs obs =
     (case rd_fromWireToProtoObj (ob_decoder obs) bs of
        Inr (Some protoMsg) \<Rightarrow>
          (case rd_fromProtoObj (ob_decoder obs) pubsubTopic protoMsg of
             Inr (Some m) \<Rightarrow> Some (ob_callback obs, m)
           | _ \<Rightarrow> None)
      | _ \<Rightarrow> None)"

text \<open>The observers run concurrently; the log has their callbacks in the order of the observers.\<close>

definition relay_processIncoming :: "(bytes \<Rightarrow> string res) \<Rightarrow> string \<Rightarrow> bytes \<Rightarrow> 'm relay \<Rightarrow> 'm relay" where
  "relay_processIncoming decodeTopic pubsubTopic bs R =
     (case topicOnly_fromWire decodeTopic bs of
        Inr (Some topicOnlyMsg) \<Rightarrow>
          if pm_contentTopic topicOnlyMsg = [] then R
          else (case jm_get (rl_observers R) pubsubTopic of
                  None \<Rightarrow> R
                | Some contentTopicMap \<Rightarrow>
                    (case jm_get contentTopicMap (pm_contentTopic topicOnlyMsg) of
                       None \<Rightarrow> R
                     | Some observers \<Rightarrow>
                         R\<lparr>rl_log := rl_log R @ List.map_filter (observe pubsubTopic bs) observers\<rparr>))
      | _ \<Rightarrow> R)"

text \<open>The listener of each subscribed topic compares the topic of the event.\<close>

definition onGossipMessage :: "(bytes \<Rightarrow> string res) \<Rightarrow> string \<Rightarrow> bytes \<Rightarrow> 'm relay \<Rightarrow> 'm relay" where
  "onGossipMessage decodeTopic topic bs R =
     fold (\<lambda>t R. if topic \<noteq> t then R else relay_processIncoming decodeTopic topic bs R) (rl_pubsubTopics R) R"

definition getActiveSubscriptions :: "'m relay \<Rightarrow> (string, string list) jsmap" where
  "getActiveSubscriptions R = fold (\<lambda>t m. jm_set t (jm_keys (rl_observers R)) m) (rl_pubsubTopics R) []"

text \<open>
  \<open>waitForPeers\<close>: \<open>mesh n t\<close> is the mesh of \<open>t\<close> at the \<open>n\<close>-th heartbeat. Without a topic gossipsub has no mesh, so the first
  list is empty. The result is the heartbeat at which the call returns, \<open>None\<close> when the fuel is used up.
\<close>

fun waitForPeers_loop :: "nat \<Rightarrow> (nat \<Rightarrow> string \<Rightarrow> string list) \<Rightarrow> nat \<Rightarrow> string list \<Rightarrow> string list \<Rightarrow> nat option" where
  "waitForPeers_loop fuel mesh beat peers [] = Some beat"
| "waitForPeers_loop 0 mesh beat peers (t # ts) = (if peers \<noteq> [] then waitForPeers_loop 0 mesh beat peers ts else None)"
| "waitForPeers_loop (Suc fuel) mesh beat peers (t # ts) =
     (if peers \<noteq> [] then waitForPeers_loop (Suc fuel) mesh beat peers ts
      else waitForPeers_loop fuel mesh (beat + 1) (mesh (beat + 1) t) (t # ts))"

definition waitForPeers :: "nat \<Rightarrow> (nat \<Rightarrow> string \<Rightarrow> string list) \<Rightarrow> string list \<Rightarrow> nat option" where
  "waitForPeers fuel mesh pubsubTopics = waitForPeers_loop fuel mesh 0 [] pubsubTopics"

section \<open>Lemmas\<close>

definition relayInv :: "'m relay \<Rightarrow> bool" where
  "relayInv R \<longleftrightarrow> (\<forall>t ct x. x \<in> set (observersFor t ct R) \<longrightarrow> ob_id x < rl_next R)"

lemma observersFor_set:
  "observersFor pt ct (R\<lparr>rl_observers := jm_set t m (rl_observers R)\<rparr>) =
     (if pt = t then nullish (jm_get m ct) [] else observersFor pt ct R)"
  by (simp add: observersFor_def)

lemma observersFor_fields [simp]:
  "observersFor pt ct (R\<lparr>rl_next := n\<rparr>) = observersFor pt ct R"
  "observersFor pt ct (R\<lparr>rl_log := l\<rparr>) = observersFor pt ct R"
  by (simp_all add: observersFor_def)

lemma addObserver_fields:
  assumes "addObserver d callback R = (R1, (t, x))"
  shows "x = \<lparr>ob_id = rl_next R, ob_decoder = d, ob_callback = callback\<rparr>" "t = rd_pubsubTopic d" "rl_next R1 = Suc (rl_next R)"
    "rl_log R1 = rl_log R" "rl_pubsubTopics R1 = rl_pubsubTopics R"
  using assms by (auto simp: addObserver_def Let_def)

lemma observersFor_add:
  assumes "relayInv R" and "addObserver d callback R = (R1, (t, x))"
  shows "observersFor pt ct R1 =
      (if pt = t \<and> ct = rd_contentTopic d then observersFor pt ct R @ [x] else observersFor pt ct R)"
proof -
  define ctObs where "ctObs = nullish (jm_get (rl_observers R) t) []"
  have R1: "R1 = R\<lparr>rl_observers := jm_set t (pushOrInitMapSet ctObs (rd_contentTopic d) x) (rl_observers R), rl_next := rl_next R + 1\<rparr>"
    using assms(2) by (auto simp: addObserver_def Let_def ctObs_def)
  have "x \<notin> set (observersFor t (rd_contentTopic d) R)"
    using assms(1) addObserver_fields(1) [OF assms(2)] unfolding relayInv_def by force
  then have new: "x \<notin> set (nullish (jm_get ctObs (rd_contentTopic d)) [])"
    by (simp add: observersFor_def ctObs_def)
  have "observersFor pt ct R1 =
      (if pt = t then nullish (jm_get (pushOrInitMapSet ctObs (rd_contentTopic d) x) ct) [] else observersFor pt ct R)"
    by (simp add: R1 observersFor_set)
  also have "nullish (jm_get (pushOrInitMapSet ctObs (rd_contentTopic d) x) ct) [] =
      (if ct = rd_contentTopic d then nullish (jm_get ctObs ct) [] @ [x] else nullish (jm_get ctObs ct) [])"
    using new by (auto simp: pushOrInitMapSet_get Let_def nullish_def split: option.splits)
  finally show ?thesis by (auto simp: observersFor_def ctObs_def)
qed

lemma relayInv_add: "relayInv R \<Longrightarrow> addObserver d callback R = (R1, o1) \<Longrightarrow> relayInv R1"
proof -
  assume inv: "relayInv R" and add: "addObserver d callback R = (R1, o1)"
  obtain t x where o1: "o1 = (t, x)" by (cases o1)
  show ?thesis
    using inv addObserver_fields [OF add [unfolded o1]]
    unfolding relayInv_def observersFor_add [OF inv add [unfolded o1]] by (auto simp: less_Suc_eq)
qed

text \<open>The observers that a subscription adds, and what its end removes.\<close>

definition chosen :: "string \<Rightarrow> string \<Rightarrow> (string \<times> 'm observer) list \<Rightarrow> 'm observer list" where
  "chosen pt ct os = map snd (filter (\<lambda>(t, x). t = pt \<and> rd_contentTopic (ob_decoder x) = ct) os)"

lemma relay_subscribe_props:
  "relay_subscribe ds callback R = (R', os) \<Longrightarrow> relayInv R \<Longrightarrow>
     relayInv R' \<and> observersFor pt ct R' = observersFor pt ct R @ chosen pt ct os \<and>
     (\<forall>(t, x) \<in> set os. rl_next R \<le> ob_id x) \<and> rl_next R \<le> rl_next R' \<and>
     rl_log R' = rl_log R \<and> rl_pubsubTopics R' = rl_pubsubTopics R \<and>
     map (\<lambda>(t, x). (t, ob_decoder x, ob_callback x)) os = map (\<lambda>d. (rd_pubsubTopic d, d, callback)) ds"
proof (induction ds arbitrary: R os)
  case Nil
  then show ?case by (auto simp: chosen_def)
next
  case (Cons d ds)
  obtain R1 t x where add: "addObserver d callback R = (R1, (t, x))" by (metis surj_pair)
  obtain os' where rest: "relay_subscribe ds callback R1 = (R', os')" and os: "os = (t, x) # os'"
    using Cons.prems(1) add by (auto split: prod.splits)
  note one = observersFor_add [OF Cons.prems(2) add, of pt ct] addObserver_fields [OF add]
  have inv1: "relayInv R1" using Cons.prems(2) add by (rule relayInv_add)
  have IH: "relayInv R'" "observersFor pt ct R' = observersFor pt ct R1 @ chosen pt ct os'"
    "\<forall>(t, x) \<in> set os'. rl_next R1 \<le> ob_id x" "rl_next R1 \<le> rl_next R'" "rl_log R' = rl_log R1"
    "rl_pubsubTopics R' = rl_pubsubTopics R1"
    "map (\<lambda>(t, x). (t, ob_decoder x, ob_callback x)) os' = map (\<lambda>d. (rd_pubsubTopic d, d, callback)) ds"
    using Cons.IH [OF rest inv1] by blast+
  have "\<forall>(t, x) \<in> set os'. rl_next R \<le> ob_id x" using IH(3) one(4) by fastforce
  then show ?case using IH one by (auto simp: os chosen_def)
qed

lemma observersFor_remove:
  "observersFor pt ct (removeObservers os R) =
     filter (\<lambda>y. \<forall>x \<in> set (chosen pt ct os). ob_id y \<noteq> ob_id x) (observersFor pt ct R)"
proof (induction os arbitrary: R)
  case Nil
  then show ?case by (simp add: chosen_def)
next
  case (Cons o1 os)
  obtain t x where o1: "o1 = (t, x)" by (cases o1)
  let ?ct = "rd_contentTopic (ob_decoder x)"
  show ?case
  proof (cases "jm_get (rl_observers R) t")
    case None
    then have "observersFor t ?ct R = []" by (simp add: observersFor_def)
    then show ?thesis using None Cons.IH [of R] by (auto simp: o1 chosen_def observersFor_def intro!: filter_cong)
  next
    case (Some m)
    show ?thesis
    proof (cases "jm_get m ?ct")
      case None
      then have "observersFor t ?ct R = []" using Some by (simp add: observersFor_def)
      then show ?thesis using None Some Cons.IH [of R] by (auto simp: o1 chosen_def observersFor_def intro!: filter_cong)
    next
      case (Some xs)
      let ?R = "R\<lparr>rl_observers := jm_set t (jm_set ?ct (filter (\<lambda>y. ob_id y \<noteq> ob_id x) xs) m) (rl_observers R)\<rparr>"
      have "observersFor pt ct ?R =
          (if pt = t \<and> ct = ?ct then filter (\<lambda>y. ob_id y \<noteq> ob_id x) (observersFor pt ct R) else observersFor pt ct R)"
        using Some \<open>jm_get (rl_observers R) t = Some m\<close> by (auto simp: observersFor_set observersFor_def)
      then show ?thesis
        using Some \<open>jm_get (rl_observers R) t = Some m\<close> Cons.IH [of ?R]
        by (auto simp: o1 chosen_def intro!: filter_cong)
    qed
  qed
qed

section \<open>Events\<close>

text \<open>The calls of the application and the messages of gossipsub, in any order. \<open>Unsubscribe\<close> is the function a subscription returned.\<close>

datatype 'm relayEvent =
    Subscribe "'m relayDecoder list" nat
  | Unsubscribe "(string \<times> 'm observer) list"
  | Gossip string bytes

fun relayExec :: "(bytes \<Rightarrow> string res) \<Rightarrow> 'm relayEvent \<Rightarrow> 'm relay \<Rightarrow> 'm relay" where
  "relayExec decodeTopic (Subscribe ds callback) R = fst (relay_subscribe ds callback R)"
| "relayExec decodeTopic (Unsubscribe os) R = removeObservers os R"
| "relayExec decodeTopic (Gossip topic bs) R = onGossipMessage decodeTopic topic bs R"

lemma removeObservers_fields [simp]:
  "rl_log (removeObservers os R) = rl_log R" "rl_next (removeObservers os R) = rl_next R"
  "rl_pubsubTopics (removeObservers os R) = rl_pubsubTopics R"
  by (induction os R rule: removeObservers.induct) (auto split: option.splits)

lemma relay_processIncoming_log:
  "relay_processIncoming decodeTopic topic bs R =
     R\<lparr>rl_log := rl_log R @
        (case decodeTopic bs of
           Inl _ \<Rightarrow> []
         | Inr ct \<Rightarrow> if ct = [] then [] else List.map_filter (observe topic bs) (observersFor topic ct R))\<rparr>"
  by (auto simp: relay_processIncoming_def topicOnly_fromWire_def observersFor_def map_filter_simps split: sum.splits option.splits)

lemma fold_own_listener:
  "distinct ts \<Longrightarrow> fold (\<lambda>t R. if topic \<noteq> t then R else f R) ts R = (if topic \<in> set ts then f R else R)"
proof (induction ts arbitrary: R)
  case (Cons t ts)
  have "topic \<notin> set ts \<Longrightarrow> fold (\<lambda>t R. if topic \<noteq> t then R else f R) ts R' = R'" for R'
    using Cons.IH [of R'] Cons.prems by simp
  then show ?case using Cons by auto
qed simp

lemma onGossipMessage_log:
  "distinct (rl_pubsubTopics R) \<Longrightarrow>
   onGossipMessage decodeTopic topic bs R = (if topic \<in> set (rl_pubsubTopics R) then relay_processIncoming decodeTopic topic bs R else R)"
  by (simp add: onGossipMessage_def fold_own_listener)

definition relayOk :: "string list \<Rightarrow> 'm relay \<Rightarrow> bool" where
  "relayOk topics R \<longleftrightarrow> relayInv R \<and> distinct (rl_pubsubTopics R) \<and> set (rl_pubsubTopics R) = set topics"

interpretation relays: event_system "\<lambda>R. R = newRelay topics" "relayExec decodeTopic" "relayOk topics"
  for topics and decodeTopic :: "bytes \<Rightarrow> string res"
proof
  fix R :: "'m relay" and e
  show "R = newRelay topics \<Longrightarrow> relayOk topics R"
    by (simp add: relayOk_def relayInv_def newRelay_def observersFor_def)
  assume ok: "relayOk topics R"
  show "relayOk topics (relayExec decodeTopic e R)"
  proof (cases e)
    case (Subscribe ds callback)
    obtain R' os where "relay_subscribe ds callback R = (R', os)" by (metis surj_pair)
    then show ?thesis using Subscribe ok relay_subscribe_props [of ds callback R R' os] by (simp add: relayOk_def)
  next
    case (Unsubscribe os)
    then show ?thesis using ok by (auto simp: relayOk_def relayInv_def observersFor_remove)
  next
    case (Gossip topic bs)
    then show ?thesis using ok by (simp add: relayOk_def relayInv_def onGossipMessage_log relay_processIncoming_log)
  qed
qed

lemma relay_reached: "relayOk topics (runEvents (relayExec decodeTopic) evs (newRelay topics))"
  by (rule relays.run_from_start) simp

section \<open>Properties\<close>

text \<open>What one incoming message adds to the log of callbacks.\<close>

definition relay_delivered :: "(bytes \<Rightarrow> string res) \<Rightarrow> string \<Rightarrow> bytes \<Rightarrow> 'm relay \<Rightarrow> (nat \<times> 'm) list" where
  "relay_delivered decodeTopic topic bs R = drop (length (rl_log R)) (rl_log (onGossipMessage decodeTopic topic bs R))"

lemma delivered_eq:
  assumes "relayOk topics R"
  shows "relay_delivered decodeTopic topic bs R =
     (case decodeTopic bs of
        Inl _ \<Rightarrow> []
      | Inr ct \<Rightarrow> if ct = [] \<or> topic \<notin> set topics then [] else List.map_filter (observe topic bs) (observersFor topic ct R))"
  using assms unfolding relay_delivered_def relayOk_def
  by (simp add: onGossipMessage_log relay_processIncoming_log split: sum.splits)

lemma observe_chosen:
  assumes "map (\<lambda>(t, x). (t, ob_decoder x, ob_callback x)) os = map (\<lambda>d. (rd_pubsubTopic d, d, callback)) ds"
  shows "List.map_filter (observe topic bs) (chosen topic ct os) =
    List.map_filter (\<lambda>d. observe topic bs \<lparr>ob_id = n, ob_decoder = d, ob_callback = callback\<rparr>)
      (filter (\<lambda>d. rd_pubsubTopic d = topic \<and> rd_contentTopic d = ct) ds)"
  using assms
proof (induction os arbitrary: ds)
  case Nil
  then show ?case by (simp add: chosen_def map_filter_simps)
next
  case (Cons o1 os)
  then obtain d ds' where ds: "ds = d # ds'" by (cases ds) auto
  then show ?case using Cons.IH [of ds'] Cons.prems
    by (cases o1) (auto simp: chosen_def observe_def map_filter_simps split: sum.splits option.splits)
qed

lemma subscription_delivers:
  "let R = runEvents (relayExec decodeTopic) evs (newRelay topics);
       (R1, os) = relay_subscribe ds callback R
   in relay_delivered decodeTopic topic bs R1 = relay_delivered decodeTopic topic bs R @
        (case decodeTopic bs of
           Inl _ \<Rightarrow> []
         | Inr ct \<Rightarrow>
             if ct \<noteq> [] \<and> topic \<in> set topics
             then List.map_filter (\<lambda>d. observe topic bs \<lparr>ob_id = 0, ob_decoder = d, ob_callback = callback\<rparr>)
                    (filter (\<lambda>d. rd_pubsubTopic d = topic \<and> rd_contentTopic d = ct) ds)
             else []) \<and>
      relay_delivered decodeTopic topic bs (removeObservers os R1) = relay_delivered decodeTopic topic bs R"
proof -
  define R where "R = runEvents (relayExec decodeTopic) evs (newRelay topics)"
  obtain R1 os where sub: "relay_subscribe ds callback R = (R1, os)" by (metis surj_pair)
  have ok: "relayOk topics R" unfolding R_def by (rule relay_reached)
  then have inv: "relayInv R" by (simp add: relayOk_def)
  note props = relay_subscribe_props [OF sub inv]
  have ok1: "relayOk topics R1"
    using relays.exec_inv [OF ok, of decodeTopic "Subscribe ds callback"] sub by simp
  have ok2: "relayOk topics (removeObservers os R1)"
    using relays.exec_inv [OF ok1, of decodeTopic "Unsubscribe os"] by simp
  have restored: "observersFor topic ct (removeObservers os R1) = observersFor topic ct R" for ct
  proof -
    have old: "ob_id y < ob_id x" if "y \<in> set (observersFor topic ct R)" "x \<in> set (chosen topic ct os)" for x y
      using that inv props [of topic ct] unfolding relayInv_def chosen_def by fastforce
    have "filter (\<lambda>y. \<forall>x \<in> set (chosen topic ct os). ob_id y \<noteq> ob_id x) (observersFor topic ct R) = observersFor topic ct R"
      using old by (intro filter_True) fastforce
    moreover have "filter (\<lambda>y. \<forall>x \<in> set (chosen topic ct os). ob_id y \<noteq> ob_id x) (chosen topic ct os) = []"
      by (auto simp: filter_empty_conv)
    ultimately show ?thesis using props [of topic ct] by (simp add: observersFor_remove)
  qed
  have at: "observersFor topic ct R1 = observersFor topic ct R @ chosen topic ct os" for ct using props by blast
  have mf: "List.map_filter f (xs @ ys) = List.map_filter f xs @ List.map_filter f ys" for f :: "'a observer \<Rightarrow> (nat \<times> 'a) option" and xs ys
    by (simp add: map_filter_def)
  have "map (\<lambda>(t, x). (t, ob_decoder x, ob_callback x)) os = map (\<lambda>d. (rd_pubsubTopic d, d, callback)) ds"
    using props by blast
  note new = observe_chosen [OF this, where n = 0]
  show ?thesis
    unfolding R_def [symmetric] Let_def sub prod.case delivered_eq [OF ok] delivered_eq [OF ok1] delivered_eq [OF ok2] restored
    by (simp add: at new mf split: sum.splits)
qed

section \<open>The subscriptions as a list\<close>

text \<open>
  What the maps of sets stand for: one list of the observers of the subscriptions that have been made and not ended, oldest first. The end of
  a subscription takes its own observers off the list, and nothing else does. \<open>liveFrom n evs\<close> is the list after \<open>evs\<close>, with \<open>n\<close> as the first
  free number.
\<close>

definition endedBy :: "(string \<times> 'm observer) list \<Rightarrow> 'm observer \<Rightarrow> bool" where
  "endedBy os x \<longleftrightarrow> list_ex (\<lambda>(t, y). t = rd_pubsubTopic (ob_decoder x) \<and> rd_contentTopic (ob_decoder y) = rd_contentTopic (ob_decoder x) \<and>
     ob_id y = ob_id x) os"

definition newObservers :: "nat \<Rightarrow> 'm relayDecoder list \<Rightarrow> nat \<Rightarrow> 'm observer list" where
  "newObservers n ds callback = map (\<lambda>(i, d). \<lparr>ob_id = i, ob_decoder = d, ob_callback = callback\<rparr>) (zip [n..<n + length ds] ds)"

fun liveStep :: "'m relayEvent \<Rightarrow> nat \<times> 'm observer list \<Rightarrow> nat \<times> 'm observer list" where
  "liveStep (Subscribe ds callback) (n, xs) = (n + length ds, xs @ newObservers n ds callback)"
| "liveStep (Unsubscribe os) (n, xs) = (n, filter (\<lambda>x. \<not> endedBy os x) xs)"
| "liveStep (Gossip topic bs) (n, xs) = (n, xs)"

definition liveFrom :: "nat \<Rightarrow> 'm relayEvent list \<Rightarrow> 'm observer list" where
  "liveFrom n evs = snd (runEvents liveStep evs (n, []))"

fun ends :: "'m observer \<Rightarrow> 'm relayEvent \<Rightarrow> bool" where
  "ends x (Unsubscribe os) = endedBy os x"
| "ends x _ = False"

definition matching :: "string \<Rightarrow> string \<Rightarrow> 'm observer \<Rightarrow> bool" where
  "matching topic ct x \<longleftrightarrow> rd_pubsubTopic (ob_decoder x) = topic \<and> rd_contentTopic (ob_decoder x) = ct"

text \<open>What a list of observers is handed when a message comes in: each observer of its two topics that decodes it gets it once.\<close>

definition decodedBy :: "'m relayDecoder \<Rightarrow> string \<Rightarrow> bytes \<Rightarrow> 'm option" where
  "decodedBy d topic bs =
     (case rd_fromWireToProtoObj d bs of
        Inl _ \<Rightarrow> None
      | Inr p \<Rightarrow> Option.bind p (\<lambda>p. case rd_fromProtoObj d topic p of Inl _ \<Rightarrow> None | Inr m \<Rightarrow> m))"

definition handedTo :: "(bytes \<Rightarrow> string res) \<Rightarrow> string list \<Rightarrow> string \<Rightarrow> bytes \<Rightarrow> 'm observer list \<Rightarrow> (nat \<times> 'm) list" where
  "handedTo decodeTopic topics topic bs xs =
     (case decodeTopic bs of
        Inl _ \<Rightarrow> []
      | Inr ct \<Rightarrow>
          if ct \<noteq> [] \<and> topic \<in> set topics
          then List.map_filter (\<lambda>x. map_option (Pair (ob_callback x)) (decodedBy (ob_decoder x) topic bs)) (filter (matching topic ct) xs)
          else [])"

lemma observe_decodedBy: "observe topic bs = (\<lambda>x. map_option (Pair (ob_callback x)) (decodedBy (ob_decoder x) topic bs))"
  by (rule ext) (simp add: observe_def decodedBy_def split: sum.split option.split)

definition simulates :: "'m relay \<Rightarrow> nat \<times> 'm observer list \<Rightarrow> bool" where
  "simulates R L \<longleftrightarrow> rl_next R = fst L \<and> (\<forall>t ct. observersFor t ct R = filter (matching t ct) (snd L)) \<and>
     (\<forall>x \<in> set (snd L). ob_id x < fst L)"

lemma newObservers_Nil [simp]: "newObservers n [] callback = []"
  by (simp add: newObservers_def)

lemma newObservers_Cons [simp]:
  "newObservers n (d # ds) callback = \<lparr>ob_id = n, ob_decoder = d, ob_callback = callback\<rparr> # newObservers (Suc n) ds callback"
proof -
  have "[n..<n + length (d # ds)] = n # [Suc n..<Suc n + length ds]" by (simp add: upt_conv_Cons del: upt_Suc)
  then show ?thesis unfolding newObservers_def by (simp del: upt_Suc)
qed

lemma newObservers_ids: "x \<in> set (newObservers n ds callback) \<Longrightarrow> n \<le> ob_id x \<and> ob_id x < n + length ds"
  by (induction ds arbitrary: n) (simp, fastforce)

lemma subscribed_observers:
  "relay_subscribe ds callback R = (R', os) \<Longrightarrow>
     os = map (\<lambda>x. (rd_pubsubTopic (ob_decoder x), x)) (newObservers (rl_next R) ds callback) \<and> rl_next R' = rl_next R + length ds"
proof (induction ds arbitrary: R os)
  case (Cons d ds)
  obtain R1 t x where add: "addObserver d callback R = (R1, (t, x))" by (metis surj_pair)
  obtain os' where rest: "relay_subscribe ds callback R1 = (R', os')" and os: "os = (t, x) # os'"
    using Cons.prems add by (auto split: prod.splits)
  show ?case using Cons.IH [OF rest] addObserver_fields [OF add] by (simp add: os)
qed simp

lemma chosen_own: "chosen t ct (map (\<lambda>x. (rd_pubsubTopic (ob_decoder x), x)) xs) = filter (matching t ct) xs"
  by (induction xs) (auto simp: chosen_def matching_def)

lemma filter_ended:
  "filter (\<lambda>y. \<forall>x \<in> set (chosen t ct os). ob_id y \<noteq> ob_id x) (filter (matching t ct) xs) =
   filter (matching t ct) (filter (\<lambda>x. \<not> endedBy os x) xs)"
  unfolding filter_filter
  by (rule filter_cong [OF refl]) (auto simp: chosen_def endedBy_def matching_def list_ex_iff split: prod.splits)

lemma simulates_exec:
  assumes "relayOk topics R" "simulates R L"
  shows "simulates (relayExec decodeTopic e R) (liveStep e L)"
proof (cases e)
  case (Subscribe ds callback)
  obtain R' os where sub: "relay_subscribe ds callback R = (R', os)" by (metis surj_pair)
  have "relayInv R" using assms(1) by (simp add: relayOk_def)
  note props = relay_subscribe_props [OF sub this] and own = subscribed_observers [OF sub]
  have "observersFor t ct R' = filter (matching t ct) (snd L @ newObservers (fst L) ds callback)" for t ct
    using props [of t ct] own assms(2) by (simp add: simulates_def chosen_own)
  then show ?thesis
    using own assms(2) by (cases L) (auto simp: Subscribe sub simulates_def dest: newObservers_ids)
next
  case (Unsubscribe os)
  then show ?thesis using assms(2) by (cases L) (auto simp: simulates_def observersFor_remove filter_ended simp del: filter_filter)
next
  case (Gossip topic bs)
  then show ?thesis using assms by (cases L) (simp add: simulates_def relayOk_def onGossipMessage_log relay_processIncoming_log)
qed

lemma simulates_run:
  "relayOk topics R \<Longrightarrow> simulates R L \<Longrightarrow> simulates (runEvents (relayExec decodeTopic) evs R) (runEvents liveStep evs L)"
proof (induction evs arbitrary: R L)
  case (Cons e evs)
  show ?case
    using Cons.IH [OF relays.exec_inv [OF Cons.prems(1)] simulates_exec [OF Cons.prems]] by (simp add: runEvents_simps)
qed (simp add: runEvents_simps)

lemma simulates_delivered:
  "relayOk topics R \<Longrightarrow> simulates R L \<Longrightarrow> relay_delivered decodeTopic topic bs R = handedTo decodeTopic topics topic bs (snd L)"
  by (auto simp: delivered_eq handedTo_def simulates_def observe_decodedBy split: sum.split)

lemma live_append:
  "snd (runEvents liveStep evs (n, xs @ ys)) = filter (\<lambda>x. \<not> list_ex (ends x) evs) xs @ snd (runEvents liveStep evs (n, ys))"
proof (induction evs arbitrary: n xs ys)
  case (Cons e evs)
  then show ?case by (cases e) (auto simp: runEvents_simps intro!: filter_cong)
qed (simp add: runEvents_simps)

lemma live_ids: "\<forall>x \<in> set xs. k \<le> ob_id x \<Longrightarrow> k \<le> n \<Longrightarrow> \<forall>x \<in> set (snd (runEvents liveStep evs (n, xs))). k \<le> ob_id x"
proof (induction evs arbitrary: n xs)
  case (Cons e evs)
  have "\<forall>x \<in> set (snd (liveStep e (n, xs))). k \<le> ob_id x" "k \<le> fst (liveStep e (n, xs))"
    using Cons.prems by (cases e; auto dest: newObservers_ids)+
  then show ?case using Cons.IH [of "snd (liveStep e (n, xs))" "fst (liveStep e (n, xs))"] by (simp add: runEvents_simps)
qed (simp add: runEvents_simps)

lemma own_observers_ended:
  fixes n callback :: nat and ds :: "'m relayDecoder list" and older newer :: "'m observer list"
  defines "own \<equiv> newObservers n ds callback"
  assumes "\<forall>x \<in> set older. ob_id x < n" "\<forall>x \<in> set newer. n + length ds \<le> ob_id x"
  shows "filter (\<lambda>x. \<not> endedBy (map (\<lambda>x. (rd_pubsubTopic (ob_decoder x), x)) own) x) (older @ own @ newer) = older @ newer"
proof -
  let ?os = "map (\<lambda>x. (rd_pubsubTopic (ob_decoder x), x)) own"
  have "n \<le> ob_id x \<and> ob_id x < n + length ds" if "endedBy ?os x" for x
  proof -
    from that obtain y where "y \<in> set own" "ob_id y = ob_id x" by (auto simp: endedBy_def list_ex_iff)
    then show ?thesis using newObservers_ids [of y n ds callback] by (simp add: own_def)
  qed
  moreover have "x \<in> set own \<Longrightarrow> endedBy ?os x" for x by (auto simp: endedBy_def list_ex_iff)
  ultimately have "filter (\<lambda>x. \<not> endedBy ?os x) older = older" "filter (\<lambda>x. \<not> endedBy ?os x) newer = newer"
    "filter (\<lambda>x. \<not> endedBy ?os x) own = []"
    using assms(2,3) by (force simp: filter_id_conv filter_empty_conv)+
  then show ?thesis by simp
qed

text \<open>The observers after a subscription \<open>os\<close> and any events that do not end it, and after its end.\<close>

lemma subscription_live:
  fixes later :: "'m relayEvent list" and decodeTopic :: "bytes \<Rightarrow> string res"
  assumes R: "relayOk topics R" "simulates R L" and sub: "relay_subscribe ds callback R = (R1, os)"
    and spared: "list_all (\<lambda>e. list_all (\<lambda>(t, x). \<not> ends x e) os) later"
  defines "R2 \<equiv> runEvents (relayExec decodeTopic) later R1"
    and "older \<equiv> filter (\<lambda>x. \<not> list_ex (ends x) later) (snd L)" and "newer \<equiv> liveFrom (rl_next R1) later"
  shows "relayOk topics R2 \<and> relayOk topics (removeObservers os R2) \<and>
    (\<exists>n. simulates R2 (n, older @ map snd os @ newer) \<and> simulates (removeObservers os R2) (n, older @ newer))"
proof -
  have R1: "relayOk topics R1" "simulates R1 (liveStep (Subscribe ds callback) L)"
    using relays.exec_inv [OF R(1), of decodeTopic "Subscribe ds callback"] simulates_exec [OF R, of decodeTopic "Subscribe ds callback"]
    by (simp_all add: sub)
  obtain n xs where live: "runEvents liveStep later (liveStep (Subscribe ds callback) L) = (n, xs)" by (metis surj_pair)
  have R2: "relayOk topics R2" "simulates R2 (n, xs)"
    using simulates_run [OF R1, of decodeTopic later] relays.run_inv [OF R1(1), of decodeTopic later] by (simp_all add: R2_def live)
  have R3: "relayOk topics (removeObservers os R2)" "simulates (removeObservers os R2) (n, filter (\<lambda>x. \<not> endedBy os x) xs)"
    using relays.exec_inv [OF R2(1), of decodeTopic "Unsubscribe os"] simulates_exec [OF R2, of decodeTopic "Unsubscribe os"] by simp_all
  define ours where "ours = newObservers (fst L) ds callback"
  have own: "os = map (\<lambda>x. (rd_pubsubTopic (ob_decoder x), x)) ours" "rl_next R1 = fst L + length ds"
    using subscribed_observers [OF sub] R(2) by (simp_all add: ours_def simulates_def)
  have "filter (\<lambda>x. \<not> list_ex (ends x) later) ours = ours"
    using spared by (auto simp: own filter_id_conv list_all_iff list_ex_iff)
  moreover have "xs = filter (\<lambda>x. \<not> list_ex (ends x) later) (snd L @ ours) @ newer"
    using live_append [of later "rl_next R1" "snd L @ ours" "[]"] live own(2)
    by (cases L) (simp add: ours_def newer_def liveFrom_def)
  ultimately have xs: "xs = older @ ours @ newer" by (simp add: older_def)
  have "\<forall>x \<in> set older. ob_id x < fst L" using R(2) by (auto simp: simulates_def older_def)
  moreover have "\<forall>x \<in> set newer. fst L + length ds \<le> ob_id x"
    using live_ids [of "[]" "rl_next R1" "rl_next R1" later] own(2) by (simp add: newer_def liveFrom_def)
  ultimately have "filter (\<lambda>x. \<not> endedBy os x) xs = older @ newer"
    unfolding xs own(1) ours_def by (rule own_observers_ended)
  moreover have "map snd os = ours" by (simp add: own(1) comp_def)
  ultimately show ?thesis using R2 R3 xs by auto
qed

text \<open>C16: In any reachable state a subscription takes one observer for each of its decoders, in their order. From then on, whatever other
  subscriptions are made and ended and whatever messages come, as long as nobody ends this subscription, each message of a configured pubsub
  topic goes once to the callback of every live observer of its two topics that decodes it: first those that were there before and have not been
  ended, then those of the subscription, then those subscribed later. The function that the subscription returned undoes exactly it: called at
  any later time it leaves the earlier and the later observers, in their order, and the messages go to these.\<close>

theorem relay_subscription_delivers:
  fixes later :: "'m relayEvent list"
  assumes "relay_subscribe ds callback (runEvents (relayExec decodeTopic) evs (newRelay topics)) = (R1, os)"
    and "list_all (\<lambda>e. list_all (\<lambda>(t, x). \<not> ends x e) os) later"
  shows "let R2 = runEvents (relayExec decodeTopic) later R1;
             older = filter (\<lambda>x. \<not> list_ex (ends x) later) (liveFrom 0 evs);
             newer = liveFrom (rl_next R1) later;
             handed = handedTo decodeTopic topics topic bs
         in map (\<lambda>(t, x). (t, ob_decoder x, ob_callback x)) os = map (\<lambda>d. (rd_pubsubTopic d, d, callback)) ds \<and>
            relay_delivered decodeTopic topic bs R2 = handed (older @ map snd os @ newer) \<and>
            relay_delivered decodeTopic topic bs (removeObservers os R2) = handed (older @ newer)"
proof -
  define R where "R = runEvents (relayExec decodeTopic) evs (newRelay topics)"
  have sub: "relay_subscribe ds callback R = (R1, os)" using assms(1) by (simp add: R_def)
  have start: "relayOk topics (newRelay topics)" "simulates (newRelay topics) (0, [])"
    using relay_reached [of topics decodeTopic "[]"] by (simp_all add: runEvents_simps simulates_def newRelay_def observersFor_def)
  have R: "relayOk topics R" "simulates R (runEvents liveStep evs (0, []))"
    using simulates_run [OF start] by (simp_all add: R_def relay_reached)
  have "map (\<lambda>(t, x). (t, ob_decoder x, ob_callback x)) os = map (\<lambda>d. (rd_pubsubTopic d, d, callback)) ds"
    using relay_subscribe_props [OF sub] R(1) by (auto simp: relayOk_def)
  then show ?thesis
    using subscription_live [OF R sub assms(2), of decodeTopic] simulates_delivered by (fastforce simp: Let_def liveFrom_def)
qed

definition demoRelayDecoder :: "nat relayDecoder" where
  "demoRelayDecoder = \<lparr>rd_pubsubTopic = ''t'', rd_contentTopic = ''c'', rd_fromWireToProtoObj = topicOnly_fromWire (\<lambda>_. Inr ''c''),
     rd_fromProtoObj = (\<lambda>_ p. Inr (Some (length (pm_contentTopic p))))\<rparr>"

text \<open>Three subscriptions, of which the second one is ended.\<close>

theorem relay_subscription_delivers_witness:
  "let decodeTopic = (\<lambda>_. Inr ''c'');
       (R1, os) = relay_subscribe [demoRelayDecoder] 2 (runEvents (relayExec decodeTopic) [Subscribe [demoRelayDecoder] 1] (newRelay [''t'']));
       R2 = runEvents (relayExec decodeTopic) [Subscribe [demoRelayDecoder] 3] R1
   in relay_delivered decodeTopic ''t'' [0] R2 = [(1, 1), (2, 1), (3, 1)] \<and>
      relay_delivered decodeTopic ''t'' [0] (removeObservers os R2) = [(1, 1), (3, 1)]"
proof -
  define decodeTopic :: "bytes \<Rightarrow> string res" where "decodeTopic = (\<lambda>_. Inr ''c'')"
  obtain R1 os where sub: "relay_subscribe [demoRelayDecoder] 2
      (runEvents (relayExec decodeTopic) [Subscribe [demoRelayDecoder] 1] (newRelay [''t''])) = (R1, os)" by (metis surj_pair)
  have os: "os = [(''t'', \<lparr>ob_id = 1, ob_decoder = demoRelayDecoder, ob_callback = 2\<rparr>)]" and n: "rl_next R1 = 2"
    using subscribed_observers [OF sub] subscribed_observers [of "[demoRelayDecoder]" 1 "newRelay [''t'']"]
    by (auto simp: runEvents_simps demoRelayDecoder_def newRelay_def addObserver_def Let_def)
  show ?thesis
    unfolding decodeTopic_def [symmetric] sub Let_def prod.case
    using relay_subscription_delivers [OF sub, of "[Subscribe [demoRelayDecoder] 3]" "''t''" "[0]"]
    by (simp add: os n runEvents_simps liveFrom_def handedTo_def matching_def decodeTopic_def demoRelayDecoder_def decodedBy_def topicOnly_fromWire_def
        map_filter_simps Let_def)
qed

text \<open>Every topic is mapped to the pubsub topics that have observers; no content topic is returned.\<close>

theorem active_subscriptions_are_pubsub_topics:
  "jm_get (getActiveSubscriptions R) topic = (if topic \<in> set (rl_pubsubTopics R) then Some (jm_keys (rl_observers R)) else None)"
proof -
  have "jm_get (fold (\<lambda>t. jm_set t ks) ts m) topic = (if topic \<in> set ts then Some ks else jm_get m topic)" for ks :: "string list" and ts m
    by (induction ts arbitrary: m) auto
  then show ?thesis by (simp add: getActiveSubscriptions_def)
qed

text \<open>\<open>waitForPeers\<close> returns at the first heartbeat at which the first topic has a peer, whatever the mesh of the other topics is.\<close>

lemma waitForPeers_loop_nonempty: "peers \<noteq> [] \<Longrightarrow> waitForPeers_loop fuel mesh beat peers ts = Some beat"
  by (induction ts) (cases fuel; simp)+

theorem waitForPeers_first_topic:
  "mesh (Suc n) t \<noteq> [] \<Longrightarrow> (\<And>i. i < n \<Longrightarrow> mesh (Suc i) t = []) \<Longrightarrow> n < fuel \<Longrightarrow> waitForPeers fuel mesh (t # ts) = Some (Suc n)"
proof -
  assume some: "mesh (Suc n) t \<noteq> []" and none: "\<And>i. i < n \<Longrightarrow> mesh (Suc i) t = []" and fuel: "n < fuel"
  have "k \<le> n \<Longrightarrow> n < k + fuel \<Longrightarrow> waitForPeers_loop fuel mesh k [] (t # ts) = Some (Suc n)" for k fuel
  proof (induction fuel arbitrary: k)
    case (Suc fuel)
    then show ?case using some none [of k] Suc.IH [of "Suc k"]
      by (cases "k = n") (simp_all add: waitForPeers_loop_nonempty del: waitForPeers_loop.simps(2))
  qed simp
  from this [of 0 fuel] show ?thesis using fuel by (simp add: waitForPeers_def)
qed

text \<open>Relay sends nothing on a topic that is not configured, nothing that the encoder refuses and nothing above the cap; what it
  publishes is the wire form the encoder made, and the successes are the peers gossipsub returns.\<close>

theorem relay_send_outcome:
  "relay_send publish pubsubTopics encoder message = Inr r \<Longrightarrow>
     (if sdk_failures r = []
      then ie_pubsubTopic encoder \<in> set pubsubTopics \<and>
           (\<exists>m. ie_toWire encoder message = Inr (Some m) \<and> isWireSizeUnderCap m \<and>
                publish (ie_pubsubTopic encoder) m = Inr (sdk_successes r))
      else sdk_successes r = [] \<and>
           map fl_error (sdk_failures r) =
             [if ie_pubsubTopic encoder \<notin> set pubsubTopics then TOPIC_NOT_CONFIGURED
              else if ie_toWire encoder message = Inr None then ENCODE_FAILED else SIZE_TOO_BIG])"
  by (auto simp: relay_send_def Let_def rbind_def split: if_splits sum.splits option.splits)

end
