(* ===== verification/EnrDemo.thy ===== *)
theory EnrDemo
  imports Enr
begin

text \<open>A node record and the functions that decode it, shared by the witnesses of the discovery theories.\<close>

text \<open>A library for the witnesses: the only signature that verifies is \<open>s\<close>.\<close>

definition demoDnsLib :: "(string, string) enrLib" where
  "demoDnsLib = demoEnrLib\<lparr>secpVerify := (\<lambda>s m k. Inr (s = demoUtf8 ''s'' \<and> k = demoUtf8 ''K''))\<rparr>"

definition demoValues :: "bytes list" where
  "demoValues = [demoUtf8 ''s'', [1], demoUtf8 ''id'', demoUtf8 ''v4'', demoUtf8 ''secp256k1'', demoUtf8 ''K'', demoUtf8 ''waku2'', [2]]"

definition demoRecord :: string where
  "demoRecord = ''enr:'' @ base64Enc demoDnsLib (rlpEncode demoDnsLib demoValues)"

definition demoPeer :: "string enr" where
  "demoPeer = \<lparr>enr_kvs = [(''id'', demoUtf8 ''v4''), (''secp256k1'', demoUtf8 ''K''), (''waku2'', [2])], enr_seq = 1,
     enr_signature = Some (demoUtf8 ''s''), enr_peerId = Some ''peer''\<rparr>"

lemma demoUtf8_of_bytes: "demoUtf8 (map (\<lambda>b. char_of (unat b)) bs) = bs"
proof (induction bs)
  case (Cons a bs)
  have "unat a < 256" using unsigned_less [of a] by simp
  then show ?case using Cons by (simp add: demoUtf8_def)
qed (simp add: demoUtf8_def)

lemma demoDnsLib_simps:
  "utf8Dec demoDnsLib (demoUtf8 s) = Inr s" "rlpDecode demoDnsLib (rlpEncode demoDnsLib vs) = Inr vs"
  "base64Dec demoDnsLib (base64Enc demoDnsLib bs) = Inr bs" "peerIdOf demoDnsLib pk = Inr ''peer''"
  "secpVerify demoDnsLib sg m k = Inr (sg = demoUtf8 ''s'' \<and> k = demoUtf8 ''K'')" "secpRawBytes demoDnsLib compressed k = Inr k"
  "bytesToHex demoDnsLib b = map (\<lambda>b. char_of (unat b)) b" "keccak256 demoDnsLib = demoSha"
  by (simp_all add: demoDnsLib_def demoEnrLib_def demoUtf8_of_bytes demoRlp_roundtrip demoUtf8_roundtrip)

lemma demoPeer_gets:
  "enr_id demoDnsLib (demoPeer\<lparr>enr_peerId := p\<rparr>) = Inr ''v4''"
  "enr_publicKey demoDnsLib (demoPeer\<lparr>enr_peerId := p\<rparr>) = Inr (Some (demoUtf8 ''K''))"
  "enr_get ''id'' (demoPeer\<lparr>enr_peerId := p\<rparr>) \<noteq> None"
  by (simp_all add: enr_publicKey_def enr_id_def enr_get_def demoPeer_def jm_get_def demoDnsLib_simps)

lemma demoPeer_values: "fromValues demoDnsLib demoValues = Inr demoPeer"
proof -
  let ?e = "demoPeer\<lparr>enr_peerId := None\<rparr>"
  have kvs: "kvsLoop demoDnsLib [demoUtf8 ''id'', demoUtf8 ''v4'', demoUtf8 ''secp256k1'', demoUtf8 ''K'', demoUtf8 ''waku2'', [2]] [] = enr_kvs ?e"
    by (simp add: demoDnsLib_simps demoPeer_def jm_set_def)
  have same: "demoPeer\<lparr>enr_peerId := Some ''peer''\<rparr> = demoPeer" by (simp add: demoPeer_def)
  have "\<lparr>enr_kvs = enr_kvs ?e, enr_seq = decodeSeq [1], enr_signature = Some (demoUtf8 ''s''), enr_peerId = None\<rparr> = ?e"
    by (simp add: demoPeer_def decodeSeq_def val_be_def)
  then have created: "enr_create demoDnsLib (enr_kvs ?e) (decodeSeq [1]) (Some (demoUtf8 ''s'')) = demoPeer"
    unfolding enr_create_def Let_def by (simp only: demoPeer_gets demoDnsLib_simps same sum.case option.case) (simp add: same)
  have "js_slice (demoUtf8 ''s'') 0 64 = demoUtf8 ''s''" by (simp add: demoUtf8_def js_slice_def slice_pos_def)
  then have "enr_verify demoDnsLib d (demoUtf8 ''s'') demoPeer = Inr True" for d
    using demoPeer_gets [of "Some ''peer''"] by (simp add: enr_verify_def same verifySignature_def demoDnsLib_simps)
  then show ?thesis using created kvs by (simp add: fromValues_def demoValues_def checkSignature_def Let_def del: kvsLoop.simps)
qed

lemma demoRecord_string: "enr_fromString demoDnsLib demoRecord = Inr demoPeer"
  by (simp add: enr_fromString_def fromRLP_def demoRecord_def demoDnsLib_simps demoPeer_values) 

end
