(* ===== verification/EnrTree.thy ===== *)
theory EnrTree
  imports EnrDemo
begin

text \<open>
  \<open>packages/discovery/src/dns/enrtree.ts\<close>: the text records of a DNS tree (EIP-1459). The regular expressions are deterministic
  scans: a group \<open>[^c]+\<close> followed by \<open>c\<close> is the text before the next \<open>c\<close>. Base32 is a parameter.
\<close>

section \<open>Strings\<close>

text \<open>\<open>s.split(sep)\<close> for a separator of several characters.\<close>

fun cutAt :: "string \<Rightarrow> string \<Rightarrow> (string \<times> string) option" where
  "cutAt sep s =
     (if prefix sep s then Some ([], drop (length sep) s)
      else case s of [] \<Rightarrow> None | c # cs \<Rightarrow> map_option (\<lambda>(a, b). (c # a, b)) (cutAt sep cs))"

declare cutAt.simps [simp del]

lemma cutAt_append: "cutAt sep s = Some (a, b) \<Longrightarrow> s = a @ sep @ b"
proof (induction s arbitrary: a)
  case Nil
  then show ?case by (subst (asm) cutAt.simps) (auto split: if_splits simp: prefix_def)
next
  case (Cons c s)
  then show ?case by (subst (asm) (2) cutAt.simps) (auto split: if_splits simp: prefix_def)
qed

function js_splitStr :: "string \<Rightarrow> string \<Rightarrow> string list" where
  "js_splitStr sep s =
     (if sep = [] then map (\<lambda>c. [c]) s
      else case cutAt sep s of None \<Rightarrow> [s] | Some (a, b) \<Rightarrow> a # js_splitStr sep b)"
  by pat_completeness auto
termination
  by (relation "measure (\<lambda>(sep, s). length s)") (auto dest: cutAt_append)

declare js_splitStr.simps [simp del]

lemma cutAt_absent: "cutAt sep s = None \<longleftrightarrow> \<not> js_includes sep s"
proof (induction s)
  case Nil
  show ?case by (subst cutAt.simps) simp
next
  case (Cons c s)
  then show ?case by (subst cutAt.simps) auto
qed

text \<open>A text without the first character of the separator is skipped.\<close>

lemma cutAt_skip: "c \<notin> set a \<Longrightarrow> cutAt (c # sep) (a @ s) = map_option (\<lambda>(x, y). (a @ x, y)) (cutAt (c # sep) s)"
proof (induction a)
  case Nil
  then show ?case by (simp add: option.map_ident case_prod_unfold)
next
  case (Cons x a)
  then show ?case by (subst cutAt.simps) (auto simp: option.map_comp comp_def case_prod_unfold)
qed

lemma js_splitStr_absent: "sep \<noteq> [] \<Longrightarrow> \<not> js_includes sep s \<Longrightarrow> js_splitStr sep s = [s]"
  by (subst js_splitStr.simps) (simp add: cutAt_absent [symmetric])

lemma js_splitStr_prefix: "sep \<noteq> [] \<Longrightarrow> js_splitStr sep (sep @ s) = [] # js_splitStr sep s"
  by (subst js_splitStr.simps, subst cutAt.simps) simp

text \<open>A group \<open>[^c]+\<close> and the character after it.\<close>

definition groupBefore :: "char \<Rightarrow> string \<Rightarrow> (string \<times> string) option" where
  "groupBefore c s =
     (case dropWhile (\<lambda>x. x \<noteq> c) s of
        [] \<Rightarrow> None
      | _ # rest \<Rightarrow> (let g = takeWhile (\<lambda>x. x \<noteq> c) s in if g = [] then None else Some (g, rest)))"

lemma groupBefore_iff: "groupBefore c s = Some (g, rest) \<longleftrightarrow> g \<noteq> [] \<and> c \<notin> set g \<and> s = g @ c # rest"
proof
  assume "groupBefore c s = Some (g, rest)"
  then obtain x where d: "dropWhile (\<lambda>x. x \<noteq> c) s = x # rest" and g: "g = takeWhile (\<lambda>x. x \<noteq> c) s" "g \<noteq> []"
    by (auto simp: groupBefore_def Let_def split: list.splits if_splits)
  have "x = c" using d by (metis (mono_tags, lifting) dropWhile_eq_Cons_conv)
  moreover have "s = g @ dropWhile (\<lambda>x. x \<noteq> c) s" using g by simp
  ultimately show "g \<noteq> [] \<and> c \<notin> set g \<and> s = g @ c # rest"
    using d g by (metis (mono_tags, lifting) set_takeWhileD)
next
  assume "g \<noteq> [] \<and> c \<notin> set g \<and> s = g @ c # rest"
  then have "takeWhile (\<lambda>x. x \<noteq> c) s = g" "dropWhile (\<lambda>x. x \<noteq> c) s = c # rest" "g \<noteq> []"
    by (auto simp: takeWhile_tail dropWhile_append3)
  then show "groupBefore c s = Some (g, rest)" by (simp add: groupBefore_def)
qed

text \<open>A literal at the front.\<close>

definition eat :: "string \<Rightarrow> string \<Rightarrow> string option" where
  "eat p s = (if startsWith s p then Some (drop (length p) s) else None)"

lemma eat_iff: "eat p s = Some rest \<longleftrightarrow> s = p @ rest"
  by (auto simp: eat_def prefix_def)

section \<open>Records\<close>

definition RECORD_PREFIX :: string where "RECORD_PREFIX = ''enr:''"
definition TREE_PREFIX :: string where "TREE_PREFIX = ''enrtree:''"
definition BRANCH_PREFIX :: string where "BRANCH_PREFIX = ''enrtree-branch:''"
definition ROOT_PREFIX :: string where "ROOT_PREFIX = ''enrtree-root:''"

record enrRootValues =
  erv_eRoot :: string
  erv_lRoot :: string
  erv_seq :: int
  erv_signature :: string

record enrTreeValues =
  etv_publicKey :: string
  etv_domain :: string

text \<open>\<open>Number\<close> of a string of digits: the nearest double, for strings of fewer than 309 digits.\<close>

definition numberOfDigits :: "string \<Rightarrow> int" where
  "numberOfDigits ds = to_double (int (digits_val 10 (take_digits 10 ds)))"

definition isDigits :: "string \<Rightarrow> bool" where
  "isDigits ds \<longleftrightarrow> ds \<noteq> [] \<and> list_all (\<lambda>c. digit_val 10 c \<noteq> None) ds"

definition matchRoot :: "string \<Rightarrow> (string \<times> string \<times> string \<times> string) option" where
  "matchRoot txt =
     Option.bind (eat ''enrtree-root:v1 e='' txt) (\<lambda>t.
     Option.bind (groupBefore CHR '' '' t) (\<lambda>(eRoot, t).
     Option.bind (eat ''l='' t) (\<lambda>t.
     Option.bind (groupBefore CHR '' '' t) (\<lambda>(lRoot, t).
     Option.bind (eat ''seq='' t) (\<lambda>t.
     Option.bind (groupBefore CHR '' '' t) (\<lambda>(seq, t).
     if \<not> isDigits seq then None
     else Option.bind (eat ''sig='' t) (\<lambda>signature.
          if signature = [] \<or> CHR '' '' \<in> set signature then None else Some (eRoot, lRoot, seq, signature))))))))"

definition parseRootValues :: "string \<Rightarrow> enrRootValues res" where
  "parseRootValues txt =
     (case matchRoot txt of
        None \<Rightarrow> Inl (Error ''Could not parse ENRTree root entry'')
      | Some (eRoot, lRoot, seq, signature) \<Rightarrow>
          if eRoot = [] then Inl (Error ''Could not parse 'e' value from ENRTree root entry'')
          else if lRoot = [] then Inl (Error ''Could not parse 'l' value from ENRTree root entry'')
          else if seq = [] then Inl (Error ''Could not parse 'seq' value from ENRTree root entry'')
          else if signature = [] then Inl (Error ''Could not parse 'sig' value from ENRTree root entry'')
          else Inr \<lparr>erv_eRoot = eRoot, erv_lRoot = lRoot, erv_seq = numberOfDigits seq, erv_signature = signature\<rparr>)"

definition parseAndVerifyRoot :: "('pid, 'ma) enrLib \<Rightarrow> (string \<Rightarrow> bytes res) \<Rightarrow> string \<Rightarrow> string \<Rightarrow> string res" where
  "parseAndVerifyRoot L base32Dec root publicKey =
     (if \<not> startsWith root ROOT_PREFIX then Inl (Error (''ENRTree root entry must start with '' @ ROOT_PREFIX))
      else rbind (parseRootValues root) (\<lambda>rootValues.
           rbind (base32Dec publicKey) (\<lambda>decodedPublicKey.
           let signedComponent = hd (js_splitStr '' sig'' root);
               signedComponentBuffer = utf8Enc L signedComponent
           in rbind (base64Dec L (erv_signature rootValues)) (\<lambda>s.
                let signatureBuffer = js_slice s 0 64;
                    isVerified = verifySignature L signatureBuffer (keccak256 L signedComponentBuffer) decodedPublicKey
                in if \<not> isVerified then Inl (Error ''Unable to verify ENRTree root signature'')
                   else Inr (erv_eRoot rootValues)))))"

text \<open>The dot of \<open>(.+)\<close> does not match a line terminator.\<close>

definition isLineTerminator :: "char \<Rightarrow> bool" where
  "isLineTerminator c \<longleftrightarrow> c = CHR 0x0A \<or> c = CHR 0x0D"

definition matchTree :: "string \<Rightarrow> (string \<times> string) option" where
  "matchTree tree =
     Option.bind (eat ''enrtree://'' tree) (\<lambda>t.
     Option.bind (groupBefore CHR ''@'' t) (\<lambda>(publicKey, domain).
     if domain = [] \<or> list_ex isLineTerminator domain then None else Some (publicKey, domain)))"

definition parseTree :: "string \<Rightarrow> enrTreeValues res" where
  "parseTree tree =
     (if \<not> startsWith tree TREE_PREFIX then Inl (Error (''ENRTree tree entry must start with '' @ TREE_PREFIX))
      else case matchTree tree of
             None \<Rightarrow> Inl (Error ''Could not parse ENRTree tree entry'')
           | Some (publicKey, domain) \<Rightarrow>
               if publicKey = [] then Inl (Error ''Could not parse public key from ENRTree tree entry'')
               else if domain = [] then Inl (Error ''Could not parse domain from ENRTree tree entry'')
               else Inr \<lparr>etv_publicKey = publicKey, etv_domain = domain\<rparr>)"

definition parseBranch :: "string \<Rightarrow> string list res" where
  "parseBranch branch =
     (if \<not> startsWith branch BRANCH_PREFIX then Inl (Error (''ENRTree branch entry must start with '' @ BRANCH_PREFIX))
      else Inr (js_split (CHR '','') (js_splitStr BRANCH_PREFIX branch ! 1)))"

section \<open>Properties\<close>

lemma matchRoot_iff:
  "matchRoot txt = Some (e, l, q, s) \<longleftrightarrow>
     txt = ''enrtree-root:v1 e='' @ e @ '' l='' @ l @ '' seq='' @ q @ '' sig='' @ s \<and>
     e \<noteq> [] \<and> l \<noteq> [] \<and> s \<noteq> [] \<and> CHR '' '' \<notin> set e \<and> CHR '' '' \<notin> set l \<and> CHR '' '' \<notin> set s \<and> isDigits q"
proof
  assume "matchRoot txt = Some (e, l, q, s)"
  then show "txt = ''enrtree-root:v1 e='' @ e @ '' l='' @ l @ '' seq='' @ q @ '' sig='' @ s \<and>
     e \<noteq> [] \<and> l \<noteq> [] \<and> s \<noteq> [] \<and> CHR '' '' \<notin> set e \<and> CHR '' '' \<notin> set l \<and> CHR '' '' \<notin> set s \<and> isDigits q"
    by (auto simp: matchRoot_def bind_eq_Some_conv eat_iff groupBefore_iff split: if_splits)
next
  assume m: "txt = ''enrtree-root:v1 e='' @ e @ '' l='' @ l @ '' seq='' @ q @ '' sig='' @ s \<and>
     e \<noteq> [] \<and> l \<noteq> [] \<and> s \<noteq> [] \<and> CHR '' '' \<notin> set e \<and> CHR '' '' \<notin> set l \<and> CHR '' '' \<notin> set s \<and> isDigits q"
  have q: "q \<noteq> []" "CHR '' '' \<notin> set q" using m by (auto simp: isDigits_def list_all_iff digit_val_def)
  have "eat ''enrtree-root:v1 e='' txt = Some (e @ '' '' @ ''l='' @ l @ '' '' @ ''seq='' @ q @ '' '' @ ''sig='' @ s)"
    using m by (simp add: eat_iff)
  moreover have "groupBefore CHR '' '' (g @ '' '' @ rest) = Some (g, rest)" if "g \<noteq> []" "CHR '' '' \<notin> set g" for g rest
    using that by (simp add: groupBefore_iff)
  moreover have "eat p (p @ rest) = Some rest" for p rest by (simp add: eat_iff)
  ultimately show "matchRoot txt = Some (e, l, q, s)"
    unfolding matchRoot_def using m q by (simp only: Option.bind.bind_lunit prod.case simp_thms if_False if_True)
qed

lemma parseRootValues_iff:
  "parseRootValues txt = Inr r \<longleftrightarrow>
     (\<exists>q. matchRoot txt = Some (erv_eRoot r, erv_lRoot r, q, erv_signature r) \<and> numberOfDigits q = erv_seq r)"
proof (cases "matchRoot txt")
  case None
  then show ?thesis by (simp add: parseRootValues_def)
next
  case (Some m)
  obtain e l q s where m: "m = (e, l, q, s)" by (cases m)
  have "e \<noteq> [] \<and> l \<noteq> [] \<and> q \<noteq> [] \<and> s \<noteq> []"
    using Some unfolding m matchRoot_iff isDigits_def by blast
  then show ?thesis using Some by (cases r) (auto simp: parseRootValues_def m)
qed

lemma matchTree_iff:
  "matchTree tree = Some (k, d) \<longleftrightarrow>
     tree = ''enrtree://'' @ k @ ''@'' @ d \<and> k \<noteq> [] \<and> CHR ''@'' \<notin> set k \<and> d \<noteq> [] \<and> \<not> list_ex isLineTerminator d"
  by (auto simp: matchTree_def bind_eq_Some_conv eat_iff groupBefore_iff)

lemma parseTree_iff: "parseTree tree = Inr v \<longleftrightarrow> matchTree tree = Some (etv_publicKey v, etv_domain v)"
proof (cases "matchTree tree")
  case None
  then show ?thesis by (simp add: parseTree_def)
next
  case (Some m)
  obtain k d where m: "m = (k, d)" by (cases m)
  have kd: "tree = ''enrtree://'' @ k @ ''@'' @ d" "k \<noteq> []" "d \<noteq> []" using Some unfolding m matchTree_iff by blast+
  have "startsWith tree TREE_PREFIX" unfolding kd(1) TREE_PREFIX_def by simp
  then show ?thesis using Some kd(2,3) by (cases v) (simp add: parseTree_def m)
qed

text \<open>The records of a tree are read the way they are written: a tree link parses to a key and a domain exactly when it is
  \<open>enrtree://key@domain\<close> with a key without @ and a domain on one line, and a root parses to its values exactly when it is the
  four fields in order, with no spaces in them and a decimal sequence number.\<close>

theorem tree_records_roundtrip:
  "(parseTree tree = Inr v \<longleftrightarrow>
      tree = ''enrtree://'' @ etv_publicKey v @ ''@'' @ etv_domain v \<and>
      etv_publicKey v \<noteq> [] \<and> CHR ''@'' \<notin> set (etv_publicKey v) \<and>
      etv_domain v \<noteq> [] \<and> \<not> list_ex isLineTerminator (etv_domain v)) \<and>
   (parseRootValues txt = Inr r \<longleftrightarrow>
      (\<exists>q. isDigits q \<and> numberOfDigits q = erv_seq r \<and>
           txt = ''enrtree-root:v1 e='' @ erv_eRoot r @ '' l='' @ erv_lRoot r @ '' seq='' @ q @ '' sig='' @ erv_signature r) \<and>
      list_all (\<lambda>f. f \<noteq> [] \<and> CHR '' '' \<notin> set f) [erv_eRoot r, erv_lRoot r, erv_signature r])"
  unfolding parseRootValues_iff matchRoot_iff parseTree_iff matchTree_iff by (simp only: list.pred_inject simp_thms) blast

text \<open>\<open>'' sig''\<close> is not found inside a field that starts otherwise.\<close>

lemma cutAt_field:
  assumes "CHR '' '' \<notin> set w" and "\<not> prefix ''sig'' (w @ rest)"
  shows "cutAt '' sig'' ('' '' @ w @ rest) = map_option (\<lambda>(x, y). ('' '' @ w @ x, y)) (cutAt '' sig'' rest)"
proof -
  have "cutAt '' sig'' ('' '' @ w @ rest) = map_option (\<lambda>(x, y). (CHR '' '' # x, y)) (cutAt '' sig'' (w @ rest))"
    using assms(2) by (subst cutAt.simps) simp
  then show ?thesis using cutAt_skip [OF assms(1), of "''sig''" rest] by (simp add: option.map_comp comp_def case_prod_unfold)
qed

lemma signedComponent_eq:
  assumes "matchRoot root = Some (e, l, q, s)"
  shows "hd (js_splitStr '' sig'' root) = ''enrtree-root:v1 e='' @ e @ '' l='' @ l @ '' seq='' @ q"
proof -
  have m: "root = ''enrtree-root:v1'' @ '' '' @ (''e='' @ e) @ '' '' @ (''l='' @ l) @ '' '' @ (''seq='' @ q) @ '' sig='' @ s"
    "CHR '' '' \<notin> set e" "CHR '' '' \<notin> set l" "CHR '' '' \<notin> set q"
    using assms by (auto simp: matchRoot_iff isDigits_def list_all_iff digit_val_def)
  have "cutAt '' sig'' ('' sig='' @ s) = Some ([], ''='' @ s)" by (subst cutAt.simps) simp
  moreover have "cutAt '' sig'' ('' '' @ (''seq='' @ q) @ rest) = map_option (\<lambda>(x, y). ('' '' @ (''seq='' @ q) @ x, y)) (cutAt '' sig'' rest)"
    "cutAt '' sig'' ('' '' @ (''l='' @ l) @ rest) = map_option (\<lambda>(x, y). ('' '' @ (''l='' @ l) @ x, y)) (cutAt '' sig'' rest)"
    "cutAt '' sig'' ('' '' @ (''e='' @ e) @ rest) = map_option (\<lambda>(x, y). ('' '' @ (''e='' @ e) @ x, y)) (cutAt '' sig'' rest)" for rest
    using m(2-4) by (intro cutAt_field; simp)+
  ultimately have "cutAt '' sig'' root =
      Some (''enrtree-root:v1'' @ '' '' @ (''e='' @ e) @ '' '' @ (''l='' @ l) @ '' '' @ (''seq='' @ q), ''='' @ s)"
    unfolding m(1) by (subst cutAt_skip) (simp_all only: option.map prod.case append.assoc append_Nil2, simp)
  then show ?thesis by (subst js_splitStr.simps) simp
qed

text \<open>C29: \<open>parseAndVerifyRoot\<close> returns the branch root of a record only when the record's signature, without the recovery byte, verifies
  under the decoded key over the hash of the whole content before the signature: the branch root, the link root and the sequence number.\<close>

theorem root_is_signed:
  "parseAndVerifyRoot L base32Dec root publicKey = Inr eRoot \<Longrightarrow>
     \<exists>l q sig key sigBytes content.
       content = ''enrtree-root:v1 e='' @ eRoot @ '' l='' @ l @ '' seq='' @ q \<and> root = content @ '' sig='' @ sig \<and>
       base32Dec publicKey = Inr key \<and> base64Dec L sig = Inr sigBytes \<and>
       verifySignature L (js_slice sigBytes 0 64) (keccak256 L (utf8Enc L content)) key"
proof -
  assume "parseAndVerifyRoot L base32Dec root publicKey = Inr eRoot"
  then obtain r key sigBytes where r: "parseRootValues root = Inr r" and key: "base32Dec publicKey = Inr key"
    and sig: "base64Dec L (erv_signature r) = Inr sigBytes" and e: "eRoot = erv_eRoot r"
    and ok: "verifySignature L (js_slice sigBytes 0 64) (keccak256 L (utf8Enc L (hd (js_splitStr '' sig'' root)))) key"
    by (auto simp: parseAndVerifyRoot_def res_simps Let_def split: if_splits)
  obtain q where q: "matchRoot root = Some (erv_eRoot r, erv_lRoot r, q, erv_signature r)"
    using r by (auto simp: parseRootValues_iff)
  then have "root = (''enrtree-root:v1 e='' @ eRoot @ '' l='' @ erv_lRoot r @ '' seq='' @ q) @ '' sig='' @ erv_signature r"
    unfolding matchRoot_iff e by simp
  then show ?thesis using key sig ok unfolding signedComponent_eq [OF q] e by blast
qed

text \<open>A root for the witnesses.\<close>

definition demoBase32 :: "string \<Rightarrow> bytes res" where "demoBase32 s = Inr (demoUtf8 s)"

definition demoRoot :: string where "demoRoot = ''enrtree-root:v1 e=B l=L seq=1 sig=s''"

lemma demoRoot_parse: "parseAndVerifyRoot demoDnsLib demoBase32 demoRoot ''K'' = Inr ''B''"
proof -
  have m: "matchRoot demoRoot = Some (''B'', ''L'', ''1'', ''s'')"
    by (simp add: matchRoot_iff demoRoot_def isDigits_def digit_val_def)
  then obtain r where r: "parseRootValues demoRoot = Inr r" "erv_eRoot r = ''B''" "erv_signature r = ''s''"
    by (auto simp: parseRootValues_def)
  have "startsWith demoRoot ROOT_PREFIX" by (simp add: demoRoot_def ROOT_PREFIX_def)
  moreover have "js_slice (js_slice (demoUtf8 ''s'') 0 64) 0 64 = demoUtf8 ''s''" by (simp add: demoUtf8_def js_slice_def slice_pos_def)
  ultimately show ?thesis
    by (simp add: parseAndVerifyRoot_def r demoBase32_def demoDnsLib_def demoEnrLib_def verifySignature_def)
qed

theorem root_is_signed_witness:
  "\<exists>l q sig content. content = ''enrtree-root:v1 e='' @ ''B'' @ '' l='' @ l @ '' seq='' @ q \<and> demoRoot = content @ '' sig='' @ sig"
  using root_is_signed [OF demoRoot_parse] by blast

text \<open>The subdomains of a branch.\<close>

lemma parseBranch_join:
  assumes "ps \<noteq> []" and "\<And>p. p \<in> set ps \<Longrightarrow> CHR '','' \<notin> set p" and "\<not> js_includes BRANCH_PREFIX (js_join '','' ps)"
  shows "parseBranch (BRANCH_PREFIX @ js_join '','' ps) = Inr ps"
proof -
  have "BRANCH_PREFIX \<noteq> []" by (simp add: BRANCH_PREFIX_def)
  then have "js_splitStr BRANCH_PREFIX (BRANCH_PREFIX @ js_join '','' ps) = [[], js_join '','' ps]"
    using assms(3) by (simp add: js_splitStr_prefix js_splitStr_absent)
  then show ?thesis using js_split_join [OF assms(1,2)] by (simp add: parseBranch_def)
qed

lemma parseBranch_returns: "startsWith branch BRANCH_PREFIX \<Longrightarrow> \<exists>ps. parseBranch branch = Inr ps \<and> ps \<noteq> []"
  by (simp add: parseBranch_def)

text \<open>The prefixes exclude one another.\<close>

lemma prefixes_exclusive:
  "prefix ROOT_PREFIX s \<Longrightarrow> \<not> prefix BRANCH_PREFIX s" "prefix ROOT_PREFIX s \<Longrightarrow> \<not> prefix RECORD_PREFIX s"
  "prefix BRANCH_PREFIX s \<Longrightarrow> \<not> prefix ROOT_PREFIX s" "prefix BRANCH_PREFIX s \<Longrightarrow> \<not> prefix RECORD_PREFIX s"
  "prefix RECORD_PREFIX s \<Longrightarrow> \<not> prefix ROOT_PREFIX s" "prefix RECORD_PREFIX s \<Longrightarrow> \<not> prefix BRANCH_PREFIX s"
  by (auto simp: ROOT_PREFIX_def BRANCH_PREFIX_def RECORD_PREFIX_def prefix_def)

end
