(* ===== verification/FetchNodes.thy ===== *)
theory FetchNodes
  imports EnrCodecs
begin

text \<open>
  \<open>packages/discovery/src/dns/fetch\_nodes.ts\<close>: collecting nodes until the wanted numbers of capabilities are reached.
  \<open>getNode\<close> is an argument and may keep a state of its own; its result is \<open>None\<close> when it never returns and \<open>Inl\<close> when it rejects.
  Counts are exact below \<open>2 ^ 53\<close>.
\<close>

section \<open>Data\<close>

record capCount =
  cc_relay :: int
  cc_store :: int
  cc_filter :: int
  cc_lightPush :: int

record partialCapCount =
  pc_relay :: "int option"
  pc_store :: "int option"
  pc_filter :: "int option"
  pc_lightPush :: "int option"

text \<open>What the code reads of a node record: the getters of \<open>IEnr\<close>.\<close>

record 'n enrView =
  ev_nodeId :: "'n \<Rightarrow> string option res"
  ev_waku2 :: "'n \<Rightarrow> waku2 option"
  ev_ip :: "'n \<Rightarrow> string option res"

type_synonym ('s, 'n) getNode = "'s \<Rightarrow> ('n option res \<times> 's) option"

section \<open>Capabilities\<close>

definition wantedOf :: "partialCapCount \<Rightarrow> capCount" where
  "wantedOf w = \<lparr>cc_relay = nullish (pc_relay w) 0, cc_store = nullish (pc_store w) 0, cc_filter = nullish (pc_filter w) 0,
                 cc_lightPush = nullish (pc_lightPush w) 0\<rparr>"

definition maxSearches :: "capCount \<Rightarrow> int" where
  "maxSearches wanted = cc_relay wanted + cc_store wanted + cc_filter wanted + cc_lightPush wanted"

definition noCapabilities :: capCount where
  "noCapabilities = \<lparr>cc_relay = 0, cc_store = 0, cc_filter = 0, cc_lightPush = 0\<rparr>"

definition isSatisfied :: "capCount \<Rightarrow> capCount \<Rightarrow> bool" where
  "isSatisfied wanted actual \<longleftrightarrow>
     cc_relay actual \<ge> cc_relay wanted \<and> cc_store actual \<ge> cc_store wanted \<and>
     cc_filter actual \<ge> cc_filter wanted \<and> cc_lightPush actual \<ge> cc_lightPush wanted"

definition addCapabilities :: "waku2 \<Rightarrow> capCount \<Rightarrow> capCount" where
  "addCapabilities node totals =
     \<lparr>cc_relay = cc_relay totals + (if w2_relay node then 1 else 0),
      cc_store = cc_store totals + (if w2_store node then 1 else 0),
      cc_filter = cc_filter totals + (if w2_filter node then 1 else 0),
      cc_lightPush = cc_lightPush totals + (if w2_lightPush node then 1 else 0)\<rparr>"

definition missingCapabilities :: "capCount \<Rightarrow> capCount \<Rightarrow> waku2" where
  "missingCapabilities wanted actual =
     \<lparr>w2_relay = (cc_relay actual < cc_relay wanted), w2_store = (cc_store actual < cc_store wanted),
      w2_filter = (cc_filter actual < cc_filter wanted), w2_lightPush = (cc_lightPush actual < cc_lightPush wanted)\<rparr>"

definition helpsSatisfyCapabilities :: "waku2 \<Rightarrow> capCount \<Rightarrow> capCount \<Rightarrow> bool res" where
  "helpsSatisfyCapabilities node wanted actual =
     (if isSatisfied wanted actual then Inl (Error ''Internal Error: Waku2 wanted capabilities are already fulfilled'')
      else let missing = missingCapabilities wanted actual
           in Inr (w2_relay missing \<and> w2_relay node \<or> w2_store missing \<and> w2_store node \<or>
                   w2_filter missing \<and> w2_filter node \<or> w2_lightPush missing \<and> w2_lightPush node))"

section \<open>fetchNodesUntilCapabilitiesFulfilled\<close>

text \<open>An absent and an empty node id are both falsy.\<close>

fun sameNodeId :: "'n enrView \<Rightarrow> string \<Rightarrow> 'n list \<Rightarrow> bool res" where
  "sameNodeId V i [] = Inr False"
| "sameNodeId V i (p # ps) = rbind (ev_nodeId V p) (\<lambda>j. if j = Some i then Inr True else sameNodeId V i ps)"

definition isNewPeer :: "'n enrView \<Rightarrow> 'n \<Rightarrow> 'n list \<Rightarrow> bool res" where
  "isNewPeer V peer peers =
     rbind (ev_nodeId V peer)
       (\<lambda>i. case i of None \<Rightarrow> Inr False
             | Some i \<Rightarrow> if i = [] then Inr False else rbind (sameNodeId V i peers) (\<lambda>b. Inr (\<not> b)))"

text \<open>Whether a new peer is kept, with the log line that reads its address.\<close>

definition considerPeer :: "'n enrView \<Rightarrow> capCount \<Rightarrow> 'n \<Rightarrow> capCount \<Rightarrow> (capCount \<times> bool) res" where
  "considerPeer V wanted peer actual =
     rbind (case ev_waku2 V peer of
              None \<Rightarrow> Inr (actual, False)
            | Some w \<Rightarrow> rbind (helpsSatisfyCapabilities w wanted actual)
                         (\<lambda>helps. Inr (if helps then (addCapabilities w actual, True) else (actual, False))))
       (\<lambda>r. rbind (ev_ip V peer) (\<lambda>_. Inr r))"

definition fetchStep :: "'n enrView \<Rightarrow> capCount \<Rightarrow> 'n option \<Rightarrow> capCount \<times> 'n list \<Rightarrow> (capCount \<times> 'n list) res" where
  "fetchStep V wanted node acc =
     (case (node, acc) of
        (None, _) \<Rightarrow> Inr acc
      | (Some peer, (actual, peers)) \<Rightarrow>
          rbind (isNewPeer V peer peers)
            (\<lambda>new. if new
                   then rbind (considerPeer V wanted peer actual)
                          (\<lambda>(actual', keep). Inr (actual', if keep then peers @ [peer] else peers))
                   else Inr acc))"

function fetchLoop ::
  "'n enrView \<Rightarrow> ('s, 'n) getNode \<Rightarrow> capCount \<Rightarrow> int \<Rightarrow> int \<Rightarrow> capCount \<times> 'n list \<Rightarrow> 's \<Rightarrow> ((capCount \<times> 'n list) res \<times> 's) option" where
  "fetchLoop V getNode wanted limit totalSearches acc s =
     (if \<not> isSatisfied wanted (fst acc) \<and> totalSearches < limit
      then case getNode s of
             None \<Rightarrow> None
           | Some (Inl e, s') \<Rightarrow> Some (Inl e, s')
           | Some (Inr node, s') \<Rightarrow>
               (case fetchStep V wanted node acc of
                  Inl e \<Rightarrow> Some (Inl e, s')
                | Inr acc' \<Rightarrow> fetchLoop V getNode wanted limit (totalSearches + 1) acc' s')
      else Some (Inr acc, s))"
  by pat_completeness auto
termination by (relation "measure (\<lambda>(V, g, w, limit, t, a, s). nat (limit - t))") auto

declare fetchLoop.simps [simp del]

definition fetchNodesUntilCapabilitiesFulfilled ::
  "'n enrView \<Rightarrow> partialCapCount \<Rightarrow> int \<Rightarrow> ('s, 'n) getNode \<Rightarrow> 's \<Rightarrow> ('n list res \<times> 's) option" where
  "fetchNodesUntilCapabilitiesFulfilled V wantedNodeCapabilityCount errorTolerance getNode s =
     (let wanted = wantedOf wantedNodeCapabilityCount
      in map_option (\<lambda>(r, s'). (rbind r (\<lambda>(actual, peers). Inr peers), s'))
           (fetchLoop V getNode wanted (maxSearches wanted + errorTolerance) 0 (noCapabilities, []) s))"

section \<open>yieldNodesUntilCapabilitiesFulfilled\<close>

text \<open>The generator yields a list; an exception ends it after the nodes yielded so far.\<close>

definition yieldStep ::
  "'n enrView \<Rightarrow> capCount \<Rightarrow> 'n option \<Rightarrow> capCount \<times> string list \<Rightarrow> (capCount \<times> string list \<times> 'n list) res" where
  "yieldStep V wanted node acc =
     (case (node, acc) of
        (None, (actual, ids)) \<Rightarrow> Inr (actual, ids, [])
      | (Some peer, (actual, ids)) \<Rightarrow>
          rbind (ev_nodeId V peer)
            (\<lambda>i. case i of
                   None \<Rightarrow> Inr (actual, ids, [])
                 | Some i \<Rightarrow>
                     if i = [] \<or> i \<in> set ids then Inr (actual, ids, [])
                     else rbind (considerPeer V wanted peer actual)
                            (\<lambda>(actual', keep). Inr (actual', ids @ [i], if keep then [peer] else []))))"

function yieldLoop ::
  "'n enrView \<Rightarrow> ('s, 'n) getNode \<Rightarrow> capCount \<Rightarrow> int \<Rightarrow> int \<Rightarrow> capCount \<times> string list \<Rightarrow> 's \<Rightarrow> ('n list \<times> unit res \<times> 's) option" where
  "yieldLoop V getNode wanted limit totalSearches acc s =
     (if \<not> isSatisfied wanted (fst acc) \<and> totalSearches < limit
      then case getNode s of
             None \<Rightarrow> None
           | Some (Inl e, s') \<Rightarrow> Some ([], Inl e, s')
           | Some (Inr node, s') \<Rightarrow>
               (case yieldStep V wanted node acc of
                  Inl e \<Rightarrow> Some ([], Inl e, s')
                | Inr (actual, ids, out) \<Rightarrow>
                    map_option (\<lambda>(ps, r). (out @ ps, r)) (yieldLoop V getNode wanted limit (totalSearches + 1) (actual, ids) s'))
      else Some ([], Inr (), s))"
  by pat_completeness auto
termination by (relation "measure (\<lambda>(V, g, w, limit, t, a, s). nat (limit - t))") auto

declare yieldLoop.simps [simp del]

definition yieldNodesUntilCapabilitiesFulfilled ::
  "'n enrView \<Rightarrow> partialCapCount \<Rightarrow> int \<Rightarrow> ('s, 'n) getNode \<Rightarrow> 's \<Rightarrow> ('n list \<times> unit res \<times> 's) option" where
  "yieldNodesUntilCapabilitiesFulfilled V wantedNodeCapabilityCount errorTolerance getNode s =
     (let wanted = wantedOf wantedNodeCapabilityCount
      in yieldLoop V getNode wanted (maxSearches wanted + errorTolerance) 0 (noCapabilities, []) s)"

section \<open>Lemmas\<close>

definition idOf :: "'n enrView \<Rightarrow> 'n \<Rightarrow> string" where
  "idOf V p = (case ev_nodeId V p of Inr (Some i) \<Rightarrow> i | _ \<Rightarrow> [])"

definition reporting :: "'n enrView \<Rightarrow> (waku2 \<Rightarrow> bool) \<Rightarrow> 'n list \<Rightarrow> int" where
  "reporting V capability peers = int (length (filter (\<lambda>p. case ev_waku2 V p of None \<Rightarrow> False | Some w \<Rightarrow> capability w) peers))"

definition capsOf :: "'n enrView \<Rightarrow> 'n list \<Rightarrow> capCount" where
  "capsOf V peers =
     \<lparr>cc_relay = reporting V w2_relay peers, cc_store = reporting V w2_store peers, cc_filter = reporting V w2_filter peers,
      cc_lightPush = reporting V w2_lightPush peers\<rparr>"

lemma capsOf_simps:
  "capsOf V [] = noCapabilities"
  "capsOf V (peers @ [p]) = (case ev_waku2 V p of None \<Rightarrow> capsOf V peers | Some w \<Rightarrow> addCapabilities w (capsOf V peers))"
  by (auto simp: capsOf_def reporting_def noCapabilities_def addCapabilities_def split: option.split)

text \<open>How many capabilities are still missing.\<close>

definition deficit :: "capCount \<Rightarrow> capCount \<Rightarrow> int" where
  "deficit wanted actual =
     max 0 (cc_relay wanted - cc_relay actual) + max 0 (cc_store wanted - cc_store actual) +
     max 0 (cc_filter wanted - cc_filter actual) + max 0 (cc_lightPush wanted - cc_lightPush actual)"

definition helpful :: "waku2 \<Rightarrow> capCount \<Rightarrow> capCount \<Rightarrow> bool" where
  "helpful w wanted actual \<longleftrightarrow>
     cc_relay actual < cc_relay wanted \<and> w2_relay w \<or> cc_store actual < cc_store wanted \<and> w2_store w \<or>
     cc_filter actual < cc_filter wanted \<and> w2_filter w \<or> cc_lightPush actual < cc_lightPush wanted \<and> w2_lightPush w"

lemma helpsSatisfy_eq: "\<not> isSatisfied wanted actual \<Longrightarrow> helpsSatisfyCapabilities w wanted actual = Inr (helpful w wanted actual)"
  by (simp add: helpsSatisfyCapabilities_def missingCapabilities_def helpful_def)

lemma helpful_deficit: "helpful w wanted actual \<Longrightarrow> deficit wanted (addCapabilities w actual) < deficit wanted actual"
  by (auto simp: helpful_def deficit_def addCapabilities_def)

lemma isSatisfied_deficit: "isSatisfied wanted actual \<longleftrightarrow> deficit wanted actual = 0"
  by (auto simp: isSatisfied_def deficit_def)

lemma helpful_mono: "\<not> helpful w wanted actual \<Longrightarrow> \<not> helpful w wanted (addCapabilities v actual)"
  by (auto simp: helpful_def addCapabilities_def)

lemma deficit_nonneg: "0 \<le> deficit wanted actual"
  by (simp add: deficit_def)

lemma sameNodeId_iff: "sameNodeId V i ps = Inr b \<Longrightarrow> b \<longleftrightarrow> (\<exists>p \<in> set ps. ev_nodeId V p = Inr (Some i))"
  by (induction ps) (auto simp: res_simps split: if_splits)

text \<open>Each node had a capability that the nodes before it left missing.\<close>

definition eachSupplied :: "'n enrView \<Rightarrow> capCount \<Rightarrow> 'n list \<Rightarrow> bool" where
  "eachSupplied V wanted peers \<longleftrightarrow>
     (\<forall>i < length peers. \<exists>w. ev_waku2 V (peers ! i) = Some w \<and> helpful w wanted (capsOf V (take i peers)))"

lemma eachSupplied_simps:
  "eachSupplied V wanted []"
  "eachSupplied V wanted (peers @ [p]) \<longleftrightarrow>
     eachSupplied V wanted peers \<and> (\<exists>w. ev_waku2 V p = Some w \<and> helpful w wanted (capsOf V peers))"
  by (auto simp: eachSupplied_def less_Suc_eq nth_append)

definition fetchOk :: "'n enrView \<Rightarrow> capCount \<Rightarrow> capCount \<times> 'n list \<Rightarrow> bool" where
  "fetchOk V wanted = (\<lambda>(actual, peers).
     actual = capsOf V peers \<and> distinct (map (idOf V) peers) \<and>
     (\<forall>p \<in> set peers. idOf V p \<noteq> [] \<and> ev_waku2 V p \<noteq> None) \<and>
     eachSupplied V wanted peers \<and> int (length peers) + deficit wanted actual \<le> deficit wanted noCapabilities)"

lemma isNewPeer_new:
  assumes "isNewPeer V peer peers = Inr True"
  shows "idOf V peer \<noteq> []" "idOf V peer \<notin> idOf V ` set peers"
proof -
  obtain i where i: "ev_nodeId V peer = Inr (Some i)" "i \<noteq> []" "sameNodeId V i peers = Inr False"
    using assms by (auto simp: isNewPeer_def res_simps split: option.splits if_splits)
  show "idOf V peer \<noteq> []" using i by (simp add: idOf_def)
  have "ev_nodeId V p \<noteq> Inr (Some i)" if "p \<in> set peers" for p using sameNodeId_iff [OF i(3)] that by blast
  then show "idOf V peer \<notin> idOf V ` set peers"
    using i by (auto simp: idOf_def split: sum.splits option.splits)
qed

lemma considerPeer_cases:
  assumes "considerPeer V wanted peer actual = Inr (actual', keep)" and "\<not> isSatisfied wanted actual"
  shows "if keep then \<exists>w. ev_waku2 V peer = Some w \<and> helpful w wanted actual \<and> actual' = addCapabilities w actual
         else actual' = actual \<and> (\<forall>w. ev_waku2 V peer = Some w \<longrightarrow> \<not> helpful w wanted actual)"
    and "\<exists>a. ev_ip V peer = Inr a"
  using assms by (auto simp: considerPeer_def res_simps helpsSatisfy_eq split: option.splits if_splits)

lemma fetchStep_ok:
  assumes "fetchStep V wanted node acc = Inr acc'" and "fetchOk V wanted acc" and "\<not> isSatisfied wanted (fst acc)"
  shows "fetchOk V wanted acc'"
proof (cases node)
  case None
  then show ?thesis using assms by (simp add: fetchStep_def)
next
  case (Some peer)
  obtain actual peers where acc: "acc = (actual, peers)" by (cases acc)
  obtain new where new: "isNewPeer V peer peers = Inr new" using assms(1) by (auto simp: Some acc fetchStep_def res_simps)
  show ?thesis
  proof (cases new)
    case False
    then show ?thesis using assms new by (simp add: Some acc fetchStep_def)
  next
    case True
    then have new': "isNewPeer V peer peers = Inr True" using new by simp
    obtain actual' keep where con: "considerPeer V wanted peer actual = Inr (actual', keep)"
      and acc': "acc' = (actual', if keep then peers @ [peer] else peers)"
      using assms(1) new True by (auto simp: Some acc fetchStep_def res_simps)
    note c = considerPeer_cases(1) [OF con assms(3) [unfolded acc fst_conv]]
    show ?thesis
    proof (cases keep)
      case True
      then obtain w where w: "ev_waku2 V peer = Some w" "helpful w wanted actual" "actual' = addCapabilities w actual" using c by auto
      then have "actual' = capsOf V (peers @ [peer])" "eachSupplied V wanted (peers @ [peer])"
        using assms(2) by (simp_all add: acc fetchOk_def capsOf_simps eachSupplied_simps)
      then show ?thesis
        using True w(1) assms(2) isNewPeer_new [OF new'] helpful_deficit [OF w(2)] w(3) by (auto simp: acc acc' fetchOk_def)
    next
      case False
      then show ?thesis using c assms(2) by (auto simp: acc acc' fetchOk_def)
    qed
  qed
qed

text \<open>\<open>getNode\<close> with a counter of its calls.\<close>

definition counted :: "('s, 'n) getNode \<Rightarrow> (nat \<times> 's, 'n) getNode" where
  "counted getNode = (\<lambda>(n, s). map_option (\<lambda>(r, s'). (r, (Suc n, s'))) (getNode s))"

lemma fetchLoop_ok:
  "fetchLoop V (counted getNode) wanted limit t acc (n, s) = Some (Inr acc', (n', s')) \<Longrightarrow> fetchOk V wanted acc \<Longrightarrow> t = int n \<Longrightarrow>
     fetchOk V wanted acc' \<and> int n' \<le> max t limit \<and> (isSatisfied wanted (fst acc') \<or> limit \<le> int n')"
proof (induction "nat (limit - t)" arbitrary: t acc n s rule: less_induct)
  case less
  note run = less.prems(1)
  show ?case
  proof (cases "\<not> isSatisfied wanted (fst acc) \<and> t < limit")
    case False
    then have "acc' = acc" "n' = n" using run by (auto simp: fetchLoop.simps)
    then show ?thesis using False less.prems by auto
  next
    case True
    obtain node s1 where node: "getNode s = Some (Inr node, s1)"
      using run True by (auto simp: fetchLoop.simps counted_def split: option.splits sum.splits)
    obtain acc1 where step: "fetchStep V wanted node acc = Inr acc1"
      using run True node by (auto simp: fetchLoop.simps counted_def split: sum.splits)
    have rest: "fetchLoop V (counted getNode) wanted limit (t + 1) acc1 (Suc n, s1) = Some (Inr acc', (n', s'))"
      using run True node step by (subst (asm) fetchLoop.simps) (simp add: counted_def)
    have "fetchOk V wanted acc1" using step less.prems(2) True by (blast intro: fetchStep_ok)
    then show ?thesis using less.hyps [OF _ rest] True less.prems(3) by auto
  qed
qed

text \<open>
  The two loops side by side: the generator remembers every id it has seen, the other loop those of the nodes it kept. A node seen
  and not kept did not help, and never will, as the missing capabilities only shrink.
\<close>

definition seenOk :: "'n enrView \<Rightarrow> capCount \<Rightarrow> capCount \<Rightarrow> 'n list \<Rightarrow> string list \<Rightarrow> bool" where
  "seenOk V wanted actual peers ids \<longleftrightarrow>
     (\<forall>p \<in> set peers. \<exists>i. ev_nodeId V p = Inr (Some i) \<and> i \<in> set ids) \<and>
     (\<forall>i \<in> set ids. \<exists>q a. ev_nodeId V q = Inr (Some i) \<and> ev_ip V q = Inr a \<and>
        (q \<in> set peers \<or> (\<forall>w. ev_waku2 V q = Some w \<longrightarrow> \<not> helpful w wanted actual)))"

definition idsDetermine :: "'n enrView \<Rightarrow> bool" where
  "idsDetermine V \<longleftrightarrow>
     (\<forall>p q i. ev_nodeId V p = Inr (Some i) \<and> ev_nodeId V q = Inr (Some i) \<longrightarrow> ev_waku2 V p = ev_waku2 V q \<and> ev_ip V p = ev_ip V q)"

lemma sameNodeId_total:
  "(\<And>p. p \<in> set ps \<Longrightarrow> \<exists>j. ev_nodeId V p = Inr (Some j)) \<Longrightarrow>
     sameNodeId V i ps = Inr (\<exists>p \<in> set ps. ev_nodeId V p = Inr (Some i))"
proof (induction ps)
  case (Cons p ps)
  obtain j where "ev_nodeId V p = Inr (Some j)" using Cons.prems [of p] by auto
  then show ?case using Cons by auto
qed simp

lemma isNewPeer_seen:
  assumes "seenOk V wanted actual peers ids" and "ev_nodeId V peer = Inr (Some i)" and "i \<noteq> []"
  shows "isNewPeer V peer peers = Inr (\<not> (\<exists>p \<in> set peers. ev_nodeId V p = Inr (Some i)))"
proof -
  have "sameNodeId V i peers = Inr (\<exists>p \<in> set peers. ev_nodeId V p = Inr (Some i))"
    using assms(1) by (intro sameNodeId_total) (auto simp: seenOk_def)
  then show ?thesis using assms by (simp add: isNewPeer_def)
qed

lemma considerPeer_unhelpful:
  assumes "ev_ip V peer = Inr a" and "\<forall>w. ev_waku2 V peer = Some w \<longrightarrow> \<not> helpful w wanted actual" and "\<not> isSatisfied wanted actual"
  shows "considerPeer V wanted peer actual = Inr (actual, False)"
  using assms by (auto simp: considerPeer_def helpsSatisfy_eq split: option.split)

lemma considerPeer_mono:
  "considerPeer V wanted peer actual = Inr (actual', keep) \<Longrightarrow> \<not> isSatisfied wanted actual \<Longrightarrow>
     \<not> helpful w wanted actual \<Longrightarrow> \<not> helpful w wanted actual'"
  by (drule (1) considerPeer_cases(1)) (auto simp: helpful_mono split: if_splits)

lemma steps_agree:
  assumes seen: "seenOk V wanted actual peers ids" and ids: "idsDetermine V" and unsat: "\<not> isSatisfied wanted actual"
  shows "case yieldStep V wanted node (actual, ids) of
           Inl e \<Rightarrow> fetchStep V wanted node (actual, peers) = Inl e
         | Inr (actual', ids', out) \<Rightarrow>
             fetchStep V wanted node (actual, peers) = Inr (actual', peers @ out) \<and> seenOk V wanted actual' (peers @ out) ids'"
proof (cases node)
  case None
  then show ?thesis using seen by (simp add: yieldStep_def fetchStep_def)
next
  case (Some peer)
  consider (error) e where "ev_nodeId V peer = Inl e" | (none) "ev_nodeId V peer = Inr None" | (empty) "ev_nodeId V peer = Inr (Some [])"
    | (id) i where "ev_nodeId V peer = Inr (Some i)" "i \<noteq> []"
    by (metis sum.exhaust option.exhaust)
  then show ?thesis
  proof cases
    case (id i)
    note isNew = isNewPeer_seen [OF seen id]
    show ?thesis
    proof (cases "i \<in> set ids")
      case True
      then obtain q a where q: "ev_nodeId V q = Inr (Some i)" "ev_ip V q = Inr a"
        "q \<in> set peers \<or> (\<forall>w. ev_waku2 V q = Some w \<longrightarrow> \<not> helpful w wanted actual)"
        using seen by (auto simp: seenOk_def)
      have same: "ev_waku2 V peer = ev_waku2 V q" "ev_ip V peer = ev_ip V q"
        using ids id q unfolding idsDetermine_def by blast+
      have "fetchStep V wanted node (actual, peers) = Inr (actual, peers)"
      proof (cases "q \<in> set peers")
        case True
        then have "isNewPeer V peer peers = Inr False" using isNew q by auto
        then show ?thesis by (simp add: Some fetchStep_def)
      next
        case False
        then have "considerPeer V wanted peer actual = Inr (actual, False)"
          using q same unsat by (auto intro: considerPeer_unhelpful)
        then show ?thesis using isNew by (auto simp: Some fetchStep_def)
      qed
      then show ?thesis using True id seen by (simp add: Some yieldStep_def)
    next
      case False
      then have "isNewPeer V peer peers = Inr True" using isNew seen by (fastforce simp: seenOk_def)
      note new = this
      show ?thesis
      proof (cases "considerPeer V wanted peer actual")
        case (Inl e)
        then show ?thesis using new id False by (simp add: Some yieldStep_def fetchStep_def)
      next
        case (Inr r)
        then obtain actual' keep where con: "considerPeer V wanted peer actual = Inr (actual', keep)" by (cases r) auto
        note c = considerPeer_cases [OF con unsat] and m = considerPeer_mono [OF con unsat]
        have "seenOk V wanted actual' (peers @ (if keep then [peer] else [])) (ids @ [i])"
          using seen id c m unfolding seenOk_def by (cases keep) (auto, (meson | blast)+)
        then show ?thesis using con new id False by (auto simp: Some yieldStep_def fetchStep_def)
      qed
    qed
  qed (simp_all add: Some yieldStep_def fetchStep_def isNewPeer_def seen)
qed

lemma loops_stop:
  "isSatisfied wanted (fst acc) \<or> limit \<le> t \<Longrightarrow> fetchLoop V getNode wanted limit t acc s = Some (Inr acc, s)"
  "isSatisfied wanted (fst ids) \<or> limit \<le> t \<Longrightarrow> yieldLoop V getNode wanted limit t ids s = Some ([], Inr (), s)"
  by (subst fetchLoop.simps, force) (subst yieldLoop.simps, force)

lemma fetchLoop_go:
  assumes "\<not> isSatisfied wanted (fst acc)" and "t < limit"
  shows "fetchLoop V getNode wanted limit t acc s =
    (case getNode s of
       None \<Rightarrow> None
     | Some (Inl e, s') \<Rightarrow> Some (Inl e, s')
     | Some (Inr node, s') \<Rightarrow>
         (case fetchStep V wanted node acc of
            Inl e \<Rightarrow> Some (Inl e, s')
          | Inr acc' \<Rightarrow> fetchLoop V getNode wanted limit (t + 1) acc' s'))"
  using assms by (subst fetchLoop.simps) (simp only: if_True simp_thms)

lemma yieldLoop_go:
  assumes "\<not> isSatisfied wanted (fst acc)" and "t < limit"
  shows "yieldLoop V getNode wanted limit t acc s =
    (case getNode s of
       None \<Rightarrow> None
     | Some (Inl e, s') \<Rightarrow> Some ([], Inl e, s')
     | Some (Inr node, s') \<Rightarrow>
         (case yieldStep V wanted node acc of
            Inl e \<Rightarrow> Some ([], Inl e, s')
          | Inr (actual, ids, out) \<Rightarrow>
              map_option (\<lambda>(ps, r). (out @ ps, r)) (yieldLoop V getNode wanted limit (t + 1) (actual, ids) s')))"
  using assms by (subst yieldLoop.simps) (simp only: if_True simp_thms)

lemma loops_agree:
  "seenOk V wanted actual peers ids \<Longrightarrow> idsDetermine V \<Longrightarrow>
     map_option (\<lambda>(r, s'). (rbind r (\<lambda>(actual, peers). Inr peers), s')) (fetchLoop V getNode wanted limit t (actual, peers) s) =
     map_option (\<lambda>(ps, r, s'). (rbind r (\<lambda>_. Inr (peers @ ps)), s')) (yieldLoop V getNode wanted limit t (actual, ids) s)"
proof (induction "nat (limit - t)" arbitrary: t actual peers ids s rule: less_induct)
  case less
  show ?case
  proof (cases "\<not> isSatisfied wanted actual \<and> t < limit")
    case False
    then show ?thesis by (auto simp: loops_stop)
  next
    case True
    then have go: "\<not> isSatisfied wanted (fst (actual, xs))" "t < limit" for xs :: "'x list" by simp_all
    note f = fetchLoop_go [OF go, of V getNode peers s] and y = yieldLoop_go [OF go, of V getNode ids s]
    show ?thesis
    proof (cases "getNode s")
      case None
      then show ?thesis unfolding f y by simp
    next
      case (Some r)
      then obtain x s1 where get: "getNode s = Some (x, s1)" by (cases r) auto
      show ?thesis
      proof (cases x)
        case (Inl e)
        then show ?thesis unfolding f y get by simp
      next
        case (Inr node)
        note agree = steps_agree [OF less.prems conjunct1 [OF True], of node]
        show ?thesis
        proof (cases "yieldStep V wanted node (actual, ids)")
          case (Inl e)
          then show ?thesis using agree unfolding f y get \<open>x = Inr node\<close> by simp
        next
          case (Inr z)
          then obtain actual' ids' out where z: "yieldStep V wanted node (actual, ids) = Inr (actual', ids', out)" by (cases z) auto
          have step: "fetchStep V wanted node (actual, peers) = Inr (actual', peers @ out)" and ok: "seenOk V wanted actual' (peers @ out) ids'"
            using agree z by auto
          show ?thesis
            using less.hyps [OF _ ok less.prems(2), of "t + 1" s1] True unfolding f y get \<open>x = Inr node\<close>
            by (simp add: z step option.map_comp comp_def case_prod_unfold)
        qed
      qed
    qed
  qed
qed

text \<open>
  A source of nodes with a potential: every node it gives uses up some of it. Then no more nodes are collected than the potential
  of the state at the start.
\<close>

locale node_source =
  fixes getNode :: "('s, 'n) getNode"
    and ok :: "'s \<Rightarrow> bool"
    and potential :: "'s \<Rightarrow> nat"
  assumes source_ok: "ok s \<Longrightarrow> getNode s = Some (r, s') \<Longrightarrow> ok s'"
    and source_none: "ok s \<Longrightarrow> getNode s = Some (Inr None, s') \<Longrightarrow> potential s' \<le> potential s"
    and source_some: "ok s \<Longrightarrow> getNode s = Some (Inr (Some p), s') \<Longrightarrow> potential s' < potential s"
begin

lemma fetchLoop_bounded:
  "fetchLoop V getNode wanted limit t acc s = Some (Inr acc', s') \<Longrightarrow> ok s \<Longrightarrow>
     length (snd acc') + potential s' \<le> length (snd acc) + potential s"
proof (induction "nat (limit - t)" arbitrary: t acc s rule: less_induct)
  case less
  show ?case
  proof (cases "\<not> isSatisfied wanted (fst acc) \<and> t < limit")
    case False
    then show ?thesis using less.prems by (auto simp: loops_stop)
  next
    case True
    note go = fetchLoop_go [OF conjunct1 [OF True] conjunct2 [OF True], of V getNode s]
    obtain node s1 acc1 where node: "getNode s = Some (Inr node, s1)" and step: "fetchStep V wanted node acc = Inr acc1"
      and rest: "fetchLoop V getNode wanted limit (t + 1) acc1 s1 = Some (Inr acc', s')"
      using less.prems(1) unfolding go by (auto split: option.splits sum.splits)
    have "length (snd acc1) + potential s1 \<le> length (snd acc) + potential s"
    proof (cases node)
      case None
      then show ?thesis using step source_none [OF less.prems(2)] node by (auto simp: fetchStep_def)
    next
      case (Some p)
      have "length (snd acc1) \<le> Suc (length (snd acc))"
        using step Some by (cases acc) (auto simp: fetchStep_def res_simps split: if_splits)
      then show ?thesis using source_some [OF less.prems(2)] node Some by fastforce
    qed
    then show ?thesis
      using less.hyps [OF _ rest source_ok [OF less.prems(2) node]] True by auto
  qed
qed

lemma fetch_bounded:
  "fetchNodesUntilCapabilitiesFulfilled V w errorTolerance getNode s = Some (Inr peers, s') \<Longrightarrow> ok s \<Longrightarrow> length peers \<le> potential s"
  by (auto simp: fetchNodesUntilCapabilitiesFulfilled_def Let_def res_simps dest!: fetchLoop_bounded)

end

text \<open>A source that always answers in the states that the loop reaches makes the loops return.\<close>

locale total_source =
  fixes getNode :: "('s, 'n) getNode"
    and ok :: "'s \<Rightarrow> bool"
  assumes total_ok: "ok s \<Longrightarrow> getNode s = Some (r, s') \<Longrightarrow> ok s'"
    and total_returns: "ok s \<Longrightarrow> getNode s \<noteq> None"
begin

lemma fetchLoop_returns: "ok s \<Longrightarrow> fetchLoop V getNode wanted limit t acc s \<noteq> None"
proof (induction "nat (limit - t)" arbitrary: t acc s rule: less_induct)
  case less
  show ?case
  proof (cases "\<not> isSatisfied wanted (fst acc) \<and> t < limit")
    case False
    then show ?thesis by (auto simp: loops_stop)
  next
    case True
    note go = fetchLoop_go [OF conjunct1 [OF True] conjunct2 [OF True], of V getNode s]
    obtain r s1 where get: "getNode s = Some (r, s1)" using total_returns [OF less.prems] by auto
    have "fetchLoop V getNode wanted limit (t + 1) acc1 s1 \<noteq> None" for acc1
      using less.hyps [of "t + 1" s1] total_ok [OF less.prems get] True by simp
    then show ?thesis unfolding go get by (auto split: sum.splits)
  qed
qed

lemma fetch_returns: "ok s \<Longrightarrow> fetchNodesUntilCapabilitiesFulfilled V w errorTolerance getNode s \<noteq> None"
  using fetchLoop_returns by (simp add: fetchNodesUntilCapabilitiesFulfilled_def Let_def)

end

section \<open>Properties\<close>

text \<open>C25: The nodes that \<open>fetchNodesUntilCapabilitiesFulfilled\<close> returns have different node ids, and each of them
  reports a wanted capability of which the nodes returned before it are too few, so there are at most as many nodes as capabilities
  wanted. \<open>getNode\<close> is called at most \<open>maxSearches + errorTolerance\<close> times, and exactly so often when some capability is still
  missing at the end.\<close>

theorem fetch_nodes_bounds:
  assumes run: "fetchNodesUntilCapabilitiesFulfilled V w errorTolerance (counted getNode) (0, s) = Some (Inr peers, (n, s'))"
  shows "let wanted = \<lparr>cc_relay = nullish (pc_relay w) 0, cc_store = nullish (pc_store w) 0, cc_filter = nullish (pc_filter w) 0,
                     cc_lightPush = nullish (pc_lightPush w) 0\<rparr>;
             limit = cc_relay wanted + cc_store wanted + cc_filter wanted + cc_lightPush wanted + errorTolerance
         in distinct (map (idOf V) peers) \<and> (\<forall>p \<in> set peers. idOf V p \<noteq> []) \<and>
            (\<forall>i < length peers. \<exists>c. ev_waku2 V (peers ! i) = Some c \<and> helpful c wanted (capsOf V (take i peers))) \<and>
            int (length peers) \<le> deficit wanted (capsOf V []) \<and>
            int n \<le> max 0 limit \<and> (deficit wanted (capsOf V peers) = 0 \<or> limit \<le> int n)"
proof -
  define wanted where "wanted = \<lparr>cc_relay = nullish (pc_relay w) 0, cc_store = nullish (pc_store w) 0, cc_filter = nullish (pc_filter w) 0,
    cc_lightPush = nullish (pc_lightPush w) 0\<rparr>"
  obtain actual where loop: "fetchLoop V (counted getNode) wanted (maxSearches wanted + errorTolerance) 0 (noCapabilities, []) (0, s) =
      Some (Inr (actual, peers), (n, s'))"
    using run by (auto simp: fetchNodesUntilCapabilitiesFulfilled_def Let_def res_simps wanted_def wantedOf_def)
  have "fetchOk V wanted (noCapabilities, [])" by (simp add: fetchOk_def eachSupplied_simps capsOf_simps)
  from fetchLoop_ok [OF loop this] show ?thesis
    unfolding wanted_def [symmetric] Let_def
    using deficit_nonneg [of wanted actual] by (auto simp: fetchOk_def eachSupplied_def capsOf_simps isSatisfied_deficit maxSearches_def)
qed

text \<open>A source of nodes that are given one after the other, for the witnesses.\<close>

definition demoView :: "(string \<times> waku2) enrView" where
  "demoView = \<lparr>ev_nodeId = (\<lambda>p. Inr (Some (fst p))), ev_waku2 = (\<lambda>p. Some (snd p)), ev_ip = (\<lambda>_. Inr None)\<rparr>"

fun demoNode :: "('n list, 'n) getNode" where
  "demoNode [] = Some (Inr None, [])"
| "demoNode (p # ps) = Some (Inr (Some p), ps)"

definition storeNode :: waku2 where "storeNode = \<lparr>w2_relay = False, w2_store = True, w2_filter = False, w2_lightPush = False\<rparr>"
definition wantStore :: partialCapCount where
  "wantStore = \<lparr>pc_relay = None, pc_store = Some 2, pc_filter = None, pc_lightPush = None\<rparr>"

lemma demo_fetch:
  "fetchNodesUntilCapabilitiesFulfilled demoView wantStore 1 (counted demoNode) (0, [(''a'', storeNode), (''a'', storeNode), (''b'', storeNode)]) =
     Some (Inr [(''a'', storeNode), (''b'', storeNode)], (3, []))"
  by code_simp

theorem fetch_nodes_bounds_witness:
  "distinct (map (idOf demoView) [(''a'', storeNode), (''b'', storeNode)]) \<and> 2 \<le> deficit (wantedOf wantStore) noCapabilities \<and>
   helpful storeNode (wantedOf wantStore) (capsOf demoView [(''a'', storeNode)])"
  using fetch_nodes_bounds [OF demo_fetch] by (auto simp: Let_def less_Suc_eq demoView_def capsOf_simps wantedOf_def)


definition storeView :: "string enrView" where
  "storeView = \<lparr>ev_nodeId = (\<lambda>p. Inr (Some p)), ev_waku2 = (\<lambda>_. Some storeNode), ev_ip = (\<lambda>_. Inr None)\<rparr>"


end
