(* ===== verification/Dns.thy ===== *)
theory Dns
  imports EnrTree FetchNodes
begin

text \<open>
  \<open>packages/discovery/src/dns/dns.ts\<close> and \<open>dns\_over\_https.ts\<close>: the search of a DNS tree for node records. The resolver answers
  the \<open>k\<close>-th query, and \<open>Math.floor(Math.random() * n)\<close> is the \<open>k\<close>-th draw. Names are not those of members of
  \<open>Object.prototype\<close>, which a plain object would find. Two bounds make the search total: \<open>de_patience\<close> draws in the loop that
  picks a branch, and \<open>fuel\<close> calls of \<open>_search\<close> inside one another; \<open>None\<close> means that one of them is used up.
\<close>

section \<open>dns\_over\_https.ts\<close>

datatype txtPart = TStr string | TBytes bytes
datatype txtData = TPart txtPart | TList "txtPart list"

fun txtPartString :: "(bytes \<Rightarrow> string res) \<Rightarrow> txtPart \<Rightarrow> string res" where
  "txtPartString bytesToUtf8 (TStr s) = Inr s"
| "txtPartString bytesToUtf8 (TBytes b) = bytesToUtf8 b"

fun txtDataStrings :: "(bytes \<Rightarrow> string res) \<Rightarrow> txtData \<Rightarrow> string list res" where
  "txtDataStrings bytesToUtf8 (TPart p) = rbind (txtPartString bytesToUtf8 p) (\<lambda>s. Inr [s])"
| "txtDataStrings bytesToUtf8 (TList ps) = mapM (txtPartString bytesToUtf8) ps"

definition resolveTXT :: "(bytes \<Rightarrow> string res) \<Rightarrow> (string \<Rightarrow> txtData list option res) \<Rightarrow> string \<Rightarrow> string list res" where
  "resolveTXT bytesToUtf8 query domain =
     (case query domain of
        Inl _ \<Rightarrow> Inl (Error ''DNS query failed'')
      | Inr None \<Rightarrow> Inl (Error (''Could not resolve '' @ domain))
      | Inr (Some answers) \<Rightarrow> rbind (mapM (txtDataStrings bytesToUtf8) answers) (\<lambda>dss. Inr (concat dss)))"

section \<open>State of dns.ts\<close>

record ('pid, 'ma) dnsEnv =
  de_lib :: "('pid, 'ma) enrLib"
  de_base32 :: "string \<Rightarrow> bytes res"
  de_resolveTXT :: "nat \<Rightarrow> string \<Rightarrow> string list res"
  de_draw :: "nat \<Rightarrow> nat \<Rightarrow> nat"
  de_patience :: nat

record dnsState =
  ds_cache :: "(string, string) jsmap"
  ds_visits :: "string list"
  ds_queries :: nat
  ds_draws :: nat

definition newDnsNodeDiscovery :: dnsState where
  "newDnsNodeDiscovery = \<lparr>ds_cache = [], ds_visits = [], ds_queries = 0, ds_draws = 0\<rparr>"

definition dns_errorTolerance :: int where "dns_errorTolerance = 10"

section \<open>The search\<close>

definition txtLocation :: "string \<Rightarrow> string \<Rightarrow> string" where
  "txtLocation domain subdomain = (if subdomain \<noteq> domain then subdomain @ ''.'' @ domain else domain)"

definition txtOfResponse :: "string list res \<Rightarrow> string res" where
  "txtOfResponse response =
     rbind response
       (\<lambda>rs. case rs of
               [] \<Rightarrow> Inl (Error ''Received empty result array while fetching TXT record'')
             | r # _ \<Rightarrow> if r = [] then Inl (Error ''Received empty TXT record'') else Inr (concat rs))"

definition getTXTRecord :: "('pid, 'ma) dnsEnv \<Rightarrow> string \<Rightarrow> string \<Rightarrow> dnsState \<Rightarrow> string res \<times> dnsState" where
  "getTXTRecord E domain subdomain S =
     (case jm_get (ds_cache S) subdomain of
        Some r \<Rightarrow> (Inr r, S)
      | None \<Rightarrow>
          (let S' = S\<lparr>ds_queries := ds_queries S + 1\<rparr>
           in case txtOfResponse (de_resolveTXT E (ds_queries S) (txtLocation domain subdomain)) of
                Inl e \<Rightarrow> (Inl e, S')
              | Inr result \<Rightarrow> (Inr result, S'\<lparr>ds_cache := jm_set subdomain result (ds_cache S')\<rparr>)))"

definition getEntryType :: "string \<Rightarrow> string" where
  "getEntryType entry =
     (if startsWith entry ROOT_PREFIX then ROOT_PREFIX
      else if startsWith entry BRANCH_PREFIX then BRANCH_PREFIX
      else if startsWith entry RECORD_PREFIX then RECORD_PREFIX
      else [])"

text \<open>The loop that draws until the index is not circular: the index and the number of draws so far.\<close>

fun drawLoop :: "nat \<Rightarrow> (nat \<Rightarrow> nat \<Rightarrow> nat) \<Rightarrow> nat \<Rightarrow> (nat \<Rightarrow> bool) \<Rightarrow> nat \<Rightarrow> (nat \<times> nat) option" where
  "drawLoop 0 draw n circular k = None"
| "drawLoop (Suc fuel) draw n circular k =
     (if circular (draw k n) then drawLoop fuel draw n circular (k + 1) else Some (draw k n, k + 1))"

definition selectRandomPath :: "('pid, 'ma) dnsEnv \<Rightarrow> string list \<Rightarrow> dnsState \<Rightarrow> (string res \<times> dnsState) option" where
  "selectRandomPath E branches S =
     (let circularRefs = filter (\<lambda>idx. branches ! idx \<in> set (ds_visits S)) [0..<length branches]
      in if length circularRefs = length branches then Some (Inl (Error ''Unresolvable circular path detected''), S)
         else map_option (\<lambda>(index, k). (Inr (branches ! index), S\<lparr>ds_draws := k\<rparr>))
                (drawLoop (de_patience E) (de_draw E) (length branches) (\<lambda>i. i \<in> set circularRefs) (ds_draws S)))"

text \<open>What \<open>await\<close> inside \<open>try\<close> makes of a rejection: it is logged and the result is \<open>null\<close>.\<close>

definition caught :: "('a option res \<times> dnsState) option \<Rightarrow> ('a option res \<times> dnsState) option" where
  "caught r = map_option (\<lambda>(x, S). (case x of Inl _ \<Rightarrow> Inr None | Inr y \<Rightarrow> Inr y, S)) r"

text \<open>
  \<open>return EnrDecoder.fromString(entry)\<close> is not awaited inside \<open>try\<close>: what it throws itself is caught, a rejection of its
  promise is not.
\<close>

definition searchRecord :: "('pid, 'ma) enrLib \<Rightarrow> string \<Rightarrow> 'pid enr option res" where
  "searchRecord L entry =
     (case rbind (base64Dec L (drop 4 entry)) (rlpDecode L) of
        Inl _ \<Rightarrow> Inr None
      | Inr _ \<Rightarrow> rbind (enr_fromString L entry) (\<lambda>e. Inr (Some e)))"

fun dns_search ::
  "nat \<Rightarrow> ('pid, 'ma) dnsEnv \<Rightarrow> string \<Rightarrow> string \<Rightarrow> string \<Rightarrow> dnsState \<Rightarrow> ('pid enr option res \<times> dnsState) option" where
  "dns_search 0 E publicKey domain subdomain S = None"
| "dns_search (Suc fuel) E publicKey domain subdomain S =
     (case getTXTRecord E domain subdomain S of
        (Inl _, S1) \<Rightarrow> Some (Inr None, S1)
      | (Inr entry, S1) \<Rightarrow>
          (let S2 = S1\<lparr>ds_visits := List.insert subdomain (ds_visits S1)\<rparr>; entryType = getEntryType entry
           in if entryType = ROOT_PREFIX then
                (case parseAndVerifyRoot (de_lib E) (de_base32 E) entry publicKey of
                   Inl _ \<Rightarrow> Some (Inr None, S2)
                 | Inr nxt \<Rightarrow> caught (dns_search fuel E publicKey domain nxt S2))
              else if entryType = BRANCH_PREFIX then
                (case parseBranch entry of
                   Inl _ \<Rightarrow> Some (Inr None, S2)
                 | Inr branches \<Rightarrow>
                     (case selectRandomPath E branches S2 of
                        None \<Rightarrow> None
                      | Some (Inl _, S3) \<Rightarrow> Some (Inr None, S3)
                      | Some (Inr nxt, S3) \<Rightarrow> caught (dns_search fuel E publicKey domain nxt S3)))
              else if entryType = RECORD_PREFIX then Some (searchRecord (de_lib E) entry, S2)
              else Some (Inr None, S2)))"

section \<open>getPeers and getNextPeer\<close>

definition enrViewOf :: "('pid, 'ma) enrLib \<Rightarrow> 'pid enr enrView" where
  "enrViewOf L = \<lparr>ev_nodeId = enr_nodeId L, ev_waku2 = get_waku2, ev_ip = get_ip L\<rparr>"

definition chooseTree :: "('pid, 'ma) dnsEnv \<Rightarrow> string list \<Rightarrow> dnsState \<Rightarrow> enrTreeValues res \<times> dnsState" where
  "chooseTree E enrTreeUrls S =
     (let networkIndex = de_draw E (ds_draws S) (length enrTreeUrls)
      in (if networkIndex < length enrTreeUrls then parseTree (enrTreeUrls ! networkIndex) else Inl TypeError,
          S\<lparr>ds_draws := ds_draws S + 1, ds_visits := []\<rparr>))"

definition getPeers_dns ::
  "nat \<Rightarrow> ('pid, 'ma) dnsEnv \<Rightarrow> string list \<Rightarrow> partialCapCount \<Rightarrow> dnsState \<Rightarrow> ('pid enr list res \<times> dnsState) option" where
  "getPeers_dns fuel E enrTreeUrls wantedNodeCapabilityCount S =
     (case chooseTree E enrTreeUrls S of
        (Inl e, S1) \<Rightarrow> Some (Inl e, S1)
      | (Inr t, S1) \<Rightarrow>
          fetchNodesUntilCapabilitiesFulfilled (enrViewOf (de_lib E)) wantedNodeCapabilityCount dns_errorTolerance
            (dns_search fuel E (etv_publicKey t) (etv_domain t) (etv_domain t)) S1)"

definition getNextPeer ::
  "nat \<Rightarrow> ('pid, 'ma) dnsEnv \<Rightarrow> string list \<Rightarrow> partialCapCount \<Rightarrow> dnsState \<Rightarrow> ('pid enr list \<times> unit res \<times> dnsState) option" where
  "getNextPeer fuel E enrTreeUrls wantedNodeCapabilityCount S =
     (case chooseTree E enrTreeUrls S of
        (Inl e, S1) \<Rightarrow> Some ([], Inl e, S1)
      | (Inr t, S1) \<Rightarrow>
          yieldNodesUntilCapabilitiesFulfilled (enrViewOf (de_lib E)) wantedNodeCapabilityCount dns_errorTolerance
            (dns_search fuel E (etv_publicKey t) (etv_domain t) (etv_domain t)) S1)"

section \<open>Lemmas\<close>

text \<open>The records that some query for a subdomain can bring.\<close>

definition possible :: "('pid, 'ma) dnsEnv \<Rightarrow> string \<Rightarrow> string \<Rightarrow> string \<Rightarrow> bool" where
  "possible E domain x r \<longleftrightarrow> (\<exists>k. txtOfResponse (de_resolveTXT E k (txtLocation domain x)) = Inr r)"

definition cacheOk :: "('pid, 'ma) dnsEnv \<Rightarrow> string \<Rightarrow> dnsState \<Rightarrow> bool" where
  "cacheOk E domain S \<longleftrightarrow> (\<forall>x r. jm_get (ds_cache S) x = Some r \<longrightarrow> possible E domain x r)"

lemma cacheOk_fields [simp]:
  "cacheOk E domain (S\<lparr>ds_visits := v\<rparr>) = cacheOk E domain S"
  "cacheOk E domain (S\<lparr>ds_draws := k\<rparr>) = cacheOk E domain S"
  "cacheOk E domain (S\<lparr>ds_queries := k\<rparr>) = cacheOk E domain S"
  by (simp_all add: cacheOk_def)

lemma getTXTRecord_props:
  assumes "getTXTRecord E domain x S = (res, S1)" and "cacheOk E domain S"
  shows "cacheOk E domain S1" "ds_visits S1 = ds_visits S" "res = Inr r \<Longrightarrow> possible E domain x r"
  using assms by (auto simp: getTXTRecord_def Let_def cacheOk_def possible_def split: option.splits sum.splits if_splits)

lemma drawLoop_props: "drawLoop fuel draw n circular k = Some (i, k') \<Longrightarrow> \<not> circular i \<and> (\<exists>j. i = draw j n)"
  by (induction fuel arbitrary: k) (auto split: if_splits)

lemma drawLoop_returns: "j < fuel \<Longrightarrow> \<not> circular (draw (k + j) n) \<Longrightarrow> drawLoop fuel draw n circular k \<noteq> None"
proof (induction fuel arbitrary: j k)
  case (Suc fuel)
  show ?case
  proof (cases j)
    case 0
    then show ?thesis using Suc.prems by simp
  next
    case (Suc i)
    then show ?thesis using Suc.prems Suc.IH [of i "Suc k"] by simp
  qed
qed simp

definition drawsInRange :: "('pid, 'ma) dnsEnv \<Rightarrow> bool" where
  "drawsInRange E \<longleftrightarrow> (\<forall>k n. 0 < n \<longrightarrow> de_draw E k n < n)"

text \<open>Every index of a branch of at most \<open>m\<close> subdomains is drawn within the patience.\<close>

definition drawsFair :: "('pid, 'ma) dnsEnv \<Rightarrow> nat \<Rightarrow> bool" where
  "drawsFair E m \<longleftrightarrow> (\<forall>k n i. i < n \<and> n \<le> m \<longrightarrow> (\<exists>j < de_patience E. de_draw E (k + j) n = i))"

lemma selectRandomPath_props:
  assumes "selectRandomPath E branches S = Some (r, S')"
  shows "ds_visits S' = ds_visits S" "cacheOk E domain S' = cacheOk E domain S"
    and "r = Inr nxt \<Longrightarrow> drawsInRange E \<Longrightarrow> nxt \<in> set branches \<and> nxt \<notin> set (ds_visits S)"
proof -
  show "ds_visits S' = ds_visits S" "cacheOk E domain S' = cacheOk E domain S"
    using assms by (auto simp: selectRandomPath_def Let_def split: if_splits)
  assume r: "r = Inr nxt" and range: "drawsInRange E"
  have some: "branches \<noteq> []" using assms r by (auto simp: selectRandomPath_def Let_def)
  obtain i k where loop: "drawLoop (de_patience E) (de_draw E) (length branches)
      (\<lambda>i. i < length branches \<and> branches ! i \<in> set (ds_visits S)) (ds_draws S) = Some (i, k)"
    and nxt: "nxt = branches ! i"
    using assms r by (auto simp: selectRandomPath_def Let_def split: if_splits)
  have "i < length branches" using drawLoop_props [OF loop] range some by (auto simp: drawsInRange_def)
  then show "nxt \<in> set branches \<and> nxt \<notin> set (ds_visits S)" using drawLoop_props [OF loop] nxt by auto
qed

lemma selectRandomPath_returns:
  assumes "drawsFair E m" and "length branches \<le> m"
  shows "selectRandomPath E branches S \<noteq> None"
proof (cases "\<forall>b \<in> set branches. b \<in> set (ds_visits S)")
  case True
  then have "filter (\<lambda>idx. branches ! idx \<in> set (ds_visits S)) [0..<length branches] = [0..<length branches]"
    by (intro filter_True) auto
  then show ?thesis by (simp add: selectRandomPath_def)
next
  case False
  then obtain i where i: "i < length branches" "branches ! i \<notin> set (ds_visits S)" by (metis in_set_conv_nth)
  obtain j where "j < de_patience E" "de_draw E (ds_draws S + j) (length branches) = i"
    using assms i(1) unfolding drawsFair_def by blast
  then have "drawLoop (de_patience E) (de_draw E) (length branches)
      (\<lambda>i. i < length branches \<and> branches ! i \<in> set (ds_visits S)) (ds_draws S) \<noteq> None"
    using i by (intro drawLoop_returns) auto
  then show ?thesis by (auto simp: selectRandomPath_def Let_def)
qed

lemma caught_iff:
  "caught r = None \<longleftrightarrow> r = None"
  "caught r = Some (Inr (Some e), S) \<longleftrightarrow> r = Some (Inr (Some e), S)"
  "caught r = Some (x, S) \<Longrightarrow> \<exists>y. r = Some (y, S)"
  by (cases r; cases "fst (the r)"; auto simp: caught_def)+

text \<open>One call of \<open>_search\<close>: an outcome of its own, or the call for the next subdomain.\<close>

datatype ('pid) searchStep = Done "'pid enr option res" dnsState | Goto string dnsState | Hang

definition searchStep :: "('pid, 'ma) dnsEnv \<Rightarrow> string \<Rightarrow> string \<Rightarrow> string \<Rightarrow> dnsState \<Rightarrow> 'pid searchStep" where
  "searchStep E publicKey domain subdomain S =
     (case getTXTRecord E domain subdomain S of
        (Inl _, S1) \<Rightarrow> Done (Inr None) S1
      | (Inr entry, S1) \<Rightarrow>
          (let S2 = S1\<lparr>ds_visits := List.insert subdomain (ds_visits S1)\<rparr>; entryType = getEntryType entry
           in if entryType = ROOT_PREFIX then
                (case parseAndVerifyRoot (de_lib E) (de_base32 E) entry publicKey of Inl _ \<Rightarrow> Done (Inr None) S2 | Inr nxt \<Rightarrow> Goto nxt S2)
              else if entryType = BRANCH_PREFIX then
                (case parseBranch entry of
                   Inl _ \<Rightarrow> Done (Inr None) S2
                 | Inr branches \<Rightarrow>
                     (case selectRandomPath E branches S2 of
                        None \<Rightarrow> Hang
                      | Some (Inl _, S3) \<Rightarrow> Done (Inr None) S3
                      | Some (Inr nxt, S3) \<Rightarrow> Goto nxt S3))
              else if entryType = RECORD_PREFIX then Done (searchRecord (de_lib E) entry) S2
              else Done (Inr None) S2))"

lemma dns_search_step:
  "dns_search (Suc fuel) E publicKey domain subdomain S =
     (case searchStep E publicKey domain subdomain S of
        Done r S' \<Rightarrow> Some (r, S')
      | Goto nxt S' \<Rightarrow> caught (dns_search fuel E publicKey domain nxt S')
      | Hang \<Rightarrow> None)"
  by (auto simp: searchStep_def Let_def split: sum.splits option.splits prod.splits)

declare dns_search.simps(2) [simp del]

lemma searchStep_done:
  assumes "searchStep E publicKey domain x S = Done r S'" and "cacheOk E domain S"
  shows "cacheOk E domain S'" "set (ds_visits S) \<subseteq> set (ds_visits S')" "r = Inr (Some e) \<Longrightarrow> x \<in> set (ds_visits S')"
proof -
  obtain res S1 where get: "getTXTRecord E domain x S = (res, S1)" by (metis surj_pair)
  define S2 where "S2 = S1\<lparr>ds_visits := List.insert x (ds_visits S1)\<rparr>"
  have S2: "cacheOk E domain S2" "set (ds_visits S2) = insert x (set (ds_visits S))"
    using getTXTRecord_props [OF get assms(2)] by (auto simp: S2_def)
  consider (failed) "r = Inr None" "S' = S1" | (here) "S' = S2"
    | (circular) ps e where "r = Inr None" "selectRandomPath E ps S2 = Some (Inl e, S')"
    using assms(1) get by (auto simp: searchStep_def Let_def S2_def split: sum.splits option.splits if_splits)
  then show "cacheOk E domain S'" "set (ds_visits S) \<subseteq> set (ds_visits S')" "r = Inr (Some e) \<Longrightarrow> x \<in> set (ds_visits S')"
    using S2 getTXTRecord_props [OF get assms(2)] by (cases; use selectRandomPath_props(1,2) in fastforce)+
qed

lemma searchStep_goto:
  assumes "searchStep E publicKey domain x S = Goto nxt S'" and "cacheOk E domain S"
  shows "cacheOk E domain S'" "set (ds_visits S') = insert x (set (ds_visits S))"
    "\<exists>entry. possible E domain x entry \<and>
       (getEntryType entry = ROOT_PREFIX \<and> parseAndVerifyRoot (de_lib E) (de_base32 E) entry publicKey = Inr nxt \<or>
        (\<exists>ps. getEntryType entry = BRANCH_PREFIX \<and> parseBranch entry = Inr ps \<and>
              (drawsInRange E \<longrightarrow> nxt \<in> set ps \<and> nxt \<noteq> x \<and> nxt \<notin> set (ds_visits S))))"
proof -
  obtain entry S1 where get: "getTXTRecord E domain x S = (Inr entry, S1)"
    using assms(1) by (auto simp: searchStep_def split: sum.splits prod.splits)
  note g = getTXTRecord_props [OF get assms(2)]
  define S2 where "S2 = S1\<lparr>ds_visits := List.insert x (ds_visits S1)\<rparr>"
  have S2: "cacheOk E domain S2" "set (ds_visits S2) = insert x (set (ds_visits S))" using g by (auto simp: S2_def)
  consider (root) "getEntryType entry = ROOT_PREFIX" "parseAndVerifyRoot (de_lib E) (de_base32 E) entry publicKey = Inr nxt" "S' = S2"
    | (branch) ps where "getEntryType entry = BRANCH_PREFIX" "parseBranch entry = Inr ps" "selectRandomPath E ps S2 = Some (Inr nxt, S')"
    using assms(1) get by (auto simp: searchStep_def Let_def S2_def split: sum.splits option.splits if_splits)
  then show "cacheOk E domain S'" "set (ds_visits S') = insert x (set (ds_visits S))"
    "\<exists>entry. possible E domain x entry \<and>
       (getEntryType entry = ROOT_PREFIX \<and> parseAndVerifyRoot (de_lib E) (de_base32 E) entry publicKey = Inr nxt \<or>
        (\<exists>ps. getEntryType entry = BRANCH_PREFIX \<and> parseBranch entry = Inr ps \<and>
              (drawsInRange E \<longrightarrow> nxt \<in> set ps \<and> nxt \<noteq> x \<and> nxt \<notin> set (ds_visits S))))"
    using S2 g(3) by (cases; use selectRandomPath_props in fastforce)+
qed

lemma dns_search_keeps:
  "dns_search fuel E publicKey domain x S = Some (r, S') \<Longrightarrow> cacheOk E domain S \<Longrightarrow>
     cacheOk E domain S' \<and> set (ds_visits S) \<subseteq> set (ds_visits S') \<and> (\<forall>e. r = Inr (Some e) \<longrightarrow> x \<in> set (ds_visits S'))"
proof (induction fuel arbitrary: x S r)
  case (Suc fuel)
  show ?case
  proof (cases "searchStep E publicKey domain x S")
    case (Done r1 S1)
    then show ?thesis using Suc.prems searchStep_done [OF Done Suc.prems(2)] by (auto simp: dns_search_step)
  next
    case (Goto nxt S1)
    obtain y where "dns_search fuel E publicKey domain nxt S1 = Some (y, S')"
      using Suc.prems(1) Goto caught_iff(3) by (fastforce simp: dns_search_step)
    then show ?thesis using Suc.IH searchStep_goto [OF Goto Suc.prems(2)] by fastforce
  qed (use Suc.prems in \<open>simp add: dns_search_step\<close>)
qed simp

section \<open>How many nodes a tree gives\<close>

text \<open>A tree whose root leads to the branch \<open>bs\<close>, whenever these records can be read.\<close>

definition branchTree :: "('pid, 'ma) dnsEnv \<Rightarrow> string \<Rightarrow> string \<Rightarrow> string \<Rightarrow> string list \<Rightarrow> bool" where
  "branchTree E publicKey domain tip bs \<longleftrightarrow> drawsInRange E \<and>
     (\<forall>r. possible E domain domain r \<longrightarrow>
        getEntryType r = ROOT_PREFIX \<and> parseAndVerifyRoot (de_lib E) (de_base32 E) r publicKey = Inr tip) \<and>
     (\<forall>r. possible E domain tip r \<longrightarrow> getEntryType r = BRANCH_PREFIX \<and> parseBranch r = Inr bs)"

lemma prefixes_differ [simp]: "ROOT_PREFIX \<noteq> BRANCH_PREFIX" "BRANCH_PREFIX \<noteq> ROOT_PREFIX"
  by (simp_all add: ROOT_PREFIX_def BRANCH_PREFIX_def)

lemma searchStep_not_done_some:
  assumes "searchStep E publicKey domain x S = Done (Inr (Some e)) S'" and "cacheOk E domain S"
  shows "\<exists>entry. possible E domain x entry \<and> getEntryType entry \<noteq> ROOT_PREFIX \<and> getEntryType entry \<noteq> BRANCH_PREFIX"
  using assms
  by (auto simp: searchStep_def Let_def split: sum.splits option.splits prod.splits if_splits dest: getTXTRecord_props(3))

lemma search_uses_branch:
  assumes tree: "branchTree E publicKey domain tip bs" and cache: "cacheOk E domain S"
    and run: "dns_search fuel E publicKey domain domain S = Some (Inr (Some e), S')"
  shows "\<exists>b \<in> set bs. b \<notin> set (ds_visits S) \<and> b \<in> set (ds_visits S')"
proof -
  obtain n where fuel: "fuel = Suc n" using run by (cases fuel) auto
  have goto: "\<exists>nxt S1. searchStep E publicKey domain x S = Goto nxt S1 \<and> dns_search m E publicKey domain nxt S1 = Some (Inr (Some e), S')"
    if "dns_search (Suc m) E publicKey domain x S = Some (Inr (Some e), S')" "cacheOk E domain S" "x = domain \<or> x = tip" for m x S
  proof (cases "searchStep E publicKey domain x S")
    case (Done r S1)
    then have "r = Inr (Some e)" using that(1) by (simp add: dns_search_step)
    then show ?thesis using searchStep_not_done_some [of E publicKey domain x S e S1] Done that(2,3) tree by (auto simp: branchTree_def)
  qed (use that(1) in \<open>auto simp: dns_search_step caught_iff\<close>)
  obtain tip' S1 where step1: "searchStep E publicKey domain domain S = Goto tip' S1"
    and run1: "dns_search n E publicKey domain tip' S1 = Some (Inr (Some e), S')"
    using goto [of n domain S] run cache unfolding fuel by blast
  note one = searchStep_goto [OF step1 cache]
  have tip: "tip' = tip" using one(3) tree by (auto simp: branchTree_def)
  obtain k where n: "n = Suc k" using run1 by (cases n) auto
  obtain b S2 where step2: "searchStep E publicKey domain tip S1 = Goto b S2"
    and run2: "dns_search k E publicKey domain b S2 = Some (Inr (Some e), S')"
    using goto [of k tip S1] run1 one(1) unfolding tip n by blast
  note two = searchStep_goto [OF step2 one(1)]
  have "b \<in> set bs" "b \<notin> set (ds_visits S1)" using two(3) tree by (auto simp: branchTree_def)
  moreover have "b \<in> set (ds_visits S')" using dns_search_keeps [OF run2 two(1)] by blast
  ultimately show ?thesis using one(2) by auto
qed

definition sourceOk :: "('pid, 'ma) dnsEnv \<Rightarrow> string \<Rightarrow> string \<Rightarrow> string \<Rightarrow> string list \<Rightarrow> dnsState \<Rightarrow> bool" where
  "sourceOk E publicKey domain tip bs S \<longleftrightarrow> branchTree E publicKey domain tip bs \<and> cacheOk E domain S"

interpretation dnsSource: node_source
  "dns_search fuel E publicKey domain domain" "sourceOk E publicKey domain tip bs" "\<lambda>S. card (set bs - set (ds_visits S))"
  for fuel and E :: "('pid, 'ma) dnsEnv" and publicKey domain tip bs
proof
  fix S r S'
  assume ok: "sourceOk E publicKey domain tip bs S"
  note keeps = dns_search_keeps [of fuel E publicKey domain domain S _ S']
  show "dns_search fuel E publicKey domain domain S = Some (r, S') \<Longrightarrow> sourceOk E publicKey domain tip bs S'"
    using ok keeps by (auto simp: sourceOk_def)
  show "dns_search fuel E publicKey domain domain S = Some (Inr None, S') \<Longrightarrow>
      card (set bs - set (ds_visits S')) \<le> card (set bs - set (ds_visits S))"
    using ok keeps [of "Inr None"] by (intro card_mono) (auto simp: sourceOk_def)
  fix p
  assume run: "dns_search fuel E publicKey domain domain S = Some (Inr (Some p), S')"
  have "set bs - set (ds_visits S') \<subset> set bs - set (ds_visits S)"
    using search_uses_branch [OF _ _ run, of tip bs] ok keeps [OF run] by (auto simp: sourceOk_def)
  then show "card (set bs - set (ds_visits S')) < card (set bs - set (ds_visits S))" by (simp add: psubset_card_mono)
qed

lemma chooseTree_props:
  assumes "chooseTree E urls S = (Inr t, S1)"
  shows "\<exists>url \<in> set urls. parseTree url = Inr t" "ds_visits S1 = []" "ds_cache S1 = ds_cache S"
  using assms by (auto simp: chooseTree_def Let_def split: if_splits)

text \<open>C23: A search of a tree whose root leads to the branch \<open>bs\<close> gives at most one node for each subdomain of \<open>bs\<close>, however large
  the subtrees are and however many nodes are wanted: the visits are remembered over all the searches of a call of \<open>getPeers\<close>.\<close>

theorem one_node_per_branch:
  "parseTree url = Inr t \<Longrightarrow> branchTree E (etv_publicKey t) (etv_domain t) tip bs \<Longrightarrow> cacheOk E (etv_domain t) S \<Longrightarrow>
   getPeers_dns fuel E [url] wanted S = Some (Inr peers, S') \<Longrightarrow> length peers \<le> card (set bs)"
proof -
  assume url: "parseTree url = Inr t" and tree: "branchTree E (etv_publicKey t) (etv_domain t) tip bs"
    and cache: "cacheOk E (etv_domain t) S" and run: "getPeers_dns fuel E [url] wanted S = Some (Inr peers, S')"
  obtain t' S1 where choose: "chooseTree E [url] S = (Inr t', S1)" and
    fetch: "fetchNodesUntilCapabilitiesFulfilled (enrViewOf (de_lib E)) wanted dns_errorTolerance
      (dns_search fuel E (etv_publicKey t') (etv_domain t') (etv_domain t')) S1 = Some (Inr peers, S')"
    using run by (auto simp: getPeers_dns_def split: prod.splits sum.splits)
  have t': "t' = t" using chooseTree_props(1) [OF choose] url by auto
  have "sourceOk E (etv_publicKey t) (etv_domain t) tip bs S1"
    using tree cache chooseTree_props(3) [OF choose] by (simp add: sourceOk_def cacheOk_def)
  from dnsSource.fetch_bounded [OF fetch [unfolded t'] this] show ?thesis
    using chooseTree_props(2) [OF choose] by simp
qed

section \<open>Termination\<close>

text \<open>
  \<open>U\<close> has all subdomains that the branches name, and none of them is a root. Then a branch never leads back, as its visited
  subdomains are left out, and the search ends.
\<close>

definition closedTree :: "('pid, 'ma) dnsEnv \<Rightarrow> string \<Rightarrow> string \<Rightarrow> string list \<Rightarrow> bool" where
  "closedTree E publicKey domain U \<longleftrightarrow> drawsInRange E \<and> drawsFair E (length U) \<and>
     (\<forall>x r. possible E domain x r \<and> x \<in> set (domain # U) \<longrightarrow>
        (getEntryType r = ROOT_PREFIX \<longrightarrow> x \<notin> set U \<and> (\<forall>y. parseAndVerifyRoot (de_lib E) (de_base32 E) r publicKey = Inr y \<longrightarrow> y \<in> set U)) \<and>
        (getEntryType r = BRANCH_PREFIX \<longrightarrow>
           (\<forall>ps. parseBranch r = Inr ps \<longrightarrow> set ps \<subseteq> set U \<and> length ps \<le> length U)))"

lemma searchStep_not_hang:
  assumes "closedTree E publicKey domain U" and "cacheOk E domain S" and "x \<in> set (domain # U)"
  shows "searchStep E publicKey domain x S \<noteq> Hang"
proof
  assume "searchStep E publicKey domain x S = Hang"
  then obtain entry S1 ps where get: "getTXTRecord E domain x S = (Inr entry, S1)" and "getEntryType entry = BRANCH_PREFIX"
    and ps: "parseBranch entry = Inr ps" and hang: "selectRandomPath E ps (S1\<lparr>ds_visits := List.insert x (ds_visits S1)\<rparr>) = None"
    by (auto simp: searchStep_def Let_def split: sum.splits option.splits prod.splits if_splits)
  then have "length ps \<le> length U"
    using getTXTRecord_props(3) [OF get assms(2)] assms(1,3) unfolding closedTree_def by blast
  then show False using hang selectRandomPath_returns assms(1) unfolding closedTree_def by blast
qed

lemma closedTree_goto:
  assumes tree: "closedTree E publicKey domain U" and cache: "cacheOk E domain S" and x: "x \<in> set (domain # U)"
    and goto: "searchStep E publicKey domain x S = Goto y S1"
  shows "y \<in> set U" "x \<in> set U \<Longrightarrow> y \<noteq> x \<and> y \<notin> set (ds_visits S)"
proof -
  obtain entry where entry: "possible E domain x entry"
    and step: "getEntryType entry = ROOT_PREFIX \<and> parseAndVerifyRoot (de_lib E) (de_base32 E) entry publicKey = Inr y \<or>
        (\<exists>ps. getEntryType entry = BRANCH_PREFIX \<and> parseBranch entry = Inr ps \<and>
              (drawsInRange E \<longrightarrow> y \<in> set ps \<and> y \<noteq> x \<and> y \<notin> set (ds_visits S)))"
    using searchStep_goto(3) [OF goto cache] by blast
  have "drawsInRange E" using tree by (simp add: closedTree_def)
  moreover have "(getEntryType entry = ROOT_PREFIX \<longrightarrow>
         x \<notin> set U \<and> (\<forall>y. parseAndVerifyRoot (de_lib E) (de_base32 E) entry publicKey = Inr y \<longrightarrow> y \<in> set U)) \<and>
       (getEntryType entry = BRANCH_PREFIX \<longrightarrow> (\<forall>ps. parseBranch entry = Inr ps \<longrightarrow> set ps \<subseteq> set U \<and> length ps \<le> length U))"
    using tree entry x unfolding closedTree_def by blast
  ultimately show "y \<in> set U" "x \<in> set U \<Longrightarrow> y \<noteq> x \<and> y \<notin> set (ds_visits S)" using step by auto
qed

definition stepsLeft :: "string list \<Rightarrow> string \<Rightarrow> dnsState \<Rightarrow> nat" where
  "stepsLeft U x S = card (set U - set (ds_visits S)) + of_bool (x \<in> set (ds_visits S))"

lemma search_in_tree_returns:
  "closedTree E publicKey domain U \<Longrightarrow> cacheOk E domain S \<Longrightarrow> x \<in> set U \<Longrightarrow> stepsLeft U x S \<le> fuel \<Longrightarrow>
     dns_search fuel E publicKey domain x S \<noteq> None"
proof (induction fuel arbitrary: x S)
  case 0
  have "0 < stepsLeft U x S" using 0(3) by (auto simp: stepsLeft_def card_gt_0_iff)
  then show ?case using 0 by simp
next
  case (Suc fuel)
  show ?case
  proof (cases "searchStep E publicKey domain x S")
    case (Done r S1)
    then show ?thesis by (simp add: dns_search_step)
  next
    case Hang
    then show ?thesis using searchStep_not_hang [OF Suc.prems(1,2), of x] Suc.prems(3) by simp
  next
    case (Goto y S1)
    note goto = searchStep_goto [OF Goto Suc.prems(2)]
    have y: "y \<in> set U" "y \<noteq> x" "y \<notin> set (ds_visits S)"
      using closedTree_goto [OF Suc.prems(1,2) _ Goto] Suc.prems(3) by auto
    have "stepsLeft U y S1 \<le> fuel"
    proof (cases "x \<in> set (ds_visits S)")
      case True
      then show ?thesis using Suc.prems(4) y goto(2) by (simp add: stepsLeft_def insert_absorb)
    next
      case False
      have "set U - insert x (set (ds_visits S)) = (set U - set (ds_visits S)) - {x}" by blast
      then have "card (set U - insert x (set (ds_visits S))) = card (set U - set (ds_visits S)) - 1"
        using False Suc.prems(3) by simp
      then show ?thesis using Suc.prems(4) y goto(2) False by (simp add: stepsLeft_def)
    qed
    then have "dns_search fuel E publicKey domain y S1 \<noteq> None"
      using Suc.IH [OF Suc.prems(1) goto(1) y(1)] by blast
    then show ?thesis using Goto by (simp add: dns_search_step caught_iff)
  qed
qed

lemma search_returns:
  assumes tree: "closedTree E publicKey domain U" and cache: "cacheOk E domain S" and fuel: "length U + 2 \<le> fuel"
  shows "dns_search fuel E publicKey domain domain S \<noteq> None"
proof -
  obtain n where n: "fuel = Suc n" using fuel by (cases fuel) auto
  show ?thesis
  proof (cases "searchStep E publicKey domain domain S")
    case (Done r S1)
    then show ?thesis by (simp add: n dns_search_step)
  next
    case Hang
    then show ?thesis using searchStep_not_hang [OF tree cache, of domain] by simp
  next
    case (Goto y S1)
    note goto = searchStep_goto [OF Goto cache]
    have y: "y \<in> set U" using closedTree_goto(1) [OF tree cache _ Goto] by simp
    have "card (set U - set (ds_visits S1)) \<le> length U" by (meson Diff_subset List.finite_set card_length card_mono order_trans)
    then have "stepsLeft U y S1 \<le> n" using fuel by (simp add: stepsLeft_def n)
    then show ?thesis using search_in_tree_returns [OF tree goto(1) y] Goto by (simp add: n dns_search_step caught_iff)
  qed
qed

definition totalOk :: "nat \<Rightarrow> ('pid, 'ma) dnsEnv \<Rightarrow> string \<Rightarrow> string \<Rightarrow> string list \<Rightarrow> dnsState \<Rightarrow> bool" where
  "totalOk fuel E publicKey domain U S \<longleftrightarrow> closedTree E publicKey domain U \<and> cacheOk E domain S \<and> length U + 2 \<le> fuel"

interpretation dnsTotal: total_source "dns_search fuel E publicKey domain domain" "totalOk fuel E publicKey domain U"
  for fuel and E :: "('pid, 'ma) dnsEnv" and publicKey domain U
  by unfold_locales (auto simp: totalOk_def dest: dns_search_keeps search_returns)

text \<open>C35: \<open>getPeers\<close> returns, and so does each of its searches, within as many nested calls as the tree has subdomains and two more,
  when no subdomain holds a root record and the random draws reach every index of a branch in bounded time.\<close>

theorem getPeers_returns:
  "\<forall>url \<in> set urls. \<forall>t. parseTree url = Inr t \<longrightarrow> closedTree E (etv_publicKey t) (etv_domain t) U \<Longrightarrow>
   ds_cache S = [] \<Longrightarrow> length U + 2 \<le> fuel \<Longrightarrow> getPeers_dns fuel E urls wanted S \<noteq> None"
proof -
  assume trees: "\<forall>url \<in> set urls. \<forall>t. parseTree url = Inr t \<longrightarrow> closedTree E (etv_publicKey t) (etv_domain t) U"
    and cache: "ds_cache S = []" and fuel: "length U + 2 \<le> fuel"
  obtain r S1 where choose: "chooseTree E urls S = (r, S1)" by (metis surj_pair)
  show ?thesis
  proof (cases r)
    case (Inl e)
    then show ?thesis using choose by (simp add: getPeers_dns_def)
  next
    case (Inr t)
    note c = chooseTree_props [OF choose [unfolded Inr]]
    have "totalOk fuel E (etv_publicKey t) (etv_domain t) U S1"
      using trees c(1,3) cache fuel by (auto simp: totalOk_def cacheOk_def)
    from dnsTotal.fetch_returns [OF this] show ?thesis using choose Inr by (simp add: getPeers_dns_def)
  qed
qed

text \<open>
  A root is followed without a look at the visits. When the record of a subdomain is the root that leads to it, as when an answer
  repeats the signed root there, the search does not return.
\<close>

theorem root_cycle_never_returns:
  "jm_get (ds_cache S) x = Some r \<Longrightarrow> getEntryType r = ROOT_PREFIX \<Longrightarrow>
   parseAndVerifyRoot (de_lib E) (de_base32 E) r publicKey = Inr x \<Longrightarrow> dns_search fuel E publicKey domain x S = None"
  by (induction fuel arbitrary: S) (simp_all add: dns_search_step searchStep_def getTXTRecord_def caught_iff)

text \<open>A record is taken as it comes: no hash of it is compared with the subdomain that names it, only the root is signed.\<close>

theorem record_not_checked_against_name:
  "jm_get (ds_cache S) x = Some r \<Longrightarrow> getEntryType r = RECORD_PREFIX \<Longrightarrow>
   \<exists>S'. dns_search (Suc fuel) E publicKey domain x S = Some (searchRecord (de_lib E) r, S')"
  by (simp add: dns_search_step searchStep_def getTXTRecord_def ROOT_PREFIX_def BRANCH_PREFIX_def RECORD_PREFIX_def)

section \<open>A small tree for the witnesses\<close>

text \<open>A root, a branch of two subdomains, and one node record; the last subdomain does not resolve.\<close>

lemma record_prefix_differs [simp]: "RECORD_PREFIX \<noteq> ROOT_PREFIX" "RECORD_PREFIX \<noteq> BRANCH_PREFIX"
  by (simp_all add: ROOT_PREFIX_def BRANCH_PREFIX_def RECORD_PREFIX_def)

lemma searchRecord_demo: "searchRecord demoDnsLib demoRecord = Inr (Some demoPeer)"
  proof -
  have "rbind (base64Dec demoDnsLib (drop 4 demoRecord)) (rlpDecode demoDnsLib) = Inr demoValues"
    by (simp add: demoRecord_def demoDnsLib_simps)
  then show ?thesis by (simp add: searchRecord_def demoRecord_string)
qed

lemma demoPeer_view: "enr_nodeId demoDnsLib demoPeer = Inr (Some (replicate 32 (char_of (0 :: nat))))" "get_waku2 demoPeer = Some storeNode" "get_ip demoDnsLib demoPeer = Inr None"
proof -
  show "get_ip demoDnsLib demoPeer = Inr None"
    by (simp add: get_ip_def getStringValue_def enr_get_def demoPeer_def jm_get_def)
  show "get_waku2 demoPeer = Some storeNode"
    by (simp add: get_waku2_def enr_get_def demoPeer_def jm_get_def decodeWaku2_def storeNode_def js_rem_def)
  have same: "demoPeer\<lparr>enr_peerId := Some ''peer''\<rparr> = demoPeer" by (simp add: demoPeer_def)
  have "v4_nodeId demoDnsLib (demoUtf8 ''K'') = Inr (replicate 32 (char_of (0 :: nat)))"
    by (simp add: v4_nodeId_def demoDnsLib_simps demoSha_def demoUtf8_def js_slice_from_def slice_pos_def numeral_eq_Suc)
  then show "enr_nodeId demoDnsLib demoPeer = Inr (Some (replicate 32 (char_of (0 :: nat))))"
    using demoPeer_gets [of "Some ''peer''"] by (simp add: enr_nodeId_def same)
qed

definition demoDnsEnv :: "(string, string) dnsEnv" where
  "demoDnsEnv =
     \<lparr>de_lib = demoDnsLib, de_base32 = demoBase32,
      de_resolveTXT = (\<lambda>_ location.
         if location = ''d'' then Inr [demoRoot]
         else if location = ''B.d'' then Inr [''enrtree-branch:x'', '',y'']
         else if location = ''x.d'' then Inr [demoRecord]
         else Inl (Error ''NXDOMAIN'')),
      de_draw = (\<lambda>k n. k mod n), de_patience = 3\<rparr>"

lemma demo_env: "de_lib demoDnsEnv = demoDnsLib" "de_base32 demoDnsEnv = demoBase32" "de_draw demoDnsEnv = (\<lambda>k n. k mod n)"
  "de_patience demoDnsEnv = 3"
  by (simp_all add: demoDnsEnv_def)

lemma demo_responses:
  "txtOfResponse (de_resolveTXT demoDnsEnv k (txtLocation ''d'' ''d'')) = Inr demoRoot"
  "txtOfResponse (de_resolveTXT demoDnsEnv k (txtLocation ''d'' ''B'')) = Inr (BRANCH_PREFIX @ js_join '','' [''x'', ''y''])"
  "txtOfResponse (de_resolveTXT demoDnsEnv k (txtLocation ''d'' ''x'')) = Inr demoRecord"
  "\<exists>e. txtOfResponse (de_resolveTXT demoDnsEnv k (txtLocation ''d'' ''y'')) = Inl e"
  by (simp_all add: demoDnsEnv_def txtLocation_def txtOfResponse_def demoRoot_def BRANCH_PREFIX_def demoRecord_def)

lemma demo_possible:
  "possible demoDnsEnv ''d'' ''d'' r \<longleftrightarrow> r = demoRoot"
  "possible demoDnsEnv ''d'' ''B'' r \<longleftrightarrow> r = BRANCH_PREFIX @ js_join '','' [''x'', ''y'']"
  "possible demoDnsEnv ''d'' ''x'' r \<longleftrightarrow> r = demoRecord"
  "\<not> possible demoDnsEnv ''d'' ''y'' r"
  by (auto simp: possible_def demo_responses simp del: js_join.simps) (metis demo_responses(4) sum.distinct(1))

lemma demo_types:
  "getEntryType demoRoot = ROOT_PREFIX" "getEntryType (BRANCH_PREFIX @ s) = BRANCH_PREFIX" "getEntryType demoRecord = RECORD_PREFIX"
  by (simp_all add: getEntryType_def demoRoot_def demoRecord_def ROOT_PREFIX_def BRANCH_PREFIX_def RECORD_PREFIX_def)

lemma demo_branch: "parseBranch (BRANCH_PREFIX @ js_join '','' [''x'', ''y'']) = Inr [''x'', ''y'']"
  by (rule parseBranch_join) (auto simp: BRANCH_PREFIX_def)

lemma mod_reach: "i < n \<Longrightarrow> \<exists>j < n. (k + j) mod n = i" for k n i :: nat
proof -
  assume i: "i < n"
  let ?j = "(n - k mod n + i) mod n"
  have "k mod n < n" using i by simp
  then have "k + (n - k mod n + i) = k div n * n + n + i" using div_mult_mod_eq [of k n] by linarith
  then have "k + (n - k mod n + i) = i + (k div n + 1) * n" by simp
  then have "(k + (n - k mod n + i)) mod n = i" using i by (metis mod_mult_self1 mod_less mult.commute)
  then have "(k + ?j) mod n = i" by (simp add: mod_add_right_eq)
  then show ?thesis using i by (metis mod_less_divisor not_less_zero neq0_conv)
qed

lemma demo_draws: "drawsInRange demoDnsEnv" "drawsFair demoDnsEnv 3"
proof -
  show "drawsInRange demoDnsEnv" by (simp add: drawsInRange_def demoDnsEnv_def)
  show "drawsFair demoDnsEnv 3"
    unfolding drawsFair_def demoDnsEnv_def dnsEnv.simps using mod_reach by (meson less_le_trans)
qed

lemma demo_closed: "closedTree demoDnsEnv ''K'' ''d'' [''B'', ''x'', ''y'']"
  using demo_draws by (auto simp: closedTree_def demo_possible demo_types demo_branch demoRoot_parse demo_env numeral_3_eq_3 simp del: js_join.simps)

lemma demo_tree: "branchTree demoDnsEnv ''K'' ''d'' ''B'' [''x'', ''y'']"
  using demo_draws by (auto simp: branchTree_def demo_possible demo_types demo_branch demoRoot_parse demo_env simp del: js_join.simps)

lemma demo_url: "parseTree ''enrtree://K@d'' = Inr \<lparr>etv_publicKey = ''K'', etv_domain = ''d''\<rparr>"
  by (simp add: parseTree_iff matchTree_iff isLineTerminator_def)

theorem getPeers_returns_witness: "getPeers_dns 5 demoDnsEnv [''enrtree://K@d''] wantStore newDnsNodeDiscovery \<noteq> None"
proof (rule getPeers_returns)
  show "\<forall>url \<in> set [''enrtree://K@d'']. \<forall>t. parseTree url = Inr t \<longrightarrow>
      closedTree demoDnsEnv (etv_publicKey t) (etv_domain t) [''B'', ''x'', ''y'']"
    using demo_url demo_closed by auto
qed (simp_all add: newDnsNodeDiscovery_def)

lemma demo_search:
  "\<exists>S'. dns_search 5 demoDnsEnv ''K'' ''d'' ''d'' (newDnsNodeDiscovery\<lparr>ds_draws := 2\<rparr>) = Some (Inr (Some demoPeer), S')"
proof -
  have "selectRandomPath demoDnsEnv [''x'', ''y''] S = Some (Inr ''x'', S\<lparr>ds_draws := 3\<rparr>)"
    if "ds_visits S = [''B'', ''d'']" "ds_draws S = 2" for S
    using that by (simp add: selectRandomPath_def demo_env eval_nat_numeral)
  then show ?thesis
    by (simp add: eval_nat_numeral(3) numeral_eq_Suc dns_search_step searchStep_def getTXTRecord_def newDnsNodeDiscovery_def jm_get_def jm_set_def demo_responses
      demo_types demo_env demoRoot_parse demo_branch caught_def List.insert_def searchRecord_demo del: js_join.simps)
qed

definition wantOneStore :: partialCapCount where
  "wantOneStore = \<lparr>pc_relay = None, pc_store = Some 1, pc_filter = None, pc_lightPush = None\<rparr>"

theorem one_node_per_branch_witness:
  "\<exists>peers S'. getPeers_dns 5 demoDnsEnv [''enrtree://K@d''] wantOneStore (newDnsNodeDiscovery\<lparr>ds_draws := 1\<rparr>) = Some (Inr peers, S') \<and>
     peers \<noteq> [] \<and> length peers \<le> card (set [''x'', ''y''])"
proof -
  let ?S = "newDnsNodeDiscovery\<lparr>ds_draws := 1\<rparr>"
  obtain S' where search: "dns_search 5 demoDnsEnv ''K'' ''d'' ''d'' (newDnsNodeDiscovery\<lparr>ds_draws := 2\<rparr>) = Some (Inr (Some demoPeer), S')"
    using demo_search by blast
  have wanted: "wantedOf wantOneStore = noCapabilities\<lparr>cc_store := 1\<rparr>" by (simp add: wantedOf_def wantOneStore_def noCapabilities_def)
  have choose: "chooseTree demoDnsEnv [''enrtree://K@d''] ?S =
      (Inr \<lparr>etv_publicKey = ''K'', etv_domain = ''d''\<rparr>, newDnsNodeDiscovery\<lparr>ds_draws := 2\<rparr>)"
    using demo_url by (simp add: chooseTree_def demo_env newDnsNodeDiscovery_def)
  have kept: "fetchStep (enrViewOf demoDnsLib) (wantedOf wantOneStore) (Some demoPeer) (noCapabilities, []) = Inr (noCapabilities\<lparr>cc_store := 1\<rparr>, [demoPeer])"
    unfolding wanted
    by (simp add: fetchStep_def isNewPeer_def considerPeer_def enrViewOf_def demoPeer_view helpsSatisfyCapabilities_def missingCapabilities_def
        isSatisfied_def noCapabilities_def storeNode_def addCapabilities_def)
  have "fetchLoop (enrViewOf demoDnsLib) (dns_search 5 demoDnsEnv ''K'' ''d'' ''d'') (wantedOf wantOneStore) 11 0 (noCapabilities, [])
      (newDnsNodeDiscovery\<lparr>ds_draws := 2\<rparr>) = Some (Inr (noCapabilities\<lparr>cc_store := 1\<rparr>, [demoPeer]), S')"
    using kept search by (subst fetchLoop_go) (simp_all add: wanted isSatisfied_def noCapabilities_def loops_stop)
  then have run: "getPeers_dns 5 demoDnsEnv [''enrtree://K@d''] wantOneStore ?S = Some (Inr [demoPeer], S')"
    using choose
    by (simp add: getPeers_dns_def fetchNodesUntilCapabilitiesFulfilled_def dns_errorTolerance_def demo_env maxSearches_def wanted noCapabilities_def)
  have "length [demoPeer] \<le> card (set [''x'', ''y''])"
    by (rule one_node_per_branch [OF demo_url _ _ run]) (use demo_tree in \<open>simp_all add: cacheOk_def newDnsNodeDiscovery_def\<close>)
  then show ?thesis using run by blast
qed

end
