(* ===== verification/PeerStore.thy ===== *)
theory PeerStore
  imports JsMap JsBytes
begin

text \<open>
  The peer store of libp2p, which the discovery services write: a package outside the repository. The record \<open>peerStore\<close> holds its
  operations on a state of any type and \<open>peerStoreLaws\<close> what its interface documents; a locale proves what the services need from
  these laws, and a map of peers shows that they can hold.
\<close>

record tagOptions =
  to_value :: int
  to_ttl :: int

record peerData =
  pd_tags :: "(string, tagOptions) jsmap"
  pd_metadata :: "(string, bytes) jsmap"
  pd_multiaddrs :: "string list"

text \<open>The argument of \<open>save\<close>, \<open>merge\<close> and \<open>patch\<close>: absent fields are \<open>None\<close>.\<close>

record peerUpdate =
  pu_tags :: "(string, tagOptions) jsmap option"
  pu_metadata :: "(string, bytes) jsmap option"
  pu_multiaddrs :: "string list option"

definition noUpdate :: peerUpdate where
  "noUpdate = \<lparr>pu_tags = None, pu_metadata = None, pu_multiaddrs = None\<rparr>"

record 'st peerStore =
  ps_get :: "'st \<Rightarrow> string \<Rightarrow> peerData option"
  ps_has :: "'st \<Rightarrow> string \<Rightarrow> bool"
  ps_save :: "string \<Rightarrow> peerUpdate \<Rightarrow> 'st \<Rightarrow> 'st"
  ps_merge :: "string \<Rightarrow> peerUpdate \<Rightarrow> 'st \<Rightarrow> 'st"
  ps_patch :: "string \<Rightarrow> peerUpdate \<Rightarrow> 'st \<Rightarrow> 'st"

text \<open>\<open>put\<close> overwrites the fields it is given, \<open>merge\<close> adds to the tags and the metadata.\<close>

definition mergeMap :: "(string, 'v) jsmap \<Rightarrow> (string, 'v) jsmap option \<Rightarrow> string \<Rightarrow> 'v option" where
  "mergeMap old new k = (case jm_get (nullish new []) k of None \<Rightarrow> jm_get old k | Some v \<Rightarrow> Some v)"

locale peer_store =
  fixes P :: "'st peerStore"
  assumes has_get: "ps_has P s p \<longleftrightarrow> ps_get P s p \<noteq> None"
    and save_tags: "\<exists>d. ps_get P (ps_save P p u s) p = Some d \<and> pd_tags d = nullish (pu_tags u) [] \<and>
                        (\<forall>m. pu_metadata u = Some m \<longrightarrow> pd_metadata d = m) \<and> (\<forall>a. pu_multiaddrs u = Some a \<longrightarrow> pd_multiaddrs d = a)"
    and save_other: "q \<noteq> p \<Longrightarrow> ps_get P (ps_save P p u s) q = ps_get P s q"
    and merge_get: "ps_get P s p = Some d \<Longrightarrow> \<exists>d'. ps_get P (ps_merge P p u s) p = Some d' \<and>
                      (\<forall>k. jm_get (pd_tags d') k = mergeMap (pd_tags d) (pu_tags u) k) \<and>
                      (\<forall>k. jm_get (pd_metadata d') k = mergeMap (pd_metadata d) (pu_metadata u) k)"
    and merge_other: "q \<noteq> p \<Longrightarrow> ps_get P (ps_merge P p u s) q = ps_get P s q"
    and patch_get: "ps_get P s p = Some d \<Longrightarrow> \<exists>d'. ps_get P (ps_patch P p u s) p = Some d' \<and> pd_tags d' = nullish (pu_tags u) (pd_tags d) \<and>
                      pd_metadata d' = nullish (pu_metadata u) (pd_metadata d) \<and> pd_multiaddrs d' = nullish (pu_multiaddrs u) (pd_multiaddrs d)"
    and patch_other: "q \<noteq> p \<Longrightarrow> ps_get P (ps_patch P p u s) q = ps_get P s q"
begin

definition hasTag :: "string \<Rightarrow> 'st \<Rightarrow> string \<Rightarrow> bool" where
  "hasTag t s p \<longleftrightarrow> (\<exists>d. ps_get P s p = Some d \<and> jm_has (pd_tags d) t)"

lemma hasTag_save: "hasTag t (ps_save P p u s) q \<longleftrightarrow> (if q = p then jm_has (nullish (pu_tags u) []) t else hasTag t s q)"
proof (cases "q = p")
  case True
  then show ?thesis using save_tags [of p u s] by (auto simp: hasTag_def)
qed (simp add: hasTag_def save_other)

lemma hasTag_merge:
  "ps_has P s p \<Longrightarrow> hasTag t (ps_merge P p u s) q \<longleftrightarrow> (if q = p then hasTag t s q \<or> jm_has (nullish (pu_tags u) []) t else hasTag t s q)"
proof (cases "q = p")
  case True
  assume "ps_has P s p"
  then obtain d where "ps_get P s p = Some d" by (auto simp: has_get)
  then show ?thesis using True merge_get [of s p d u]
    by (auto simp: hasTag_def jm_has_def mergeMap_def split: option.splits)
qed (simp add: hasTag_def merge_other)

lemma has_save: "ps_has P (ps_save P p u s) q \<longleftrightarrow> q = p \<or> ps_has P s q"
proof (cases "q = p")
  case True
  then show ?thesis using save_tags [of p u s] by (auto simp: has_get)
qed (simp add: has_get save_other)

lemma has_merge: "ps_has P s p \<Longrightarrow> ps_has P (ps_merge P p u s) q \<longleftrightarrow> ps_has P s q"
proof (cases "q = p")
  case True
  assume "ps_has P s p"
  then obtain d where "ps_get P s p = Some d" by (auto simp: has_get)
  then show ?thesis using True merge_get [of s p d u] by (auto simp: has_get)
qed (simp add: has_get merge_other)

lemma has_patch: "ps_has P s p \<Longrightarrow> ps_has P (ps_patch P p u s) q \<longleftrightarrow> ps_has P s q"
proof (cases "q = p")
  case True
  assume "ps_has P s p"
  then obtain d where "ps_get P s p = Some d" by (auto simp: has_get)
  then show ?thesis using True patch_get [of s p d u] by (auto simp: has_get)
qed (simp add: has_get patch_other)

end

section \<open>A map of peers\<close>

definition mapUpdate :: "('a \<Rightarrow> 'a \<Rightarrow> 'a) \<Rightarrow> 'a option \<Rightarrow> 'a \<Rightarrow> 'a" where
  "mapUpdate f new old = (case new of None \<Rightarrow> old | Some n \<Rightarrow> f n old)"

definition emptyPeer :: peerData where "emptyPeer = \<lparr>pd_tags = [], pd_metadata = [], pd_multiaddrs = []\<rparr>"

definition overwrite :: "peerUpdate \<Rightarrow> peerData \<Rightarrow> peerData" where
  "overwrite u d = \<lparr>pd_tags = nullish (pu_tags u) (pd_tags d), pd_metadata = nullish (pu_metadata u) (pd_metadata d),
                    pd_multiaddrs = nullish (pu_multiaddrs u) (pd_multiaddrs d)\<rparr>"

definition addMaps :: "peerUpdate \<Rightarrow> peerData \<Rightarrow> peerData" where
  "addMaps u d = \<lparr>pd_tags = nullish (pu_tags u) [] @ pd_tags d, pd_metadata = nullish (pu_metadata u) [] @ pd_metadata d,
                  pd_multiaddrs = nullish (pu_multiaddrs u) [] @ pd_multiaddrs d\<rparr>"

definition mapPeerStore :: "((string, peerData) jsmap) peerStore" where
  "mapPeerStore =
     \<lparr>ps_get = jm_get, ps_has = jm_has,
      ps_save = (\<lambda>p u. jm_set p (overwrite u emptyPeer)),
      ps_merge = (\<lambda>p u m. jm_set p (addMaps u (nullish (jm_get m p) emptyPeer)) m),
      ps_patch = (\<lambda>p u m. jm_set p (overwrite u (nullish (jm_get m p) emptyPeer)) m)\<rparr>"

lemma jm_get_append: "jm_get (xs @ ys) k = (case jm_get xs k of None \<Rightarrow> jm_get ys k | Some v \<Rightarrow> Some v)"
  by (simp add: jm_get_def map_add_def split: option.split)

interpretation mapStore: peer_store mapPeerStore
  by unfold_locales
    (auto simp: mapPeerStore_def jm_has_def overwrite_def addMaps_def emptyPeer_def mergeMap_def jm_get_append split: option.splits)

definition peerStoreLaws :: "'st peerStore \<Rightarrow> bool" where
  "peerStoreLaws P \<longleftrightarrow> peer_store P"

lemma mapPeerStore_laws: "peerStoreLaws mapPeerStore"
  unfolding peerStoreLaws_def by (rule mapStore.peer_store_axioms)

end
