(* ===== verification/DnsDiscovery.thy ===== *)
theory DnsDiscovery
  imports Dns PeerStore
begin

text \<open>
  \<open>packages/discovery/src/dns/dns\_discovery.ts\<close>: writing the peers of the DNS search to the peer store and announcing the new ones.
  The flag \<open>\_started\<close> may be cleared by \<open>stop\<close> between two peers, so each peer comes with the flag as it is then.
\<close>

section \<open>constants.ts\<close>

definition enrTree_SANDBOX :: string where
  "enrTree_SANDBOX = ''enrtree://AIRVQ5DDA4FFWLRBCHJWUWOO6X6S4ZTZ5B667LQ6AJU6PEYDLRD5O@sandbox.waku.nodes.status.im''"
definition enrTree_TEST :: string where
  "enrTree_TEST = ''enrtree://AOGYWMBYOUIMOENHXCHILPKY3ZRFEULMFI4DOM442QSZ73TT2A7VI@test.waku.nodes.status.im''"
definition DEFAULT_BOOTSTRAP_TAG_NAME :: string where "DEFAULT_BOOTSTRAP_TAG_NAME = ''bootstrap''"
definition DEFAULT_BOOTSTRAP_TAG_VALUE :: int where "DEFAULT_BOOTSTRAP_TAG_VALUE = 50"
definition DEFAULT_BOOTSTRAP_TAG_TTL :: int where "DEFAULT_BOOTSTRAP_TAG_TTL = 100000000"
definition DEFAULT_NODE_REQUIREMENTS :: partialCapCount where
  "DEFAULT_NODE_REQUIREMENTS = \<lparr>pc_relay = None, pc_store = Some 1, pc_filter = Some 2, pc_lightPush = Some 2\<rparr>"

section \<open>findPeers\<close>

record dnsDiscOptions =
  do_enrUrls :: "string list"
  do_wanted :: partialCapCount
  do_tagName :: "string option"
  do_tagValue :: "int option"
  do_tagTTL :: "int option"

definition tagsToUpdate :: "dnsDiscOptions \<Rightarrow> (string, tagOptions) jsmap" where
  "tagsToUpdate opts =
     [(DEFAULT_BOOTSTRAP_TAG_NAME,
       \<lparr>to_value = nullish (do_tagValue opts) DEFAULT_BOOTSTRAP_TAG_VALUE, to_ttl = nullish (do_tagTTL opts) DEFAULT_BOOTSTRAP_TAG_TTL\<rparr>)]"

text \<open>The metadata of a peer with shards; \<open>encodeRelayShard\<close> may throw.\<close>

definition shardMetadata :: "shardInfo option \<Rightarrow> (string, bytes) jsmap option res" where
  "shardMetadata si = (case si of None \<Rightarrow> Inr None | Some s \<Rightarrow> rbind (encodeRelayShard s) (\<lambda>b. Inr (Some [(''shardInfo'', b)])))"

definition foundPeer ::
  "'st peerStore \<Rightarrow> ('pid, 'ma) enrLib \<Rightarrow> dnsDiscOptions \<Rightarrow> 'pid enr \<Rightarrow> 'st \<times> (string \<times> 'ma list) list \<Rightarrow> ('st \<times> (string \<times> 'ma list) list) res" where
  "foundPeer P L opts peerEnr acc =
     (case acc of (store, events) \<Rightarrow>
        rbind (enr_peerInfo L peerEnr) (\<lambda>peerInfo.
        rbind (enr_shardInfo peerEnr) (\<lambda>shardInfo.
        case peerInfo of
          None \<Rightarrow> Inr (store, events)
        | Some (pid, multiaddrs) \<Rightarrow>
            (let id = peerIdStr L pid
             in if ps_has P store id
                then (case ps_get P store id of
                        None \<Rightarrow> Inl (Error ''not found'')
                      | Some peer \<Rightarrow>
                          if jm_has (pd_tags peer) DEFAULT_BOOTSTRAP_TAG_NAME then Inr (store, events)
                          else Inr (ps_merge P id (noUpdate\<lparr>pu_tags := Some (tagsToUpdate opts)\<rparr>) store, events @ [(id, multiaddrs)]))
                else rbind (shardMetadata shardInfo)
                       (\<lambda>md. Inr (ps_save P id (noUpdate\<lparr>pu_tags := Some (tagsToUpdate opts), pu_metadata := md\<rparr>) store,
                                  events @ [(id, multiaddrs)]))))))"

fun foundPeers ::
  "'st peerStore \<Rightarrow> ('pid, 'ma) enrLib \<Rightarrow> dnsDiscOptions \<Rightarrow> (bool \<times> 'pid enr) list \<Rightarrow> 'st \<times> (string \<times> 'ma list) list \<Rightarrow>
     ('st \<times> (string \<times> 'ma list) list) res" where
  "foundPeers P L opts [] acc = Inr acc"
| "foundPeers P L opts ((started, peerEnr) # rest) acc =
     (if \<not> started then Inr acc else rbind (foundPeer P L opts peerEnr acc) (foundPeers P L opts rest))"

text \<open>\<open>startedAt i\<close> is the flag when the \<open>i\<close>-th peer arrives. An exception of the generator ends the loop when it is reached.\<close>

definition findPeers ::
  "nat \<Rightarrow> 'st peerStore \<Rightarrow> ('pid, 'ma) dnsEnv \<Rightarrow> dnsDiscOptions \<Rightarrow> (nat \<Rightarrow> bool) \<Rightarrow> dnsState \<Rightarrow> 'st \<Rightarrow>
     (('st \<times> (string \<times> 'ma list) list) res) option" where
  "findPeers fuel P E opts startedAt S store =
     map_option
       (\<lambda>(ps, r, S'). rbind (foundPeers P (de_lib E) opts (zip (map startedAt [0..<length ps]) ps) (store, []))
          (\<lambda>acc. if list_all startedAt [0..<length ps] then rbind r (\<lambda>_. Inr acc) else Inr acc))
       (getNextPeer fuel E (do_enrUrls opts) (do_wanted opts) S)"

section \<open>Properties\<close>

definition idsOf :: "('pid, 'ma) enrLib \<Rightarrow> (bool \<times> 'pid enr) list \<Rightarrow> string list" where
  "idsOf L peers = map (peerIdStr L) (List.map_filter (enr_peerId \<circ> snd) (takeWhile fst peers))"

definition untagged :: "'st peerStore \<Rightarrow> 'st \<Rightarrow> string \<Rightarrow> bool" where
  "untagged P s p \<longleftrightarrow> \<not> (\<exists>d. ps_get P s p = Some d \<and> jm_has (pd_tags d) DEFAULT_BOOTSTRAP_TAG_NAME)"

lemma idsOf_simps [simp]:
  "idsOf L [] = []"
  "idsOf L ((b, e) # ps) = (if b then (case enr_peerId e of None \<Rightarrow> [] | Some p \<Rightarrow> [peerIdStr L p]) @ idsOf L ps else [])"
  by (simp_all add: idsOf_def map_filter_simps split: option.split)

lemma foundPeer_step:
  assumes laws: "peerStoreLaws P" and run: "foundPeer P L opts e (s, ev) = Inr (s', ev')"
  shows "case enr_peerId e of
           None \<Rightarrow> s' = s \<and> ev' = ev
         | Some p \<Rightarrow> (\<forall>q. untagged P s' q \<longleftrightarrow> untagged P s q \<and> q \<noteq> peerIdStr L p) \<and>
                     (\<forall>q. q \<noteq> peerIdStr L p \<longrightarrow> ps_get P s' q = ps_get P s q) \<and>
                     map fst ev' = map fst ev @ (if untagged P s (peerIdStr L p) then [peerIdStr L p] else [])"
proof (cases "enr_peerId e")
  case None
  then show ?thesis using run by (auto simp: foundPeer_def enr_peerInfo_def res_simps)
next
  case (Some p)
  have store: "peer_store P" using laws by (simp add: peerStoreLaws_def)
  have un: "untagged P s q \<longleftrightarrow> \<not> peer_store.hasTag P DEFAULT_BOOTSTRAP_TAG_NAME s q" for s q
    by (simp add: untagged_def peer_store.hasTag_def [OF store])
  define id where "id = peerIdStr L p"
  have new: "jm_has (tagsToUpdate opts) DEFAULT_BOOTSTRAP_TAG_NAME" by (simp add: jm_has_def jm_get_def tagsToUpdate_def)
  consider (tagged) "ps_has P s id" "\<not> untagged P s id" "s' = s" "ev' = ev"
    | (merged) mas where "ps_has P s id" "untagged P s id" "s' = ps_merge P id (noUpdate\<lparr>pu_tags := Some (tagsToUpdate opts)\<rparr>) s" "ev' = ev @ [(id, mas)]"
    | (saved) mas md where "\<not> ps_has P s id" "s' = ps_save P id (noUpdate\<lparr>pu_tags := Some (tagsToUpdate opts), pu_metadata := md\<rparr>) s" "ev' = ev @ [(id, mas)]"
  proof -
    obtain mas si where body: "(if ps_has P s id
        then (case ps_get P s id of None \<Rightarrow> Inl (Error ''not found'')
              | Some peer \<Rightarrow> if jm_has (pd_tags peer) DEFAULT_BOOTSTRAP_TAG_NAME then Inr (s, ev)
                  else Inr (ps_merge P id (noUpdate\<lparr>pu_tags := Some (tagsToUpdate opts)\<rparr>) s, ev @ [(id, mas)]))
        else rbind (shardMetadata si)
               (\<lambda>md. Inr (ps_save P id (noUpdate\<lparr>pu_tags := Some (tagsToUpdate opts), pu_metadata := md\<rparr>) s, ev @ [(id, mas)]))) = Inr (s', ev')"
      using run Some unfolding id_def by (auto simp: foundPeer_def enr_peerInfo_def rbind_eq_Inr [of "rbind _ _"] rbind_eq_Inr [of "getAllLocationMultiaddrs _ _"]
          rbind_eq_Inr [of "enr_shardInfo _"] Let_def)
    show thesis
    proof (cases "ps_has P s id")
      case True
      then obtain d where d: "ps_get P s id = Some d" using body by (auto split: option.splits)
      show thesis
      proof (cases "jm_has (pd_tags d) DEFAULT_BOOTSTRAP_TAG_NAME")
        case tag: True
        show thesis using True d tag body by (intro tagged) (simp_all add: untagged_def)
      next
        case False
        show thesis using True d False body by (intro merged [of mas]) (simp_all add: untagged_def)
      qed
    next
      case False
      then obtain md where "s' = ps_save P id (noUpdate\<lparr>pu_tags := Some (tagsToUpdate opts), pu_metadata := md\<rparr>) s" "ev' = ev @ [(id, mas)]"
        using body by (auto simp: rbind_eq_Inr)
      then show thesis using False by (intro saved)
    qed
  qed
  then show ?thesis
  proof cases
    case tagged
    then show ?thesis using Some by (auto simp: id_def)
  next
    case merged
    then show ?thesis using Some new
      by (auto simp: un id_def peer_store.hasTag_merge [OF store] peer_store.merge_other [OF store])
  next
    case saved
    have "untagged P s id" using saved(1) peer_store.has_get [OF store] by (simp add: untagged_def)
    then show ?thesis using saved Some new
      by (auto simp: un id_def peer_store.hasTag_save [OF store] peer_store.save_other [OF store])
  qed
qed

lemma foundPeers_run:
  "peerStoreLaws P \<Longrightarrow> foundPeers P L opts peers (s, ev) = Inr (s', ev') \<Longrightarrow>
     (\<forall>q. untagged P s' q \<longleftrightarrow> untagged P s q \<and> q \<notin> set (idsOf L peers)) \<and>
     (\<forall>q. q \<notin> set (idsOf L peers) \<longrightarrow> ps_get P s' q = ps_get P s q) \<and>
     map fst ev' = map fst ev @ filter (untagged P s) (uniq (idsOf L peers))"
proof (induction peers arbitrary: s ev)
  case (Cons pe peers)
  obtain b e where pe: "pe = (b, e)" by (cases pe)
  show ?case
  proof (cases b)
    case False
    then show ?thesis using Cons.prems by (simp add: pe)
  next
    case True
    obtain s1 ev1 where step: "foundPeer P L opts e (s, ev) = Inr (s1, ev1)" and rest: "foundPeers P L opts peers (s1, ev1) = Inr (s', ev')"
      using Cons.prems(2) True by (auto simp: pe rbind_eq_Inr)
    note one = foundPeer_step [OF Cons.prems(1) step] and IH = Cons.IH [OF Cons.prems(1) rest]
    show ?thesis
    proof (cases "enr_peerId e")
      case None
      then show ?thesis using one IH True by (simp add: pe)
    next
      case (Some p)
      have "untagged P s1 = (\<lambda>q. q \<noteq> peerIdStr L p \<and> untagged P s q)" using one Some by auto
      then show ?thesis using one IH True Some by (auto simp: pe filter_filter)
    qed
  qed
qed simp

definition demoOptions :: dnsDiscOptions where
  "demoOptions = \<lparr>do_enrUrls = [enrTree_TEST], do_wanted = DEFAULT_NODE_REQUIREMENTS, do_tagName = Some ''other'', do_tagValue = None, do_tagTTL = None\<rparr>"

definition demoFound :: "string enr" where
  "demoFound = \<lparr>enr_kvs = [], enr_seq = 1, enr_signature = None, enr_peerId = Some ''peer''\<rparr>"

text \<open>Discovery tags every peer it finds while it is started, announces exactly those that had no bootstrap tag, each once and in the
  order in which they were found, leaves all other peers of the store as they are, and announces nothing when the same peers are found again.\<close>

theorem discovery_announces_new_peers:
  "peerStoreLaws P \<Longrightarrow> foundPeers P L opts peers (s, []) = Inr (s', events) \<Longrightarrow> foundPeers P L opts peers (s', []) = Inr (s'', again) \<Longrightarrow>
     map fst events = filter (untagged P s) (uniq (idsOf L peers)) \<and>
     (\<forall>q. untagged P s' q \<longleftrightarrow> untagged P s q \<and> q \<notin> set (idsOf L peers)) \<and>
     (\<forall>q. ps_get P s' q = ps_get P s q \<or> q \<in> set (idsOf L peers)) \<and> again = []"
proof -
  assume laws: "peerStoreLaws P" and one: "foundPeers P L opts peers (s, []) = Inr (s', events)"
    and two: "foundPeers P L opts peers (s', []) = Inr (s'', again)"
  note r1 = foundPeers_run [OF laws one] and r2 = foundPeers_run [OF laws two]
  have "filter (untagged P s') (uniq (idsOf L peers)) = []" using r1 by (simp add: filter_empty_conv)
  then show ?thesis using r1 r2 by auto
qed

lemma demo_found:
  "foundPeers mapPeerStore demoEnrLib demoOptions [(True, demoFound), (True, demoFound)] ([], []) =
     Inr ([(''peer'', \<lparr>pd_tags = tagsToUpdate demoOptions, pd_metadata = [], pd_multiaddrs = []\<rparr>)], [(''peer'', [])])"
  "foundPeers mapPeerStore demoEnrLib demoOptions [(True, demoFound), (True, demoFound)]
     ([(''peer'', \<lparr>pd_tags = tagsToUpdate demoOptions, pd_metadata = [], pd_multiaddrs = []\<rparr>)], []) =
     Inr ([(''peer'', \<lparr>pd_tags = tagsToUpdate demoOptions, pd_metadata = [], pd_multiaddrs = []\<rparr>)], [])"
proof -
  have info: "enr_peerInfo demoEnrLib demoFound = Inr (Some (''peer'', []))" "enr_shardInfo demoFound = Inr None"
    by (simp_all add: enr_peerInfo_def getAllLocationMultiaddrs_def locationOfVersion_def get_multiaddrs_def enr_get_def demoFound_def jm_get_def
        enr_shardInfo_def enr_rs_def enr_rsv_def)
  have str: "peerIdStr demoEnrLib = id" by (simp add: demoEnrLib_def)
  have tag: "jm_has (tagsToUpdate demoOptions) DEFAULT_BOOTSTRAP_TAG_NAME" by (simp add: tagsToUpdate_def jm_has_def jm_get_def)
  note defs = foundPeer_def info str mapPeerStore_def shardMetadata_def jm_has_def [where m = "[]"] jm_has_def [where m = "_ # _"] jm_get_def jm_set_def
    overwrite_def noUpdate_def emptyPeer_def tag
  show "foundPeers mapPeerStore demoEnrLib demoOptions [(True, demoFound), (True, demoFound)] ([], []) =
     Inr ([(''peer'', \<lparr>pd_tags = tagsToUpdate demoOptions, pd_metadata = [], pd_multiaddrs = []\<rparr>)], [(''peer'', [])])"
    "foundPeers mapPeerStore demoEnrLib demoOptions [(True, demoFound), (True, demoFound)]
     ([(''peer'', \<lparr>pd_tags = tagsToUpdate demoOptions, pd_metadata = [], pd_multiaddrs = []\<rparr>)], []) =
     Inr ([(''peer'', \<lparr>pd_tags = tagsToUpdate demoOptions, pd_metadata = [], pd_multiaddrs = []\<rparr>)], [])"
    by (simp_all add: defs)
qed

theorem discovery_announces_new_peers_witness:
  "map fst [(''peer'', [] :: string list)] = filter (untagged mapPeerStore []) (uniq (idsOf demoEnrLib [(True, demoFound), (True, demoFound)]))"
  using discovery_announces_new_peers [OF mapPeerStore_laws demo_found] by blast

end
