(* ===== verification/LocalPeerCache.thy ===== *)
theory LocalPeerCache
  imports PeerStore UtilsCommon "HOL-Library.Countable"
begin

text \<open>
  \<open>packages/discovery/src/local-peer-cache\<close>: the peers kept in \<open>localStorage\<close> as a JSON array under one key. JSON text is a pair of
  functions, as are the parsers of peer ids and multiaddresses of libp2p; an entry keeps all the properties that the stored object has.
\<close>

section \<open>State\<close>

datatype json = JNull | JBool bool | JNum int | JStr string | JArr "json list" | JObj "(string \<times> json) list"

type_synonym storedObj = "(string, json) jsmap"

record ('ma, 'st) cacheEnv =
  ce_parse :: "string \<Rightarrow> json res"
  ce_stringify :: "json \<Rightarrow> string"
  ce_setItem :: "string \<Rightarrow> bool"
  ce_peerIdFromString :: "string \<Rightarrow> string res"
  ce_multiaddr :: "string \<Rightarrow> 'ma res"
  ce_showMa :: "'ma \<Rightarrow> string"
  ce_store :: "'st peerStore"
  ce_tagName :: "string option"
  ce_tagValue :: "int option"
  ce_tagTTL :: "int option"

record ('ma, 'st) localCache =
  lc_isStarted :: bool
  lc_listening :: bool
  lc_peers :: "storedObj list"
  lc_item :: "string option"
  lc_store :: 'st
  lc_events :: "(string \<times> 'ma) list"

definition DEFAULT_LOCAL_TAG_NAME :: string where "DEFAULT_LOCAL_TAG_NAME = ''local-peer-cache''"
definition DEFAULT_LOCAL_TAG_VALUE :: int where "DEFAULT_LOCAL_TAG_VALUE = 50"
definition DEFAULT_LOCAL_TAG_TTL :: int where "DEFAULT_LOCAL_TAG_TTL = 100000000"

definition stringProp :: "string \<Rightarrow> storedObj \<Rightarrow> string option" where
  "stringProp k obj = (case jm_get obj k of Some (JStr s) \<Rightarrow> Some s | _ \<Rightarrow> None)"

definition stored_id :: "storedObj \<Rightarrow> string" where "stored_id obj = nullish (stringProp ''id'' obj) []"
definition stored_address :: "storedObj \<Rightarrow> string" where "stored_address obj = nullish (stringProp ''address'' obj) []"

section \<open>Storage\<close>

fun isValidStoredPeer :: "json \<Rightarrow> storedObj option" where
  "isValidStoredPeer (JObj obj) = (if stringProp ''id'' obj \<noteq> None \<and> stringProp ''address'' obj \<noteq> None then Some obj else None)"
| "isValidStoredPeer _ = None"

text \<open>\<open>filter\<close> of anything but an array is not a function, which is caught.\<close>

definition getPeersFromLocalStorage :: "('ma, 'st) cacheEnv \<Rightarrow> string option \<Rightarrow> storedObj list" where
  "getPeersFromLocalStorage E item =
     (case item of
        None \<Rightarrow> []
      | Some storedPeersData \<Rightarrow>
          if storedPeersData = [] then []
          else (case ce_parse E storedPeersData of
                  Inr (JArr peers) \<Rightarrow> List.map_filter isValidStoredPeer peers
                | _ \<Rightarrow> []))"

text \<open>\<open>setItem\<close> may throw, which leaves the item as it is.\<close>

definition savePeersToLocalStorage :: "('ma, 'st) cacheEnv \<Rightarrow> ('ma, 'st) localCache \<Rightarrow> ('ma, 'st) localCache" where
  "savePeersToLocalStorage E C =
     (let text = ce_stringify E (JArr (map JObj (lc_peers C)))
      in if ce_setItem E text then C\<lparr>lc_item := Some text\<rparr> else C)"

definition newLocalCache :: "('ma, 'st) cacheEnv \<Rightarrow> string option \<Rightarrow> 'st \<Rightarrow> ('ma, 'st) localCache" where
  "newLocalCache E item store =
     \<lparr>lc_isStarted = False, lc_listening = False, lc_peers = getPeersFromLocalStorage E item, lc_item = item, lc_store = store, lc_events = []\<rparr>"

section \<open>Events\<close>

text \<open>The first object with the id gets the address, or an object is added.\<close>

fun setAddress :: "string \<Rightarrow> string \<Rightarrow> storedObj list \<Rightarrow> storedObj list" where
  "setAddress idStr address [] = [[(''id'', JStr idStr), (''address'', JStr address)]]"
| "setAddress idStr address (obj # objs) =
     (if stored_id obj = idStr then jm_set ''address'' (JStr address) obj # objs else obj # setAddress idStr address objs)"

definition handleNewPeers :: "('ma, 'st) cacheEnv \<Rightarrow> string \<Rightarrow> 'ma list \<Rightarrow> ('ma, 'st) localCache \<Rightarrow> ('ma, 'st) localCache res" where
  "handleNewPeers E idStr listenAddrs C =
     rbind (getWsMultiaddrFromMultiaddrs (ce_showMa E) listenAddrs)
       (\<lambda>websocketMultiaddr.
          Inr (savePeersToLocalStorage E
                 (C\<lparr>lc_peers := setAddress idStr (ce_showMa E websocketMultiaddr) (getPeersFromLocalStorage E (lc_item C))\<rparr>)))"

text \<open>One stored peer in \<open>start\<close>: the parsers may throw, which rejects \<open>start\<close> with what was done so far.\<close>

definition startPeer :: "('ma, 'st) cacheEnv \<Rightarrow> storedObj \<Rightarrow> ('ma, 'st) localCache \<Rightarrow> ('ma, 'st) localCache res" where
  "startPeer E obj C =
     rbind (ce_peerIdFromString E (stored_id obj))
       (\<lambda>peerId.
          if ps_has (ce_store E) (lc_store C) peerId then Inr C
          else rbind (ce_multiaddr E (stored_address obj))
                 (\<lambda>ma. Inr (C\<lparr>lc_store := ps_save (ce_store E) peerId
                                 \<lparr>pu_tags = Some [(nullish (ce_tagName E) DEFAULT_LOCAL_TAG_NAME,
                                                  \<lparr>to_value = nullish (ce_tagValue E) DEFAULT_LOCAL_TAG_VALUE,
                                                   to_ttl = nullish (ce_tagTTL E) DEFAULT_LOCAL_TAG_TTL\<rparr>)],
                                  pu_metadata = None, pu_multiaddrs = Some [ce_showMa E ma]\<rparr> (lc_store C),
                              lc_events := lc_events C @ [(peerId, ma)]\<rparr>)))"

fun startPeers :: "('ma, 'st) cacheEnv \<Rightarrow> storedObj list \<Rightarrow> ('ma, 'st) localCache \<Rightarrow> ('ma, 'st) localCache \<times> unit res" where
  "startPeers E [] C = (C, Inr ())"
| "startPeers E (obj # objs) C =
     (case startPeer E obj C of Inl e \<Rightarrow> (C, Inl e) | Inr C1 \<Rightarrow> startPeers E objs C1)"

definition cache_start :: "('ma, 'st) cacheEnv \<Rightarrow> ('ma, 'st) localCache \<Rightarrow> ('ma, 'st) localCache \<times> unit res" where
  "cache_start E C =
     (if lc_isStarted C then (C, Inr ())
      else case startPeers E (lc_peers C) (C\<lparr>lc_listening := True\<rparr>) of
             (C1, Inl e) \<Rightarrow> (C1, Inl e)
           | (C1, Inr _) \<Rightarrow> (C1\<lparr>lc_isStarted := True\<rparr>, Inr ()))"

definition cache_stop :: "('ma, 'st) cacheEnv \<Rightarrow> ('ma, 'st) localCache \<Rightarrow> ('ma, 'st) localCache" where
  "cache_stop E C =
     (if \<not> lc_isStarted C then C
      else savePeersToLocalStorage E (C\<lparr>lc_listening := False, lc_isStarted := False\<rparr>))"

section \<open>Lemmas\<close>

definition jsonLaws :: "('ma, 'st) cacheEnv \<Rightarrow> bool" where
  "jsonLaws E \<longleftrightarrow> (\<forall>v. ce_parse E (ce_stringify E v) = Inr v \<and> ce_stringify E v \<noteq> [])"

definition validObj :: "storedObj \<Rightarrow> bool" where
  "validObj obj \<longleftrightarrow> stringProp ''id'' obj \<noteq> None \<and> stringProp ''address'' obj \<noteq> None"

lemma isValidStoredPeer_Some: "isValidStoredPeer v = Some obj \<longleftrightarrow> v = JObj obj \<and> validObj obj"
  by (cases v) (auto simp: validObj_def)

lemma stringProp_set [simp]:
  "stringProp k (jm_set k' (JStr a) obj) = (if k = k' then Some a else stringProp k obj)"
  by (simp add: stringProp_def)

lemma new_obj [simp]:
  "stringProp ''id'' [(''id'', JStr i), (''address'', JStr a)] = Some i"
  "stringProp ''address'' [(''id'', JStr i), (''address'', JStr a)] = Some a"
  by (simp_all add: stringProp_def jm_get_def)

lemma set_map_filter: "y \<in> set (List.map_filter f xs) \<longleftrightarrow> (\<exists>x \<in> set xs. f x = Some y)"
  by (induction xs) (auto simp: map_filter_simps split: option.splits)

lemma loaded_valid: "obj \<in> set (getPeersFromLocalStorage E item) \<Longrightarrow> validObj obj"
  by (auto simp: getPeersFromLocalStorage_def set_map_filter isValidStoredPeer_Some split: option.splits if_splits sum.splits json.splits)

lemma setAddress_valid: "\<forall>obj \<in> set objs. validObj obj \<Longrightarrow> obj \<in> set (setAddress i a objs) \<Longrightarrow> validObj obj"
  by (induction i a objs rule: setAddress.induct) (auto simp: validObj_def split: if_splits)

lemma saved_loads:
  assumes "jsonLaws E" and "\<forall>obj \<in> set objs. validObj obj"
  shows "getPeersFromLocalStorage E (Some (ce_stringify E (JArr (map JObj objs)))) = objs"
proof -
  have "List.map_filter isValidStoredPeer (map JObj objs) = objs"
    using assms(2) by (induction objs) (auto simp: map_filter_simps validObj_def)
  then show ?thesis using assms(1) by (simp add: getPeersFromLocalStorage_def jsonLaws_def)
qed

lemma stored_set_address [simp]:
  "stored_id (jm_set ''address'' (JStr a) obj) = stored_id obj" "stored_address (jm_set ''address'' (JStr a) obj) = a"
  by (simp_all add: stored_id_def stored_address_def)

lemma setAddress_ids:
  "map stored_id (setAddress i a objs) = (if i \<in> stored_id ` set objs then map stored_id objs else map stored_id objs @ [i])"
  by (induction i a objs rule: setAddress.induct) (auto simp: stored_id_def)

text \<open>The address under which an id is stored: that of its first object.\<close>

definition addressOf :: "storedObj list \<Rightarrow> string \<Rightarrow> string option" where
  "addressOf objs i = map_option stored_address (find (\<lambda>obj. stored_id obj = i) objs)"

lemma setAddress_address: "addressOf (setAddress i a objs) j = (if j = i then Some a else addressOf objs j)"
  by (induction i a objs rule: setAddress.induct) (auto simp: addressOf_def stored_id_def stored_address_def)

section \<open>Properties\<close>

text \<open>A peer that is identified is stored under its websocket address, every other stored peer keeps its address, no id is stored
  twice if none was, and the text written to the storage is read back as exactly these peers, by this and by any later instance.\<close>

theorem peer_cache_persists:
  "jsonLaws E \<Longrightarrow> (\<And>text. ce_setItem E text) \<Longrightarrow> handleNewPeers E i addrs C = Inr C' \<Longrightarrow>
     let old = getPeersFromLocalStorage E (lc_item C); stored = getPeersFromLocalStorage E (lc_item C')
     in stored = lc_peers C' \<and> lc_peers (newLocalCache E (lc_item C') store) = lc_peers C' \<and>
        (\<exists>ma \<in> set addrs. js_includes ''ws'' (ce_showMa E ma) \<and> addressOf stored i = Some (ce_showMa E ma)) \<and>
        (j = i \<or> addressOf stored j = addressOf old j) \<and>
        (distinct (map stored_id old) = distinct (map stored_id stored))"
proof -
  assume laws: "jsonLaws E" and set: "\<And>text. ce_setItem E text" and run: "handleNewPeers E i addrs C = Inr C'"
  let ?old = "getPeersFromLocalStorage E (lc_item C)"
  obtain ma where ma: "getWsMultiaddrFromMultiaddrs (ce_showMa E) addrs = Inr ma"
    and C': "C' = savePeersToLocalStorage E (C\<lparr>lc_peers := setAddress i (ce_showMa E ma) ?old\<rparr>)"
    using run by (auto simp: handleNewPeers_def rbind_eq_Inr)
  have peers: "lc_peers C' = setAddress i (ce_showMa E ma) ?old" by (simp add: C' savePeersToLocalStorage_def Let_def set)
  have item: "lc_item C' = Some (ce_stringify E (JArr (map JObj (lc_peers C'))))" by (simp add: C' savePeersToLocalStorage_def Let_def set)
  have "\<forall>obj \<in> set (lc_peers C'). validObj obj" using setAddress_valid loaded_valid unfolding peers by blast
  then have loads: "getPeersFromLocalStorage E (lc_item C') = lc_peers C'" unfolding item by (rule saved_loads [OF laws])
  have ws: "ma \<in> set addrs \<and> js_includes ''ws'' (ce_showMa E ma)"
    using ma by (auto simp: getWsMultiaddrFromMultiaddrs_def find_Some_iff js_includes_iff split: option.splits)
  show ?thesis
    unfolding Let_def loads using ws by (auto simp: newLocalCache_def loads peers setAddress_address setAddress_ids)
qed

text \<open>A JSON text that has as many characters as the number of the value, for the witness.\<close>

instance json :: countable
  by countable_datatype

definition demoCacheEnv :: "(string, (string, peerData) jsmap) cacheEnv" where
  "demoCacheEnv =
     \<lparr>ce_parse = (\<lambda>s. Inr (from_nat (length s - 1))), ce_stringify = (\<lambda>v. replicate (Suc (to_nat v)) CHR ''x''), ce_setItem = (\<lambda>_. True),
      ce_peerIdFromString = Inr, ce_multiaddr = Inr, ce_showMa = id, ce_store = mapPeerStore,
      ce_tagName = None, ce_tagValue = None, ce_tagTTL = None\<rparr>"

lemma demo_json: "jsonLaws demoCacheEnv" "ce_setItem demoCacheEnv text"
  by (simp_all add: jsonLaws_def demoCacheEnv_def)

theorem peer_cache_persists_witness:
  "\<exists>C'. handleNewPeers demoCacheEnv ''p'' [''/tcp'', ''/tcp/ws''] (newLocalCache demoCacheEnv None []) = Inr C' \<and>
     addressOf (getPeersFromLocalStorage demoCacheEnv (lc_item C')) ''p'' = Some ''/tcp/ws''"
proof -
  have ws: "getWsMultiaddrFromMultiaddrs (ce_showMa demoCacheEnv) [''/tcp'', ''/tcp/ws''] = Inr ''/tcp/ws''"
    by (simp add: getWsMultiaddrFromMultiaddrs_def demoCacheEnv_def)
  then obtain C' where run: "handleNewPeers demoCacheEnv ''p'' [''/tcp'', ''/tcp/ws''] (newLocalCache demoCacheEnv None []) = Inr C'"
    by (simp add: handleNewPeers_def)
  have "\<exists>ma \<in> set [''/tcp'', ''/tcp/ws'']. js_includes ''ws'' (ce_showMa demoCacheEnv ma) \<and>
      addressOf (getPeersFromLocalStorage demoCacheEnv (lc_item C')) ''p'' = Some (ce_showMa demoCacheEnv ma)"
    using peer_cache_persists [OF demo_json(1) demo_json(2) run] unfolding Let_def by blast
  then show ?thesis using run by (auto simp: demoCacheEnv_def)
qed

end
