(* ===== verification/PeerExchange.thy ===== *)
theory PeerExchange
  imports EnrDemo PeerStore CoreProtocol StateMachine
begin

text \<open>
  \<open>packages/discovery/src/peer-exchange\<close>: asking a peer for other peers (\<open>waku\_peer\_exchange.ts\<close>, \<open>rpc.ts\<close>), and the service
  that repeats the question, writes the answers to the peer store and announces them (\<open>waku\_peer\_exchange\_discovery.ts\<close>).
  The protobuf codec, the streams and the peer store are parameters.
\<close>

section \<open>The query\<close>

record pxRpc =
  px_numPeers :: "int option"
  px_response :: "bytes option list option"

definition pxRpc_createRequest :: "int \<Rightarrow> pxRpc" where
  "pxRpc_createRequest numPeers = \<lparr>px_numPeers = Some numPeers, px_response = None\<rparr>"

datatype 'pid pxResult = PxError protocolError | PxPeers "'pid enr list"

record pxNet =
  pxn_encode :: "pxRpc \<Rightarrow> bytes"
  pxn_decode :: "bytes \<Rightarrow> pxRpc res"
  pxn_peer :: "string \<Rightarrow> bool res"
  pxn_getStream :: "string \<Rightarrow> unit res"
  pxn_exchange :: "string \<Rightarrow> bytes \<Rightarrow> bytes list res"

text \<open>\<open>Inl\<close> is a rejection: only what follows the exchange is inside \<open>try\<close>.\<close>

definition peerExchange_query :: "pxNet \<Rightarrow> ('pid, 'ma) enrLib \<Rightarrow> int \<Rightarrow> string \<Rightarrow> 'pid pxResult res" where
  "peerExchange_query N L numPeers peerId =
     (let rpcQuery = pxRpc_createRequest numPeers
      in rbind (pxn_peer N peerId) (\<lambda>peer.
         if \<not> peer then Inr (PxError NO_PEER_AVAILABLE)
         else case pxn_getStream N peerId of
                Inl _ \<Rightarrow> Inr (PxError NO_STREAM_AVAILABLE)
              | Inr _ \<Rightarrow>
                  rbind (pxn_exchange N peerId (pxn_encode N rpcQuery)) (\<lambda>res.
                  case pxn_decode N (concat res) of
                    Inl _ \<Rightarrow> Inr (PxError DECODE_FAILED)
                  | Inr rpc \<Rightarrow>
                      (case px_response rpc of
                         None \<Rightarrow> Inr (PxError EMPTY_PAYLOAD)
                       | Some peerInfos \<Rightarrow>
                           (case mapM (fromRLP L) (List.map_filter id peerInfos) of
                              Inl _ \<Rightarrow> Inr (PxError DECODE_FAILED)
                            | Inr enrs \<Rightarrow> Inr (PxPeers enrs))))))"

section \<open>Writing the answers to the peer store\<close>

definition DEFAULT_PEER_EXCHANGE_REQUEST_NODES :: int where "DEFAULT_PEER_EXCHANGE_REQUEST_NODES = 10"
definition DEFAULT_PEER_EXCHANGE_QUERY_INTERVAL_MS :: int where "DEFAULT_PEER_EXCHANGE_QUERY_INTERVAL_MS = 10 * 1000"
definition DEFAULT_MAX_RETRIES :: int where "DEFAULT_MAX_RETRIES = 3"
definition DEFAULT_PEER_EXCHANGE_TAG_NAME :: string where "DEFAULT_PEER_EXCHANGE_TAG_NAME = ''peer-exchange''"
definition DEFAULT_PEER_EXCHANGE_TAG_VALUE :: int where "DEFAULT_PEER_EXCHANGE_TAG_VALUE = 50"
definition DEFAULT_PEER_EXCHANGE_TAG_TTL :: int where "DEFAULT_PEER_EXCHANGE_TAG_TTL = 100000000"

record pxOptions =
  pxo_tagValue :: "int option"
  pxo_tagTTL :: "int option"
  pxo_queryInterval :: "int option"
  pxo_maxRetries :: "int option"

text \<open>Whether a stored address or shard is missing in the new record: \<open>(hasMultiaddrDiff, hasShardDiff)\<close>.\<close>

definition checkPeerInfoDiff :: "peerData option \<Rightarrow> string list \<Rightarrow> shardInfo option \<Rightarrow> (bool \<times> bool) res" where
  "checkPeerInfoDiff peer newMultiaddrs shardInfo =
     (case peer of
        None \<Rightarrow> Inl (Error ''not found'')
      | Some d \<Rightarrow>
          (let hasMultiaddrDiff = list_ex (\<lambda>ma. ma \<notin> set newMultiaddrs) (pd_multiaddrs d)
           in case jm_get (pd_metadata d) ''shardInfo'' of
                None \<Rightarrow> Inr (hasMultiaddrDiff, False)
              | Some b \<Rightarrow>
                  rbind (decodeRelayShard b) (\<lambda>existing.
                    Inr (hasMultiaddrDiff,
                         sh_clusterId existing \<noteq> Option.bind shardInfo sh_clusterId \<or>
                         list_ex (\<lambda>shard. case shardInfo of None \<Rightarrow> True | Some s \<Rightarrow> shard \<notin> set (sh_shards s)) (sh_shards existing)))))"

definition shardInfoMetadata :: "shardInfo option \<Rightarrow> (string, bytes) jsmap option res" where
  "shardInfoMetadata shardInfo =
     (case shardInfo of None \<Rightarrow> Inr None | Some s \<Rightarrow> rbind (encodeRelayShard s) (\<lambda>b. Inr (Some [(''shardInfo'', b)])))"

text \<open>
  The store and the announced peers so far are returned with the outcome, also when it is an exception: what was written and announced
  before stays. In \<open>updateExchangedPeer\<close> the addresses are patched before the shard information is encoded.
\<close>

definition saveExchangedPeer ::
  "'st peerStore \<Rightarrow> ('ma \<Rightarrow> string) \<Rightarrow> pxOptions \<Rightarrow> string \<Rightarrow> 'ma list \<Rightarrow> shardInfo option \<Rightarrow> 'st \<times> (string \<times> 'ma list) list \<Rightarrow>
     ('st \<times> (string \<times> 'ma list) list) \<times> unit res" where
  "saveExchangedPeer P showMa opts peerId multiaddrs shardInfo acc =
     (case shardInfoMetadata shardInfo of
        Inl e \<Rightarrow> (acc, Inl e)
      | Inr md \<Rightarrow>
          ((ps_save P peerId
              \<lparr>pu_tags = Some [(DEFAULT_PEER_EXCHANGE_TAG_NAME,
                 \<lparr>to_value = nullish (pxo_tagValue opts) DEFAULT_PEER_EXCHANGE_TAG_VALUE,
                  to_ttl = nullish (pxo_tagTTL opts) DEFAULT_PEER_EXCHANGE_TAG_TTL\<rparr>)],
               pu_metadata = md, pu_multiaddrs = Some (map showMa multiaddrs)\<rparr> (fst acc),
            snd acc @ [(peerId, multiaddrs)]), Inr ()))"

definition updateExchangedPeer ::
  "'st peerStore \<Rightarrow> ('ma \<Rightarrow> string) \<Rightarrow> string \<Rightarrow> 'ma list \<Rightarrow> shardInfo option \<Rightarrow> bool \<Rightarrow> bool \<Rightarrow> 'st \<times> (string \<times> 'ma list) list \<Rightarrow>
     ('st \<times> (string \<times> 'ma list) list) \<times> unit res" where
  "updateExchangedPeer P showMa peerId multiaddrs shardInfo hasMultiaddrDiff hasShardDiff acc =
     (let store1 = (if hasMultiaddrDiff then ps_patch P peerId (noUpdate\<lparr>pu_multiaddrs := Some (map showMa multiaddrs)\<rparr>) (fst acc)
                    else fst acc)
      in if hasShardDiff \<and> shardInfo \<noteq> None
         then (case shardInfoMetadata shardInfo of
                 Inl e \<Rightarrow> ((store1, snd acc), Inl e)
               | Inr md \<Rightarrow> ((ps_merge P peerId (noUpdate\<lparr>pu_metadata := md\<rparr>) store1, snd acc @ [(peerId, multiaddrs)]), Inr ()))
         else ((store1, snd acc), Inr ()))"

definition exchangedPeer ::
  "'st peerStore \<Rightarrow> ('pid, 'ma) enrLib \<Rightarrow> ('ma \<Rightarrow> string) \<Rightarrow> pxOptions \<Rightarrow> 'pid enr \<Rightarrow> 'st \<times> (string \<times> 'ma list) list \<Rightarrow>
     ('st \<times> (string \<times> 'ma list) list) \<times> unit res" where
  "exchangedPeer P L showMa opts e acc =
     (case enr_peerInfo L e of
        Inl err \<Rightarrow> (acc, Inl err)
      | Inr peerInfo \<Rightarrow>
          (case enr_shardInfo e of
             Inl err \<Rightarrow> (acc, Inl err)
           | Inr shardInfo \<Rightarrow>
               (case peerInfo of
                  None \<Rightarrow> (acc, Inr ())
                | Some (pid, multiaddrs) \<Rightarrow>
                    (let peerId = peerIdStr L pid
                     in if \<not> ps_has P (fst acc) peerId then saveExchangedPeer P showMa opts peerId multiaddrs shardInfo acc
                        else case checkPeerInfoDiff (ps_get P (fst acc) peerId) (map showMa multiaddrs) shardInfo of
                               Inl err \<Rightarrow> (acc, Inl err)
                             | Inr (hasMultiaddrDiff, hasShardDiff) \<Rightarrow>
                                 if hasMultiaddrDiff \<or> hasShardDiff
                                 then updateExchangedPeer P showMa peerId multiaddrs shardInfo hasMultiaddrDiff hasShardDiff acc
                                 else saveExchangedPeer P showMa opts peerId multiaddrs shardInfo acc))))"

fun exchangedPeers ::
  "'st peerStore \<Rightarrow> ('pid, 'ma) enrLib \<Rightarrow> ('ma \<Rightarrow> string) \<Rightarrow> pxOptions \<Rightarrow> 'pid enr list \<Rightarrow> 'st \<times> (string \<times> 'ma list) list \<Rightarrow>
     ('st \<times> (string \<times> 'ma list) list) \<times> unit res" where
  "exchangedPeers P L showMa opts [] acc = (acc, Inr ())"
| "exchangedPeers P L showMa opts (e # es) acc =
     (case exchangedPeer P L showMa opts e acc of
        (acc1, Inl err) \<Rightarrow> (acc1, Inl err)
      | (acc1, Inr _) \<Rightarrow> exchangedPeers P L showMa opts es acc1)"

definition pxDiscovery_query ::
  "pxNet \<Rightarrow> 'st peerStore \<Rightarrow> ('pid, 'ma) enrLib \<Rightarrow> ('ma \<Rightarrow> string) \<Rightarrow> pxOptions \<Rightarrow> string \<Rightarrow> 'st \<Rightarrow>
     ('st \<times> (string \<times> 'ma list) list) \<times> 'pid pxResult res" where
  "pxDiscovery_query N P L showMa opts peerId store =
     (case peerExchange_query N L DEFAULT_PEER_EXCHANGE_REQUEST_NODES peerId of
        Inl e \<Rightarrow> ((store, []), Inl e)
      | Inr (PxError e) \<Rightarrow> ((store, []), Inr (PxError e))
      | Inr (PxPeers enrs) \<Rightarrow>
          (case exchangedPeers P L showMa opts enrs (store, []) of
             (acc, Inl e) \<Rightarrow> (acc, Inl e)
           | (acc, Inr _) \<Rightarrow> (acc, Inr (PxPeers enrs))))"

section \<open>Repeating the query\<close>

text \<open>
  \<open>pxd_inflight\<close> has the peers whose query is awaited and \<open>pxd_timers\<close> the attempt that each timer will start and its delay.
  \<open>pxd_queries\<close> logs the peers that were asked.
\<close>

record pxDiscovery =
  pxd_isStarted :: bool
  pxd_listening :: bool
  pxd_queryingPeers :: "string list"
  pxd_queryAttempts :: "(string, int) jsmap"
  pxd_inflight :: "string list"
  pxd_timers :: "(string \<times> int \<times> int) list"
  pxd_queries :: "string list"

definition newPxDiscovery :: pxDiscovery where
  "newPxDiscovery = \<lparr>pxd_isStarted = False, pxd_listening = False, pxd_queryingPeers = [], pxd_queryAttempts = [], pxd_inflight = [],
                     pxd_timers = [], pxd_queries = []\<rparr>"

definition PeerExchangeCodec :: string where "PeerExchangeCodec = ''/vac/waku/peer-exchange/2.0.0-alpha1''"

definition maxRetriesOf :: "pxOptions \<Rightarrow> int" where "maxRetriesOf opts = nullish (pxo_maxRetries opts) DEFAULT_MAX_RETRIES"
definition queryIntervalOf :: "pxOptions \<Rightarrow> int" where
  "queryIntervalOf opts = nullish (pxo_queryInterval opts) DEFAULT_PEER_EXCHANGE_QUERY_INTERVAL_MS"

definition currentAttempt :: "pxDiscovery \<Rightarrow> string \<Rightarrow> int" where
  "currentAttempt S p = nullish (jm_get (pxd_queryAttempts S) p) 1"

text \<open>\<open>startRecurringQueries\<close> up to the answer, and after it. A rejected query ends it.\<close>

definition startRecurringQueries :: "string \<Rightarrow> pxDiscovery \<Rightarrow> pxDiscovery" where
  "startRecurringQueries p S = S\<lparr>pxd_inflight := pxd_inflight S @ [p], pxd_queries := pxd_queries S @ [p]\<rparr>"

definition abortQueriesForPeer :: "string \<Rightarrow> pxDiscovery \<Rightarrow> pxDiscovery" where
  "abortQueriesForPeer p S =
     S\<lparr>pxd_queryingPeers := removeAll p (pxd_queryingPeers S), pxd_queryAttempts := jm_delete p (pxd_queryAttempts S)\<rparr>"

definition queryAnswered :: "pxOptions \<Rightarrow> string \<Rightarrow> bool \<Rightarrow> pxDiscovery \<Rightarrow> pxDiscovery" where
  "queryAnswered opts p resolved S =
     (if p \<notin> set (pxd_inflight S) then S
      else let S1 = S\<lparr>pxd_inflight := remove1 p (pxd_inflight S)\<rparr>; current = currentAttempt S1 p
           in if \<not> resolved then S1
              else if current > maxRetriesOf opts then abortQueriesForPeer p S1
              else S1\<lparr>pxd_timers := pxd_timers S1 @ [(p, current + 1, queryIntervalOf opts * current)]\<rparr>)"

definition timerFires :: "nat \<Rightarrow> pxDiscovery \<Rightarrow> pxDiscovery" where
  "timerFires i S =
     (if i < length (pxd_timers S)
      then (case pxd_timers S ! i of
              (p, attempt, _) \<Rightarrow>
                startRecurringQueries p
                  (S\<lparr>pxd_timers := take i (pxd_timers S) @ drop (Suc i) (pxd_timers S),
                     pxd_queryAttempts := jm_set p attempt (pxd_queryAttempts S)\<rparr>))
      else S)"

definition handleDiscoveredPeer :: "string list \<Rightarrow> string \<Rightarrow> pxDiscovery \<Rightarrow> pxDiscovery" where
  "handleDiscoveredPeer protocols p S =
     (if PeerExchangeCodec \<notin> set protocols \<or> p \<in> set (pxd_queryingPeers S) then S
      else startRecurringQueries p (S\<lparr>pxd_queryingPeers := pxd_queryingPeers S @ [p]\<rparr>))"

definition pxDiscovery_start :: "pxDiscovery \<Rightarrow> pxDiscovery" where
  "pxDiscovery_start S = (if pxd_isStarted S then S else S\<lparr>pxd_listening := True\<rparr>)"

definition pxDiscovery_stop :: "pxDiscovery \<Rightarrow> pxDiscovery" where
  "pxDiscovery_stop S =
     (if \<not> pxd_isStarted S then S
      else S\<lparr>pxd_isStarted := False, pxd_queryingPeers := [], pxd_listening := False\<rparr>)"

datatype pxEvent = PxStart | PxStop | PxIdentify "string list" string | PxAnswer string bool | PxTimer nat

fun pxExec :: "pxOptions \<Rightarrow> pxEvent \<Rightarrow> pxDiscovery \<Rightarrow> pxDiscovery" where
  "pxExec opts PxStart S = pxDiscovery_start S"
| "pxExec opts PxStop S = pxDiscovery_stop S"
| "pxExec opts (PxIdentify protocols p) S = (if pxd_listening S then handleDiscoveredPeer protocols p S else S)"
| "pxExec opts (PxAnswer p resolved) S = queryAnswered opts p resolved S"
| "pxExec opts (PxTimer i) S = timerFires i S"

section \<open>Lemmas\<close>

text \<open>The queries of a peer that are under way or planned.\<close>

definition active :: "pxDiscovery \<Rightarrow> string \<Rightarrow> nat" where
  "active S p = count (mset (pxd_inflight S)) p + count (mset (map fst (pxd_timers S))) p"

definition pxInv :: "pxOptions \<Rightarrow> pxDiscovery \<Rightarrow> bool" where
  "pxInv opts S \<longleftrightarrow> \<not> pxd_isStarted S \<and>
     (\<forall>p. active S p \<le> 1 \<and> (0 < active S p \<or> jm_get (pxd_queryAttempts S) p \<noteq> None \<longrightarrow> p \<in> set (pxd_queryingPeers S)) \<and>
          1 \<le> currentAttempt S p \<and> currentAttempt S p \<le> max 1 (maxRetriesOf opts + 1)) \<and>
     (\<forall>(p, attempt, delay) \<in> set (pxd_timers S).
        attempt = currentAttempt S p + 1 \<and> currentAttempt S p \<le> maxRetriesOf opts \<and> delay = queryIntervalOf opts * currentAttempt S p)"

lemma remove_nth: "i < length xs \<Longrightarrow> mset xs = add_mset (xs ! i) (mset (take i xs @ drop (Suc i) xs))"
  by (subst id_take_nth_drop [of i xs]) simp_all

lemma startRecurringQueries_simps [simp]:
  "pxd_isStarted (startRecurringQueries p S) = pxd_isStarted S" "pxd_timers (startRecurringQueries p S) = pxd_timers S"
  "pxd_queryingPeers (startRecurringQueries p S) = pxd_queryingPeers S"
  "pxd_queryAttempts (startRecurringQueries p S) = pxd_queryAttempts S"
  "currentAttempt (startRecurringQueries p S) q = currentAttempt S q"
  "active (startRecurringQueries p S) q = active S q + of_bool (q = p)"
  "pxd_inflight (startRecurringQueries p S) = pxd_inflight S @ [p]"
  "pxd_queries (startRecurringQueries p S) = pxd_queries S @ [p]"
  by (simp_all add: startRecurringQueries_def currentAttempt_def active_def)

lemma active_fields [simp]:
  "active (S\<lparr>pxd_queryingPeers := x\<rparr>) p = active S p" "active (S\<lparr>pxd_queryAttempts := y\<rparr>) p = active S p"
  "active (S\<lparr>pxd_listening := b\<rparr>) p = active S p"
  "currentAttempt (S\<lparr>pxd_queryingPeers := x\<rparr>) p = currentAttempt S p" "currentAttempt (S\<lparr>pxd_listening := b\<rparr>) p = currentAttempt S p"
  "currentAttempt (S\<lparr>pxd_inflight := l\<rparr>) p = currentAttempt S p" "currentAttempt (S\<lparr>pxd_timers := t\<rparr>) p = currentAttempt S p"
  "currentAttempt (S\<lparr>pxd_queryAttempts := jm_set q a m\<rparr>) p = (if p = q then a else nullish (jm_get m p) 1)"
  "currentAttempt (S\<lparr>pxd_queryAttempts := jm_delete q m\<rparr>) p = (if p = q then 1 else nullish (jm_get m p) 1)"
  by (simp_all add: active_def currentAttempt_def)

lemma active_timer: "(p, a, d) \<in> set (pxd_timers S) \<Longrightarrow> 0 < active S p"
  by (auto simp: active_def intro!: image_eqI)

lemma inflight_active: "p \<in> set (pxd_inflight S) \<Longrightarrow> 0 < active S p"
  by (simp add: active_def)

lemma handleDiscoveredPeer_inv: "pxInv opts S \<Longrightarrow> pxInv opts (handleDiscoveredPeer protocols p S)"
proof (cases "PeerExchangeCodec \<notin> set protocols \<or> p \<in> set (pxd_queryingPeers S)")
  case False
  assume inv: "pxInv opts S"
  have "active S p = 0" using inv False unfolding pxInv_def by (metis gr0I)
  then show ?thesis using inv False unfolding handleDiscoveredPeer_def pxInv_def by auto
qed (simp add: handleDiscoveredPeer_def)

lemma active_split:
  assumes "pxInv opts S" and "p \<in> set (pxd_inflight S)"
  shows "count (mset (pxd_inflight S)) p = 1" "p \<notin> fst ` set (pxd_timers S)"
proof -
  have "active S p \<le> 1" using assms(1) by (simp add: pxInv_def)
  moreover have "1 \<le> count (mset (pxd_inflight S)) p" using assms(2) by (metis count_greater_eq_one_iff set_mset_mset)
  ultimately have "count (mset (pxd_inflight S)) p = 1" "count (mset (map fst (pxd_timers S))) p = 0" unfolding active_def by linarith+
  then show "count (mset (pxd_inflight S)) p = 1" "p \<notin> fst ` set (pxd_timers S)"
    unfolding count_eq_zero_iff by simp_all
qed

lemma queryAnswered_inv: "pxInv opts S \<Longrightarrow> pxInv opts (queryAnswered opts p resolved S)"
proof (cases "p \<in> set (pxd_inflight S)")
  case True
  assume inv: "pxInv opts S"
  define S1 where "S1 = S\<lparr>pxd_inflight := remove1 p (pxd_inflight S)\<rparr>"
  note split = active_split [OF inv True]
  have act: "active S1 q = (if q = p then 0 else active S q)" for q
    using split by (auto simp: S1_def active_def count_eq_zero_iff)
  have querying: "p \<in> set (pxd_queryingPeers S)" using inv inflight_active [OF True] unfolding pxInv_def by blast
  have inv1: "pxInv opts S1" using inv act unfolding pxInv_def by (auto simp: S1_def)
  have no_timer: "(p, a, d) \<notin> set (pxd_timers S1)" for a d using split(2) by (force simp: S1_def)
  have run: "queryAnswered opts p resolved S =
      (if \<not> resolved then S1
       else if currentAttempt S1 p > maxRetriesOf opts then abortQueriesForPeer p S1
       else S1\<lparr>pxd_timers := pxd_timers S1 @ [(p, currentAttempt S1 p + 1, queryIntervalOf opts * currentAttempt S1 p)]\<rparr>)"
    using True by (simp add: queryAnswered_def S1_def Let_def)
  have "pxInv opts (abortQueriesForPeer p S1)"
    using inv1 act no_timer unfolding pxInv_def abortQueriesForPeer_def
    by (auto simp: currentAttempt_def split: prod.splits)
  moreover have "pxInv opts (S1\<lparr>pxd_timers := pxd_timers S1 @ [(p, currentAttempt S1 p + 1, queryIntervalOf opts * currentAttempt S1 p)]\<rparr>)"
    if "currentAttempt S1 p \<le> maxRetriesOf opts"
  proof -
    have "active (S1\<lparr>pxd_timers := pxd_timers S1 @ [(p, x)]\<rparr>) q = active S1 q + of_bool (q = p)" for q x
      by (simp add: active_def)
    moreover have "active S q \<le> 1" for q using inv by (simp add: pxInv_def)
    ultimately show ?thesis using inv1 act that querying unfolding pxInv_def by (auto simp: S1_def)
  qed
  ultimately show ?thesis using inv1 unfolding run by (auto simp: not_less)
qed (simp add: queryAnswered_def)

lemma timerFires_inv: "pxInv opts S \<Longrightarrow> pxInv opts (timerFires i S)"
proof (cases "i < length (pxd_timers S)")
  case True
  assume inv: "pxInv opts S"
  obtain p a d where t: "pxd_timers S ! i = (p, a, d)" by (cases "pxd_timers S ! i")
  define rest where "rest = take i (pxd_timers S) @ drop (Suc i) (pxd_timers S)"
  define S1 where "S1 = S\<lparr>pxd_timers := rest, pxd_queryAttempts := jm_set p a (pxd_queryAttempts S)\<rparr>"
  have ms: "mset (pxd_timers S) = add_mset (p, a, d) (mset rest)" using remove_nth [OF True] t by (simp add: rest_def)
  then have fsts: "mset (map fst (pxd_timers S)) = add_mset p (mset (map fst rest))" by simp
  have mem: "(p, a, d) \<in> set (pxd_timers S)" and sub: "set rest \<subseteq> set (pxd_timers S)"
    using ms by (metis set_mset_mset union_single_eq_member, metis set_mset_add_mset_insert set_mset_mset subset_insertI)
  have act: "active S q = active S1 q + of_bool (q = p)" for q
    unfolding active_def S1_def using fsts by simp
  have cur: "currentAttempt S1 q = (if q = p then a else currentAttempt S q)" for q by (simp add: S1_def currentAttempt_def)
  have a: "a = currentAttempt S p + 1" "currentAttempt S p \<le> maxRetriesOf opts" using inv mem unfolding pxInv_def by blast+
  have "active S p \<le> 1" using inv by (simp add: pxInv_def)
  then have "active S1 p = 0" using act [of p] by simp
  then have others: "(p, b, e) \<notin> set rest" for b e using active_timer [of p b e S1] by (auto simp: S1_def)
  have querying: "p \<in> set (pxd_queryingPeers S)" using inv active_timer [OF mem] unfolding pxInv_def by blast
  have run: "timerFires i S = startRecurringQueries p S1" using True t by (simp add: timerFires_def S1_def rest_def)
  show ?thesis
    unfolding run pxInv_def
  proof (intro conjI allI)
    show "\<not> pxd_isStarted (startRecurringQueries p S1)" using inv by (simp add: pxInv_def S1_def)
    fix q
    have "active S q \<le> 1" using inv by (simp add: pxInv_def)
    then show "active (startRecurringQueries p S1) q \<le> 1" using act [of q] by simp
    show "0 < active (startRecurringQueries p S1) q \<or> jm_get (pxd_queryAttempts (startRecurringQueries p S1)) q \<noteq> None \<longrightarrow>
        q \<in> set (pxd_queryingPeers (startRecurringQueries p S1))"
      using act [of q] inv querying by (auto simp: pxInv_def S1_def)
    have "1 \<le> currentAttempt S q \<and> currentAttempt S q \<le> max 1 (maxRetriesOf opts + 1)" for q using inv by (simp add: pxInv_def)
    from this [of p] this [of q] show "1 \<le> currentAttempt (startRecurringQueries p S1) q"
      "currentAttempt (startRecurringQueries p S1) q \<le> max 1 (maxRetriesOf opts + 1)"
      using a by (auto simp: cur)
  next
    show "\<forall>(q, attempt, delay) \<in> set (pxd_timers (startRecurringQueries p S1)).
        attempt = currentAttempt (startRecurringQueries p S1) q + 1 \<and> currentAttempt (startRecurringQueries p S1) q \<le> maxRetriesOf opts \<and>
        delay = queryIntervalOf opts * currentAttempt (startRecurringQueries p S1) q"
    proof (clarsimp simp: cur)
      fix q attempt delay
      assume t: "(q, attempt, delay) \<in> set (pxd_timers S1)"
      then have "q \<noteq> p" "(q, attempt, delay) \<in> set (pxd_timers S)" using others sub by (auto simp: S1_def)
      moreover have "\<forall>(q, attempt, delay) \<in> set (pxd_timers S).
          attempt = currentAttempt S q + 1 \<and> currentAttempt S q \<le> maxRetriesOf opts \<and> delay = queryIntervalOf opts * currentAttempt S q"
        using inv by (simp add: pxInv_def)
      ultimately show "(q = p \<longrightarrow> attempt = a + 1 \<and> a \<le> maxRetriesOf opts \<and> delay = queryIntervalOf opts * a) \<and>
          (q \<noteq> p \<longrightarrow> attempt = currentAttempt S q + 1 \<and> currentAttempt S q \<le> maxRetriesOf opts \<and>
                     delay = queryIntervalOf opts * currentAttempt S q)" by blast
    qed
  qed
qed (simp add: timerFires_def)

interpretation pxSystem: event_system "\<lambda>S. S = newPxDiscovery" "pxExec opts" "pxInv opts" for opts
proof
  fix S e
  show "S = newPxDiscovery \<Longrightarrow> pxInv opts S" by (simp add: pxInv_def newPxDiscovery_def active_def currentAttempt_def)
  show "pxInv opts S \<Longrightarrow> pxInv opts (pxExec opts e S)"
  proof (cases e)
    case PxStart
    then show "pxInv opts S \<Longrightarrow> ?thesis" by (simp add: pxDiscovery_start_def pxInv_def)
  qed (auto simp: handleDiscoveredPeer_inv queryAnswered_inv timerFires_inv pxDiscovery_stop_def pxInv_def [of opts S])
qed

section \<open>Properties\<close>

text \<open>C26: In every reachable state at most one query of a peer is awaited or planned, only peers being queried have one, the attempts of
  a peer stay between 1 and one more than \<open>maxRetries\<close>, and the delay of each planned query is the interval times the attempts so far.\<close>

theorem peer_exchange_one_query:
  "let S = runEvents (pxExec opts) evs newPxDiscovery
   in count (mset (pxd_inflight S)) p + count (mset (map fst (pxd_timers S))) p \<le> of_bool (p \<in> set (pxd_queryingPeers S)) \<and>
      1 \<le> currentAttempt S p \<and> currentAttempt S p \<le> max 1 (maxRetriesOf opts + 1) \<and>
      (case find (\<lambda>t. fst t = p) (pxd_timers S) of
         None \<Rightarrow> True
       | Some (_, attempt, delay) \<Rightarrow> attempt = currentAttempt S p + 1 \<and> delay = queryIntervalOf opts * currentAttempt S p)"
proof -
  define S where "S = runEvents (pxExec opts) evs newPxDiscovery"
  have inv: "pxInv opts S" unfolding S_def by (rule pxSystem.run_from_start) simp
  have one: "active S p \<le> 1" "0 < active S p \<Longrightarrow> p \<in> set (pxd_queryingPeers S)" "1 \<le> currentAttempt S p"
    "currentAttempt S p \<le> max 1 (maxRetriesOf opts + 1)"
    using inv unfolding pxInv_def by blast+
  have timers: "(q, attempt, delay) \<in> set (pxd_timers S) \<Longrightarrow>
      attempt = currentAttempt S q + 1 \<and> delay = queryIntervalOf opts * currentAttempt S q" for q attempt delay
    using inv unfolding pxInv_def by blast
  have "case find (\<lambda>t. fst t = p) (pxd_timers S) of
         None \<Rightarrow> True
       | Some (_, attempt, delay) \<Rightarrow> attempt = currentAttempt S p + 1 \<and> delay = queryIntervalOf opts * currentAttempt S p"
  proof (cases "find (\<lambda>t. fst t = p) (pxd_timers S)")
    case (Some t)
    obtain q attempt delay where t: "t = (q, attempt, delay)" by (cases t)
    have "t \<in> set (pxd_timers S) \<and> fst t = p" using Some by (metis (mono_tags, lifting) find_Some_iff nth_mem)
    then have "(p, attempt, delay) \<in> set (pxd_timers S)" unfolding t by auto
    then show ?thesis using Some timers by (simp add: t)
  qed simp
  moreover have "active S p \<le> of_bool (p \<in> set (pxd_queryingPeers S))" using one by (cases "active S p = 0") auto
  ultimately show ?thesis using one unfolding S_def [symmetric] Let_def active_def by blast
qed

text \<open>One round: the answer comes and the timer it starts fires.\<close>

definition pxRound :: "pxOptions \<Rightarrow> string \<Rightarrow> pxDiscovery \<Rightarrow> pxDiscovery" where
  "pxRound opts p S = (let S1 = queryAnswered opts p True S in timerFires (length (pxd_timers S1) - 1) S1)"

lemma pxRound_step:
  assumes "pxd_inflight S = l @ [p]" and "p \<notin> set l" and "currentAttempt S p \<le> maxRetriesOf opts"
  shows "pxd_inflight (pxRound opts p S) = l @ [p]" "pxd_timers (pxRound opts p S) = pxd_timers S"
    "currentAttempt (pxRound opts p S) p = currentAttempt S p + 1" "pxd_queries (pxRound opts p S) = pxd_queries S @ [p]"
    "pxd_queryingPeers (pxRound opts p S) = pxd_queryingPeers S"
  using assms by (simp_all add: pxRound_def queryAnswered_def timerFires_def Let_def remove1_append nth_append)

lemma pxRounds_steps:
  "pxd_inflight S = l @ [p] \<Longrightarrow> p \<notin> set l \<Longrightarrow> currentAttempt S p + int n \<le> maxRetriesOf opts + 1 \<Longrightarrow>
   (let S' = (pxRound opts p ^^ n) S
    in pxd_inflight S' = l @ [p] \<and> pxd_timers S' = pxd_timers S \<and> currentAttempt S' p = currentAttempt S p + int n \<and>
       pxd_queries S' = pxd_queries S @ replicate n p \<and> pxd_queryingPeers S' = pxd_queryingPeers S)"
proof (induction n)
  case (Suc n)
  define T where "T = (pxRound opts p ^^ n) S"
  have IH: "pxd_inflight T = l @ [p]" "pxd_timers T = pxd_timers S" "currentAttempt T p = currentAttempt S p + int n"
    "pxd_queries T = pxd_queries S @ replicate n p" "pxd_queryingPeers T = pxd_queryingPeers S"
    using Suc by (simp_all add: T_def Let_def)
  have "currentAttempt T p \<le> maxRetriesOf opts" using IH(3) Suc.prems(3) by simp
  note step = pxRound_step [OF IH(1) Suc.prems(2) this]
  show ?case using step IH by (simp add: T_def [symmetric] Let_def replicate_append_same)
qed simp

text \<open>A peer that answers every query is asked once when it is identified and \<open>maxRetries\<close> times more, and is then forgotten: nothing
  of it is awaited, planned or remembered, so that it is asked anew when it is identified again.\<close>

theorem peer_exchange_rounds:
  "pxInv opts S \<Longrightarrow> p \<notin> set (pxd_queryingPeers S) \<Longrightarrow> PeerExchangeCodec \<in> set protocols \<Longrightarrow> 0 \<le> maxRetriesOf opts \<Longrightarrow>
     let S' = queryAnswered opts p True ((pxRound opts p ^^ nat (maxRetriesOf opts)) (handleDiscoveredPeer protocols p S))
     in pxd_queries S' = pxd_queries S @ replicate (nat (maxRetriesOf opts) + 1) p \<and> active S' p = 0 \<and>
        p \<notin> set (pxd_queryingPeers S') \<and> jm_get (pxd_queryAttempts S') p = None \<and>
        pxd_inflight S' = pxd_inflight S \<and> pxd_timers S' = pxd_timers S"
proof -
  assume inv: "pxInv opts S" and fresh: "p \<notin> set (pxd_queryingPeers S)" and codec: "PeerExchangeCodec \<in> set protocols"
    and pos: "0 \<le> maxRetriesOf opts"
  define S1 where "S1 = handleDiscoveredPeer protocols p S"
  have idle: "active S p = 0" "jm_get (pxd_queryAttempts S) p = None" using inv fresh unfolding pxInv_def by (metis gr0I)+
  have l: "p \<notin> set (pxd_inflight S)" using idle by (auto simp: active_def count_eq_zero_iff)
  have S1: "pxd_inflight S1 = pxd_inflight S @ [p]" "pxd_timers S1 = pxd_timers S" "currentAttempt S1 p = 1"
    "pxd_queries S1 = pxd_queries S @ [p]"
    using fresh codec idle by (simp_all add: S1_def handleDiscoveredPeer_def) (simp add: currentAttempt_def)
  define T where "T = (pxRound opts p ^^ nat (maxRetriesOf opts)) S1"
  have T: "pxd_inflight T = pxd_inflight S @ [p]" "pxd_timers T = pxd_timers S" "currentAttempt T p = maxRetriesOf opts + 1"
    "pxd_queries T = pxd_queries S @ [p] @ replicate (nat (maxRetriesOf opts)) p"
    using pxRounds_steps [OF S1(1) l, of "nat (maxRetriesOf opts)" opts] S1 pos by (simp_all add: T_def Let_def)
  have "queryAnswered opts p True T = abortQueriesForPeer p (T\<lparr>pxd_inflight := pxd_inflight S\<rparr>)"
    using T l by (simp add: queryAnswered_def Let_def remove1_append)
  then show ?thesis
    using T idle unfolding S1_def [symmetric] T_def [symmetric] Let_def
    by (simp add: abortQueriesForPeer_def active_def)
qed

definition pxDefaults :: pxOptions where
  "pxDefaults = \<lparr>pxo_tagValue = None, pxo_tagTTL = None, pxo_queryInterval = None, pxo_maxRetries = None\<rparr>"

theorem peer_exchange_rounds_witness:
  "pxd_queries (queryAnswered pxDefaults ''p'' True ((pxRound pxDefaults ''p'' ^^ nat (maxRetriesOf pxDefaults))
     (handleDiscoveredPeer [PeerExchangeCodec] ''p'' newPxDiscovery))) = [''p'', ''p'', ''p'', ''p'']"
proof -
  have "pxInv pxDefaults newPxDiscovery" by (rule pxSystem.start_inv) simp
  from peer_exchange_rounds [OF this, of "''p''" "[PeerExchangeCodec]"] show ?thesis
    by (simp add: newPxDiscovery_def maxRetriesOf_def pxDefaults_def DEFAULT_MAX_RETRIES_def Let_def eval_nat_numeral)
qed

text \<open>\<open>start\<close> never sets \<open>isStarted\<close>, so \<open>stop\<close> does nothing in any reachable state and the listener stays.\<close>

theorem peer_exchange_stop_does_nothing:
  "pxDiscovery_stop (runEvents (pxExec opts) evs newPxDiscovery) = runEvents (pxExec opts) evs newPxDiscovery"
proof -
  have "pxInv opts (runEvents (pxExec opts) evs newPxDiscovery)" by (rule pxSystem.run_from_start) simp
  then show ?thesis by (simp add: pxDiscovery_stop_def pxInv_def)
qed

text \<open>A peer whose query is rejected, as when its stream fails, stays among the queried peers and is never asked again.\<close>

theorem rejected_peer_never_asked_again:
  "pxInv opts S \<Longrightarrow> p \<in> set (pxd_inflight S) \<Longrightarrow>
     filter (\<lambda>q. q = p) (pxd_queries (runEvents (pxExec opts) evs (queryAnswered opts p False S))) =
     filter (\<lambda>q. q = p) (pxd_queries S)"
proof -
  assume inv: "pxInv opts S" and flight: "p \<in> set (pxd_inflight S)"
  define stuck where "stuck = (\<lambda>T. pxInv opts T \<and> active T p = 0 \<and> p \<in> set (pxd_queryingPeers T) \<and>
      filter (\<lambda>q. q = p) (pxd_queries T) = filter (\<lambda>q. q = p) (pxd_queries S))"
  have start: "stuck (queryAnswered opts p False S)"
  proof -
    have "p \<in> set (pxd_queryingPeers S)" using inv inflight_active [OF flight] unfolding pxInv_def by blast
    moreover have "active (S\<lparr>pxd_inflight := remove1 p (pxd_inflight S)\<rparr>) p = 0"
      using active_split [OF inv flight] by (auto simp: active_def count_eq_zero_iff)
    ultimately show ?thesis using queryAnswered_inv [OF inv, of p False] flight by (simp add: stuck_def queryAnswered_def Let_def)
  qed
  have step: "stuck (pxExec opts e T)" if "stuck T" for e T
  proof -
    have T: "pxInv opts T" "active T p = 0" "p \<in> set (pxd_queryingPeers T)" using that by (auto simp: stuck_def)
    have none: "p \<notin> set (pxd_inflight T)" "\<And>a d. (p, a, d) \<notin> set (pxd_timers T)"
      using T(2) inflight_active [of p T] active_timer [of p _ _ T] by (metis less_irrefl)+
    have "active (pxExec opts e T) p = 0 \<and> p \<in> set (pxd_queryingPeers (pxExec opts e T)) \<and>
        filter (\<lambda>q. q = p) (pxd_queries (pxExec opts e T)) = filter (\<lambda>q. q = p) (pxd_queries T)"
    proof (cases e)
      case (PxTimer i)
      show ?thesis
      proof (cases "i < length (pxd_timers T)")
        case True
        obtain q a d where t: "pxd_timers T ! i = (q, a, d)" by (cases "pxd_timers T ! i")
        have q: "q \<noteq> p" using none(2) nth_mem [OF True] t by auto
        have "mset (pxd_timers T) = add_mset (q, a, d) (mset (take i (pxd_timers T) @ drop (Suc i) (pxd_timers T)))"
          using remove_nth [OF True] t by simp
        then have "mset (map fst (pxd_timers T)) = add_mset q (mset (map fst (take i (pxd_timers T) @ drop (Suc i) (pxd_timers T))))"
          by simp
        then show ?thesis using PxTimer True t q T by (simp add: timerFires_def) (simp add: active_def)
      qed (use PxTimer T in \<open>simp add: timerFires_def\<close>)
    next
      case (PxAnswer q resolved)
      then show ?thesis using T none
        by (auto simp: queryAnswered_def Let_def abortQueriesForPeer_def active_def count_eq_zero_iff)
    qed (use T in \<open>auto simp: pxDiscovery_start_def pxDiscovery_stop_def handleDiscoveredPeer_def pxInv_def\<close>)
    then show ?thesis using that pxSystem.exec_inv [OF T(1), of e] by (simp add: stuck_def)
  qed
  have "stuck (runEvents (pxExec opts) evs T)" if "stuck T" for T
    using that step unfolding runEvents_def by (induction evs arbitrary: T) auto
  then show ?thesis using start by (simp add: stuck_def)
qed

section \<open>What reaches the peer store\<close>

definition exchangedIds :: "('pid, 'ma) enrLib \<Rightarrow> 'pid enr list \<Rightarrow> string list" where
  "exchangedIds L es = map (peerIdStr L) (List.map_filter enr_peerId es)"

lemma exchangedIds_simps [simp]:
  "exchangedIds L [] = []"
  "exchangedIds L (e # es) = (case enr_peerId e of None \<Rightarrow> [] | Some p \<Rightarrow> [peerIdStr L p]) @ exchangedIds L es"
  by (simp_all add: exchangedIds_def map_filter_simps split: option.split)

text \<open>What can throw on a record: its addresses, its shard information, or that of the stored peer.\<close>

definition recordThrows :: "'st peerStore \<Rightarrow> ('pid, 'ma) enrLib \<Rightarrow> ('ma \<Rightarrow> string) \<Rightarrow> 'pid enr \<Rightarrow> 'st \<Rightarrow> exn \<Rightarrow> bool" where
  "recordThrows P L showMa e s err \<longleftrightarrow>
     enr_peerInfo L e = Inl err \<or> enr_shardInfo e = Inl err \<or>
     (\<exists>info. enr_shardInfo e = Inr (Some info) \<and> encodeRelayShard info = Inl err) \<or>
     (\<exists>p mas info. enr_peerInfo L e = Inr (Some (p, mas)) \<and> ps_has P s (peerIdStr L p) \<and>
        checkPeerInfoDiff (ps_get P s (peerIdStr L p)) (map showMa mas) info = Inl err)"

lemma shardInfoMetadata_throws: "shardInfoMetadata info = Inl err \<Longrightarrow> \<exists>i. info = Some i \<and> encodeRelayShard i = Inl err"
  by (auto simp: shardInfoMetadata_def rbind_def split: option.splits sum.splits)

text \<open>Of the peer of a record: saved or updated when nothing throws, and at most its addresses changed otherwise.\<close>

definition recordUsed :: "'st peerStore \<Rightarrow> string \<Rightarrow> 'st \<Rightarrow> (string \<times> 'ma list) list \<Rightarrow> 'st \<Rightarrow> (string \<times> 'ma list) list \<Rightarrow> unit res \<Rightarrow> bool" where
  "recordUsed P i s ev s' ev' r \<longleftrightarrow>
     (\<forall>q. q \<noteq> i \<longrightarrow> ps_get P s' q = ps_get P s q) \<and>
     (case r of
        Inl _ \<Rightarrow> ev' = ev \<and> (\<forall>q. ps_has P s' q \<longleftrightarrow> ps_has P s q)
      | Inr _ \<Rightarrow> (\<forall>q. ps_has P s' q \<longleftrightarrow> ps_has P s q \<or> q = i) \<and>
          (\<exists>new. map fst ev' = map fst ev @ new \<and> set new \<subseteq> {i} \<and> (\<not> ps_has P s i \<longrightarrow> new = [i])))"

lemma saveExchangedPeer_used:
  assumes "peerStoreLaws P" "saveExchangedPeer P showMa opts i mas info (s, ev) = ((s', ev'), r)"
  shows "recordUsed P i s ev s' ev' r" and "r = Inl err \<Longrightarrow> shardInfoMetadata info = Inl err"
proof -
  have store: "peer_store P" using assms(1) by (simp add: peerStoreLaws_def)
  show "recordUsed P i s ev s' ev' r" and "r = Inl err \<Longrightarrow> shardInfoMetadata info = Inl err"
    using assms(2) by (auto simp: saveExchangedPeer_def recordUsed_def peer_store.has_save [OF store] peer_store.save_other [OF store]
        split: sum.splits)
qed

lemma updateExchangedPeer_used:
  assumes "peerStoreLaws P" "ps_has P s i" "updateExchangedPeer P showMa i mas info m h (s, ev) = ((s', ev'), r)"
  shows "recordUsed P i s ev s' ev' r" and "r = Inl err \<Longrightarrow> shardInfoMetadata info = Inl err"
proof -
  have store: "peer_store P" using assms(1) by (simp add: peerStoreLaws_def)
  define s1 where "s1 = (if m then ps_patch P i (noUpdate\<lparr>pu_multiaddrs := Some (map showMa mas)\<rparr>) s else s)"
  have s1: "ps_has P s1 q \<longleftrightarrow> ps_has P s q" "q \<noteq> i \<Longrightarrow> ps_get P s1 q = ps_get P s q" for q
    using assms(2) by (simp_all add: s1_def peer_store.has_patch [OF store] peer_store.patch_other [OF store])
  then have s2: "ps_has P (ps_merge P i u s1) q \<longleftrightarrow> ps_has P s q" "q \<noteq> i \<Longrightarrow> ps_get P (ps_merge P i u s1) q = ps_get P s q" for q u
    using assms(2) by (simp_all add: peer_store.has_merge [OF store] peer_store.merge_other [OF store])
  have run: "((s', ev'), r) = (if h \<and> info \<noteq> None
      then (case shardInfoMetadata info of
              Inl e \<Rightarrow> ((s1, ev), Inl e)
            | Inr md \<Rightarrow> ((ps_merge P i (noUpdate\<lparr>pu_metadata := md\<rparr>) s1, ev @ [(i, mas)]), Inr ()))
      else ((s1, ev), Inr ()))"
    using assms(3) unfolding updateExchangedPeer_def Let_def fst_conv snd_conv s1_def [symmetric] by (rule sym)
  show "recordUsed P i s ev s' ev' r" and "r = Inl err \<Longrightarrow> shardInfoMetadata info = Inl err"
    using run s1 s2 assms(2) by (auto simp: recordUsed_def split: if_splits sum.splits)
qed

lemma exchangedPeer_step:
  assumes laws: "peerStoreLaws P" and run: "exchangedPeer P L showMa opts e (s, ev) = ((s', ev'), r)"
  shows "case enr_peerId e of None \<Rightarrow> s' = s \<and> ev' = ev | Some p \<Rightarrow> recordUsed P (peerIdStr L p) s ev s' ev' r"
    and "case r of Inl err \<Rightarrow> recordThrows P L showMa e s' err | Inr _ \<Rightarrow> \<exists>p info. enr_peerInfo L e = Inr p \<and> enr_shardInfo e = Inr info"
proof -
  have unused: "recordUsed P i s ev s ev (Inl err)" for i err by (simp add: recordUsed_def)
  have "(case enr_peerId e of None \<Rightarrow> s' = s \<and> ev' = ev | Some p \<Rightarrow> recordUsed P (peerIdStr L p) s ev s' ev' r) \<and>
      (case r of Inl err \<Rightarrow> recordThrows P L showMa e s' err | Inr _ \<Rightarrow> \<exists>p info. enr_peerInfo L e = Inr p \<and> enr_shardInfo e = Inr info)"
  proof (cases "enr_peerInfo L e")
    case (Inl err)
    then show ?thesis using run unused by (auto simp: exchangedPeer_def recordThrows_def split: option.split)
  next
    case (Inr peerInfo)
    note peerInfo = this
    show ?thesis
    proof (cases "enr_shardInfo e")
      case (Inl err)
      then show ?thesis using run unused peerInfo by (auto simp: exchangedPeer_def recordThrows_def split: option.split)
    next
      case (Inr info)
      show ?thesis
      proof (cases peerInfo)
        case None
        then have "enr_peerId e = None" using peerInfo by (auto simp: enr_peerInfo_def rbind_eq_Inr split: option.splits)
        then show ?thesis using run peerInfo Inr None by (auto simp: exchangedPeer_def)
      next
        case (Some pm)
        then obtain p mas where pm: "peerInfo = Some (p, mas)" by (cases pm) auto
        then have id: "enr_peerId e = Some p" using peerInfo by (auto simp: enr_peerInfo_def rbind_eq_Inr split: option.splits)
        let ?i = "peerIdStr L p"
        have throws: "shardInfoMetadata info = Inl err \<Longrightarrow> recordThrows P L showMa e s' err" for err
          using Inr by (auto simp: recordThrows_def dest: shardInfoMetadata_throws)
        have done1: ?thesis if "recordUsed P ?i s ev s' ev' r" "\<And>err. r = Inl err \<Longrightarrow> shardInfoMetadata info = Inl err"
          using that throws peerInfo Inr id by (auto split: sum.split)
        show ?thesis
        proof (cases "ps_has P s ?i")
          case False
          then have "saveExchangedPeer P showMa opts ?i mas info (s, ev) = ((s', ev'), r)"
            using run peerInfo Inr pm False by (simp add: exchangedPeer_def Let_def)
          from saveExchangedPeer_used [OF laws this] show ?thesis by (rule done1)
        next
          case known: True
          show ?thesis
          proof (cases "checkPeerInfoDiff (ps_get P s ?i) (map showMa mas) info")
            case (Inl err)
            then have "s' = s \<and> ev' = ev \<and> r = Inl err" using run peerInfo \<open>enr_shardInfo e = Inr info\<close> pm known by (simp add: exchangedPeer_def Let_def)
            then show ?thesis using unused id Inl peerInfo pm known by (auto simp: recordThrows_def)
          next
            case diff: (Inr mh)
            obtain m h where mh: "mh = (m, h)" by (cases mh)
            have "(if m \<or> h then updateExchangedPeer P showMa ?i mas info m h (s, ev) else saveExchangedPeer P showMa opts ?i mas info (s, ev)) =
                ((s', ev'), r)"
              using run peerInfo Inr pm known diff mh by (simp add: exchangedPeer_def Let_def)
            then consider "updateExchangedPeer P showMa ?i mas info m h (s, ev) = ((s', ev'), r)"
              | "saveExchangedPeer P showMa opts ?i mas info (s, ev) = ((s', ev'), r)"
              by (cases "m \<or> h") simp_all
            then show ?thesis
            proof cases
              case 1
              from updateExchangedPeer_used [OF laws known this] show ?thesis by (rule done1)
            next
              case 2
              from saveExchangedPeer_used [OF laws this] show ?thesis by (rule done1)
            qed
          qed
        qed
      qed
    qed
  qed
  then show "case enr_peerId e of None \<Rightarrow> s' = s \<and> ev' = ev | Some p \<Rightarrow> recordUsed P (peerIdStr L p) s ev s' ev' r"
    and "case r of Inl err \<Rightarrow> recordThrows P L showMa e s' err | Inr _ \<Rightarrow> \<exists>p info. enr_peerInfo L e = Inr p \<and> enr_shardInfo e = Inr info"
    by simp_all
qed

text \<open>The first \<open>n\<close> records are used, all of them unless the next one throws.\<close>

definition recordsUsed ::
  "'st peerStore \<Rightarrow> ('pid, 'ma) enrLib \<Rightarrow> ('ma \<Rightarrow> string) \<Rightarrow> 'pid enr list \<Rightarrow> nat \<Rightarrow> 'st \<Rightarrow> 'st \<Rightarrow> string list \<Rightarrow> unit res \<Rightarrow> bool" where
  "recordsUsed P L showMa es n s s' new r \<longleftrightarrow>
     (case r of Inr _ \<Rightarrow> n = length es | Inl err \<Rightarrow> n < length es \<and> recordThrows P L showMa (es ! n) s' err) \<and>
     list_all (\<lambda>e. \<exists>p info. enr_peerInfo L e = Inr p \<and> enr_shardInfo e = Inr info) (take n es) \<and>
     (\<forall>q. ps_has P s' q \<longleftrightarrow> ps_has P s q \<or> q \<in> set (exchangedIds L (take n es))) \<and>
     (\<forall>q. q \<in> set (exchangedIds L (take (Suc n) es)) \<or> ps_get P s' q = ps_get P s q) \<and>
     set new \<subseteq> set (exchangedIds L (take n es)) \<and> {q \<in> set (exchangedIds L (take n es)). \<not> ps_has P s q} \<subseteq> set new"

lemma exchangedPeers_run:
  "peerStoreLaws P \<Longrightarrow> exchangedPeers P L showMa opts es (s, ev) = ((s', ev'), r) \<Longrightarrow>
     \<exists>n new. map fst ev' = map fst ev @ new \<and> recordsUsed P L showMa es n s s' new r"
proof (induction es arbitrary: s ev)
  case Nil
  then show ?case by (intro exI [of _ 0] exI [of _ "[]"]) (auto simp: recordsUsed_def)
next
  case (Cons e es)
  obtain s1 ev1 r1 where step: "exchangedPeer P L showMa opts e (s, ev) = ((s1, ev1), r1)" by (metis surj_pair)
  note one = exchangedPeer_step [OF Cons.prems(1) step]
  show ?case
  proof (cases r1)
    case (Inl err)
    then have stop: "s' = s1" "ev' = ev1" "r = Inl err" using Cons.prems(2) step by auto
    then have "map fst ev' = map fst ev @ [] \<and> recordsUsed P L showMa (e # es) 0 s s' [] r"
      using one Inl by (auto simp: recordsUsed_def recordUsed_def split: option.splits)
    then show ?thesis by blast
  next
    case (Inr u)
    then have rest: "exchangedPeers P L showMa opts es (s1, ev1) = ((s', ev'), r)" using Cons.prems(2) step by simp
    obtain n more where more: "map fst ev' = map fst ev1 @ more" and IH: "recordsUsed P L showMa es n s1 s' more r"
      using Cons.IH [OF Cons.prems(1) rest] by blast
    define ids where "ids = (case enr_peerId e of None \<Rightarrow> [] | Some p \<Rightarrow> [peerIdStr L p])"
    have ids: "exchangedIds L (take (Suc k) (e # es)) = ids @ exchangedIds L (take k es)" for k by (simp add: ids_def)
    obtain new where new: "map fst ev1 = map fst ev @ new" "set new \<subseteq> set ids" "{q \<in> set ids. \<not> ps_has P s q} \<subseteq> set new"
      and s1: "\<forall>q. ps_has P s1 q \<longleftrightarrow> ps_has P s q \<or> q \<in> set ids" "\<forall>q. q \<in> set ids \<or> ps_get P s1 q = ps_get P s q"
    proof (cases "enr_peerId e")
      case None
      then show thesis using one(1) that [of "[]"] by (simp add: ids_def)
    next
      case (Some p)
      then obtain new where "map fst ev1 = map fst ev @ new" "set new \<subseteq> {peerIdStr L p}" "\<not> ps_has P s (peerIdStr L p) \<longrightarrow> new = [peerIdStr L p]"
        using one(1) Inr by (auto simp: recordUsed_def)
      then show thesis using one(1) Inr Some by (intro that [of new]) (auto simp: recordUsed_def ids_def)
    qed
    have "recordsUsed P L showMa (e # es) (Suc n) s s' (new @ more) r"
      unfolding recordsUsed_def ids
    proof (intro conjI)
      show "case r of Inl err \<Rightarrow> Suc n < length (e # es) \<and> recordThrows P L showMa ((e # es) ! Suc n) s' err | Inr _ \<Rightarrow> Suc n = length (e # es)"
        using IH by (auto simp: recordsUsed_def split: sum.splits)
      show "list_all (\<lambda>e. \<exists>p info. enr_peerInfo L e = Inr p \<and> enr_shardInfo e = Inr info) (take (Suc n) (e # es))"
        using IH one(2) Inr by (simp add: recordsUsed_def)
      note facts = IH [unfolded recordsUsed_def, THEN conjunct2, THEN conjunct2]
      show "\<forall>q. ps_has P s' q \<longleftrightarrow> ps_has P s q \<or> q \<in> set (ids @ exchangedIds L (take n es))"
        using facts [THEN conjunct1] s1(1) by simp
      show "\<forall>q. q \<in> set (ids @ exchangedIds L (take (Suc n) es)) \<or> ps_get P s' q = ps_get P s q"
        using facts [THEN conjunct2, THEN conjunct1] s1(2) unfolding set_append by (metis UnI1 UnI2)
      show "set (new @ more) \<subseteq> set (ids @ exchangedIds L (take n es))"
        using facts [THEN conjunct2, THEN conjunct2, THEN conjunct1] new(2) by auto
      have "{q \<in> set (exchangedIds L (take n es)). \<not> ps_has P s1 q} \<subseteq> set more"
        using facts [THEN conjunct2, THEN conjunct2, THEN conjunct2] .
      then show "{q \<in> set (ids @ exchangedIds L (take n es)). \<not> ps_has P s q} \<subseteq> set (new @ more)"
        using new(3) s1(1) by auto
    qed
    then show ?thesis using new(1) more by (metis append_assoc)
  qed
qed

text \<open>Every peer that an exchange brings is in the store afterwards, peers it does not mention are left alone, only mentioned peers are
  announced, and all those that were unknown are.\<close>

theorem exchanged_peers_stored:
  "peerStoreLaws P \<Longrightarrow> pxDiscovery_query N P L showMa opts peerId s = ((s', events), Inr (PxPeers enrs)) \<Longrightarrow>
     (\<forall>q. ps_has P s' q \<longleftrightarrow> ps_has P s q \<or> q \<in> set (exchangedIds L enrs)) \<and>
     (\<forall>q. ps_get P s' q = ps_get P s q \<or> q \<in> set (exchangedIds L enrs)) \<and>
     set (map fst events) \<subseteq> set (exchangedIds L enrs) \<and>
     {q \<in> set (exchangedIds L enrs). \<not> ps_has P s q} \<subseteq> set (map fst events)"
proof -
  assume laws: "peerStoreLaws P" and run: "pxDiscovery_query N P L showMa opts peerId s = ((s', events), Inr (PxPeers enrs))"
  then have "exchangedPeers P L showMa opts enrs (s, []) = ((s', events), Inr ())"
    by (auto simp: pxDiscovery_query_def split: sum.splits pxResult.splits prod.splits)
  from exchangedPeers_run [OF laws this] show ?thesis by (auto simp: recordsUsed_def)
qed

definition demoPxNet :: pxNet where
  "demoPxNet = \<lparr>pxn_encode = (\<lambda>_. [1]), pxn_decode = (\<lambda>bs. Inr \<lparr>px_numPeers = None, px_response = Some [None, Some bs]\<rparr>),
     pxn_peer = (\<lambda>_. Inr True), pxn_getStream = (\<lambda>_. Inr ()), pxn_exchange = (\<lambda>_ _. Inr [rlpEncode demoDnsLib demoValues])\<rparr>"

theorem exchanged_peers_stored_witness:
  "\<exists>s' events. pxDiscovery_query demoPxNet mapPeerStore demoDnsLib id pxDefaults ''asked'' [] = ((s', events), Inr (PxPeers [demoPeer])) \<and>
     ps_has mapPeerStore s' ''peer''"
proof -
  have answer: "peerExchange_query demoPxNet demoDnsLib n ''asked'' = Inr (PxPeers [demoPeer])" for n
    by (simp add: peerExchange_query_def demoPxNet_def map_filter_simps fromRLP_def demoDnsLib_simps demoPeer_values)
  have info: "enr_peerInfo demoDnsLib demoPeer = Inr (Some (''peer'', []))" "enr_shardInfo demoPeer = Inr None"
    by (simp_all add: enr_peerInfo_def getAllLocationMultiaddrs_def locationOfVersion_def get_multiaddrs_def enr_get_def demoPeer_def jm_get_def
        enr_shardInfo_def enr_rs_def enr_rsv_def)
  then obtain s' events where run: "pxDiscovery_query demoPxNet mapPeerStore demoDnsLib id pxDefaults ''asked'' [] = ((s', events), Inr (PxPeers [demoPeer]))"
    by (simp add: pxDiscovery_query_def answer exchangedPeer_def saveExchangedPeer_def shardInfoMetadata_def mapPeerStore_def jm_has_def jm_get_def Let_def)
  have "''peer'' \<in> set (exchangedIds demoDnsLib [demoPeer])" by (simp add: demoPeer_def demoDnsLib_def demoEnrLib_def)
  then have "ps_has mapPeerStore s' ''peer''" using exchanged_peers_stored [OF mapPeerStore_laws run] by blast
  then show ?thesis using run by blast
qed

text \<open>A query that is rejected half way keeps what it stored: the second record has a field for its shards that is too short.\<close>

theorem rejected_exchange_keeps_peers:
  "case exchangedPeers mapPeerStore demoDnsLib id pxDefaults
      [demoPeer, demoPeer\<lparr>enr_kvs := [(''rs'', [])], enr_peerId := Some ''other''\<rparr>] ([], []) of
     ((s, events), r) \<Rightarrow> r = Inl (Error ''Insufficient data'') \<and> ps_has mapPeerStore s ''peer'' \<and> \<not> ps_has mapPeerStore s ''other'' \<and>
       map fst events = [''peer'']"
  by (simp add: exchangedPeer_def enr_peerInfo_def getAllLocationMultiaddrs_def locationOfVersion_def get_multiaddrs_def enr_get_def
      demoPeer_def jm_get_def jm_set_def jm_has_def enr_shardInfo_def enr_rs_def enr_rsv_def decodeRelayShard_def saveExchangedPeer_def shardInfoMetadata_def
      mapPeerStore_def demoDnsLib_def demoEnrLib_def Let_def)

end
