(* ===== verification/Waku.thy ===== *)
theory Waku
  imports HealthIndicator JsMap
begin

text \<open>
  \<open>packages/sdk/src/waku\<close>: which protocols a node mounts, the codecs it dials with (\<open>waku.ts\<close>), and the wait for remote peers
  (\<open>wait\_for\_remote\_peer.ts\<close>). A promise is the time at which it resolves, or \<open>None\<close>; a rejection by the timer that falls
  on the very time of another event comes first.
\<close>

section \<open>waku.ts\<close>

datatype waku_protocol = RelayProto | StoreProto | LightPushProto | FilterProto

definition StoreCodec :: string where "StoreCodec = ''/vac/waku/store-query/3.0.0''"

text \<open>Which components the constructor makes: the relay is given, the others are enabled, and an absent flag is \<open>false\<close>.\<close>

record protocolsEnabled =
  pe_filter :: "bool option"
  pe_lightpush :: "bool option"
  pe_store :: "bool option"

record wakuNode =
  wn_relay :: "string list option"
  wn_store :: bool
  wn_lightPush :: bool
  wn_filter :: bool

definition newWakuNode :: "protocolsEnabled \<Rightarrow> string list option \<Rightarrow> wakuNode" where
  "newWakuNode enabled relayCodecs =
     \<lparr>wn_relay = relayCodecs, wn_store = nullish (pe_store enabled) False, wn_lightPush = nullish (pe_lightpush enabled) False,
      wn_filter = nullish (pe_filter enabled) False\<rparr>"

fun mounted :: "wakuNode \<Rightarrow> waku_protocol \<Rightarrow> bool" where
  "mounted W RelayProto = (wn_relay W \<noteq> None)"
| "mounted W StoreProto = wn_store W"
| "mounted W LightPushProto = wn_lightPush W"
| "mounted W FilterProto = wn_filter W"

definition dialProtocols :: "wakuNode \<Rightarrow> waku_protocol list option \<Rightarrow> waku_protocol list" where
  "dialProtocols W protocols =
     (case protocols of Some ps \<Rightarrow> ps | None \<Rightarrow> filter (mounted W) [RelayProto, StoreProto, FilterProto, LightPushProto])"

definition dialCodecs :: "wakuNode \<Rightarrow> waku_protocol list option \<Rightarrow> string list" where
  "dialCodecs W protocols =
     (let ps = dialProtocols W protocols
      in (if RelayProto \<in> set ps then nullish (wn_relay W) [] else []) @
         (if StoreProto \<in> set ps \<and> wn_store W then [StoreCodec] else []) @
         (if LightPushProto \<in> set ps \<and> wn_lightPush W then [LightPushCodec] else []) @
         (if FilterProto \<in> set ps \<and> wn_filter W then [FilterSubscribeCodec] else []))"

section \<open>wait\_for\_remote\_peer.ts\<close>

definition getEnabledProtocols :: "wakuNode \<Rightarrow> waku_protocol list" where
  "getEnabledProtocols W = filter (mounted W) [RelayProto, FilterProto, StoreProto, LightPushProto]"

text \<open>An event \<open>peer:identify\<close>: its time, the protocols of the peer, and when the handshake that the listener awaits resolves.\<close>

record identifyEvent =
  ie_at :: nat
  ie_protocols :: "string list option"
  ie_confirmedAt :: "nat option"

record remoteEnv =
  re_started :: bool
  re_connections :: nat
  re_connectedPeers :: "string list"
  re_hasMetadata :: bool
  re_relayReadyAt :: "nat option"
  re_identify :: "identifyEvent list"
  re_peerProtocols :: "string \<Rightarrow> string list res"
  re_handshake :: "string \<Rightarrow> bool res"
  re_metadataDoneAt :: "nat option"

text \<open>\<open>Promise.any\<close> and \<open>Promise.all\<close> of promises that do not reject.\<close>

definition promiseAny :: "nat option list \<Rightarrow> nat option" where
  "promiseAny ps = (case List.map_filter id ps of [] \<Rightarrow> None | t # ts \<Rightarrow> Some (fold min ts t))"

definition promiseAll :: "nat option list \<Rightarrow> nat option" where
  "promiseAll ps = (if None \<in> set ps then None else Some (fold max (List.map_filter id ps) 0))"

definition waitForConnectedPeer :: "string \<Rightarrow> remoteEnv \<Rightarrow> nat option" where
  "waitForConnectedPeer wanted R =
     promiseAny
       (map (\<lambda>e. if wanted \<notin> set (nullish (ie_protocols e) []) then None
                 else if \<not> re_hasMetadata R then Some (ie_at e) else ie_confirmedAt e)
         (re_identify R))"

definition waitForProtocols :: "wakuNode \<Rightarrow> remoteEnv \<Rightarrow> waku_protocol list \<Rightarrow> nat option" where
  "waitForProtocols W R protocols =
     promiseAll
       ((if mounted W RelayProto \<and> RelayProto \<in> set protocols then [re_relayReadyAt R] else []) @
        (if mounted W StoreProto \<and> StoreProto \<in> set protocols then [waitForConnectedPeer StoreCodec R] else []) @
        (if mounted W LightPushProto \<and> LightPushProto \<in> set protocols then [waitForConnectedPeer LightPushCodec R] else []) @
        (if mounted W FilterProto \<and> FilterProto \<in> set protocols then [waitForConnectedPeer FilterSubscribeCodec R] else []))"

fun protocolToCodec :: "waku_protocol \<Rightarrow> string option" where
  "protocolToCodec FilterProto = Some FilterSubscribeCodec"
| "protocolToCodec LightPushProto = Some LightPushCodec"
| "protocolToCodec StoreProto = Some StoreCodec"
| "protocolToCodec RelayProto = None"

definition mapProtocolsToCodecs :: "waku_protocol list \<Rightarrow> (string, bool) jsmap" where
  "mapProtocolsToCodecs protocols =
     fold (\<lambda>p codecs. case protocolToCodec p of None \<Rightarrow> codecs | Some c \<Rightarrow> jm_set c False codecs) protocols []"

text \<open>The loop over the connected peers; a handshake with an error is \<open>Inr False\<close>. The result has the codecs that are confirmed.\<close>

fun waitForMetadata_loop :: "remoteEnv \<Rightarrow> string list \<Rightarrow> (string, bool) jsmap \<Rightarrow> (string, bool) jsmap" where
  "waitForMetadata_loop R [] enabledCodes = enabledCodes"
| "waitForMetadata_loop R (p # ps) enabledCodes =
     (case re_peerProtocols R p of
        Inl _ \<Rightarrow> waitForMetadata_loop R ps enabledCodes
      | Inr protocols \<Rightarrow>
          if list_ex (jm_has enabledCodes) protocols \<and> re_handshake R p = Inr True
          then (let codes = fold (\<lambda>c m. if jm_has m c then jm_set c True m else m) protocols enabledCodes
                in if list_all snd codes then codes else waitForMetadata_loop R ps codes)
          else waitForMetadata_loop R ps enabledCodes)"

text \<open>The function returns nothing: it resolves when its loop is done, whatever it has confirmed.\<close>

definition waitForMetadata :: "remoteEnv \<Rightarrow> waku_protocol list \<Rightarrow> (string, bool) jsmap \<times> nat option" where
  "waitForMetadata R protocols =
     (if re_connectedPeers R = [] \<or> \<not> re_hasMetadata R then (mapProtocolsToCodecs protocols, Some 0)
      else (waitForMetadata_loop R (re_connectedPeers R) (mapProtocolsToCodecs protocols), re_metadataDoneAt R))"

fun notMounted :: "waku_protocol \<Rightarrow> exn" where
  "notMounted RelayProto = Error ''Cannot wait for Relay peer: protocol not mounted''"
| "notMounted LightPushProto = Error ''Cannot wait for LightPush peer: protocol not mounted''"
| "notMounted StoreProto = Error ''Cannot wait for Store peer: protocol not mounted''"
| "notMounted FilterProto = Error ''Cannot wait for Filter peer: protocol not mounted''"

datatype waitOutcome = Thrown exn | ResolvedAt nat | TimedOutAt nat | Waiting

definition rejectOnTimeout :: "nat option \<Rightarrow> nat option \<Rightarrow> waitOutcome" where
  "rejectOnTimeout promise timeoutMs =
     (case (if timeoutMs = Some 0 then None else timeoutMs) of
        None \<Rightarrow> (case promise of Some t \<Rightarrow> ResolvedAt t | None \<Rightarrow> Waiting)
      | Some ms \<Rightarrow> (case promise of Some t \<Rightarrow> if t < ms then ResolvedAt t else TimedOutAt ms | None \<Rightarrow> TimedOutAt ms))"

definition waitedProtocols :: "wakuNode \<Rightarrow> waku_protocol list option \<Rightarrow> waku_protocol list" where
  "waitedProtocols W protocols = (if nullish protocols [] = [] then getEnabledProtocols W else nullish protocols [])"

definition waitForRemotePeer :: "wakuNode \<Rightarrow> remoteEnv \<Rightarrow> waku_protocol list option \<Rightarrow> nat option \<Rightarrow> waitOutcome" where
  "waitForRemotePeer W R protocols timeoutMs =
     (let ps = waitedProtocols W protocols
      in if \<not> re_started R then Thrown (Error ''Waku node is not started'')
         else case find (\<lambda>p. \<not> mounted W p) ps of
                Some p \<Rightarrow> Thrown (notMounted p)
              | None \<Rightarrow>
                  rejectOnTimeout
                    (promiseAny (waitForProtocols W R ps #
                       (if re_connections R > 0 \<and> RelayProto \<notin> set ps then [snd (waitForMetadata R ps)] else [])))
                    timeoutMs)"

section \<open>Lemmas\<close>

text \<open>
  The specification. A peer for a protocol is there once the relay has its mesh, or a peer with the codec of the protocol was identified and,
  on a node with a metadata service, its handshake resolved.
\<close>

inductive peerThere :: "remoteEnv \<Rightarrow> waku_protocol \<Rightarrow> nat \<Rightarrow> bool" for R where
  relay: "re_relayReadyAt R = Some t \<Longrightarrow> peerThere R RelayProto t"
| identified: "protocolToCodec p = Some c \<Longrightarrow> e \<in> set (re_identify R) \<Longrightarrow> ie_protocols e = Some cs \<Longrightarrow> c \<in> set cs \<Longrightarrow>
    \<not> re_hasMetadata R \<Longrightarrow> peerThere R p (ie_at e)"
| confirmed: "protocolToCodec p = Some c \<Longrightarrow> e \<in> set (re_identify R) \<Longrightarrow> ie_protocols e = Some cs \<Longrightarrow> c \<in> set cs \<Longrightarrow>
    re_hasMetadata R \<Longrightarrow> ie_confirmedAt e = Some t \<Longrightarrow> peerThere R p t"

inductive_simps peerThere_relay: "peerThere R RelayProto t"
inductive_simps peerThere_any: "peerThere R p t"

text \<open>All of the protocols have a peer by a time, and that time is the first.\<close>

definition allReadyBy :: "remoteEnv \<Rightarrow> waku_protocol list \<Rightarrow> nat \<Rightarrow> bool" where
  "allReadyBy R ps t \<longleftrightarrow> (\<forall>p \<in> set ps. \<exists>u \<le> t. peerThere R p u)"

definition allReadyAt :: "remoteEnv \<Rightarrow> waku_protocol list \<Rightarrow> nat \<Rightarrow> bool" where
  "allReadyAt R ps t \<longleftrightarrow> allReadyBy R ps t \<and> (\<forall>s < t. \<not> allReadyBy R ps s)"

text \<open>The promises that \<open>waitForProtocols\<close> waits for.\<close>

fun promiseFor :: "remoteEnv \<Rightarrow> waku_protocol \<Rightarrow> nat option" where
  "promiseFor R RelayProto = re_relayReadyAt R"
| "promiseFor R StoreProto = waitForConnectedPeer StoreCodec R"
| "promiseFor R LightPushProto = waitForConnectedPeer LightPushCodec R"
| "promiseFor R FilterProto = waitForConnectedPeer FilterSubscribeCodec R"

lemma fold_min: "fold min xs (m :: nat) \<le> m \<and> (\<forall>x \<in> set xs. fold min xs m \<le> x) \<and> (fold min xs m = m \<or> fold min xs m \<in> set xs)"
proof (induction xs arbitrary: m)
  case (Cons x xs)
  show ?case using Cons.IH [of "min x m"] by (auto simp: min_def split: if_splits)
qed simp

lemma promiseAny_cases: "case promiseAny ps of None \<Rightarrow> \<forall>u. Some u \<notin> set ps | Some t \<Rightarrow> Some t \<in> set ps \<and> (\<forall>u. Some u \<in> set ps \<longrightarrow> t \<le> u)"
proof -
  have mem: "x \<in> set (List.map_filter id ps) \<longleftrightarrow> Some x \<in> set ps" for x
    by (induction ps) (auto simp: map_filter_simps split: option.splits)
  show ?thesis
  proof (cases "List.map_filter id ps")
    case Nil
    then have "Some u \<notin> set ps" for u using mem [of u] by simp
    then show ?thesis using Nil by (simp add: promiseAny_def)
  next
    case (Cons t ts)
    have "Some u \<in> set ps \<longleftrightarrow> u = t \<or> u \<in> set ts" for u using mem [of u] Cons by auto
    then show ?thesis using fold_min [of ts t] Cons by (auto simp: promiseAny_def)
  qed
qed

lemma promiseFor_cases:
  "case promiseFor R p of None \<Rightarrow> \<forall>u. \<not> peerThere R p u | Some t \<Rightarrow> peerThere R p t \<and> (\<forall>u. peerThere R p u \<longrightarrow> t \<le> u)"
proof (cases "protocolToCodec p")
  case None
  then have "p = RelayProto" by (cases p) simp_all
  then show ?thesis by (auto simp: peerThere_relay split: option.split)
next
  case (Some c)
  define ps where "ps = map (\<lambda>e. if c \<notin> set (nullish (ie_protocols e) []) then None
      else if \<not> re_hasMetadata R then Some (ie_at e) else ie_confirmedAt e) (re_identify R)"
  have there: "Some u \<in> set ps \<longleftrightarrow> peerThere R p u" for u
  proof
    assume "Some u \<in> set ps"
    then obtain e where e: "e \<in> set (re_identify R)" "c \<in> set (nullish (ie_protocols e) [])"
        "if re_hasMetadata R then ie_confirmedAt e = Some u else u = ie_at e"
      by (auto simp: ps_def split: if_splits)
    moreover obtain cs where "ie_protocols e = Some cs" "c \<in> set cs" using e(2) by (cases "ie_protocols e") auto
    ultimately show "peerThere R p u" using Some by (auto intro: peerThere.identified peerThere.confirmed split: if_splits)
  next
    assume "peerThere R p u"
    then show "Some u \<in> set ps" using Some by (cases rule: peerThere.cases) (force simp: ps_def)+
  qed
  have "promiseFor R p = promiseAny ps" using Some by (cases p) (simp_all add: waitForConnectedPeer_def ps_def)
  then show ?thesis using promiseAny_cases [of ps] by (simp only: there)
qed

lemma promiseFor_by: "(\<exists>u \<le> t. peerThere R p u) \<longleftrightarrow> (\<exists>u \<le> t. promiseFor R p = Some u)"
proof (cases "promiseFor R p")
  case None
  then show ?thesis using promiseFor_cases [of R p] by simp
next
  case (Some u)
  then show ?thesis using promiseFor_cases [of R p] by (auto intro: le_trans)
qed

lemma fold_max: "(m :: nat) \<le> fold max xs m \<and> (\<forall>x \<in> set xs. x \<le> fold max xs m) \<and> (fold max xs m = m \<or> fold max xs m \<in> set xs)"
proof (induction xs arbitrary: m)
  case (Cons x xs)
  show ?case using Cons.IH [of "max x m"] by (auto simp: max_def split: if_splits)
qed simp

lemma promiseAll_iff: "promiseAll ps = Some t \<longleftrightarrow> (\<forall>p \<in> set ps. \<exists>u \<le> t. p = Some u) \<and> (t = 0 \<or> Some t \<in> set ps)"
proof -
  have mem: "x \<in> set (List.map_filter id ps) \<longleftrightarrow> Some x \<in> set ps" for x
    by (induction ps) (auto simp: map_filter_simps split: option.splits)
  show ?thesis
  proof (cases "None \<in> set ps")
    case True
    then show ?thesis by (auto simp: promiseAll_def)
  next
    case False
    define m where "m = fold max (List.map_filter id ps) 0"
    have m: "\<forall>x. Some x \<in> set ps \<longrightarrow> x \<le> m" "m = 0 \<or> Some m \<in> set ps"
      using fold_max [of 0 "List.map_filter id ps"] by (auto simp: m_def [symmetric] mem)
    have "\<forall>p \<in> set ps. \<exists>u. p = Some u" using False by (metis option.exhaust)
    then have "(\<forall>p \<in> set ps. \<exists>u \<le> t. p = Some u) \<and> (t = 0 \<or> Some t \<in> set ps) \<longleftrightarrow> t = m"
      using m by (auto, (metis le_antisym le_zero_eq option.inject)+)
    then show ?thesis using False by (auto simp: promiseAll_def m_def)
  qed
qed

lemma waitForProtocols_iff:
  assumes "list_all (mounted W) ps"
  shows "waitForProtocols W R ps = Some t \<longleftrightarrow> allReadyAt R ps t"
proof -
  define qs where "qs = filter (\<lambda>p. mounted W p \<and> p \<in> set ps) [RelayProto, StoreProto, LightPushProto, FilterProto]"
  have run: "waitForProtocols W R ps = promiseAll (map (promiseFor R) qs)"
    unfolding waitForProtocols_def qs_def by simp
  have qs: "set qs = set ps"
  proof -
    have "p \<in> set [RelayProto, StoreProto, LightPushProto, FilterProto]" for p by (cases p) simp_all
    then have "set [RelayProto, StoreProto, LightPushProto, FilterProto] = UNIV" by blast
    then have "set qs = {p. mounted W p \<and> p \<in> set ps}" unfolding qs_def set_filter by simp
    then show ?thesis using assms by (auto simp: list_all_iff)
  qed
  have ready: "allReadyBy R ps t \<longleftrightarrow> (\<forall>p \<in> set ps. \<exists>u \<le> t. promiseFor R p = Some u)" for t
    by (simp add: allReadyBy_def promiseFor_by)
  have "(t = 0 \<or> (\<exists>p \<in> set ps. promiseFor R p = Some t)) \<longleftrightarrow> (\<forall>s < t. \<not> allReadyBy R ps s)" if reached: "allReadyBy R ps t"
  proof
    assume "t = 0 \<or> (\<exists>p \<in> set ps. promiseFor R p = Some t)"
    then show "\<forall>s < t. \<not> allReadyBy R ps s" by (fastforce simp: ready)
  next
    assume first: "\<forall>s < t. \<not> allReadyBy R ps s"
    show "t = 0 \<or> (\<exists>p \<in> set ps. promiseFor R p = Some t)"
    proof (cases t)
      case (Suc s)
      then obtain p where p: "p \<in> set ps" "\<forall>u \<le> s. promiseFor R p \<noteq> Some u" using first by (auto simp: ready)
      then obtain u where "u \<le> t" "promiseFor R p = Some u" using reached by (auto simp: ready)
      then have "u = t" using p(2) Suc by (metis le_Suc_eq)
      then show ?thesis using p(1) \<open>promiseFor R p = Some u\<close> by blast
    qed simp
  qed
  moreover have "Some t \<in> promiseFor R ` set ps \<longleftrightarrow> (\<exists>p \<in> set ps. promiseFor R p = Some t)" by force
  ultimately show ?thesis by (simp add: run qs promiseAll_iff allReadyAt_def) (auto simp: ready)
qed

lemma ready_first: "allReadyBy R ps t \<Longrightarrow> \<exists>s \<le> t. allReadyAt R ps s"
  unfolding allReadyAt_def by (metis LeastI Least_le not_less_Least)

lemma promiseAny_single [simp]: "promiseAny [p] = p"
  by (cases p) (simp_all add: promiseAny_def map_filter_simps)

section \<open>Properties\<close>


definition demoWakuNode :: wakuNode where
  "demoWakuNode = newWakuNode \<lparr>pe_filter = None, pe_lightpush = Some True, pe_store = Some True\<rparr> None"

definition demoRemote :: remoteEnv where
  "demoRemote =
     \<lparr>re_started = True, re_connections = 0, re_connectedPeers = [], re_hasMetadata = True, re_relayReadyAt = None,
      re_identify = [\<lparr>ie_at = 1, ie_protocols = Some [StoreCodec], ie_confirmedAt = Some 3\<rparr>,
                     \<lparr>ie_at = 2, ie_protocols = Some [LightPushCodec], ie_confirmedAt = Some 5\<rparr>],
      re_peerProtocols = (\<lambda>_. Inr []), re_handshake = (\<lambda>_. Inr True), re_metadataDoneAt = None\<rparr>"


text \<open>
  With a connection, and without the relay, the promise of \<open>waitForMetadata\<close> resolves as soon as its loop over the connected peers is
  done, whether or not a peer supports a protocol or a handshake succeeds; so does the whole call, before any remote peer is there.
\<close>

theorem resolves_without_remote_peer:
  "re_started R \<Longrightarrow> list_all (mounted W) ps \<Longrightarrow> ps \<noteq> [] \<Longrightarrow> RelayProto \<notin> set ps \<Longrightarrow> 0 < re_connections R \<Longrightarrow>
   re_metadataDoneAt R = Some t \<Longrightarrow> \<exists>u \<le> t. waitForRemotePeer W R (Some ps) None = ResolvedAt u"
proof -
  assume started: "re_started R" and all: "list_all (mounted W) ps" and ps: "ps \<noteq> []" "RelayProto \<notin> set ps"
    and conns: "0 < re_connections R" and finished: "re_metadataDoneAt R = Some t"
  obtain v where v: "snd (waitForMetadata R ps) = Some v" "v \<le> t"
    by (cases "re_connectedPeers R = [] \<or> \<not> re_hasMetadata R") (auto simp: waitForMetadata_def finished)
  have "find (\<lambda>p. \<not> mounted W p) ps = None" using all by (simp add: find_None_iff list_all_iff)
  then have run: "waitForRemotePeer W R (Some ps) None = rejectOnTimeout (promiseAny [waitForProtocols W R ps, Some v]) None"
    using started ps conns v by (simp add: waitForRemotePeer_def waitedProtocols_def Let_def)
  show ?thesis
    using v(2) unfolding run
    by (cases "waitForProtocols W R ps") (auto simp: promiseAny_def map_filter_simps rejectOnTimeout_def intro: exI [of _ v])
qed

text \<open>The codecs of a dial are those of the requested protocols that are mounted, and of all mounted ones by default.\<close>

theorem dial_codecs_mounted:
  "c \<in> set (dialCodecs W protocols) \<longleftrightarrow>
     (\<exists>p. (case protocols of None \<Rightarrow> mounted W p | Some ps \<Rightarrow> p \<in> set ps \<and> mounted W p) \<and>
          (case protocolToCodec p of Some d \<Rightarrow> c = d | None \<Rightarrow> c \<in> set (nullish (wn_relay W) [])))"
proof -
  have ex: "(\<exists>p. P p) \<longleftrightarrow> P RelayProto \<or> P StoreProto \<or> P LightPushProto \<or> P FilterProto" for P
    by (metis waku_protocol.exhaust)
  show ?thesis
    unfolding ex by (cases protocols; cases "wn_relay W") (auto simp: dialCodecs_def dialProtocols_def Let_def)
qed

end
