(* ===== verification/Protobuf.thy ===== *)
theory Protobuf
  imports JsBytes
begin

text \<open>
  The protobuf runtime that the code generated under \<open>packages/proto/src/generated\<close> calls: a package outside the repository. The
  record \<open>pbRuntime\<close> holds the operations of its writer and its reader, and the locale \<open>pb_runtime\<close> states what they document: the
  writer appends the encoding of a value to the innermost open buffer, and the reader reads back what the writer wrote. The shapes that
  every generated codec shares, a field to write, the loop over the fields and a nested message, are functions of their own. The locale
  \<open>message_codec\<close> proves once, for any message type, that decoding gives back what was encoded and that decoding ends.
\<close>

section \<open>The runtime\<close>

text \<open>The reader: its buffer and its position. \<open>reader.len\<close> is the length of the buffer.\<close>

record pbReader =
  rd_buf :: bytes
  rd_pos :: nat

text \<open>
  \<open>rt_encodeMessage\<close> is \<open>encodeMessage(obj, codec)\<close>, with the encoder of the codec already applied to \<open>obj\<close>; its argument is the option
  \<open>lengthDelimited\<close>. \<open>rt_createReader\<close> is the reader that \<open>decodeMessage\<close> gives to the codec. An enumeration is written as the number
  of its member; the list of numbers is the one the code passes to \<open>enumeration\<close>.
\<close>

record 'w pbRuntime =
  rt_wUint32 :: "int \<Rightarrow> 'w \<Rightarrow> 'w"
  rt_wInt32 :: "int \<Rightarrow> 'w \<Rightarrow> 'w"
  rt_wUint64 :: "int \<Rightarrow> 'w \<Rightarrow> 'w"
  rt_wSint64 :: "int \<Rightarrow> 'w \<Rightarrow> 'w"
  rt_wBool :: "bool \<Rightarrow> 'w \<Rightarrow> 'w"
  rt_wBytes :: "bytes \<Rightarrow> 'w \<Rightarrow> 'w"
  rt_wString :: "string \<Rightarrow> 'w \<Rightarrow> 'w"
  rt_wEnum :: "int list \<Rightarrow> int \<Rightarrow> 'w \<Rightarrow> 'w"
  rt_fork :: "'w \<Rightarrow> 'w"
  rt_ldelim :: "'w \<Rightarrow> 'w"
  rt_encodeMessage :: "(bool \<Rightarrow> 'w \<Rightarrow> 'w) \<Rightarrow> bytes"
  rt_uint32 :: "pbReader \<Rightarrow> (32 word \<times> pbReader) res"
  rt_int32 :: "pbReader \<Rightarrow> (int \<times> pbReader) res"
  rt_uint64 :: "pbReader \<Rightarrow> (int \<times> pbReader) res"
  rt_sint64 :: "pbReader \<Rightarrow> (int \<times> pbReader) res"
  rt_bool :: "pbReader \<Rightarrow> (bool \<times> pbReader) res"
  rt_bytes :: "pbReader \<Rightarrow> (bytes \<times> pbReader) res"
  rt_string :: "pbReader \<Rightarrow> (string \<times> pbReader) res"
  rt_enum :: "int list \<Rightarrow> pbReader \<Rightarrow> (int \<times> pbReader) res"
  rt_skipType :: "32 word \<Rightarrow> pbReader \<Rightarrow> pbReader res"
  rt_createReader :: "bytes \<Rightarrow> pbReader"

section \<open>What the generated codecs share\<close>

text \<open>\<open>opts.limits\<close>: the maximal number of elements of a repeated field, or the limits of a nested message.\<close>

datatype pbLimits = Limit nat | Limits "(string \<times> pbLimits) list"

definition limitOf :: "pbLimits option \<Rightarrow> string \<Rightarrow> pbLimits option" where
  "limitOf lim name = (case lim of Some (Limits ls) \<Rightarrow> map_of ls name | _ \<Rightarrow> None)"

text \<open>\<open>opts.limits?.name != null && obj.name.length === opts.limits.name\<close>\<close>

definition limitReached :: "pbLimits option \<Rightarrow> string \<Rightarrow> 'a list \<Rightarrow> bool" where
  "limitReached lim name xs \<longleftrightarrow> limitOf lim name = Some (Limit (length xs))"

definition MaxLengthError :: "string \<Rightarrow> exn" where
  "MaxLengthError name = Error (''Decode error - map field \"'' @ name @ ''\" had too many elements'')"

text \<open>The writes of an encoder: a field under a condition, an optional field, each element of a repeated field.\<close>

definition writeField :: "'w pbRuntime \<Rightarrow> bool \<Rightarrow> int \<Rightarrow> ('w \<Rightarrow> 'w) \<Rightarrow> 'w \<Rightarrow> 'w" where
  "writeField RT c tag put w = (if c then put (rt_wUint32 RT tag w) else w)"

definition writeOpt :: "'w pbRuntime \<Rightarrow> int \<Rightarrow> ('v \<Rightarrow> 'w \<Rightarrow> 'w) \<Rightarrow> 'v option \<Rightarrow> 'w \<Rightarrow> 'w" where
  "writeOpt RT tag put v w = (case v of None \<Rightarrow> w | Some x \<Rightarrow> put x (rt_wUint32 RT tag w))"

definition writeEach :: "'w pbRuntime \<Rightarrow> int \<Rightarrow> ('v \<Rightarrow> 'w \<Rightarrow> 'w) \<Rightarrow> 'v list \<Rightarrow> 'w \<Rightarrow> 'w" where
  "writeEach RT tag put vs w = fold (\<lambda>v w. put v (rt_wUint32 RT tag w)) vs w"

text \<open>The writes in their order, between \<open>fork\<close> and \<open>ldelim\<close> unless the message is at the top.\<close>

definition delimited :: "'w pbRuntime \<Rightarrow> bool \<Rightarrow> ('w \<Rightarrow> 'w) list \<Rightarrow> 'w \<Rightarrow> 'w" where
  "delimited RT lengthDelimited writes w =
     (if lengthDelimited then rt_ldelim RT (fold (\<lambda>f. f) writes (rt_fork RT w)) else fold (\<lambda>f. f) writes w)"

text \<open>
  \<open>while (reader.pos < end)\<close>: read a tag and the field it announces. \<open>None\<close> is a loop that does not end. \<open>field\<close> is the \<open>switch\<close> of the
  message type.
\<close>

type_synonym 'o pbField = "32 word \<Rightarrow> 'o \<Rightarrow> pbReader \<Rightarrow> ('o \<times> pbReader) res option"

partial_function (option) decodeFields ::
  "'w pbRuntime \<Rightarrow> 'o pbField \<Rightarrow> nat \<Rightarrow> pbReader \<Rightarrow> 'o \<Rightarrow> ('o \<times> pbReader) res option" where
  "decodeFields RT field stop r obj =
     (if rd_pos r < stop
      then (case rt_uint32 RT r of
              Inl e \<Rightarrow> Some (Inl e)
            | Inr (tag, r1) \<Rightarrow>
                (case field tag obj r1 of
                   None \<Rightarrow> None
                 | Some res \<Rightarrow>
                     (case res of Inl e \<Rightarrow> Some (Inl e) | Inr (obj', r2) \<Rightarrow> decodeFields RT field stop r2 obj')))
      else Some (Inr (obj, r)))"

text \<open>What every field keeps holds of the decoded object.\<close>

lemma decodeFields_keeps:
  assumes keeps: "\<And>tag o1 r1 o2 r2. P o1 \<Longrightarrow> field tag o1 r1 = Some (Inr (o2, r2)) \<Longrightarrow> P o2"
    and result: "decodeFields RT field stop r obj = Some (Inr (obj', r'))" and start: "P obj"
  shows "P obj'"
proof -
  have "field' = field \<longrightarrow> P obj \<longrightarrow> (\<forall>obj' r'. res = Inr (obj', r') \<longrightarrow> P obj')"
    if "decodeFields RT field' stop r obj = Some res" for RT :: "'b pbRuntime" and field' stop r obj res
    using that
  proof (rule decodeFields.raw_induct [rotated])
    fix rec :: "'b pbRuntime \<Rightarrow> 'a pbField \<Rightarrow> nat \<Rightarrow> pbReader \<Rightarrow> 'a \<Rightarrow> ('a \<times> pbReader) res option" and RT field' stop r obj res
    assume IH: "\<And>RT field' stop r obj res. rec RT field' stop r obj = Some res \<Longrightarrow>
        field' = field \<longrightarrow> P obj \<longrightarrow> (\<forall>obj' r'. res = Inr (obj', r') \<longrightarrow> P obj')"
      and body: "(if rd_pos r < stop
            then (case rt_uint32 RT r of
                    Inl e \<Rightarrow> Some (Inl e)
                  | Inr (tag, r1) \<Rightarrow>
                      (case field' tag obj r1 of
                         None \<Rightarrow> None
                       | Some res \<Rightarrow> (case res of Inl e \<Rightarrow> Some (Inl e) | Inr (obj', r2) \<Rightarrow> rec RT field' stop r2 obj')))
            else Some (Inr (obj, r))) = Some res"
    from body have "(\<exists>e. res = Inl e) \<or> res = Inr (obj, r) \<or>
        (\<exists>tag r1 o2 r2. field' tag obj r1 = Some (Inr (o2, r2)) \<and> rec RT field' stop r2 o2 = Some res)"
      by (simp split: if_splits sum.splits prod.splits option.splits) blast+
    then show "field' = field \<longrightarrow> P obj \<longrightarrow> (\<forall>obj' r'. res = Inr (obj', r') \<longrightarrow> P obj')"
    proof (elim disjE exE conjE)
      fix tag r1 o2 r2
      assume one: "field' tag obj r1 = Some (Inr (o2, r2))" and rest: "rec RT field' stop r2 o2 = Some res"
      show ?thesis
      proof (intro impI)
        assume f: "field' = field" and P: "P obj"
        from keeps [OF P] one f have "P o2" by blast
        with IH [OF rest] f show "\<forall>obj' r'. res = Inr (obj', r') \<longrightarrow> P obj'" by blast
      qed
    qed simp_all
  qed
  then show ?thesis using result start by blast
qed

definition decodeFrom ::
  "'w pbRuntime \<Rightarrow> 'o pbField \<Rightarrow> 'o \<Rightarrow> nat option \<Rightarrow> pbReader \<Rightarrow> ('o \<times> pbReader) res option" where
  "decodeFrom RT field initial len r =
     decodeFields RT field (case len of None \<Rightarrow> length (rd_buf r) | Some n \<Rightarrow> rd_pos r + n) r initial"

text \<open>\<open>tag >>> 3\<close>\<close>

definition fieldNumber :: "32 word \<Rightarrow> int" where
  "fieldNumber tag = uint (drop_bit 3 tag)"

definition readValue :: "(pbReader \<Rightarrow> ('v \<times> pbReader) res) \<Rightarrow> ('v \<Rightarrow> 'o) \<Rightarrow> pbReader \<Rightarrow> ('o \<times> pbReader) res option" where
  "readValue read assign r = Some (rbind (read r) (\<lambda>(v, r'). Inr (assign v, r')))"

text \<open>\<open>reader.uint32()\<close> as the number that it is.\<close>

definition readUint :: "'w pbRuntime \<Rightarrow> pbReader \<Rightarrow> (int \<times> pbReader) res" where
  "readUint RT r = rbind (rt_uint32 RT r) (\<lambda>(n, r'). Inr (uint n, r'))"

text \<open>\<open>codec().decode(reader, reader.uint32(), ...)\<close>\<close>

definition readMessage ::
  "'w pbRuntime \<Rightarrow> (nat option \<Rightarrow> pbReader \<Rightarrow> ('m \<times> pbReader) res option) \<Rightarrow> ('m \<Rightarrow> 'o) \<Rightarrow> pbReader \<Rightarrow> ('o \<times> pbReader) res option" where
  "readMessage RT decode assign r =
     (case rt_uint32 RT r of
        Inl e \<Rightarrow> Some (Inl e)
      | Inr (n, r') \<Rightarrow> map_option (\<lambda>d. rbind d (\<lambda>(m, r''). Inr (assign m, r''))) (decode (Some (unat n)) r'))"

text \<open>The default case: \<open>reader.skipType(tag & 7)\<close>.\<close>

definition skipField :: "'w pbRuntime \<Rightarrow> 'o pbField" where
  "skipField RT tag obj r = Some (rbind (rt_skipType RT (and tag 7) r) (\<lambda>r'. Inr (obj, r')))"

text \<open>An element of a repeated field, which a limit may refuse.\<close>

definition readElement ::
  "pbLimits option \<Rightarrow> string \<Rightarrow> 'v list \<Rightarrow> (pbReader \<Rightarrow> ('o \<times> pbReader) res option) \<Rightarrow> pbReader \<Rightarrow> ('o \<times> pbReader) res option" where
  "readElement lim name xs read r = (if limitReached lim name xs then Some (Inl (MaxLengthError name)) else read r)"

text \<open>\<open>encodeMessage(obj, codec)\<close> and \<open>decodeMessage(buf, codec, opts)\<close>\<close>

definition encodeBytes :: "'w pbRuntime \<Rightarrow> (bool \<Rightarrow> 'o \<Rightarrow> 'w \<Rightarrow> 'w) \<Rightarrow> 'o \<Rightarrow> bytes" where
  "encodeBytes RT encode obj = rt_encodeMessage RT (\<lambda>lengthDelimited. encode lengthDelimited obj)"

definition decodeBytes :: "'w pbRuntime \<Rightarrow> (nat option \<Rightarrow> pbReader \<Rightarrow> ('o \<times> pbReader) res option) \<Rightarrow> bytes \<Rightarrow> 'o res option" where
  "decodeBytes RT decode bs = map_option (\<lambda>d. rbind d (\<lambda>(obj, r). Inr obj)) (decode None (rt_createReader RT bs))"

section \<open>What the runtime documents\<close>

text \<open>The encodings of the protobuf wire format, as byte strings.\<close>

record pbFormat =
  pf_uint32 :: "int \<Rightarrow> bytes"
  pf_int32 :: "int \<Rightarrow> bytes"
  pf_uint64 :: "int \<Rightarrow> bytes"
  pf_sint64 :: "int \<Rightarrow> bytes"
  pf_bool :: "bool \<Rightarrow> bytes"
  pf_utf8 :: "string \<Rightarrow> bytes"

definition pf_bytes :: "pbFormat \<Rightarrow> bytes \<Rightarrow> bytes" where
  "pf_bytes F b = pf_uint32 F (int (length b)) @ b"

definition pf_string :: "pbFormat \<Rightarrow> string \<Rightarrow> bytes" where
  "pf_string F s = pf_bytes F (pf_utf8 F s)"

text \<open>A field is its tag and the encoding of its value.\<close>

definition fieldBytes :: "pbFormat \<Rightarrow> int \<times> bytes \<Rightarrow> bytes" where
  "fieldBytes F f = pf_uint32 F (fst f) @ snd f"

definition wire :: "pbFormat \<Rightarrow> (int \<times> bytes) list \<Rightarrow> bytes" where
  "wire F fs = concat (map (fieldBytes F) fs)"

lemma wire_simps [simp]: "wire F [] = []" "wire F (f # fs) = fieldBytes F f @ wire F fs" "wire F (fs @ gs) = wire F fs @ wire F gs"
  by (simp_all add: wire_def)

text \<open>What appending does to the open buffers of a writer, the innermost first.\<close>

fun appendTop :: "bytes \<Rightarrow> bytes list \<Rightarrow> bytes list" where
  "appendTop x [] = []"
| "appendTop x (c # cs) = (c @ x) # cs"

lemma appendTop_append [simp]: "appendTop y (appendTop x cs) = appendTop (x @ y) cs"
  by (cases cs) auto

lemma appendTop_Nil [simp]: "appendTop [] cs = cs"
  by (cases cs) auto

text \<open>What stands before the reader, and the reader after so many bytes.\<close>

definition comes :: "bytes \<Rightarrow> pbReader \<Rightarrow> bool" where
  "comes x r \<longleftrightarrow> (\<exists>rest. drop (rd_pos r) (rd_buf r) = x @ rest)"

definition advance :: "nat \<Rightarrow> pbReader \<Rightarrow> pbReader" where
  "advance n r = r\<lparr>rd_pos := rd_pos r + n\<rparr>"

definition forward :: "pbReader \<Rightarrow> pbReader \<Rightarrow> bool" where
  "forward r r' \<longleftrightarrow> rd_buf r' = rd_buf r \<and> rd_pos r \<le> rd_pos r' \<and> (rd_pos r' \<le> rd_pos r \<or> rd_pos r' \<le> length (rd_buf r))"

lemma advance_simps [simp]: "rd_pos (advance n r) = rd_pos r + n" "rd_buf (advance n r) = rd_buf r" "advance 0 r = r"
  "advance m (advance n r) = advance (n + m) r"
  by (simp_all add: advance_def)

lemma comes_append: "comes (x @ y) r \<longleftrightarrow> comes x r \<and> comes y (advance (length x) r)"
proof -
  have "drop (rd_pos r + length x) (rd_buf r) = drop (length x) (drop (rd_pos r) (rd_buf r))" by (simp add: add.commute)
  moreover have "(\<exists>rest. xs = x @ y @ rest) \<longleftrightarrow> (\<exists>rest. xs = x @ rest) \<and> (\<exists>rest. drop (length x) xs = y @ rest)" for xs :: bytes
    by auto
  ultimately show ?thesis by (simp add: comes_def)
qed

lemma comes_Nil [simp]: "comes [] r"
  by (simp add: comes_def)

lemma forward_trans: "forward r r' \<Longrightarrow> forward r' r'' \<Longrightarrow> forward r r''"
  by (auto simp: forward_def)

locale pb_runtime =
  fixes RT :: "'w pbRuntime" and F :: pbFormat and buffers :: "'w \<Rightarrow> bytes list"
  assumes wUint32: "buffers (rt_wUint32 RT n w) = appendTop (pf_uint32 F n) (buffers w)"
    and wInt32: "buffers (rt_wInt32 RT n w) = appendTop (pf_int32 F n) (buffers w)"
    and wUint64: "buffers (rt_wUint64 RT n w) = appendTop (pf_uint64 F n) (buffers w)"
    and wSint64: "buffers (rt_wSint64 RT n w) = appendTop (pf_sint64 F n) (buffers w)"
    and wBool: "buffers (rt_wBool RT b w) = appendTop (pf_bool F b) (buffers w)"
    and wBytes: "buffers (rt_wBytes RT x w) = appendTop (pf_bytes F x) (buffers w)"
    and wString: "buffers (rt_wString RT s w) = appendTop (pf_string F s) (buffers w)"
    and wEnum: "n \<in> set members \<Longrightarrow> buffers (rt_wEnum RT members n w) = appendTop (pf_int32 F n) (buffers w)"
    and wFork: "buffers (rt_fork RT w) = [] # buffers w"
    and wLdelim: "buffers w = c # cs \<Longrightarrow> buffers (rt_ldelim RT w) = appendTop (pf_bytes F c) cs"
    and encodeMessage: "(\<And>w. buffers w = [[]] \<Longrightarrow> buffers (enc False w) = [bs]) \<Longrightarrow> rt_encodeMessage RT enc = bs"
    and createReader: "rt_createReader RT bs = \<lparr>rd_buf = bs, rd_pos = 0\<rparr>"
    and uint32_nonempty: "pf_uint32 F n \<noteq> []"
    and rUint32: "comes (pf_uint32 F n) r \<Longrightarrow> 0 \<le> n \<Longrightarrow> n < 2 ^ 32 \<Longrightarrow>
                    rt_uint32 RT r = Inr (word_of_int n, advance (length (pf_uint32 F n)) r)"
    and rInt32: "comes (pf_int32 F n) r \<Longrightarrow> -(2 ^ 31) \<le> n \<Longrightarrow> n < 2 ^ 31 \<Longrightarrow>
                    rt_int32 RT r = Inr (n, advance (length (pf_int32 F n)) r)"
    and rUint64: "comes (pf_uint64 F n) r \<Longrightarrow> 0 \<le> n \<Longrightarrow> n < 2 ^ 64 \<Longrightarrow>
                    rt_uint64 RT r = Inr (n, advance (length (pf_uint64 F n)) r)"
    and rSint64: "comes (pf_sint64 F n) r \<Longrightarrow> -(2 ^ 63) \<le> n \<Longrightarrow> n < 2 ^ 63 \<Longrightarrow>
                    rt_sint64 RT r = Inr (n, advance (length (pf_sint64 F n)) r)"
    and rSint64_range: "rt_sint64 RT r = Inr (s64, r') \<Longrightarrow> -(2 ^ 63) \<le> s64 \<and> s64 < 2 ^ 63"
    and rBool: "comes (pf_bool F b) r \<Longrightarrow> rt_bool RT r = Inr (b, advance (length (pf_bool F b)) r)"
    and rBytes: "comes (pf_bytes F x) r \<Longrightarrow> length x < 2 ^ 32 \<Longrightarrow> rt_bytes RT r = Inr (x, advance (length (pf_bytes F x)) r)"
    and rString: "comes (pf_string F s) r \<Longrightarrow> length (pf_utf8 F s) < 2 ^ 32 \<Longrightarrow>
                    rt_string RT r = Inr (s, advance (length (pf_string F s)) r)"
    and rEnum: "comes (pf_int32 F n) r \<Longrightarrow> n \<in> set members \<Longrightarrow> -(2 ^ 31) \<le> n \<Longrightarrow> n < 2 ^ 31 \<Longrightarrow>
                    rt_enum RT members r = Inr (n, advance (length (pf_int32 F n)) r)"
    and rEnum_member: "rt_enum RT members r = Inr (n, r') \<Longrightarrow> n \<in> set members"
    and skipUint32: "comes (pf_uint32 F n) r \<Longrightarrow> rt_skipType RT 0 r = Inr (advance (length (pf_uint32 F n)) r)"
    and skipSint64: "comes (pf_sint64 F n) r \<Longrightarrow> rt_skipType RT 0 r = Inr (advance (length (pf_sint64 F n)) r)"
    and skipBool: "comes (pf_bool F b) r \<Longrightarrow> rt_skipType RT 0 r = Inr (advance (length (pf_bool F b)) r)"
    and skipBytes: "comes (pf_bytes F x) r \<Longrightarrow> length x < 2 ^ 32 \<Longrightarrow> rt_skipType RT 2 r = Inr (advance (length (pf_bytes F x)) r)"
    and fUint32: "rt_uint32 RT r = Inr (v32, r') \<Longrightarrow> forward r r' \<and> rd_pos r < rd_pos r'"
    and fInt32: "rt_int32 RT r = Inr (i32, r') \<Longrightarrow> forward r r'"
    and fUint64: "rt_uint64 RT r = Inr (u64, r') \<Longrightarrow> forward r r'"
    and fSint64: "rt_sint64 RT r = Inr (s64, r') \<Longrightarrow> forward r r'"
    and fBool: "rt_bool RT r = Inr (b1, r') \<Longrightarrow> forward r r'"
    and fBytes: "rt_bytes RT r = Inr (bs1, r') \<Longrightarrow> forward r r'"
    and fString: "rt_string RT r = Inr (s1, r') \<Longrightarrow> forward r r'"
    and fEnum: "rt_enum RT members r = Inr (e1, r') \<Longrightarrow> forward r r'"
    and fSkip: "rt_skipType RT wireType r = Inr r' \<Longrightarrow> forward r r'"
begin

subsection \<open>What an encoder writes\<close>

text \<open>\<open>put\<close> appends \<open>x\<close> to the innermost open buffer.\<close>

definition writes :: "('w \<Rightarrow> 'w) \<Rightarrow> bytes \<Rightarrow> bool" where
  "writes put x \<longleftrightarrow> (\<forall>w. buffers (put w) = appendTop x (buffers w))"

lemma writes_values:
  "writes (rt_wUint32 RT n) (pf_uint32 F n)" "writes (rt_wInt32 RT n) (pf_int32 F n)" "writes (rt_wUint64 RT n) (pf_uint64 F n)"
  "writes (rt_wSint64 RT n) (pf_sint64 F n)" "writes (rt_wBool RT b) (pf_bool F b)" "writes (rt_wBytes RT x) (pf_bytes F x)"
  "writes (rt_wString RT s) (pf_string F s)" "n \<in> set members \<Longrightarrow> writes (rt_wEnum RT members n) (pf_int32 F n)"
  by (simp_all add: writes_def wUint32 wInt32 wUint64 wSint64 wBool wBytes wString wEnum)

lemma writes_field: "(c \<Longrightarrow> writes put x) \<Longrightarrow> writes (writeField RT c tag put) (wire F (if c then [(tag, x)] else []))"
  by (simp add: writes_def writeField_def wUint32 fieldBytes_def)

lemma writes_opt:
  "(\<And>v. opt = Some v \<Longrightarrow> writes (put v) (enc v)) \<Longrightarrow>
   writes (writeOpt RT tag put opt) (wire F (case opt of None \<Rightarrow> [] | Some v \<Rightarrow> [(tag, enc v)]))"
  by (cases opt) (simp_all add: writes_def writeOpt_def wUint32 fieldBytes_def)

lemma writes_each:
  "(\<And>v. v \<in> set vs \<Longrightarrow> writes (put v) (enc v)) \<Longrightarrow> writes (writeEach RT tag put vs) (wire F (map (\<lambda>v. (tag, enc v)) vs))"
  by (induction vs) (simp_all add: writes_def writeEach_def wUint32 fieldBytes_def)

lemma writes_fold:
  "list_all2 (\<lambda>put fs. writes put (wire F fs)) puts fss \<Longrightarrow> writes (fold (\<lambda>f. f) puts) (wire F (concat fss))"
  by (induction rule: list_all2_induct) (simp_all add: writes_def)

lemma writes_delimited:
  assumes "list_all2 (\<lambda>put fs. writes put (wire F fs)) puts fss"
  shows "writes (delimited RT lengthDelimited puts) (if lengthDelimited then pf_bytes F (wire F (concat fss)) else wire F (concat fss))"
  using writes_fold [OF assms] by (simp add: writes_def delimited_def wFork wLdelim)

subsection \<open>What a decoder reads\<close>

text \<open>A field takes the object from \<open>obj\<close> to \<open>obj'\<close>.\<close>

definition reads :: "'o pbField \<Rightarrow> int \<times> bytes \<Rightarrow> 'o \<Rightarrow> 'o \<Rightarrow> bool" where
  "reads field f obj obj' \<longleftrightarrow> 0 \<le> fst f \<and> fst f < 2 ^ 32 \<and>
     (\<forall>r. comes (snd f) r \<longrightarrow> field (word_of_int (fst f)) obj r = Some (Inr (obj', advance (length (snd f)) r)))"

fun readsAll :: "'o pbField \<Rightarrow> (int \<times> bytes) list \<Rightarrow> 'o \<Rightarrow> 'o \<Rightarrow> bool" where
  "readsAll field [] obj obj' = (obj' = obj)"
| "readsAll field (f # fs) obj obj' = (\<exists>obj1. reads field f obj obj1 \<and> readsAll field fs obj1 obj')"

lemma readsAll_append: "readsAll field fs a b \<Longrightarrow> readsAll field gs b c \<Longrightarrow> readsAll field (fs @ gs) a c"
  by (induction fs arbitrary: a) auto

lemma decodeFields_reads:
  assumes "readsAll field fs obj obj'" "comes (wire F fs) r"
  shows "decodeFields RT field (rd_pos r + length (wire F fs)) r obj = Some (Inr (obj', advance (length (wire F fs)) r))"
  using assms
proof (induction fs arbitrary: obj r)
  case Nil
  then show ?case by (simp add: decodeFields.simps)
next
  case (Cons f fs)
  obtain t x where f: "f = (t, x)" by force
  from Cons.prems obtain obj1 where reads: "reads field f obj obj1" and rest: "readsAll field fs obj1 obj'" by auto
  let ?r1 = "advance (length (pf_uint32 F t)) r" and ?r2 = "advance (length (pf_uint32 F t @ x)) r"
  from Cons.prems(2) have at: "comes (pf_uint32 F t) r" "comes x ?r1" "comes (wire F fs) ?r2"
    by (simp_all add: f fieldBytes_def comes_append)
  have tag: "rt_uint32 RT r = Inr (word_of_int t, ?r1)" using reads at by (simp add: reads_def f rUint32)
  have val: "field (word_of_int t) obj ?r1 = Some (Inr (obj1, ?r2))"
    using reads at by (simp add: reads_def f)
  have "rd_pos r < rd_pos r + length (wire F (f # fs))"
    using uint32_nonempty [of t] by (simp add: f fieldBytes_def)
  moreover have "rd_pos r + length (wire F (f # fs)) = rd_pos ?r2 + length (wire F fs)"
    by (simp add: f fieldBytes_def)
  ultimately show ?case
    using Cons.IH [OF rest at(3)] by (subst decodeFields.simps) (simp add: tag val f fieldBytes_def add.assoc)
qed

text \<open>\<open>rd\<close> reads the value \<open>v\<close> from its encoding \<open>x\<close>, whatever is done with it.\<close>

definition readsAs :: "(('v \<Rightarrow> 'o) \<Rightarrow> pbReader \<Rightarrow> ('o \<times> pbReader) res option) \<Rightarrow> 'v \<Rightarrow> bytes \<Rightarrow> bool" where
  "readsAs rd v x \<longleftrightarrow> (\<forall>assign r. comes x r \<longrightarrow> rd assign r = Some (Inr (assign v, advance (length x) r)))"

lemma readUint: "comes (pf_uint32 F n) r \<Longrightarrow> 0 \<le> n \<Longrightarrow> n < 2 ^ 32 \<Longrightarrow> readUint RT r = Inr (n, advance (length (pf_uint32 F n)) r)"
  by (simp add: readUint_def rUint32 uint_word_of_int)

lemma readsAs_values:
  "0 \<le> n \<Longrightarrow> n < 2 ^ 32 \<Longrightarrow> readsAs (readValue (readUint RT)) n (pf_uint32 F n)"
  "-(2 ^ 31) \<le> n \<Longrightarrow> n < 2 ^ 31 \<Longrightarrow> readsAs (readValue (rt_int32 RT)) n (pf_int32 F n)"
  "0 \<le> n \<Longrightarrow> n < 2 ^ 64 \<Longrightarrow> readsAs (readValue (rt_uint64 RT)) n (pf_uint64 F n)"
  "-(2 ^ 63) \<le> n \<Longrightarrow> n < 2 ^ 63 \<Longrightarrow> readsAs (readValue (rt_sint64 RT)) n (pf_sint64 F n)"
  "readsAs (readValue (rt_bool RT)) b (pf_bool F b)"
  "length x < 2 ^ 32 \<Longrightarrow> readsAs (readValue (rt_bytes RT)) x (pf_bytes F x)"
  "length (pf_utf8 F s) < 2 ^ 32 \<Longrightarrow> readsAs (readValue (rt_string RT)) s (pf_string F s)"
  "n \<in> set members \<Longrightarrow> -(2 ^ 31) \<le> n \<Longrightarrow> n < 2 ^ 31 \<Longrightarrow> readsAs (readValue (rt_enum RT members)) n (pf_int32 F n)"
  by (simp_all add: readsAs_def readValue_def readUint rInt32 rUint64 rSint64 rBool rBytes rString rEnum)

text \<open>
  The chunks that a message consists of: a field under a condition, an optional field, a field that is a property, a repeated field. The
  first premise is the case of the \<open>switch\<close> for the tag.
\<close>

lemma reads_case:
  "(\<And>obj r. field (word_of_int t) obj r = rd (assign obj) r) \<Longrightarrow> readsAs rd v x \<Longrightarrow> 0 \<le> t \<Longrightarrow> t < 2 ^ 32 \<Longrightarrow>
   reads field (t, x) obj (assign obj v)"
  by (simp add: reads_def readsAs_def)

lemma chunk_if:
  "(\<And>obj r. field (word_of_int t) obj r = rd (assign obj) r) \<Longrightarrow> readsAs rd v x \<Longrightarrow> 0 \<le> t \<Longrightarrow> t < 2 ^ 32 \<Longrightarrow>
   (\<not> c \<Longrightarrow> assign a v = a) \<Longrightarrow> readsAll field (if c then [(t, x)] else []) a (assign a v)"
  by (simp add: reads_case)

lemma chunk_opt:
  "(\<And>obj r. field (word_of_int t) obj r = rd (\<lambda>v. upd (\<lambda>_. Some v) obj) r) \<Longrightarrow> (\<And>v. opt = Some v \<Longrightarrow> readsAs rd (norm v) (enc v)) \<Longrightarrow>
   0 \<le> t \<Longrightarrow> t < 2 ^ 32 \<Longrightarrow> upd (\<lambda>_. None) a = a \<Longrightarrow>
   readsAll field (case opt of None \<Rightarrow> [] | Some v \<Rightarrow> [(t, enc v)]) a (upd (\<lambda>_. map_option norm opt) a)"
  by (cases opt) (auto intro: reads_case [where assign = "\<lambda>obj v. upd (\<lambda>_. Some v) obj"])

lemma chunk_prop:
  "(\<And>obj r. field (word_of_int t) obj r = rd (\<lambda>v. upd (\<lambda>_. Val v) obj) r) \<Longrightarrow> (\<And>v. opt = Some v \<Longrightarrow> readsAs rd (norm v) (enc v)) \<Longrightarrow>
   0 \<le> t \<Longrightarrow> t < 2 ^ 32 \<Longrightarrow> upd (\<lambda>_. Absent) a = a \<Longrightarrow>
   readsAll field (case opt of None \<Rightarrow> [] | Some v \<Rightarrow> [(t, enc v)]) a (upd (\<lambda>_. case opt of None \<Rightarrow> Absent | Some v \<Rightarrow> Val (norm v)) a)"
  by (cases opt) (auto intro: reads_case [where assign = "\<lambda>obj v. upd (\<lambda>_. Val v) obj"])

lemma chunk_each:
  assumes field: "\<And>obj r. field (word_of_int t) obj r = rd (\<lambda>v. upd (\<lambda>_. get obj @ [v]) obj) r"
    and each: "\<And>v. v \<in> set vs \<Longrightarrow> readsAs rd (norm v) (enc v)" and t: "0 \<le> t" "t < 2 ^ 32"
    and upd: "\<And>x obj. get (upd (\<lambda>_. x) obj) = x" "\<And>x y obj. upd (\<lambda>_. y) (upd (\<lambda>_. x) obj) = upd (\<lambda>_. y) obj"
    and a: "get a = []" "upd (\<lambda>_. []) a = a"
  shows "readsAll field (map (\<lambda>v. (t, enc v)) vs) a (upd (\<lambda>_. map norm vs) a)"
proof -
  have "readsAll field (map (\<lambda>v. (t, enc v)) vs) (upd (\<lambda>_. us) a) (upd (\<lambda>_. us @ map norm vs) a)" for us
    using each
  proof (induction vs arbitrary: us)
    case (Cons v vs)
    have "reads field (t, enc v) (upd (\<lambda>_. us) a) (upd (\<lambda>_. get (upd (\<lambda>_. us) a) @ [norm v]) (upd (\<lambda>_. us) a))"
      using Cons.prems t
      by (intro reads_case [where rd = rd and assign = "\<lambda>obj v. upd (\<lambda>_. get obj @ [v]) obj"]) (auto simp: field)
    then show ?case using Cons.IH [of "us @ [norm v]"] Cons.prems by (auto simp: upd)
  qed simp
  from this [of "[]"] show ?thesis by (simp add: a)
qed

lemma readsAll_concat:
  "readsAll field xs a b \<Longrightarrow> readsAll field (concat xss) b c \<Longrightarrow> readsAll field (concat (xs # xss)) a c"
  "c = a \<Longrightarrow> readsAll field (concat []) a c"
  by (simp_all add: readsAll_append)

text \<open>A field that the \<open>switch\<close> does not know, with a value whose encoding fits the wire type of the tag.\<close>

definition skippable :: "int \<Rightarrow> bytes \<Rightarrow> bool" where
  "skippable t x \<longleftrightarrow> (\<forall>r. comes x r \<longrightarrow> rt_skipType RT (and (word_of_int t) 7) r = Inr (advance (length x) r))"

lemma skippable_values:
  "and (word_of_int t) 7 = (0 :: 32 word) \<Longrightarrow> skippable t (pf_uint32 F n)"
  "and (word_of_int t) 7 = (0 :: 32 word) \<Longrightarrow> skippable t (pf_sint64 F n)"
  "and (word_of_int t) 7 = (0 :: 32 word) \<Longrightarrow> skippable t (pf_bool F b)"
  "and (word_of_int t) 7 = (2 :: 32 word) \<Longrightarrow> length x < 2 ^ 32 \<Longrightarrow> skippable t (pf_bytes F x)"
  by (simp_all add: skippable_def skipUint32 skipSint64 skipBool skipBytes)

lemma skip_if:
  "(\<And>obj r. field (word_of_int t) obj r = skipField RT (word_of_int t) obj r) \<Longrightarrow> skippable t x \<Longrightarrow> 0 \<le> t \<Longrightarrow> t < 2 ^ 32 \<Longrightarrow>
   readsAll field (if c then [(t, x)] else []) a a"
  by (simp add: reads_def skippable_def skipField_def)

lemma skip_opt:
  "(\<And>obj r. field (word_of_int t) obj r = skipField RT (word_of_int t) obj r) \<Longrightarrow> (\<And>v. opt = Some v \<Longrightarrow> skippable t (enc v)) \<Longrightarrow>
   0 \<le> t \<Longrightarrow> t < 2 ^ 32 \<Longrightarrow> readsAll field (case opt of None \<Rightarrow> [] | Some v \<Rightarrow> [(t, enc v)]) a a"
  by (cases opt) (simp_all add: reads_def skippable_def skipField_def)

subsection \<open>Termination\<close>

text \<open>A read that comes to an end and moves the reader forward, if it succeeds.\<close>

definition ends :: "pbReader \<Rightarrow> ('o \<times> pbReader) res option \<Rightarrow> bool" where
  "ends r res \<longleftrightarrow> res \<noteq> None \<and> (\<forall>obj r'. res = Some (Inr (obj, r')) \<longrightarrow> forward r r')"

lemma ends_readValue: "(\<And>v r'. read r = Inr (v, r') \<Longrightarrow> forward r r') \<Longrightarrow> ends r (readValue read assign r)"
  by (auto simp: ends_def readValue_def rbind_eq_Inr)

lemma ends_values:
  "ends r (readValue (readUint RT) a1 r)" "ends r (readValue (rt_int32 RT) a2 r)" "ends r (readValue (rt_uint64 RT) a3 r)"
  "ends r (readValue (rt_sint64 RT) a4 r)" "ends r (readValue (rt_bool RT) a5 r)" "ends r (readValue (rt_bytes RT) a6 r)"
  "ends r (readValue (rt_string RT) a7 r)" "ends r (readValue (rt_enum RT members) a8 r)" "ends r (skipField RT tag obj r)"
  by (rule ends_readValue, auto simp: readUint_def rbind_eq_Inr dest: fUint32 fInt32 fUint64 fSint64 fBool fBytes fString fEnum)+
    (auto simp: ends_def skipField_def rbind_eq_Inr dest: fSkip)

lemma ends_readElement: "ends r (read r) \<Longrightarrow> ends r (readElement lim name xs read r)"
  by (simp add: readElement_def ends_def)

lemma decodeFields_ends:
  assumes field: "\<And>tag obj r. ends r (field tag obj r)"
  shows "ends r (decodeFields RT field stop r obj)"
proof (induction "length (rd_buf r) - rd_pos r" arbitrary: r obj rule: less_induct)
  case less
  show ?case
  proof (cases "rd_pos r < stop")
    case False
    then show ?thesis by (simp add: decodeFields.simps ends_def forward_def)
  next
    case True
    show ?thesis
    proof (cases "rt_uint32 RT r")
      case (Inl e)
      then show ?thesis using True by (simp add: decodeFields.simps ends_def)
    next
      case (Inr p)
      obtain tag r1 where p: "p = (tag, r1)" by force
      have f1: "forward r r1" "rd_pos r < rd_pos r1" using fUint32 Inr p by auto
      show ?thesis
      proof (cases "field tag obj r1")
        case None
        then show ?thesis using field [of r1 tag obj] by (simp add: ends_def)
      next
        case (Some res)
        show ?thesis
        proof (cases res)
          case (Inl e)
          then show ?thesis using True Inr p Some by (simp add: decodeFields.simps ends_def)
        next
          case (Inr q)
          obtain obj' r2 where q: "q = (obj', r2)" by force
          have f2: "forward r1 r2" using field [of r1 tag obj] Some Inr q by (simp add: ends_def)
          have "length (rd_buf r2) - rd_pos r2 < length (rd_buf r) - rd_pos r"
            using f1 f2 by (auto simp: forward_def)
          from less [OF this] have "ends r2 (decodeFields RT field stop r2 obj')" .
          moreover have "decodeFields RT field stop r obj = decodeFields RT field stop r2 obj'"
            using True \<open>rt_uint32 RT r = Inr p\<close> p Some Inr q by (subst decodeFields.simps) simp
          ultimately show ?thesis using forward_trans [OF f1(1) forward_trans [OF f2]]
            by (auto simp: ends_def)
        qed
      qed
    qed
  qed
qed

lemma ends_readMessage:
  assumes "\<And>tag obj r. ends r (field tag obj r)"
  shows "ends r (readMessage RT (decodeFrom RT field initial) assign r)"
proof (cases "rt_uint32 RT r")
  case (Inr p)
  obtain n r1 where p: "p = (n, r1)" by force
  have "forward r r1" using fUint32 Inr p by blast
  moreover have "ends r1 (decodeFrom RT field initial (Some (unat n)) r1)"
    by (simp add: decodeFrom_def decodeFields_ends assms)
  ultimately show ?thesis using Inr p
    by (auto simp: readMessage_def ends_def rbind_eq_Inr intro: forward_trans)
qed (simp add: readMessage_def ends_def)

end

section \<open>A message type\<close>

text \<open>
  A codec: \<open>encode\<close>, the \<open>switch\<close> of its decoder and the object it starts from, with the fields that a message has on the wire, the
  messages \<open>ok\<close> whose values are in the range of their types, and what of a message comes back.
\<close>

locale message_codec = pb_runtime RT F buffers
  for RT :: "'w pbRuntime" and F :: pbFormat and buffers :: "'w \<Rightarrow> bytes list" +
  fixes encode :: "bool \<Rightarrow> 'o \<Rightarrow> 'w \<Rightarrow> 'w" and field :: "pbLimits option \<Rightarrow> 'o pbField" and initial :: 'o
    and fields :: "'o \<Rightarrow> (int \<times> bytes) list" and ok :: "'o \<Rightarrow> bool" and norm :: "'o \<Rightarrow> 'o"
  assumes encode_wire: "writes (encode lengthDelimited m) (if lengthDelimited then pf_bytes F (wire F (fields m)) else wire F (fields m))"
    and field_reads: "ok m \<Longrightarrow> readsAll (field None) (fields m) initial (norm m)"
    and field_ends: "ends r (field lim tag obj r)"
begin

lemma encodeBytes_wire: "encodeBytes RT encode m = wire F (fields m)"
  unfolding encodeBytes_def using encode_wire [of False m] by (intro encodeMessage) (simp add: writes_def)

lemma encode_nested: "writes (encode True m) (pf_bytes F (wire F (fields m)))"
  using encode_wire [of True m] by simp

lemma roundtrip: "ok m \<Longrightarrow> decodeBytes RT (decodeFrom RT (field None) initial) (encodeBytes RT encode m) = Some (Inr (norm m))"
  using decodeFields_reads [OF field_reads, of m "\<lparr>rd_buf = wire F (fields m), rd_pos = 0\<rparr>"]
  by (simp add: encodeBytes_wire decodeBytes_def decodeFrom_def createReader comes_def)

lemma readsAs_nested:
  assumes m: "ok m" "length (wire F (fields m)) < 2 ^ 32"
  shows "readsAs (readMessage RT (decodeFrom RT (field None) initial)) (norm m) (pf_bytes F (wire F (fields m)))"
  unfolding readsAs_def
proof (intro allI impI)
  fix assign :: "'o \<Rightarrow> 'z" and r
  let ?n = "int (length (wire F (fields m)))" and ?r1 = "advance (length (pf_uint32 F (int (length (wire F (fields m)))))) r"
  assume "comes (pf_bytes F (wire F (fields m))) r"
  then have at: "comes (pf_uint32 F ?n) r" "comes (wire F (fields m)) ?r1" by (simp_all add: pf_bytes_def comes_append)
  have "?n < int (2 ^ 32)" using m(2) by (simp only: of_nat_less_iff)
  then have n: "?n < 2 ^ 32" by simp
  have "unat (word_of_int ?n :: 32 word) = length (wire F (fields m))" using m(2) by (simp add: unat_of_nat)
  then show "readMessage RT (decodeFrom RT (field None) initial) assign r =
      Some (Inr (assign (norm m), advance (length (pf_bytes F (wire F (fields m)))) r))"
    using decodeFields_reads [OF field_reads [OF m(1)] at(2)] at n
    by (simp add: readMessage_def rUint32 decodeFrom_def pf_bytes_def)
qed

lemma ends_nested: "ends r (readMessage RT (decodeFrom RT (field lim) initial) assign r)"
  by (rule ends_readMessage) (rule field_ends)

lemma decode_returns: "decodeBytes RT (decodeFrom RT (field lim) initial) bs \<noteq> None"
  using decodeFields_ends [of "field lim", OF field_ends] by (auto simp: decodeBytes_def decodeFrom_def ends_def)

end

text \<open>The laws as a predicate on the parameters.\<close>

definition pbLaws :: "'w pbRuntime \<Rightarrow> pbFormat \<Rightarrow> ('w \<Rightarrow> bytes list) \<Rightarrow> bool" where
  "pbLaws RT F buffers \<longleftrightarrow> pb_runtime RT F buffers"

end
