(* ===== verification/ProtobufDemo.thy ===== *)
theory ProtobufDemo
  imports Protobuf
begin

text \<open>
  A runtime that satisfies the laws of \<open>pb_runtime\<close>: variable-length integers, zigzag numbers and length prefixes as the protobuf
  encoding defines them, on writers that are the stack of their open buffers. The witnesses of the properties about the wire format run
  on it.
\<close>

fun leb :: "nat \<Rightarrow> bytes" where
  "leb n = (if n < 128 then [of_nat n] else of_nat (n mod 128 + 128) # leb (n div 128))"

declare leb.simps [simp del]

fun unleb :: "bytes \<Rightarrow> (nat \<times> nat) option" where
  "unleb [] = None"
| "unleb (b # bs) =
     (if unat b < 128 then Some (unat b, 1) else map_option (\<lambda>(v, n). (unat b - 128 + 128 * v, n + 1)) (unleb bs))"

lemma unleb_leb: "unleb (leb n @ rest) = Some (n, length (leb n))"
proof (induction n rule: leb.induct)
  case (1 n)
  show ?case
  proof (cases "n < 128")
    case True
    then show ?thesis by (simp add: leb.simps unat_of_nat)
  next
    case False
    have "n mod 128 + 128 < 2 ^ 8" using mod_less_divisor [of 128 n] by simp
    then have "unat (of_nat (n mod 128 + 128) :: 8 word) = n mod 128 + 128"
      by (simp only: unsigned_of_nat take_bit_nat_eq_self len_bit0 len_num1 mult_1_right) (simp add: take_bit_eq_mod)
    moreover have "n mod 128 + 128 - 128 + 128 * (n div 128) = n" by simp
    ultimately show ?thesis using 1 False by (subst (1 2) leb.simps) simp
  qed
qed

lemma unleb_bounds: "unleb bs = Some (v, n) \<Longrightarrow> 0 < n \<and> n \<le> length bs"
  by (induction bs arbitrary: v n) (auto split: if_splits)

lemma leb_length: "length (leb n) \<le> Suc n"
proof (induction n rule: leb.induct)
  case (1 n)
  then show ?case by (cases "n < 128") (simp_all add: leb.simps [of n])
qed

lemma leb_Nil [simp]: "leb n \<noteq> []"
  by (simp add: leb.simps)

definition demoFormat :: pbFormat where
  "demoFormat =
     \<lparr>pf_uint32 = (\<lambda>n. leb (nat (n mod 2 ^ 32))), pf_int32 = (\<lambda>n. leb (nat (n mod 2 ^ 64))), pf_uint64 = (\<lambda>n. leb (nat (n mod 2 ^ 64))),
      pf_sint64 = (\<lambda>n. leb (nat (if 0 \<le> n then 2 * n else - 2 * n - 1))), pf_bool = (\<lambda>b. leb (if b then 1 else 0)),
      pf_utf8 = map (\<lambda>c. of_nat (of_char c))\<rparr>"

lemma demo_field_length: "0 \<le> t \<Longrightarrow> t < 1000 \<Longrightarrow> length (fieldBytes demoFormat (t, v)) \<le> 1000 + length v"
  using leb_length [of "nat t"] by (simp add: fieldBytes_def demoFormat_def)

lemma demo_bytes_length: "length b < 4000 \<Longrightarrow> length (pf_bytes demoFormat b) \<le> Suc (2 * length b)"
  using leb_length [of "length b"] by (simp add: pf_bytes_def demoFormat_def nat_mod_distrib)

definition demoVarint :: "pbReader \<Rightarrow> (nat \<times> pbReader) res" where
  "demoVarint r = (case unleb (drop (rd_pos r) (rd_buf r)) of None \<Rightarrow> Inl RangeError | Some (v, n) \<Rightarrow> Inr (v, advance n r))"

definition demoRead :: "(nat \<Rightarrow> 'v) \<Rightarrow> pbReader \<Rightarrow> ('v \<times> pbReader) res" where
  "demoRead f r = rbind (demoVarint r) (\<lambda>(v, r'). Inr (f v, r'))"

definition demoBytes :: "pbReader \<Rightarrow> (bytes \<times> pbReader) res" where
  "demoBytes r = rbind (demoVarint r)
     (\<lambda>(n, r'). if rd_pos r' + n \<le> length (rd_buf r') then Inr (take n (drop (rd_pos r') (rd_buf r')), advance n r') else Inl RangeError)"

definition demoSigned :: "nat \<Rightarrow> int" where
  "demoSigned v = (if even v then int (v div 2) else - int ((v + 1) div 2))"

definition demoRuntime :: "bytes list pbRuntime" where
  "demoRuntime =
     \<lparr>rt_wUint32 = (\<lambda>n. appendTop (pf_uint32 demoFormat n)), rt_wInt32 = (\<lambda>n. appendTop (pf_int32 demoFormat n)),
      rt_wUint64 = (\<lambda>n. appendTop (pf_uint64 demoFormat n)), rt_wSint64 = (\<lambda>n. appendTop (pf_sint64 demoFormat n)),
      rt_wBool = (\<lambda>b. appendTop (pf_bool demoFormat b)), rt_wBytes = (\<lambda>x. appendTop (pf_bytes demoFormat x)),
      rt_wString = (\<lambda>s. appendTop (pf_string demoFormat s)), rt_wEnum = (\<lambda>_ n. appendTop (pf_int32 demoFormat n)),
      rt_fork = (\<lambda>w. [] # w), rt_ldelim = (\<lambda>w. case w of [] \<Rightarrow> [] | c # cs \<Rightarrow> appendTop (pf_bytes demoFormat c) cs),
      rt_encodeMessage = (\<lambda>enc. hd (enc False [[]])),
      rt_uint32 = demoRead of_nat, rt_int32 = demoRead (\<lambda>v. sint (of_nat v :: 32 word)), rt_uint64 = demoRead int,
      rt_sint64 = demoRead (\<lambda>v. demoSigned (v mod 2 ^ 64)), rt_bool = demoRead (\<lambda>v. v \<noteq> 0), rt_bytes = demoBytes,
      rt_string = (\<lambda>r. rbind (demoBytes r) (\<lambda>(b, r'). Inr (map (\<lambda>x. char_of (unat x)) b, r'))),
      rt_enum = (\<lambda>members r. rbind (demoRead (\<lambda>v. sint (of_nat v :: 32 word)) r)
                   (\<lambda>(v, r'). if v \<in> set members then Inr (v, r') else Inl (Error ''Value outside of enum range''))),
      rt_skipType = (\<lambda>t r. if t = 0 then rbind (demoVarint r) (\<lambda>(_, r'). Inr r')
                           else if t = 2 then rbind (demoBytes r) (\<lambda>(_, r'). Inr r') else Inl (Error ''invalid wire type'')),
      rt_createReader = (\<lambda>bs. \<lparr>rd_buf = bs, rd_pos = 0\<rparr>)\<rparr>"

lemma demoVarint_leb: "comes (leb n) r \<Longrightarrow> demoVarint r = Inr (n, advance (length (leb n)) r)"
  by (auto simp: comes_def demoVarint_def unleb_leb)

lemma demoRead_leb: "comes (leb n) r \<Longrightarrow> demoRead f r = Inr (f n, advance (length (leb n)) r)"
  by (simp add: demoRead_def demoVarint_leb)

lemma demoVarint_forward: "demoVarint r = Inr (v, r') \<Longrightarrow> forward r r' \<and> rd_pos r < rd_pos r'"
  by (auto simp: demoVarint_def forward_def split: option.splits dest!: unleb_bounds)

lemma demoRead_forward: "demoRead f r = Inr (v, r') \<Longrightarrow> forward r r' \<and> rd_pos r < rd_pos r'"
  by (auto simp: demoRead_def rbind_eq_Inr dest: demoVarint_forward)

lemma demoBytes_forward: "demoBytes r = Inr (v, r') \<Longrightarrow> forward r r'"
  by (auto simp: demoBytes_def rbind_eq_Inr forward_def split: if_splits dest!: demoVarint_forward)

lemma demoBytes_pf:
  assumes "comes (pf_bytes demoFormat x) r" "length x < 2 ^ 32"
  shows "demoBytes r = Inr (x, advance (length (pf_bytes demoFormat x)) r)"
proof -
  have "int (length x) < int (2 ^ 32)" using assms(2) by (simp only: of_nat_less_iff)
  then have n: "nat (int (length x) mod 2 ^ 32) = length x" by simp
  have "comes (leb (length x)) r" and x: "comes x (advance (length (leb (length x))) r)"
    using assms(1) n by (simp_all add: pf_bytes_def demoFormat_def comes_append)
  then have v: "demoVarint r = Inr (length x, advance (length (leb (length x))) r)" by (simp add: demoVarint_leb)
  from x obtain rest where rest: "drop (rd_pos r + length (leb (length x))) (rd_buf r) = x @ rest" by (auto simp: comes_def)
  then have "length (rd_buf r) - (rd_pos r + length (leb (length x))) = length x + length rest"
    by (metis length_append length_drop)
  then have "x \<noteq> [] \<Longrightarrow> rd_pos r + length (leb (length x)) + length x \<le> length (rd_buf r)" by (cases x) auto
  moreover have "rd_pos r + length (leb (length x)) \<le> length (rd_buf r)" using demoVarint_forward [OF v] by (auto simp: forward_def)
  ultimately show ?thesis using v rest n by (cases "x = []") (auto simp: demoBytes_def pf_bytes_def demoFormat_def)
qed

lemma demoSigned_zigzag: "demoSigned (nat (if 0 \<le> n then 2 * n else - 2 * n - 1)) = n"
  by (auto simp: demoSigned_def even_nat_iff nat_mult_distrib)

lemma demoSigned_mod:
  "-(2 ^ 63) \<le> n \<Longrightarrow> n < 2 ^ 63 \<Longrightarrow> demoSigned (nat (if 0 \<le> n then 2 * n else - 2 * n - 1) mod 2 ^ 64) = n"
proof -
  assume n: "-(2 ^ 63) \<le> n" "n < 2 ^ 63"
  then have "nat (if 0 \<le> n then 2 * n else - 2 * n - 1) < 2 ^ 64" by (auto simp: nat_less_iff)
  then show ?thesis by (simp only: mod_less demoSigned_zigzag)
qed

lemma demoSigned_range: "-(2 ^ 63) \<le> demoSigned (v mod 2 ^ 64) \<and> demoSigned (v mod 2 ^ 64) < 2 ^ 63"
proof -
  have "v mod 2 ^ 64 < 2 ^ 64" by simp
  then show ?thesis unfolding demoSigned_def by auto
qed

lemma demoRead_range: "demoRead (\<lambda>v. demoSigned (v mod 2 ^ 64)) r = Inr (n, r') \<Longrightarrow> -(2 ^ 63) \<le> n \<and> n < 2 ^ 63"
  using demoSigned_range by (auto simp: demoRead_def rbind_eq_Inr)

lemma demoInt32: "-(2 ^ 31) \<le> n \<Longrightarrow> n < 2 ^ 31 \<Longrightarrow> sint (of_nat (nat (n mod 2 ^ 64)) :: 32 word) = n"
proof -
  assume n: "-(2 ^ 31) \<le> n" "n < 2 ^ 31"
  have "(of_nat (nat (n mod 2 ^ 64)) :: 32 word) = word_of_int (n mod 2 ^ 64)" by (rule of_nat_nat) simp
  also have "\<dots> = word_of_int n"
    by (rule word_of_int_eq_iff [THEN iffD2]) (simp add: take_bit_eq_mod mod_mod_cancel)
  also have "sint (word_of_int n :: 32 word) = signed_take_bit 31 n" by (simp add: signed_of_int)
  also have "\<dots> = n" using n by (simp add: signed_take_bit_int_eq_self)
  finally show ?thesis .
qed

lemma demoUtf8: "map (\<lambda>x. char_of (unat x)) (map (\<lambda>c. of_nat (of_char c) :: byte) s) = s"
  by (induction s) (simp_all add: unat_of_nat)

lemma demo_reads:
  "comes (pf_uint32 demoFormat n) r \<Longrightarrow> 0 \<le> n \<Longrightarrow> n < 2 ^ 32 \<Longrightarrow>
     demoRead of_nat r = Inr (word_of_int n :: 32 word, advance (length (pf_uint32 demoFormat n)) r)"
  "comes (pf_int32 demoFormat n) r \<Longrightarrow> -(2 ^ 31) \<le> n \<Longrightarrow> n < 2 ^ 31 \<Longrightarrow>
     demoRead (\<lambda>v. sint (of_nat v :: 32 word)) r = Inr (n, advance (length (pf_int32 demoFormat n)) r)"
  "comes (pf_uint64 demoFormat n) r \<Longrightarrow> 0 \<le> n \<Longrightarrow> n < 2 ^ 64 \<Longrightarrow> demoRead int r = Inr (n, advance (length (pf_uint64 demoFormat n)) r)"
  "comes (pf_sint64 demoFormat n) r \<Longrightarrow> -(2 ^ 63) \<le> n \<Longrightarrow> n < 2 ^ 63 \<Longrightarrow>
     demoRead (\<lambda>v. demoSigned (v mod 2 ^ 64)) r = Inr (n, advance (length (pf_sint64 demoFormat n)) r)"
  "comes (pf_bool demoFormat b) r \<Longrightarrow> demoRead (\<lambda>v. v \<noteq> 0) r = Inr (b, advance (length (pf_bool demoFormat b)) r)"
  by (simp_all add: demoFormat_def demoRead_leb demoInt32 [simplified] demoSigned_mod [simplified])

lemma demo_string:
  "comes (pf_string demoFormat s) r \<Longrightarrow> length (pf_utf8 demoFormat s) < 2 ^ 32 \<Longrightarrow>
   rbind (demoBytes r) (\<lambda>(b, r'). Inr (map (\<lambda>x. char_of (unat x)) b, r')) = Inr (s, advance (length (pf_string demoFormat s)) r)"
  unfolding pf_string_def using demoUtf8 [of s] by (simp add: demoBytes_pf demoFormat_def)

lemma demo_skip:
  "comes (pf_uint32 demoFormat n) r \<Longrightarrow> rbind (demoVarint r) (\<lambda>(_, r'). Inr r') = Inr (advance (length (pf_uint32 demoFormat n)) r)"
  "comes (pf_sint64 demoFormat n) r \<Longrightarrow> rbind (demoVarint r) (\<lambda>(_, r'). Inr r') = Inr (advance (length (pf_sint64 demoFormat n)) r)"
  "comes (pf_bool demoFormat b) r \<Longrightarrow> rbind (demoVarint r) (\<lambda>(_, r'). Inr r') = Inr (advance (length (pf_bool demoFormat b)) r)"
  by (simp_all add: demoFormat_def demoVarint_leb)

interpretation demoPb: pb_runtime demoRuntime demoFormat "\<lambda>w. w"
  by unfold_locales
    (simp_all only: demoRuntime_def pbRuntime.select_convs list.case if_True,
      simp_all only: demo_reads demo_string demo_skip demoBytes_pf rbind_simps prod.case if_True if_False zero_neq_numeral
        numeral_eq_iff not_False_eq_True simp_thms,
      auto simp: rbind_eq_Inr demoFormat_def split: if_splits
        dest: demoRead_range [simplified] demoRead_forward demoVarint_forward demoBytes_forward)

lemma demoPb_laws: "pbLaws demoRuntime demoFormat (\<lambda>w. w)"
  unfolding pbLaws_def by (rule demoPb.pb_runtime_axioms)

text \<open>Decoding concrete bytes by rewriting.\<close>

lemma demo_reader:
  "rt_uint32 demoRuntime = demoRead of_nat" "rt_bytes demoRuntime = demoBytes"
  "rt_string demoRuntime = (\<lambda>r. rbind (demoBytes r) (\<lambda>(b, r'). Inr (map (\<lambda>x. char_of (unat x)) b, r')))"
  "rt_sint64 demoRuntime = demoRead (\<lambda>v. demoSigned (v mod 2 ^ 64))"
  "rt_skipType demoRuntime 0 r = rbind (demoVarint r) (\<lambda>(_, r'). Inr r')"
  "rt_createReader demoRuntime bs = \<lparr>rd_buf = bs, rd_pos = 0\<rparr>"
  by (simp_all add: demoRuntime_def)

lemma demo_decodeFields:
  "decodeFields demoRuntime field stop \<lparr>rd_buf = bs, rd_pos = p\<rparr> obj =
     (if p < stop
      then (case demoRead of_nat \<lparr>rd_buf = bs, rd_pos = p\<rparr> of
              Inl e \<Rightarrow> Some (Inl e)
            | Inr (tag, r1) \<Rightarrow>
                (case field tag obj r1 of
                   None \<Rightarrow> None
                 | Some res \<Rightarrow>
                     (case res of Inl e \<Rightarrow> Some (Inl e) | Inr (obj', r2) \<Rightarrow> decodeFields demoRuntime field stop r2 obj')))
      else Some (Inr (obj, \<lparr>rd_buf = bs, rd_pos = p\<rparr>)))"
  by (subst decodeFields.simps) (simp add: demo_reader)

lemmas demo_run = demo_decodeFields demoRead_def demoVarint_def demoBytes_def demo_reader demoSigned_def readValue_def fieldNumber_def
  advance_def drop_bit_eq_div skipField_def

end
