(* ===== verification/ProtoMessage.thy ===== *)
theory ProtoMessage
  imports ProtobufDemo Message
begin

text \<open>
  \<open>packages/proto/src/generated/message.ts\<close> and \<open>topic_only_message.ts\<close>: the codecs of a Waku message, of its rate limit proof and of
  the message of which only the topic is read. A required field that is missing in a partial object is written like its default, so the
  required fields of the records are not optional. Each decoder takes the limits of its options.
\<close>

section \<open>RateLimitProof\<close>

definition RateLimitProof_encode :: "'w pbRuntime \<Rightarrow> bool \<Rightarrow> rateLimitProof \<Rightarrow> 'w \<Rightarrow> 'w" where
  "RateLimitProof_encode RT lengthDelimited obj =
     delimited RT lengthDelimited
       [writeField RT (0 < length (rl_proof obj)) 10 (rt_wBytes RT (rl_proof obj)),
        writeField RT (0 < length (rl_merkleRoot obj)) 18 (rt_wBytes RT (rl_merkleRoot obj)),
        writeField RT (0 < length (rl_epoch obj)) 26 (rt_wBytes RT (rl_epoch obj)),
        writeField RT (0 < length (rl_shareX obj)) 34 (rt_wBytes RT (rl_shareX obj)),
        writeField RT (0 < length (rl_shareY obj)) 42 (rt_wBytes RT (rl_shareY obj)),
        writeField RT (0 < length (rl_nullifier obj)) 50 (rt_wBytes RT (rl_nullifier obj)),
        writeField RT (0 < length (rl_rlnIdentifier obj)) 58 (rt_wBytes RT (rl_rlnIdentifier obj))]"

definition RateLimitProof_initial :: rateLimitProof where
  "RateLimitProof_initial =
     \<lparr>rl_proof = [], rl_merkleRoot = [], rl_epoch = [], rl_shareX = [], rl_shareY = [], rl_nullifier = [], rl_rlnIdentifier = []\<rparr>"

definition RateLimitProof_field :: "'w pbRuntime \<Rightarrow> pbLimits option \<Rightarrow> rateLimitProof pbField" where
  "RateLimitProof_field RT lim tag obj =
     (if fieldNumber tag = 1 then readValue (rt_bytes RT) (\<lambda>v. obj\<lparr>rl_proof := v\<rparr>)
      else if fieldNumber tag = 2 then readValue (rt_bytes RT) (\<lambda>v. obj\<lparr>rl_merkleRoot := v\<rparr>)
      else if fieldNumber tag = 3 then readValue (rt_bytes RT) (\<lambda>v. obj\<lparr>rl_epoch := v\<rparr>)
      else if fieldNumber tag = 4 then readValue (rt_bytes RT) (\<lambda>v. obj\<lparr>rl_shareX := v\<rparr>)
      else if fieldNumber tag = 5 then readValue (rt_bytes RT) (\<lambda>v. obj\<lparr>rl_shareY := v\<rparr>)
      else if fieldNumber tag = 6 then readValue (rt_bytes RT) (\<lambda>v. obj\<lparr>rl_nullifier := v\<rparr>)
      else if fieldNumber tag = 7 then readValue (rt_bytes RT) (\<lambda>v. obj\<lparr>rl_rlnIdentifier := v\<rparr>)
      else skipField RT tag obj)"

definition RateLimitProof_decode ::
  "'w pbRuntime \<Rightarrow> pbLimits option \<Rightarrow> nat option \<Rightarrow> pbReader \<Rightarrow> (rateLimitProof \<times> pbReader) res option" where
  "RateLimitProof_decode RT lim = decodeFrom RT (RateLimitProof_field RT lim) RateLimitProof_initial"

section \<open>WakuMessage\<close>

definition WakuMessage_encode :: "'w pbRuntime \<Rightarrow> bool \<Rightarrow> wireMessage \<Rightarrow> 'w \<Rightarrow> 'w" where
  "WakuMessage_encode RT lengthDelimited obj =
     delimited RT lengthDelimited
       [writeField RT (0 < length (wire_payload obj)) 10 (rt_wBytes RT (wire_payload obj)),
        writeField RT (wire_contentTopic obj \<noteq> []) 18 (rt_wString RT (wire_contentTopic obj)),
        writeOpt RT 24 (rt_wUint32 RT) (propVal (wire_version obj)),
        writeOpt RT 80 (rt_wSint64 RT) (propVal (wire_timestamp obj)),
        writeOpt RT 90 (rt_wBytes RT) (propVal (wire_meta obj)),
        writeOpt RT 170 (RateLimitProof_encode RT True) (propVal (wire_rateLimitProof obj)),
        writeOpt RT 248 (rt_wBool RT) (propVal (wire_ephemeral obj))]"

definition WakuMessage_initial :: wireMessage where
  "WakuMessage_initial =
     \<lparr>wire_payload = [], wire_contentTopic = [], wire_version = Absent, wire_timestamp = Absent, wire_meta = Absent,
      wire_rateLimitProof = Absent, wire_ephemeral = Absent\<rparr>"

definition WakuMessage_field :: "'w pbRuntime \<Rightarrow> pbLimits option \<Rightarrow> wireMessage pbField" where
  "WakuMessage_field RT lim tag obj =
     (if fieldNumber tag = 1 then readValue (rt_bytes RT) (\<lambda>v. obj\<lparr>wire_payload := v\<rparr>)
      else if fieldNumber tag = 2 then readValue (rt_string RT) (\<lambda>v. obj\<lparr>wire_contentTopic := v\<rparr>)
      else if fieldNumber tag = 3 then readValue (readUint RT) (\<lambda>v. obj\<lparr>wire_version := Val v\<rparr>)
      else if fieldNumber tag = 10 then readValue (rt_sint64 RT) (\<lambda>v. obj\<lparr>wire_timestamp := Val v\<rparr>)
      else if fieldNumber tag = 11 then readValue (rt_bytes RT) (\<lambda>v. obj\<lparr>wire_meta := Val v\<rparr>)
      else if fieldNumber tag = 21
        then readMessage RT (RateLimitProof_decode RT (limitOf lim ''rateLimitProof'')) (\<lambda>v. obj\<lparr>wire_rateLimitProof := Val v\<rparr>)
      else if fieldNumber tag = 31 then readValue (rt_bool RT) (\<lambda>v. obj\<lparr>wire_ephemeral := Val v\<rparr>)
      else skipField RT tag obj)"

definition WakuMessage_decode ::
  "'w pbRuntime \<Rightarrow> pbLimits option \<Rightarrow> nat option \<Rightarrow> pbReader \<Rightarrow> (wireMessage \<times> pbReader) res option" where
  "WakuMessage_decode RT lim = decodeFrom RT (WakuMessage_field RT lim) WakuMessage_initial"

section \<open>TopicOnlyMessage\<close>

definition TopicOnlyMessage_encode :: "'w pbRuntime \<Rightarrow> bool \<Rightarrow> string \<Rightarrow> 'w \<Rightarrow> 'w" where
  "TopicOnlyMessage_encode RT lengthDelimited contentTopic =
     delimited RT lengthDelimited [writeField RT (contentTopic \<noteq> []) 18 (rt_wString RT contentTopic)]"

definition TopicOnlyMessage_field :: "'w pbRuntime \<Rightarrow> pbLimits option \<Rightarrow> string pbField" where
  "TopicOnlyMessage_field RT lim tag contentTopic =
     (if fieldNumber tag = 2 then readValue (rt_string RT) (\<lambda>v. v) else skipField RT tag contentTopic)"

definition TopicOnlyMessage_decode ::
  "'w pbRuntime \<Rightarrow> pbLimits option \<Rightarrow> nat option \<Rightarrow> pbReader \<Rightarrow> (string \<times> pbReader) res option" where
  "TopicOnlyMessage_decode RT lim = decodeFrom RT (TopicOnlyMessage_field RT lim) []"

section \<open>What they write and read\<close>

lemma fieldNumber_of: "fieldNumber (word_of_int t) = (t mod 2 ^ 32) div 8"
  by (simp add: fieldNumber_def uint_word_of_int uint_div drop_bit_eq_div)

definition fits :: "bytes \<Rightarrow> bool" where
  "fits b \<longleftrightarrow> length b < 2 ^ 32"

text \<open>What comes back of a message: a property that is \<open>undefined\<close> is not written.\<close>

definition settled :: "'a jsprop \<Rightarrow> 'a jsprop" where
  "settled p = (case propVal p of None \<Rightarrow> Absent | Some v \<Rightarrow> Val v)"

definition WakuMessage_settled :: "wireMessage \<Rightarrow> wireMessage" where
  "WakuMessage_settled m =
     m\<lparr>wire_version := settled (wire_version m), wire_timestamp := settled (wire_timestamp m), wire_meta := settled (wire_meta m),
       wire_rateLimitProof := settled (wire_rateLimitProof m), wire_ephemeral := settled (wire_ephemeral m)\<rparr>"

definition holds :: "('a \<Rightarrow> bool) \<Rightarrow> 'a option \<Rightarrow> bool" where
  "holds P opt = (case opt of None \<Rightarrow> True | Some v \<Rightarrow> P v)"

lemma holds_simps [simp]: "holds P None" "holds P (Some v) = P v"
  by (simp_all add: holds_def)

lemma holdsD: "holds P opt \<Longrightarrow> opt = Some v \<Longrightarrow> P v"
  by simp

definition RateLimitProof_fields :: "pbFormat \<Rightarrow> rateLimitProof \<Rightarrow> (int \<times> bytes) list" where
  "RateLimitProof_fields F p = concat
     [if 0 < length (rl_proof p) then [(10, pf_bytes F (rl_proof p))] else [],
      if 0 < length (rl_merkleRoot p) then [(18, pf_bytes F (rl_merkleRoot p))] else [],
      if 0 < length (rl_epoch p) then [(26, pf_bytes F (rl_epoch p))] else [],
      if 0 < length (rl_shareX p) then [(34, pf_bytes F (rl_shareX p))] else [],
      if 0 < length (rl_shareY p) then [(42, pf_bytes F (rl_shareY p))] else [],
      if 0 < length (rl_nullifier p) then [(50, pf_bytes F (rl_nullifier p))] else [],
      if 0 < length (rl_rlnIdentifier p) then [(58, pf_bytes F (rl_rlnIdentifier p))] else []]"

definition RateLimitProof_ok :: "pbFormat \<Rightarrow> rateLimitProof \<Rightarrow> bool" where
  "RateLimitProof_ok F p \<longleftrightarrow> list_all fits
     [rl_proof p, rl_merkleRoot p, rl_epoch p, rl_shareX p, rl_shareY p, rl_nullifier p, rl_rlnIdentifier p]"

definition WakuMessage_fields :: "pbFormat \<Rightarrow> wireMessage \<Rightarrow> (int \<times> bytes) list" where
  "WakuMessage_fields F m = concat
     [if 0 < length (wire_payload m) then [(10, pf_bytes F (wire_payload m))] else [],
      if wire_contentTopic m \<noteq> [] then [(18, pf_string F (wire_contentTopic m))] else [],
      case propVal (wire_version m) of None \<Rightarrow> [] | Some v \<Rightarrow> [(24, pf_uint32 F v)],
      case propVal (wire_timestamp m) of None \<Rightarrow> [] | Some v \<Rightarrow> [(80, pf_sint64 F v)],
      case propVal (wire_meta m) of None \<Rightarrow> [] | Some v \<Rightarrow> [(90, pf_bytes F v)],
      case propVal (wire_rateLimitProof m) of None \<Rightarrow> [] | Some v \<Rightarrow> [(170, pf_bytes F (wire F (RateLimitProof_fields F v)))],
      case propVal (wire_ephemeral m) of None \<Rightarrow> [] | Some v \<Rightarrow> [(248, pf_bool F v)]]"

definition WakuMessage_ok :: "pbFormat \<Rightarrow> wireMessage \<Rightarrow> bool" where
  "WakuMessage_ok F m \<longleftrightarrow> fits (wire_payload m) \<and> fits (pf_utf8 F (wire_contentTopic m)) \<and>
     holds (\<lambda>v. 0 \<le> v \<and> v < 2 ^ 32) (propVal (wire_version m)) \<and>
     holds (\<lambda>v. -(2 ^ 63) \<le> v \<and> v < 2 ^ 63) (propVal (wire_timestamp m)) \<and>
     holds fits (propVal (wire_meta m)) \<and>
     holds (\<lambda>p. RateLimitProof_ok F p \<and> fits (wire F (RateLimitProof_fields F p))) (propVal (wire_rateLimitProof m))"

context pb_runtime
begin

lemma RateLimitProof_tags:
  "RateLimitProof_field RT lim (word_of_int 10) obj r = readValue (rt_bytes RT) (\<lambda>v. obj\<lparr>rl_proof := v\<rparr>) r"
  "RateLimitProof_field RT lim (word_of_int 18) obj r = readValue (rt_bytes RT) (\<lambda>v. obj\<lparr>rl_merkleRoot := v\<rparr>) r"
  "RateLimitProof_field RT lim (word_of_int 26) obj r = readValue (rt_bytes RT) (\<lambda>v. obj\<lparr>rl_epoch := v\<rparr>) r"
  "RateLimitProof_field RT lim (word_of_int 34) obj r = readValue (rt_bytes RT) (\<lambda>v. obj\<lparr>rl_shareX := v\<rparr>) r"
  "RateLimitProof_field RT lim (word_of_int 42) obj r = readValue (rt_bytes RT) (\<lambda>v. obj\<lparr>rl_shareY := v\<rparr>) r"
  "RateLimitProof_field RT lim (word_of_int 50) obj r = readValue (rt_bytes RT) (\<lambda>v. obj\<lparr>rl_nullifier := v\<rparr>) r"
  "RateLimitProof_field RT lim (word_of_int 58) obj r = readValue (rt_bytes RT) (\<lambda>v. obj\<lparr>rl_rlnIdentifier := v\<rparr>) r"
  unfolding RateLimitProof_field_def fieldNumber_of by simp_all

lemma RateLimitProof_encode_wire:
  "writes (RateLimitProof_encode RT ld m) (if ld then pf_bytes F (wire F (RateLimitProof_fields F m)) else wire F (RateLimitProof_fields F m))"
  unfolding RateLimitProof_encode_def RateLimitProof_fields_def
  by (intro writes_delimited list.rel_intros writes_field writes_values)

lemma RateLimitProof_reads:
  assumes ok: "RateLimitProof_ok F m"
  shows "readsAll (RateLimitProof_field RT lim) (RateLimitProof_fields F m) RateLimitProof_initial m"
  unfolding RateLimitProof_fields_def
  by (rule readsAll_concat chunk_if RateLimitProof_tags readsAs_values |
      simp add: RateLimitProof_initial_def ok [unfolded RateLimitProof_ok_def fits_def, simplified])+

lemma RateLimitProof_ends: "ends r (RateLimitProof_field RT lim tag obj r)"
  by (simp add: RateLimitProof_field_def ends_values)

end

sublocale pb_runtime \<subseteq> rateLimitProof: message_codec RT F buffers "RateLimitProof_encode RT" "RateLimitProof_field RT"
    RateLimitProof_initial "RateLimitProof_fields F" "RateLimitProof_ok F" "\<lambda>m. m"
  by unfold_locales (rule RateLimitProof_encode_wire RateLimitProof_reads RateLimitProof_ends, assumption?)+

context pb_runtime
begin

lemmas RateLimitProof_readsAs = rateLimitProof.readsAs_nested [folded RateLimitProof_decode_def]

lemma WakuMessage_tags:
  "WakuMessage_field RT None (word_of_int 10) obj r = readValue (rt_bytes RT) (\<lambda>v. obj\<lparr>wire_payload := v\<rparr>) r"
  "WakuMessage_field RT None (word_of_int 18) obj r = readValue (rt_string RT) (\<lambda>v. obj\<lparr>wire_contentTopic := v\<rparr>) r"
  "WakuMessage_field RT None (word_of_int 24) obj r = readValue (readUint RT) (\<lambda>v. obj\<lparr>wire_version := Val v\<rparr>) r"
  "WakuMessage_field RT None (word_of_int 80) obj r = readValue (rt_sint64 RT) (\<lambda>v. obj\<lparr>wire_timestamp := Val v\<rparr>) r"
  "WakuMessage_field RT None (word_of_int 90) obj r = readValue (rt_bytes RT) (\<lambda>v. obj\<lparr>wire_meta := Val v\<rparr>) r"
  "WakuMessage_field RT None (word_of_int 170) obj r =
     readMessage RT (RateLimitProof_decode RT None) (\<lambda>v. obj\<lparr>wire_rateLimitProof := Val v\<rparr>) r"
  "WakuMessage_field RT None (word_of_int 248) obj r = readValue (rt_bool RT) (\<lambda>v. obj\<lparr>wire_ephemeral := Val v\<rparr>) r"
  unfolding WakuMessage_field_def fieldNumber_of by (simp_all add: limitOf_def)

lemma WakuMessage_encode_wire:
  "writes (WakuMessage_encode RT ld m) (if ld then pf_bytes F (wire F (WakuMessage_fields F m)) else wire F (WakuMessage_fields F m))"
  unfolding WakuMessage_encode_def WakuMessage_fields_def
  by (intro writes_delimited list.rel_intros writes_field writes_opt writes_values rateLimitProof.encode_nested)

lemma WakuMessage_reads:
  assumes ok: "WakuMessage_ok F m"
  shows "readsAll (WakuMessage_field RT None) (WakuMessage_fields F m) WakuMessage_initial (WakuMessage_settled m)"
  unfolding WakuMessage_fields_def
  using ok [unfolded WakuMessage_ok_def fits_def]
  by - (rule readsAll_concat chunk_if chunk_prop WakuMessage_tags readsAs_values RateLimitProof_readsAs |
      simp add: WakuMessage_initial_def WakuMessage_settled_def settled_def)+

lemma WakuMessage_ends: "ends r (WakuMessage_field RT lim tag obj r)"
  unfolding WakuMessage_field_def RateLimitProof_decode_def
  by (simp add: ends_values rateLimitProof.ends_nested)

end

sublocale pb_runtime \<subseteq> wakuMessage: message_codec RT F buffers "WakuMessage_encode RT" "WakuMessage_field RT"
    WakuMessage_initial "WakuMessage_fields F" "WakuMessage_ok F" WakuMessage_settled
  by unfold_locales (rule WakuMessage_encode_wire WakuMessage_reads WakuMessage_ends, assumption?)+

context pb_runtime
begin

lemmas WakuMessage_readsAs = wakuMessage.readsAs_nested [folded WakuMessage_decode_def]

lemma TopicOnlyMessage_tags:
  "TopicOnlyMessage_field RT lim (word_of_int 18) obj r = readValue (rt_string RT) (\<lambda>v. v) r"
  "TopicOnlyMessage_field RT lim (word_of_int 10) obj r = skipField RT (word_of_int 10) obj r"
  "TopicOnlyMessage_field RT lim (word_of_int 24) obj r = skipField RT (word_of_int 24) obj r"
  "TopicOnlyMessage_field RT lim (word_of_int 80) obj r = skipField RT (word_of_int 80) obj r"
  "TopicOnlyMessage_field RT lim (word_of_int 90) obj r = skipField RT (word_of_int 90) obj r"
  "TopicOnlyMessage_field RT lim (word_of_int 170) obj r = skipField RT (word_of_int 170) obj r"
  "TopicOnlyMessage_field RT lim (word_of_int 248) obj r = skipField RT (word_of_int 248) obj r"
  unfolding TopicOnlyMessage_field_def fieldNumber_of by simp_all

lemma TopicOnlyMessage_ends: "ends r (TopicOnlyMessage_field RT lim tag obj r)"
  by (simp add: TopicOnlyMessage_field_def ends_values)

lemma TopicOnlyMessage_encode_wire:
  "writes (TopicOnlyMessage_encode RT ld m)
     (if ld then pf_bytes F (wire F (concat [if m \<noteq> [] then [(18, pf_string F m)] else []]))
      else wire F (concat [if m \<noteq> [] then [(18, pf_string F m)] else []]))"
  unfolding TopicOnlyMessage_encode_def
  by (intro writes_delimited list.rel_intros writes_field writes_values)

lemma TopicOnlyMessage_reads:
  "fits (pf_utf8 F m) \<Longrightarrow> readsAll (TopicOnlyMessage_field RT lim) (concat [if m \<noteq> [] then [(18, pf_string F m)] else []]) [] m"
  by (rule readsAll_concat chunk_if [where assign = "\<lambda>_ v. v"] TopicOnlyMessage_tags readsAs_values | simp add: fits_def)+

text \<open>The fields of a whole message, read for the topic only.\<close>

lemma TopicOnlyMessage_of_WakuMessage:
  "WakuMessage_ok F m \<Longrightarrow> readsAll (TopicOnlyMessage_field RT lim) (WakuMessage_fields F m) [] (wire_contentTopic m)"
  unfolding WakuMessage_fields_def WakuMessage_ok_def fits_def
  by (rule readsAll_concat chunk_if [where assign = "\<lambda>_ v. v"] skip_if skip_opt TopicOnlyMessage_tags readsAs_values skippable_values | simp)+

end

sublocale pb_runtime \<subseteq> topicOnlyMessage: message_codec RT F buffers "TopicOnlyMessage_encode RT" "TopicOnlyMessage_field RT"
    "[]" "\<lambda>m. concat [if m \<noteq> [] then [(18, pf_string F m)] else []]" "\<lambda>m. fits (pf_utf8 F m)" "\<lambda>m. m"
  by unfold_locales (rule TopicOnlyMessage_encode_wire TopicOnlyMessage_reads TopicOnlyMessage_ends, assumption?)+

context pb_runtime
begin

lemma WakuMessage_roundtrip:
  "WakuMessage_ok F m \<Longrightarrow>
   decodeBytes RT (WakuMessage_decode RT None) (encodeBytes RT (WakuMessage_encode RT) m) = Some (Inr (WakuMessage_settled m))"
  unfolding WakuMessage_decode_def by (rule wakuMessage.roundtrip)

lemma TopicOnlyMessage_reads_topic:
  assumes ok: "WakuMessage_ok F m"
  shows "decodeBytes RT (TopicOnlyMessage_decode RT lim) (encodeBytes RT (WakuMessage_encode RT) m) = Some (Inr (wire_contentTopic m))"
  using decodeFields_reads [OF TopicOnlyMessage_of_WakuMessage [OF ok], of "\<lparr>rd_buf = wire F (WakuMessage_fields F m), rd_pos = 0\<rparr>" lim]
  by (simp add: wakuMessage.encodeBytes_wire decodeBytes_def decodeFrom_def createReader comes_def TopicOnlyMessage_decode_def)

lemma WakuMessage_decode_returns: "decodeBytes RT (WakuMessage_decode RT lim) bs \<noteq> None"
  unfolding WakuMessage_decode_def by (rule wakuMessage.decode_returns)

lemma TopicOnlyMessage_decode_returns: "decodeBytes RT (TopicOnlyMessage_decode RT lim) bs \<noteq> None"
  unfolding TopicOnlyMessage_decode_def by (rule topicOnlyMessage.decode_returns)

end

section \<open>Messages on the wire\<close>

text \<open>
  What the encoder and the decoder of \<open>version_0.ts\<close> make of these codecs: the object given to \<open>encode\<close> has all its properties, and of
  the decoded object only the values of the properties are used.
\<close>

definition propOf :: "'a option \<Rightarrow> 'a jsprop" where
  "propOf opt = (case opt of None \<Rightarrow> Undefined | Some v \<Rightarrow> Val v)"

lemma propVal_propOf [simp]: "propVal (propOf opt) = opt" "propVal (settled p) = propVal p"
  by (auto simp: propOf_def settled_def split: option.splits)

definition wireOf :: "protoMessage \<Rightarrow> wireMessage" where
  "wireOf p =
     \<lparr>wire_payload = pm_payload p, wire_contentTopic = pm_contentTopic p, wire_version = propOf (pm_version p),
      wire_timestamp = propOf (pm_timestamp p), wire_meta = propOf (pm_meta p), wire_rateLimitProof = propOf (pm_rateLimitProof p),
      wire_ephemeral = propOf (pm_ephemeral p)\<rparr>"

definition protoOf :: "wireMessage \<Rightarrow> protoMessage" where
  "protoOf w =
     \<lparr>pm_payload = wire_payload w, pm_contentTopic = wire_contentTopic w, pm_version = propVal (wire_version w),
      pm_timestamp = propVal (wire_timestamp w), pm_meta = propVal (wire_meta w), pm_rateLimitProof = propVal (wire_rateLimitProof w),
      pm_ephemeral = propVal (wire_ephemeral w)\<rparr>"

lemma protoOf_wireOf [simp]: "protoOf (WakuMessage_settled (wireOf p)) = p"
  by (simp add: protoOf_def wireOf_def WakuMessage_settled_def)

definition wakuEncode :: "'w pbRuntime \<Rightarrow> protoMessage \<Rightarrow> bytes" where
  "wakuEncode RT p = encodeBytes RT (WakuMessage_encode RT) (wireOf p)"

text \<open>A decoder as a function to results; decoders return (\<open>WakuMessage_decode_returns\<close>), so the first case does not occur.\<close>

definition returned :: "'a res option \<Rightarrow> 'a res" where
  "returned d = (case d of None \<Rightarrow> Inl (Error ''does not return'') | Some r \<Rightarrow> r)"

lemma returned_Some [simp]: "returned (Some r) = r"
  by (simp add: returned_def)

definition wakuDecode :: "'w pbRuntime \<Rightarrow> bytes \<Rightarrow> protoMessage res" where
  "wakuDecode RT bs = rbind (returned (decodeBytes RT (WakuMessage_decode RT None) bs)) (\<lambda>w. Inr (protoOf w))"

definition messageFits :: "pbFormat \<Rightarrow> encoder \<Rightarrow> message \<Rightarrow> bool" where
  "messageFits F enc msg \<longleftrightarrow> fits (msg_payload msg) \<and> fits (pf_utf8 F (enc_contentTopic enc)) \<and>
     holds (\<lambda>p. RateLimitProof_ok F p \<and> fits (wire F (RateLimitProof_fields F p))) (msg_rateLimitProof msg)"

lemma wakuDecode_wakuEncode:
  "pbLaws RT F buffers \<Longrightarrow> WakuMessage_ok F (wireOf p) \<Longrightarrow> wakuDecode RT (wakuEncode RT p) = Inr p"
  by (simp add: wakuDecode_def wakuEncode_def pb_runtime.WakuMessage_roundtrip pbLaws_def)

lemma sent_message_ok:
  assumes "messageFits F enc msg" "\<And>s p. enc_metaSetter enc = Some s \<Longrightarrow> fits (s p)"
    and date: "nullish (msg_timestamp msg) now = Some ms" "\<bar>ms\<bar> < 9000000000000" and p: "toProtoObj enc now msg = Inr p"
  shows "WakuMessage_ok F (wireOf p)"
proof -
  have "- (2 ^ 63) \<le> ms * 1000000 \<and> ms * 1000000 < 2 ^ 63" using date(2) by (simp add: abs_less_iff)
  then show ?thesis using assms
    by (auto simp: toProtoObj_def Let_def bigIntOfDate_def Version_def OneMillion_def WakuMessage_ok_def wireOf_def messageFits_def
        split: option.splits)
qed

text \<open>C1: A message that the encoder of version 0 sends through the generated codec arrives: the decoder returns it for the topic it was received
  on, as a message of version 0 with the payload, content topic, ephemeral flag and proof that were sent. Its meta field is what the setter
  of the encoder makes of the message without one, and absent when the encoder has no setter. Its timestamp is the date of the message in
  nanoseconds and its date is that date, except at the epoch: a message of date 0 is received without a date. Whoever reads only the topic
  of the same bytes, as relay does for every message, reads its content topic. The parts of the message are below four gigabytes and its
  date is valid and in the range of a 64-bit number of nanoseconds.\<close>

theorem message_arrives_on_the_wire:
  assumes laws: "pbLaws RT F buffers" and msg: "messageFits F enc msg" "\<And>s p. enc_metaSetter enc = Some s \<Longrightarrow> fits (s p)"
    and date: "nullish (msg_timestamp msg) now = Some ms" "\<bar>ms\<bar> < 9000000000000"
  shows "\<exists>bs p m. toWire (wakuEncode RT) enc now msg = Inr bs \<and> fromWireToProtoObj (wakuDecode RT) bs = Inr p \<and>
    fromProtoObj topic p = Some m \<and> dm_payload m = msg_payload msg \<and> dm_contentTopic m = enc_contentTopic enc \<and>
    dm_ephemeral m = enc_ephemeral enc \<and> dm_rateLimitProof m = msg_rateLimitProof msg \<and>
    dm_version m = 0 \<and> dm_pubsubTopic m = topic \<and>
    dm_meta m = map_option (\<lambda>setter. setter
      \<lparr>pm_payload = msg_payload msg, pm_contentTopic = enc_contentTopic enc, pm_version = Some 0, pm_timestamp = Some (ms * 1000000),
       pm_meta = None, pm_rateLimitProof = msg_rateLimitProof msg, pm_ephemeral = Some (enc_ephemeral enc)\<rparr>) (enc_metaSetter enc) \<and>
    dm_rawTimestamp m = Some (ms * 1000000) \<and> dm_timestamp m = (if ms = 0 then None else Some (Some ms)) \<and>
    decodeBytes RT (TopicOnlyMessage_decode RT lim) bs = Some (Inr (enc_contentTopic enc))"
proof -
  obtain q where q: "toProtoObj enc now msg = Inr q"
    using date by (auto simp: toProtoObj_def Let_def bigIntOfDate_def)
  have ok: "WakuMessage_ok F (wireOf q)" using msg(2) by (rule sent_message_ok [OF msg(1) _ date q])
  define m where "m = \<lparr>dm_pubsubTopic = topic, dm_proto = q\<rparr>"
  have fields: "pm_payload q = msg_payload msg" "pm_contentTopic q = enc_contentTopic enc" "pm_version q = Some 0"
      "pm_timestamp q = Some (ms * 1000000)" "pm_rateLimitProof q = msg_rateLimitProof msg" "pm_ephemeral q = Some (enc_ephemeral enc)"
    using q date by (auto simp: toProtoObj_def Let_def bigIntOfDate_def Version_def OneMillion_def split: option.splits)
  have meta: "pm_meta q = map_option (\<lambda>setter. setter
      \<lparr>pm_payload = msg_payload msg, pm_contentTopic = enc_contentTopic enc, pm_version = Some 0, pm_timestamp = Some (ms * 1000000),
       pm_meta = None, pm_rateLimitProof = msg_rateLimitProof msg, pm_ephemeral = Some (enc_ephemeral enc)\<rparr>) (enc_metaSetter enc)"
    using q date by (auto simp: toProtoObj_def Let_def bigIntOfDate_def Version_def OneMillion_def split: option.splits)
  have "dm_timestamp m = Some (Some ms)" if "ms \<noteq> 0"
    using dm_timestamp_exact [of m "ms * 1000000"] that fields(4) date(2) by (simp add: m_def OneMillion_def js_quot_mult abs_mult)
  then have "dm_timestamp m = (if ms = 0 then None else Some (Some ms))"
    using fields(4) by (simp add: dm_timestamp_def m_def)
  moreover have "decodeBytes RT (TopicOnlyMessage_decode RT lim) (wakuEncode RT q) = Some (Inr (enc_contentTopic enc))"
    using pb_runtime.TopicOnlyMessage_reads_topic [OF laws [unfolded pbLaws_def] ok, of lim] fields(2)
    by (simp add: wakuEncode_def wireOf_def)
  moreover have "toWire (wakuEncode RT) enc now msg = Inr (wakuEncode RT q)" using q by (simp add: toWire_def)
  moreover have "fromWireToProtoObj (wakuDecode RT) (wakuEncode RT q) = Inr q"
    using wakuDecode_wakuEncode [OF laws ok] fields(6) by (simp add: fromWireToProtoObj_def)
  moreover have "fromProtoObj topic q = Some m" using fields(3) by (simp add: fromProtoObj_def versionRejected_def m_def)
  ultimately show ?thesis
    using fields meta
    by (intro exI [of _ "wakuEncode RT q"] exI [of _ q] exI [of _ m])
       (simp add: m_def dm_payload_def dm_contentTopic_def dm_ephemeral_def dm_rateLimitProof_def dm_version_def dm_meta_def dm_rawTimestamp_def)
qed

theorem message_arrives_on_the_wire_witness:
  "\<exists>bs p m. toWire (wakuEncode demoRuntime) (demoEncoder\<lparr>enc_metaSetter := Some (take 1 \<circ> pm_payload)\<rparr>) None demoMessage = Inr bs \<and>
     fromWireToProtoObj (wakuDecode demoRuntime) bs = Inr p \<and> fromProtoObj ''t'' p = Some m \<and> dm_payload m = [4, 5] \<and>
     dm_meta m = Some [4] \<and> dm_timestamp m = Some (Some 7) \<and>
     decodeBytes demoRuntime (TopicOnlyMessage_decode demoRuntime None) bs = Some (Inr ''/app/1/name/proto'')"
proof -
  let ?enc = "demoEncoder\<lparr>enc_metaSetter := Some (take 1 \<circ> pm_payload)\<rparr>"
  have "messageFits demoFormat ?enc demoMessage"
    by (simp add: messageFits_def demoEncoder_def demoMessage_def demoFormat_def fits_def)
  moreover have "fits (s p)" if "enc_metaSetter ?enc = Some s" for s p
    using that by (auto simp: fits_def)
  ultimately show ?thesis
    using message_arrives_on_the_wire [OF demoPb_laws, of ?enc demoMessage None 7 "''t''" None]
    by (fastforce simp: demoEncoder_def demoMessage_def)
qed

section \<open>Whatever bytes arrive\<close>

text \<open>The type of a message on the wire: no property is there with the value \<open>undefined\<close>, and the numbers are in their ranges.\<close>

definition WakuMessage_typed :: "wireMessage \<Rightarrow> bool" where
  "WakuMessage_typed m \<longleftrightarrow>
     wire_version m \<noteq> Undefined \<and> wire_timestamp m \<noteq> Undefined \<and> wire_meta m \<noteq> Undefined \<and>
     wire_rateLimitProof m \<noteq> Undefined \<and> wire_ephemeral m \<noteq> Undefined \<and>
     holds (\<lambda>v. 0 \<le> v \<and> v < 2 ^ 32) (propVal (wire_version m)) \<and>
     holds (\<lambda>v. -(2 ^ 63) \<le> v \<and> v < 2 ^ 63) (propVal (wire_timestamp m))"

context pb_runtime
begin

lemma WakuMessage_field_typed:
  assumes "WakuMessage_typed obj" and "WakuMessage_field RT lim tag obj r = Some (Inr (obj', r'))"
  shows "WakuMessage_typed obj'"
proof -
  have version: "readUint RT r = Inr (v, r') \<Longrightarrow> 0 \<le> v \<and> v < 2 ^ 32" for v
    using uint_lt2p [where 'a = 32] by (auto simp: readUint_def rbind_eq_Inr)
  from assms show ?thesis
    by (auto simp: WakuMessage_field_def WakuMessage_typed_def readValue_def readMessage_def
        skipField_def rbind_eq_Inr split: if_splits sum.splits dest: version rSint64_range)
qed

lemma WakuMessage_decode_typed: "decodeBytes RT (WakuMessage_decode RT lim) bs = Some (Inr m) \<Longrightarrow> WakuMessage_typed m"
proof -
  assume "decodeBytes RT (WakuMessage_decode RT lim) bs = Some (Inr m)"
  then obtain r' where "decodeFields RT (WakuMessage_field RT lim) (length bs) \<lparr>rd_buf = bs, rd_pos = 0\<rparr> WakuMessage_initial = Some (Inr (m, r'))"
    by (auto simp: decodeBytes_def WakuMessage_decode_def decodeFrom_def createReader rbind_eq_Inr)
  moreover have "WakuMessage_typed WakuMessage_initial"
    by (simp add: WakuMessage_typed_def WakuMessage_initial_def)
  ultimately show ?thesis using WakuMessage_field_typed by (rule decodeFields_keeps [rotated])
qed

end

text \<open>C10: Every message that the decoder of version 0 accepts is well formed, whatever bytes a peer sends: its version is 0, its timestamp is
  a signed 64-bit number, its date is absent exactly when the timestamp is absent or 0 and otherwise the valid date of the timestamp in
  whole milliseconds, and its ephemeral flag is set.\<close>

theorem received_message_typed:
  assumes laws: "pbLaws RT F buffers" and p: "fromWireToProtoObj (wakuDecode RT) bs = Inr p" and m: "fromProtoObj topic p = Some m"
  shows "dm_version m = 0 \<and> dm_pubsubTopic m = topic \<and> pm_ephemeral (dm_proto m) = Some (dm_ephemeral m) \<and>
    (case dm_rawTimestamp m of
       None \<Rightarrow> dm_timestamp m = None
     | Some t \<Rightarrow> -(2 ^ 63) \<le> t \<and> t < 2 ^ 63 \<and> dm_timestamp m = (if t = 0 then None else Some (Some (js_quot t OneMillion))))"
proof -
  obtain w where w: "decodeBytes RT (WakuMessage_decode RT None) bs = Some (Inr w)"
      "p = protoOf w\<lparr>pm_ephemeral := Some (nullish (pm_ephemeral (protoOf w)) False)\<rparr>"
    using p pb_runtime.WakuMessage_decode_returns [OF laws [unfolded pbLaws_def], of None bs]
    by (auto simp: fromWireToProtoObj_def wakuDecode_def rbind_eq_Inr)
  note typed = pb_runtime.WakuMessage_decode_typed [OF laws [unfolded pbLaws_def] w(1), unfolded WakuMessage_typed_def]
  have "pm_version p = None \<or> pm_version p = Some 0" "m = \<lparr>dm_pubsubTopic = topic, dm_proto = p\<rparr>"
    using m by (auto simp: fromProtoObj_def versionRejected_def split: if_splits option.splits)
  moreover have "dm_timestamp m = (if t = 0 then None else Some (Some (js_quot t OneMillion)))" "-(2 ^ 63) \<le> t" "t < 2 ^ 63"
    if t: "dm_rawTimestamp m = Some t" for t
  proof -
    have raw: "propVal (wire_timestamp w) = Some t" "pm_timestamp (dm_proto m) = Some t"
      using t calculation(2) by (simp_all add: dm_rawTimestamp_def w(2) protoOf_def)
    then show range: "-(2 ^ 63) \<le> t" "t < 2 ^ 63" using typed by auto
    then have "\<bar>t\<bar> \<le> 2 ^ 63" by auto
    then show "dm_timestamp m = (if t = 0 then None else Some (Some (js_quot t OneMillion)))"
      using raw(2) dm_timestamp_valid [OF raw(2)] by (simp add: dm_timestamp_def)
  qed
  ultimately show ?thesis
    by (auto simp: dm_version_def dm_ephemeral_def w(2) dm_rawTimestamp_def dm_timestamp_def split: option.split)
qed

theorem received_message_typed_witness:
  "\<exists>p m. fromWireToProtoObj (wakuDecode demoRuntime) [10, 1, 7, 80, 128, 137, 122] = Inr p \<and> fromProtoObj ''t'' p = Some m \<and>
     dm_version m = 0 \<and> dm_timestamp m = Some (Some 1)"
proof -
  have "fromWireToProtoObj (wakuDecode demoRuntime) [10, 1, 7, 80, 128, 137, 122] =
      Inr (EmptyMessage\<lparr>pm_payload := [7], pm_timestamp := Some 1000000, pm_ephemeral := Some False\<rparr>)"
    unfolding fromWireToProtoObj_def wakuDecode_def decodeBytes_def WakuMessage_decode_def decodeFrom_def
    by (simp add: demo_run WakuMessage_field_def WakuMessage_initial_def protoOf_def EmptyMessage_def)
  moreover obtain m where "fromProtoObj ''t'' (EmptyMessage\<lparr>pm_payload := [7], pm_timestamp := Some 1000000, pm_ephemeral := Some False\<rparr>) = Some m"
      "dm_rawTimestamp m = Some 1000000"
    by (simp add: fromProtoObj_def versionRejected_def EmptyMessage_def Version_def dm_rawTimestamp_def)
  ultimately show ?thesis
    using received_message_typed [OF demoPb_laws] by (fastforce simp: js_quot_def OneMillion_def)
qed

end
