(* ===== verification/ProtoStore.thy ===== *)
theory ProtoStore
  imports ProtoMessage CoreStore
begin

text \<open>
  \<open>packages/proto/src/generated/store\_v3.ts\<close>: the codecs of the store protocol. Its copies of the codecs of a Waku message and of the
  rate limit proof are those of \<open>message.ts\<close>. For each message: the code, what it writes, and that it reads this back.
\<close>

record storeResponseWire = storeQueryResponse +
  sr_requestId :: string
  sr_paginationCursor :: "bytes option"

record storeRequestWire =
  srq_requestId :: string
  srq_includeData :: bool
  srq_pubsubTopic :: "string option"
  srq_contentTopics :: "string list"
  srq_timeStart :: "int option"
  srq_timeEnd :: "int option"
  srq_messageHashes :: "bytes list"
  srq_paginationCursor :: "bytes option"
  srq_paginationForward :: bool
  srq_paginationLimit :: "int option"

section \<open>WakuMessageKeyValue\<close>

definition WakuMessageKeyValue_encode :: "'w pbRuntime \<Rightarrow> bool \<Rightarrow> wakuMessageKeyValue \<Rightarrow> 'w \<Rightarrow> 'w" where
  "WakuMessageKeyValue_encode RT lengthDelimited obj =
     delimited RT lengthDelimited
       [writeOpt RT 10 (rt_wBytes RT) (kv_messageHash obj),
        writeOpt RT 18 (WakuMessage_encode RT True) (kv_message obj),
        writeOpt RT 26 (rt_wString RT) (kv_pubsubTopic obj)]"

definition WakuMessageKeyValue_initial :: wakuMessageKeyValue where
  "WakuMessageKeyValue_initial = \<lparr>kv_messageHash = None, kv_message = None, kv_pubsubTopic = None\<rparr>"

definition WakuMessageKeyValue_field :: "'w pbRuntime \<Rightarrow> pbLimits option \<Rightarrow> wakuMessageKeyValue pbField" where
  "WakuMessageKeyValue_field RT lim tag obj =
     (if fieldNumber tag = 1 then readValue (rt_bytes RT) (\<lambda>v. obj\<lparr>kv_messageHash := Some v\<rparr>)
      else if fieldNumber tag = 2 then readMessage RT (WakuMessage_decode RT (limitOf lim ''message'')) (\<lambda>v. obj\<lparr>kv_message := Some v\<rparr>)
      else if fieldNumber tag = 3 then readValue (rt_string RT) (\<lambda>v. obj\<lparr>kv_pubsubTopic := Some v\<rparr>)
      else skipField RT tag obj)"

definition WakuMessageKeyValue_decode ::
  "'w pbRuntime \<Rightarrow> pbLimits option \<Rightarrow> nat option \<Rightarrow> pbReader \<Rightarrow> (wakuMessageKeyValue \<times> pbReader) res option" where
  "WakuMessageKeyValue_decode RT lim = decodeFrom RT (WakuMessageKeyValue_field RT lim) WakuMessageKeyValue_initial"

definition WakuMessageKeyValue_fields :: "pbFormat \<Rightarrow> wakuMessageKeyValue \<Rightarrow> (int \<times> bytes) list" where
  "WakuMessageKeyValue_fields F m = concat
     [case kv_messageHash m of None \<Rightarrow> [] | Some v \<Rightarrow> [(10, pf_bytes F v)],
      case kv_message m of None \<Rightarrow> [] | Some v \<Rightarrow> [(18, pf_bytes F (wire F (WakuMessage_fields F v)))],
      case kv_pubsubTopic m of None \<Rightarrow> [] | Some v \<Rightarrow> [(26, pf_string F v)]]"

definition WakuMessageKeyValue_ok :: "pbFormat \<Rightarrow> wakuMessageKeyValue \<Rightarrow> bool" where
  "WakuMessageKeyValue_ok F m \<longleftrightarrow> holds (\<lambda>v. fits v) (kv_messageHash m) \<and>
     holds (\<lambda>v. WakuMessage_ok F v \<and> fits (wire F (WakuMessage_fields F v))) (kv_message m) \<and>
     holds (\<lambda>v. fits (pf_utf8 F v)) (kv_pubsubTopic m)"

definition WakuMessageKeyValue_settled :: "wakuMessageKeyValue \<Rightarrow> wakuMessageKeyValue" where
  "WakuMessageKeyValue_settled m = m\<lparr>kv_message := map_option WakuMessage_settled (kv_message m)\<rparr>"

context pb_runtime
begin

lemma WakuMessageKeyValue_tags:
  "WakuMessageKeyValue_field RT None (word_of_int 10) obj r = readValue (rt_bytes RT) (\<lambda>v. obj\<lparr>kv_messageHash := Some v\<rparr>) r"
  "WakuMessageKeyValue_field RT None (word_of_int 18) obj r = readMessage RT (WakuMessage_decode RT None) (\<lambda>v. obj\<lparr>kv_message := Some v\<rparr>) r"
  "WakuMessageKeyValue_field RT None (word_of_int 26) obj r = readValue (rt_string RT) (\<lambda>v. obj\<lparr>kv_pubsubTopic := Some v\<rparr>) r"
  unfolding WakuMessageKeyValue_field_def fieldNumber_of by (simp_all add: limitOf_def readElement_def limitReached_def)

lemma WakuMessageKeyValue_encode_wire:
  "writes (WakuMessageKeyValue_encode RT ld m) (if ld then pf_bytes F (wire F (WakuMessageKeyValue_fields F m)) else wire F (WakuMessageKeyValue_fields F m))"
  unfolding WakuMessageKeyValue_encode_def WakuMessageKeyValue_fields_def
  by (intro writes_delimited list.rel_intros writes_field writes_opt writes_each writes_values wakuMessage.encode_nested)

lemma WakuMessageKeyValue_reads:
  assumes ok: "WakuMessageKeyValue_ok F m"
  shows "readsAll (WakuMessageKeyValue_field RT None) (WakuMessageKeyValue_fields F m) WakuMessageKeyValue_initial (WakuMessageKeyValue_settled m)"
  unfolding WakuMessageKeyValue_fields_def
  using ok [unfolded WakuMessageKeyValue_ok_def fits_def]
  by - (rule readsAll_concat chunk_if chunk_opt chunk_each WakuMessageKeyValue_tags readsAs_values WakuMessage_readsAs |
      simp add: option.map_ident WakuMessageKeyValue_initial_def WakuMessageKeyValue_settled_def)+

lemma WakuMessageKeyValue_ends: "ends r (WakuMessageKeyValue_field RT lim tag obj r)"
  unfolding WakuMessageKeyValue_field_def WakuMessage_decode_def
  by (simp add: ends_values ends_readElement wakuMessage.ends_nested)

end

sublocale pb_runtime \<subseteq> wakuMessageKeyValue: message_codec RT F buffers "WakuMessageKeyValue_encode RT" "WakuMessageKeyValue_field RT"
    WakuMessageKeyValue_initial "WakuMessageKeyValue_fields F" "WakuMessageKeyValue_ok F" WakuMessageKeyValue_settled
  by unfold_locales (rule WakuMessageKeyValue_encode_wire WakuMessageKeyValue_reads WakuMessageKeyValue_ends, assumption?)+

context pb_runtime
begin

lemmas WakuMessageKeyValue_readsAs = wakuMessageKeyValue.readsAs_nested [folded WakuMessageKeyValue_decode_def]
lemmas WakuMessageKeyValue_roundtrip = wakuMessageKeyValue.roundtrip [folded WakuMessageKeyValue_decode_def]
lemmas WakuMessageKeyValue_decode_returns = wakuMessageKeyValue.decode_returns [folded WakuMessageKeyValue_decode_def]

end

section \<open>StoreQueryRequest\<close>

definition StoreQueryRequest_encode :: "'w pbRuntime \<Rightarrow> bool \<Rightarrow> storeRequestWire \<Rightarrow> 'w \<Rightarrow> 'w" where
  "StoreQueryRequest_encode RT lengthDelimited obj =
     delimited RT lengthDelimited
       [writeField RT (srq_requestId obj \<noteq> []) 10 (rt_wString RT (srq_requestId obj)),
        writeField RT (srq_includeData obj) 16 (rt_wBool RT (srq_includeData obj)),
        writeOpt RT 82 (rt_wString RT) (srq_pubsubTopic obj),
        writeEach RT 90 (rt_wString RT) (srq_contentTopics obj),
        writeOpt RT 96 (rt_wSint64 RT) (srq_timeStart obj),
        writeOpt RT 104 (rt_wSint64 RT) (srq_timeEnd obj),
        writeEach RT 162 (rt_wBytes RT) (srq_messageHashes obj),
        writeOpt RT 410 (rt_wBytes RT) (srq_paginationCursor obj),
        writeField RT (srq_paginationForward obj) 416 (rt_wBool RT (srq_paginationForward obj)),
        writeOpt RT 424 (rt_wUint64 RT) (srq_paginationLimit obj)]"

definition StoreQueryRequest_initial :: storeRequestWire where
  "StoreQueryRequest_initial = \<lparr>srq_requestId = [], srq_includeData = False, srq_pubsubTopic = None, srq_contentTopics = [], srq_timeStart = None, srq_timeEnd = None, srq_messageHashes = [], srq_paginationCursor = None, srq_paginationForward = False, srq_paginationLimit = None\<rparr>"

definition StoreQueryRequest_field :: "'w pbRuntime \<Rightarrow> pbLimits option \<Rightarrow> storeRequestWire pbField" where
  "StoreQueryRequest_field RT lim tag obj =
     (if fieldNumber tag = 1 then readValue (rt_string RT) (\<lambda>v. obj\<lparr>srq_requestId := v\<rparr>)
      else if fieldNumber tag = 2 then readValue (rt_bool RT) (\<lambda>v. obj\<lparr>srq_includeData := v\<rparr>)
      else if fieldNumber tag = 10 then readValue (rt_string RT) (\<lambda>v. obj\<lparr>srq_pubsubTopic := Some v\<rparr>)
      else if fieldNumber tag = 11 then readElement lim ''contentTopics'' (srq_contentTopics obj) (readValue (rt_string RT) (\<lambda>v. obj\<lparr>srq_contentTopics := srq_contentTopics obj @ [v]\<rparr>))
      else if fieldNumber tag = 12 then readValue (rt_sint64 RT) (\<lambda>v. obj\<lparr>srq_timeStart := Some v\<rparr>)
      else if fieldNumber tag = 13 then readValue (rt_sint64 RT) (\<lambda>v. obj\<lparr>srq_timeEnd := Some v\<rparr>)
      else if fieldNumber tag = 20 then readElement lim ''messageHashes'' (srq_messageHashes obj) (readValue (rt_bytes RT) (\<lambda>v. obj\<lparr>srq_messageHashes := srq_messageHashes obj @ [v]\<rparr>))
      else if fieldNumber tag = 51 then readValue (rt_bytes RT) (\<lambda>v. obj\<lparr>srq_paginationCursor := Some v\<rparr>)
      else if fieldNumber tag = 52 then readValue (rt_bool RT) (\<lambda>v. obj\<lparr>srq_paginationForward := v\<rparr>)
      else if fieldNumber tag = 53 then readValue (rt_uint64 RT) (\<lambda>v. obj\<lparr>srq_paginationLimit := Some v\<rparr>)
      else skipField RT tag obj)"

definition StoreQueryRequest_decode ::
  "'w pbRuntime \<Rightarrow> pbLimits option \<Rightarrow> nat option \<Rightarrow> pbReader \<Rightarrow> (storeRequestWire \<times> pbReader) res option" where
  "StoreQueryRequest_decode RT lim = decodeFrom RT (StoreQueryRequest_field RT lim) StoreQueryRequest_initial"

definition StoreQueryRequest_fields :: "pbFormat \<Rightarrow> storeRequestWire \<Rightarrow> (int \<times> bytes) list" where
  "StoreQueryRequest_fields F m = concat
     [if srq_requestId m \<noteq> [] then [(10, pf_string F (srq_requestId m))] else [],
      if srq_includeData m then [(16, pf_bool F (srq_includeData m))] else [],
      case srq_pubsubTopic m of None \<Rightarrow> [] | Some v \<Rightarrow> [(82, pf_string F v)],
      map (\<lambda>v. (90, pf_string F v)) (srq_contentTopics m),
      case srq_timeStart m of None \<Rightarrow> [] | Some v \<Rightarrow> [(96, pf_sint64 F v)],
      case srq_timeEnd m of None \<Rightarrow> [] | Some v \<Rightarrow> [(104, pf_sint64 F v)],
      map (\<lambda>v. (162, pf_bytes F v)) (srq_messageHashes m),
      case srq_paginationCursor m of None \<Rightarrow> [] | Some v \<Rightarrow> [(410, pf_bytes F v)],
      if srq_paginationForward m then [(416, pf_bool F (srq_paginationForward m))] else [],
      case srq_paginationLimit m of None \<Rightarrow> [] | Some v \<Rightarrow> [(424, pf_uint64 F v)]]"

definition StoreQueryRequest_ok :: "pbFormat \<Rightarrow> storeRequestWire \<Rightarrow> bool" where
  "StoreQueryRequest_ok F m \<longleftrightarrow> fits (pf_utf8 F (srq_requestId m)) \<and>
     holds (\<lambda>v. fits (pf_utf8 F v)) (srq_pubsubTopic m) \<and>
     (\<forall>v \<in> set (srq_contentTopics m). fits (pf_utf8 F v)) \<and>
     holds (\<lambda>v. -(2 ^ 63) \<le> v \<and> v < 2 ^ 63) (srq_timeStart m) \<and>
     holds (\<lambda>v. -(2 ^ 63) \<le> v \<and> v < 2 ^ 63) (srq_timeEnd m) \<and>
     (\<forall>v \<in> set (srq_messageHashes m). fits v) \<and>
     holds (\<lambda>v. fits v) (srq_paginationCursor m) \<and>
     holds (\<lambda>v. 0 \<le> v \<and> v < 2 ^ 64) (srq_paginationLimit m)"

context pb_runtime
begin

lemma StoreQueryRequest_tags:
  "StoreQueryRequest_field RT None (word_of_int 10) obj r = readValue (rt_string RT) (\<lambda>v. obj\<lparr>srq_requestId := v\<rparr>) r"
  "StoreQueryRequest_field RT None (word_of_int 16) obj r = readValue (rt_bool RT) (\<lambda>v. obj\<lparr>srq_includeData := v\<rparr>) r"
  "StoreQueryRequest_field RT None (word_of_int 82) obj r = readValue (rt_string RT) (\<lambda>v. obj\<lparr>srq_pubsubTopic := Some v\<rparr>) r"
  "StoreQueryRequest_field RT None (word_of_int 90) obj r = readValue (rt_string RT) (\<lambda>v. obj\<lparr>srq_contentTopics := srq_contentTopics obj @ [v]\<rparr>) r"
  "StoreQueryRequest_field RT None (word_of_int 96) obj r = readValue (rt_sint64 RT) (\<lambda>v. obj\<lparr>srq_timeStart := Some v\<rparr>) r"
  "StoreQueryRequest_field RT None (word_of_int 104) obj r = readValue (rt_sint64 RT) (\<lambda>v. obj\<lparr>srq_timeEnd := Some v\<rparr>) r"
  "StoreQueryRequest_field RT None (word_of_int 162) obj r = readValue (rt_bytes RT) (\<lambda>v. obj\<lparr>srq_messageHashes := srq_messageHashes obj @ [v]\<rparr>) r"
  "StoreQueryRequest_field RT None (word_of_int 410) obj r = readValue (rt_bytes RT) (\<lambda>v. obj\<lparr>srq_paginationCursor := Some v\<rparr>) r"
  "StoreQueryRequest_field RT None (word_of_int 416) obj r = readValue (rt_bool RT) (\<lambda>v. obj\<lparr>srq_paginationForward := v\<rparr>) r"
  "StoreQueryRequest_field RT None (word_of_int 424) obj r = readValue (rt_uint64 RT) (\<lambda>v. obj\<lparr>srq_paginationLimit := Some v\<rparr>) r"
  unfolding StoreQueryRequest_field_def fieldNumber_of by (simp_all add: limitOf_def readElement_def limitReached_def)

lemma StoreQueryRequest_encode_wire:
  "writes (StoreQueryRequest_encode RT ld m) (if ld then pf_bytes F (wire F (StoreQueryRequest_fields F m)) else wire F (StoreQueryRequest_fields F m))"
  unfolding StoreQueryRequest_encode_def StoreQueryRequest_fields_def
  by (intro writes_delimited list.rel_intros writes_field writes_opt writes_each writes_values)

lemma StoreQueryRequest_reads:
  assumes ok: "StoreQueryRequest_ok F m"
  shows "readsAll (StoreQueryRequest_field RT None) (StoreQueryRequest_fields F m) StoreQueryRequest_initial m"
  unfolding StoreQueryRequest_fields_def
  using ok [unfolded StoreQueryRequest_ok_def fits_def]
  by - (rule readsAll_concat chunk_if chunk_opt chunk_each StoreQueryRequest_tags readsAs_values |
      simp add: option.map_ident StoreQueryRequest_initial_def)+

lemma StoreQueryRequest_ends: "ends r (StoreQueryRequest_field RT lim tag obj r)"
  unfolding StoreQueryRequest_field_def
  by (simp add: ends_values ends_readElement)

end

sublocale pb_runtime \<subseteq> storeQueryRequest: message_codec RT F buffers "StoreQueryRequest_encode RT" "StoreQueryRequest_field RT"
    StoreQueryRequest_initial "StoreQueryRequest_fields F" "StoreQueryRequest_ok F" "\<lambda>m. m"
  by unfold_locales (rule StoreQueryRequest_encode_wire StoreQueryRequest_reads StoreQueryRequest_ends, assumption?)+

context pb_runtime
begin

lemmas StoreQueryRequest_readsAs = storeQueryRequest.readsAs_nested [folded StoreQueryRequest_decode_def]
lemmas StoreQueryRequest_roundtrip = storeQueryRequest.roundtrip [folded StoreQueryRequest_decode_def]
lemmas StoreQueryRequest_decode_returns = storeQueryRequest.decode_returns [folded StoreQueryRequest_decode_def]

end

section \<open>StoreQueryResponse\<close>

definition StoreQueryResponse_encode :: "'w pbRuntime \<Rightarrow> bool \<Rightarrow> storeResponseWire \<Rightarrow> 'w \<Rightarrow> 'w" where
  "StoreQueryResponse_encode RT lengthDelimited obj =
     delimited RT lengthDelimited
       [writeField RT (sr_requestId obj \<noteq> []) 10 (rt_wString RT (sr_requestId obj)),
        writeOpt RT 80 (rt_wUint32 RT) (sr_statusCode obj),
        writeOpt RT 90 (rt_wString RT) (sr_statusDesc obj),
        writeEach RT 162 (WakuMessageKeyValue_encode RT True) (sr_messages obj),
        writeOpt RT 410 (rt_wBytes RT) (sr_paginationCursor obj)]"

definition StoreQueryResponse_initial :: storeResponseWire where
  "StoreQueryResponse_initial = \<lparr>sr_statusCode = None, sr_statusDesc = None, sr_messages = [], sr_requestId = [], sr_paginationCursor = None\<rparr>"

definition StoreQueryResponse_field :: "'w pbRuntime \<Rightarrow> pbLimits option \<Rightarrow> storeResponseWire pbField" where
  "StoreQueryResponse_field RT lim tag obj =
     (if fieldNumber tag = 1 then readValue (rt_string RT) (\<lambda>v. obj\<lparr>sr_requestId := v\<rparr>)
      else if fieldNumber tag = 10 then readValue (readUint RT) (\<lambda>v. obj\<lparr>sr_statusCode := Some v\<rparr>)
      else if fieldNumber tag = 11 then readValue (rt_string RT) (\<lambda>v. obj\<lparr>sr_statusDesc := Some v\<rparr>)
      else if fieldNumber tag = 20 then readElement lim ''messages'' (sr_messages obj) (readMessage RT (WakuMessageKeyValue_decode RT (limitOf lim ''messages$'')) (\<lambda>v. obj\<lparr>sr_messages := sr_messages obj @ [v]\<rparr>))
      else if fieldNumber tag = 51 then readValue (rt_bytes RT) (\<lambda>v. obj\<lparr>sr_paginationCursor := Some v\<rparr>)
      else skipField RT tag obj)"

definition StoreQueryResponse_decode ::
  "'w pbRuntime \<Rightarrow> pbLimits option \<Rightarrow> nat option \<Rightarrow> pbReader \<Rightarrow> (storeResponseWire \<times> pbReader) res option" where
  "StoreQueryResponse_decode RT lim = decodeFrom RT (StoreQueryResponse_field RT lim) StoreQueryResponse_initial"

definition StoreQueryResponse_fields :: "pbFormat \<Rightarrow> storeResponseWire \<Rightarrow> (int \<times> bytes) list" where
  "StoreQueryResponse_fields F m = concat
     [if sr_requestId m \<noteq> [] then [(10, pf_string F (sr_requestId m))] else [],
      case sr_statusCode m of None \<Rightarrow> [] | Some v \<Rightarrow> [(80, pf_uint32 F v)],
      case sr_statusDesc m of None \<Rightarrow> [] | Some v \<Rightarrow> [(90, pf_string F v)],
      map (\<lambda>v. (162, pf_bytes F (wire F (WakuMessageKeyValue_fields F v)))) (sr_messages m),
      case sr_paginationCursor m of None \<Rightarrow> [] | Some v \<Rightarrow> [(410, pf_bytes F v)]]"

definition StoreQueryResponse_ok :: "pbFormat \<Rightarrow> storeResponseWire \<Rightarrow> bool" where
  "StoreQueryResponse_ok F m \<longleftrightarrow> fits (pf_utf8 F (sr_requestId m)) \<and>
     holds (\<lambda>v. 0 \<le> v \<and> v < 2 ^ 32) (sr_statusCode m) \<and>
     holds (\<lambda>v. fits (pf_utf8 F v)) (sr_statusDesc m) \<and>
     (\<forall>v \<in> set (sr_messages m). WakuMessageKeyValue_ok F v \<and> fits (wire F (WakuMessageKeyValue_fields F v))) \<and>
     holds (\<lambda>v. fits v) (sr_paginationCursor m)"

definition StoreQueryResponse_settled :: "storeResponseWire \<Rightarrow> storeResponseWire" where
  "StoreQueryResponse_settled m = m\<lparr>sr_messages := map WakuMessageKeyValue_settled (sr_messages m)\<rparr>"

context pb_runtime
begin

lemma StoreQueryResponse_tags:
  "StoreQueryResponse_field RT None (word_of_int 10) obj r = readValue (rt_string RT) (\<lambda>v. obj\<lparr>sr_requestId := v\<rparr>) r"
  "StoreQueryResponse_field RT None (word_of_int 80) obj r = readValue (readUint RT) (\<lambda>v. obj\<lparr>sr_statusCode := Some v\<rparr>) r"
  "StoreQueryResponse_field RT None (word_of_int 90) obj r = readValue (rt_string RT) (\<lambda>v. obj\<lparr>sr_statusDesc := Some v\<rparr>) r"
  "StoreQueryResponse_field RT None (word_of_int 162) obj r = readMessage RT (WakuMessageKeyValue_decode RT None) (\<lambda>v. obj\<lparr>sr_messages := sr_messages obj @ [v]\<rparr>) r"
  "StoreQueryResponse_field RT None (word_of_int 410) obj r = readValue (rt_bytes RT) (\<lambda>v. obj\<lparr>sr_paginationCursor := Some v\<rparr>) r"
  unfolding StoreQueryResponse_field_def fieldNumber_of by (simp_all add: limitOf_def readElement_def limitReached_def)

lemma StoreQueryResponse_encode_wire:
  "writes (StoreQueryResponse_encode RT ld m) (if ld then pf_bytes F (wire F (StoreQueryResponse_fields F m)) else wire F (StoreQueryResponse_fields F m))"
  unfolding StoreQueryResponse_encode_def StoreQueryResponse_fields_def
  by (intro writes_delimited list.rel_intros writes_field writes_opt writes_each writes_values wakuMessageKeyValue.encode_nested)

lemma StoreQueryResponse_reads:
  assumes ok: "StoreQueryResponse_ok F m"
  shows "readsAll (StoreQueryResponse_field RT None) (StoreQueryResponse_fields F m) StoreQueryResponse_initial (StoreQueryResponse_settled m)"
  unfolding StoreQueryResponse_fields_def
  using ok [unfolded StoreQueryResponse_ok_def fits_def]
  by - (rule readsAll_concat chunk_if chunk_opt chunk_each StoreQueryResponse_tags readsAs_values WakuMessageKeyValue_readsAs |
      simp add: option.map_ident StoreQueryResponse_initial_def StoreQueryResponse_settled_def)+

lemma StoreQueryResponse_ends: "ends r (StoreQueryResponse_field RT lim tag obj r)"
  unfolding StoreQueryResponse_field_def WakuMessageKeyValue_decode_def
  by (simp add: ends_values ends_readElement wakuMessageKeyValue.ends_nested)

end

sublocale pb_runtime \<subseteq> storeQueryResponse: message_codec RT F buffers "StoreQueryResponse_encode RT" "StoreQueryResponse_field RT"
    StoreQueryResponse_initial "StoreQueryResponse_fields F" "StoreQueryResponse_ok F" StoreQueryResponse_settled
  by unfold_locales (rule StoreQueryResponse_encode_wire StoreQueryResponse_reads StoreQueryResponse_ends, assumption?)+

context pb_runtime
begin

lemmas StoreQueryResponse_readsAs = storeQueryResponse.readsAs_nested [folded StoreQueryResponse_decode_def]
lemmas StoreQueryResponse_roundtrip = storeQueryResponse.roundtrip [folded StoreQueryResponse_decode_def]
lemmas StoreQueryResponse_decode_returns = storeQueryResponse.decode_returns [folded StoreQueryResponse_decode_def]

end

end
