(* ===== verification/ProtoFilter.thy ===== *)
theory ProtoFilter
  imports ProtoMessage CoreFilter
begin

text \<open>
  \<open>packages/proto/src/generated/filter\_v2.ts\<close>, the codecs of the filter protocol, and \<open>filter.ts\<close>, those of its first version, whose
  \<open>MessagePush\<close> is called \<open>MessagePushV1\<close> here. For each message: the code, what it writes, and that it reads this back.
\<close>

text \<open>The numbers of the members of \<open>FilterSubscribeType\<close>.\<close>

definition FilterSubscribeTypeValues :: "int list" where
  "FilterSubscribeTypeValues = [0, 1, 2, 3]"

fun subscribeTypeValue :: "filterSubscribeType \<Rightarrow> int" where
  "subscribeTypeValue SUBSCRIBER_PING = 0"
| "subscribeTypeValue SUBSCRIBE = 1"
| "subscribeTypeValue UNSUBSCRIBE = 2"
| "subscribeTypeValue UNSUBSCRIBE_ALL = 3"

definition subscribeTypeOf :: "int \<Rightarrow> filterSubscribeType" where
  "subscribeTypeOf n =
     (if n = 0 then SUBSCRIBER_PING else if n = 1 then SUBSCRIBE else if n = 2 then UNSUBSCRIBE else UNSUBSCRIBE_ALL)"

lemma subscribeTypeValue_simps:
  "subscribeTypeValue t \<in> set FilterSubscribeTypeValues" "- 2147483648 \<le> subscribeTypeValue t" "subscribeTypeValue t < 2147483648"
  "subscribeTypeOf (subscribeTypeValue t) = t" "subscribeTypeValue t = 0 \<longleftrightarrow> t = SUBSCRIBER_PING"
  by (cases t; simp add: FilterSubscribeTypeValues_def subscribeTypeOf_def)+

context pb_runtime
begin

lemma readsAs_subscribeTypeValue:
  "readsAs (\<lambda>assign. readValue (rt_enum RT FilterSubscribeTypeValues) (\<lambda>v. assign (subscribeTypeOf v))) t (pf_int32 F (subscribeTypeValue t))"
  using rEnum [of "subscribeTypeValue t" _ FilterSubscribeTypeValues]
  by (simp add: readsAs_def readValue_def subscribeTypeValue_simps)

end

record contentFilter =
  cf_contentTopic :: string

record filterRequestV1 =
  fq_subscribe :: bool
  fq_topic :: string
  fq_contentFilters :: "contentFilter list"

record messagePushV1 =
  mpv_messages :: "wireMessage list"

record filterRpcV1 =
  fp_requestId :: string
  fp_request :: "filterRequestV1 option"
  fp_push :: "messagePushV1 option"

section \<open>FilterSubscribeRequest\<close>

definition FilterSubscribeRequest_encode :: "'w pbRuntime \<Rightarrow> bool \<Rightarrow> filterRequest \<Rightarrow> 'w \<Rightarrow> 'w" where
  "FilterSubscribeRequest_encode RT lengthDelimited obj =
     delimited RT lengthDelimited
       [writeField RT (fr_requestId obj \<noteq> []) 10 (rt_wString RT (fr_requestId obj)),
        writeField RT (subscribeTypeValue (fr_type obj) \<noteq> 0) 16 (rt_wEnum RT FilterSubscribeTypeValues (subscribeTypeValue (fr_type obj))),
        writeOpt RT 82 (rt_wString RT) (fr_pubsubTopic obj),
        writeEach RT 90 (rt_wString RT) (fr_contentTopics obj)]"

definition FilterSubscribeRequest_initial :: filterRequest where
  "FilterSubscribeRequest_initial = \<lparr>fr_requestId = [], fr_type = SUBSCRIBER_PING, fr_pubsubTopic = None, fr_contentTopics = []\<rparr>"

definition FilterSubscribeRequest_field :: "'w pbRuntime \<Rightarrow> pbLimits option \<Rightarrow> filterRequest pbField" where
  "FilterSubscribeRequest_field RT lim tag obj =
     (if fieldNumber tag = 1 then readValue (rt_string RT) (\<lambda>v. obj\<lparr>fr_requestId := v\<rparr>)
      else if fieldNumber tag = 2 then readValue (rt_enum RT FilterSubscribeTypeValues) (\<lambda>v. obj\<lparr>fr_type := subscribeTypeOf v\<rparr>)
      else if fieldNumber tag = 10 then readValue (rt_string RT) (\<lambda>v. obj\<lparr>fr_pubsubTopic := Some v\<rparr>)
      else if fieldNumber tag = 11 then readElement lim ''contentTopics'' (fr_contentTopics obj) (readValue (rt_string RT) (\<lambda>v. obj\<lparr>fr_contentTopics := fr_contentTopics obj @ [v]\<rparr>))
      else skipField RT tag obj)"

definition FilterSubscribeRequest_decode ::
  "'w pbRuntime \<Rightarrow> pbLimits option \<Rightarrow> nat option \<Rightarrow> pbReader \<Rightarrow> (filterRequest \<times> pbReader) res option" where
  "FilterSubscribeRequest_decode RT lim = decodeFrom RT (FilterSubscribeRequest_field RT lim) FilterSubscribeRequest_initial"

definition FilterSubscribeRequest_fields :: "pbFormat \<Rightarrow> filterRequest \<Rightarrow> (int \<times> bytes) list" where
  "FilterSubscribeRequest_fields F m = concat
     [if fr_requestId m \<noteq> [] then [(10, pf_string F (fr_requestId m))] else [],
      if subscribeTypeValue (fr_type m) \<noteq> 0 then [(16, pf_int32 F (subscribeTypeValue (fr_type m)))] else [],
      case fr_pubsubTopic m of None \<Rightarrow> [] | Some v \<Rightarrow> [(82, pf_string F v)],
      map (\<lambda>v. (90, pf_string F v)) (fr_contentTopics m)]"

definition FilterSubscribeRequest_ok :: "pbFormat \<Rightarrow> filterRequest \<Rightarrow> bool" where
  "FilterSubscribeRequest_ok F m \<longleftrightarrow> fits (pf_utf8 F (fr_requestId m)) \<and>
     holds (\<lambda>v. fits (pf_utf8 F v)) (fr_pubsubTopic m) \<and>
     (\<forall>v \<in> set (fr_contentTopics m). fits (pf_utf8 F v))"

context pb_runtime
begin

lemma FilterSubscribeRequest_tags:
  "FilterSubscribeRequest_field RT None (word_of_int 10) obj r = readValue (rt_string RT) (\<lambda>v. obj\<lparr>fr_requestId := v\<rparr>) r"
  "FilterSubscribeRequest_field RT None (word_of_int 16) obj r = readValue (rt_enum RT FilterSubscribeTypeValues) (\<lambda>v. obj\<lparr>fr_type := subscribeTypeOf v\<rparr>) r"
  "FilterSubscribeRequest_field RT None (word_of_int 82) obj r = readValue (rt_string RT) (\<lambda>v. obj\<lparr>fr_pubsubTopic := Some v\<rparr>) r"
  "FilterSubscribeRequest_field RT None (word_of_int 90) obj r = readValue (rt_string RT) (\<lambda>v. obj\<lparr>fr_contentTopics := fr_contentTopics obj @ [v]\<rparr>) r"
  unfolding FilterSubscribeRequest_field_def fieldNumber_of by (simp_all add: limitOf_def readElement_def limitReached_def)

lemma FilterSubscribeRequest_encode_wire:
  "writes (FilterSubscribeRequest_encode RT ld m) (if ld then pf_bytes F (wire F (FilterSubscribeRequest_fields F m)) else wire F (FilterSubscribeRequest_fields F m))"
  unfolding FilterSubscribeRequest_encode_def FilterSubscribeRequest_fields_def
  by (intro writes_delimited list.rel_intros writes_field writes_opt writes_each writes_values subscribeTypeValue_simps)

lemma FilterSubscribeRequest_reads:
  assumes ok: "FilterSubscribeRequest_ok F m"
  shows "readsAll (FilterSubscribeRequest_field RT None) (FilterSubscribeRequest_fields F m) FilterSubscribeRequest_initial m"
  unfolding FilterSubscribeRequest_fields_def
  using ok [unfolded FilterSubscribeRequest_ok_def fits_def]
  by - (rule readsAll_concat chunk_if chunk_opt chunk_each FilterSubscribeRequest_tags readsAs_values readsAs_subscribeTypeValue |
      simp add: option.map_ident FilterSubscribeRequest_initial_def subscribeTypeValue_simps)+

lemma FilterSubscribeRequest_ends: "ends r (FilterSubscribeRequest_field RT lim tag obj r)"
  unfolding FilterSubscribeRequest_field_def
  by (simp add: ends_values ends_readElement)

end

sublocale pb_runtime \<subseteq> filterSubscribeRequest: message_codec RT F buffers "FilterSubscribeRequest_encode RT" "FilterSubscribeRequest_field RT"
    FilterSubscribeRequest_initial "FilterSubscribeRequest_fields F" "FilterSubscribeRequest_ok F" "\<lambda>m. m"
  by unfold_locales (rule FilterSubscribeRequest_encode_wire FilterSubscribeRequest_reads FilterSubscribeRequest_ends, assumption?)+

context pb_runtime
begin

lemmas FilterSubscribeRequest_readsAs = filterSubscribeRequest.readsAs_nested [folded FilterSubscribeRequest_decode_def]
lemmas FilterSubscribeRequest_roundtrip = filterSubscribeRequest.roundtrip [folded FilterSubscribeRequest_decode_def]
lemmas FilterSubscribeRequest_decode_returns = filterSubscribeRequest.decode_returns [folded FilterSubscribeRequest_decode_def]

end

section \<open>FilterSubscribeResponse\<close>

definition FilterSubscribeResponse_encode :: "'w pbRuntime \<Rightarrow> bool \<Rightarrow> filterResponse \<Rightarrow> 'w \<Rightarrow> 'w" where
  "FilterSubscribeResponse_encode RT lengthDelimited obj =
     delimited RT lengthDelimited
       [writeField RT (fs_requestId obj \<noteq> []) 10 (rt_wString RT (fs_requestId obj)),
        writeField RT (fs_statusCode obj \<noteq> 0) 80 (rt_wUint32 RT (fs_statusCode obj)),
        writeOpt RT 90 (rt_wString RT) (fs_statusDesc obj)]"

definition FilterSubscribeResponse_initial :: filterResponse where
  "FilterSubscribeResponse_initial = \<lparr>fs_requestId = [], fs_statusCode = 0, fs_statusDesc = None\<rparr>"

definition FilterSubscribeResponse_field :: "'w pbRuntime \<Rightarrow> pbLimits option \<Rightarrow> filterResponse pbField" where
  "FilterSubscribeResponse_field RT lim tag obj =
     (if fieldNumber tag = 1 then readValue (rt_string RT) (\<lambda>v. obj\<lparr>fs_requestId := v\<rparr>)
      else if fieldNumber tag = 10 then readValue (readUint RT) (\<lambda>v. obj\<lparr>fs_statusCode := v\<rparr>)
      else if fieldNumber tag = 11 then readValue (rt_string RT) (\<lambda>v. obj\<lparr>fs_statusDesc := Some v\<rparr>)
      else skipField RT tag obj)"

definition FilterSubscribeResponse_decode ::
  "'w pbRuntime \<Rightarrow> pbLimits option \<Rightarrow> nat option \<Rightarrow> pbReader \<Rightarrow> (filterResponse \<times> pbReader) res option" where
  "FilterSubscribeResponse_decode RT lim = decodeFrom RT (FilterSubscribeResponse_field RT lim) FilterSubscribeResponse_initial"

definition FilterSubscribeResponse_fields :: "pbFormat \<Rightarrow> filterResponse \<Rightarrow> (int \<times> bytes) list" where
  "FilterSubscribeResponse_fields F m = concat
     [if fs_requestId m \<noteq> [] then [(10, pf_string F (fs_requestId m))] else [],
      if fs_statusCode m \<noteq> 0 then [(80, pf_uint32 F (fs_statusCode m))] else [],
      case fs_statusDesc m of None \<Rightarrow> [] | Some v \<Rightarrow> [(90, pf_string F v)]]"

definition FilterSubscribeResponse_ok :: "pbFormat \<Rightarrow> filterResponse \<Rightarrow> bool" where
  "FilterSubscribeResponse_ok F m \<longleftrightarrow> fits (pf_utf8 F (fs_requestId m)) \<and>
     0 \<le> (fs_statusCode m) \<and> (fs_statusCode m) < 2 ^ 32 \<and>
     holds (\<lambda>v. fits (pf_utf8 F v)) (fs_statusDesc m)"

context pb_runtime
begin

lemma FilterSubscribeResponse_tags:
  "FilterSubscribeResponse_field RT None (word_of_int 10) obj r = readValue (rt_string RT) (\<lambda>v. obj\<lparr>fs_requestId := v\<rparr>) r"
  "FilterSubscribeResponse_field RT None (word_of_int 80) obj r = readValue (readUint RT) (\<lambda>v. obj\<lparr>fs_statusCode := v\<rparr>) r"
  "FilterSubscribeResponse_field RT None (word_of_int 90) obj r = readValue (rt_string RT) (\<lambda>v. obj\<lparr>fs_statusDesc := Some v\<rparr>) r"
  unfolding FilterSubscribeResponse_field_def fieldNumber_of by (simp_all add: limitOf_def readElement_def limitReached_def)

lemma FilterSubscribeResponse_encode_wire:
  "writes (FilterSubscribeResponse_encode RT ld m) (if ld then pf_bytes F (wire F (FilterSubscribeResponse_fields F m)) else wire F (FilterSubscribeResponse_fields F m))"
  unfolding FilterSubscribeResponse_encode_def FilterSubscribeResponse_fields_def
  by (intro writes_delimited list.rel_intros writes_field writes_opt writes_each writes_values)

lemma FilterSubscribeResponse_reads:
  assumes ok: "FilterSubscribeResponse_ok F m"
  shows "readsAll (FilterSubscribeResponse_field RT None) (FilterSubscribeResponse_fields F m) FilterSubscribeResponse_initial m"
  unfolding FilterSubscribeResponse_fields_def
  using ok [unfolded FilterSubscribeResponse_ok_def fits_def]
  by - (rule readsAll_concat chunk_if chunk_opt chunk_each FilterSubscribeResponse_tags readsAs_values |
      simp add: option.map_ident FilterSubscribeResponse_initial_def)+

lemma FilterSubscribeResponse_ends: "ends r (FilterSubscribeResponse_field RT lim tag obj r)"
  unfolding FilterSubscribeResponse_field_def
  by (simp add: ends_values ends_readElement)

end

sublocale pb_runtime \<subseteq> filterSubscribeResponse: message_codec RT F buffers "FilterSubscribeResponse_encode RT" "FilterSubscribeResponse_field RT"
    FilterSubscribeResponse_initial "FilterSubscribeResponse_fields F" "FilterSubscribeResponse_ok F" "\<lambda>m. m"
  by unfold_locales (rule FilterSubscribeResponse_encode_wire FilterSubscribeResponse_reads FilterSubscribeResponse_ends, assumption?)+

context pb_runtime
begin

lemmas FilterSubscribeResponse_readsAs = filterSubscribeResponse.readsAs_nested [folded FilterSubscribeResponse_decode_def]
lemmas FilterSubscribeResponse_roundtrip = filterSubscribeResponse.roundtrip [folded FilterSubscribeResponse_decode_def]
lemmas FilterSubscribeResponse_decode_returns = filterSubscribeResponse.decode_returns [folded FilterSubscribeResponse_decode_def]

end

section \<open>MessagePush\<close>

definition MessagePush_encode :: "'w pbRuntime \<Rightarrow> bool \<Rightarrow> messagePush \<Rightarrow> 'w \<Rightarrow> 'w" where
  "MessagePush_encode RT lengthDelimited obj =
     delimited RT lengthDelimited
       [writeOpt RT 10 (WakuMessage_encode RT True) (mp_wakuMessage obj),
        writeOpt RT 18 (rt_wString RT) (mp_pubsubTopic obj)]"

definition MessagePush_initial :: messagePush where
  "MessagePush_initial = \<lparr>mp_wakuMessage = None, mp_pubsubTopic = None\<rparr>"

definition MessagePush_field :: "'w pbRuntime \<Rightarrow> pbLimits option \<Rightarrow> messagePush pbField" where
  "MessagePush_field RT lim tag obj =
     (if fieldNumber tag = 1 then readMessage RT (WakuMessage_decode RT (limitOf lim ''wakuMessage'')) (\<lambda>v. obj\<lparr>mp_wakuMessage := Some v\<rparr>)
      else if fieldNumber tag = 2 then readValue (rt_string RT) (\<lambda>v. obj\<lparr>mp_pubsubTopic := Some v\<rparr>)
      else skipField RT tag obj)"

definition MessagePush_decode ::
  "'w pbRuntime \<Rightarrow> pbLimits option \<Rightarrow> nat option \<Rightarrow> pbReader \<Rightarrow> (messagePush \<times> pbReader) res option" where
  "MessagePush_decode RT lim = decodeFrom RT (MessagePush_field RT lim) MessagePush_initial"

definition MessagePush_fields :: "pbFormat \<Rightarrow> messagePush \<Rightarrow> (int \<times> bytes) list" where
  "MessagePush_fields F m = concat
     [case mp_wakuMessage m of None \<Rightarrow> [] | Some v \<Rightarrow> [(10, pf_bytes F (wire F (WakuMessage_fields F v)))],
      case mp_pubsubTopic m of None \<Rightarrow> [] | Some v \<Rightarrow> [(18, pf_string F v)]]"

definition MessagePush_ok :: "pbFormat \<Rightarrow> messagePush \<Rightarrow> bool" where
  "MessagePush_ok F m \<longleftrightarrow> holds (\<lambda>v. WakuMessage_ok F v \<and> fits (wire F (WakuMessage_fields F v))) (mp_wakuMessage m) \<and>
     holds (\<lambda>v. fits (pf_utf8 F v)) (mp_pubsubTopic m)"

definition MessagePush_settled :: "messagePush \<Rightarrow> messagePush" where
  "MessagePush_settled m = m\<lparr>mp_wakuMessage := map_option WakuMessage_settled (mp_wakuMessage m)\<rparr>"

context pb_runtime
begin

lemma MessagePush_tags:
  "MessagePush_field RT None (word_of_int 10) obj r = readMessage RT (WakuMessage_decode RT None) (\<lambda>v. obj\<lparr>mp_wakuMessage := Some v\<rparr>) r"
  "MessagePush_field RT None (word_of_int 18) obj r = readValue (rt_string RT) (\<lambda>v. obj\<lparr>mp_pubsubTopic := Some v\<rparr>) r"
  unfolding MessagePush_field_def fieldNumber_of by (simp_all add: limitOf_def readElement_def limitReached_def)

lemma MessagePush_encode_wire:
  "writes (MessagePush_encode RT ld m) (if ld then pf_bytes F (wire F (MessagePush_fields F m)) else wire F (MessagePush_fields F m))"
  unfolding MessagePush_encode_def MessagePush_fields_def
  by (intro writes_delimited list.rel_intros writes_field writes_opt writes_each writes_values wakuMessage.encode_nested)

lemma MessagePush_reads:
  assumes ok: "MessagePush_ok F m"
  shows "readsAll (MessagePush_field RT None) (MessagePush_fields F m) MessagePush_initial (MessagePush_settled m)"
  unfolding MessagePush_fields_def
  using ok [unfolded MessagePush_ok_def fits_def]
  by - (rule readsAll_concat chunk_if chunk_opt chunk_each MessagePush_tags readsAs_values WakuMessage_readsAs |
      simp add: option.map_ident MessagePush_initial_def MessagePush_settled_def)+

lemma MessagePush_ends: "ends r (MessagePush_field RT lim tag obj r)"
  unfolding MessagePush_field_def WakuMessage_decode_def
  by (simp add: ends_values ends_readElement wakuMessage.ends_nested)

end

sublocale pb_runtime \<subseteq> messagePush: message_codec RT F buffers "MessagePush_encode RT" "MessagePush_field RT"
    MessagePush_initial "MessagePush_fields F" "MessagePush_ok F" MessagePush_settled
  by unfold_locales (rule MessagePush_encode_wire MessagePush_reads MessagePush_ends, assumption?)+

context pb_runtime
begin

lemmas MessagePush_readsAs = messagePush.readsAs_nested [folded MessagePush_decode_def]
lemmas MessagePush_roundtrip = messagePush.roundtrip [folded MessagePush_decode_def]
lemmas MessagePush_decode_returns = messagePush.decode_returns [folded MessagePush_decode_def]

end

section \<open>ContentFilter\<close>

definition ContentFilter_encode :: "'w pbRuntime \<Rightarrow> bool \<Rightarrow> contentFilter \<Rightarrow> 'w \<Rightarrow> 'w" where
  "ContentFilter_encode RT lengthDelimited obj =
     delimited RT lengthDelimited
       [writeField RT (cf_contentTopic obj \<noteq> []) 10 (rt_wString RT (cf_contentTopic obj))]"

definition ContentFilter_initial :: contentFilter where
  "ContentFilter_initial = \<lparr>cf_contentTopic = []\<rparr>"

definition ContentFilter_field :: "'w pbRuntime \<Rightarrow> pbLimits option \<Rightarrow> contentFilter pbField" where
  "ContentFilter_field RT lim tag obj =
     (if fieldNumber tag = 1 then readValue (rt_string RT) (\<lambda>v. obj\<lparr>cf_contentTopic := v\<rparr>)
      else skipField RT tag obj)"

definition ContentFilter_decode ::
  "'w pbRuntime \<Rightarrow> pbLimits option \<Rightarrow> nat option \<Rightarrow> pbReader \<Rightarrow> (contentFilter \<times> pbReader) res option" where
  "ContentFilter_decode RT lim = decodeFrom RT (ContentFilter_field RT lim) ContentFilter_initial"

definition ContentFilter_fields :: "pbFormat \<Rightarrow> contentFilter \<Rightarrow> (int \<times> bytes) list" where
  "ContentFilter_fields F m = concat
     [if cf_contentTopic m \<noteq> [] then [(10, pf_string F (cf_contentTopic m))] else []]"

definition ContentFilter_ok :: "pbFormat \<Rightarrow> contentFilter \<Rightarrow> bool" where
  "ContentFilter_ok F m \<longleftrightarrow> fits (pf_utf8 F (cf_contentTopic m))"

context pb_runtime
begin

lemma ContentFilter_tags:
  "ContentFilter_field RT None (word_of_int 10) obj r = readValue (rt_string RT) (\<lambda>v. obj\<lparr>cf_contentTopic := v\<rparr>) r"
  unfolding ContentFilter_field_def fieldNumber_of by (simp_all add: limitOf_def readElement_def limitReached_def)

lemma ContentFilter_encode_wire:
  "writes (ContentFilter_encode RT ld m) (if ld then pf_bytes F (wire F (ContentFilter_fields F m)) else wire F (ContentFilter_fields F m))"
  unfolding ContentFilter_encode_def ContentFilter_fields_def
  by (intro writes_delimited list.rel_intros writes_field writes_opt writes_each writes_values)

lemma ContentFilter_reads:
  assumes ok: "ContentFilter_ok F m"
  shows "readsAll (ContentFilter_field RT None) (ContentFilter_fields F m) ContentFilter_initial m"
  unfolding ContentFilter_fields_def
  using ok [unfolded ContentFilter_ok_def fits_def]
  by - (rule readsAll_concat chunk_if chunk_opt chunk_each ContentFilter_tags readsAs_values |
      simp add: option.map_ident ContentFilter_initial_def)+

lemma ContentFilter_ends: "ends r (ContentFilter_field RT lim tag obj r)"
  unfolding ContentFilter_field_def
  by (simp add: ends_values ends_readElement)

end

sublocale pb_runtime \<subseteq> contentFilter: message_codec RT F buffers "ContentFilter_encode RT" "ContentFilter_field RT"
    ContentFilter_initial "ContentFilter_fields F" "ContentFilter_ok F" "\<lambda>m. m"
  by unfold_locales (rule ContentFilter_encode_wire ContentFilter_reads ContentFilter_ends, assumption?)+

context pb_runtime
begin

lemmas ContentFilter_readsAs = contentFilter.readsAs_nested [folded ContentFilter_decode_def]
lemmas ContentFilter_roundtrip = contentFilter.roundtrip [folded ContentFilter_decode_def]
lemmas ContentFilter_decode_returns = contentFilter.decode_returns [folded ContentFilter_decode_def]

end

section \<open>FilterRequest\<close>

definition FilterRequest_encode :: "'w pbRuntime \<Rightarrow> bool \<Rightarrow> filterRequestV1 \<Rightarrow> 'w \<Rightarrow> 'w" where
  "FilterRequest_encode RT lengthDelimited obj =
     delimited RT lengthDelimited
       [writeField RT (fq_subscribe obj) 8 (rt_wBool RT (fq_subscribe obj)),
        writeField RT (fq_topic obj \<noteq> []) 18 (rt_wString RT (fq_topic obj)),
        writeEach RT 26 (ContentFilter_encode RT True) (fq_contentFilters obj)]"

definition FilterRequest_initial :: filterRequestV1 where
  "FilterRequest_initial = \<lparr>fq_subscribe = False, fq_topic = [], fq_contentFilters = []\<rparr>"

definition FilterRequest_field :: "'w pbRuntime \<Rightarrow> pbLimits option \<Rightarrow> filterRequestV1 pbField" where
  "FilterRequest_field RT lim tag obj =
     (if fieldNumber tag = 1 then readValue (rt_bool RT) (\<lambda>v. obj\<lparr>fq_subscribe := v\<rparr>)
      else if fieldNumber tag = 2 then readValue (rt_string RT) (\<lambda>v. obj\<lparr>fq_topic := v\<rparr>)
      else if fieldNumber tag = 3 then readElement lim ''contentFilters'' (fq_contentFilters obj) (readMessage RT (ContentFilter_decode RT (limitOf lim ''contentFilters$'')) (\<lambda>v. obj\<lparr>fq_contentFilters := fq_contentFilters obj @ [v]\<rparr>))
      else skipField RT tag obj)"

definition FilterRequest_decode ::
  "'w pbRuntime \<Rightarrow> pbLimits option \<Rightarrow> nat option \<Rightarrow> pbReader \<Rightarrow> (filterRequestV1 \<times> pbReader) res option" where
  "FilterRequest_decode RT lim = decodeFrom RT (FilterRequest_field RT lim) FilterRequest_initial"

definition FilterRequest_fields :: "pbFormat \<Rightarrow> filterRequestV1 \<Rightarrow> (int \<times> bytes) list" where
  "FilterRequest_fields F m = concat
     [if fq_subscribe m then [(8, pf_bool F (fq_subscribe m))] else [],
      if fq_topic m \<noteq> [] then [(18, pf_string F (fq_topic m))] else [],
      map (\<lambda>v. (26, pf_bytes F (wire F (ContentFilter_fields F v)))) (fq_contentFilters m)]"

definition FilterRequest_ok :: "pbFormat \<Rightarrow> filterRequestV1 \<Rightarrow> bool" where
  "FilterRequest_ok F m \<longleftrightarrow> fits (pf_utf8 F (fq_topic m)) \<and>
     (\<forall>v \<in> set (fq_contentFilters m). ContentFilter_ok F v \<and> fits (wire F (ContentFilter_fields F v)))"

context pb_runtime
begin

lemma FilterRequest_tags:
  "FilterRequest_field RT None (word_of_int 8) obj r = readValue (rt_bool RT) (\<lambda>v. obj\<lparr>fq_subscribe := v\<rparr>) r"
  "FilterRequest_field RT None (word_of_int 18) obj r = readValue (rt_string RT) (\<lambda>v. obj\<lparr>fq_topic := v\<rparr>) r"
  "FilterRequest_field RT None (word_of_int 26) obj r = readMessage RT (ContentFilter_decode RT None) (\<lambda>v. obj\<lparr>fq_contentFilters := fq_contentFilters obj @ [v]\<rparr>) r"
  unfolding FilterRequest_field_def fieldNumber_of by (simp_all add: limitOf_def readElement_def limitReached_def)

lemma FilterRequest_encode_wire:
  "writes (FilterRequest_encode RT ld m) (if ld then pf_bytes F (wire F (FilterRequest_fields F m)) else wire F (FilterRequest_fields F m))"
  unfolding FilterRequest_encode_def FilterRequest_fields_def
  by (intro writes_delimited list.rel_intros writes_field writes_opt writes_each writes_values contentFilter.encode_nested)

lemma FilterRequest_reads:
  assumes ok: "FilterRequest_ok F m"
  shows "readsAll (FilterRequest_field RT None) (FilterRequest_fields F m) FilterRequest_initial m"
  unfolding FilterRequest_fields_def
  using ok [unfolded FilterRequest_ok_def fits_def]
  by - (rule readsAll_concat chunk_if chunk_opt chunk_each FilterRequest_tags readsAs_values ContentFilter_readsAs |
      simp add: option.map_ident FilterRequest_initial_def)+

lemma FilterRequest_ends: "ends r (FilterRequest_field RT lim tag obj r)"
  unfolding FilterRequest_field_def ContentFilter_decode_def
  by (simp add: ends_values ends_readElement contentFilter.ends_nested)

end

sublocale pb_runtime \<subseteq> filterRequest: message_codec RT F buffers "FilterRequest_encode RT" "FilterRequest_field RT"
    FilterRequest_initial "FilterRequest_fields F" "FilterRequest_ok F" "\<lambda>m. m"
  by unfold_locales (rule FilterRequest_encode_wire FilterRequest_reads FilterRequest_ends, assumption?)+

context pb_runtime
begin

lemmas FilterRequest_readsAs = filterRequest.readsAs_nested [folded FilterRequest_decode_def]
lemmas FilterRequest_roundtrip = filterRequest.roundtrip [folded FilterRequest_decode_def]
lemmas FilterRequest_decode_returns = filterRequest.decode_returns [folded FilterRequest_decode_def]

end

section \<open>MessagePushV1\<close>

definition MessagePushV1_encode :: "'w pbRuntime \<Rightarrow> bool \<Rightarrow> messagePushV1 \<Rightarrow> 'w \<Rightarrow> 'w" where
  "MessagePushV1_encode RT lengthDelimited obj =
     delimited RT lengthDelimited
       [writeEach RT 10 (WakuMessage_encode RT True) (mpv_messages obj)]"

definition MessagePushV1_initial :: messagePushV1 where
  "MessagePushV1_initial = \<lparr>mpv_messages = []\<rparr>"

definition MessagePushV1_field :: "'w pbRuntime \<Rightarrow> pbLimits option \<Rightarrow> messagePushV1 pbField" where
  "MessagePushV1_field RT lim tag obj =
     (if fieldNumber tag = 1 then readElement lim ''messages'' (mpv_messages obj) (readMessage RT (WakuMessage_decode RT (limitOf lim ''messages$'')) (\<lambda>v. obj\<lparr>mpv_messages := mpv_messages obj @ [v]\<rparr>))
      else skipField RT tag obj)"

definition MessagePushV1_decode ::
  "'w pbRuntime \<Rightarrow> pbLimits option \<Rightarrow> nat option \<Rightarrow> pbReader \<Rightarrow> (messagePushV1 \<times> pbReader) res option" where
  "MessagePushV1_decode RT lim = decodeFrom RT (MessagePushV1_field RT lim) MessagePushV1_initial"

definition MessagePushV1_fields :: "pbFormat \<Rightarrow> messagePushV1 \<Rightarrow> (int \<times> bytes) list" where
  "MessagePushV1_fields F m = concat
     [map (\<lambda>v. (10, pf_bytes F (wire F (WakuMessage_fields F v)))) (mpv_messages m)]"

definition MessagePushV1_ok :: "pbFormat \<Rightarrow> messagePushV1 \<Rightarrow> bool" where
  "MessagePushV1_ok F m \<longleftrightarrow> (\<forall>v \<in> set (mpv_messages m). WakuMessage_ok F v \<and> fits (wire F (WakuMessage_fields F v)))"

definition MessagePushV1_settled :: "messagePushV1 \<Rightarrow> messagePushV1" where
  "MessagePushV1_settled m = m\<lparr>mpv_messages := map WakuMessage_settled (mpv_messages m)\<rparr>"

context pb_runtime
begin

lemma MessagePushV1_tags:
  "MessagePushV1_field RT None (word_of_int 10) obj r = readMessage RT (WakuMessage_decode RT None) (\<lambda>v. obj\<lparr>mpv_messages := mpv_messages obj @ [v]\<rparr>) r"
  unfolding MessagePushV1_field_def fieldNumber_of by (simp_all add: limitOf_def readElement_def limitReached_def)

lemma MessagePushV1_encode_wire:
  "writes (MessagePushV1_encode RT ld m) (if ld then pf_bytes F (wire F (MessagePushV1_fields F m)) else wire F (MessagePushV1_fields F m))"
  unfolding MessagePushV1_encode_def MessagePushV1_fields_def
  by (intro writes_delimited list.rel_intros writes_field writes_opt writes_each writes_values wakuMessage.encode_nested)

lemma MessagePushV1_reads:
  assumes ok: "MessagePushV1_ok F m"
  shows "readsAll (MessagePushV1_field RT None) (MessagePushV1_fields F m) MessagePushV1_initial (MessagePushV1_settled m)"
  unfolding MessagePushV1_fields_def
  using ok [unfolded MessagePushV1_ok_def fits_def]
  by - (rule readsAll_concat chunk_if chunk_opt chunk_each MessagePushV1_tags readsAs_values WakuMessage_readsAs |
      simp add: option.map_ident MessagePushV1_initial_def MessagePushV1_settled_def)+

lemma MessagePushV1_ends: "ends r (MessagePushV1_field RT lim tag obj r)"
  unfolding MessagePushV1_field_def WakuMessage_decode_def
  by (simp add: ends_values ends_readElement wakuMessage.ends_nested)

end

sublocale pb_runtime \<subseteq> messagePushV1: message_codec RT F buffers "MessagePushV1_encode RT" "MessagePushV1_field RT"
    MessagePushV1_initial "MessagePushV1_fields F" "MessagePushV1_ok F" MessagePushV1_settled
  by unfold_locales (rule MessagePushV1_encode_wire MessagePushV1_reads MessagePushV1_ends, assumption?)+

context pb_runtime
begin

lemmas MessagePushV1_readsAs = messagePushV1.readsAs_nested [folded MessagePushV1_decode_def]
lemmas MessagePushV1_roundtrip = messagePushV1.roundtrip [folded MessagePushV1_decode_def]
lemmas MessagePushV1_decode_returns = messagePushV1.decode_returns [folded MessagePushV1_decode_def]

end

section \<open>FilterRpc\<close>

definition FilterRpc_encode :: "'w pbRuntime \<Rightarrow> bool \<Rightarrow> filterRpcV1 \<Rightarrow> 'w \<Rightarrow> 'w" where
  "FilterRpc_encode RT lengthDelimited obj =
     delimited RT lengthDelimited
       [writeField RT (fp_requestId obj \<noteq> []) 10 (rt_wString RT (fp_requestId obj)),
        writeOpt RT 18 (FilterRequest_encode RT True) (fp_request obj),
        writeOpt RT 26 (MessagePushV1_encode RT True) (fp_push obj)]"

definition FilterRpc_initial :: filterRpcV1 where
  "FilterRpc_initial = \<lparr>fp_requestId = [], fp_request = None, fp_push = None\<rparr>"

definition FilterRpc_field :: "'w pbRuntime \<Rightarrow> pbLimits option \<Rightarrow> filterRpcV1 pbField" where
  "FilterRpc_field RT lim tag obj =
     (if fieldNumber tag = 1 then readValue (rt_string RT) (\<lambda>v. obj\<lparr>fp_requestId := v\<rparr>)
      else if fieldNumber tag = 2 then readMessage RT (FilterRequest_decode RT (limitOf lim ''request'')) (\<lambda>v. obj\<lparr>fp_request := Some v\<rparr>)
      else if fieldNumber tag = 3 then readMessage RT (MessagePushV1_decode RT (limitOf lim ''push'')) (\<lambda>v. obj\<lparr>fp_push := Some v\<rparr>)
      else skipField RT tag obj)"

definition FilterRpc_decode ::
  "'w pbRuntime \<Rightarrow> pbLimits option \<Rightarrow> nat option \<Rightarrow> pbReader \<Rightarrow> (filterRpcV1 \<times> pbReader) res option" where
  "FilterRpc_decode RT lim = decodeFrom RT (FilterRpc_field RT lim) FilterRpc_initial"

definition FilterRpc_fields :: "pbFormat \<Rightarrow> filterRpcV1 \<Rightarrow> (int \<times> bytes) list" where
  "FilterRpc_fields F m = concat
     [if fp_requestId m \<noteq> [] then [(10, pf_string F (fp_requestId m))] else [],
      case fp_request m of None \<Rightarrow> [] | Some v \<Rightarrow> [(18, pf_bytes F (wire F (FilterRequest_fields F v)))],
      case fp_push m of None \<Rightarrow> [] | Some v \<Rightarrow> [(26, pf_bytes F (wire F (MessagePushV1_fields F v)))]]"

definition FilterRpc_ok :: "pbFormat \<Rightarrow> filterRpcV1 \<Rightarrow> bool" where
  "FilterRpc_ok F m \<longleftrightarrow> fits (pf_utf8 F (fp_requestId m)) \<and>
     holds (\<lambda>v. FilterRequest_ok F v \<and> fits (wire F (FilterRequest_fields F v))) (fp_request m) \<and>
     holds (\<lambda>v. MessagePushV1_ok F v \<and> fits (wire F (MessagePushV1_fields F v))) (fp_push m)"

definition FilterRpc_settled :: "filterRpcV1 \<Rightarrow> filterRpcV1" where
  "FilterRpc_settled m = m\<lparr>fp_push := map_option MessagePushV1_settled (fp_push m)\<rparr>"

context pb_runtime
begin

lemma FilterRpc_tags:
  "FilterRpc_field RT None (word_of_int 10) obj r = readValue (rt_string RT) (\<lambda>v. obj\<lparr>fp_requestId := v\<rparr>) r"
  "FilterRpc_field RT None (word_of_int 18) obj r = readMessage RT (FilterRequest_decode RT None) (\<lambda>v. obj\<lparr>fp_request := Some v\<rparr>) r"
  "FilterRpc_field RT None (word_of_int 26) obj r = readMessage RT (MessagePushV1_decode RT None) (\<lambda>v. obj\<lparr>fp_push := Some v\<rparr>) r"
  unfolding FilterRpc_field_def fieldNumber_of by (simp_all add: limitOf_def readElement_def limitReached_def)

lemma FilterRpc_encode_wire:
  "writes (FilterRpc_encode RT ld m) (if ld then pf_bytes F (wire F (FilterRpc_fields F m)) else wire F (FilterRpc_fields F m))"
  unfolding FilterRpc_encode_def FilterRpc_fields_def
  by (intro writes_delimited list.rel_intros writes_field writes_opt writes_each writes_values filterRequest.encode_nested messagePushV1.encode_nested)

lemma FilterRpc_reads:
  assumes ok: "FilterRpc_ok F m"
  shows "readsAll (FilterRpc_field RT None) (FilterRpc_fields F m) FilterRpc_initial (FilterRpc_settled m)"
  unfolding FilterRpc_fields_def
  using ok [unfolded FilterRpc_ok_def fits_def]
  by - (rule readsAll_concat chunk_if chunk_opt chunk_each FilterRpc_tags readsAs_values FilterRequest_readsAs MessagePushV1_readsAs |
      simp add: option.map_ident FilterRpc_initial_def FilterRpc_settled_def)+

lemma FilterRpc_ends: "ends r (FilterRpc_field RT lim tag obj r)"
  unfolding FilterRpc_field_def FilterRequest_decode_def MessagePushV1_decode_def
  by (simp add: ends_values ends_readElement filterRequest.ends_nested messagePushV1.ends_nested)

end

sublocale pb_runtime \<subseteq> filterRpc: message_codec RT F buffers "FilterRpc_encode RT" "FilterRpc_field RT"
    FilterRpc_initial "FilterRpc_fields F" "FilterRpc_ok F" FilterRpc_settled
  by unfold_locales (rule FilterRpc_encode_wire FilterRpc_reads FilterRpc_ends, assumption?)+

context pb_runtime
begin

lemmas FilterRpc_readsAs = filterRpc.readsAs_nested [folded FilterRpc_decode_def]
lemmas FilterRpc_roundtrip = filterRpc.roundtrip [folded FilterRpc_decode_def]
lemmas FilterRpc_decode_returns = filterRpc.decode_returns [folded FilterRpc_decode_def]

end

end
