(* ===== verification/ProtoRpc.thy ===== *)
theory ProtoRpc
  imports ProtoMessage CoreProtocol PeerExchange Metadata
begin

text \<open>
  \<open>packages/proto/src/generated/light\_push.ts\<close>, \<open>peer\_exchange.ts\<close>, \<open>metadata.ts\<close> and \<open>sds\_message.ts\<close>: the codecs of the light push,
  peer exchange and metadata protocols and of the messages of scalable data sync. For each message: the code, what it writes, and that
  it reads this back.
\<close>

record pushRequestWire =
  prw_pubsubTopic :: string
  prw_message :: "wireMessage option"

record pushRpcWire =
  pw_requestId :: string
  pw_request :: "pushRequestWire option"
  pw_response :: "pushResponse option"

record peerInfoWire =
  piw_enr :: "bytes option"

record pxQueryWire =
  pqw_numPeers :: "int option"

record pxResponseWire =
  psw_peerInfos :: "peerInfoWire list"

record pxRpcWire =
  pxw_query :: "pxQueryWire option"
  pxw_response :: "pxResponseWire option"

record metadataWire =
  mw_clusterId :: "int option"
  mw_shards :: "int list"

record sdsMessage =
  sds_messageId :: string
  sds_channelId :: string
  sds_lamportTimestamp :: "int option"
  sds_causalHistory :: "string list"
  sds_bloomFilter :: "bytes option"
  sds_content :: "bytes option"

section \<open>PushRequest\<close>

definition PushRequest_encode :: "'w pbRuntime \<Rightarrow> bool \<Rightarrow> pushRequestWire \<Rightarrow> 'w \<Rightarrow> 'w" where
  "PushRequest_encode RT lengthDelimited obj =
     delimited RT lengthDelimited
       [writeField RT (prw_pubsubTopic obj \<noteq> []) 10 (rt_wString RT (prw_pubsubTopic obj)),
        writeOpt RT 18 (WakuMessage_encode RT True) (prw_message obj)]"

definition PushRequest_initial :: pushRequestWire where
  "PushRequest_initial = \<lparr>prw_pubsubTopic = [], prw_message = None\<rparr>"

definition PushRequest_field :: "'w pbRuntime \<Rightarrow> pbLimits option \<Rightarrow> pushRequestWire pbField" where
  "PushRequest_field RT lim tag obj =
     (if fieldNumber tag = 1 then readValue (rt_string RT) (\<lambda>v. obj\<lparr>prw_pubsubTopic := v\<rparr>)
      else if fieldNumber tag = 2 then readMessage RT (WakuMessage_decode RT (limitOf lim ''message'')) (\<lambda>v. obj\<lparr>prw_message := Some v\<rparr>)
      else skipField RT tag obj)"

definition PushRequest_decode ::
  "'w pbRuntime \<Rightarrow> pbLimits option \<Rightarrow> nat option \<Rightarrow> pbReader \<Rightarrow> (pushRequestWire \<times> pbReader) res option" where
  "PushRequest_decode RT lim = decodeFrom RT (PushRequest_field RT lim) PushRequest_initial"

definition PushRequest_fields :: "pbFormat \<Rightarrow> pushRequestWire \<Rightarrow> (int \<times> bytes) list" where
  "PushRequest_fields F m = concat
     [if prw_pubsubTopic m \<noteq> [] then [(10, pf_string F (prw_pubsubTopic m))] else [],
      case prw_message m of None \<Rightarrow> [] | Some v \<Rightarrow> [(18, pf_bytes F (wire F (WakuMessage_fields F v)))]]"

definition PushRequest_ok :: "pbFormat \<Rightarrow> pushRequestWire \<Rightarrow> bool" where
  "PushRequest_ok F m \<longleftrightarrow> fits (pf_utf8 F (prw_pubsubTopic m)) \<and>
     holds (\<lambda>v. WakuMessage_ok F v \<and> fits (wire F (WakuMessage_fields F v))) (prw_message m)"

definition PushRequest_settled :: "pushRequestWire \<Rightarrow> pushRequestWire" where
  "PushRequest_settled m = m\<lparr>prw_message := map_option WakuMessage_settled (prw_message m)\<rparr>"

context pb_runtime
begin

lemma PushRequest_tags:
  "PushRequest_field RT None (word_of_int 10) obj r = readValue (rt_string RT) (\<lambda>v. obj\<lparr>prw_pubsubTopic := v\<rparr>) r"
  "PushRequest_field RT None (word_of_int 18) obj r = readMessage RT (WakuMessage_decode RT None) (\<lambda>v. obj\<lparr>prw_message := Some v\<rparr>) r"
  unfolding PushRequest_field_def fieldNumber_of by (simp_all add: limitOf_def readElement_def limitReached_def)

lemma PushRequest_encode_wire:
  "writes (PushRequest_encode RT ld m) (if ld then pf_bytes F (wire F (PushRequest_fields F m)) else wire F (PushRequest_fields F m))"
  unfolding PushRequest_encode_def PushRequest_fields_def
  by (intro writes_delimited list.rel_intros writes_field writes_opt writes_each writes_values wakuMessage.encode_nested)

lemma PushRequest_reads:
  assumes ok: "PushRequest_ok F m"
  shows "readsAll (PushRequest_field RT None) (PushRequest_fields F m) PushRequest_initial (PushRequest_settled m)"
  unfolding PushRequest_fields_def
  using ok [unfolded PushRequest_ok_def fits_def]
  by - (rule readsAll_concat chunk_if chunk_opt chunk_each PushRequest_tags readsAs_values WakuMessage_readsAs |
      simp add: option.map_ident PushRequest_initial_def PushRequest_settled_def)+

lemma PushRequest_ends: "ends r (PushRequest_field RT lim tag obj r)"
  unfolding PushRequest_field_def WakuMessage_decode_def
  by (simp add: ends_values ends_readElement wakuMessage.ends_nested)

end

sublocale pb_runtime \<subseteq> pushRequest: message_codec RT F buffers "PushRequest_encode RT" "PushRequest_field RT"
    PushRequest_initial "PushRequest_fields F" "PushRequest_ok F" PushRequest_settled
  by unfold_locales (rule PushRequest_encode_wire PushRequest_reads PushRequest_ends, assumption?)+

context pb_runtime
begin

lemmas PushRequest_readsAs = pushRequest.readsAs_nested [folded PushRequest_decode_def]
lemmas PushRequest_roundtrip = pushRequest.roundtrip [folded PushRequest_decode_def]
lemmas PushRequest_decode_returns = pushRequest.decode_returns [folded PushRequest_decode_def]

end

section \<open>PushResponse\<close>

definition PushResponse_encode :: "'w pbRuntime \<Rightarrow> bool \<Rightarrow> pushResponse \<Rightarrow> 'w \<Rightarrow> 'w" where
  "PushResponse_encode RT lengthDelimited obj =
     delimited RT lengthDelimited
       [writeField RT (pr_isSuccess obj) 8 (rt_wBool RT (pr_isSuccess obj)),
        writeOpt RT 18 (rt_wString RT) (pr_info obj)]"

definition PushResponse_initial :: pushResponse where
  "PushResponse_initial = \<lparr>pr_isSuccess = False, pr_info = None\<rparr>"

definition PushResponse_field :: "'w pbRuntime \<Rightarrow> pbLimits option \<Rightarrow> pushResponse pbField" where
  "PushResponse_field RT lim tag obj =
     (if fieldNumber tag = 1 then readValue (rt_bool RT) (\<lambda>v. obj\<lparr>pr_isSuccess := v\<rparr>)
      else if fieldNumber tag = 2 then readValue (rt_string RT) (\<lambda>v. obj\<lparr>pr_info := Some v\<rparr>)
      else skipField RT tag obj)"

definition PushResponse_decode ::
  "'w pbRuntime \<Rightarrow> pbLimits option \<Rightarrow> nat option \<Rightarrow> pbReader \<Rightarrow> (pushResponse \<times> pbReader) res option" where
  "PushResponse_decode RT lim = decodeFrom RT (PushResponse_field RT lim) PushResponse_initial"

definition PushResponse_fields :: "pbFormat \<Rightarrow> pushResponse \<Rightarrow> (int \<times> bytes) list" where
  "PushResponse_fields F m = concat
     [if pr_isSuccess m then [(8, pf_bool F (pr_isSuccess m))] else [],
      case pr_info m of None \<Rightarrow> [] | Some v \<Rightarrow> [(18, pf_string F v)]]"

definition PushResponse_ok :: "pbFormat \<Rightarrow> pushResponse \<Rightarrow> bool" where
  "PushResponse_ok F m \<longleftrightarrow> holds (\<lambda>v. fits (pf_utf8 F v)) (pr_info m)"

context pb_runtime
begin

lemma PushResponse_tags:
  "PushResponse_field RT None (word_of_int 8) obj r = readValue (rt_bool RT) (\<lambda>v. obj\<lparr>pr_isSuccess := v\<rparr>) r"
  "PushResponse_field RT None (word_of_int 18) obj r = readValue (rt_string RT) (\<lambda>v. obj\<lparr>pr_info := Some v\<rparr>) r"
  unfolding PushResponse_field_def fieldNumber_of by (simp_all add: limitOf_def readElement_def limitReached_def)

lemma PushResponse_encode_wire:
  "writes (PushResponse_encode RT ld m) (if ld then pf_bytes F (wire F (PushResponse_fields F m)) else wire F (PushResponse_fields F m))"
  unfolding PushResponse_encode_def PushResponse_fields_def
  by (intro writes_delimited list.rel_intros writes_field writes_opt writes_each writes_values)

lemma PushResponse_reads:
  assumes ok: "PushResponse_ok F m"
  shows "readsAll (PushResponse_field RT None) (PushResponse_fields F m) PushResponse_initial m"
  unfolding PushResponse_fields_def
  using ok [unfolded PushResponse_ok_def fits_def]
  by - (rule readsAll_concat chunk_if chunk_opt chunk_each PushResponse_tags readsAs_values |
      simp add: option.map_ident PushResponse_initial_def)+

lemma PushResponse_ends: "ends r (PushResponse_field RT lim tag obj r)"
  unfolding PushResponse_field_def
  by (simp add: ends_values ends_readElement)

end

sublocale pb_runtime \<subseteq> pushResponse: message_codec RT F buffers "PushResponse_encode RT" "PushResponse_field RT"
    PushResponse_initial "PushResponse_fields F" "PushResponse_ok F" "\<lambda>m. m"
  by unfold_locales (rule PushResponse_encode_wire PushResponse_reads PushResponse_ends, assumption?)+

context pb_runtime
begin

lemmas PushResponse_readsAs = pushResponse.readsAs_nested [folded PushResponse_decode_def]
lemmas PushResponse_roundtrip = pushResponse.roundtrip [folded PushResponse_decode_def]
lemmas PushResponse_decode_returns = pushResponse.decode_returns [folded PushResponse_decode_def]

end

section \<open>PushRpc\<close>

definition PushRpc_encode :: "'w pbRuntime \<Rightarrow> bool \<Rightarrow> pushRpcWire \<Rightarrow> 'w \<Rightarrow> 'w" where
  "PushRpc_encode RT lengthDelimited obj =
     delimited RT lengthDelimited
       [writeField RT (pw_requestId obj \<noteq> []) 10 (rt_wString RT (pw_requestId obj)),
        writeOpt RT 18 (PushRequest_encode RT True) (pw_request obj),
        writeOpt RT 26 (PushResponse_encode RT True) (pw_response obj)]"

definition PushRpc_initial :: pushRpcWire where
  "PushRpc_initial = \<lparr>pw_requestId = [], pw_request = None, pw_response = None\<rparr>"

definition PushRpc_field :: "'w pbRuntime \<Rightarrow> pbLimits option \<Rightarrow> pushRpcWire pbField" where
  "PushRpc_field RT lim tag obj =
     (if fieldNumber tag = 1 then readValue (rt_string RT) (\<lambda>v. obj\<lparr>pw_requestId := v\<rparr>)
      else if fieldNumber tag = 2 then readMessage RT (PushRequest_decode RT (limitOf lim ''request'')) (\<lambda>v. obj\<lparr>pw_request := Some v\<rparr>)
      else if fieldNumber tag = 3 then readMessage RT (PushResponse_decode RT (limitOf lim ''response'')) (\<lambda>v. obj\<lparr>pw_response := Some v\<rparr>)
      else skipField RT tag obj)"

definition PushRpc_decode ::
  "'w pbRuntime \<Rightarrow> pbLimits option \<Rightarrow> nat option \<Rightarrow> pbReader \<Rightarrow> (pushRpcWire \<times> pbReader) res option" where
  "PushRpc_decode RT lim = decodeFrom RT (PushRpc_field RT lim) PushRpc_initial"

definition PushRpc_fields :: "pbFormat \<Rightarrow> pushRpcWire \<Rightarrow> (int \<times> bytes) list" where
  "PushRpc_fields F m = concat
     [if pw_requestId m \<noteq> [] then [(10, pf_string F (pw_requestId m))] else [],
      case pw_request m of None \<Rightarrow> [] | Some v \<Rightarrow> [(18, pf_bytes F (wire F (PushRequest_fields F v)))],
      case pw_response m of None \<Rightarrow> [] | Some v \<Rightarrow> [(26, pf_bytes F (wire F (PushResponse_fields F v)))]]"

definition PushRpc_ok :: "pbFormat \<Rightarrow> pushRpcWire \<Rightarrow> bool" where
  "PushRpc_ok F m \<longleftrightarrow> fits (pf_utf8 F (pw_requestId m)) \<and>
     holds (\<lambda>v. PushRequest_ok F v \<and> fits (wire F (PushRequest_fields F v))) (pw_request m) \<and>
     holds (\<lambda>v. PushResponse_ok F v \<and> fits (wire F (PushResponse_fields F v))) (pw_response m)"

definition PushRpc_settled :: "pushRpcWire \<Rightarrow> pushRpcWire" where
  "PushRpc_settled m = m\<lparr>pw_request := map_option PushRequest_settled (pw_request m)\<rparr>"

context pb_runtime
begin

lemma PushRpc_tags:
  "PushRpc_field RT None (word_of_int 10) obj r = readValue (rt_string RT) (\<lambda>v. obj\<lparr>pw_requestId := v\<rparr>) r"
  "PushRpc_field RT None (word_of_int 18) obj r = readMessage RT (PushRequest_decode RT None) (\<lambda>v. obj\<lparr>pw_request := Some v\<rparr>) r"
  "PushRpc_field RT None (word_of_int 26) obj r = readMessage RT (PushResponse_decode RT None) (\<lambda>v. obj\<lparr>pw_response := Some v\<rparr>) r"
  unfolding PushRpc_field_def fieldNumber_of by (simp_all add: limitOf_def readElement_def limitReached_def)

lemma PushRpc_encode_wire:
  "writes (PushRpc_encode RT ld m) (if ld then pf_bytes F (wire F (PushRpc_fields F m)) else wire F (PushRpc_fields F m))"
  unfolding PushRpc_encode_def PushRpc_fields_def
  by (intro writes_delimited list.rel_intros writes_field writes_opt writes_each writes_values pushRequest.encode_nested pushResponse.encode_nested)

lemma PushRpc_reads:
  assumes ok: "PushRpc_ok F m"
  shows "readsAll (PushRpc_field RT None) (PushRpc_fields F m) PushRpc_initial (PushRpc_settled m)"
  unfolding PushRpc_fields_def
  using ok [unfolded PushRpc_ok_def fits_def]
  by - (rule readsAll_concat chunk_if chunk_opt chunk_each PushRpc_tags readsAs_values PushRequest_readsAs PushResponse_readsAs |
      simp add: option.map_ident PushRpc_initial_def PushRpc_settled_def)+

lemma PushRpc_ends: "ends r (PushRpc_field RT lim tag obj r)"
  unfolding PushRpc_field_def PushRequest_decode_def PushResponse_decode_def
  by (simp add: ends_values ends_readElement pushRequest.ends_nested pushResponse.ends_nested)

end

sublocale pb_runtime \<subseteq> pushRpc: message_codec RT F buffers "PushRpc_encode RT" "PushRpc_field RT"
    PushRpc_initial "PushRpc_fields F" "PushRpc_ok F" PushRpc_settled
  by unfold_locales (rule PushRpc_encode_wire PushRpc_reads PushRpc_ends, assumption?)+

context pb_runtime
begin

lemmas PushRpc_readsAs = pushRpc.readsAs_nested [folded PushRpc_decode_def]
lemmas PushRpc_roundtrip = pushRpc.roundtrip [folded PushRpc_decode_def]
lemmas PushRpc_decode_returns = pushRpc.decode_returns [folded PushRpc_decode_def]

end

section \<open>PeerInfo\<close>

definition PeerInfo_encode :: "'w pbRuntime \<Rightarrow> bool \<Rightarrow> peerInfoWire \<Rightarrow> 'w \<Rightarrow> 'w" where
  "PeerInfo_encode RT lengthDelimited obj =
     delimited RT lengthDelimited
       [writeOpt RT 10 (rt_wBytes RT) (piw_enr obj)]"

definition PeerInfo_initial :: peerInfoWire where
  "PeerInfo_initial = \<lparr>piw_enr = None\<rparr>"

definition PeerInfo_field :: "'w pbRuntime \<Rightarrow> pbLimits option \<Rightarrow> peerInfoWire pbField" where
  "PeerInfo_field RT lim tag obj =
     (if fieldNumber tag = 1 then readValue (rt_bytes RT) (\<lambda>v. obj\<lparr>piw_enr := Some v\<rparr>)
      else skipField RT tag obj)"

definition PeerInfo_decode ::
  "'w pbRuntime \<Rightarrow> pbLimits option \<Rightarrow> nat option \<Rightarrow> pbReader \<Rightarrow> (peerInfoWire \<times> pbReader) res option" where
  "PeerInfo_decode RT lim = decodeFrom RT (PeerInfo_field RT lim) PeerInfo_initial"

definition PeerInfo_fields :: "pbFormat \<Rightarrow> peerInfoWire \<Rightarrow> (int \<times> bytes) list" where
  "PeerInfo_fields F m = concat
     [case piw_enr m of None \<Rightarrow> [] | Some v \<Rightarrow> [(10, pf_bytes F v)]]"

definition PeerInfo_ok :: "pbFormat \<Rightarrow> peerInfoWire \<Rightarrow> bool" where
  "PeerInfo_ok F m \<longleftrightarrow> holds (\<lambda>v. fits v) (piw_enr m)"

context pb_runtime
begin

lemma PeerInfo_tags:
  "PeerInfo_field RT None (word_of_int 10) obj r = readValue (rt_bytes RT) (\<lambda>v. obj\<lparr>piw_enr := Some v\<rparr>) r"
  unfolding PeerInfo_field_def fieldNumber_of by (simp_all add: limitOf_def readElement_def limitReached_def)

lemma PeerInfo_encode_wire:
  "writes (PeerInfo_encode RT ld m) (if ld then pf_bytes F (wire F (PeerInfo_fields F m)) else wire F (PeerInfo_fields F m))"
  unfolding PeerInfo_encode_def PeerInfo_fields_def
  by (intro writes_delimited list.rel_intros writes_field writes_opt writes_each writes_values)

lemma PeerInfo_reads:
  assumes ok: "PeerInfo_ok F m"
  shows "readsAll (PeerInfo_field RT None) (PeerInfo_fields F m) PeerInfo_initial m"
  unfolding PeerInfo_fields_def
  using ok [unfolded PeerInfo_ok_def fits_def]
  by - (rule readsAll_concat chunk_if chunk_opt chunk_each PeerInfo_tags readsAs_values |
      simp add: option.map_ident PeerInfo_initial_def)+

lemma PeerInfo_ends: "ends r (PeerInfo_field RT lim tag obj r)"
  unfolding PeerInfo_field_def
  by (simp add: ends_values ends_readElement)

end

sublocale pb_runtime \<subseteq> peerInfo: message_codec RT F buffers "PeerInfo_encode RT" "PeerInfo_field RT"
    PeerInfo_initial "PeerInfo_fields F" "PeerInfo_ok F" "\<lambda>m. m"
  by unfold_locales (rule PeerInfo_encode_wire PeerInfo_reads PeerInfo_ends, assumption?)+

context pb_runtime
begin

lemmas PeerInfo_readsAs = peerInfo.readsAs_nested [folded PeerInfo_decode_def]
lemmas PeerInfo_roundtrip = peerInfo.roundtrip [folded PeerInfo_decode_def]
lemmas PeerInfo_decode_returns = peerInfo.decode_returns [folded PeerInfo_decode_def]

end

section \<open>PeerExchangeQuery\<close>

definition PeerExchangeQuery_encode :: "'w pbRuntime \<Rightarrow> bool \<Rightarrow> pxQueryWire \<Rightarrow> 'w \<Rightarrow> 'w" where
  "PeerExchangeQuery_encode RT lengthDelimited obj =
     delimited RT lengthDelimited
       [writeOpt RT 8 (rt_wUint64 RT) (pqw_numPeers obj)]"

definition PeerExchangeQuery_initial :: pxQueryWire where
  "PeerExchangeQuery_initial = \<lparr>pqw_numPeers = None\<rparr>"

definition PeerExchangeQuery_field :: "'w pbRuntime \<Rightarrow> pbLimits option \<Rightarrow> pxQueryWire pbField" where
  "PeerExchangeQuery_field RT lim tag obj =
     (if fieldNumber tag = 1 then readValue (rt_uint64 RT) (\<lambda>v. obj\<lparr>pqw_numPeers := Some v\<rparr>)
      else skipField RT tag obj)"

definition PeerExchangeQuery_decode ::
  "'w pbRuntime \<Rightarrow> pbLimits option \<Rightarrow> nat option \<Rightarrow> pbReader \<Rightarrow> (pxQueryWire \<times> pbReader) res option" where
  "PeerExchangeQuery_decode RT lim = decodeFrom RT (PeerExchangeQuery_field RT lim) PeerExchangeQuery_initial"

definition PeerExchangeQuery_fields :: "pbFormat \<Rightarrow> pxQueryWire \<Rightarrow> (int \<times> bytes) list" where
  "PeerExchangeQuery_fields F m = concat
     [case pqw_numPeers m of None \<Rightarrow> [] | Some v \<Rightarrow> [(8, pf_uint64 F v)]]"

definition PeerExchangeQuery_ok :: "pbFormat \<Rightarrow> pxQueryWire \<Rightarrow> bool" where
  "PeerExchangeQuery_ok F m \<longleftrightarrow> holds (\<lambda>v. 0 \<le> v \<and> v < 2 ^ 64) (pqw_numPeers m)"

context pb_runtime
begin

lemma PeerExchangeQuery_tags:
  "PeerExchangeQuery_field RT None (word_of_int 8) obj r = readValue (rt_uint64 RT) (\<lambda>v. obj\<lparr>pqw_numPeers := Some v\<rparr>) r"
  unfolding PeerExchangeQuery_field_def fieldNumber_of by (simp_all add: limitOf_def readElement_def limitReached_def)

lemma PeerExchangeQuery_encode_wire:
  "writes (PeerExchangeQuery_encode RT ld m) (if ld then pf_bytes F (wire F (PeerExchangeQuery_fields F m)) else wire F (PeerExchangeQuery_fields F m))"
  unfolding PeerExchangeQuery_encode_def PeerExchangeQuery_fields_def
  by (intro writes_delimited list.rel_intros writes_field writes_opt writes_each writes_values)

lemma PeerExchangeQuery_reads:
  assumes ok: "PeerExchangeQuery_ok F m"
  shows "readsAll (PeerExchangeQuery_field RT None) (PeerExchangeQuery_fields F m) PeerExchangeQuery_initial m"
  unfolding PeerExchangeQuery_fields_def
  using ok [unfolded PeerExchangeQuery_ok_def fits_def]
  by - (rule readsAll_concat chunk_if chunk_opt chunk_each PeerExchangeQuery_tags readsAs_values |
      simp add: option.map_ident PeerExchangeQuery_initial_def)+

lemma PeerExchangeQuery_ends: "ends r (PeerExchangeQuery_field RT lim tag obj r)"
  unfolding PeerExchangeQuery_field_def
  by (simp add: ends_values ends_readElement)

end

sublocale pb_runtime \<subseteq> peerExchangeQuery: message_codec RT F buffers "PeerExchangeQuery_encode RT" "PeerExchangeQuery_field RT"
    PeerExchangeQuery_initial "PeerExchangeQuery_fields F" "PeerExchangeQuery_ok F" "\<lambda>m. m"
  by unfold_locales (rule PeerExchangeQuery_encode_wire PeerExchangeQuery_reads PeerExchangeQuery_ends, assumption?)+

context pb_runtime
begin

lemmas PeerExchangeQuery_readsAs = peerExchangeQuery.readsAs_nested [folded PeerExchangeQuery_decode_def]
lemmas PeerExchangeQuery_roundtrip = peerExchangeQuery.roundtrip [folded PeerExchangeQuery_decode_def]
lemmas PeerExchangeQuery_decode_returns = peerExchangeQuery.decode_returns [folded PeerExchangeQuery_decode_def]

end

section \<open>PeerExchangeResponse\<close>

definition PeerExchangeResponse_encode :: "'w pbRuntime \<Rightarrow> bool \<Rightarrow> pxResponseWire \<Rightarrow> 'w \<Rightarrow> 'w" where
  "PeerExchangeResponse_encode RT lengthDelimited obj =
     delimited RT lengthDelimited
       [writeEach RT 10 (PeerInfo_encode RT True) (psw_peerInfos obj)]"

definition PeerExchangeResponse_initial :: pxResponseWire where
  "PeerExchangeResponse_initial = \<lparr>psw_peerInfos = []\<rparr>"

definition PeerExchangeResponse_field :: "'w pbRuntime \<Rightarrow> pbLimits option \<Rightarrow> pxResponseWire pbField" where
  "PeerExchangeResponse_field RT lim tag obj =
     (if fieldNumber tag = 1 then readElement lim ''peerInfos'' (psw_peerInfos obj) (readMessage RT (PeerInfo_decode RT (limitOf lim ''peerInfos$'')) (\<lambda>v. obj\<lparr>psw_peerInfos := psw_peerInfos obj @ [v]\<rparr>))
      else skipField RT tag obj)"

definition PeerExchangeResponse_decode ::
  "'w pbRuntime \<Rightarrow> pbLimits option \<Rightarrow> nat option \<Rightarrow> pbReader \<Rightarrow> (pxResponseWire \<times> pbReader) res option" where
  "PeerExchangeResponse_decode RT lim = decodeFrom RT (PeerExchangeResponse_field RT lim) PeerExchangeResponse_initial"

definition PeerExchangeResponse_fields :: "pbFormat \<Rightarrow> pxResponseWire \<Rightarrow> (int \<times> bytes) list" where
  "PeerExchangeResponse_fields F m = concat
     [map (\<lambda>v. (10, pf_bytes F (wire F (PeerInfo_fields F v)))) (psw_peerInfos m)]"

definition PeerExchangeResponse_ok :: "pbFormat \<Rightarrow> pxResponseWire \<Rightarrow> bool" where
  "PeerExchangeResponse_ok F m \<longleftrightarrow> (\<forall>v \<in> set (psw_peerInfos m). PeerInfo_ok F v \<and> fits (wire F (PeerInfo_fields F v)))"

context pb_runtime
begin

lemma PeerExchangeResponse_tags:
  "PeerExchangeResponse_field RT None (word_of_int 10) obj r = readMessage RT (PeerInfo_decode RT None) (\<lambda>v. obj\<lparr>psw_peerInfos := psw_peerInfos obj @ [v]\<rparr>) r"
  unfolding PeerExchangeResponse_field_def fieldNumber_of by (simp_all add: limitOf_def readElement_def limitReached_def)

lemma PeerExchangeResponse_encode_wire:
  "writes (PeerExchangeResponse_encode RT ld m) (if ld then pf_bytes F (wire F (PeerExchangeResponse_fields F m)) else wire F (PeerExchangeResponse_fields F m))"
  unfolding PeerExchangeResponse_encode_def PeerExchangeResponse_fields_def
  by (intro writes_delimited list.rel_intros writes_field writes_opt writes_each writes_values peerInfo.encode_nested)

lemma PeerExchangeResponse_reads:
  assumes ok: "PeerExchangeResponse_ok F m"
  shows "readsAll (PeerExchangeResponse_field RT None) (PeerExchangeResponse_fields F m) PeerExchangeResponse_initial m"
  unfolding PeerExchangeResponse_fields_def
  using ok [unfolded PeerExchangeResponse_ok_def fits_def]
  by - (rule readsAll_concat chunk_if chunk_opt chunk_each PeerExchangeResponse_tags readsAs_values PeerInfo_readsAs |
      simp add: option.map_ident PeerExchangeResponse_initial_def)+

lemma PeerExchangeResponse_ends: "ends r (PeerExchangeResponse_field RT lim tag obj r)"
  unfolding PeerExchangeResponse_field_def PeerInfo_decode_def
  by (simp add: ends_values ends_readElement peerInfo.ends_nested)

end

sublocale pb_runtime \<subseteq> peerExchangeResponse: message_codec RT F buffers "PeerExchangeResponse_encode RT" "PeerExchangeResponse_field RT"
    PeerExchangeResponse_initial "PeerExchangeResponse_fields F" "PeerExchangeResponse_ok F" "\<lambda>m. m"
  by unfold_locales (rule PeerExchangeResponse_encode_wire PeerExchangeResponse_reads PeerExchangeResponse_ends, assumption?)+

context pb_runtime
begin

lemmas PeerExchangeResponse_readsAs = peerExchangeResponse.readsAs_nested [folded PeerExchangeResponse_decode_def]
lemmas PeerExchangeResponse_roundtrip = peerExchangeResponse.roundtrip [folded PeerExchangeResponse_decode_def]
lemmas PeerExchangeResponse_decode_returns = peerExchangeResponse.decode_returns [folded PeerExchangeResponse_decode_def]

end

section \<open>PeerExchangeRPC\<close>

definition PeerExchangeRPC_encode :: "'w pbRuntime \<Rightarrow> bool \<Rightarrow> pxRpcWire \<Rightarrow> 'w \<Rightarrow> 'w" where
  "PeerExchangeRPC_encode RT lengthDelimited obj =
     delimited RT lengthDelimited
       [writeOpt RT 10 (PeerExchangeQuery_encode RT True) (pxw_query obj),
        writeOpt RT 18 (PeerExchangeResponse_encode RT True) (pxw_response obj)]"

definition PeerExchangeRPC_initial :: pxRpcWire where
  "PeerExchangeRPC_initial = \<lparr>pxw_query = None, pxw_response = None\<rparr>"

definition PeerExchangeRPC_field :: "'w pbRuntime \<Rightarrow> pbLimits option \<Rightarrow> pxRpcWire pbField" where
  "PeerExchangeRPC_field RT lim tag obj =
     (if fieldNumber tag = 1 then readMessage RT (PeerExchangeQuery_decode RT (limitOf lim ''query'')) (\<lambda>v. obj\<lparr>pxw_query := Some v\<rparr>)
      else if fieldNumber tag = 2 then readMessage RT (PeerExchangeResponse_decode RT (limitOf lim ''response'')) (\<lambda>v. obj\<lparr>pxw_response := Some v\<rparr>)
      else skipField RT tag obj)"

definition PeerExchangeRPC_decode ::
  "'w pbRuntime \<Rightarrow> pbLimits option \<Rightarrow> nat option \<Rightarrow> pbReader \<Rightarrow> (pxRpcWire \<times> pbReader) res option" where
  "PeerExchangeRPC_decode RT lim = decodeFrom RT (PeerExchangeRPC_field RT lim) PeerExchangeRPC_initial"

definition PeerExchangeRPC_fields :: "pbFormat \<Rightarrow> pxRpcWire \<Rightarrow> (int \<times> bytes) list" where
  "PeerExchangeRPC_fields F m = concat
     [case pxw_query m of None \<Rightarrow> [] | Some v \<Rightarrow> [(10, pf_bytes F (wire F (PeerExchangeQuery_fields F v)))],
      case pxw_response m of None \<Rightarrow> [] | Some v \<Rightarrow> [(18, pf_bytes F (wire F (PeerExchangeResponse_fields F v)))]]"

definition PeerExchangeRPC_ok :: "pbFormat \<Rightarrow> pxRpcWire \<Rightarrow> bool" where
  "PeerExchangeRPC_ok F m \<longleftrightarrow> holds (\<lambda>v. PeerExchangeQuery_ok F v \<and> fits (wire F (PeerExchangeQuery_fields F v))) (pxw_query m) \<and>
     holds (\<lambda>v. PeerExchangeResponse_ok F v \<and> fits (wire F (PeerExchangeResponse_fields F v))) (pxw_response m)"

context pb_runtime
begin

lemma PeerExchangeRPC_tags:
  "PeerExchangeRPC_field RT None (word_of_int 10) obj r = readMessage RT (PeerExchangeQuery_decode RT None) (\<lambda>v. obj\<lparr>pxw_query := Some v\<rparr>) r"
  "PeerExchangeRPC_field RT None (word_of_int 18) obj r = readMessage RT (PeerExchangeResponse_decode RT None) (\<lambda>v. obj\<lparr>pxw_response := Some v\<rparr>) r"
  unfolding PeerExchangeRPC_field_def fieldNumber_of by (simp_all add: limitOf_def readElement_def limitReached_def)

lemma PeerExchangeRPC_encode_wire:
  "writes (PeerExchangeRPC_encode RT ld m) (if ld then pf_bytes F (wire F (PeerExchangeRPC_fields F m)) else wire F (PeerExchangeRPC_fields F m))"
  unfolding PeerExchangeRPC_encode_def PeerExchangeRPC_fields_def
  by (intro writes_delimited list.rel_intros writes_field writes_opt writes_each writes_values peerExchangeQuery.encode_nested peerExchangeResponse.encode_nested)

lemma PeerExchangeRPC_reads:
  assumes ok: "PeerExchangeRPC_ok F m"
  shows "readsAll (PeerExchangeRPC_field RT None) (PeerExchangeRPC_fields F m) PeerExchangeRPC_initial m"
  unfolding PeerExchangeRPC_fields_def
  using ok [unfolded PeerExchangeRPC_ok_def fits_def]
  by - (rule readsAll_concat chunk_if chunk_opt chunk_each PeerExchangeRPC_tags readsAs_values PeerExchangeQuery_readsAs PeerExchangeResponse_readsAs |
      simp add: option.map_ident PeerExchangeRPC_initial_def)+

lemma PeerExchangeRPC_ends: "ends r (PeerExchangeRPC_field RT lim tag obj r)"
  unfolding PeerExchangeRPC_field_def PeerExchangeQuery_decode_def PeerExchangeResponse_decode_def
  by (simp add: ends_values ends_readElement peerExchangeQuery.ends_nested peerExchangeResponse.ends_nested)

end

sublocale pb_runtime \<subseteq> peerExchangeRPC: message_codec RT F buffers "PeerExchangeRPC_encode RT" "PeerExchangeRPC_field RT"
    PeerExchangeRPC_initial "PeerExchangeRPC_fields F" "PeerExchangeRPC_ok F" "\<lambda>m. m"
  by unfold_locales (rule PeerExchangeRPC_encode_wire PeerExchangeRPC_reads PeerExchangeRPC_ends, assumption?)+

context pb_runtime
begin

lemmas PeerExchangeRPC_readsAs = peerExchangeRPC.readsAs_nested [folded PeerExchangeRPC_decode_def]
lemmas PeerExchangeRPC_roundtrip = peerExchangeRPC.roundtrip [folded PeerExchangeRPC_decode_def]
lemmas PeerExchangeRPC_decode_returns = peerExchangeRPC.decode_returns [folded PeerExchangeRPC_decode_def]

end

section \<open>WakuMetadataRequest\<close>

definition WakuMetadataRequest_encode :: "'w pbRuntime \<Rightarrow> bool \<Rightarrow> metadataWire \<Rightarrow> 'w \<Rightarrow> 'w" where
  "WakuMetadataRequest_encode RT lengthDelimited obj =
     delimited RT lengthDelimited
       [writeOpt RT 8 (rt_wUint32 RT) (mw_clusterId obj),
        writeEach RT 16 (rt_wUint32 RT) (mw_shards obj)]"

definition WakuMetadataRequest_initial :: metadataWire where
  "WakuMetadataRequest_initial = \<lparr>mw_clusterId = None, mw_shards = []\<rparr>"

definition WakuMetadataRequest_field :: "'w pbRuntime \<Rightarrow> pbLimits option \<Rightarrow> metadataWire pbField" where
  "WakuMetadataRequest_field RT lim tag obj =
     (if fieldNumber tag = 1 then readValue (readUint RT) (\<lambda>v. obj\<lparr>mw_clusterId := Some v\<rparr>)
      else if fieldNumber tag = 2 then readElement lim ''shards'' (mw_shards obj) (readValue (readUint RT) (\<lambda>v. obj\<lparr>mw_shards := mw_shards obj @ [v]\<rparr>))
      else skipField RT tag obj)"

definition WakuMetadataRequest_decode ::
  "'w pbRuntime \<Rightarrow> pbLimits option \<Rightarrow> nat option \<Rightarrow> pbReader \<Rightarrow> (metadataWire \<times> pbReader) res option" where
  "WakuMetadataRequest_decode RT lim = decodeFrom RT (WakuMetadataRequest_field RT lim) WakuMetadataRequest_initial"

definition WakuMetadataRequest_fields :: "pbFormat \<Rightarrow> metadataWire \<Rightarrow> (int \<times> bytes) list" where
  "WakuMetadataRequest_fields F m = concat
     [case mw_clusterId m of None \<Rightarrow> [] | Some v \<Rightarrow> [(8, pf_uint32 F v)],
      map (\<lambda>v. (16, pf_uint32 F v)) (mw_shards m)]"

definition WakuMetadataRequest_ok :: "pbFormat \<Rightarrow> metadataWire \<Rightarrow> bool" where
  "WakuMetadataRequest_ok F m \<longleftrightarrow> holds (\<lambda>v. 0 \<le> v \<and> v < 2 ^ 32) (mw_clusterId m) \<and>
     (\<forall>v \<in> set (mw_shards m). 0 \<le> v \<and> v < 2 ^ 32)"

context pb_runtime
begin

lemma WakuMetadataRequest_tags:
  "WakuMetadataRequest_field RT None (word_of_int 8) obj r = readValue (readUint RT) (\<lambda>v. obj\<lparr>mw_clusterId := Some v\<rparr>) r"
  "WakuMetadataRequest_field RT None (word_of_int 16) obj r = readValue (readUint RT) (\<lambda>v. obj\<lparr>mw_shards := mw_shards obj @ [v]\<rparr>) r"
  unfolding WakuMetadataRequest_field_def fieldNumber_of by (simp_all add: limitOf_def readElement_def limitReached_def)

lemma WakuMetadataRequest_encode_wire:
  "writes (WakuMetadataRequest_encode RT ld m) (if ld then pf_bytes F (wire F (WakuMetadataRequest_fields F m)) else wire F (WakuMetadataRequest_fields F m))"
  unfolding WakuMetadataRequest_encode_def WakuMetadataRequest_fields_def
  by (intro writes_delimited list.rel_intros writes_field writes_opt writes_each writes_values)

lemma WakuMetadataRequest_reads:
  assumes ok: "WakuMetadataRequest_ok F m"
  shows "readsAll (WakuMetadataRequest_field RT None) (WakuMetadataRequest_fields F m) WakuMetadataRequest_initial m"
  unfolding WakuMetadataRequest_fields_def
  using ok [unfolded WakuMetadataRequest_ok_def fits_def]
  by - (rule readsAll_concat chunk_if chunk_opt chunk_each WakuMetadataRequest_tags readsAs_values |
      simp add: option.map_ident WakuMetadataRequest_initial_def)+

lemma WakuMetadataRequest_ends: "ends r (WakuMetadataRequest_field RT lim tag obj r)"
  unfolding WakuMetadataRequest_field_def
  by (simp add: ends_values ends_readElement)

end

sublocale pb_runtime \<subseteq> wakuMetadataRequest: message_codec RT F buffers "WakuMetadataRequest_encode RT" "WakuMetadataRequest_field RT"
    WakuMetadataRequest_initial "WakuMetadataRequest_fields F" "WakuMetadataRequest_ok F" "\<lambda>m. m"
  by unfold_locales (rule WakuMetadataRequest_encode_wire WakuMetadataRequest_reads WakuMetadataRequest_ends, assumption?)+

context pb_runtime
begin

lemmas WakuMetadataRequest_readsAs = wakuMetadataRequest.readsAs_nested [folded WakuMetadataRequest_decode_def]
lemmas WakuMetadataRequest_roundtrip = wakuMetadataRequest.roundtrip [folded WakuMetadataRequest_decode_def]
lemmas WakuMetadataRequest_decode_returns = wakuMetadataRequest.decode_returns [folded WakuMetadataRequest_decode_def]

end

section \<open>WakuMetadataResponse\<close>

definition WakuMetadataResponse_encode :: "'w pbRuntime \<Rightarrow> bool \<Rightarrow> metadataWire \<Rightarrow> 'w \<Rightarrow> 'w" where
  "WakuMetadataResponse_encode RT lengthDelimited obj =
     delimited RT lengthDelimited
       [writeOpt RT 8 (rt_wUint32 RT) (mw_clusterId obj),
        writeEach RT 16 (rt_wUint32 RT) (mw_shards obj)]"

definition WakuMetadataResponse_initial :: metadataWire where
  "WakuMetadataResponse_initial = \<lparr>mw_clusterId = None, mw_shards = []\<rparr>"

definition WakuMetadataResponse_field :: "'w pbRuntime \<Rightarrow> pbLimits option \<Rightarrow> metadataWire pbField" where
  "WakuMetadataResponse_field RT lim tag obj =
     (if fieldNumber tag = 1 then readValue (readUint RT) (\<lambda>v. obj\<lparr>mw_clusterId := Some v\<rparr>)
      else if fieldNumber tag = 2 then readElement lim ''shards'' (mw_shards obj) (readValue (readUint RT) (\<lambda>v. obj\<lparr>mw_shards := mw_shards obj @ [v]\<rparr>))
      else skipField RT tag obj)"

definition WakuMetadataResponse_decode ::
  "'w pbRuntime \<Rightarrow> pbLimits option \<Rightarrow> nat option \<Rightarrow> pbReader \<Rightarrow> (metadataWire \<times> pbReader) res option" where
  "WakuMetadataResponse_decode RT lim = decodeFrom RT (WakuMetadataResponse_field RT lim) WakuMetadataResponse_initial"

definition WakuMetadataResponse_fields :: "pbFormat \<Rightarrow> metadataWire \<Rightarrow> (int \<times> bytes) list" where
  "WakuMetadataResponse_fields F m = concat
     [case mw_clusterId m of None \<Rightarrow> [] | Some v \<Rightarrow> [(8, pf_uint32 F v)],
      map (\<lambda>v. (16, pf_uint32 F v)) (mw_shards m)]"

definition WakuMetadataResponse_ok :: "pbFormat \<Rightarrow> metadataWire \<Rightarrow> bool" where
  "WakuMetadataResponse_ok F m \<longleftrightarrow> holds (\<lambda>v. 0 \<le> v \<and> v < 2 ^ 32) (mw_clusterId m) \<and>
     (\<forall>v \<in> set (mw_shards m). 0 \<le> v \<and> v < 2 ^ 32)"

context pb_runtime
begin

lemma WakuMetadataResponse_tags:
  "WakuMetadataResponse_field RT None (word_of_int 8) obj r = readValue (readUint RT) (\<lambda>v. obj\<lparr>mw_clusterId := Some v\<rparr>) r"
  "WakuMetadataResponse_field RT None (word_of_int 16) obj r = readValue (readUint RT) (\<lambda>v. obj\<lparr>mw_shards := mw_shards obj @ [v]\<rparr>) r"
  unfolding WakuMetadataResponse_field_def fieldNumber_of by (simp_all add: limitOf_def readElement_def limitReached_def)

lemma WakuMetadataResponse_encode_wire:
  "writes (WakuMetadataResponse_encode RT ld m) (if ld then pf_bytes F (wire F (WakuMetadataResponse_fields F m)) else wire F (WakuMetadataResponse_fields F m))"
  unfolding WakuMetadataResponse_encode_def WakuMetadataResponse_fields_def
  by (intro writes_delimited list.rel_intros writes_field writes_opt writes_each writes_values)

lemma WakuMetadataResponse_reads:
  assumes ok: "WakuMetadataResponse_ok F m"
  shows "readsAll (WakuMetadataResponse_field RT None) (WakuMetadataResponse_fields F m) WakuMetadataResponse_initial m"
  unfolding WakuMetadataResponse_fields_def
  using ok [unfolded WakuMetadataResponse_ok_def fits_def]
  by - (rule readsAll_concat chunk_if chunk_opt chunk_each WakuMetadataResponse_tags readsAs_values |
      simp add: option.map_ident WakuMetadataResponse_initial_def)+

lemma WakuMetadataResponse_ends: "ends r (WakuMetadataResponse_field RT lim tag obj r)"
  unfolding WakuMetadataResponse_field_def
  by (simp add: ends_values ends_readElement)

end

sublocale pb_runtime \<subseteq> wakuMetadataResponse: message_codec RT F buffers "WakuMetadataResponse_encode RT" "WakuMetadataResponse_field RT"
    WakuMetadataResponse_initial "WakuMetadataResponse_fields F" "WakuMetadataResponse_ok F" "\<lambda>m. m"
  by unfold_locales (rule WakuMetadataResponse_encode_wire WakuMetadataResponse_reads WakuMetadataResponse_ends, assumption?)+

context pb_runtime
begin

lemmas WakuMetadataResponse_readsAs = wakuMetadataResponse.readsAs_nested [folded WakuMetadataResponse_decode_def]
lemmas WakuMetadataResponse_roundtrip = wakuMetadataResponse.roundtrip [folded WakuMetadataResponse_decode_def]
lemmas WakuMetadataResponse_decode_returns = wakuMetadataResponse.decode_returns [folded WakuMetadataResponse_decode_def]

end

section \<open>SdsMessage\<close>

definition SdsMessage_encode :: "'w pbRuntime \<Rightarrow> bool \<Rightarrow> sdsMessage \<Rightarrow> 'w \<Rightarrow> 'w" where
  "SdsMessage_encode RT lengthDelimited obj =
     delimited RT lengthDelimited
       [writeField RT (sds_messageId obj \<noteq> []) 18 (rt_wString RT (sds_messageId obj)),
        writeField RT (sds_channelId obj \<noteq> []) 26 (rt_wString RT (sds_channelId obj)),
        writeOpt RT 80 (rt_wInt32 RT) (sds_lamportTimestamp obj),
        writeEach RT 90 (rt_wString RT) (sds_causalHistory obj),
        writeOpt RT 98 (rt_wBytes RT) (sds_bloomFilter obj),
        writeOpt RT 162 (rt_wBytes RT) (sds_content obj)]"

definition SdsMessage_initial :: sdsMessage where
  "SdsMessage_initial = \<lparr>sds_messageId = [], sds_channelId = [], sds_lamportTimestamp = None, sds_causalHistory = [], sds_bloomFilter = None, sds_content = None\<rparr>"

definition SdsMessage_field :: "'w pbRuntime \<Rightarrow> pbLimits option \<Rightarrow> sdsMessage pbField" where
  "SdsMessage_field RT lim tag obj =
     (if fieldNumber tag = 2 then readValue (rt_string RT) (\<lambda>v. obj\<lparr>sds_messageId := v\<rparr>)
      else if fieldNumber tag = 3 then readValue (rt_string RT) (\<lambda>v. obj\<lparr>sds_channelId := v\<rparr>)
      else if fieldNumber tag = 10 then readValue (rt_int32 RT) (\<lambda>v. obj\<lparr>sds_lamportTimestamp := Some v\<rparr>)
      else if fieldNumber tag = 11 then readElement lim ''causalHistory'' (sds_causalHistory obj) (readValue (rt_string RT) (\<lambda>v. obj\<lparr>sds_causalHistory := sds_causalHistory obj @ [v]\<rparr>))
      else if fieldNumber tag = 12 then readValue (rt_bytes RT) (\<lambda>v. obj\<lparr>sds_bloomFilter := Some v\<rparr>)
      else if fieldNumber tag = 20 then readValue (rt_bytes RT) (\<lambda>v. obj\<lparr>sds_content := Some v\<rparr>)
      else skipField RT tag obj)"

definition SdsMessage_decode ::
  "'w pbRuntime \<Rightarrow> pbLimits option \<Rightarrow> nat option \<Rightarrow> pbReader \<Rightarrow> (sdsMessage \<times> pbReader) res option" where
  "SdsMessage_decode RT lim = decodeFrom RT (SdsMessage_field RT lim) SdsMessage_initial"

definition SdsMessage_fields :: "pbFormat \<Rightarrow> sdsMessage \<Rightarrow> (int \<times> bytes) list" where
  "SdsMessage_fields F m = concat
     [if sds_messageId m \<noteq> [] then [(18, pf_string F (sds_messageId m))] else [],
      if sds_channelId m \<noteq> [] then [(26, pf_string F (sds_channelId m))] else [],
      case sds_lamportTimestamp m of None \<Rightarrow> [] | Some v \<Rightarrow> [(80, pf_int32 F v)],
      map (\<lambda>v. (90, pf_string F v)) (sds_causalHistory m),
      case sds_bloomFilter m of None \<Rightarrow> [] | Some v \<Rightarrow> [(98, pf_bytes F v)],
      case sds_content m of None \<Rightarrow> [] | Some v \<Rightarrow> [(162, pf_bytes F v)]]"

definition SdsMessage_ok :: "pbFormat \<Rightarrow> sdsMessage \<Rightarrow> bool" where
  "SdsMessage_ok F m \<longleftrightarrow> fits (pf_utf8 F (sds_messageId m)) \<and>
     fits (pf_utf8 F (sds_channelId m)) \<and>
     holds (\<lambda>v. -(2 ^ 31) \<le> v \<and> v < 2 ^ 31) (sds_lamportTimestamp m) \<and>
     (\<forall>v \<in> set (sds_causalHistory m). fits (pf_utf8 F v)) \<and>
     holds (\<lambda>v. fits v) (sds_bloomFilter m) \<and>
     holds (\<lambda>v. fits v) (sds_content m)"

context pb_runtime
begin

lemma SdsMessage_tags:
  "SdsMessage_field RT None (word_of_int 18) obj r = readValue (rt_string RT) (\<lambda>v. obj\<lparr>sds_messageId := v\<rparr>) r"
  "SdsMessage_field RT None (word_of_int 26) obj r = readValue (rt_string RT) (\<lambda>v. obj\<lparr>sds_channelId := v\<rparr>) r"
  "SdsMessage_field RT None (word_of_int 80) obj r = readValue (rt_int32 RT) (\<lambda>v. obj\<lparr>sds_lamportTimestamp := Some v\<rparr>) r"
  "SdsMessage_field RT None (word_of_int 90) obj r = readValue (rt_string RT) (\<lambda>v. obj\<lparr>sds_causalHistory := sds_causalHistory obj @ [v]\<rparr>) r"
  "SdsMessage_field RT None (word_of_int 98) obj r = readValue (rt_bytes RT) (\<lambda>v. obj\<lparr>sds_bloomFilter := Some v\<rparr>) r"
  "SdsMessage_field RT None (word_of_int 162) obj r = readValue (rt_bytes RT) (\<lambda>v. obj\<lparr>sds_content := Some v\<rparr>) r"
  unfolding SdsMessage_field_def fieldNumber_of by (simp_all add: limitOf_def readElement_def limitReached_def)

lemma SdsMessage_encode_wire:
  "writes (SdsMessage_encode RT ld m) (if ld then pf_bytes F (wire F (SdsMessage_fields F m)) else wire F (SdsMessage_fields F m))"
  unfolding SdsMessage_encode_def SdsMessage_fields_def
  by (intro writes_delimited list.rel_intros writes_field writes_opt writes_each writes_values)

lemma SdsMessage_reads:
  assumes ok: "SdsMessage_ok F m"
  shows "readsAll (SdsMessage_field RT None) (SdsMessage_fields F m) SdsMessage_initial m"
  unfolding SdsMessage_fields_def
  using ok [unfolded SdsMessage_ok_def fits_def]
  by - (rule readsAll_concat chunk_if chunk_opt chunk_each SdsMessage_tags readsAs_values |
      simp add: option.map_ident SdsMessage_initial_def)+

lemma SdsMessage_ends: "ends r (SdsMessage_field RT lim tag obj r)"
  unfolding SdsMessage_field_def
  by (simp add: ends_values ends_readElement)

end

sublocale pb_runtime \<subseteq> sdsMessage: message_codec RT F buffers "SdsMessage_encode RT" "SdsMessage_field RT"
    SdsMessage_initial "SdsMessage_fields F" "SdsMessage_ok F" "\<lambda>m. m"
  by unfold_locales (rule SdsMessage_encode_wire SdsMessage_reads SdsMessage_ends, assumption?)+

context pb_runtime
begin

lemmas SdsMessage_readsAs = sdsMessage.readsAs_nested [folded SdsMessage_decode_def]
lemmas SdsMessage_roundtrip = sdsMessage.roundtrip [folded SdsMessage_decode_def]
lemmas SdsMessage_decode_returns = sdsMessage.decode_returns [folded SdsMessage_decode_def]

end

end
