(* ===== verification/Wire.thy ===== *)
theory Wire
  imports ProtoStore ProtoFilter ProtoRpc
begin

text \<open>
  The clients of the store and light push protocols over the codecs of \<open>packages/proto\<close>: the requests and answers of \<open>rpc.ts\<close> and
  \<open>push\_rpc.ts\<close> are encoded and decoded with the generated code, and the peer is a function from decoded requests to answers.
\<close>

section \<open>Store\<close>

text \<open>\<open>StoreQueryRequest.encode\<close> and \<open>StoreQueryResponse.decode\<close> of \<open>core/src/lib/store/rpc.ts\<close>\<close>

definition requestWire :: "storeQueryRequest \<Rightarrow> storeRequestWire" where
  "requestWire r =
     \<lparr>srq_requestId = sq_requestId r, srq_includeData = sq_includeData r, srq_pubsubTopic = sq_pubsubTopic r,
      srq_contentTopics = nullish (sq_contentTopics r) [], srq_timeStart = sq_timeStart r, srq_timeEnd = sq_timeEnd r,
      srq_messageHashes = sq_messageHashes r, srq_paginationCursor = sq_paginationCursor r,
      srq_paginationForward = sq_paginationForward r, srq_paginationLimit = sq_paginationLimit r\<rparr>"

definition storeRequest_encode :: "'w pbRuntime \<Rightarrow> storeQueryRequest \<Rightarrow> bytes" where
  "storeRequest_encode RT r = encodeBytes RT (StoreQueryRequest_encode RT) (requestWire r)"

definition storeResponse_decode :: "'w pbRuntime \<Rightarrow> bytes \<Rightarrow> storeQueryResponse res" where
  "storeResponse_decode RT bs =
     rbind (returned (decodeBytes RT (StoreQueryResponse_decode RT None) bs)) (\<lambda>w. Inr (storeQueryResponse.truncate w))"

text \<open>A node that holds \<open>ms\<close> and answers with pages of \<open>k\<close> messages, and the network that leads to it.\<close>

definition storeNode :: "nat \<Rightarrow> wakuMessageKeyValue list \<Rightarrow> storeRequestWire \<Rightarrow> storeResponseWire" where
  "storeNode k ms r =
     \<lparr>sr_statusCode = Some 200, sr_statusDesc = None,
      sr_messages = storePage (srq_paginationForward r) k (srq_paginationCursor r) ms,
      sr_requestId = srq_requestId r, sr_paginationCursor = None\<rparr>"

definition storeNetOver :: "'w pbRuntime \<Rightarrow> (storeRequestWire \<Rightarrow> storeResponseWire) \<Rightarrow> string \<Rightarrow> 'p storeNet" where
  "storeNetOver RT node uuid =
     \<lparr>sn_getStream = (\<lambda>_. Inr ()),
      sn_exchange = (\<lambda>_ bs. rbind (returned (decodeBytes RT (StoreQueryRequest_decode RT None) bs))
                              (\<lambda>r. Inr [encodeBytes RT (StoreQueryResponse_encode RT) (node r)])),
      sn_encode = storeRequest_encode RT, sn_decode = storeResponse_decode RT, sn_uuid = uuid\<rparr>"

text \<open>A message that a node holds: as decoded, and small enough to be an element of an answer.\<close>

definition storable :: "pbFormat \<Rightarrow> wakuMessageKeyValue \<Rightarrow> bool" where
  "storable F m \<longleftrightarrow> WakuMessageKeyValue_ok F m \<and> fits (wire F (WakuMessageKeyValue_fields F m)) \<and> WakuMessageKeyValue_settled m = m"

lemma set_storePage: "set (storePage fwd k c ms) \<subseteq> set ms"
proof -
  have tl: "set (tl xs) \<subseteq> set xs" for xs :: "wakuMessageKeyValue list" by (cases xs) auto
  have "set (afterCursor c ms) \<subseteq> set ms"
    by (cases c) (auto simp: afterCursor_def dest!: subsetD [OF tl] set_dropWhileD)
  moreover have "set (beforeCursor c ms) \<subseteq> set ms"
    by (cases c) (auto simp: beforeCursor_def dest: set_takeWhileD)
  ultimately show ?thesis by (auto simp: storePage_def dest: in_set_takeD in_set_dropD)
qed

lemma create_cursor:
  "storeQuery_create uuid (opts\<lparr>qp_paginationCursor := c\<rparr>) = rbind (storeQuery_create uuid opts) (\<lambda>r. Inr (r\<lparr>sq_paginationCursor := c\<rparr>))"
  by (auto simp: storeQuery_create_def rbind_def Let_def split: sum.splits)

lemma storeNode_answers:
  assumes laws: "pbLaws RT F buffers" and ms: "list_all (storable F) ms"
    and request: "storeQuery_create uuid opts = Inr request" "StoreQueryRequest_ok F (requestWire request)"
  shows "storeAnswers (storeNetOver RT (storeNode k ms) uuid) opts p k ms"
  unfolding storeAnswers_def
proof (intro allI impI)
  fix c assume c: "c = None \<or> c \<in> kv_messageHash ` set ms"
  let ?r = "request\<lparr>sq_paginationCursor := c\<rparr>"
  let ?a = "storeNode k ms (requestWire ?r)"
  have "holds fits c" using c ms by (auto simp: list_all_iff storable_def WakuMessageKeyValue_ok_def)
  then have "StoreQueryRequest_ok F (requestWire ?r)"
    using request(2) by (simp add: StoreQueryRequest_ok_def requestWire_def)
  then have asked: "decodeBytes RT (StoreQueryRequest_decode RT None) (storeRequest_encode RT ?r) = Some (Inr (requestWire ?r))"
    unfolding storeRequest_encode_def by (rule pb_runtime.StoreQueryRequest_roundtrip [OF laws [unfolded pbLaws_def]])
  have page: "storable F m" if "m \<in> set (sr_messages ?a)" for m
    using that set_storePage ms by (fastforce simp: storeNode_def list_all_iff)
  then have "StoreQueryResponse_ok F ?a"
    using request(2) by (simp add: StoreQueryResponse_ok_def StoreQueryRequest_ok_def storeNode_def storable_def requestWire_def)
  then have "decodeBytes RT (StoreQueryResponse_decode RT None) (encodeBytes RT (StoreQueryResponse_encode RT) ?a) =
      Some (Inr (StoreQueryResponse_settled ?a))"
    by (rule pb_runtime.StoreQueryResponse_roundtrip [OF laws [unfolded pbLaws_def]])
  also have "StoreQueryResponse_settled ?a = ?a"
    using page by (simp add: StoreQueryResponse_settled_def storable_def map_idI)
  finally have answered: "storeResponse_decode RT (encodeBytes RT (StoreQueryResponse_encode RT) ?a) =
      Inr (storeQueryResponse.truncate ?a)"
    by (simp add: storeResponse_decode_def)
  have "qp_paginationForward opts = sq_paginationForward request"
    using request(1) by (auto simp: storeQuery_create_def rbind_eq_Inr Let_def split: if_splits)
  then show "\<exists>request chunks response.
      storeQuery_create (sn_uuid (storeNetOver RT (storeNode k ms) uuid)) (opts\<lparr>qp_paginationCursor := c\<rparr>) = Inr request \<and>
      sn_getStream (storeNetOver RT (storeNode k ms) uuid) p = Inr () \<and>
      sn_exchange (storeNetOver RT (storeNode k ms) uuid) p (sn_encode (storeNetOver RT (storeNode k ms) uuid) request) = Inr chunks \<and>
      sn_decode (storeNetOver RT (storeNode k ms) uuid) (concat chunks) = Inr response \<and> sr_statusCode response = Some 200 \<and>
      sr_messages response = storePage (qp_paginationForward opts) k c ms"
    using asked answered by (simp add: storeNetOver_def create_cursor request(1) storeNode_def requestWire_def storeQueryResponse.defs)
qed

section \<open>Light push\<close>

text \<open>\<open>PushRpc.encode\<close> and \<open>PushRpc.decode\<close> of \<open>core/src/lib/light_push/push_rpc.ts\<close>\<close>

definition pushWire :: "pushRpc \<Rightarrow> pushRpcWire" where
  "pushWire rpc =
     \<lparr>pw_requestId = rpc_requestId rpc,
      pw_request = map_option (\<lambda>(m, topic). \<lparr>prw_pubsubTopic = topic, prw_message = Some (wireOf m)\<rparr>) (rpc_request rpc),
      pw_response = rpc_response rpc\<rparr>"

definition pushOfWire :: "pushRpcWire \<Rightarrow> pushRpc" where
  "pushOfWire w =
     \<lparr>rpc_requestId = pw_requestId w,
      rpc_request = (case pw_request w of
                       None \<Rightarrow> None
                     | Some q \<Rightarrow> map_option (\<lambda>m. (protoOf m, prw_pubsubTopic q)) (prw_message q)),
      rpc_response = pw_response w\<rparr>"

definition pushRpc_encode :: "'w pbRuntime \<Rightarrow> pushRpc \<Rightarrow> bytes" where
  "pushRpc_encode RT rpc = encodeBytes RT (PushRpc_encode RT) (pushWire rpc)"

definition pushRpc_decode :: "'w pbRuntime \<Rightarrow> bytes \<Rightarrow> pushRpc res" where
  "pushRpc_decode RT bs = rbind (returned (decodeBytes RT (PushRpc_decode RT None) bs)) (\<lambda>w. Inr (pushOfWire w))"

text \<open>A node that answers a request for a message on a topic.\<close>

definition pushNode :: "(string \<Rightarrow> protoMessage \<Rightarrow> pushResponse) \<Rightarrow> pushRpc \<Rightarrow> pushRpc" where
  "pushNode respond rpc =
     rpc\<lparr>rpc_request := None, rpc_response := map_option (\<lambda>(m, topic). respond topic m) (rpc_request rpc)\<rparr>"

definition pushNetOver :: "'w pbRuntime \<Rightarrow> (string \<Rightarrow> protoMessage \<Rightarrow> pushResponse) \<Rightarrow> string \<Rightarrow> 'p pushNet" where
  "pushNetOver RT respond uuid =
     \<lparr>pn_getStream = (\<lambda>_. Inr ()),
      pn_exchange = (\<lambda>_ bs. rbind (pushRpc_decode RT bs) (\<lambda>rpc. Inr [pushRpc_encode RT (pushNode respond rpc)])),
      pn_encode = pushRpc_encode RT, pn_decode = pushRpc_decode RT, pn_uuid = uuid\<rparr>"

lemma pushRpc_roundtrip:
  "pbLaws RT F buffers \<Longrightarrow> PushRpc_ok F (pushWire rpc) \<Longrightarrow> pushRpc_decode RT (pushRpc_encode RT rpc) = Inr rpc"
proof -
  assume "pbLaws RT F buffers" "PushRpc_ok F (pushWire rpc)"
  then have "decodeBytes RT (PushRpc_decode RT None) (encodeBytes RT (PushRpc_encode RT) (pushWire rpc)) = Some (Inr (PushRpc_settled (pushWire rpc)))"
    using pb_runtime.PushRpc_roundtrip by (simp add: pbLaws_def)
  moreover have "pushOfWire (PushRpc_settled (pushWire rpc)) = rpc"
    by (cases rpc) (auto simp: pushOfWire_def PushRpc_settled_def PushRequest_settled_def pushWire_def split: option.splits)
  ultimately show ?thesis by (simp add: pushRpc_encode_def pushRpc_decode_def)
qed

section \<open>Properties\<close>

text \<open>C7: A query delivers the store over the real wire format: the requests are encoded by the generated codec, a node that holds \<open>ms\<close>
  decodes them, answers with pages of \<open>k\<close> messages (1 to 100) and encodes these, and the generator ends with all messages of the store,
  in order, each once, decoded. The request and each message are in the range of the format.\<close>

theorem store_query_over_the_wire:
  assumes "pbLaws RT F buffers" and "list_all (storable F) ms"
    and "storeQuery_create uuid opts = Inr request" and "StoreQueryRequest_ok F (requestWire request)"
    and "0 < k" and "k \<le> 100" and "distinctHashes ms" and "qp_contentTopics opts = Some (jm_keys decs)"
    and "qp_paginationCursor opts = None" and "length ms + k \<le> k * n"
  shows "\<exists>pages. queryPerPage n (storeNetOver RT (storeNode k ms) uuid) opts decs p = (pages, Finished) \<and>
    concat (if qp_paginationForward opts then pages else rev pages) = map (decodeStored decs) ms"
  by (rule pagination_complete [OF storeNode_answers [OF assms(1-4)] assms(5-10)])

text \<open>C13: A light push over the real wire format: the node is asked with exactly the message that the encoder made and its topic, and the
  result is what its answer says, an RLN refusal, a rejection or a success. The message passes the checks of the client, and request
  and answer are in the range of the format.\<close>

theorem light_push_over_the_wire:
  assumes laws: "pbLaws RT F buffers" and payload: "msg_payload message \<noteq> []"
    and enc: "ie_toWire encoder message = Inr (Some bs)" "length bs \<le> 1048576" "ie_toProtoObj encoder message = Inr (Some m)"
    and ok: "PushRpc_ok F (pushWire (pushRpc_createRequest uuid m (ie_pubsubTopic encoder)))"
      "PushRpc_ok F (pushWire (pushNode respond (pushRpc_createRequest uuid m (ie_pubsubTopic encoder))))"
  shows "lightPush_send (pushNetOver RT respond uuid) encoder message p =
    (let response = respond (ie_pubsubTopic encoder) m
     in if isRLNResponseError (pr_info response) then failWith (matchRLNErrorMessage (the (pr_info response))) p
        else if pr_isSuccess response then CSuccess p else failWith REMOTE_PEER_REJECTED p)"
proof -
  have "preparePushMessage uuid encoder message = Inr (pushRpc_createRequest uuid m (ie_pubsubTopic encoder))"
    using payload enc
    by (simp add: preparePushMessage_def isMessageSizeUnderCap_def isWireSizeUnderCap_def SIZE_CAP_IN_MB_def MB_def)
  then show ?thesis using pushRpc_roundtrip [OF laws ok(1)] pushRpc_roundtrip [OF laws ok(2)]
    by (simp add: lightPush_send_def pushNetOver_def Let_def) (simp add: pushNode_def pushRpc_createRequest_def)
qed

section \<open>All messages\<close>

context pb_runtime
begin

text \<open>A metadata request and a metadata response have the same fields, and the service reads every request as a response.\<close>

lemma metadata_request_as_response:
  "WakuMetadataRequest_ok F m \<Longrightarrow>
   decodeBytes RT (WakuMetadataResponse_decode RT None) (encodeBytes RT (WakuMetadataRequest_encode RT) m) = Some (Inr m)"
  using WakuMetadataResponse_roundtrip [of m]
  by (simp add: WakuMetadataResponse_ok_def WakuMetadataRequest_ok_def wakuMetadataRequest.encodeBytes_wire
      wakuMetadataResponse.encodeBytes_wire WakuMetadataResponse_fields_def WakuMetadataRequest_fields_def)

text \<open>The wire type of a tag is not looked at: a packed list of shards is read as one shard, its length in bytes.\<close>

lemma packed_shards_misread:
  "comes (pf_bytes F b) r \<Longrightarrow> length b < 2 ^ 32 \<Longrightarrow>
   WakuMetadataResponse_field RT None (word_of_int 18) obj r =
     Some (Inr (obj\<lparr>mw_shards := mw_shards obj @ [int (length b)]\<rparr>, advance (length (pf_uint32 F (int (length b)))) r))"
proof -
  assume b: "comes (pf_bytes F b) r" "length b < 2 ^ 32"
  then have "int (length b) < int (2 ^ 32)" by (simp only: of_nat_less_iff)
  then have "readUint RT r = Inr (int (length b), advance (length (pf_uint32 F (int (length b)))) r)"
    using b(1) by (intro readUint) (simp_all add: pf_bytes_def comes_append)
  moreover have "WakuMetadataResponse_field RT None (word_of_int 18) obj r =
      readValue (readUint RT) (\<lambda>v. obj\<lparr>mw_shards := mw_shards obj @ [v]\<rparr>) r"
    unfolding WakuMetadataResponse_field_def fieldNumber_of by (simp add: limitOf_def readElement_def limitReached_def)
  ultimately show ?thesis by (simp add: readValue_def)
qed

end

text \<open>C21: Every message of the protocols survives its encoding: what the generated decoder returns is what the generated encoder was given,
  but for properties that are \<open>undefined\<close>; and a metadata request is read as a response with the same content. The values are in the
  range of their types.\<close>

theorem wire_roundtrip:
  assumes "pbLaws RT F buffers"
  shows "(PushRpc_ok F a \<longrightarrow> decodeBytes RT (PushRpc_decode RT None) (encodeBytes RT (PushRpc_encode RT) a) = Some (Inr (PushRpc_settled a))) \<and>
    (StoreQueryRequest_ok F b \<longrightarrow>
       decodeBytes RT (StoreQueryRequest_decode RT None) (encodeBytes RT (StoreQueryRequest_encode RT) b) = Some (Inr b)) \<and>
    (StoreQueryResponse_ok F c \<longrightarrow>
       decodeBytes RT (StoreQueryResponse_decode RT None) (encodeBytes RT (StoreQueryResponse_encode RT) c) =
         Some (Inr (StoreQueryResponse_settled c))) \<and>
    (FilterSubscribeRequest_ok F d \<longrightarrow>
       decodeBytes RT (FilterSubscribeRequest_decode RT None) (encodeBytes RT (FilterSubscribeRequest_encode RT) d) = Some (Inr d)) \<and>
    (FilterSubscribeResponse_ok F e \<longrightarrow>
       decodeBytes RT (FilterSubscribeResponse_decode RT None) (encodeBytes RT (FilterSubscribeResponse_encode RT) e) = Some (Inr e)) \<and>
    (MessagePush_ok F g \<longrightarrow>
       decodeBytes RT (MessagePush_decode RT None) (encodeBytes RT (MessagePush_encode RT) g) = Some (Inr (MessagePush_settled g))) \<and>
    (PeerExchangeRPC_ok F h \<longrightarrow>
       decodeBytes RT (PeerExchangeRPC_decode RT None) (encodeBytes RT (PeerExchangeRPC_encode RT) h) = Some (Inr h)) \<and>
    (WakuMetadataRequest_ok F i \<longrightarrow>
       decodeBytes RT (WakuMetadataResponse_decode RT None) (encodeBytes RT (WakuMetadataRequest_encode RT) i) = Some (Inr i)) \<and>
    (FilterRpc_ok F j \<longrightarrow>
       decodeBytes RT (FilterRpc_decode RT None) (encodeBytes RT (FilterRpc_encode RT) j) = Some (Inr (FilterRpc_settled j))) \<and>
    (SdsMessage_ok F k \<longrightarrow> decodeBytes RT (SdsMessage_decode RT None) (encodeBytes RT (SdsMessage_encode RT) k) = Some (Inr k))"
proof -
  note L = assms [unfolded pbLaws_def]
  show ?thesis
    by (intro conjI impI pb_runtime.PushRpc_roundtrip [OF L] pb_runtime.StoreQueryRequest_roundtrip [OF L]
        pb_runtime.StoreQueryResponse_roundtrip [OF L] pb_runtime.FilterSubscribeRequest_roundtrip [OF L]
        pb_runtime.FilterSubscribeResponse_roundtrip [OF L] pb_runtime.MessagePush_roundtrip [OF L]
        pb_runtime.PeerExchangeRPC_roundtrip [OF L] pb_runtime.metadata_request_as_response [OF L]
        pb_runtime.FilterRpc_roundtrip [OF L] pb_runtime.SdsMessage_roundtrip [OF L])
qed

text \<open>C33: Every generated decoder returns on every input, whatever the limits: the loop over the fields ends, because each field that is
  read moves the reader on, with a message or with an exception.\<close>

theorem decoders_return:
  assumes "pbLaws RT F buffers"
  shows "decodeBytes RT (WakuMessage_decode RT lim) bs \<noteq> None \<and> decodeBytes RT (TopicOnlyMessage_decode RT lim) bs \<noteq> None \<and>
    decodeBytes RT (PushRpc_decode RT lim) bs \<noteq> None \<and> decodeBytes RT (StoreQueryRequest_decode RT lim) bs \<noteq> None \<and>
    decodeBytes RT (StoreQueryResponse_decode RT lim) bs \<noteq> None \<and> decodeBytes RT (FilterSubscribeRequest_decode RT lim) bs \<noteq> None \<and>
    decodeBytes RT (FilterSubscribeResponse_decode RT lim) bs \<noteq> None \<and> decodeBytes RT (MessagePush_decode RT lim) bs \<noteq> None \<and>
    decodeBytes RT (PeerExchangeRPC_decode RT lim) bs \<noteq> None \<and> decodeBytes RT (WakuMetadataRequest_decode RT lim) bs \<noteq> None \<and>
    decodeBytes RT (WakuMetadataResponse_decode RT lim) bs \<noteq> None \<and> decodeBytes RT (FilterRpc_decode RT lim) bs \<noteq> None \<and>
    decodeBytes RT (SdsMessage_decode RT lim) bs \<noteq> None"
proof -
  note L = assms [unfolded pbLaws_def]
  show ?thesis
    by (intro conjI pb_runtime.WakuMessage_decode_returns [OF L] pb_runtime.TopicOnlyMessage_decode_returns [OF L]
        pb_runtime.PushRpc_decode_returns [OF L] pb_runtime.StoreQueryRequest_decode_returns [OF L]
        pb_runtime.StoreQueryResponse_decode_returns [OF L] pb_runtime.FilterSubscribeRequest_decode_returns [OF L]
        pb_runtime.FilterSubscribeResponse_decode_returns [OF L] pb_runtime.MessagePush_decode_returns [OF L]
        pb_runtime.PeerExchangeRPC_decode_returns [OF L] pb_runtime.WakuMetadataRequest_decode_returns [OF L]
        pb_runtime.WakuMetadataResponse_decode_returns [OF L] pb_runtime.FilterRpc_decode_returns [OF L]
        pb_runtime.SdsMessage_decode_returns [OF L])
qed

section \<open>Witnesses\<close>

theorem decoders_return_witness: "decodeBytes demoRuntime (StoreQueryResponse_decode demoRuntime None) [255, 1] \<noteq> None"
  using decoders_return [OF demoPb_laws, of None "[255, 1]"] by blast

definition demoQuery :: filterRequest where
  "demoQuery = createSubscribeRequest ''u'' ''t'' [''a'', ''b'']"

theorem wire_roundtrip_witness:
  "decodeBytes demoRuntime (FilterSubscribeRequest_decode demoRuntime None)
     (encodeBytes demoRuntime (FilterSubscribeRequest_encode demoRuntime) demoQuery) = Some (Inr demoQuery)"
proof -
  have "FilterSubscribeRequest_ok demoFormat demoQuery"
    by (simp add: FilterSubscribeRequest_ok_def demoQuery_def createSubscribeRequest_def demoFormat_def fits_def)
  then show ?thesis using wire_roundtrip [OF demoPb_laws, of undefined undefined undefined demoQuery] by blast
qed

lemma demoStored_storable: "storable demoFormat (demoStored i)"
proof -
  have "length (leb n) = 1" if "n < 128" for n using that by (simp add: leb.simps)
  then show ?thesis
    by (simp add: storable_def WakuMessageKeyValue_ok_def WakuMessageKeyValue_fields_def demoStored_def WakuMessage_ok_def
        WakuMessage_fields_def fits_def wire_def fieldBytes_def WakuMessageKeyValue_settled_def WakuMessage_settled_def settled_def
        pf_bytes_def pf_string_def demoFormat_def)
qed

theorem store_query_over_the_wire_witness:
  "\<exists>pages. queryPerPage 3 (storeNetOver demoRuntime (storeNode 2 (map demoStored [0, 1, 2])) ''u'') demoStoreOpts
       ([] :: string decoders) ''p'' = (pages, Finished) \<and>
     concat pages = map (decodeStored []) (map demoStored [0, 1, 2])"
proof -
  obtain request where r: "storeQuery_create ''u'' demoStoreOpts = Inr request" "StoreQueryRequest_ok demoFormat (requestWire request)"
    by (simp add: storeQuery_create_def demoStoreOpts_def storeTime_def truthyStr_def truthyNum_def StoreQueryRequest_ok_def requestWire_def
        demoFormat_def fits_def)
  have "distinctHashes (map demoStored [0, 1, 2])" by (auto simp: distinctHashes_def demoStored_def)
  with store_query_over_the_wire [OF demoPb_laws _ r, of "map demoStored [0, 1, 2]" 2 "[] :: string decoders" 3 "''p''"]
  show ?thesis by (simp add: demoStored_storable) (simp add: demoStoreOpts_def)
qed

definition demoIEncoder :: iencoder where
  "demoIEncoder = \<lparr>ie_pubsubTopic = ''t'', ie_contentTopic = ''c'', ie_toWire = (\<lambda>m. Inr (Some (msg_payload m))),
     ie_toProtoObj = (\<lambda>m. Inr (Some (EmptyMessage\<lparr>pm_payload := msg_payload m\<rparr>)))\<rparr>"

definition demoRespond :: "string \<Rightarrow> protoMessage \<Rightarrow> pushResponse" where
  "demoRespond topic m = \<lparr>pr_isSuccess = (topic = ''t'' \<and> pm_payload m = [4, 5]), pr_info = None\<rparr>"

theorem light_push_over_the_wire_witness:
  "lightPush_send (pushNetOver demoRuntime demoRespond ''u'') demoIEncoder demoMessage ''p'' = CSuccess ''p''"
proof -
  let ?m = "EmptyMessage\<lparr>pm_payload := [4, 5]\<rparr>"
  have "PushRpc_ok demoFormat (pushWire (pushRpc_createRequest ''u'' ?m ''t''))"
    "PushRpc_ok demoFormat (pushWire (pushNode demoRespond (pushRpc_createRequest ''u'' ?m ''t'')))"
    by (simp_all add: PushRpc_ok_def PushRequest_ok_def PushResponse_ok_def pushWire_def pushNode_def pushRpc_createRequest_def wireOf_def
        WakuMessage_ok_def fits_def EmptyMessage_def propOf_def demoRespond_def wire_def fieldBytes_def PushRequest_fields_def
        PushResponse_fields_def WakuMessage_fields_def pf_bytes_def pf_string_def demoFormat_def leb.simps)
  then show ?thesis
    using light_push_over_the_wire [OF demoPb_laws, of demoMessage demoIEncoder "[4, 5]" ?m "''u''" demoRespond "''p''"]
    by (simp add: demoIEncoder_def demoMessage_def) (simp add: demoRespond_def EmptyMessage_def isRLNResponseError_def)
qed

end
