(* ===== verification/FilterWire.thy ===== *)
theory FilterWire
  imports SdkFilter ProtoFilter
begin

text \<open>
  The filter client over the codecs of \<open>packages/proto\<close>: a node answers the requests it decodes and pushes encoded messages, and the
  subscriptions of the SDK decode them with the decoders of version 0 and recognise them by the message hash.
\<close>

section \<open>The network\<close>

text \<open>The codecs of the classes \<open>FilterSubscribeRpc\<close>, \<open>FilterSubscribeResponse\<close> and \<open>FilterPushRpc\<close> of \<open>filter\_rpc.ts\<close>\<close>

definition filterRequest_encode :: "'w pbRuntime \<Rightarrow> filterRequest \<Rightarrow> bytes" where
  "filterRequest_encode RT r = encodeBytes RT (FilterSubscribeRequest_encode RT) r"

definition filterRequest_decode :: "'w pbRuntime \<Rightarrow> bytes \<Rightarrow> filterRequest res" where
  "filterRequest_decode RT bs = returned (decodeBytes RT (FilterSubscribeRequest_decode RT None) bs)"

definition filterResponse_encode :: "'w pbRuntime \<Rightarrow> filterResponse \<Rightarrow> bytes" where
  "filterResponse_encode RT r = encodeBytes RT (FilterSubscribeResponse_encode RT) r"

definition filterResponse_decode :: "'w pbRuntime \<Rightarrow> bytes \<Rightarrow> filterResponse res" where
  "filterResponse_decode RT bs = returned (decodeBytes RT (FilterSubscribeResponse_decode RT None) bs)"

definition filterPush_decode :: "'w pbRuntime \<Rightarrow> bytes \<Rightarrow> messagePush res" where
  "filterPush_decode RT bs = returned (decodeBytes RT (MessagePush_decode RT None) bs)"

definition filterNetOver :: "'w pbRuntime \<Rightarrow> (filterRequest \<Rightarrow> filterResponse) \<Rightarrow> string \<Rightarrow> 'p filterNet" where
  "filterNetOver RT node uuid =
     \<lparr>fn_getStream = (\<lambda>_. Inr ()),
      fn_exchange = (\<lambda>_ bs. rbind (filterRequest_decode RT bs) (\<lambda>r. Inr [filterResponse_encode RT (node r)])),
      fn_send = (\<lambda>_ bs. rbind (filterRequest_decode RT bs) (\<lambda>_. Inr ())),
      fn_encode = filterRequest_encode RT, fn_decodeResponse = filterResponse_decode RT, fn_decodePush = filterPush_decode RT,
      fn_uuid = uuid\<rparr>"

text \<open>What a node pushes for a message on a topic.\<close>

definition pushBytes :: "'w pbRuntime \<Rightarrow> string \<Rightarrow> protoMessage \<Rightarrow> bytes" where
  "pushBytes RT topic p = encodeBytes RT (MessagePush_encode RT) \<lparr>mp_wakuMessage = Some (wireOf p), mp_pubsubTopic = Some topic\<rparr>"

definition pushable :: "pbFormat \<Rightarrow> string \<Rightarrow> protoMessage \<Rightarrow> bool" where
  "pushable F topic p \<longleftrightarrow> MessagePush_ok F \<lparr>mp_wakuMessage = Some (wireOf p), mp_pubsubTopic = Some topic\<rparr>"

text \<open>A subscription reads a pushed message with the decoder of version 0, and its hash is that of the message on the wire.\<close>

definition v0SubDecoder :: "decoder \<Rightarrow> decodedMessage subDecoder" where
  "v0SubDecoder d =
     \<lparr>fd_pubsubTopic = dec_pubsubTopic d, fd_contentTopic = dec_contentTopic d,
      fd_fromProtoObj = (\<lambda>topic w. Inr (fromProtoObj topic (protoOf w)))\<rparr>"

definition wireHash :: "(string \<Rightarrow> bytes) \<Rightarrow> (bytes \<Rightarrow> bytes) \<Rightarrow> (bytes \<Rightarrow> string) \<Rightarrow> string \<Rightarrow> wireMessage \<Rightarrow> string res" where
  "wireHash utf8 sha256 hex topic w = messageHashStr hex (messageHashProto utf8 sha256 topic (protoOf w))"

text \<open>The hash as a function; it does not throw.\<close>

definition hashOn :: "(string \<Rightarrow> bytes) \<Rightarrow> (bytes \<Rightarrow> bytes) \<Rightarrow> (bytes \<Rightarrow> string) \<Rightarrow> string \<Rightarrow> protoMessage \<Rightarrow> string" where
  "hashOn utf8 sha256 hex topic p = projr (messageHashStr hex (messageHashProto utf8 sha256 topic p))"

lemma wireHash_total: "protoOf w = p \<Longrightarrow> wireHash utf8 sha256 hex topic w = Inr (hashOn utf8 sha256 hex topic p)"
proof -
  assume "protoOf w = p"
  have "\<exists>b. tryConvertTimestampToBytes (map_option Big t) = Inr b" for t by (cases t) simp_all
  then obtain b where "tryConvertTimestampToBytes (map_option Big (pm_timestamp p)) = Inr b" by blast
  then show ?thesis using \<open>protoOf w = p\<close>
    by (simp add: wireHash_def hashOn_def messageHashStr_def messageHashProto_def messageHash_eq)
qed

section \<open>Requests\<close>

text \<open>A subscription request reaches the node as it was made, and its answer decides the outcome.\<close>

lemma filter_subscribe_over_the_wire:
  assumes laws: "pbLaws RT F buffers" and request: "FilterSubscribeRequest_ok F (createSubscribeRequest uuid topic cts)"
    and answer: "FilterSubscribeResponse_ok F (node (createSubscribeRequest uuid topic cts))"
  shows "filter_subscribe (filterNetOver RT node uuid) topic p cts =
    Inr (let status = fs_statusCode (node (createSubscribeRequest uuid topic cts))
         in if status < 200 \<or> status \<ge> 300 then failWith REMOTE_PEER_REJECTED p else CSuccess p)"
  using pb_runtime.FilterSubscribeRequest_roundtrip [OF laws [unfolded pbLaws_def] request]
    pb_runtime.FilterSubscribeResponse_roundtrip [OF laws [unfolded pbLaws_def] answer]
  by (simp add: filter_subscribe_def filterNetOver_def filterRequest_encode_def filterRequest_decode_def filterResponse_encode_def
      filterResponse_decode_def statusResult_def Let_def)

section \<open>Pushed messages\<close>

text \<open>The messages that were not there before, by their hash, each once.\<close>

fun unseen :: "('a \<Rightarrow> 'h) \<Rightarrow> 'h list \<Rightarrow> 'a list \<Rightarrow> 'a list" where
  "unseen h seen [] = []"
| "unseen h seen (x # xs) = (if h x \<in> set seen then unseen h seen xs else x # unseen h (h x # seen) xs)"

lemma unseen_cong: "set seen = set seen' \<Longrightarrow> unseen h seen xs = unseen h seen' xs"
proof (induction xs arbitrary: seen seen')
  case (Cons x xs)
  show ?case using Cons.prems Cons.IH [of seen seen'] Cons.IH [of "h x # seen" "h x # seen'"] by simp
qed simp

text \<open>All decoders of the subscription are those of version 0.\<close>

definition v0Callbacks :: "decodedMessage subscription \<Rightarrow> bool" where
  "v0Callbacks S \<longleftrightarrow>
     (\<forall>(ct, ds, cb) \<in> set (su_callbacks S). ds \<noteq> [] \<and> (\<forall>d \<in> set ds. fd_fromProtoObj d = (\<lambda>topic w. Inr (fromProtoObj topic (protoOf w)))))"

text \<open>What the callback of its content topic gets of a message.\<close>

definition handed :: "(protoMessage \<Rightarrow> string) \<Rightarrow> decodedMessage subscription \<Rightarrow> protoMessage \<Rightarrow> (string \<times> nat \<times> decodedMessage) option" where
  "handed h S p =
     (case (jm_get (su_callbacks S) (pm_contentTopic p), fromProtoObj (su_pubsubTopic S) p) of
        (Some (_, cb), Some m) \<Rightarrow> if pm_contentTopic p = [] then None else Some (h p, cb, m)
      | _ \<Rightarrow> None)"

lemma push_decoded:
  assumes "pbLaws RT F buffers" "pushable F topic p"
  shows "filterPush_decode RT (pushBytes RT topic p) =
    Inr \<lparr>mp_wakuMessage = Some (WakuMessage_settled (wireOf p)), mp_pubsubTopic = Some topic\<rparr>"
  using pb_runtime.MessagePush_roundtrip [OF assms(1) [unfolded pbLaws_def] assms(2) [unfolded pushable_def]]
  by (simp add: filterPush_decode_def pushBytes_def MessagePush_settled_def)

lemma pushMessage_handed:
  assumes v0: "v0Callbacks S" and first: "\<And>xs. set (first xs) = set xs" and w: "protoOf w = p"
    and cb: "jm_get (su_callbacks S) (pm_contentTopic p) = Some (ds, cb)"
  shows "pushMessage first (h p) (ds, cb) w S =
    S\<lparr>su_log := su_log S @ (case handed h S p of None \<Rightarrow> [] | Some x \<Rightarrow> [x])\<rparr>"
proof -
  have ds: "ds \<noteq> []" "\<forall>d \<in> set ds. fd_fromProtoObj d = (\<lambda>topic w. Inr (fromProtoObj topic (protoOf w)))"
    using v0 cb map_of_SomeD [of "su_callbacks S"] by (fastforce simp: v0Callbacks_def jm_get_def)+
  let ?read = "\<lambda>d. case fd_fromProtoObj d (su_pubsubTopic S) w of Inr (Some m) \<Rightarrow> Some m | _ \<Rightarrow> None"
  have ct: "wire_contentTopic w = pm_contentTopic p" using w by (auto simp: protoOf_def)
  show ?thesis
  proof (cases "fromProtoObj (su_pubsubTopic S) p")
    case None
    then have none: "List.map_filter ?read ds = []" using ds(2) w by (auto simp: map_filter_def filter_empty_conv)
    have "first [] = []" using first [of "[]"] by simp
    with none have "first (List.map_filter ?read ds) = []" by simp
    then show ?thesis using None cb by (simp add: pushMessage_def handed_def)
  next
    case (Some m)
    have "set (List.map_filter ?read ds) = {m}" using ds Some w by (cases ds) (auto simp: map_filter_def)
    then have "set (first (List.map_filter ?read ds)) = {m}" by (simp only: first)
    then obtain ms where "first (List.map_filter ?read ds) = m # ms"
      by (cases "first (List.map_filter ?read ds)") auto
    then show ?thesis using Some cb ct by (simp add: pushMessage_def handed_def)
  qed
qed

lemma processIncomingMessage_handed:
  assumes v0: "v0Callbacks S" and first: "\<And>xs. set (first xs) = set xs" and w: "protoOf w = p"
    and hash: "hashOf (su_pubsubTopic S) w = Inr (h p)"
  obtains S' where "processIncomingMessage hashOf first w peer S = Inr S'" "su_callbacks S' = su_callbacks S"
    "su_pubsubTopic S' = su_pubsubTopic S" "set (su_received S') = insert (h p) (set (su_received S))"
    "su_log S' = su_log S @ (if h p \<in> set (su_received S) then [] else case handed h S p of None \<Rightarrow> [] | Some x \<Rightarrow> [x])"
proof -
  obtain S1 dup where n: "notifyMessageReceived peer (h p) S = (S1, dup)" by force
  then have S1: "su_callbacks S1 = su_callbacks S" "su_pubsubTopic S1 = su_pubsubTopic S" "su_log S1 = su_log S"
      "set (su_received S1) = insert (h p) (set (su_received S))" "dup \<longleftrightarrow> h p \<in> set (su_received S)"
    by (auto simp: notifyMessageReceived_def Let_def split: if_splits)
  then have v1: "v0Callbacks S1" and h1: "handed h S1 p = handed h S p" using v0 by (simp_all add: v0Callbacks_def handed_def)
  have ct: "wire_contentTopic w = pm_contentTopic p" using w by (auto simp: protoOf_def)
  show ?thesis
  proof (cases "dup \<or> jm_get (su_callbacks S1) (pm_contentTopic p) = None")
    case True
    then have "processIncomingMessage hashOf first w peer S = Inr S1"
      by (cases dup) (simp_all add: processIncomingMessage_def hash n ct)
    then show ?thesis using S1 True by (intro that [of S1]) (auto simp: handed_def)
  next
    case False
    then obtain ds cb where cb: "jm_get (su_callbacks S1) (pm_contentTopic p) = Some (ds, cb)" by auto
    have "processIncomingMessage hashOf first w peer S = Inr (pushMessage first (h p) (ds, cb) w S1)"
      using False cb by (simp add: processIncomingMessage_def hash n ct)
    also have "pushMessage first (h p) (ds, cb) w S1 = S1\<lparr>su_log := su_log S1 @ (case handed h S1 p of None \<Rightarrow> [] | Some x \<Rightarrow> [x])\<rparr>"
      using v1 first w cb by (rule pushMessage_handed)
    finally have r: "processIncomingMessage hashOf first w peer S =
        Inr (S1\<lparr>su_log := su_log S1 @ (case handed h S1 p of None \<Rightarrow> [] | Some x \<Rightarrow> [x])\<rparr>)" .
    show ?thesis by (rule that [OF r]) (use S1 False h1 in auto)
  qed
qed

section \<open>Properties\<close>

text \<open>C6: Pushes over the real wire format: the handler of an incoming stream decodes every message that a node encoded, for a subscription
  with decoders of version 0; each message whose hash the subscription has not seen goes to the callback of its content topic, decoded,
  once and in the order of arrival, and those that were seen before, from this or another peer, are dropped. The parts of the messages
  are in the range of the format.\<close>

theorem filter_push_over_the_wire:
  assumes laws: "pbLaws RT F buffers" and topic: "topic \<noteq> []" and ps: "list_all (pushable F topic) ps"
    and S: "jm_get subs topic = Some S" "su_pubsubTopic S = topic" "v0Callbacks S"
    and first: "\<And>xs. set (first xs) = set xs"
  shows "\<exists>S'. jm_get (filter_onRequest (filterNetOver RT node uuid :: string filterNet) (handleIncomingMessage (wireHash utf8 sha256 hex) first) peer
        (map (pushBytes RT topic) ps) subs) topic = Some S' \<and>
    su_log S' = su_log S @ List.map_filter (handed (hashOn utf8 sha256 hex topic) S)
      (unseen (hashOn utf8 sha256 hex topic) (su_received S) ps) \<and>
    set (su_received S') = set (su_received S) \<union> hashOn utf8 sha256 hex topic ` set ps"
  using ps S
proof (induction ps arbitrary: subs S)
  case Nil
  then show ?case by (simp add: map_filter_simps)
next
  case (Cons p ps)
  let ?N = "filterNetOver RT node uuid :: string filterNet"
  let ?h = "hashOn utf8 sha256 hex topic" and ?w = "WakuMessage_settled (wireOf p)"
  have hash: "wireHash utf8 sha256 hex (su_pubsubTopic S) ?w = Inr (?h p)"
    unfolding \<open>su_pubsubTopic S = topic\<close> by (rule wireHash_total) simp
  obtain S1 where S1: "processIncomingMessage (wireHash utf8 sha256 hex) first ?w peer S = Inr S1"
      "su_callbacks S1 = su_callbacks S" "su_pubsubTopic S1 = su_pubsubTopic S" "set (su_received S1) = insert (?h p) (set (su_received S))"
      "su_log S1 = su_log S @ (if ?h p \<in> set (su_received S) then [] else case handed ?h S p of None \<Rightarrow> [] | Some x \<Rightarrow> [x])"
    by (rule processIncomingMessage_handed [of S first ?w p "wireHash utf8 sha256 hex" ?h peer, OF Cons.prems(4) first _ hash]) simp_all
  have handed: "handed ?h S1 = handed ?h S" "v0Callbacks S1"
    using S1(2,3) Cons.prems(4) by (simp_all add: handed_def v0Callbacks_def fun_eq_iff)
  have "filter_onRequest ?N (handleIncomingMessage (wireHash utf8 sha256 hex) first) peer
        (map (pushBytes RT topic) (p # ps)) subs =
      filter_onRequest ?N (handleIncomingMessage (wireHash utf8 sha256 hex) first) peer
        (map (pushBytes RT topic) ps) (jm_set topic S1 subs)"
    using push_decoded [OF laws, of topic p] Cons.prems S1(1) topic by (simp add: filterNetOver_def handleIncomingMessage_def)
  moreover obtain S' where "jm_get (filter_onRequest ?N (handleIncomingMessage (wireHash utf8 sha256 hex) first) peer
        (map (pushBytes RT topic) ps) (jm_set topic S1 subs)) topic = Some S'"
      "su_log S' = su_log S1 @ List.map_filter (handed ?h S) (unseen ?h (su_received S1) ps)"
      "set (su_received S') = set (su_received S1) \<union> ?h ` set ps"
    using Cons.IH [of "jm_set topic S1 subs" S1] Cons.prems S1(3) handed by auto
  moreover have "unseen ?h (su_received S1) ps = unseen ?h (?h p # su_received S) ps" using S1(4) by (intro unseen_cong) simp
  moreover have "unseen ?h (?h p # su_received S) ps = unseen ?h (su_received S) ps" if "?h p \<in> set (su_received S)"
    using that by (intro unseen_cong) auto
  ultimately show ?case using S1(4,5) by (auto simp: map_filter_simps split: option.splits)
qed

section \<open>Witness\<close>

definition demoSub :: "decodedMessage subscription" where
  "demoSub = (newSubscription ''t'')\<lparr>su_callbacks := [(''c'', ([v0SubDecoder \<lparr>dec_pubsubTopic = ''t'', dec_contentTopic = ''c''\<rparr>], 7))]\<rparr>"

definition demoPushed :: "byte \<Rightarrow> protoMessage" where
  "demoPushed b = EmptyMessage\<lparr>pm_payload := [b], pm_contentTopic := ''c''\<rparr>"

theorem filter_push_over_the_wire_witness:
  "\<exists>S'. jm_get (filter_onRequest (filterNetOver demoRuntime undefined ''u'' :: string filterNet)
          (handleIncomingMessage (wireHash (\<lambda>_. []) (\<lambda>b. b) (map (\<lambda>x. char_of (unat x)))) (\<lambda>xs. xs)) ''p''
          (map (pushBytes demoRuntime ''t'') [demoPushed 1, demoPushed 2, demoPushed 1]) [(''t'', demoSub)]) ''t'' = Some S' \<and>
     map (\<lambda>(_, cb, m). (cb, dm_payload m)) (su_log S') = [(7, [1]), (7, [2])]"
proof -
  let ?utf8 = "\<lambda>_ :: string. [] :: bytes" and ?sha = "\<lambda>b :: bytes. b" and ?hex = "map (\<lambda>x :: byte. char_of (unat x)) :: bytes \<Rightarrow> string"
  have ok: "pushable demoFormat ''t'' (demoPushed b)" for b
    by (simp add: pushable_def MessagePush_ok_def demoPushed_def wireOf_def WakuMessage_ok_def EmptyMessage_def propOf_def fits_def wire_def
        fieldBytes_def WakuMessage_fields_def pf_bytes_def pf_string_def demoFormat_def leb.simps)
  have h: "hashOn ?utf8 ?sha ?hex ''t'' (demoPushed b) = [char_of (unat b)]" for b
    by (simp add: hashOn_def messageHashStr_def messageHashProto_def messageHash_eq demoPushed_def EmptyMessage_def)
  have "v0Callbacks demoSub" by (simp add: v0Callbacks_def demoSub_def v0SubDecoder_def)
  then obtain S' where S': "jm_get (filter_onRequest (filterNetOver demoRuntime undefined ''u'' :: string filterNet)
          (handleIncomingMessage (wireHash ?utf8 ?sha ?hex) (\<lambda>xs. xs)) ''p''
          (map (pushBytes demoRuntime ''t'') [demoPushed 1, demoPushed 2, demoPushed 1]) [(''t'', demoSub)]) ''t'' = Some S'"
      "su_log S' = su_log demoSub @ List.map_filter (handed (hashOn ?utf8 ?sha ?hex ''t'') demoSub)
        (unseen (hashOn ?utf8 ?sha ?hex ''t'') (su_received demoSub) [demoPushed 1, demoPushed 2, demoPushed 1])"
    using filter_push_over_the_wire [OF demoPb_laws, of "''t''" "[demoPushed 1, demoPushed 2, demoPushed 1]" "[(''t'', demoSub)]" demoSub
        "\<lambda>xs. xs" undefined "''u''" ?utf8 ?sha ?hex "''p''"] ok
    by (auto simp: jm_get_def demoSub_def newSubscription_def)
  have "unseen (hashOn ?utf8 ?sha ?hex ''t'') [] [demoPushed 1, demoPushed 2, demoPushed 1] = [demoPushed 1, demoPushed 2]"
    by (simp add: h)
  moreover have "handed h' demoSub (demoPushed b) = Some (h' (demoPushed b), 7, \<lparr>dm_pubsubTopic = ''t'', dm_proto = demoPushed b\<rparr>)" for h' b
    by (simp add: handed_def demoSub_def newSubscription_def jm_get_def demoPushed_def fromProtoObj_def versionRejected_def EmptyMessage_def Version_def)
  ultimately show ?thesis
    using S' by (simp add: demoSub_def newSubscription_def map_filter_simps dm_payload_def demoPushed_def EmptyMessage_def)
qed

end
