(* ===== verification/RelayNode.thy ===== *)
theory RelayNode
  imports Relay ProtoMessage
begin

text \<open>
  A relay node: how \<open>Relay\<close> of \<open>packages/relay/src/relay.ts\<close> is put on gossipsub, and its messages on the wire. Gossipsub is the parameter
  of \<open>Relay\<close>; of its state the model holds what \<open>relay.ts\<close> reads and writes.
\<close>

section \<open>Gossipsub\<close>

text \<open>\<open>gs_listeners\<close> has the pubsub topic of each listener of \<open>gossipsub:message\<close>, in the order of their registration.\<close>

record gossip =
  gs_multicodecs :: "string list"
  gs_started :: bool
  gs_listeners :: "string list"
  gs_validators :: "string list"
  gs_subscribed :: "string list"

definition RelayCodecs :: "string list" where
  "RelayCodecs = [''/vac/waku/relay/2.0.0'']"

definition isRelayPubsub :: "gossip option \<Rightarrow> bool" where
  "isRelayPubsub pubsub = (case pubsub of None \<Rightarrow> False | Some G \<Rightarrow> hd RelayCodecs \<in> set (gs_multicodecs G))"

definition gossipSubSubscribe :: "string \<Rightarrow> gossip \<Rightarrow> gossip" where
  "gossipSubSubscribe pubsubTopic G =
     G\<lparr>gs_listeners := gs_listeners G @ [pubsubTopic], gs_validators := set_add pubsubTopic (gs_validators G),
       gs_subscribed := set_add pubsubTopic (gs_subscribed G)\<rparr>"

definition subscribeToAllTopics :: "'m relay \<Rightarrow> gossip \<Rightarrow> gossip" where
  "subscribeToAllTopics R G = fold gossipSubSubscribe (rl_pubsubTopics R) G"

text \<open>The constructor and \<open>start\<close>; \<open>starting\<close> is what \<open>gossipSub.start()\<close> makes of gossipsub, or its rejection.\<close>

definition createRelay :: "gossip option \<Rightarrow> string list \<Rightarrow> ('m relay \<times> gossip) res" where
  "createRelay pubsub pubsubTopics =
     (if \<not> isRelayPubsub pubsub
      then Inl (Error (''Failed to initialize Relay. libp2p.pubsub does not support '' @ hd RelayCodecs))
      else case pubsub of
             None \<Rightarrow> Inl TypeError
           | Some G \<Rightarrow> (let R = newRelay pubsubTopics in Inr (R, if gs_started G then subscribeToAllTopics R G else G)))"

definition relay_start :: "(gossip \<Rightarrow> gossip res) \<Rightarrow> 'm relay \<Rightarrow> gossip \<Rightarrow> gossip res" where
  "relay_start starting R G =
     (if gs_started G then Inl (Error ''GossipSub already started.'')
      else rbind (starting G) (\<lambda>G1. Inr (subscribeToAllTopics R G1)))"

text \<open>How the gossipsub of a relay node is made: the caller's options, with three that are set, and the protocols of Waku.\<close>

datatype signaturePolicy = StrictSign | StrictNoSign

record gossipInit =
  gi_msgIdFn :: "(bytes \<Rightarrow> bytes) option"
  gi_globalSignaturePolicy :: "signaturePolicy option"
  gi_fallbackToFloodsub :: "bool option"

definition wakuGossipSub :: "(bytes \<Rightarrow> bytes) \<Rightarrow> ('o gossipInit_scheme \<Rightarrow> gossip) \<Rightarrow> 'o gossipInit_scheme \<Rightarrow> gossip" where
  "wakuGossipSub sha256 newGossipSub init =
     (newGossipSub (init\<lparr>gi_msgIdFn := Some (\<lambda>data. sha256 data), gi_globalSignaturePolicy := Some StrictNoSign,
                         gi_fallbackToFloodsub := Some False\<rparr>))
       \<lparr>gs_multicodecs := RelayCodecs\<rparr>"

definition wakuRelay :: "string list \<Rightarrow> gossip option \<Rightarrow> ('m relay \<times> gossip) res" where
  "wakuRelay pubsubTopics = (\<lambda>pubsub. createRelay pubsub pubsubTopics)"

definition getMeshPeers :: "(string \<Rightarrow> string list) \<Rightarrow> string option \<Rightarrow> string list" where
  "getMeshPeers mesh topic = mesh (case topic of Some t \<Rightarrow> t | None \<Rightarrow> [])"

text \<open>An event of gossipsub goes to every listener.\<close>

definition gossipEvent :: "(bytes \<Rightarrow> string res) \<Rightarrow> gossip \<Rightarrow> string \<Rightarrow> bytes \<Rightarrow> 'm relay \<Rightarrow> 'm relay" where
  "gossipEvent decodeTopic G topic bs R =
     fold (\<lambda>t R. if topic \<noteq> t then R else relay_processIncoming decodeTopic topic bs R) (gs_listeners G) R"

text \<open>What a start documents: gossipsub is started, and its listeners stay.\<close>

definition starts :: "gossip \<Rightarrow> gossip res" where
  "starts G = Inr (G\<lparr>gs_started := True\<rparr>)"

lemma subscribeToAllTopics_listeners:
  "gs_listeners (subscribeToAllTopics R G) = gs_listeners G @ rl_pubsubTopics R"
  "gs_started (subscribeToAllTopics R G) = gs_started G"
proof -
  have "gs_listeners (fold gossipSubSubscribe ts G) = gs_listeners G @ ts \<and> gs_started (fold gossipSubSubscribe ts G) = gs_started G" for ts
    by (induction ts arbitrary: G) (simp_all add: gossipSubSubscribe_def)
  then show "gs_listeners (subscribeToAllTopics R G) = gs_listeners G @ rl_pubsubTopics R"
    "gs_started (subscribeToAllTopics R G) = gs_started G"
    by (simp_all add: subscribeToAllTopics_def)
qed

text \<open>A relay made on a running gossipsub, or started once, has one listener for each of its topics, as \<open>onGossipMessage\<close> takes it.\<close>

lemma one_listener_per_topic:
  "createRelay (Some G) topics = Inr (R, G1) \<Longrightarrow> gs_listeners G1 = gs_listeners G @ (if gs_started G then rl_pubsubTopics R else [])"
  "relay_start starts R G = Inr G1 \<Longrightarrow> gs_listeners G1 = gs_listeners G @ rl_pubsubTopics R"
  by (auto simp: createRelay_def relay_start_def starts_def Let_def subscribeToAllTopics_listeners split: if_splits)

lemma gossipEvent_listeners: "gs_listeners G = rl_pubsubTopics R \<Longrightarrow> gossipEvent decodeTopic G topic bs R = onGossipMessage decodeTopic topic bs R"
  by (simp add: gossipEvent_def onGossipMessage_def)

text \<open>
  A relay made before gossipsub runs is not subscribed by starting the node: that starts gossipsub with libp2p, and the \<open>start\<close> of the
  relay, which would subscribe, then throws.
\<close>

lemma node_start_does_not_subscribe:
  assumes "createRelay (Some G) topics = Inr (R, G1)" "gs_listeners G = []" "\<not> gs_started G" "starts G1 = Inr G2"
  shows "gossipEvent decodeTopic G2 topic bs R' = R' \<and> relay_start starting R G2 = Inl (Error ''GossipSub already started.'')"
  using assms by (auto simp: createRelay_def Let_def starts_def gossipEvent_def relay_start_def split: if_splits)

text \<open>A relay that is started again after gossipsub was stopped listens twice, and hands every message to its observers twice.\<close>

lemma restart_delivers_twice:
  assumes "relay_start starts R G = Inr G1" "gs_listeners G = []" "relay_start starts R (G1\<lparr>gs_started := False\<rparr>) = Inr G2"
    and "relayOk topics R" "topic \<in> set topics"
  shows "gossipEvent decodeTopic G2 topic bs R =
    relay_processIncoming decodeTopic topic bs (relay_processIncoming decodeTopic topic bs R)"
proof -
  have "gs_listeners G2 = rl_pubsubTopics R @ rl_pubsubTopics R"
    using assms(1-3) by (auto simp: relay_start_def starts_def subscribeToAllTopics_listeners split: if_splits)
  moreover have "topic \<in> set (rl_pubsubTopics R)" "distinct (rl_pubsubTopics R)" using assms(4,5) by (auto simp: relayOk_def)
  ultimately show ?thesis by (simp add: gossipEvent_def fold_own_listener)
qed

text \<open>A relay takes the gossipsub that was made for it, and no other without the protocols of Waku.\<close>

lemma relay_takes_its_gossipsub:
  "\<exists>R G. wakuRelay topics (Some (wakuGossipSub sha256 newGossipSub init)) = Inr (R, G)"
  "hd RelayCodecs \<notin> set (gs_multicodecs G) \<Longrightarrow> isl (wakuRelay topics (Some G))"
  by (simp_all add: wakuRelay_def createRelay_def isRelayPubsub_def wakuGossipSub_def RelayCodecs_def Let_def)

text \<open>Observers of the empty content topic, which the comment at the field says are always called, are never called.\<close>

lemma empty_topic_never_called:
  assumes "\<forall>d \<in> set ds. rd_contentTopic d = []"
  shows "let R = runEvents (relayExec decodeTopic) evs (newRelay topics)
    in relay_delivered decodeTopic topic bs (fst (relay_subscribe ds callback R)) = relay_delivered decodeTopic topic bs R"
proof -
  define R where "R = runEvents (relayExec decodeTopic) evs (newRelay topics :: 'a relay)"
  obtain R1 os where sub: "relay_subscribe ds callback R = (R1, os)" by (metis surj_pair)
  have none: "filter (\<lambda>d. rd_pubsubTopic d = topic \<and> rd_contentTopic d = ct) ds = []" if "ct \<noteq> []" for ct
    using assms that by (auto simp: filter_empty_conv)
  show ?thesis
    using subscription_delivers [of decodeTopic evs topics ds callback topic bs] none
    unfolding R_def [symmetric] Let_def sub prod.case by (auto simp: map_filter_simps split: sum.splits)
qed

section \<open>Messages on the wire\<close>

definition relayTopic :: "'w pbRuntime \<Rightarrow> bytes \<Rightarrow> string res" where
  "relayTopic RT bs = returned (decodeBytes RT (TopicOnlyMessage_decode RT None) bs)"

definition relayValidator :: "'w pbRuntime \<Rightarrow> bytes \<Rightarrow> validatorResult" where
  "relayValidator RT bs = messageValidator (\<lambda>bs. returned (decodeBytes RT (WakuMessage_decode RT None) bs)) bs"

text \<open>The encoder and the decoder of \<open>version_0.ts\<close> as relay uses them.\<close>

definition v0Encoder :: "'w pbRuntime \<Rightarrow> encoder \<Rightarrow> date \<Rightarrow> iencoder" where
  "v0Encoder RT enc now =
     \<lparr>ie_pubsubTopic = enc_pubsubTopic enc, ie_contentTopic = enc_contentTopic enc,
      ie_toWire = (\<lambda>m. rbind (toWire (wakuEncode RT) enc now m) (\<lambda>bs. Inr (Some bs))),
      ie_toProtoObj = (\<lambda>m. rbind (toProtoObj enc now m) (\<lambda>p. Inr (Some p)))\<rparr>"

definition v0Decoder :: "'w pbRuntime \<Rightarrow> decoder \<Rightarrow> decodedMessage relayDecoder" where
  "v0Decoder RT dec =
     \<lparr>rd_pubsubTopic = dec_pubsubTopic dec, rd_contentTopic = dec_contentTopic dec,
      rd_fromWireToProtoObj = (\<lambda>bs. rbind (fromWireToProtoObj (wakuDecode RT) bs) (\<lambda>p. Inr (Some p))),
      rd_fromProtoObj = (\<lambda>topic p. Inr (fromProtoObj topic p))\<rparr>"

lemma v0Decoder_topics [simp]:
  "rd_pubsubTopic (v0Decoder RT d) = dec_pubsubTopic d" "rd_contentTopic (v0Decoder RT d) = dec_contentTopic d"
  by (simp_all add: v0Decoder_def)

lemma sent_bytes:
  assumes laws: "pbLaws RT F buffers" and msg: "messageFits F enc msg" "\<forall>s p. enc_metaSetter enc = Some s \<longrightarrow> fits (s p)"
    and date: "nullish (msg_timestamp msg) now = Some ms" "ms \<noteq> 0" "\<bar>ms\<bar> < 9000000000000"
    and sent: "toWire (wakuEncode RT) enc now msg = Inr bs"
  shows "relayTopic RT bs = Inr (enc_contentTopic enc)"
    and "relayValidator RT bs = (if enc_contentTopic enc = [] \<or> msg_payload msg = [] then Reject else Accept)"
    and "\<exists>p m. fromWireToProtoObj (wakuDecode RT) bs = Inr p \<and> fromProtoObj topic p = Some m \<and> dm_payload m = msg_payload msg \<and>
      dm_contentTopic m = enc_contentTopic enc \<and> dm_timestamp m = Some (Some ms) \<and> dm_ephemeral m = enc_ephemeral enc \<and>
      dm_rateLimitProof m = msg_rateLimitProof msg \<and> dm_pubsubTopic m = topic"
proof -
  obtain q where q: "toProtoObj enc now msg = Inr q" "bs = wakuEncode RT q" using sent by (auto simp: toWire_def rbind_eq_Inr)
  have ok: "WakuMessage_ok F (wireOf p)" if "toProtoObj enc now msg = Inr p" for p
    by (rule sent_message_ok [OF msg(1) _ date(1,3) that]) (use msg(2) in blast)
  note L = laws [unfolded pbLaws_def]
  have content: "pm_contentTopic q = enc_contentTopic enc" "pm_payload q = msg_payload msg"
    using q(1) by (auto simp: toProtoObj_def Let_def rbind_eq_Inr split: option.splits)
  show "relayTopic RT bs = Inr (enc_contentTopic enc)"
    using pb_runtime.TopicOnlyMessage_reads_topic [OF L ok [OF q(1)]] content
    by (simp add: relayTopic_def q(2) wakuEncode_def wireOf_def)
  show "relayValidator RT bs = (if enc_contentTopic enc = [] \<or> msg_payload msg = [] then Reject else Accept)"
    using pb_runtime.WakuMessage_roundtrip [OF L ok [OF q(1)]] content
    by (simp add: relayValidator_def messageValidator_def q(2) wakuEncode_def WakuMessage_settled_def wireOf_def)
  have "toProtoObj enc now msg = Inr p \<Longrightarrow> wakuDecode RT (wakuEncode RT p) = Inr p" for p
    using wakuDecode_wakuEncode [OF laws ok] .
  from message_v0_arrives [where topic = topic and enc = enc, OF this date] sent
  show "\<exists>p m. fromWireToProtoObj (wakuDecode RT) bs = Inr p \<and> fromProtoObj topic p = Some m \<and> dm_payload m = msg_payload msg \<and>
      dm_contentTopic m = enc_contentTopic enc \<and> dm_timestamp m = Some (Some ms) \<and> dm_ephemeral m = enc_ephemeral enc \<and>
      dm_rateLimitProof m = msg_rateLimitProof msg \<and> dm_pubsubTopic m = topic"
    by (simp only: sum.inject) blast
qed

lemma map_filter_same: "(\<And>x. x \<in> set xs \<Longrightarrow> f x = Some y) \<Longrightarrow> List.map_filter f xs = replicate (length xs) y"
  by (induction xs) (simp_all add: map_filter_simps)

context pb_runtime
begin

lemma WakuMessage_bytes: "encodeBytes RT (WakuMessage_encode RT) m = wire F (WakuMessage_fields F m)"
  by (rule wakuMessage.encodeBytes_wire)

end

section \<open>Properties\<close>

text \<open>C2: A relay message arrives over the real wire format: the sender publishes the bytes that the generated codec makes, under their pubsub
  topic; the receiver's validator accepts them; and in any state that the receiver has reached, a new subscription gets the decoded
  message once for each of its decoders of the pubsub topic and content topic, with its payload, topic, date, flags and proof, after the
  deliveries to the observers that were there. The message has a payload and a content topic, its parts are below four gigabytes, the
  whole below the cap, and the date is in the range of a 64-bit number of nanoseconds.\<close>

theorem relay_over_the_wire:
  assumes laws: "pbLaws RT F buffers" and msg: "messageFits F enc msg" "\<And>s p. enc_metaSetter enc = Some s \<Longrightarrow> fits (s p)"
    and date: "nullish (msg_timestamp msg) now = Some ms" "ms \<noteq> 0" "\<bar>ms\<bar> < 9000000000000"
    and sent: "toWire (wakuEncode RT) enc now msg = Inr bs" "isWireSizeUnderCap bs"
    and content: "enc_contentTopic enc \<noteq> []" "msg_payload msg \<noteq> []"
    and topics: "enc_pubsubTopic enc \<in> set senderTopics" "enc_pubsubTopic enc \<in> set topics"
  shows "relay_send publish senderTopics (v0Encoder RT enc now) msg =
      rbind (publish (enc_pubsubTopic enc) bs) (\<lambda>recipients. Inr \<lparr>sdk_successes = recipients, sdk_failures = []\<rparr>) \<and>
    relayValidator RT bs = Accept \<and>
    (\<exists>m. dm_payload m = msg_payload msg \<and> dm_contentTopic m = enc_contentTopic enc \<and> dm_pubsubTopic m = enc_pubsubTopic enc \<and>
       dm_timestamp m = Some (Some ms) \<and> dm_ephemeral m = enc_ephemeral enc \<and> dm_rateLimitProof m = msg_rateLimitProof msg \<and>
       (let R = runEvents (relayExec (relayTopic RT)) evs (newRelay topics);
            R1 = fst (relay_subscribe (map (v0Decoder RT) decoders) callback R)
        in relay_delivered (relayTopic RT) (enc_pubsubTopic enc) bs R1 =
             relay_delivered (relayTopic RT) (enc_pubsubTopic enc) bs R @
             replicate (length (filter (\<lambda>d. dec_pubsubTopic d = enc_pubsubTopic enc \<and> dec_contentTopic d = enc_contentTopic enc) decoders))
               (callback, m)))"
proof (intro conjI)
  let ?t = "enc_pubsubTopic enc" and ?ct = "enc_contentTopic enc"
  have setter: "\<forall>s p. enc_metaSetter enc = Some s \<longrightarrow> fits (s p)" using msg(2) by blast
  note bytes = sent_bytes [OF laws msg(1) setter date sent(1)]
  show "relay_send publish senderTopics (v0Encoder RT enc now) msg =
      rbind (publish ?t bs) (\<lambda>recipients. Inr \<lparr>sdk_successes = recipients, sdk_failures = []\<rparr>)"
    using topics(1) sent by (simp add: relay_send_def v0Encoder_def)
  show "relayValidator RT bs = Accept" using content by (simp add: bytes(2))
  obtain p m where p: "fromWireToProtoObj (wakuDecode RT) bs = Inr p" "fromProtoObj ?t p = Some m"
    and m: "dm_payload m = msg_payload msg" "dm_contentTopic m = ?ct" "dm_timestamp m = Some (Some ms)"
      "dm_ephemeral m = enc_ephemeral enc" "dm_rateLimitProof m = msg_rateLimitProof msg" "dm_pubsubTopic m = ?t"
    using bytes(3) [of ?t] by blast
  have observed: "observe ?t bs \<lparr>ob_id = 0, ob_decoder = v0Decoder RT d, ob_callback = callback\<rparr> = Some (callback, m)" for d
    using p by (simp add: observe_def v0Decoder_def)
  define R where "R = runEvents (relayExec (relayTopic RT)) evs (newRelay topics :: decodedMessage relay)"
  obtain R1 os where sub: "relay_subscribe (map (v0Decoder RT) decoders) callback R = (R1, os)" by (metis surj_pair)
  have "relay_delivered (relayTopic RT) ?t bs R1 = relay_delivered (relayTopic RT) ?t bs R @
      List.map_filter (\<lambda>d. observe ?t bs \<lparr>ob_id = 0, ob_decoder = d, ob_callback = callback\<rparr>)
        (filter (\<lambda>d. rd_pubsubTopic d = ?t \<and> rd_contentTopic d = ?ct) (map (v0Decoder RT) decoders))"
    using subscription_delivers [of "relayTopic RT" evs topics "map (v0Decoder RT) decoders" callback ?t bs]
    unfolding R_def [symmetric] Let_def sub prod.case bytes(1) using content(1) topics(2) by simp
  also have "List.map_filter (\<lambda>d. observe ?t bs \<lparr>ob_id = 0, ob_decoder = d, ob_callback = callback\<rparr>)
        (filter (\<lambda>d. rd_pubsubTopic d = ?t \<and> rd_contentTopic d = ?ct) (map (v0Decoder RT) decoders)) =
      replicate (length (filter (\<lambda>d. dec_pubsubTopic d = ?t \<and> dec_contentTopic d = ?ct) decoders)) (callback, m)"
    by (subst map_filter_same [where y = "(callback, m)"]) (auto simp: observed filter_map comp_def)
  finally show "\<exists>m. dm_payload m = msg_payload msg \<and> dm_contentTopic m = ?ct \<and> dm_pubsubTopic m = ?t \<and>
       dm_timestamp m = Some (Some ms) \<and> dm_ephemeral m = enc_ephemeral enc \<and> dm_rateLimitProof m = msg_rateLimitProof msg \<and>
       (let R = runEvents (relayExec (relayTopic RT)) evs (newRelay topics);
            R1 = fst (relay_subscribe (map (v0Decoder RT) decoders) callback R)
        in relay_delivered (relayTopic RT) ?t bs R1 = relay_delivered (relayTopic RT) ?t bs R @
             replicate (length (filter (\<lambda>d. dec_pubsubTopic d = ?t \<and> dec_contentTopic d = ?ct) decoders)) (callback, m))"
    using m unfolding R_def [symmetric] Let_def sub by auto
qed

section \<open>Two decoders of the same bytes\<close>

text \<open>
  The validator decodes the whole message, relay finds the observers with the decoder of the topic alone. A generated decoder reads a field
  that it knows by the type in its schema, whatever wire type the tag has, and skips one that it does not know by its wire type. So the
  two can read different content topics from the same bytes: here the payload has the wire type of a number, and its contents are a field
  for who skips a number. The validator accepts the message, its content topic is \<open>a\<close>, and it goes to the observers of \<open>b\<close>.
\<close>

definition twoTopics :: bytes where
  "twoTopics = [18, 1, 97, 8, 3, 18, 1, 98]"

lemma topic_decoders_disagree:
  "relayValidator demoRuntime twoTopics = Accept \<and> relayTopic demoRuntime twoTopics = Inr ''b'' \<and>
   map_sum id pm_contentTopic (wakuDecode demoRuntime twoTopics) = Inr ''a''"
proof -
  have chars: "char_of (97 :: nat) = CHR ''a''" "char_of (98 :: nat) = CHR ''b''" by (simp_all add: char_of_def bit_0)
  have full: "decodeBytes demoRuntime (WakuMessage_decode demoRuntime None) twoTopics =
      Some (Inr (WakuMessage_initial\<lparr>wire_payload := [18, 1, 98], wire_contentTopic := ''a''\<rparr>))"
    unfolding decodeBytes_def WakuMessage_decode_def decodeFrom_def twoTopics_def
    by (simp add: demo_run WakuMessage_field_def WakuMessage_initial_def chars)
  have topic: "decodeBytes demoRuntime (TopicOnlyMessage_decode demoRuntime None) twoTopics = Some (Inr ''b'')"
    unfolding decodeBytes_def TopicOnlyMessage_decode_def decodeFrom_def twoTopics_def
    by (simp add: demo_run TopicOnlyMessage_field_def chars)
  show ?thesis by (simp add: relayValidator_def messageValidator_def relayTopic_def wakuDecode_def protoOf_def full topic)
qed

section \<open>Witness\<close>

theorem relay_over_the_wire_witness:
  "\<exists>bs m. toWire (wakuEncode demoRuntime) demoEncoder None demoMessage = Inr bs \<and> relayValidator demoRuntime bs = Accept \<and>
     dm_payload m = [4, 5] \<and> dm_contentTopic m = ''/app/1/name/proto'' \<and>
     relay_delivered (relayTopic demoRuntime) ''t'' bs
       (fst (relay_subscribe [v0Decoder demoRuntime \<lparr>dec_pubsubTopic = ''t'', dec_contentTopic = ''/app/1/name/proto''\<rparr>] 3
          (newRelay [''t'']))) = [(3, m)]"
proof -
  let ?w = "wireOf \<lparr>pm_payload = [4, 5], pm_contentTopic = ''/app/1/name/proto'', pm_version = Some 0, pm_timestamp = Some 7000000,
    pm_meta = None, pm_rateLimitProof = None, pm_ephemeral = Some False\<rparr>"
  obtain bs where bs: "toWire (wakuEncode demoRuntime) demoEncoder None demoMessage = Inr bs" "bs = encodeBytes demoRuntime (WakuMessage_encode demoRuntime) ?w"
    by (simp add: toWire_def toProtoObj_def demoEncoder_def demoMessage_def bigIntOfDate_def OneMillion_def Version_def wakuEncode_def)
  have "isWireSizeUnderCap bs"
    by (simp add: bs(2) pb_runtime.WakuMessage_bytes [OF demoPb_laws [unfolded pbLaws_def]] WakuMessage_fields_def wireOf_def propOf_def
        fieldBytes_def pf_bytes_def pf_string_def demoFormat_def leb.simps isWireSizeUnderCap_def SIZE_CAP_IN_MB_def MB_def)
  moreover have "relay_delivered decodeTopic t bs (newRelay ts :: decodedMessage relay) = []" for decodeTopic t ts
    unfolding delivered_eq [OF relay_reached [where evs = "[]", unfolded runEvents_def, simplified]]
    by (auto simp: newRelay_def observersFor_def map_filter_simps split: sum.splits)
  ultimately show ?thesis
    using relay_over_the_wire [OF demoPb_laws, of demoEncoder demoMessage None 7 bs "[''t'']" "[''t'']" "\<lambda>_ _. Inr []" "[]"
      "[\<lparr>dec_pubsubTopic = ''t'', dec_contentTopic = ''/app/1/name/proto''\<rparr>]" 3] bs(1)
    by (auto simp: messageFits_def demoEncoder_def demoMessage_def demoFormat_def fits_def runEvents_def Let_def)
qed

end
