(* ===== verification/NodeCreation.thy ===== *)
theory NodeCreation
  imports DnsDiscovery RelayNode
begin

text \<open>
  \<open>packages/sdk/src/create\<close> and \<open>packages/relay/src/create.ts\<close>: how a node puts together the configuration of libp2p. The code changes the
  options that it is given: \<open>peerDiscovery.push\<close> acts on the caller's array and \<open>libp2pOptions.peerDiscovery = ...\<close> on the caller's object. So
  these two kinds of object are in a heap and are known by their addresses. A plug-in of the caller is known by a number.
\<close>

section \<open>Options and configuration\<close>

datatype discovery =
    DnsDiscoveryOf "string list"
  | LocalPeerCacheDiscoveryOf
  | PeerExchangeDiscoveryOf "string list"
  | BootstrapOf "string list"
  | OtherDiscovery nat

datatype wsFilter = FilterAll | Wss

datatype plugin = WebSockets wsFilter | Mplex | Noise | OtherPlugin nat

datatype service =
    Identify string
  | Ping int
  | MetadataService "string list"
  | GossipSubService
  | OtherService nat

text \<open>\<open>CreateLibp2pOptions\<close>; \<open>lo\_peerDiscovery\<close> is the address of an array.\<close>

record libp2pOptions =
  lo_transports :: "plugin list jsprop"
  lo_streamMuxers :: "plugin list jsprop"
  lo_connectionEncrypters :: "plugin list jsprop"
  lo_peerDiscovery :: "nat jsprop"
  lo_services :: "(string, service) jsmap jsprop"
  lo_pingMaxInboundStreams :: "int jsprop"
  lo_filterMultiaddrs :: "bool jsprop"

definition emptyOptions :: libp2pOptions where
  "emptyOptions =
     \<lparr>lo_transports = Absent, lo_streamMuxers = Absent, lo_connectionEncrypters = Absent, lo_peerDiscovery = Absent, lo_services = Absent,
      lo_pingMaxInboundStreams = Absent, lo_filterMultiaddrs = Absent\<rparr>"

text \<open>\<open>CreateNodeOptions\<close>, as far as node creation reads it; \<open>no\_libp2p\<close> is the address of an object.\<close>

record nodeOptions =
  no_userAgent :: "string option"
  no_networkConfig :: "networkConfig option"
  no_libp2p :: "nat option"
  no_defaultBootstrap :: bool
  no_bootstrapPeers :: "string list option"

record heap =
  hp_arrays :: "discovery list list"
  hp_objects :: "libp2pOptions list"

text \<open>The argument of \<open>createLibp2p\<close>, which is not part of the repository.\<close>

record libp2pConfig =
  lc_transports :: "plugin list option"
  lc_streamMuxers :: "plugin list option"
  lc_connectionEncrypters :: "plugin list option"
  lc_peerDiscovery :: "discovery list option"
  lc_services :: "(string, service) jsmap"

section \<open>discovery.ts\<close>

definition defaultPeerDiscoveries :: "string list \<Rightarrow> discovery list" where
  "defaultPeerDiscoveries pubsubTopics =
     (let dnsEnrTrees = [enrTree_SANDBOX, enrTree_TEST]
      in [DnsDiscoveryOf dnsEnrTrees, LocalPeerCacheDiscoveryOf, PeerExchangeDiscoveryOf pubsubTopics])"

section \<open>libp2p.ts\<close>

definition DefaultUserAgent :: string where "DefaultUserAgent = ''js-waku''"
definition DefaultPingMaxInboundStreams :: int where "DefaultPingMaxInboundStreams = 10"
definition DefaultNetworkConfig :: networkConfig where
  "DefaultNetworkConfig = staticConfig (sh_clusterId DefaultShardInfo) (sh_shards DefaultShardInfo)"

text \<open>The array of topics is an object, so there always is a metadata service. The console output is left out.\<close>

definition defaultLibp2p :: "bool \<Rightarrow> heap \<Rightarrow> string list \<Rightarrow> libp2pOptions \<Rightarrow> string option \<Rightarrow> libp2pConfig" where
  "defaultLibp2p isTestEnvironment h pubsubTopics options userAgent =
     (let metadataService = [(''metadata'', MetadataService pubsubTopics)];
          filter = (if propVal (lo_filterMultiaddrs options) = Some False \<or> isTestEnvironment then FilterAll else Wss);
          services = [(''identify'', Identify (nullish userAgent DefaultUserAgent)),
                      (''ping'', Ping (nullish (propVal (lo_pingMaxInboundStreams options)) DefaultPingMaxInboundStreams))]
      in \<lparr>lc_transports = spread (lo_transports options) (Some [WebSockets filter]),
          lc_streamMuxers = spread (lo_streamMuxers options) (Some [Mplex]),
          lc_connectionEncrypters = spread (lo_connectionEncrypters options) (Some [Noise]),
          lc_peerDiscovery = map_option (\<lambda>a. hp_arrays h ! a) (propVal (lo_peerDiscovery options)),
          lc_services = fold (\<lambda>(k, s). jm_set k s) (metadataService @ nullish (propVal (lo_services options)) []) services\<rparr>)"

text \<open>\<open>options?.libp2p ?? \{\}\<close> and \<open>libp2pOptions.peerDiscovery ?? []\<close>: the object that is there, or a new one.\<close>

definition libp2pOptionsOf :: "nodeOptions \<Rightarrow> heap \<Rightarrow> nat \<times> heap" where
  "libp2pOptionsOf options h =
     (case no_libp2p options of
        Some a \<Rightarrow> (a, h)
      | None \<Rightarrow> (length (hp_objects h), h\<lparr>hp_objects := hp_objects h @ [emptyOptions]\<rparr>))"

definition peerDiscoveryOf :: "nat \<Rightarrow> heap \<Rightarrow> nat \<times> heap" where
  "peerDiscoveryOf a h =
     (case propVal (lo_peerDiscovery (hp_objects h ! a)) of
        Some d \<Rightarrow> (d, h)
      | None \<Rightarrow> (length (hp_arrays h), h\<lparr>hp_arrays := hp_arrays h @ [[]]\<rparr>))"

definition push :: "nat \<Rightarrow> discovery list \<Rightarrow> heap \<Rightarrow> heap" where
  "push d xs h = h\<lparr>hp_arrays := (hp_arrays h)[d := hp_arrays h ! d @ xs]\<rparr>"

definition createLibp2pAndUpdateOptions ::
  "(string \<Rightarrow> bytes) \<Rightarrow> (bytes \<Rightarrow> bytes) \<Rightarrow> bool \<Rightarrow> nodeOptions \<Rightarrow> heap \<Rightarrow> ((libp2pConfig \<times> string list) \<times> heap) res" where
  "createLibp2pAndUpdateOptions utf8 sha256 isTestEnvironment options h =
     rbind (derivePubsubTopicsFromNetworkConfig utf8 sha256 (nullish (no_networkConfig options) DefaultNetworkConfig))
       (\<lambda>pubsubTopics.
          case libp2pOptionsOf options h of (libp2pOptions, h1) \<Rightarrow>
          case peerDiscoveryOf libp2pOptions h1 of (peerDiscovery, h2) \<Rightarrow>
          let h3 = (if no_defaultBootstrap options then push peerDiscovery (defaultPeerDiscoveries pubsubTopics) h2 else h2);
              h4 = (case no_bootstrapPeers options of None \<Rightarrow> h3 | Some list \<Rightarrow> push peerDiscovery [BootstrapOf list] h3);
              h5 = h4\<lparr>hp_objects := (hp_objects h4)[libp2pOptions := (hp_objects h4 ! libp2pOptions)\<lparr>lo_peerDiscovery := Val peerDiscovery\<rparr>]\<rparr>
          in Inr ((defaultLibp2p isTestEnvironment h5 pubsubTopics (hp_objects h5 ! libp2pOptions) (no_userAgent options), pubsubTopics), h5))"

section \<open>create.ts\<close>

text \<open>The options of a relay node: a new object with the caller's properties, but with services of its own.\<close>

definition relayOptions :: "nodeOptions \<Rightarrow> heap \<Rightarrow> nodeOptions \<times> heap" where
  "relayOptions options h =
     (let base = (case no_libp2p options of None \<Rightarrow> emptyOptions | Some a \<Rightarrow> hp_objects h ! a)
      in (options\<lparr>no_libp2p := Some (length (hp_objects h))\<rparr>,
          h\<lparr>hp_objects := hp_objects h @ [base\<lparr>lo_services := Val [(''pubsub'', GossipSubService)]\<rparr>]\<rparr>))"

definition createRelayLibp2p ::
  "(string \<Rightarrow> bytes) \<Rightarrow> (bytes \<Rightarrow> bytes) \<Rightarrow> bool \<Rightarrow> nodeOptions \<Rightarrow> heap \<Rightarrow> ((libp2pConfig \<times> string list) \<times> heap) res" where
  "createRelayLibp2p utf8 sha256 isTestEnvironment options h =
     (case relayOptions options h of (options', h') \<Rightarrow> createLibp2pAndUpdateOptions utf8 sha256 isTestEnvironment options' h')"

text \<open>Light nodes made one after the other with the same options: what libp2p is given for each, and the heap.\<close>

fun lightNodes ::
  "(string \<Rightarrow> bytes) \<Rightarrow> (bytes \<Rightarrow> bytes) \<Rightarrow> bool \<Rightarrow> nat \<Rightarrow> nodeOptions \<Rightarrow> heap \<Rightarrow> ((libp2pConfig \<times> string list) list \<times> heap) res" where
  "lightNodes utf8 sha256 test 0 options h = Inr ([], h)"
| "lightNodes utf8 sha256 test (Suc n) options h =
     rbind (createLibp2pAndUpdateOptions utf8 sha256 test options h)
       (\<lambda>(c, h1). rbind (lightNodes utf8 sha256 test n options h1) (\<lambda>(cs, h2). Inr (c # cs, h2)))"

section \<open>Lemmas\<close>

text \<open>The discoveries that the caller gives and those that the code adds; addresses are those of objects that are there.\<close>

definition callerDiscoveries :: "nodeOptions \<Rightarrow> heap \<Rightarrow> discovery list" where
  "callerDiscoveries options h =
     (case no_libp2p options of
        None \<Rightarrow> []
      | Some a \<Rightarrow> (case propVal (lo_peerDiscovery (hp_objects h ! a)) of None \<Rightarrow> [] | Some d \<Rightarrow> hp_arrays h ! d))"

definition addedDiscoveries :: "nodeOptions \<Rightarrow> string list \<Rightarrow> discovery list" where
  "addedDiscoveries options topics =
     (if no_defaultBootstrap options then defaultPeerDiscoveries topics else []) @
     (case no_bootstrapPeers options of None \<Rightarrow> [] | Some list \<Rightarrow> [BootstrapOf list])"

definition heapOk :: "nodeOptions \<Rightarrow> heap \<Rightarrow> bool" where
  "heapOk options h \<longleftrightarrow> pred_option (\<lambda>a. a < length (hp_objects h)) (no_libp2p options) \<and>
     list_all (\<lambda>ob. pred_option (\<lambda>d. d < length (hp_arrays h)) (propVal (lo_peerDiscovery ob))) (hp_objects h)"

lemma push_simps [simp]:
  "hp_objects (push d xs h) = hp_objects h" "length (hp_arrays (push d xs h)) = length (hp_arrays h)"
  "d < length (hp_arrays h) \<Longrightarrow> hp_arrays (push d xs h) ! d = hp_arrays h ! d @ xs"
  by (simp_all add: push_def)

text \<open>The object and the array that a creation works on.\<close>

lemma creation_objects:
  assumes ok: "heapOk options h" and a: "libp2pOptionsOf options h = (a, h1)" and d: "peerDiscoveryOf a h1 = (d, h2)"
  shows "a < length (hp_objects h2)" "d < length (hp_arrays h2)" "hp_arrays h2 ! d = callerDiscoveries options h"
    "list_all (\<lambda>ob. pred_option (\<lambda>d. d < length (hp_arrays h2)) (propVal (lo_peerDiscovery ob))) (hp_objects h2)"
    "length (hp_objects h2) \<ge> length (hp_objects h)" "no_libp2p options = Some a' \<Longrightarrow> a' = a"
proof -
  have all: "list_all (\<lambda>ob. pred_option (\<lambda>d. d < length (hp_arrays h1)) (propVal (lo_peerDiscovery ob))) (hp_objects h1)"
    and a1: "a < length (hp_objects h1)" "length (hp_objects h1) \<ge> length (hp_objects h)"
    using ok a by (auto simp: heapOk_def libp2pOptionsOf_def emptyOptions_def split: option.splits)
  have mono: "pred_option (\<lambda>d. d < n) x \<Longrightarrow> pred_option (\<lambda>d. d < Suc n) x" for n and x :: "nat option" by (cases x) auto
  show "a < length (hp_objects h2)" "length (hp_objects h2) \<ge> length (hp_objects h)"
    using a1 d by (auto simp: peerDiscoveryOf_def split: option.splits)
  show "no_libp2p options = Some a' \<Longrightarrow> a' = a" using a by (auto simp: libp2pOptionsOf_def)
  show "list_all (\<lambda>ob. pred_option (\<lambda>d. d < length (hp_arrays h2)) (propVal (lo_peerDiscovery ob))) (hp_objects h2)"
    using all d mono by (auto simp: peerDiscoveryOf_def list_all_iff split: option.splits)
  show "d < length (hp_arrays h2)" using d all a1(1) by (fastforce simp: peerDiscoveryOf_def list_all_length split: option.splits)
  show "hp_arrays h2 ! d = callerDiscoveries options h"
    using a d by (auto simp: libp2pOptionsOf_def peerDiscoveryOf_def callerDiscoveries_def emptyOptions_def split: option.splits)
qed

lemma creation:
  assumes ok: "heapOk options h"
    and topics: "derivePubsubTopicsFromNetworkConfig utf8 sha256 (nullish (no_networkConfig options) DefaultNetworkConfig) = Inr topics"
  obtains c h' where "createLibp2pAndUpdateOptions utf8 sha256 test options h = Inr ((c, topics), h')"
    "lc_peerDiscovery c = Some (callerDiscoveries options h @ addedDiscoveries options topics)" "heapOk options h'"
    "callerDiscoveries options h' =
       (if no_libp2p options = None then [] else callerDiscoveries options h @ addedDiscoveries options topics)"
proof -
  obtain a h1 where a: "libp2pOptionsOf options h = (a, h1)" by force
  obtain d h2 where d: "peerDiscoveryOf a h1 = (d, h2)" by force
  note objects = creation_objects [OF ok a d]
  define h4 where "h4 = (let h3 = (if no_defaultBootstrap options then push d (defaultPeerDiscoveries topics) h2 else h2)
                         in case no_bootstrapPeers options of None \<Rightarrow> h3 | Some list \<Rightarrow> push d [BootstrapOf list] h3)"
  define h5 where "h5 = h4\<lparr>hp_objects := (hp_objects h4)[a := (hp_objects h4 ! a)\<lparr>lo_peerDiscovery := Val d\<rparr>]\<rparr>"
  have h4: "hp_objects h4 = hp_objects h2" "length (hp_arrays h4) = length (hp_arrays h2)"
      "hp_arrays h4 ! d = callerDiscoveries options h @ addedDiscoveries options topics"
    using objects(2,3) by (auto simp: h4_def Let_def addedDiscoveries_def split: option.split)
  have h5: "lo_peerDiscovery (hp_objects h5 ! a) = Val d" "hp_arrays h5 = hp_arrays h4" "length (hp_objects h5) = length (hp_objects h2)"
    using objects(1) h4(1) by (simp_all add: h5_def)
  let ?c = "defaultLibp2p test h5 topics (hp_objects h5 ! a) (no_userAgent options)"
  show ?thesis
  proof (rule that [of ?c h5])
    show "createLibp2pAndUpdateOptions utf8 sha256 test options h = Inr ((?c, topics), h5)"
      by (simp add: createLibp2pAndUpdateOptions_def topics a d h5_def h4_def Let_def)
    show "lc_peerDiscovery ?c = Some (callerDiscoveries options h @ addedDiscoveries options topics)"
      using h4(3) h5 by (simp add: defaultLibp2p_def Let_def)
    have "list_all (\<lambda>ob. pred_option (\<lambda>d. d < length (hp_arrays h5)) (propVal (lo_peerDiscovery ob))) (hp_objects h5)"
      using objects(1,2,4) h4 by (auto simp: h5_def list_all_length nth_list_update)
    then show "heapOk options h5"
      using ok objects(5) h5(3) by (auto simp: heapOk_def option.pred_set split: option.splits)
    show "callerDiscoveries options h5 =
        (if no_libp2p options = None then [] else callerDiscoveries options h @ addedDiscoveries options topics)"
      using h4(3) h5 objects(6) by (auto simp: callerDiscoveries_def split: option.splits)
  qed
qed

section \<open>Properties\<close>

text \<open>Each light node is given the caller's ways of discovery, the three default ones if they are wanted, and the bootstrap peers if there are
  any, also with the default ones. But the code adds them to the caller's own array: when the options hold an object for libp2p, the
  \<open>n\<close>-th node made with the same options gets all that was added for the earlier ones as well. The sharding configuration is valid.\<close>

theorem created_nodes_discoveries:
  assumes "heapOk options h"
    and "derivePubsubTopicsFromNetworkConfig utf8 sha256 (nullish (no_networkConfig options) DefaultNetworkConfig) = Inr topics"
  shows "\<exists>cs h'. lightNodes utf8 sha256 test n options h = Inr (cs, h') \<and>
    map (\<lambda>(c, ts). (lc_peerDiscovery c, ts)) cs =
      map (\<lambda>i. (Some (callerDiscoveries options h @
                 concat (replicate (if no_libp2p options = None then 1 else i + 1) (addedDiscoveries options topics))), topics)) [0..<n]"
  using assms(1)
proof (induction n arbitrary: h)
  case 0
  then show ?case by simp
next
  case (Suc n)
  obtain c h1 where c: "createLibp2pAndUpdateOptions utf8 sha256 test options h = Inr ((c, topics), h1)"
      "lc_peerDiscovery c = Some (callerDiscoveries options h @ addedDiscoveries options topics)" "heapOk options h1"
      "callerDiscoveries options h1 =
         (if no_libp2p options = None then [] else callerDiscoveries options h @ addedDiscoveries options topics)"
    using creation [OF Suc.prems assms(2)] .
  obtain cs h2 where cs: "lightNodes utf8 sha256 test n options h1 = Inr (cs, h2)"
      "map (\<lambda>(c, ts). (lc_peerDiscovery c, ts)) cs =
        map (\<lambda>i. (Some (callerDiscoveries options h1 @
                   concat (replicate (if no_libp2p options = None then 1 else i + 1) (addedDiscoveries options topics))), topics)) [0..<n]"
    using Suc.IH [OF c(3)] by blast
  have "callerDiscoveries options h = []" if "no_libp2p options = None" using that by (simp add: callerDiscoveries_def)
  then have "map (\<lambda>(c, ts). (lc_peerDiscovery c, ts)) ((c, topics) # cs) =
      map (\<lambda>i. (Some (callerDiscoveries options h @
                 concat (replicate (if no_libp2p options = None then 1 else i + 1) (addedDiscoveries options topics))), topics)) [0..<Suc n]"
    using c(2,4) cs(2)
    by (cases "no_libp2p options") (simp_all add: upt_conv_Cons map_Suc_upt [symmetric] del: upt_Suc)
  with c(1) cs(1) show ?case by auto
qed

definition demoOptions :: nodeOptions where
  "demoOptions = \<lparr>no_userAgent = None, no_networkConfig = Some (staticConfig (Some 1) [0]), no_libp2p = Some 0, no_defaultBootstrap = False,
     no_bootstrapPeers = Some [''p'']\<rparr>"

theorem created_nodes_discoveries_witness:
  "\<exists>cs h'. lightNodes demoUtf8 demoSha False 2 demoOptions \<lparr>hp_arrays = [], hp_objects = [emptyOptions]\<rparr> = Inr (cs, h') \<and>
     map (lc_peerDiscovery \<circ> fst) cs = [Some [BootstrapOf [''p'']], Some [BootstrapOf [''p''], BootstrapOf [''p'']]]"
proof -
  let ?h = "\<lparr>hp_arrays = [], hp_objects = [emptyOptions]\<rparr>"
  obtain topics where topics: "derivePubsubTopicsFromNetworkConfig demoUtf8 demoSha (staticConfig (Some 1) [0]) = Inr topics"
    by (simp add: derivePubsubTopicsFromNetworkConfig_def isStaticSharding_def staticConfig_def shardInfoToPubsubTopics_def)
  have two: "[0..<2] = [0, 1 :: nat]" by (simp add: upt_rec)
  have "heapOk demoOptions ?h" by (simp add: heapOk_def demoOptions_def emptyOptions_def)
  from created_nodes_discoveries [OF this, of demoUtf8 demoSha topics False 2] topics
  obtain cs h' where "lightNodes demoUtf8 demoSha False 2 demoOptions ?h = Inr (cs, h')"
      "map (\<lambda>(c, ts). (lc_peerDiscovery c, ts)) cs = [(Some [BootstrapOf [''p'']], topics), (Some [BootstrapOf [''p''], BootstrapOf [''p'']], topics)]"
    by (auto simp: demoOptions_def callerDiscoveries_def addedDiscoveries_def emptyOptions_def two)
  moreover from this(2) have "map fst (map (\<lambda>(c, ts). (lc_peerDiscovery c, ts)) cs) = [Some [BootstrapOf [''p'']], Some [BootstrapOf [''p''], BootstrapOf [''p'']]]"
    by simp
  ultimately show ?thesis by (auto simp: comp_def split_def)
qed

text \<open>A relay node drops the services of the caller: besides those that the code adds there is only gossipsub.\<close>

lemma relay_node_services:
  assumes "createRelayLibp2p utf8 sha256 test options h = Inr ((c, topics), h')" "heapOk options h"
  shows "jm_keys (lc_services c) = [''identify'', ''ping'', ''metadata'', ''pubsub'']"
proof -
  let ?a = "length (hp_objects h)"
  obtain options' h1 where options': "relayOptions options h = (options', h1)" by force
  then have o: "no_libp2p options' = Some ?a" "length (hp_objects h1) = Suc ?a"
      "lo_services (hp_objects h1 ! ?a) = Val [(''pubsub'', GossipSubService)]"
    by (auto simp: relayOptions_def Let_def)
  obtain d h2 where d: "peerDiscoveryOf ?a h1 = (d, h2)" by force
  then have "hp_objects h2 = hp_objects h1" by (auto simp: peerDiscoveryOf_def split: option.splits)
  then show ?thesis
    using assms(1) o d
    by (auto simp: createRelayLibp2p_def options' createLibp2pAndUpdateOptions_def libp2pOptionsOf_def Let_def rbind_eq_Inr defaultLibp2p_def
        jm_keys_def jm_set_def split: option.splits)
qed

end
