(* ===== verification/Bloom.thy ===== *)
theory Bloom
  imports Complex_Main WakuPrelude
begin

text \<open>
  \<open>packages/sds/src/probabilities.ts\<close> and \<open>bloom.ts\<close>: the table of false positive rates, the search for the bits per element, and the
  sizes that the constructor of a filter computes. \<open>insert\<close> and \<open>lookup\<close> are abstract methods without an implementation. The rates are
  numbers of single precision, here the rational numbers that they are; \<open>Math.log\<close>, which ECMAScript leaves to the implementation, is a
  parameter, and the arithmetic on its results is exact here.
\<close>

section \<open>probabilities.ts\<close>

text \<open>\<open>Float32Array\<close> rounds its elements, given in units of \<open>1e-10\<close>, to 24 significant bits.\<close>

fun float32_scale :: "nat \<Rightarrow> nat \<Rightarrow> nat \<Rightarrow> nat" where
  "float32_scale 0 n s = s"
| "float32_scale (Suc fuel) n s = (if 2 ^ 23 * 10 ^ 10 \<le> n * 2 ^ s then s else float32_scale fuel n (s + 1))"

definition float32 :: "nat \<Rightarrow> rat" where
  "float32 n =
     (let s = float32_scale 64 n 0; q = n * 2 ^ s div 10 ^ 10; r = n * 2 ^ s mod 10 ^ 10
      in of_nat (if 10 ^ 10 < 2 * r \<or> 2 * r = 10 ^ 10 \<and> odd q then q + 1 else q) / 2 ^ s)"

definition kErrors_units :: "nat list list" where
  "kErrors_units =
     [[10000000000],
      [10000000000, 10000000000, 3930000000, 2830000000, 2210000000, 1810000000, 1540000000, 1330000000, 1180000000,
       1050000000, 952000000, 869000000, 800000000, 740000000, 689000000, 645000000, 606000000, 571000000, 540000000,
       513000000, 488000000, 465000000, 444000000, 425000000, 408000000, 392000000, 377000000, 364000000, 351000000,
       339000000, 328000000, 317000000, 308000000],
      [10000000000, 10000000000, 4000000000, 2370000000, 1550000000, 1090000000, 804000000, 618000000, 489000000, 397000000,
       329000000, 276000000, 236000000, 203000000, 177000000, 156000000, 138000000, 123000000, 111000000, 99800000, 90600000,
       82500000, 75500000, 69400000, 63900000, 59100000, 54800000, 51000000, 47500000, 44400000, 41600000, 39000000, 36700000],
      [10000000000, 10000000000, 10000000000, 2530000000, 1470000000, 920000000, 609000000, 423000000, 306000000, 228000000,
       174000000, 136000000, 108000000, 87500000, 71800000, 59600000, 108000000, 87500000, 71800000, 59600000, 50000000,
       42300000, 36200000, 31200000, 27000000, 23600000, 20700000, 18300000, 16200000, 14500000, 12900000, 11600000, 10500000,
       9490000, 8620000, 7850000, 7170000],
      [10000000000, 10000000000, 10000000000, 10000000000, 1600000000, 920000000, 561000000, 359000000, 240000000, 166000000,
       118000000, 86400000, 64600000, 49200000, 38100000, 30000000, 23900000, 19300000, 15800000, 13000000, 10800000, 9050000,
       7640000, 6490000, 5550000, 4780000, 4130000, 3590000, 3140000, 2760000, 2430000, 2150000, 1910000],
      [10000000000, 10000000000, 10000000000, 10000000000, 10000000000, 1010000000, 578000000, 347000000, 217000000,
       141000000, 94300000, 65000000, 45900000, 33200000, 24400000, 18300000, 13900000, 10700000, 8390000, 6630000, 5300000,
       4270000, 3470000, 2850000, 2350000, 1960000, 1640000, 1380000, 1170000, 996000, 853000, 733000, 633000],
      [10000000000, 10000000000, 10000000000, 10000000000, 10000000000, 10000000000, 638000000, 364000000, 216000000,
       133000000, 84400000, 55200000, 37100000, 25500000, 17900000, 12800000, 9350000, 6920000, 5190000, 3940000, 3030000,
       2360000, 1850000, 1470000, 1170000, 944000, 766000, 626000, 515000, 426000, 355000, 297000, 250000],
      [10000000000, 10000000000, 10000000000, 10000000000, 10000000000, 10000000000, 10000000000, 10000000000, 229000000,
       135000000, 81900000, 51300000, 32900000, 21700000, 14600000, 10000000, 7020000, 4990000, 3600000, 2640000, 1960000,
       1470000, 1120000, 856000, 663000, 518000, 408000, 324000, 259000, 209000, 169000, 138000, 113000],
      [10000000000, 10000000000, 10000000000, 10000000000, 10000000000, 10000000000, 10000000000, 10000000000, 10000000000,
       145000000, 84600000, 50900000, 31400000, 19900000, 12900000, 8520000, 5740000, 3940000, 2750000, 1940000, 1400000,
       1010000, 746000, 555000, 417000, 316000, 242000, 187000, 146000, 114000, 90100, 71600, 57300],
      [10000000000, 10000000000, 10000000000, 10000000000, 10000000000, 10000000000, 10000000000, 10000000000, 10000000000,
       10000000000, 10000000000, 53100000, 31700000, 19400000, 12100000, 7750000, 5050000, 3350000, 2260000, 1550000, 1080000,
       759000, 542000, 392000, 286000, 211000, 157000, 118000, 89600, 68500, 52800, 41000, 32000],
      [10000000000, 10000000000, 10000000000, 10000000000, 10000000000, 10000000000, 10000000000, 10000000000, 10000000000,
       10000000000, 10000000000, 10000000000, 33400000, 19800000, 12000000, 7440000, 4700000, 3020000, 1980000, 1320000,
       889000, 609000, 423000, 297000, 211000, 152000, 110000, 80700, 59700, 44500, 33500, 25400, 19400],
      [10000000000, 10000000000, 10000000000, 10000000000, 10000000000, 10000000000, 10000000000, 10000000000, 10000000000,
       10000000000, 10000000000, 10000000000, 10000000000, 21000000, 12400000, 7470000, 4590000, 2870000, 1830000, 1180000,
       777000, 518000, 350000, 240000, 166000, 116000, 82300, 58900, 42500, 31000, 22800, 16900, 12600],
      [10000000000, 10000000000, 10000000000, 10000000000, 10000000000, 10000000000, 10000000000, 10000000000, 10000000000,
       10000000000, 10000000000, 10000000000, 10000000000, 10000000000, 10000000000, 7780000, 4660000, 2840000, 1760000,
       1110000, 712000, 463000, 305000, 204000, 138000, 94200, 65200, 45600, 32200, 22900, 16500, 12000, 8740]]"

definition kErrors :: "rat list list" where
  "kErrors = map (map float32) kErrors_units"

text \<open>The loop from 2; an index outside of the table is a \<open>TypeError\<close> at its \<open>length\<close>.\<close>

definition getMOverNBitsForK :: "int \<Rightarrow> rat \<Rightarrow> rat list list \<Rightarrow> nat res" where
  "getMOverNBitsForK k targetError probabilityTable =
     (if k < 0 \<or> k > 12 then Inl (Error ''k must be <= 12.'')
      else if length probabilityTable \<le> nat k then Inl TypeError
      else let row = probabilityTable ! nat k
           in case find (\<lambda>mOverN. row ! mOverN < targetError) [2..<length row] of
                Some mOverN \<Rightarrow> Inr mOverN
              | None \<Rightarrow> Inl (Error ''Specified value of k and error rate not achievable using less than 4 bytes / element.''))"

section \<open>bloom.ts\<close>

record bloomOptions =
  bo_capacity :: int
  bo_errorRate :: rat
  bo_kHashes :: "int option"
  bo_forceNBitsPerElem :: "int option"

record bloomFilter =
  bf_totalBits :: int
  bf_data :: "8 word list"

text \<open>\<open>new Uint8Array(n / d)\<close>: the length is cut down to an integer, which must not be negative.\<close>

definition newUint8Array :: "int \<Rightarrow> int \<Rightarrow> 8 word list res" where
  "newUint8Array n d = (let len = js_quot n d in if len < 0 \<or> len > 2 ^ 53 - 1 then Inl RangeError else Inr (replicate (nat len) 0))"

text \<open>\<open>Math.ceil(-1.0 * (Math.log(errorRate) / Math.pow(Math.log(2), 2)))\<close>; \<open>k\<close> is not stored.\<close>

definition bitsPerElem :: "(rat \<Rightarrow> rat) \<Rightarrow> rat \<Rightarrow> int" where
  "bitsPerElem mathLog errorRate = \<lceil>- (mathLog errorRate / (mathLog 2) ^ 2)\<rceil>"

definition newBloomFilter :: "(rat \<Rightarrow> rat) \<Rightarrow> bloomOptions \<Rightarrow> bloomFilter res" where
  "newBloomFilter mathLog options =
     (let k = nullish (bo_kHashes options) 0; forceNBitsPerElem = nullish (bo_forceNBitsPerElem options) 0
      in rbind (if k < 1 then Inr (bitsPerElem mathLog (bo_errorRate options))
                else if forceNBitsPerElem < 1 then rbind (getMOverNBitsForK k (bo_errorRate options) kErrors) (\<lambda>m. Inr (int m))
                else Inr forceNBitsPerElem)
           (\<lambda>nBitsPerElem.
              let mBits = bo_capacity options * nBitsPerElem
              in rbind (newUint8Array (8 + mBits) 8) (\<lambda>data. Inr \<lparr>bf_totalBits = mBits, bf_data = data\<rparr>)))"

section \<open>Lemmas\<close>

lemma float32_scale_numeral [simp]:
  "float32_scale (numeral v) n s = (if 2 ^ 23 * 10 ^ 10 \<le> n * 2 ^ s then s else float32_scale (pred_numeral v) n (s + 1))"
  by (simp only: numeral_eq_Suc [of v] float32_scale.simps)

lemma find_upt: "find P [a..<b] = Some m \<longleftrightarrow> a \<le> m \<and> m < b \<and> P m \<and> (\<forall>i. a \<le> i \<and> i < m \<longrightarrow> \<not> P i)"
proof -
  have "find P [a..<b] = Some m \<longleftrightarrow> (\<exists>i < length [a..<b]. P ([a..<b] ! i) \<and> m = [a..<b] ! i \<and> (\<forall>j < i. \<not> P ([a..<b] ! j)))"
    by (rule find_Some_iff)
  also have "\<dots> \<longleftrightarrow> a \<le> m \<and> m < b \<and> P m \<and> (\<forall>i. a \<le> i \<and> i < m \<longrightarrow> \<not> P i)"
  proof (intro iffI; elim exE conjE)
    fix i assume i: "i < length [a..<b]" "P ([a..<b] ! i)" "m = [a..<b] ! i" "\<forall>j < i. \<not> P ([a..<b] ! j)"
    have "\<not> P j" if "a \<le> j" "j < m" for j using i that by (auto dest: spec [of _ "j - a"])
    then show "a \<le> m \<and> m < b \<and> P m \<and> (\<forall>i. a \<le> i \<and> i < m \<longrightarrow> \<not> P i)" using i by auto
  next
    assume "a \<le> m" "m < b" "P m" "\<forall>i. a \<le> i \<and> i < m \<longrightarrow> \<not> P i"
    then show "\<exists>i < length [a..<b]. P ([a..<b] ! i) \<and> m = [a..<b] ! i \<and> (\<forall>j < i. \<not> P ([a..<b] ! j))"
      by (intro exI [of _ "m - a"]) auto
  qed
  finally show ?thesis .
qed

lemma list_all_upt: "list_all P (map f [a..<b]) \<Longrightarrow> a \<le> i \<Longrightarrow> i < b \<Longrightarrow> P (f i)"
  by (simp add: list_all_iff)

lemma kErrors_lengths: "map length kErrors = [1, 33, 33, 37, 33, 33, 33, 33, 33, 33, 33, 33, 33]"
  by (simp add: kErrors_def kErrors_units_def)

text \<open>
  The table is indexed by bits per element, but its row for three hash functions repeats four entries: from 16 bits on, each rate stands
  four places too late. At 16 bits it has the rate of 12 bits, although more bits never do worse: the rate is that of an ideal filter,
  which at 16 bits is below \<open>0.0066\<close>.
\<close>

lemma row_of_three_repeats:
  "take 4 (drop 12 (kErrors ! 3)) = take 4 (drop 16 (kErrors ! 3)) \<and> length (kErrors ! 3) = 33 + 4 \<and>
   kErrors ! 3 ! 15 < kErrors ! 3 ! 16"
proof (intro conjI)
  show "take 4 (drop 12 (kErrors ! 3)) = take 4 (drop 16 (kErrors ! 3))" "length (kErrors ! 3) = 33 + 4"
    by (simp_all add: kErrors_def kErrors_units_def)
  have "kErrors ! 3 ! 15 = float32 59600000" "kErrors ! 3 ! 16 = float32 108000000" by (simp_all add: kErrors_def kErrors_units_def)
  then show "kErrors ! 3 ! 15 < kErrors ! 3 ! 16" by (simp add: float32_def Let_def)
qed

lemma ideal_rate_at_16_bits: "(1 - exp (- (3 / 16 :: real))) ^ 3 < 66 / 10000"
proof -
  have "1 - exp (- (3 / 16 :: real)) \<le> 3 / 16" using exp_ge_add_one_self [of "- (3 / 16 :: real)"] by simp
  moreover have "0 \<le> 1 - exp (- (3 / 16 :: real))" by simp
  ultimately have "(1 - exp (- (3 / 16 :: real))) ^ 3 \<le> (3 / 16) ^ 3" by (intro power_mono)
  also have "\<dots> < 66 / 10000" by (simp add: power3_eq_cube)
  finally show ?thesis .
qed

text \<open>The example of the documentation, three hash functions and a rate of one per cent, gives 13 bits and not 5.\<close>

lemma documented_example: "getMOverNBitsForK 3 (1 / 100) kErrors = Inr 13"
proof -
  let ?row = "kErrors ! 3"
  have row: "length ?row = 37" "map (\<lambda>i. ?row ! i) [2..<13] = map float32 [10000000000, 2530000000, 1470000000, 920000000, 609000000,
      423000000, 306000000, 228000000, 174000000, 136000000, 108000000]" "?row ! 13 = float32 87500000"
    by (simp_all add: kErrors_def kErrors_units_def upt_rec_numeral)
  have "list_all (\<lambda>n. \<not> float32 n < 1 / 100) [10000000000, 2530000000, 1470000000, 920000000, 609000000, 423000000, 306000000, 228000000,
      174000000, 136000000, 108000000]" and small: "float32 87500000 < 1 / 100"
    by (simp_all only: list.pred_inject simp_thms) (simp_all add: float32_def Let_def)
  then have "list_all (\<lambda>x. \<not> x < 1 / 100) (map (\<lambda>i. ?row ! i) [2..<13])" unfolding row(2) by (simp add: list_all_iff)
  then have "\<not> ?row ! i < 1 / 100" if "2 \<le> i" "i < 13" for i using that by (rule list_all_upt)
  moreover have "?row ! 13 < 1 / 100" using small by (simp only: row(3))
  ultimately have "find (\<lambda>m. ?row ! m < 1 / 100) [2..<length ?row] = Some 13" unfolding find_upt row(1) by (intro conjI) simp_all
  moreover have "length kErrors = 13" by (simp add: kErrors_def kErrors_units_def)
  ultimately show ?thesis by (simp add: getMOverNBitsForK_def Let_def)
qed

section \<open>Properties\<close>

text \<open>The search returns the least number of bits per element, from 2 on, whose rate is below the target, and throws when there is none
  or when the number of hash functions is out of range.\<close>

lemma getMOverNBitsForK_least:
  "getMOverNBitsForK k targetError kErrors =
     (if k < 0 \<or> k > 12 then Inl (Error ''k must be <= 12.'')
      else if \<exists>m \<in> {2..<length (kErrors ! nat k)}. kErrors ! nat k ! m < targetError
      then Inr (LEAST m. 2 \<le> m \<and> m < length (kErrors ! nat k) \<and> kErrors ! nat k ! m < targetError)
      else Inl (Error ''Specified value of k and error rate not achievable using less than 4 bytes / element.''))"
proof (cases "k < 0 \<or> k > 12")
  case True
  then show ?thesis by (simp add: getMOverNBitsForK_def)
next
  case False
  let ?row = "kErrors ! nat k"
  let ?P = "\<lambda>m. 2 \<le> m \<and> m < length ?row \<and> ?row ! m < targetError"
  have "length kErrors = 13" by (simp add: kErrors_def kErrors_units_def)
  then have rows: "\<not> length kErrors \<le> nat k" using False by linarith
  show ?thesis
  proof (cases "find (\<lambda>m. ?row ! m < targetError) [2..<length ?row]")
    case None
    then have "\<not> (\<exists>m \<in> {2..<length ?row}. ?row ! m < targetError)" by (auto simp: find_None_iff)
    then show ?thesis using False rows None by (simp add: getMOverNBitsForK_def Let_def)
  next
    case (Some m)
    then have m: "?P m" "\<forall>i. 2 \<le> i \<and> i < m \<longrightarrow> \<not> ?row ! i < targetError" by (simp_all add: find_upt)
    then have "(LEAST m. ?P m) = m" by (intro Least_equality) (auto simp: not_less [symmetric])
    moreover have "\<exists>m \<in> {2..<length ?row}. ?row ! m < targetError" using m by auto
    ultimately show ?thesis using False rows Some by (simp add: getMOverNBitsForK_def Let_def)
  qed
qed

text \<open>A filter has room for all its bits, and for less than nine more.\<close>

lemma bloom_filter_room:
  "newBloomFilter mathLog options = Inr B \<Longrightarrow> 0 \<le> bf_totalBits B \<Longrightarrow>
   bf_totalBits B < 8 * int (length (bf_data B)) \<and> 8 * int (length (bf_data B)) \<le> bf_totalBits B + 8"
proof -
  assume new: "newBloomFilter mathLog options = Inr B" and pos: "0 \<le> bf_totalBits B"
  then obtain data where data: "newUint8Array (8 + bf_totalBits B) 8 = Inr data" "bf_data B = data"
    by (auto simp: newBloomFilter_def Let_def rbind_eq_Inr split: if_splits)
  have "js_quot (8 + bf_totalBits B) 8 = (8 + bf_totalBits B) div 8" using pos by (simp add: js_quot_def)
  then have "int (length data) = (8 + bf_totalBits B) div 8"
    using data(1) pos by (auto simp: newUint8Array_def Let_def split: if_splits)
  then show ?thesis unfolding data(2) by presburger
qed

end
