(* ===== verification/Lifecycle.thy ===== *)
theory Lifecycle
  imports Waku SdkFilter ConnectionManager
begin

text \<open>
  The life of a light node: which event listeners its parts register when it is made, started and stopped, in the order of their
  registration. An \<open>EventTarget\<close> calls its listeners in that order, and ignores one that is registered twice.
\<close>

section \<open>waku.ts: dial\<close>

definition waku_dial ::
  "(string \<Rightarrow> string list \<Rightarrow> 'stream res) \<Rightarrow> cmEnv \<Rightarrow> wakuNode \<Rightarrow> dialInput \<Rightarrow> waku_protocol list option \<Rightarrow> 'stream res" where
  "waku_dial dialProtocol E W peer protocols = rawDialPeerWithProtocols dialProtocol E peer (dialCodecs W protocols)"

text \<open>
  A dial opens a stream to the peer of the input for the codecs of the requested protocols that are mounted; an input without a peer id is
  refused and nothing is dialled.
\<close>

lemma waku_dial_outcome:
  "(waku_dial dialProtocol E W peer protocols = Inr stream \<longleftrightarrow>
     (\<exists>p. getDialablePeerInfo E peer = Inr p \<and> dialProtocol p (dialCodecs W protocols) = Inr stream)) \<and>
   (ce_multiaddrPeerId E a = Inr None \<longrightarrow>
     waku_dial dialProtocol E W (DialMultiaddr a) protocols = Inl (Error ''Failed to dial multiaddr: missing peer ID''))"
  by (auto simp: waku_dial_def rawDialPeerWithProtocols_def getDialablePeerInfo_def rbind_eq_Inr)

section \<open>Event targets\<close>

datatype eventTarget = Libp2pTarget | ComponentsTarget | GlobalTarget | ConnectionManagerTarget

text \<open>The functions that the parts register; the stream manager of a protocol is known by its codec, a monitor by its pubsub topic.\<close>

datatype handler =
    ConnectionManager_handler string
  | PeerManager_onConnected
  | PeerManager_onDisconnected
  | Health_onPeerChange
  | StreamManager_handlePeerUpdateStreamPool string
  | Monitor_onConnectionChange string
  | Monitor_onPeerConnected string
  | Monitor_onPeerDisconnected string

type_synonym listener = "eventTarget \<times> string \<times> handler"

definition addEventListeners :: "listener list \<Rightarrow> listener list \<Rightarrow> listener list" where
  "addEventListeners new ls = fold set_add new ls"

definition removeEventListeners :: "listener list \<Rightarrow> listener list \<Rightarrow> listener list" where
  "removeEventListeners old ls = filter (\<lambda>l. l \<notin> set old) ls"

text \<open>The functions that an event calls.\<close>

definition dispatched :: "eventTarget \<Rightarrow> string \<Rightarrow> listener list \<Rightarrow> handler list" where
  "dispatched t name ls = map (snd \<circ> snd) (filter (\<lambda>(t', name', h). t' = t \<and> name' = name) ls)"

section \<open>What the parts register\<close>

text \<open>\<open>startEventListeners\<close> of \<open>connection\_manager.ts\<close> and the four functions that it calls, in their order; \<open>stop\<close> of the same file\<close>

definition peerDiscovery_listeners :: "listener list" where
  "peerDiscovery_listeners = [(Libp2pTarget, ''peer:discovery'', ConnectionManager_handler ''peer:discovery'')]"

definition peerConnection_listeners :: "listener list" where
  "peerConnection_listeners = [(Libp2pTarget, ''peer:connect'', ConnectionManager_handler ''peer:connect'')]"

definition peerDisconnection_listeners :: "listener list" where
  "peerDisconnection_listeners = [(Libp2pTarget, ''peer:disconnect'', ConnectionManager_handler ''peer:disconnect'')]"

definition networkStatus_listeners :: "listener list" where
  "networkStatus_listeners =
     [(GlobalTarget, ''online'', ConnectionManager_handler ''browser:network''),
      (GlobalTarget, ''offline'', ConnectionManager_handler ''browser:network'')]"

definition connectionManager_listeners :: "listener list" where
  "connectionManager_listeners =
     peerDiscovery_listeners @ peerConnection_listeners @ peerDisconnection_listeners @ networkStatus_listeners"

definition stopNetworkStatusListener :: "listener list \<Rightarrow> listener list" where
  "stopNetworkStatusListener ls =
     removeEventListeners
       [(GlobalTarget, ''online'', ConnectionManager_handler ''browser:network''),
        (GlobalTarget, ''offline'', ConnectionManager_handler ''browser:network'')] ls"

definition connectionManager_stop :: "listener list \<Rightarrow> listener list" where
  "connectionManager_stop ls =
     stopNetworkStatusListener
       (removeEventListeners
          [(Libp2pTarget, ''peer:connect'', ConnectionManager_handler ''peer:connect''),
           (Libp2pTarget, ''peer:disconnect'', ConnectionManager_handler ''peer:disconnect''),
           (Libp2pTarget, ''peer:discovery'', ConnectionManager_handler ''peer:discovery'')] ls)"

text \<open>\<open>startConnectionListener\<close> of \<open>peer\_manager.ts\<close>\<close>

definition peerManager_listeners :: "listener list" where
  "peerManager_listeners =
     [(Libp2pTarget, ''peer:connect'', PeerManager_onConnected), (Libp2pTarget, ''peer:disconnect'', PeerManager_onDisconnected)]"

definition peerManager_stop :: "listener list \<Rightarrow> listener list" where
  "peerManager_stop ls =
     removeEventListeners
       [(Libp2pTarget, ''peer:connect'', PeerManager_onConnected), (Libp2pTarget, ''peer:disconnect'', PeerManager_onDisconnected)] ls"

text \<open>\<open>start\<close> and \<open>stop\<close> of \<open>health\_indicator.ts\<close>\<close>

definition health_listeners :: "listener list" where
  "health_listeners =
     [(Libp2pTarget, ''peer:connect'', Health_onPeerChange), (Libp2pTarget, ''peer:disconnect'', Health_onPeerChange)]"

definition health_stop :: "listener list \<Rightarrow> listener list" where
  "health_stop ls =
     removeEventListeners [(Libp2pTarget, ''peer:connect'', Health_onPeerChange), (Libp2pTarget, ''peer:disconnect'', Health_onPeerChange)] ls"

text \<open>The constructor of \<open>stream\_manager.ts\<close>, called by \<open>BaseProtocol\<close>\<close>

definition streamManager_listeners :: "string \<Rightarrow> listener list" where
  "streamManager_listeners multicodec = [(ComponentsTarget, ''peer:update'', StreamManager_handlePeerUpdateStreamPool multicodec)]"

text \<open>\<open>startConnectionListener\<close>, \<open>startPeerConnectionListener\<close> and what stops them, of \<open>subscription\_monitor.ts\<close>\<close>

definition monitor_startConnectionListener :: "string \<Rightarrow> listener list" where
  "monitor_startConnectionListener pubsubTopic = [(ConnectionManagerTarget, ''waku:connection'', Monitor_onConnectionChange pubsubTopic)]"

definition monitor_startPeerConnectionListener :: "string \<Rightarrow> listener list" where
  "monitor_startPeerConnectionListener pubsubTopic =
     [(Libp2pTarget, ''peer:connect'', Monitor_onPeerConnected pubsubTopic),
      (Libp2pTarget, ''peer:disconnect'', Monitor_onPeerDisconnected pubsubTopic)]"

definition monitor_listeners :: "string \<Rightarrow> listener list" where
  "monitor_listeners pubsubTopic = monitor_startConnectionListener pubsubTopic @ monitor_startPeerConnectionListener pubsubTopic"

definition monitor_stopConnectionListener :: "string \<Rightarrow> listener list \<Rightarrow> listener list" where
  "monitor_stopConnectionListener pubsubTopic ls =
     removeEventListeners [(ConnectionManagerTarget, ''waku:connection'', Monitor_onConnectionChange pubsubTopic)] ls"

definition monitor_stopPeerConnectionListener :: "string \<Rightarrow> listener list \<Rightarrow> listener list" where
  "monitor_stopPeerConnectionListener pubsubTopic ls =
     removeEventListeners
       [(Libp2pTarget, ''peer:connect'', Monitor_onPeerConnected pubsubTopic),
        (Libp2pTarget, ''peer:disconnect'', Monitor_onPeerDisconnected pubsubTopic)] ls"

section \<open>The node\<close>

text \<open>
  \<open>nd\_awaiting\<close> has the topics of the monitors whose \<open>onConnectionChange\<close> awaits the answers to its pings. The metadata service has
  been made with libp2p, before the node.
\<close>

record nodeState =
  nd_listeners :: "listener list"
  nd_running :: bool
  nd_subs :: "(string, unit subscription) jsmap"
  nd_awaiting :: "string list"

definition MetadataCodec :: string where "MetadataCodec = ''/vac/waku/metadata/1.0.0''"

definition constructed :: "wakuNode \<Rightarrow> listener list" where
  "constructed W =
     streamManager_listeners MetadataCodec @ connectionManager_listeners @ peerManager_listeners @
     (if wn_store W then streamManager_listeners StoreCodec else []) @
     (if wn_lightPush W then streamManager_listeners LightPushCodec else []) @
     (if wn_filter W then streamManager_listeners FilterSubscribeCodec else [])"

definition newNode :: "wakuNode \<Rightarrow> nodeState" where
  "newNode W = \<lparr>nd_listeners = addEventListeners (constructed W) [], nd_running = False, nd_subs = [], nd_awaiting = []\<rparr>"

definition node_start :: "nodeState \<Rightarrow> nodeState" where
  "node_start N = N\<lparr>nd_running := True, nd_listeners := addEventListeners health_listeners (nd_listeners N)\<rparr>"

definition node_stop :: "nodeState \<Rightarrow> nodeState" where
  "node_stop N =
     N\<lparr>nd_listeners := connectionManager_stop (peerManager_stop (health_stop (nd_listeners N))), nd_running := False\<rparr>"

text \<open>A monitor that is started or stopped twice does nothing the second time.\<close>

definition subOf :: "string \<Rightarrow> nodeState \<Rightarrow> unit subscription" where
  "subOf t N = nullish (jm_get (nd_subs N) t) (newSubscription t)"

definition node_monitorStart :: "string \<Rightarrow> nodeState \<Rightarrow> nodeState" where
  "node_monitorStart t N =
     N\<lparr>nd_subs := jm_set t (monitor_start (subOf t N)) (nd_subs N),
       nd_listeners := (if su_isStarted (subOf t N) then nd_listeners N else addEventListeners (monitor_listeners t) (nd_listeners N))\<rparr>"

definition node_monitorStop :: "string \<Rightarrow> nodeState \<Rightarrow> nodeState" where
  "node_monitorStop t N =
     N\<lparr>nd_subs := jm_set t (monitor_stop (subOf t N)) (nd_subs N),
       nd_listeners := (if su_isStarted (subOf t N) then monitor_stopPeerConnectionListener t (monitor_stopConnectionListener t (nd_listeners N))
                        else nd_listeners N)\<rparr>"

text \<open>The connection manager dispatches a new connection status; each monitor that listens stops its timer, or pings its peers first.\<close>

definition connectionChange :: "bool \<Rightarrow> string \<Rightarrow> nodeState \<Rightarrow> nodeState" where
  "connectionChange b t N =
     N\<lparr>nd_subs := jm_set t (fst (monitor_onConnectionChange b (subOf t N))) (nd_subs N),
       nd_awaiting := (if b then nd_awaiting N @ [t] else nd_awaiting N)\<rparr>"

definition node_connectionStatus :: "bool \<Rightarrow> nodeState \<Rightarrow> nodeState" where
  "node_connectionStatus b N =
     fold (\<lambda>h N. case h of Monitor_onConnectionChange t \<Rightarrow> connectionChange b t N | _ \<Rightarrow> N)
       (dispatched ConnectionManagerTarget ''waku:connection'' (nd_listeners N)) N"

definition node_pingsAnswered :: "string \<Rightarrow> nodeState \<Rightarrow> nodeState" where
  "node_pingsAnswered t N =
     (if t \<in> set (nd_awaiting N)
      then N\<lparr>nd_subs := jm_set t (monitor_onConnectionChange_end (subOf t N)) (nd_subs N), nd_awaiting := remove1 t (nd_awaiting N)\<rparr>
      else N)"

datatype nodeEvent =
    NodeStart | NodeStop | MonitorStarts string | MonitorStops string | ConnectionStatus bool | PingsAnswered string

fun nodeExec :: "nodeEvent \<Rightarrow> nodeState \<Rightarrow> nodeState" where
  "nodeExec NodeStart N = node_start N"
| "nodeExec NodeStop N = node_stop N"
| "nodeExec (MonitorStarts t) N = node_monitorStart t N"
| "nodeExec (MonitorStops t) N = node_monitorStop t N"
| "nodeExec (ConnectionStatus b) N = node_connectionStatus b N"
| "nodeExec (PingsAnswered t) N = node_pingsAnswered t N"

section \<open>Lemmas\<close>

lemma set_addEventListeners [simp]: "set (addEventListeners new ls) = set ls \<union> set new"
  by (induction new arbitrary: ls) (simp_all add: addEventListeners_def)

lemma set_removeEventListeners [simp]: "set (removeEventListeners old ls) = set ls - set old"
  by (auto simp: removeEventListeners_def)

lemma removeEventListeners_twice: "removeEventListeners b (removeEventListeners a ls) = removeEventListeners (a @ b) ls"
  by (auto simp: removeEventListeners_def intro: filter_cong)

text \<open>What is stopped is what was started.\<close>

lemma stops_what_started [simp]:
  "connectionManager_stop ls = removeEventListeners connectionManager_listeners ls"
  "peerManager_stop ls = removeEventListeners peerManager_listeners ls"
  "health_stop ls = removeEventListeners health_listeners ls"
  "monitor_stopPeerConnectionListener t (monitor_stopConnectionListener t ls) = removeEventListeners (monitor_listeners t) ls"
proof -
  have order: "{a, b, c} \<union> {d, e} = {c} \<union> ({a} \<union> ({b} \<union> {d, e}))" for a b c d e :: listener by blast
  show "connectionManager_stop ls = removeEventListeners connectionManager_listeners ls"
    unfolding connectionManager_stop_def stopNetworkStatusListener_def removeEventListeners_twice
      connectionManager_listeners_def peerDiscovery_listeners_def peerConnection_listeners_def peerDisconnection_listeners_def
      networkStatus_listeners_def
    unfolding removeEventListeners_def set_append list.set by (subst order) (rule refl)
  show "peerManager_stop ls = removeEventListeners peerManager_listeners ls"
    unfolding peerManager_stop_def peerManager_listeners_def ..
  show "health_stop ls = removeEventListeners health_listeners ls" unfolding health_stop_def health_listeners_def ..
  show "monitor_stopPeerConnectionListener t (monitor_stopConnectionListener t ls) = removeEventListeners (monitor_listeners t) ls"
    unfolding monitor_stopPeerConnectionListener_def monitor_stopConnectionListener_def removeEventListeners_twice monitor_listeners_def
      monitor_startConnectionListener_def monitor_startPeerConnectionListener_def ..
qed

lemma distinct_addEventListeners: "distinct ls \<Longrightarrow> distinct (addEventListeners new ls)"
  by (induction new arbitrary: ls) (simp_all add: addEventListeners_def set_add_def)

lemma distinct_removeEventListeners: "distinct ls \<Longrightarrow> distinct (removeEventListeners old ls)"
  by (simp add: removeEventListeners_def)

text \<open>Adding keeps what is there at its place.\<close>

lemma addEventListeners_prefix: "\<exists>rest. addEventListeners new ls = ls @ rest"
proof (induction new arbitrary: ls)
  case (Cons l new)
  obtain rest where "addEventListeners new (set_add l ls) = set_add l ls @ rest" using Cons.IH by blast
  then show ?case by (auto simp: addEventListeners_def set_add_def)
qed (simp add: addEventListeners_def)

lemma subOf_set [simp]:
  "subOf t (N\<lparr>nd_subs := jm_set t' S (nd_subs N)\<rparr>) = (if t = t' then S else subOf t N)"
  "subOf t (N\<lparr>nd_listeners := ls\<rparr>) = subOf t N" "subOf t (N\<lparr>nd_awaiting := a\<rparr>) = subOf t N" "subOf t (N\<lparr>nd_running := b\<rparr>) = subOf t N"
  "subOf t (N\<lparr>nd_subs := jm_set t' S (nd_subs N), nd_awaiting := a\<rparr>) = (if t = t' then S else subOf t N)"
  by (auto simp: subOf_def)

lemma monitor_fields [simp]:
  "su_isStarted (monitor_start S)" "\<not> su_isStarted (monitor_stop S)" "su_isStarted (fst (monitor_onConnectionChange b S)) = su_isStarted S"
  "su_isStarted (monitor_onConnectionChange_end S) = su_isStarted S" "\<not> su_isStarted (newSubscription t)"
  by (simp_all add: monitor_start_def monitor_stop_def monitor_onConnectionChange_def monitor_onConnectionChange_end_def newSubscription_def)

lemma connectionStatus_fields:
  "nd_listeners (node_connectionStatus b N) = nd_listeners N \<and> nd_running (node_connectionStatus b N) = nd_running N \<and>
   su_isStarted (subOf t (node_connectionStatus b N)) = su_isStarted (subOf t N)"
proof -
  have "nd_listeners (fold f hs N) = nd_listeners N \<and> nd_running (fold f hs N) = nd_running N \<and>
      su_isStarted (subOf t (fold f hs N)) = su_isStarted (subOf t N)"
    if "f = (\<lambda>h N. case h of Monitor_onConnectionChange t \<Rightarrow> connectionChange b t N | _ \<Rightarrow> N)" for f hs
    unfolding that by (induction hs arbitrary: N) (auto simp: connectionChange_def split: handler.split)
  then show ?thesis by (simp add: node_connectionStatus_def)
qed

text \<open>The listeners that are there: \<open>stopped\<close> says whether the node was ever stopped.\<close>

definition expected :: "wakuNode \<Rightarrow> bool \<Rightarrow> bool \<Rightarrow> (string \<Rightarrow> bool) \<Rightarrow> listener set" where
  "expected W stopped running monitored =
     {l \<in> set (constructed W). fst l = ComponentsTarget \<or> \<not> stopped} \<union> (if running then set health_listeners else {}) \<union>
     (\<Union>t \<in> {t. monitored t}. set (monitor_listeners t))"

definition nodeInv :: "wakuNode \<Rightarrow> bool \<Rightarrow> nodeState \<Rightarrow> bool" where
  "nodeInv W stopped N \<longleftrightarrow> distinct (nd_listeners N) \<and>
     set (nd_listeners N) = expected W stopped (nd_running N) (\<lambda>t. su_isStarted (subOf t N)) \<and>
     (stopped \<or> (\<exists>rest. nd_listeners N = addEventListeners (constructed W) [] @ rest))"

lemma connectionManager_listeners_eq:
  "connectionManager_listeners =
     [(Libp2pTarget, ''peer:discovery'', ConnectionManager_handler ''peer:discovery''),
      (Libp2pTarget, ''peer:connect'', ConnectionManager_handler ''peer:connect''),
      (Libp2pTarget, ''peer:disconnect'', ConnectionManager_handler ''peer:disconnect''),
      (GlobalTarget, ''online'', ConnectionManager_handler ''browser:network''),
      (GlobalTarget, ''offline'', ConnectionManager_handler ''browser:network'')]"
  by (simp add: connectionManager_listeners_def peerDiscovery_listeners_def peerConnection_listeners_def peerDisconnection_listeners_def
      networkStatus_listeners_def)

lemma monitor_listeners_eq:
  "monitor_listeners t =
     [(ConnectionManagerTarget, ''waku:connection'', Monitor_onConnectionChange t),
      (Libp2pTarget, ''peer:connect'', Monitor_onPeerConnected t), (Libp2pTarget, ''peer:disconnect'', Monitor_onPeerDisconnected t)]"
  by (simp add: monitor_listeners_def monitor_startConnectionListener_def monitor_startPeerConnectionListener_def)

text \<open>A listener belongs to one part: its handler tells which.\<close>

lemma handler_of:
  "l \<in> set health_listeners \<Longrightarrow> snd (snd l) = Health_onPeerChange"
  "l \<in> set (monitor_listeners t) \<Longrightarrow>
     snd (snd l) \<in> {Monitor_onConnectionChange t, Monitor_onPeerConnected t, Monitor_onPeerDisconnected t}"
  "l \<in> set connectionManager_listeners \<Longrightarrow> \<exists>s. snd (snd l) = ConnectionManager_handler s"
  "l \<in> set peerManager_listeners \<Longrightarrow> snd (snd l) \<in> {PeerManager_onConnected, PeerManager_onDisconnected}"
  "l \<in> set (streamManager_listeners c) \<Longrightarrow> snd (snd l) = StreamManager_handlePeerUpdateStreamPool c"
  by (auto simp: connectionManager_listeners_eq peerManager_listeners_def health_listeners_def streamManager_listeners_def
      monitor_listeners_eq)

definition streamManagers :: "wakuNode \<Rightarrow> listener set" where
  "streamManagers W = set (streamManager_listeners MetadataCodec) \<union> (if wn_store W then set (streamManager_listeners StoreCodec) else {}) \<union>
     (if wn_lightPush W then set (streamManager_listeners LightPushCodec) else {}) \<union>
     (if wn_filter W then set (streamManager_listeners FilterSubscribeCodec) else {})"

lemma set_constructed: "set (constructed W) = streamManagers W \<union> set connectionManager_listeners \<union> set peerManager_listeners"
  by (simp add: constructed_def streamManagers_def Un_ac)

lemma handler_streamManagers: "l \<in> streamManagers W \<Longrightarrow> \<exists>c. snd (snd l) = StreamManager_handlePeerUpdateStreamPool c"
  by (auto simp: streamManagers_def streamManager_listeners_def split: if_splits)

lemma target_of:
  "l \<in> streamManagers W \<Longrightarrow> fst l = ComponentsTarget" "l \<in> set connectionManager_listeners \<Longrightarrow> fst l \<noteq> ComponentsTarget"
  "l \<in> set peerManager_listeners \<Longrightarrow> fst l \<noteq> ComponentsTarget"
  by (auto simp: streamManagers_def streamManager_listeners_def connectionManager_listeners_eq peerManager_listeners_def split: if_splits)

lemma core_listeners: "{l \<in> set (constructed W). fst l = ComponentsTarget} = streamManagers W"
  unfolding set_constructed using target_of by blast

lemma not_both: "(\<And>l. l \<in> A \<Longrightarrow> P l) \<Longrightarrow> (\<And>l. l \<in> B \<Longrightarrow> \<not> P l) \<Longrightarrow> A \<inter> B = {}"
  by blast

lemma health_disjoint: "set health_listeners \<inter> set (constructed W) = {}"
  by (rule not_both [where P = "\<lambda>l. snd (snd l) = Health_onPeerChange"])
    (auto simp: set_constructed dest!: handler_of handler_streamManagers)

lemma monitor_disjoint:
  "set (monitor_listeners t) \<inter> set (constructed W) = {}" "set (monitor_listeners t) \<inter> set health_listeners = {}"
  "t \<noteq> t' \<Longrightarrow> set (monitor_listeners t) \<inter> set (monitor_listeners t') = {}"
  by (rule not_both [where P = "\<lambda>l. snd (snd l) \<in> {Monitor_onConnectionChange t, Monitor_onPeerConnected t, Monitor_onPeerDisconnected t}"],
      erule handler_of, force simp: set_constructed dest!: handler_of handler_streamManagers)+

lemma monitored_insert:
  "(\<Union>t' \<in> {t'. if t' = t then True else P t'}. set (monitor_listeners t')) = set (monitor_listeners t) \<union> (\<Union>t' \<in> {t'. P t'}. set (monitor_listeners t'))"
  by auto

lemma monitored_remove:
  "(\<Union>t' \<in> {t'. t' \<noteq> t \<and> P t'}. set (monitor_listeners t')) = (\<Union>t' \<in> {t'. P t'}. set (monitor_listeners t')) - set (monitor_listeners t)"
proof -
  have "l \<notin> set (monitor_listeners t)" if "l \<in> set (monitor_listeners t')" "t' \<noteq> t" for l t'
    using monitor_disjoint(3) [OF that(2)] that(1) by blast
  then show ?thesis by blast
qed

lemma removeEventListeners_prefix:
  "set old \<inter> set pre = {} \<Longrightarrow> removeEventListeners old (pre @ rest) = pre @ removeEventListeners old rest"
  by (auto simp: removeEventListeners_def filter_id_conv)

text \<open>New listeners go to the end.\<close>

lemma addEventListeners_new: "distinct new \<Longrightarrow> set new \<inter> set ls = {} \<Longrightarrow> addEventListeners new ls = ls @ new"
proof (induction new arbitrary: ls)
  case (Cons l new)
  then show ?case using Cons.IH [of "ls @ [l]"] by (simp add: addEventListeners_def set_add_def)
qed (simp add: addEventListeners_def)

lemma constructed_prefix:
  "\<exists>rest. addEventListeners (constructed W) [] =
     streamManager_listeners MetadataCodec @ connectionManager_listeners @ peerManager_listeners @ rest"
proof -
  let ?pre = "streamManager_listeners MetadataCodec @ connectionManager_listeners @ peerManager_listeners"
  have "distinct ?pre" by (simp add: streamManager_listeners_def connectionManager_listeners_eq peerManager_listeners_def)
  then have "addEventListeners ?pre [] = ?pre" using addEventListeners_new [of ?pre "[]"] by simp
  moreover obtain others where "constructed W = ?pre @ others" by (simp add: constructed_def)
  ultimately have "addEventListeners (constructed W) [] = addEventListeners others ?pre" by (simp add: addEventListeners_def)
  then show ?thesis using addEventListeners_prefix [of others ?pre] by auto
qed

lemma nodeInv_new: "nodeInv W False (newNode W)"
  by (auto simp: nodeInv_def newNode_def expected_def subOf_def jm_get_def intro: distinct_addEventListeners)

lemma nodeInv_start: "nodeInv W stopped N \<Longrightarrow> nodeInv W stopped (node_start N)"
  using addEventListeners_prefix [of health_listeners "nd_listeners N"]
  by (auto simp: nodeInv_def node_start_def expected_def intro: distinct_addEventListeners)

lemma stop_set:
  "h \<inter> (s \<union> k \<union> p) = {} \<Longrightarrow> m \<inter> (s \<union> k \<union> p) = {} \<Longrightarrow> m \<inter> h = {} \<Longrightarrow> s \<inter> (k \<union> p) = {} \<Longrightarrow>
   s \<subseteq> c \<Longrightarrow> c \<subseteq> s \<union> k \<union> p \<Longrightarrow> r \<subseteq> h \<Longrightarrow> c \<union> r \<union> m - h - p - k = s \<union> m"
  by blast

lemma nodeInv_stop: "nodeInv W stopped N \<Longrightarrow> nodeInv W True (node_stop N)"
proof -
  assume inv: "nodeInv W stopped N"
  let ?c = "{l \<in> set (constructed W). fst l = ComponentsTarget \<or> \<not> stopped}"
  let ?m = "\<Union>t \<in> {t. su_isStarted (subOf t N)}. set (monitor_listeners t)"
  have "set health_listeners \<inter> set (constructed W) = {}" by (rule health_disjoint)
  moreover have "?m \<inter> set (constructed W) = {}" "?m \<inter> set health_listeners = {}" using monitor_disjoint(1,2) by blast+
  moreover have "streamManagers W \<inter> (set connectionManager_listeners \<union> set peerManager_listeners) = {}" using target_of by blast
  moreover have "streamManagers W \<subseteq> ?c" "?c \<subseteq> set (constructed W)" using core_listeners [of W] by blast+
  ultimately have "?c \<union> (if nd_running N then set health_listeners else {}) \<union> ?m - set health_listeners - set peerManager_listeners -
      set connectionManager_listeners = streamManagers W \<union> ?m"
    unfolding set_constructed by (intro stop_set) simp_all
  then have "set (nd_listeners (node_stop N)) = expected W True False (\<lambda>t. su_isStarted (subOf t (node_stop N)))"
    using inv by (simp add: nodeInv_def node_stop_def expected_def core_listeners)
  moreover have "distinct (nd_listeners (node_stop N))"
    using inv by (simp add: nodeInv_def node_stop_def distinct_removeEventListeners)
  ultimately show ?thesis by (simp add: nodeInv_def) (simp add: node_stop_def)
qed

lemma nodeInv_monitorStart: "nodeInv W stopped N \<Longrightarrow> nodeInv W stopped (node_monitorStart t N)"
proof -
  assume inv: "nodeInv W stopped N"
  let ?N = "node_monitorStart t N"
  have "su_isStarted (subOf t N) \<Longrightarrow> set (monitor_listeners t) \<subseteq> set (nd_listeners N)"
    using inv by (auto simp: nodeInv_def expected_def)
  then have "set (nd_listeners ?N) = set (nd_listeners N) \<union> set (monitor_listeners t)"
    by (auto simp: node_monitorStart_def)
  moreover have "(\<lambda>t'. su_isStarted (subOf t' ?N)) = (\<lambda>t'. if t' = t then True else su_isStarted (subOf t' N))"
    by (auto simp: node_monitorStart_def fun_eq_iff)
  ultimately have "set (nd_listeners ?N) = expected W stopped (nd_running ?N) (\<lambda>t'. su_isStarted (subOf t' ?N))"
    using inv unfolding expected_def nodeInv_def by (simp only: monitored_insert) (simp add: node_monitorStart_def Un_ac)
  moreover have "distinct (nd_listeners ?N)"
    using inv by (simp add: nodeInv_def node_monitorStart_def distinct_addEventListeners)
  moreover have "\<exists>rest. nd_listeners ?N = nd_listeners N @ rest"
    using addEventListeners_prefix [of "monitor_listeners t" "nd_listeners N"]
    by (cases "su_isStarted (subOf t N)") (simp_all add: node_monitorStart_def)
  ultimately show ?thesis using inv unfolding nodeInv_def by auto
qed

lemma nodeInv_monitorStop: "nodeInv W stopped N \<Longrightarrow> nodeInv W stopped (node_monitorStop t N)"
proof -
  assume inv: "nodeInv W stopped N"
  let ?N = "node_monitorStop t N"
  let ?others = "{l \<in> set (constructed W). fst l = ComponentsTarget \<or> \<not> stopped} \<union> (if nd_running N then set health_listeners else {})"
  let ?m = "\<Union>t' \<in> {t'. su_isStarted (subOf t' N)}. set (monitor_listeners t')"
  have "?others \<subseteq> set (constructed W) \<union> set health_listeners" by auto
  then have others: "?others - set (monitor_listeners t) = ?others"
    using monitor_disjoint(1) [of t W] monitor_disjoint(2) [of t] by blast
  have "?m - set (monitor_listeners t) = ?m" if "\<not> su_isStarted (subOf t N)"
  proof -
    have "{t'. t' \<noteq> t \<and> su_isStarted (subOf t' N)} = {t'. su_isStarted (subOf t' N)}" using that by blast
    then show ?thesis using monitored_remove [of t "\<lambda>t'. su_isStarted (subOf t' N)"] by simp
  qed
  then have "set (nd_listeners ?N) = set (nd_listeners N) - set (monitor_listeners t)"
    using inv others by (auto simp: node_monitorStop_def nodeInv_def expected_def Un_Diff)
  also have "\<dots> = ?others \<union> (?m - set (monitor_listeners t))"
    using inv others by (simp add: nodeInv_def expected_def Un_Diff)
  also have "(\<lambda>t'. su_isStarted (subOf t' ?N)) = (\<lambda>t'. t' \<noteq> t \<and> su_isStarted (subOf t' N))"
    by (simp add: node_monitorStop_def fun_eq_iff)
  then have "?others \<union> (?m - set (monitor_listeners t)) = expected W stopped (nd_running ?N) (\<lambda>t'. su_isStarted (subOf t' ?N))"
    unfolding expected_def by (simp only: monitored_remove) (simp add: node_monitorStop_def)
  finally have "set (nd_listeners ?N) = expected W stopped (nd_running ?N) (\<lambda>t'. su_isStarted (subOf t' ?N))" .
  moreover have "distinct (nd_listeners ?N)"
    using inv by (simp add: nodeInv_def node_monitorStop_def distinct_removeEventListeners)
  moreover have "stopped \<or> (\<exists>rest. nd_listeners ?N = addEventListeners (constructed W) [] @ rest)"
  proof -
    have "set (monitor_listeners t) \<inter> set (addEventListeners (constructed W) []) = {}" using monitor_disjoint(1) [of t W] by simp
    then have "\<exists>rest'. removeEventListeners (monitor_listeners t) (addEventListeners (constructed W) [] @ rest) =
        addEventListeners (constructed W) [] @ rest'" for rest
      using removeEventListeners_prefix by blast
    then show ?thesis using inv unfolding nodeInv_def by (cases "su_isStarted (subOf t N)") (auto simp: node_monitorStop_def)
  qed
  ultimately show ?thesis by (simp add: nodeInv_def)
qed

lemma nodeInv_exec: "nodeInv W stopped N \<Longrightarrow> nodeInv W (stopped \<or> e = NodeStop) (nodeExec e N)"
proof -
  assume inv: "nodeInv W stopped N"
  have same: "nodeInv W stopped N'" if "nd_listeners N' = nd_listeners N" "nd_running N' = nd_running N"
      "\<And>t. su_isStarted (subOf t N') = su_isStarted (subOf t N)" for N'
    using inv that by (simp add: nodeInv_def)
  show ?thesis
    using nodeInv_start nodeInv_stop nodeInv_monitorStart nodeInv_monitorStop inv connectionStatus_fields
    by (cases e) (auto intro!: same simp: node_pingsAnswered_def split: if_splits)
qed

lemma nodeInv_run: "nodeInv W (NodeStop \<in> set es) (runEvents nodeExec es (newNode W))"
proof (induction es rule: rev_induct)
  case Nil
  then show ?case using nodeInv_new by (simp add: runEvents_def)
next
  case (snoc e es)
  then show ?case using nodeInv_exec [OF snoc.IH, of e] by (auto simp: runEvents_def disj_commute eq_commute)
qed

section \<open>Properties\<close>

text \<open>C34: Whatever is started and stopped, in any order, no function listens twice; the health indicator listens while the node runs and a
  monitor while it is started. The connection manager and the peer manager listen from the construction of the node until it is stopped for
  the first time, and a new connection calls them before any other part. After that they never
  listen again, whether the node is started again or not.\<close>

theorem node_listeners:
  "let N = runEvents nodeExec es (newNode W)
   in distinct (nd_listeners N) \<and>
      set (nd_listeners N) = expected W (NodeStop \<in> set es) (nd_running N) (\<lambda>t. su_isStarted (subOf t N)) \<and>
      (if NodeStop \<in> set es then PeerManager_onConnected \<notin> set (dispatched Libp2pTarget ''peer:connect'' (nd_listeners N))
       else take 2 (dispatched Libp2pTarget ''peer:connect'' (nd_listeners N)) =
              [ConnectionManager_handler ''peer:connect'', PeerManager_onConnected])"
proof -
  define N where "N = runEvents nodeExec es (newNode W)"
  have inv: "nodeInv W (NodeStop \<in> set es) N" unfolding N_def by (rule nodeInv_run)
  have "PeerManager_onConnected \<notin> set (dispatched Libp2pTarget ''peer:connect'' (nd_listeners N))" if "NodeStop \<in> set es"
  proof -
    have "snd (snd l) \<noteq> PeerManager_onConnected" if "l \<in> set (nd_listeners N)" for l
    proof -
      have "l \<in> streamManagers W \<or> l \<in> set health_listeners \<or> (\<exists>t. l \<in> set (monitor_listeners t))"
        using inv that \<open>NodeStop \<in> set es\<close> by (auto simp: nodeInv_def expected_def core_listeners split: if_splits)
      then show ?thesis using handler_of(1) [of l] handler_of(2) [of l] handler_streamManagers [of l W] by (elim disjE exE) auto
    qed
    then show ?thesis by (fastforce simp: dispatched_def)
  qed
  moreover have "take 2 (dispatched Libp2pTarget ''peer:connect'' (nd_listeners N)) =
      [ConnectionManager_handler ''peer:connect'', PeerManager_onConnected]" if "NodeStop \<notin> set es"
  proof -
    obtain rest where "nd_listeners N = addEventListeners (constructed W) [] @ rest" using inv \<open>NodeStop \<notin> set es\<close> by (auto simp: nodeInv_def)
    moreover obtain rest' where "addEventListeners (constructed W) [] =
        streamManager_listeners MetadataCodec @ connectionManager_listeners @ peerManager_listeners @ rest'"
      using constructed_prefix by blast
    ultimately show ?thesis
      by (simp add: dispatched_def streamManager_listeners_def connectionManager_listeners_eq peerManager_listeners_def)
  qed
  ultimately show ?thesis using inv unfolding N_def [symmetric] Let_def nodeInv_def by simp
qed

text \<open>
  A monitor that is stopped while it awaits the pings of a new connection starts its timer when they are answered: it goes on pinging,
  and nothing stops the timer.
\<close>

lemma dispatched_append [simp]: "dispatched tg n (ls @ ls') = dispatched tg n ls @ dispatched tg n ls'"
  by (simp add: dispatched_def)

lemma newNode_status: "dispatched ConnectionManagerTarget n (nd_listeners (newNode W)) = []"
proof -
  have "fst l \<noteq> ConnectionManagerTarget" if "l \<in> set (constructed W)" for l
    using that unfolding set_constructed
    by (auto dest: target_of(1) simp: connectionManager_listeners_eq peerManager_listeners_def)
  then show ?thesis by (fastforce simp: dispatched_def newNode_def filter_empty_conv)
qed

lemma stopped_monitor_pings:
  "let N = runEvents nodeExec [MonitorStarts t, ConnectionStatus True, MonitorStops t, PingsAnswered t] (newNode W)
   in \<not> su_isStarted (subOf t N) \<and> su_keepAlive (subOf t N) \<and> su_keepAlive (subOf t (node_monitorStop t N))"
proof -
  have new: "subOf t (newNode W) = newSubscription t" by (simp add: subOf_def newNode_def jm_get_def)
  have "distinct (monitor_listeners t)" by (simp add: monitor_listeners_eq)
  moreover have "set (monitor_listeners t) \<inter> set (nd_listeners (newNode W)) = {}" using monitor_disjoint(1) by (simp add: newNode_def)
  ultimately have "dispatched ConnectionManagerTarget ''waku:connection'' (nd_listeners (node_monitorStart t (newNode W))) =
      [Monitor_onConnectionChange t]"
    by (simp add: node_monitorStart_def new addEventListeners_new newNode_status) (simp add: dispatched_def monitor_listeners_eq)
  then show ?thesis
    by (simp add: runEvents_def node_connectionStatus_def connectionChange_def node_pingsAnswered_def node_monitorStop_def
        monitor_onConnectionChange_end_def monitor_onConnectionChange_def monitor_stop_def Let_def node_monitorStart_def monitor_start_def
        subOf_def newNode_def newSubscription_def del: subOf_set)
qed

end
