(* ===== verification/CipherWire.thy ===== *)
theory CipherWire
  imports Encryption ProtoMessage
begin

text \<open>
  Encrypted messages over the wire format: the functions that make the encoders and decoders of \<open>message-encryption/src/ecies.ts\<close> and
  \<open>symmetric.ts\<close>, with the key as a field of theirs, and what a message of theirs is for each decoder.
\<close>

section \<open>ecies.ts and symmetric.ts: how encoders and decoders are made\<close>

record eciesEncoder = cipherEncoder +
  ee_publicKey :: bytes

definition ecies_newEncoder ::
  "string \<Rightarrow> string \<Rightarrow> bytes \<Rightarrow> bytes option \<Rightarrow> bool option \<Rightarrow> (protoMessage \<Rightarrow> bytes) option \<Rightarrow> eciesEncoder res" where
  "ecies_newEncoder pubsubTopic contentTopic publicKey sigPrivKey ephemeral metaSetter =
     (if contentTopic = [] then Inl (Error ''Content topic must be specified'')
      else Inr \<lparr>ce_pubsubTopic = pubsubTopic, ce_contentTopic = contentTopic, ce_sigPrivKey = sigPrivKey,
                ce_ephemeral = nullish ephemeral False, ce_metaSetter = metaSetter, ee_publicKey = publicKey\<rparr>)"

definition ecies_createEncoder ::
  "(string \<Rightarrow> bytes) \<Rightarrow> (bytes \<Rightarrow> bytes) \<Rightarrow> string option \<Rightarrow> singleShardInfo option \<Rightarrow> string \<Rightarrow> bytes \<Rightarrow>
     bytes option \<Rightarrow> bool option \<Rightarrow> (protoMessage \<Rightarrow> bytes) option \<Rightarrow> eciesEncoder res" where
  "ecies_createEncoder utf8 sha256 pubsubTopic pubsubTopicShardInfo contentTopic publicKey sigPrivKey ephemeral metaSetter =
     rbind (determinePubsubTopic utf8 sha256 contentTopic
              (case pubsubTopic of Some t \<Rightarrow> Some (Topic t) | None \<Rightarrow> map_option Shard pubsubTopicShardInfo))
       (\<lambda>topic. ecies_newEncoder topic contentTopic publicKey sigPrivKey ephemeral metaSetter)"

text \<open>The random values of a call are arguments: the ephemeral key, the initialisation vector and the padding.\<close>

definition eciesEncoder_toWire ::
  "(protoMessage \<Rightarrow> bytes) \<Rightarrow> cryptoLib \<Rightarrow> bytes \<Rightarrow> bytes \<Rightarrow> (nat \<Rightarrow> bytes) \<Rightarrow> eciesEncoder \<Rightarrow> date \<Rightarrow> message \<Rightarrow> bytes res" where
  "eciesEncoder_toWire wireEncode C ephemPrivateKey iv randomPad enc now message =
     ecies_toWire wireEncode C ephemPrivateKey iv (ee_publicKey enc) randomPad (cipherEncoder.truncate enc) now message"

record cipherDecoder = decoder +
  cd_key :: bytes

text \<open>The constructor of both decoders calls that of version 0 and stores the key.\<close>

definition ecies_newDecoder :: "string \<Rightarrow> string \<Rightarrow> bytes \<Rightarrow> cipherDecoder res" where
  "ecies_newDecoder pubsubTopic contentTopic privateKey =
     rbind (newDecoder pubsubTopic contentTopic)
       (\<lambda>d. Inr \<lparr>dec_pubsubTopic = dec_pubsubTopic d, dec_contentTopic = dec_contentTopic d, cd_key = privateKey\<rparr>)"

definition symmetric_newDecoder :: "string \<Rightarrow> string \<Rightarrow> bytes \<Rightarrow> cipherDecoder res" where
  "symmetric_newDecoder pubsubTopic contentTopic symKey =
     rbind (newDecoder pubsubTopic contentTopic)
       (\<lambda>d. Inr \<lparr>dec_pubsubTopic = dec_pubsubTopic d, dec_contentTopic = dec_contentTopic d, cd_key = symKey\<rparr>)"

definition ecies_createDecoder ::
  "(string \<Rightarrow> bytes) \<Rightarrow> (bytes \<Rightarrow> bytes) \<Rightarrow> string \<Rightarrow> bytes \<Rightarrow> shardInfoOrTopic option \<Rightarrow> cipherDecoder res" where
  "ecies_createDecoder utf8 sha256 contentTopic privateKey pubsubTopicShardInfo =
     rbind (determinePubsubTopic utf8 sha256 contentTopic pubsubTopicShardInfo)
       (\<lambda>topic. ecies_newDecoder topic contentTopic privateKey)"

definition symmetric_createDecoder ::
  "(string \<Rightarrow> bytes) \<Rightarrow> (bytes \<Rightarrow> bytes) \<Rightarrow> string \<Rightarrow> bytes \<Rightarrow> shardInfoOrTopic option \<Rightarrow> cipherDecoder res" where
  "symmetric_createDecoder utf8 sha256 contentTopic symKey pubsubTopicShardInfo =
     rbind (determinePubsubTopic utf8 sha256 contentTopic pubsubTopicShardInfo)
       (\<lambda>topic. symmetric_newDecoder topic contentTopic symKey)"

definition eciesDecoder_fromProtoObj :: "cryptoLib \<Rightarrow> cipherDecoder \<Rightarrow> string \<Rightarrow> protoMessage \<Rightarrow> encryptedMessage option res" where
  "eciesDecoder_fromProtoObj C dec = ecies_fromProtoObj C (cd_key dec)"

definition symmetricDecoder_fromProtoObj :: "cryptoLib \<Rightarrow> cipherDecoder \<Rightarrow> string \<Rightarrow> protoMessage \<Rightarrow> encryptedMessage option res" where
  "symmetricDecoder_fromProtoObj C dec = symmetric_fromProtoObj C (cd_key dec)"

section \<open>Lemmas\<close>

lemma cipherToProtoObj_fields:
  "cipherToProtoObj C encrypt randomPad enc now msg = Inr p \<Longrightarrow> nullish (msg_timestamp msg) now = Some ms \<Longrightarrow>
     pm_contentTopic p = ce_contentTopic enc \<and> pm_version p = Some 1 \<and> pm_timestamp p = Some (ms * 1000000) \<and>
     pm_rateLimitProof p = msg_rateLimitProof msg \<and> pm_ephemeral p = Some (ce_ephemeral enc) \<and>
     (case ce_metaSetter enc of None \<Rightarrow> pm_meta p = None | Some s \<Rightarrow> pm_meta p \<in> Some ` range s)"
  by (cases "ce_metaSetter enc")
    (auto simp: cipherToProtoObj_def rbind_eq_Inr bigIntOfDate_def Let_def EncryptionVersion_def OneMillion_def)

text \<open>What the wire format asks of an encrypted message besides the size of its ciphertext.\<close>

definition cipherFits :: "pbFormat \<Rightarrow> 'e cipherEncoder_scheme \<Rightarrow> message \<Rightarrow> bool" where
  "cipherFits F enc msg \<longleftrightarrow> fits (pf_utf8 F (ce_contentTopic enc)) \<and> (\<forall>s p. ce_metaSetter enc = Some s \<longrightarrow> fits (s p)) \<and>
     holds (\<lambda>p. RateLimitProof_ok F p \<and> fits (wire F (RateLimitProof_fields F p))) (msg_rateLimitProof msg)"

lemma cipher_message_ok:
  assumes "cipherToProtoObj C encrypt randomPad enc now msg = Inr p" and date: "nullish (msg_timestamp msg) now = Some ms" "\<bar>ms\<bar> < 9000000000000"
    and "cipherFits F enc msg" and "fits (pm_payload p)"
  shows "WakuMessage_ok F (wireOf p)"
proof -
  have "- (2 ^ 63) \<le> ms * 1000000 \<and> ms * 1000000 < 2 ^ 63" using date(2) by (simp add: abs_less_iff)
  with cipherToProtoObj_fields [OF assms(1) date(1)] assms(4,5) show ?thesis
    by (auto simp: WakuMessage_ok_def wireOf_def cipherFits_def split: option.splits)
qed

text \<open>
  What a message that was made by \<open>cipherToProtoObj\<close> is to those who get its bytes: each reader gets back the object that was written,
  relay reads its content topic, and a decoder of version 0 refuses it.
\<close>

lemma cipher_message_read:
  assumes laws: "pbLaws RT F buffers" and p: "cipherToProtoObj C encrypt randomPad enc now msg = Inr p"
    and ok: "nullish (msg_timestamp msg) now = Some ms" "\<bar>ms\<bar> < 9000000000000" "cipherFits F enc msg" "fits (pm_payload p)"
  shows "fromWireToProtoObj (wakuDecode RT) (wakuEncode RT p) = Inr p"
    and "decodeBytes RT (TopicOnlyMessage_decode RT lim) (wakuEncode RT p) = Some (Inr (ce_contentTopic enc))"
    and "fromProtoObj topic p = None"
proof -
  note fields = cipherToProtoObj_fields [OF p ok(1)]
  have wire_ok: "WakuMessage_ok F (wireOf p)" by (rule cipher_message_ok [OF p ok])
  show "fromWireToProtoObj (wakuDecode RT) (wakuEncode RT p) = Inr p"
    using fields by (simp add: fromWireToProtoObj_def wakuDecode_wakuEncode [OF laws wire_ok])
  show "decodeBytes RT (TopicOnlyMessage_decode RT lim) (wakuEncode RT p) = Some (Inr (ce_contentTopic enc))"
    using pb_runtime.TopicOnlyMessage_reads_topic [OF laws [unfolded pbLaws_def] wire_ok, of lim] fields
    by (simp add: wakuEncode_def wireOf_def)
  show "fromProtoObj topic p = None" using fields by (simp add: fromProtoObj_def versionRejected_def)
qed

text \<open>The ciphers lengthen an envelope by less than a kilobyte.\<close>

lemma encryptAsymmetric_length:
  assumes "eciesLaws C ephemPriv ephemPub privKey pubKey" and "length iv = 16" and "encryptAsymmetric C ephemPriv iv d pubKey = Inr c"
  shows "length c = length d + 113"
proof -
  have mac: "length h = 32" if "hmacSha256Sign C k m = Inr h" for k m h using assms(1) that unfolding eciesLaws_def by (metis sum.inject(2))
  have ctr: "length e = length m" if "aesCtrEncrypt C i k m = Inr e" for i k m e
    using assms(1) that unfolding eciesLaws_def by (metis sum.inject(2))
  have "length (libPublicKey C ephemPriv) = 65" using assms(1) unfolding eciesLaws_def by simp
  with assms(2,3) show ?thesis
    by (auto simp: encryptAsymmetric_def ecies_encrypt_def rbind_eq_Inr Let_def dest!: mac ctr)
qed

text \<open>The same for a symmetric key: AES-GCM decrypts what it encrypted and adds a tag of 16 bytes.\<close>

lemma symmetric_message_over_the_wire:
  assumes laws: "pbLaws RT F buffers" "\<And>d. \<exists>c. aesGcmEncrypt C iv key d = Inr c \<and> aesGcmDecrypt C iv key c = Inr d \<and> length c = length d + 16"
      "length iv = 12" "padLaw randomPad" "signerLaw C sigKey pk"
    and enc: "createCipherEncoder utf8 sha256 pubsub shard contentTopic sigKey ephemeral metaSetter = Inr enc"
    and dec: "symmetric_createDecoder utf8 sha256 contentTopic key
      (case pubsub of Some t \<Rightarrow> Some (Topic t) | None \<Rightarrow> map_option Shard shard) = Inr dec"
    and msg: "length (msg_payload msg) < 2 ^ 24" "cipherFits F enc msg"
    and date: "nullish (msg_timestamp msg) now = Some ms" "\<bar>ms\<bar> < 9000000000000"
  shows "dec_pubsubTopic dec = ce_pubsubTopic enc \<and> dec_contentTopic dec = ce_contentTopic enc \<and>
    (\<exists>bs p m. symmetric_toWire (wakuEncode RT) C iv key randomPad enc now msg = Inr bs \<and>
       decodeBytes RT (TopicOnlyMessage_decode RT lim) bs = Some (Inr contentTopic) \<and>
       fromWireToProtoObj (wakuDecode RT) bs = Inr p \<and> fromProtoObj topic p = None \<and>
       symmetricDecoder_fromProtoObj C dec topic p = Inr (Some m) \<and> em_payload m = msg_payload msg \<and>
       em_signaturePublicKey m = (if sigKey = None then None else Some pk))"
proof -
  have encoder: "ce_contentTopic enc = contentTopic" "ce_sigPrivKey enc = sigKey"
    using enc by (auto simp: createCipherEncoder_def newCipherEncoder_def rbind_eq_Inr split: if_splits)
  have decoder: "dec_pubsubTopic dec = ce_pubsubTopic enc" "dec_contentTopic dec = contentTopic" "cd_key dec = key"
    using enc dec by (auto simp: createCipherEncoder_def newCipherEncoder_def symmetric_createDecoder_def symmetric_newDecoder_def newDecoder_def
        rbind_eq_Inr split: if_splits)
  have sign: "signerLaw C (ce_sigPrivKey enc) pk" using laws(5) encoder(2) by simp
  have "length iv = 12 \<and> (\<exists>c. aesGcmEncrypt C iv key d = Inr c \<and> aesGcmDecrypt C iv key c = Inr d)" for d using laws(2) [of d] laws(3) by blast
  from symmetricCipher.message_sealed [where enc = enc and topic = topic, OF this laws(4) sign msg(1) date(1)]
  obtain p m env where p: "length env \<le> length (msg_payload msg) + 325" "encryptSymmetric C iv env key = Inr (pm_payload p)"
      "cipherToProtoObj C (\<lambda>d. encryptSymmetric C iv d key) randomPad enc now msg = Inr p"
    and m: "cipherFromProtoObj C (\<lambda>d. decryptSymmetric C d key) topic p = Inr (Some m)" "em_payload m = msg_payload msg"
      "em_signaturePublicKey m = (if sigKey = None then None else Some pk)"
    using encoder(2) by fastforce
  have "length (pm_payload p) = length env + 28"
    using p(2) laws(2) [of env] laws(3) by (auto simp: encryptSymmetric_def rbind_eq_Inr dest!: sym [of "_ @ _"])
  then have "fits (pm_payload p)" using p(1) msg(1) by (simp add: fits_def)
  note read = cipher_message_read [OF laws(1) p(3) date msg(2) this]
  have "symmetric_toWire (wakuEncode RT) C iv key randomPad enc now msg = Inr (wakuEncode RT p)"
    using p(3) by (simp add: symmetric_toWire_def symmetric_toProtoObj_def)
  moreover have "symmetricDecoder_fromProtoObj C dec topic p = Inr (Some m)"
    using m(1) decoder(3) by (simp add: symmetricDecoder_fromProtoObj_def symmetric_fromProtoObj_def)
  ultimately show ?thesis using read m decoder encoder by auto
qed

text \<open>What an ECIES encoder makes: an object that fits the format, is not empty, is of version 1 and opens with the private key.\<close>

lemma ecies_sealed:
  assumes laws: "eciesLaws C ephemPriv ephemPub privKey pubKey" "length iv = 16" "padLaw randomPad" "signerLaw C sigKey pk"
    and enc: "ecies_createEncoder utf8 sha256 pubsub shard contentTopic pubKey sigKey ephemeral metaSetter = Inr enc"
    and dec: "ecies_createDecoder utf8 sha256 contentTopic privKey
      (case pubsub of Some t \<Rightarrow> Some (Topic t) | None \<Rightarrow> map_option Shard shard) = Inr dec"
    and msg: "length (msg_payload msg) < 2 ^ 24" "cipherFits F enc msg"
    and date: "nullish (msg_timestamp msg) now = Some ms" "\<bar>ms\<bar> < 9000000000000"
  obtains p m where "eciesEncoder_toWire (wakuEncode RT) C ephemPriv iv randomPad enc now msg = Inr (wakuEncode RT p)"
    and "WakuMessage_ok F (wireOf p)" "pm_payload p \<noteq> []" "pm_contentTopic p = contentTopic" "pm_version p = Some 1" "pm_ephemeral p \<noteq> None"
    and "length (pm_payload p) \<le> length (msg_payload msg) + 438" "pm_timestamp p = Some (ms * 1000000)"
    and "pm_rateLimitProof p = msg_rateLimitProof msg" "ce_metaSetter enc = None \<Longrightarrow> pm_meta p = None"
    and "eciesDecoder_fromProtoObj C dec topic p = Inr (Some m)" "em_payload m = msg_payload msg" "dm_pubsubTopic m = topic"
    and "em_signaturePublicKey m = (if sigKey = None then None else Some pk)" "pm_timestamp (dm_proto m) = Some (ms * 1000000)"
    and "dec_pubsubTopic dec = ce_pubsubTopic enc" "dec_contentTopic dec = contentTopic" "ce_contentTopic enc = contentTopic"
proof -
  let ?enc = "cipherEncoder.truncate enc"
  have encoder: "ce_contentTopic enc = contentTopic" "ce_sigPrivKey enc = sigKey" "ee_publicKey enc = pubKey"
    using enc by (auto simp: ecies_createEncoder_def ecies_newEncoder_def rbind_eq_Inr split: if_splits)
  have decoder: "dec_pubsubTopic dec = ce_pubsubTopic enc" "dec_contentTopic dec = contentTopic" "cd_key dec = privKey"
    using enc dec by (auto simp: ecies_createEncoder_def ecies_newEncoder_def ecies_createDecoder_def ecies_newDecoder_def newDecoder_def
        rbind_eq_Inr split: if_splits)
  have fields: "ce_contentTopic ?enc = ce_contentTopic enc" "ce_sigPrivKey ?enc = sigKey" "ce_metaSetter ?enc = ce_metaSetter enc"
    using encoder by (simp_all add: cipherEncoder.defs)
  have fit: "cipherFits F ?enc msg" using msg(2) by (simp add: cipherFits_def fields)
  obtain p m env where p: "length env \<le> length (msg_payload msg) + 325" "encryptAsymmetric C ephemPriv iv env pubKey = Inr (pm_payload p)"
      "cipherToProtoObj C (\<lambda>d. encryptAsymmetric C ephemPriv iv d pubKey) randomPad ?enc now msg = Inr p"
    and m: "cipherFromProtoObj C (\<lambda>d. decryptAsymmetric C d privKey) topic p = Inr (Some m)" "em_payload m = msg_payload msg"
      "em_signaturePublicKey m = (if sigKey = None then None else Some pk)" "pm_timestamp (dm_proto m) = Some (ms * 1000000)"
      "dm_pubsubTopic m = topic"
  proof -
    have "signerLaw C (ce_sigPrivKey ?enc) pk" using laws(4) fields(2) by simp
    from eciesCipher.message_sealed [where pubA = ephemPub and enc = ?enc and topic = topic, OF _ laws(3) this msg(1) date(1)] that
    show thesis using laws(1,2) fields(2) by fastforce
  qed
  note sized = encryptAsymmetric_length [OF laws(1,2) p(2)]
  then have "fits (pm_payload p)" using p(1) msg(1) by (simp add: fits_def)
  note ok = cipher_message_ok [OF p(3) date fit this]
  note made = cipherToProtoObj_fields [OF p(3) date(1)]
  show thesis
  proof (rule that)
    show "eciesEncoder_toWire (wakuEncode RT) C ephemPriv iv randomPad enc now msg = Inr (wakuEncode RT p)"
      using p(3) encoder(3) by (simp add: eciesEncoder_toWire_def ecies_toWire_def ecies_toProtoObj_def)
    show "eciesDecoder_fromProtoObj C dec topic p = Inr (Some m)"
      using m(1) decoder(3) by (simp add: eciesDecoder_fromProtoObj_def ecies_fromProtoObj_def)
    show "pm_payload p \<noteq> []" "length (pm_payload p) \<le> length (msg_payload msg) + 438" using sized p(1) by auto
  qed (use ok made m encoder decoder fields in simp_all)
qed

text \<open>Those who do not have the key: relay reads the content topic, and a decoder of version 0 refuses the message.\<close>

lemma version1_refused: "pm_version p = Some 1 \<Longrightarrow> fromProtoObj topic p = None"
  by (simp add: fromProtoObj_def versionRejected_def)

section \<open>Properties\<close>

text \<open>An encrypted message reaches its recipient and nobody else reads it by mistake. An encoder and a decoder of ECIES that are made with
  the same content topic and the same shard or pubsub topic have the same pubsub topic. What the encoder writes through the generated
  codec is read back by the decoder, with the private key, as a message with the payload, the date and the signer that were sent; relay
  finds its content topic; a decoder of version 0 refuses it. The payload is below 16 megabytes, and the other parts fit the format.\<close>

theorem ecies_message_over_the_wire:
  assumes laws: "pbLaws RT F buffers" "eciesLaws C ephemPriv ephemPub privKey pubKey" "length iv = 16" "padLaw randomPad"
      "signerLaw C sigKey pk"
    and enc: "ecies_createEncoder utf8 sha256 pubsub shard contentTopic pubKey sigKey ephemeral metaSetter = Inr enc"
    and dec: "ecies_createDecoder utf8 sha256 contentTopic privKey
      (case pubsub of Some t \<Rightarrow> Some (Topic t) | None \<Rightarrow> map_option Shard shard) = Inr dec"
    and msg: "length (msg_payload msg) < 2 ^ 24" "cipherFits F enc msg"
    and date: "nullish (msg_timestamp msg) now = Some ms" "\<bar>ms\<bar> < 9000000000000"
  shows "dec_pubsubTopic dec = ce_pubsubTopic enc \<and> dec_contentTopic dec = ce_contentTopic enc \<and>
    (\<exists>bs p m. eciesEncoder_toWire (wakuEncode RT) C ephemPriv iv randomPad enc now msg = Inr bs \<and>
       decodeBytes RT (TopicOnlyMessage_decode RT lim) bs = Some (Inr contentTopic) \<and>
       fromWireToProtoObj (wakuDecode RT) bs = Inr p \<and> fromProtoObj topic p = None \<and>
       eciesDecoder_fromProtoObj C dec topic p = Inr (Some m) \<and> em_payload m = msg_payload msg \<and> dm_pubsubTopic m = topic \<and>
       em_signaturePublicKey m = (if sigKey = None then None else Some pk) \<and> pm_timestamp (dm_proto m) = Some (ms * 1000000))"
proof -
  from ecies_sealed [OF laws(2-5) enc dec msg date] obtain p m where
    sent: "eciesEncoder_toWire (wakuEncode RT) C ephemPriv iv randomPad enc now msg = Inr (wakuEncode RT p)"
    and p: "WakuMessage_ok F (wireOf p)" "pm_contentTopic p = contentTopic" "pm_version p = Some 1" "pm_ephemeral p \<noteq> None"
    and m: "eciesDecoder_fromProtoObj C dec topic p = Inr (Some m)" "em_payload m = msg_payload msg" "dm_pubsubTopic m = topic"
      "em_signaturePublicKey m = (if sigKey = None then None else Some pk)" "pm_timestamp (dm_proto m) = Some (ms * 1000000)"
    and topics: "dec_pubsubTopic dec = ce_pubsubTopic enc" "dec_contentTopic dec = contentTopic" "ce_contentTopic enc = contentTopic"
    by metis
  have "decodeBytes RT (TopicOnlyMessage_decode RT lim) (wakuEncode RT p) = Some (Inr contentTopic)"
    using pb_runtime.TopicOnlyMessage_reads_topic [OF laws(1) [unfolded pbLaws_def] p(1), of lim] p(2)
    by (simp add: wakuEncode_def wireOf_def)
  moreover have "fromWireToProtoObj (wakuDecode RT) (wakuEncode RT p) = Inr p"
    using p(4) by (auto simp: fromWireToProtoObj_def wakuDecode_wakuEncode [OF laws(1) p(1)])
  ultimately show ?thesis using sent m topics version1_refused [OF p(3)] by auto
qed

theorem ecies_message_over_the_wire_witness:
  "\<exists>enc dec bs p m. ecies_createEncoder demoUtf8 demoSha (Some ''/waku/2/rs/1/1'') None ''/app/1/name/proto'' (4 # replicate 64 0) (Some [7]) None None
       = Inr enc \<and>
     ecies_createDecoder demoUtf8 demoSha ''/app/1/name/proto'' (replicate 32 2) (Some (Topic ''/waku/2/rs/1/1'')) = Inr dec \<and>
     eciesEncoder_toWire (wakuEncode demoRuntime) demoCrypto (replicate 32 1) (replicate 16 0) demoPad enc None demoMessage = Inr bs \<and>
     fromWireToProtoObj (wakuDecode demoRuntime) bs = Inr p \<and> fromProtoObj ''/waku/2/rs/1/1'' p = None \<and>
     eciesDecoder_fromProtoObj demoCrypto dec ''/waku/2/rs/1/1'' p = Inr (Some m) \<and> em_payload m = [4, 5] \<and> em_signaturePublicKey m = Some [9]"
proof -
  obtain enc where enc: "ecies_createEncoder demoUtf8 demoSha (Some ''/waku/2/rs/1/1'') None ''/app/1/name/proto'' (4 # replicate 64 0) (Some [7])
      None None = Inr enc" "ce_contentTopic enc = ''/app/1/name/proto''" "ce_metaSetter enc = None"
    by (simp add: ecies_createEncoder_def ecies_newEncoder_def determinePubsubTopic_def)
  obtain dec where dec: "ecies_createDecoder demoUtf8 demoSha ''/app/1/name/proto'' (replicate 32 2) (Some (Topic ''/waku/2/rs/1/1'')) = Inr dec"
    by (simp add: ecies_createDecoder_def ecies_newDecoder_def newDecoder_def determinePubsubTopic_def)
  have "cipherFits demoFormat enc demoMessage"
    by (simp add: cipherFits_def enc demoFormat_def fits_def demoMessage_def)
  then show ?thesis
    using ecies_message_over_the_wire [OF demoPb_laws demo_laws(3) _ demo_laws(1,2) enc(1), of "replicate 16 0" dec demoMessage None 7
        None "''/waku/2/rs/1/1''"] enc(1) dec
    by (auto simp: demoMessage_def)
qed

end
