(* ===== verification/ExchangeWire.thy ===== *)
theory ExchangeWire
  imports Wire
begin

text \<open>
  Peer exchange and the metadata handshake over the codecs of \<open>packages/proto\<close>: what \<open>rpc.ts\<close> and \<open>metadata.ts\<close> write to a stream is
  what the other side reads.
\<close>

section \<open>rpc.ts: peer exchange\<close>

text \<open>\<open>PeerExchangeRPC.encode\<close> and \<open>decode\<close>. Of a decoded message the client reads the records of the answer.\<close>

definition pxRpc_encode :: "'w pbRuntime \<Rightarrow> pxRpc \<Rightarrow> bytes" where
  "pxRpc_encode RT rpc =
     encodeBytes RT (PeerExchangeRPC_encode RT)
       \<lparr>pxw_query = Some \<lparr>pqw_numPeers = px_numPeers rpc\<rparr>,
        pxw_response = map_option (\<lambda>enrs. \<lparr>psw_peerInfos = map (\<lambda>e. \<lparr>piw_enr = e\<rparr>) enrs\<rparr>) (px_response rpc)\<rparr>"

definition pxRpc_decode :: "'w pbRuntime \<Rightarrow> bytes \<Rightarrow> pxRpc res" where
  "pxRpc_decode RT bs =
     rbind (returned (decodeBytes RT (PeerExchangeRPC_decode RT None) bs))
       (\<lambda>w. Inr \<lparr>px_numPeers = Option.bind (pxw_query w) pqw_numPeers,
                 px_response = map_option (\<lambda>r. map piw_enr (psw_peerInfos r)) (pxw_response w)\<rparr>)"

text \<open>A service node, which answers the number of peers it is asked for with records.\<close>

definition pxAnswer :: "bytes list \<Rightarrow> pxRpcWire" where
  "pxAnswer records = \<lparr>pxw_query = None, pxw_response = Some \<lparr>psw_peerInfos = map (\<lambda>e. \<lparr>piw_enr = Some e\<rparr>) records\<rparr>\<rparr>"

definition pxNetOver :: "'w pbRuntime \<Rightarrow> (int \<Rightarrow> bytes list) \<Rightarrow> pxNet" where
  "pxNetOver RT node =
     \<lparr>pxn_encode = pxRpc_encode RT, pxn_decode = pxRpc_decode RT, pxn_peer = (\<lambda>_. Inr True), pxn_getStream = (\<lambda>_. Inr ()),
      pxn_exchange = (\<lambda>_ bs. rbind (pxRpc_decode RT bs)
                               (\<lambda>q. Inr [encodeBytes RT (PeerExchangeRPC_encode RT) (pxAnswer (node (nullish (px_numPeers q) 0)))]))\<rparr>"

text \<open>The client asks for what it wants, and one record that cannot be decoded makes the whole answer one that cannot be decoded.\<close>

lemma peerExchange_query_over_the_wire:
  assumes laws: "pbLaws RT F buffers" and n: "0 \<le> n" "n < 2 ^ 64" "fits (wire F (PeerExchangeQuery_fields F \<lparr>pqw_numPeers = Some n\<rparr>))"
    and answer: "PeerExchangeRPC_ok F (pxAnswer (node n))"
  shows "peerExchange_query (pxNetOver RT node) L n p =
    Inr (case mapM (fromRLP L) (node n) of Inl _ \<Rightarrow> PxError DECODE_FAILED | Inr enrs \<Rightarrow> PxPeers enrs)"
proof -
  note L = laws [unfolded pbLaws_def]
  have "PeerExchangeRPC_ok F \<lparr>pxw_query = Some \<lparr>pqw_numPeers = Some n\<rparr>, pxw_response = None\<rparr>"
    using n by (simp add: PeerExchangeRPC_ok_def PeerExchangeQuery_ok_def)
  then have "pxRpc_decode RT (pxRpc_encode RT (pxRpc_createRequest n)) = Inr \<lparr>px_numPeers = Some n, px_response = None\<rparr>"
    using pb_runtime.PeerExchangeRPC_roundtrip [OF L] by (simp add: pxRpc_decode_def pxRpc_encode_def pxRpc_createRequest_def)
  moreover have "pxRpc_decode RT (encodeBytes RT (PeerExchangeRPC_encode RT) (pxAnswer (node n))) =
      Inr \<lparr>px_numPeers = None, px_response = Some (map Some (node n))\<rparr>"
    using pb_runtime.PeerExchangeRPC_roundtrip [OF L answer] by (simp add: pxRpc_decode_def pxAnswer_def comp_def)
  moreover have "List.map_filter id (map Some xs) = xs" for xs :: "bytes list" by (induction xs) (simp_all add: map_filter_simps)
  ultimately show ?thesis by (simp add: peerExchange_query_def pxNetOver_def split: sum.split)
qed

section \<open>metadata.ts: the handshake\<close>

definition metadataWireOf :: "shardInfo \<Rightarrow> metadataWire" where
  "metadataWireOf info = \<lparr>mw_clusterId = sh_clusterId info, mw_shards = sh_shards info\<rparr>"

text \<open>A stream to a peer on which \<open>answer bs\<close> is read when \<open>bs\<close> is written; the peer store accepts what is merged.\<close>

definition metadataNetOver :: "'w pbRuntime \<Rightarrow> (bytes \<Rightarrow> bytes list) \<Rightarrow> 'p metadataNet" where
  "metadataNetOver RT answer =
     \<lparr>mn_peer = (\<lambda>_. Inr True), mn_getStream = (\<lambda>_. Inr ()), mn_exchange = (\<lambda>_ bs. Inr (answer bs)),
      mn_encodeRequest = (\<lambda>s. encodeBytes RT (WakuMetadataRequest_encode RT) (metadataWireOf s)),
      mn_encodeResponse = (\<lambda>s. encodeBytes RT (WakuMetadataResponse_encode RT) (metadataWireOf s)),
      mn_decodeResponse = (\<lambda>bs. rbind (returned (decodeBytes RT (WakuMetadataResponse_decode RT None) bs))
                                 (\<lambda>w. Inr (Some \<lparr>sh_clusterId = mw_clusterId w, sh_shards = mw_shards w\<rparr>))),
      mn_merge = (\<lambda>_ _. Inr ())\<rparr>"

text \<open>What a node wrote between two states.\<close>

definition writtenBetween :: "'p metadata \<Rightarrow> 'p metadata \<Rightarrow> bytes list" where
  "writtenBetween S S' = map snd (drop (length (md_written S)) (md_written S'))"

text \<open>
  Node \<open>a\<close> asks node \<open>b\<close> on one stream. The handler of \<open>b\<close> reads the bytes that \<open>a\<close> wrote, and \<open>a\<close> reads the bytes that this
  handler wrote.
\<close>

definition metadata_handshake ::
  "'w pbRuntime \<Rightarrow> string list \<Rightarrow> string list \<Rightarrow> 'p \<Rightarrow> 'p \<Rightarrow> 'p metadata \<Rightarrow> 'p metadata \<Rightarrow>
     'p metadata \<times> metadataResult res \<times> 'p metadata" where
  "metadata_handshake RT topicsA topicsB a b A B =
     (let handler = (\<lambda>bs. metadata_onRequest (metadataNetOver RT (\<lambda>_. [bs])) topicsB a B);
          (A', result) = metadata_query (metadataNetOver RT (\<lambda>bs. writtenBetween B (handler bs))) topicsA b A
      in (A', result, fold (\<lambda>bs _. handler bs) (writtenBetween A A') B))"

lemma metadata_reads:
  assumes laws: "pbLaws RT F buffers" and valid: "relayShardValid info"
  shows "decodeMetadataResponse (metadataNetOver RT r) [encodeBytes RT (WakuMetadataResponse_encode RT) (metadataWireOf info)] = Inr (MetadataOk info)"
    and "decodeMetadataResponse (metadataNetOver RT r) [encodeBytes RT (WakuMetadataRequest_encode RT) (metadataWireOf info)] = Inr (MetadataOk info)"
proof -
  note L = laws [unfolded pbLaws_def]
  have "\<forall>s \<in> set (sh_shards info). 0 \<le> s \<and> s < 2 ^ 32" "holds (\<lambda>v. 0 \<le> v \<and> v < 2 ^ 32) (sh_clusterId info)"
    using valid by (fastforce simp: relayShardValid_def list_all_iff split: if_splits option.splits)+
  then have ok: "WakuMetadataRequest_ok F (metadataWireOf info)" "WakuMetadataResponse_ok F (metadataWireOf info)"
    by (simp_all add: WakuMetadataRequest_ok_def WakuMetadataResponse_ok_def metadataWireOf_def)
  show "decodeMetadataResponse (metadataNetOver RT r) [encodeBytes RT (WakuMetadataResponse_encode RT) (metadataWireOf info)] = Inr (MetadataOk info)"
    using pb_runtime.WakuMetadataResponse_roundtrip [OF L ok(2)] by (simp add: decodeMetadataResponse_def metadataNetOver_def metadataWireOf_def)
  show "decodeMetadataResponse (metadataNetOver RT r) [encodeBytes RT (WakuMetadataRequest_encode RT) (metadataWireOf info)] = Inr (MetadataOk info)"
    using pb_runtime.metadata_request_as_response [OF L ok(1)] by (simp add: decodeMetadataResponse_def metadataNetOver_def metadataWireOf_def)
qed

text \<open>What a node has about a peer after it saved its shards.\<close>

definition knowsShards :: "'p metadata \<Rightarrow> 'p \<Rightarrow> shardInfo \<Rightarrow> bool" where
  "knowsShards S p info \<longleftrightarrow> jm_get (md_handshakes S) p = Some info \<and>
     (\<exists>bs. jm_get (md_peerStore S) p = Some bs \<and> decodeRelayShard bs = Inr (relayShardNormal info))"

lemma saved_shards:
  assumes "relayShardValid info"
  shows "\<exists>S'. savePeerShardInfo (metadataNetOver RT r) p info S = Inr S' \<and> knowsShards S' p info \<and> md_written S' = md_written S \<and>
    (\<forall>q. q \<noteq> p \<longrightarrow> jm_get (md_handshakes S') q = jm_get (md_handshakes S) q)"
proof -
  obtain bs where "encodeRelayShard info = Inr bs" "decodeRelayShard bs = Inr (relayShardNormal info)"
    using relayShard_roundtrip_normal [OF assms] by (auto simp: rbind_eq_Inr)
  then show ?thesis by (simp add: savePeerShardInfo_def metadataNetOver_def knowsShards_def)
qed

text \<open>The handler writes the shards of its node and saves those that it read; so does a query.\<close>

lemma metadata_handler:
  fixes p :: 'p and S :: "'p metadata"
  assumes laws: "pbLaws RT F buffers" and own: "pubsubTopicsToShardInfo topics = Inr own" and valid: "relayShardValid info"
  shows "\<exists>S'. metadata_onRequest (metadataNetOver RT (\<lambda>_. [encodeBytes RT (WakuMetadataRequest_encode RT) (metadataWireOf info)])) topics p S = S' \<and>
    writtenBetween S S' = [encodeBytes RT (WakuMetadataResponse_encode RT) (metadataWireOf own)] \<and> knowsShards S' p info \<and>
    (\<forall>q. q \<noteq> p \<longrightarrow> jm_get (md_handshakes S') q = jm_get (md_handshakes S) q)"
proof -
  let ?read = "encodeBytes RT (WakuMetadataRequest_encode RT) (metadataWireOf info)"
  let ?N = "metadataNetOver RT (\<lambda>_. [?read]) :: 'p metadataNet" and ?bs = "encodeBytes RT (WakuMetadataResponse_encode RT) (metadataWireOf own)"
  have N: "mn_encodeResponse ?N own = ?bs" "mn_exchange ?N p ?bs = Inr [?read]" by (simp_all add: metadataNetOver_def)
  show ?thesis
    using saved_shards [OF valid, of RT "\<lambda>_. [?read]" p "S\<lparr>md_written := md_written S @ [(p, ?bs)]\<rparr>"]
    by (auto simp: metadata_onRequest_def own exchange_def N metadata_reads [OF laws valid] writtenBetween_def)
qed

lemma metadata_asker:
  fixes p :: 'p and S :: "'p metadata"
  assumes laws: "pbLaws RT F buffers" and own: "pubsubTopicsToShardInfo topics = Inr own" and valid: "relayShardValid info"
    and answer: "answer (encodeBytes RT (WakuMetadataRequest_encode RT) (metadataWireOf own)) =
      [encodeBytes RT (WakuMetadataResponse_encode RT) (metadataWireOf info)]"
  shows "\<exists>S'. metadata_query (metadataNetOver RT answer) topics p S = (S', Inr (MetadataOk info)) \<and>
    writtenBetween S S' = [encodeBytes RT (WakuMetadataRequest_encode RT) (metadataWireOf own)] \<and> knowsShards S' p info \<and>
    (\<forall>q. q \<noteq> p \<longrightarrow> jm_get (md_handshakes S') q = jm_get (md_handshakes S) q)"
proof -
  let ?N = "metadataNetOver RT answer :: 'p metadataNet" and ?bs = "encodeBytes RT (WakuMetadataRequest_encode RT) (metadataWireOf own)"
  have N: "mn_encodeRequest ?N own = ?bs" "mn_exchange ?N p ?bs = Inr [encodeBytes RT (WakuMetadataResponse_encode RT) (metadataWireOf info)]"
    "mn_peer ?N p = Inr True" "mn_getStream ?N p = Inr ()" by (simp_all add: metadataNetOver_def answer)
  show ?thesis
    using saved_shards [OF valid, of RT answer p "S\<lparr>md_written := md_written S @ [(p, ?bs)]\<rparr>"]
    by (auto simp: metadata_query_def own exchange_def N metadata_reads [OF laws valid] writtenBetween_def)
qed

section \<open>Properties\<close>

text \<open>C27: One metadata handshake informs both nodes. When node \<open>a\<close>, with pubsub topics on the shards \<open>sA\<close> of a cluster, queries node \<open>b\<close>,
  with topics on the shards \<open>sB\<close>, over the generated codecs, each reading the bytes that the other one wrote to the stream, \<open>a\<close> gets exactly
  the shards of \<open>b\<close> and remembers them, \<open>b\<close>, which reads the request as a response, remembers those of \<open>a\<close>, both find them in their peer
  store, and nothing is changed about other peers. The cluster and shard numbers fit the field of a node record.\<close>

theorem metadata_handshake_over_the_wire:
  assumes laws: "pbLaws RT F buffers" and shards: "sA \<noteq> []" "sB \<noteq> []"
    and infos: "infoA = \<lparr>sh_clusterId = Some cA, sh_shards = uniq sA\<rparr>" "infoB = \<lparr>sh_clusterId = Some cB, sh_shards = uniq sB\<rparr>"
    and valid: "relayShardValid infoA" "relayShardValid infoB"
  shows "\<exists>A' B'. metadata_handshake RT (map (rsTopic cA) sA) (map (rsTopic cB) sB) a b A B = (A', Inr (MetadataOk infoB), B') \<and>
    knowsShards A' b infoB \<and> knowsShards B' a infoA \<and>
    (\<forall>q. (q \<noteq> b \<longrightarrow> jm_get (md_handshakes A') q = jm_get (md_handshakes A) q) \<and>
         (q \<noteq> a \<longrightarrow> jm_get (md_handshakes B') q = jm_get (md_handshakes B) q))"
proof -
  have topics: "pubsubTopicsToShardInfo (map (rsTopic cA) sA) = Inr infoA" "pubsubTopicsToShardInfo (map (rsTopic cB) sB) = Inr infoB"
    using shards by (simp_all add: pubsubTopicsToShardInfo_rsTopics infos)
  let ?request = "encodeBytes RT (WakuMetadataRequest_encode RT) (metadataWireOf infoA)"
  define handler where "handler = (\<lambda>bs. metadata_onRequest (metadataNetOver RT (\<lambda>_. [bs])) (map (rsTopic cB) sB) a B)"
  obtain B' where B': "handler ?request = B'" "knowsShards B' a infoA"
      "writtenBetween B B' = [encodeBytes RT (WakuMetadataResponse_encode RT) (metadataWireOf infoB)]"
      "\<forall>q. q \<noteq> a \<longrightarrow> jm_get (md_handshakes B') q = jm_get (md_handshakes B) q"
    using metadata_handler [OF laws topics(2) valid(1), of a B] by (auto simp: handler_def)
  then have "writtenBetween B (handler ?request) = [encodeBytes RT (WakuMetadataResponse_encode RT) (metadataWireOf infoB)]" by simp
  from metadata_asker [where answer = "\<lambda>bs. writtenBetween B (handler bs)", OF laws topics(1) valid(2) this, of b A]
  obtain A' where A': "metadata_query (metadataNetOver RT (\<lambda>bs. writtenBetween B (handler bs))) (map (rsTopic cA) sA) b A =
        (A', Inr (MetadataOk infoB))" "writtenBetween A A' = [?request]" "knowsShards A' b infoB"
      "\<forall>q. q \<noteq> b \<longrightarrow> jm_get (md_handshakes A') q = jm_get (md_handshakes A) q"
    by (elim exE conjE)
  have "metadata_handshake RT (map (rsTopic cA) sA) (map (rsTopic cB) sB) a b A B = (A', Inr (MetadataOk infoB), B')"
    unfolding metadata_handshake_def Let_def handler_def [symmetric] using A'(1,2) B'(1) by simp
  then show ?thesis using A'(3,4) B'(2,4) by (intro exI [of _ A'] exI [of _ B'] conjI allI) auto
qed

theorem metadata_handshake_over_the_wire_witness:
  "\<exists>A' B'. metadata_handshake demoRuntime [rsTopic 1 3, rsTopic 1 4] [rsTopic 1 4] ''a'' ''b''
       \<lparr>md_handshakes = [], md_peerStore = [], md_written = []\<rparr> \<lparr>md_handshakes = [], md_peerStore = [], md_written = []\<rparr> =
         (A', Inr (MetadataOk \<lparr>sh_clusterId = Some 1, sh_shards = [4]\<rparr>), B') \<and>
     knowsShards B' ''a'' \<lparr>sh_clusterId = Some 1, sh_shards = [3, 4]\<rparr>"
proof -
  have "relayShardValid \<lparr>sh_clusterId = Some 1, sh_shards = uniq [3, 4]\<rparr>" "relayShardValid \<lparr>sh_clusterId = Some 1, sh_shards = uniq [4]\<rparr>"
    by (simp_all add: relayShardValid_def)
  from metadata_handshake_over_the_wire [where a = "''a''" and b = "''b''", OF demoPb_laws _ _ refl refl this]
  obtain A' B' where "metadata_handshake demoRuntime (map (rsTopic 1) [3, 4]) (map (rsTopic 1) [4]) ''a'' ''b''
       \<lparr>md_handshakes = [], md_peerStore = [], md_written = []\<rparr> \<lparr>md_handshakes = [], md_peerStore = [], md_written = []\<rparr> =
         (A', Inr (MetadataOk \<lparr>sh_clusterId = Some 1, sh_shards = uniq [4]\<rparr>), B')"
      "knowsShards B' ''a'' \<lparr>sh_clusterId = Some 1, sh_shards = uniq [3, 4]\<rparr>"
    by (metis list.distinct(1))
  then show ?thesis by (intro exI [of _ A'] exI [of _ B']) simp
qed

text \<open>C31: Peers learned over the wire end in the peer store. The query of the discovery service asks for ten peers; the service node, which
  decodes this number, answers with records. When one of them does not decode, none is used. Otherwise they are used in their order, and
  the result is the decoded records unless one of them throws: when its addresses or its shard information cannot be read, its shard
  information cannot be written, or that of the stored peer cannot be read, the query is rejected with the records before it already used.
  The store has exactly the peers it had and those of the used records, only mentioned peers are announced, and all those that were unknown
  are. Other peers are left alone, except that the stored peer of the record that throws may have new addresses.\<close>

theorem peer_exchange_over_the_wire:
  assumes laws: "pbLaws RT F buffers" "peerStoreLaws P"
    and ask: "fits (wire F (PeerExchangeQuery_fields F \<lparr>pqw_numPeers = Some 10\<rparr>))"
    and answer: "PeerExchangeRPC_ok F (pxAnswer (node 10))"
    and run: "pxDiscovery_query (pxNetOver RT node) P L showMa opts peerId s = ((s', events), result)"
  shows "case mapM (fromRLP L) (node 10) of
      Inl _ \<Rightarrow> result = Inr (PxError DECODE_FAILED) \<and> s' = s \<and> events = []
    | Inr enrs \<Rightarrow> \<exists>n.
        (case result of
           Inr r \<Rightarrow> r = PxPeers enrs \<and> n = length enrs
         | Inl err \<Rightarrow> n < length enrs \<and> recordThrows P L showMa (enrs ! n) s' err) \<and>
        list_all (\<lambda>e. \<exists>p info. enr_peerInfo L e = Inr p \<and> enr_shardInfo e = Inr info) (take n enrs) \<and>
        (\<forall>q. ps_has P s' q \<longleftrightarrow> ps_has P s q \<or> q \<in> set (exchangedIds L (take n enrs))) \<and>
        (\<forall>q. q \<in> set (exchangedIds L (take (Suc n) enrs)) \<or> ps_get P s' q = ps_get P s q) \<and>
        set (map fst events) \<subseteq> set (exchangedIds L (take n enrs)) \<and>
        {q \<in> set (exchangedIds L (take n enrs)). \<not> ps_has P s q} \<subseteq> set (map fst events)"
proof -
  have query: "peerExchange_query (pxNetOver RT node) L DEFAULT_PEER_EXCHANGE_REQUEST_NODES peerId =
      Inr (case mapM (fromRLP L) (node 10) of Inl _ \<Rightarrow> PxError DECODE_FAILED | Inr enrs \<Rightarrow> PxPeers enrs)"
    unfolding DEFAULT_PEER_EXCHANGE_REQUEST_NODES_def
    using peerExchange_query_over_the_wire [where n = 10 and node = node, OF laws(1) _ _ ask answer] by simp
  show ?thesis
  proof (cases "mapM (fromRLP L) (node 10)")
    case (Inl e)
    then show ?thesis using run by (simp add: pxDiscovery_query_def query)
  next
    case (Inr enrs)
    then obtain r where loop: "exchangedPeers P L showMa opts enrs (s, []) = ((s', events), r)"
      and result: "result = (case r of Inl err \<Rightarrow> Inl err | Inr _ \<Rightarrow> Inr (PxPeers enrs))"
      using run by (auto simp: pxDiscovery_query_def query split: prod.splits sum.splits)
    obtain n where "recordsUsed P L showMa enrs n s s' (map fst events) r"
      using exchangedPeers_run [OF laws(2) loop] by auto
    then show ?thesis unfolding Inr sum.case by (intro exI [of _ n]) (cases r; auto simp: recordsUsed_def result)
  qed
qed

theorem peer_exchange_over_the_wire_witness:
  "\<exists>s' events. pxDiscovery_query (pxNetOver demoRuntime (\<lambda>n. [rlpEncode demoDnsLib demoValues])) mapPeerStore demoDnsLib id pxDefaults
       ''asked'' [] = ((s', events), Inr (PxPeers [demoPeer])) \<and> ps_has mapPeerStore s' ''peer''"
proof -
  let ?node = "\<lambda>n :: int. [rlpEncode demoDnsLib demoValues]"
  have size: "length (rlpEncode demoDnsLib demoValues) < 1000"
    by (simp add: demoDnsLib_def demoEnrLib_def demoRlpEncode_def demoValues_def demoUtf8_def)
  have query: "fits (wire demoFormat (PeerExchangeQuery_fields demoFormat \<lparr>pqw_numPeers = Some 10\<rparr>))"
    by (simp add: fits_def PeerExchangeQuery_fields_def demoFormat_def fieldBytes_def leb.simps)
  let ?info = "wire demoFormat (PeerInfo_fields demoFormat \<lparr>piw_enr = Some (rlpEncode demoDnsLib demoValues)\<rparr>)"
  have info: "length ?info < 3100"
    using size demo_field_length [of 10 "pf_bytes demoFormat (rlpEncode demoDnsLib demoValues)"]
      demo_bytes_length [of "rlpEncode demoDnsLib demoValues"] by (simp add: PeerInfo_fields_def)
  have "length (wire demoFormat (PeerExchangeResponse_fields demoFormat \<lparr>psw_peerInfos = [\<lparr>piw_enr = Some (rlpEncode demoDnsLib demoValues)\<rparr>]\<rparr>)) < 9999"
    using info demo_field_length [of 10 "pf_bytes demoFormat ?info"] demo_bytes_length [of ?info] by (simp add: PeerExchangeResponse_fields_def)
  with info size have answer: "PeerExchangeRPC_ok demoFormat (pxAnswer (?node 10))"
    by (simp add: PeerExchangeRPC_ok_def PeerExchangeResponse_ok_def PeerInfo_ok_def pxAnswer_def fits_def)
  have records: "mapM (fromRLP demoDnsLib) (?node 10) = Inr [demoPeer]"
    by (simp add: fromRLP_def demoDnsLib_simps demoPeer_values)
  have peer: "enr_peerInfo demoDnsLib demoPeer = Inr (Some (''peer'', []))" "enr_shardInfo demoPeer = Inr None"
    by (simp_all add: enr_peerInfo_def getAllLocationMultiaddrs_def locationOfVersion_def get_multiaddrs_def enr_get_def demoPeer_def jm_get_def
        enr_shardInfo_def enr_rs_def enr_rsv_def)
  have "peerExchange_query (pxNetOver demoRuntime ?node) demoDnsLib 10 ''asked'' = Inr (PxPeers [demoPeer])"
    using peerExchange_query_over_the_wire [where n = 10 and node = ?node and L = demoDnsLib, OF demoPb_laws _ _ query answer]
    unfolding records by simp
  then obtain s' events where run: "pxDiscovery_query (pxNetOver demoRuntime ?node) mapPeerStore demoDnsLib id pxDefaults ''asked'' [] =
      ((s', events), Inr (PxPeers [demoPeer]))"
    using peer by (simp add: pxDiscovery_query_def DEFAULT_PEER_EXCHANGE_REQUEST_NODES_def exchangedPeer_def saveExchangedPeer_def
        shardInfoMetadata_def mapPeerStore_def jm_has_def jm_get_def Let_def)
  have "''peer'' \<in> set (exchangedIds demoDnsLib [demoPeer])" by (simp add: demoPeer_def demoDnsLib_def demoEnrLib_def)
  then have "ps_has mapPeerStore s' ''peer''"
    using peer_exchange_over_the_wire [OF demoPb_laws mapPeerStore_laws query answer run] unfolding records by auto
  then show ?thesis using run by blast
qed

end
