(* ===== verification/FilterSpec.thy ===== *)
theory FilterSpec
  imports SdkFilter
begin

text \<open>
  What the filter client of the SDK promises, as an abstract machine without peers, pings, monitors and requests, and the proof that
  \<open>SdkFilter\<close> implements it: for each pubsub topic the callbacks of the content topics, the hashes that were seen and what was handed over.
\<close>

section \<open>The specification\<close>

type_synonym 't wants = "string \<rightharpoonup> 't subDecoder list \<times> nat"

record 't subSpec =
  sp_wants :: "'t wants"
  sp_seen :: "string set"
  sp_handed :: "(string \<times> nat \<times> 't) list"

record 't filterSpec =
  fsp_subs :: "string \<rightharpoonup> 't subSpec"
  fsp_asked :: "(string \<times> 't wants) set"

definition emptySub :: "'t subSpec" where
  "emptySub = \<lparr>sp_wants = Map.empty, sp_seen = {}, sp_handed = []\<rparr>"

definition emptySpec :: "'t filterSpec" where
  "emptySpec = \<lparr>fsp_subs = Map.empty, fsp_asked = {}\<rparr>"

text \<open>
  What an application wants that subscribes \<open>callback\<close> with \<open>decoders\<close>: each decoder belongs to the callback of its content topic. The
  reserved topic of the filter check is nobody's.
\<close>

definition withCheck :: "'t filterEnv \<Rightarrow> string \<Rightarrow> 't subDecoder list \<Rightarrow> 't subDecoder list" where
  "withCheck E topic decoders =
     (if fc_enableLightPushFilterCheck (fe_config E) then decoders @ [fe_decoderFor E (reservedContentTopic (fe_ownPeerId E)) topic]
      else decoders)"

definition wanted :: "'t filterEnv \<Rightarrow> string \<Rightarrow> 't subDecoder list \<Rightarrow> nat \<Rightarrow> 't wants" where
  "wanted E topic decoders callback =
     (\<lambda>ct. if ct \<in> fd_contentTopic ` set (withCheck E topic decoders) \<and> ct \<noteq> reservedContentTopic (fe_ownPeerId E)
           then Some (filter (\<lambda>d. fd_contentTopic d = ct) (withCheck E topic decoders), callback) else None)"

text \<open>A message goes to the callback of its content topic, decoded by the first of its decoders that can.\<close>

definition handover :: "'t filterEnv \<Rightarrow> string \<Rightarrow> 't wants \<Rightarrow> wireMessage \<Rightarrow> string \<Rightarrow> (string \<times> nat \<times> 't) list" where
  "handover E topic wants message hash =
     (case wants (wire_contentTopic message) of
        None \<Rightarrow> []
      | Some (decoders, callback) \<Rightarrow>
          if wire_contentTopic message = [] then []
          else (case fe_first E (List.map_filter (\<lambda>d. case fd_fromProtoObj d topic message of Inr (Some m) \<Rightarrow> Some m | _ \<Rightarrow> None) decoders) of
                  [] \<Rightarrow> []
                | m # _ \<Rightarrow> [(hash, callback, m)]))"

inductive filter_step :: "'t filterEnv \<Rightarrow> 't filterSpec \<Rightarrow> 't filterSpec \<Rightarrow> bool" for E where
  opens: "topic \<in> set (fe_pubsubTopics E) \<Longrightarrow> fsp_subs A topic = None \<Longrightarrow>
     filter_step E A (A\<lparr>fsp_subs := (fsp_subs A)(topic \<mapsto> emptySub)\<rparr>)"
| asks: "fsp_subs A topic \<noteq> None \<Longrightarrow> decoders \<noteq> [] \<Longrightarrow> (\<And>d. d \<in> set decoders \<Longrightarrow> fd_pubsubTopic d = topic) \<Longrightarrow>
     filter_step E A (A\<lparr>fsp_asked := insert (topic, wanted E topic decoders callback) (fsp_asked A)\<rparr>)"
| subscribes: "fsp_subs A topic = Some s \<Longrightarrow> (topic, w) \<in> fsp_asked A \<Longrightarrow>
     filter_step E A (A\<lparr>fsp_subs := (fsp_subs A)(topic \<mapsto> s\<lparr>sp_wants := sp_wants s ++ w\<rparr>)\<rparr>)"
| forgets: "fsp_subs A topic = Some s \<Longrightarrow>
     filter_step E A (A\<lparr>fsp_subs := (fsp_subs A)(topic \<mapsto> s\<lparr>sp_wants := sp_wants s |` (- forgotten)\<rparr>)\<rparr>)"
| receives: "fsp_subs A topic = Some s \<Longrightarrow> fe_hashOf E topic message = Inr hash \<Longrightarrow> hash \<notin> sp_seen s \<Longrightarrow>
     filter_step E A (A\<lparr>fsp_subs := (fsp_subs A)(topic \<mapsto>
       s\<lparr>sp_seen := insert hash (sp_seen s), sp_handed := sp_handed s @ handover E topic (sp_wants s) message hash\<rparr>)\<rparr>)"

section \<open>The abstraction\<close>

definition absSub :: "'t subscription \<Rightarrow> 't subSpec" where
  "absSub S = \<lparr>sp_wants = jm_get (su_callbacks S), sp_seen = set (su_received S), sp_handed = su_log S\<rparr>"

definition askedBy :: "'t filterEnv \<Rightarrow> string \<times> 't subscribeRequest \<times> nat \<Rightarrow> string \<times> 't wants" where
  "askedBy E = (\<lambda>(topic, request, callback). (topic, \<lambda>ct. if ct = reservedContentTopic (fe_ownPeerId E) then None
     else map_option (\<lambda>ds. (ds, callback)) (jm_get (sr_grouped request) ct)))"

definition absFilter :: "'t filterEnv \<Rightarrow> 't filterState \<Rightarrow> 't filterSpec" where
  "absFilter E F = \<lparr>fsp_subs = (\<lambda>topic. map_option absSub (jm_get (fs_subs F) topic)), fsp_asked = askedBy E ` set (fs_pending F)\<rparr>"

text \<open>A subscription has the topic it is stored under, and a request has each content topic once.\<close>

definition topicsInv :: "'t filterState \<Rightarrow> bool" where
  "topicsInv F \<longleftrightarrow> (\<forall>topic S. jm_get (fs_subs F) topic = Some S \<longrightarrow> su_pubsubTopic S = topic) \<and>
     (\<forall>(topic, request, callback) \<in> set (fs_pending F). jm_wf (sr_grouped request))"

section \<open>Lemmas\<close>

lemma absFilter_set [simp]:
  "absFilter E (F\<lparr>fs_subs := jm_set topic S (fs_subs F)\<rparr>) =
     (absFilter E F)\<lparr>fsp_subs := (fsp_subs (absFilter E F))(topic \<mapsto> absSub S)\<rparr>"
  by (auto simp: absFilter_def fun_eq_iff)

lemma absFilter_fields [simp]:
  "absFilter E (F\<lparr>fs_conns := c\<rparr>) = absFilter E F" "fsp_subs (absFilter E F) topic = map_option absSub (jm_get (fs_subs F) topic)"
  by (simp_all add: absFilter_def)

lemma absSub_fields [simp]:
  "absSub (S\<lparr>su_peerIds := ps\<rparr>) = absSub S" "absSub (S\<lparr>su_isStarted := b\<rparr>) = absSub S" "absSub (S\<lparr>su_keepAlive := b\<rparr>) = absSub S"
  "absSub (S\<lparr>su_pingFailed := m\<rparr>) = absSub S" "absSub (S\<lparr>su_receivedFromPeer := r\<rparr>) = absSub S" "absSub (S\<lparr>su_verifiedPeers := v\<rparr>) = absSub S"
  "absSub (monitor_start S) = absSub S" "absSub (monitor_stop S) = absSub S" "absSub (monitor_getPeers conns S) = absSub S"
  "absSub (S\<lparr>su_callbacks := c\<rparr>) = (absSub S)\<lparr>sp_wants := jm_get c\<rparr>"
  by (simp_all add: absSub_def monitor_start_def monitor_stop_def monitor_getPeers_def)

lemma topic_fields [simp]:
  "su_pubsubTopic (monitor_start S) = su_pubsubTopic S" "su_pubsubTopic (monitor_stop S) = su_pubsubTopic S"
  "su_pubsubTopic (monitor_getPeers conns S) = su_pubsubTopic S"
  by (simp_all add: monitor_start_def monitor_stop_def monitor_getPeers_def)

text \<open>A change of a subscription that the specification does not see.\<close>

lemma absFilter_same: "jm_get (fs_subs F) topic = Some S \<Longrightarrow> absSub S' = absSub S \<Longrightarrow> absFilter E (F\<lparr>fs_subs := jm_set topic S' (fs_subs F)\<rparr>) = absFilter E F"
  by (auto simp: absFilter_def fun_eq_iff)

lemma onSub_same: "(\<And>S. absSub (f S) = absSub S) \<Longrightarrow> absFilter E (onSub topic f F) = absFilter E F"
  by (auto simp: onSub_def absFilter_same simp del: absFilter_set split: option.split)

lemma onSub_topics: "topicsInv F \<Longrightarrow> (\<And>S. su_pubsubTopic (f S) = su_pubsubTopic S) \<Longrightarrow> topicsInv (onSub topic f F)"
  by (auto simp: onSub_def topicsInv_def split: option.split)

lemma topicsInv_set: "topicsInv F \<Longrightarrow> su_pubsubTopic S = topic \<Longrightarrow> topicsInv (F\<lparr>fs_subs := jm_set topic S (fs_subs F)\<rparr>)"
  by (auto simp: topicsInv_def)

lemma topicsInv_fields [simp]: "topicsInv (F\<lparr>fs_conns := c\<rparr>) = topicsInv F"
  by (simp add: topicsInv_def)

text \<open>One message.\<close>

lemma processIncomingMessage_spec:
  assumes "processIncomingMessage (fe_hashOf E) (fe_first E) message p S = Inr S'"
  shows "su_pubsubTopic S' = su_pubsubTopic S" and "\<exists>hash. fe_hashOf E (su_pubsubTopic S) message = Inr hash \<and>
    absSub S' = (if hash \<in> sp_seen (absSub S) then absSub S
      else (absSub S)\<lparr>sp_seen := insert hash (sp_seen (absSub S)),
        sp_handed := sp_handed (absSub S) @ handover E (su_pubsubTopic S) (sp_wants (absSub S)) message hash\<rparr>)"
proof -
  obtain hash where hash: "fe_hashOf E (su_pubsubTopic S) message = Inr hash"
    using assms by (auto simp: processIncomingMessage_def rbind_eq_Inr)
  note run = assms [unfolded processIncomingMessage_def hash rbind_simps notifyMessageReceived_def Let_def]
  have "su_pubsubTopic S' = su_pubsubTopic S \<and> absSub S' = (if hash \<in> sp_seen (absSub S) then absSub S
      else (absSub S)\<lparr>sp_seen := insert hash (sp_seen (absSub S)),
        sp_handed := sp_handed (absSub S) @ handover E (su_pubsubTopic S) (sp_wants (absSub S)) message hash\<rparr>)"
    using run by (auto simp: absSub_def handover_def pushMessage_def Let_def split: if_splits option.splits prod.splits list.splits)
  with hash show "su_pubsubTopic S' = su_pubsubTopic S" and "\<exists>hash. fe_hashOf E (su_pubsubTopic S) message = Inr hash \<and>
    absSub S' = (if hash \<in> sp_seen (absSub S) then absSub S
      else (absSub S)\<lparr>sp_seen := insert hash (sp_seen (absSub S)),
        sp_handed := sp_handed (absSub S) @ handover E (su_pubsubTopic S) (sp_wants (absSub S)) message hash\<rparr>)"
    by blast+
qed

text \<open>The callbacks that a finished subscription saves are those it asked for.\<close>

lemma saveCallbacks_get:
  "jm_wf grouped \<Longrightarrow> jm_get (saveCallbacks reserved grouped callback callbacks) =
     jm_get callbacks ++ (\<lambda>ct. if ct = reserved then None else map_option (\<lambda>ds. (ds, callback)) (jm_get grouped ct))"
proof (induction grouped arbitrary: callbacks)
  case Nil
  then show ?case by (auto simp: saveCallbacks_def fun_eq_iff map_add_def jm_get_def)
next
  case (Cons g grouped)
  obtain ct ds where g: "g = (ct, ds)" by fastforce
  have wf: "jm_wf grouped" "ct \<notin> fst ` set grouped" using Cons.prems by (simp_all add: g jm_wf_def jm_keys_def)
  then have none: "jm_get grouped ct = None" by (simp add: jm_get_def map_of_eq_None_iff)
  have cons: "jm_get ((ct, ds) # grouped) x = (if x = ct then Some ds else jm_get grouped x)" for x by (simp add: jm_get_def)
  have "saveCallbacks reserved (g # grouped) callback callbacks =
      saveCallbacks reserved grouped callback (if ct = reserved then callbacks else jm_set ct (ds, callback) callbacks)"
    by (simp add: saveCallbacks_def g)
  then show ?case
    using Cons.IH [OF wf(1)] none cons by (auto simp: g fun_eq_iff map_add_def split: option.split)
qed

text \<open>A new request.\<close>

lemma absSub_new [simp]: "absSub (newSubscription topic) = emptySub"
  by (auto simp: absSub_def newSubscription_def emptySub_def jm_get_def)

lemma createSubscription_spec:
  assumes "createSubscription (fe_pubsubTopics E) peers topic (fs_subs F) = Inr (subs, None)" and inv: "topicsInv F"
  shows "topicsInv (F\<lparr>fs_subs := subs\<rparr>)" and "jm_get subs topic \<noteq> None"
    and "(filter_step E)\<^sup>*\<^sup>* (absFilter E F) (absFilter E (F\<lparr>fs_subs := subs\<rparr>))"
proof -
  have configured: "topic \<in> set (fe_pubsubTopics E)"
    using assms(1) by (auto simp: createSubscription_def ensurePubsubTopicIsConfigured_def rbind_eq_Inr split: if_splits)
  have "topicsInv (F\<lparr>fs_subs := subs\<rparr>) \<and> jm_get subs topic \<noteq> None \<and>
      (filter_step E)\<^sup>*\<^sup>* (absFilter E F) (absFilter E (F\<lparr>fs_subs := subs\<rparr>))"
  proof (cases "jm_get (fs_subs F) topic")
    case None
    then have subs: "subs = jm_set topic (newSubscription topic) (fs_subs F)"
      using assms(1) by (auto simp: createSubscription_def rbind_eq_Inr split: if_splits)
    have "filter_step E (absFilter E F) (absFilter E (F\<lparr>fs_subs := subs\<rparr>))"
      using opens [OF configured, of "absFilter E F"] None by (simp add: subs)
    moreover have "topicsInv (F\<lparr>fs_subs := subs\<rparr>)"
      unfolding subs by (rule topicsInv_set [OF inv]) (simp add: newSubscription_def)
    ultimately show ?thesis by (simp add: subs)
  next
    case (Some S)
    then have "F\<lparr>fs_subs := subs\<rparr> = F" "jm_get subs topic \<noteq> None"
      using assms(1) by (auto simp: createSubscription_def rbind_eq_Inr split: if_splits)
    then show ?thesis using inv by simp
  qed
  then show "topicsInv (F\<lparr>fs_subs := subs\<rparr>)" "jm_get subs topic \<noteq> None"
    "(filter_step E)\<^sup>*\<^sup>* (absFilter E F) (absFilter E (F\<lparr>fs_subs := subs\<rparr>))" by blast+
qed

lemma getUnique_single: "getUniquePubsubTopics decoders = [topic] \<Longrightarrow> decoders \<noteq> [] \<and> (\<forall>d \<in> set decoders. fd_pubsubTopic d = topic)"
proof -
  assume u: "getUniquePubsubTopics decoders = [topic]"
  then have "set (map fd_pubsubTopic decoders) = {topic}" by (metis getUniquePubsubTopics_def set_uniq list.set(1,2))
  then show ?thesis by auto
qed

lemma askedBy_request:
  assumes "subscription_subscribe (fe_config E) (fe_decoderFor E) (fe_ownPeerId E) conns decoders S = Inr (S', request)"
    and "su_pubsubTopic S = topic"
  shows "askedBy E (topic, request, callback) = (topic, wanted E topic decoders callback)" and "jm_wf (sr_grouped request)"
    and "absSub S' = absSub S" and "su_pubsubTopic S' = topic"
proof -
  have request: "sr_grouped request = groupByKey fd_contentTopic (withCheck E topic decoders)" "S' = monitor_getPeers conns S"
    using assms by (auto simp: subscription_subscribe_def withCheck_def Let_def split: if_splits)
  then show "askedBy E (topic, request, callback) = (topic, wanted E topic decoders callback)"
    by (auto simp: askedBy_def wanted_def groupByKey_get fun_eq_iff)
  show "jm_wf (sr_grouped request)" unfolding request by (rule groupByKey_wf)
  show "absSub S' = absSub S" "su_pubsubTopic S' = topic" using assms(2) by (simp_all add: request)
qed

text \<open>Each event keeps the topics and is some steps of the specification.\<close>

definition simulates :: "'t filterEnv \<Rightarrow> 't filterState \<Rightarrow> 't filterState \<Rightarrow> bool" where
  "simulates E F F' \<longleftrightarrow> topicsInv F' \<and> (filter_step E)\<^sup>*\<^sup>* (absFilter E F) (absFilter E F')"

lemma simulates_refl: "topicsInv F \<Longrightarrow> simulates E F F"
  by (simp add: simulates_def)

lemma simulates_onSub:
  assumes inv: "topicsInv F" and topic: "\<And>S. su_pubsubTopic (f S) = su_pubsubTopic S"
    and step: "\<And>S. jm_get (fs_subs F) topic = Some S \<Longrightarrow>
      (filter_step E)\<^sup>*\<^sup>* (absFilter E F) ((absFilter E F)\<lparr>fsp_subs := (fsp_subs (absFilter E F))(topic \<mapsto> absSub (f S))\<rparr>)"
  shows "simulates E F (onSub topic f F)"
  using onSub_topics [OF inv topic, of topic] step by (auto simp: simulates_def onSub_def split: option.split)

lemma simulates_quiet:
  "topicsInv F \<Longrightarrow> (\<And>S. su_pubsubTopic (f S) = su_pubsubTopic S) \<Longrightarrow> (\<And>S. absSub (f S) = absSub S) \<Longrightarrow> simulates E F (onSub topic f F)"
  by (simp add: simulates_def onSub_topics onSub_same)

lemma simulates_Incoming:
  assumes inv: "topicsInv F"
  shows "simulates E F (filterExec E (Incoming topic message peer) F)"
proof (cases "handleIncomingMessage (fe_hashOf E) (fe_first E) topic message peer (fs_subs F)")
  case (Inl e)
  then show ?thesis using inv by (simp add: simulates_refl)
next
  case (Inr subs)
  show ?thesis
  proof (cases "jm_get (fs_subs F) topic")
    case None
    then have "F\<lparr>fs_subs := subs\<rparr> = F" using Inr by (simp add: handleIncomingMessage_def)
    then show ?thesis using Inr inv by (simp add: simulates_refl)
  next
    case (Some S)
    then obtain S' where S': "processIncomingMessage (fe_hashOf E) (fe_first E) message peer S = Inr S'" "subs = jm_set topic S' (fs_subs F)"
      using Inr by (auto simp: handleIncomingMessage_def rbind_eq_Inr)
    have topic: "su_pubsubTopic S = topic" using inv Some by (simp add: topicsInv_def)
    obtain hash where hash: "fe_hashOf E topic message = Inr hash" "absSub S' = (if hash \<in> sp_seen (absSub S) then absSub S
        else (absSub S)\<lparr>sp_seen := insert hash (sp_seen (absSub S)),
          sp_handed := sp_handed (absSub S) @ handover E topic (sp_wants (absSub S)) message hash\<rparr>)"
      using processIncomingMessage_spec(2) [OF S'(1)] topic by blast
    have "topicsInv (F\<lparr>fs_subs := subs\<rparr>)"
      unfolding S'(2) by (rule topicsInv_set [OF inv]) (simp add: processIncomingMessage_spec(1) [OF S'(1)] topic)
    moreover have "(filter_step E)\<^sup>*\<^sup>* (absFilter E F) (absFilter E (F\<lparr>fs_subs := subs\<rparr>))"
    proof (cases "hash \<in> sp_seen (absSub S)")
      case True
      then show ?thesis unfolding S'(2) using absFilter_same [OF Some] hash(2) by simp
    next
      case False
      then show ?thesis
        unfolding S'(2) using receives [of "absFilter E F" topic "absSub S" E message hash] Some hash by simp
    qed
    ultimately show ?thesis using Inr by (simp add: simulates_def)
  qed
qed

lemma simulates_Subscribe:
  assumes inv: "topicsInv F"
  shows "simulates E F (filterExec E (Subscribe decoders callback) F)"
proof -
  let ?F' = "filterExec E (Subscribe decoders callback) F"
  let ?subscribe = "filterSdk_subscribe (fe_pubsubTopics E) (getPeers (fs_conns F)) decoders (fs_subs F)"
  show ?thesis
  proof (cases "\<exists>subs topic. ?subscribe = Inr (subs, Inr topic)")
    case False
    then have "?F' = F" by (auto split: sum.split prod.split)
    then show ?thesis using inv by (simp add: simulates_refl)
  next
    case True
    then obtain subs topic where opened: "?subscribe = Inr (subs, Inr topic)" by blast
    have unique: "getUniquePubsubTopics decoders = [topic]"
      and created: "createSubscription (fe_pubsubTopics E) (getPeers (fs_conns F)) topic (fs_subs F) = Inr (subs, None)"
      using opened by (auto simp: filterSdk_subscribe_def rbind_eq_Inr split: list.splits option.splits)
    let ?F = "F\<lparr>fs_subs := subs\<rparr>"
    note new = createSubscription_spec [OF created inv]
    obtain S where S: "jm_get subs topic = Some S" using new(2) by blast
    then have topic: "su_pubsubTopic S = topic" using new(1) by (simp add: topicsInv_def)
    show ?thesis
    proof (cases "subscription_subscribe (fe_config E) (fe_decoderFor E) (fe_ownPeerId E) (fs_conns F) decoders S")
      case (Inl r)
      then show ?thesis using new opened S by (simp add: simulates_def)
    next
      case (Inr r)
      obtain S' request where r: "r = (S', request)" by fastforce
      have F'_eq: "?F' = F\<lparr>fs_subs := jm_set topic S' subs, fs_pending := fs_pending F @ [(topic, request, callback)]\<rparr>"
        using opened S Inr r by simp
      note request = askedBy_request [OF Inr [unfolded r] topic]
      have "absFilter E (?F\<lparr>fs_subs := jm_set topic S' subs\<rparr>) = absFilter E ?F"
        using absFilter_same [of ?F topic S S' E] S request(3) by simp
      then have F': "absFilter E ?F' = (absFilter E ?F)\<lparr>fsp_asked := insert (topic, wanted E topic decoders callback) (fsp_asked (absFilter E ?F))\<rparr>"
        unfolding F'_eq by (simp add: absFilter_def request(1))
      have "filter_step E (absFilter E ?F) (absFilter E ?F')"
        unfolding F' by (rule asks) (use S getUnique_single [OF unique] in simp_all)
      moreover have "topicsInv ?F'"
        using topicsInv_set [OF new(1) request(4)] request(2) unfolding F'_eq by (simp add: topicsInv_def)
      ultimately show ?thesis using new(3) by (simp add: simulates_def)
    qed
  qed
qed

lemma simulates_Subscribed:
  assumes inv: "topicsInv F"
  shows "simulates E F (filterExec E (Subscribed i results) F)"
proof (cases "i < length (fs_pending F)")
  case True
  obtain topic request callback where req: "fs_pending F ! i = (topic, request, callback)" by (metis prod_cases3)
  then have pending: "(topic, request, callback) \<in> set (fs_pending F)" using True nth_mem by metis
  then have wf: "jm_wf (sr_grouped request)" using inv by (auto simp: topicsInv_def)
  let ?f = "\<lambda>S. fst (subscription_subscribed (fe_ownPeerId E) request callback results S)"
  have "simulates E F (onSub topic ?f F)"
  proof (rule simulates_onSub [OF inv])
    show "su_pubsubTopic (?f S) = su_pubsubTopic S" for S by (simp add: subscription_subscribed_def)
    fix S assume S: "jm_get (fs_subs F) topic = Some S"
    have "(topic, snd (askedBy E (topic, request, callback))) \<in> fsp_asked (absFilter E F)"
      using pending by (force simp: absFilter_def askedBy_def)
    moreover have "absSub (?f S) = (absSub S)\<lparr>sp_wants := sp_wants (absSub S) ++ snd (askedBy E (topic, request, callback))\<rparr>"
      by (simp add: subscription_subscribed_def saveCallbacks_get [OF wf] askedBy_def) (simp add: absSub_def)
    ultimately show "(filter_step E)\<^sup>*\<^sup>* (absFilter E F) ((absFilter E F)\<lparr>fsp_subs := (fsp_subs (absFilter E F))(topic \<mapsto> absSub (?f S))\<rparr>)"
      using subscribes [of "absFilter E F" topic "absSub S" "snd (askedBy E (topic, request, callback))" E] S by simp
  qed
  with True req show ?thesis by simp
next
  case False
  then show ?thesis using inv by (simp add: simulates_refl)
qed

lemma simulates_forget:
  assumes inv: "topicsInv F" and f: "\<And>S. su_pubsubTopic (f S) = su_pubsubTopic S"
    "\<And>S. absSub (f S) = (absSub S)\<lparr>sp_wants := sp_wants (absSub S) |` (- T)\<rparr>"
  shows "simulates E F (onSub topic f F)"
proof (rule simulates_onSub [OF inv f(1)])
  fix S assume "jm_get (fs_subs F) topic = Some S"
  then show "(filter_step E)\<^sup>*\<^sup>* (absFilter E F) ((absFilter E F)\<lparr>fsp_subs := (fsp_subs (absFilter E F))(topic \<mapsto> absSub (f S))\<rparr>)"
    unfolding f(2) using forgets [of "absFilter E F" topic "absSub S" E T] by simp
qed

lemma absSub_unsubscribed:
  "absSub (fst (subscription_unsubscribed cts results S)) = (absSub S)\<lparr>sp_wants :=
     jm_get (fold (\<lambda>r c. case r of Inl _ \<Rightarrow> c | Inr _ \<Rightarrow> fold jm_delete cts c) results (su_callbacks S))\<rparr>"
  by (simp only: subscription_unsubscribed_def Let_def unsubscribe_fold fst_conv if_distrib [of absSub] absSub_fields if_cancel)

lemma unsubscribed_spec:
  "absSub (fst (subscription_unsubscribed cts results S)) =
     (absSub S)\<lparr>sp_wants := sp_wants (absSub S) |` (- (if \<exists>r \<in> set results. \<not> isl r then set cts else {}))\<rparr>"
  "su_pubsubTopic (fst (subscription_unsubscribed cts results S)) = su_pubsubTopic S"
proof -
  define callbacks where "callbacks = fold (\<lambda>r c. case r of Inl _ \<Rightarrow> c | Inr _ \<Rightarrow> fold jm_delete cts c) results (su_callbacks S)"
  have get: "jm_get callbacks = jm_get (su_callbacks S) |` (- (if \<exists>r \<in> set results. \<not> isl r then set cts else {}))"
    unfolding callbacks_def by (auto simp: fun_eq_iff fold_delete_callbacks restrict_map_def)
  show "absSub (fst (subscription_unsubscribed cts results S)) =
     (absSub S)\<lparr>sp_wants := sp_wants (absSub S) |` (- (if \<exists>r \<in> set results. \<not> isl r then set cts else {}))\<rparr>"
    by (simp only: absSub_unsubscribed [of cts results S, folded callbacks_def] get) (simp add: absSub_def)
  show "su_pubsubTopic (fst (subscription_unsubscribed cts results S)) = su_pubsubTopic S"
    by (simp add: subscription_unsubscribed_def Let_def unsubscribe_fold)
qed

lemma unsubscribedAll_spec:
  "absSub (fst (subscription_unsubscribedAll results S)) = (absSub S)\<lparr>sp_wants := sp_wants (absSub S) |` (- UNIV)\<rparr>"
  by (simp add: subscription_unsubscribedAll_def) (auto simp: absSub_def jm_get_def fun_eq_iff)

lemma simulates_Pinged:
  assumes inv: "topicsInv F"
  shows "simulates E F (filterExec E (Pinged topic peer renew response) F)"
proof (cases "jm_get (fs_subs F) topic")
  case (Some S)
  obtain S' conns call where ping: "monitor_ping (fe_config E) (fe_numPeers E) peer renew response (S, fs_conns F) = ((S', conns), call)"
    by (metis prod.exhaust)
  then have same: "absSub S' = absSub S" "su_pubsubTopic S' = su_pubsubTopic S"
    by (auto simp: monitor_ping_def Let_def split: if_splits prod.splits coreResult.splits)
  have "topicsInv (F\<lparr>fs_subs := jm_set topic S' (fs_subs F)\<rparr>)"
    using inv Some same(2) by (intro topicsInv_set) (auto simp: topicsInv_def)
  moreover have "absFilter E (F\<lparr>fs_subs := jm_set topic S' (fs_subs F), fs_conns := conns\<rparr>) = absFilter E F"
    using absFilter_same [OF Some same(1), of E] by (simp del: absFilter_set)
  ultimately show ?thesis using Some ping by (simp add: simulates_def del: absFilter_set)
qed (use inv in \<open>simp add: simulates_refl\<close>)

lemma monitor_quiet:
  "absSub (fst (monitor_onPeerConnected conns S)) = absSub S" "su_pubsubTopic (fst (monitor_onPeerConnected conns S)) = su_pubsubTopic S"
  "absSub (fst (monitor_onPeerDisconnected p conns S)) = absSub S" "su_pubsubTopic (fst (monitor_onPeerDisconnected p conns S)) = su_pubsubTopic S"
  "absSub (fst (monitor_onConnectionChange b S)) = absSub S" "su_pubsubTopic (fst (monitor_onConnectionChange b S)) = su_pubsubTopic S"
  "absSub (monitor_onConnectionChange_end S) = absSub S" "su_pubsubTopic (monitor_onConnectionChange_end S) = su_pubsubTopic S"
  by (simp_all add: monitor_onPeerConnected_def monitor_onPeerDisconnected_def monitor_onConnectionChange_def
    monitor_onConnectionChange_end_def Let_def)

lemma filterExec_simulates: "topicsInv F \<Longrightarrow> simulates E F (filterExec E e F)"
proof (cases e)
  case (Incoming topic message peer)
  then show "topicsInv F \<Longrightarrow> ?thesis" by (simp only: simulates_Incoming)
next
  case (Subscribe decoders callback)
  then show "topicsInv F \<Longrightarrow> ?thesis" by (simp only: simulates_Subscribe)
next
  case (Subscribed i results)
  then show "topicsInv F \<Longrightarrow> ?thesis" by (simp only: simulates_Subscribed)
next
  case (Unsubscribed topic cts results)
  then show "topicsInv F \<Longrightarrow> ?thesis" using simulates_forget [OF _ unsubscribed_spec(2,1)] by simp
next
  case (UnsubscribedAll topic results)
  then show "topicsInv F \<Longrightarrow> ?thesis"
    using simulates_forget [OF _ _ unsubscribedAll_spec] by (simp add: subscription_unsubscribedAll_def)
next
  case (Pinged topic peer renew response)
  then show "topicsInv F \<Longrightarrow> ?thesis" by (simp only: simulates_Pinged)
next
  case (Connections conns)
  then show "topicsInv F \<Longrightarrow> ?thesis" by (simp add: simulates_def)
qed (simp_all add: simulates_quiet monitor_quiet)

interpretation filterRefinement: refinement "\<lambda>F. F = newFilter" "filterExec E" topicsInv "absFilter E" emptySpec "filter_step E"
  for E :: "'t filterEnv"
proof
  fix F :: "'t filterState" and e
  show "F = newFilter \<Longrightarrow> topicsInv F" by (simp add: topicsInv_def newFilter_def)
  show "F = newFilter \<Longrightarrow> absFilter E F = emptySpec"
    by (simp add: absFilter_def newFilter_def emptySpec_def jm_get_def)
  assume "topicsInv F"
  from filterExec_simulates [OF this, of E e]
  show "topicsInv (filterExec E e F)" "(filter_step E)\<^sup>*\<^sup>* (absFilter E F) (absFilter E (filterExec E e F))"
    by (simp_all add: simulates_def)
qed

text \<open>Only \<open>subscribe\<close> asks for something.\<close>

lemma onSub_pending [simp]: "fs_pending (onSub topic f F) = fs_pending F"
  by (simp add: onSub_def split: option.split)

lemma filterExec_asked:
  assumes inv: "topicsInv F" and r: "r \<in> fsp_asked (absFilter E (filterExec E e F))" and new: "r \<notin> fsp_asked (absFilter E F)"
  shows "\<exists>topic decoders callback. e = Subscribe decoders callback \<and> r = (topic, wanted E topic decoders callback)"
proof -
  have pending: "fs_pending (filterExec E e F) \<noteq> fs_pending F" using r new by (auto simp: absFilter_def)
  then obtain decoders callback where e: "e = Subscribe decoders callback"
    by (cases e) (auto split: sum.splits option.splits prod.splits if_splits)
  obtain subs topic S S' request where opened: "filterSdk_subscribe (fe_pubsubTopics E) (getPeers (fs_conns F)) decoders (fs_subs F) = Inr (subs, Inr topic)"
    and S: "jm_get subs topic = Some S"
    and request: "subscription_subscribe (fe_config E) (fe_decoderFor E) (fe_ownPeerId E) (fs_conns F) decoders S = Inr (S', request)"
    and F': "filterExec E e F = F\<lparr>fs_subs := jm_set topic S' subs, fs_pending := fs_pending F @ [(topic, request, callback)]\<rparr>"
    using pending by (auto simp: e split: sum.splits option.splits prod.splits)
  have "createSubscription (fe_pubsubTopics E) (getPeers (fs_conns F)) topic (fs_subs F) = Inr (subs, None)"
    using opened by (auto simp: filterSdk_subscribe_def rbind_eq_Inr split: list.splits option.splits)
  from createSubscription_spec(1) [OF this inv] S have topic: "su_pubsubTopic S = topic" by (simp add: topicsInv_def)
  have "r = askedBy E (topic, request, callback)" using r new unfolding F' by (auto simp: absFilter_def)
  then show ?thesis using askedBy_request(1) [OF request topic, of callback] e by blast
qed

section \<open>What the specification keeps\<close>

text \<open>A message that was handed over was decoded by a decoder that was asked for with this callback and this content topic.\<close>

definition decodedFor :: "'t filterEnv \<Rightarrow> string \<Rightarrow> 't wants \<Rightarrow> string \<times> nat \<times> 't \<Rightarrow> bool" where
  "decodedFor E topic w = (\<lambda>(hash, callback, m). \<exists>message decoders d. fe_hashOf E topic message = Inr hash \<and>
     w (wire_contentTopic message) = Some (decoders, callback) \<and> d \<in> set decoders \<and> fd_fromProtoObj d topic message = Inr (Some m))"

definition backed :: "'t filterEnv \<Rightarrow> (string \<times> 't wants) set \<Rightarrow> string \<Rightarrow> 't subSpec \<Rightarrow> bool" where
  "backed E asked topic s \<longleftrightarrow>
     (\<forall>ct v. sp_wants s ct = Some v \<longrightarrow> (\<exists>w. (topic, w) \<in> asked \<and> w ct = Some v)) \<and>
     (\<forall>h \<in> set (sp_handed s). \<exists>w. (topic, w) \<in> asked \<and> decodedFor E topic w h)"

lemma backed_mono: "backed E asked topic s \<Longrightarrow> asked \<subseteq> asked' \<Longrightarrow> backed E asked' topic s"
  unfolding backed_def by blast

lemma map_filter_mem: "y \<in> set (List.map_filter f xs) \<Longrightarrow> \<exists>x \<in> set xs. f x = Some y"
  by (auto simp: List.map_filter_def)

lemma handover_decoded:
  assumes first: "\<And>xs. set (fe_first E xs) \<subseteq> set xs" and hash: "fe_hashOf E topic message = Inr hash"
    and h: "h \<in> set (handover E topic wants message hash)"
  obtains v where "wants (wire_contentTopic message) = Some v"
    and "\<And>w. w (wire_contentTopic message) = Some v \<Longrightarrow> decodedFor E topic w h"
proof -
  obtain decoders callback where wants: "wants (wire_contentTopic message) = Some (decoders, callback)"
    using h by (cases "wants (wire_contentTopic message)") (auto simp: handover_def)
  define decoded where "decoded = List.map_filter (\<lambda>d. case fd_fromProtoObj d topic message of Inr (Some m) \<Rightarrow> Some m | _ \<Rightarrow> None) decoders"
  have "h \<in> set (case fe_first E decoded of [] \<Rightarrow> [] | m # _ \<Rightarrow> [(hash, callback, m)])"
    using h by (simp add: handover_def wants decoded_def split: if_splits)
  then obtain m rest where m: "fe_first E decoded = m # rest" and hm: "h = (hash, callback, m)"
    by (cases "fe_first E decoded") simp_all
  have "m \<in> set decoded" using first [of decoded] m by simp
  then obtain d where "d \<in> set decoders" "(case fd_fromProtoObj d topic message of Inr (Some m) \<Rightarrow> Some m | _ \<Rightarrow> None) = Some m"
    unfolding decoded_def by (auto dest: map_filter_mem)
  then have "d \<in> set decoders" "fd_fromProtoObj d topic message = Inr (Some m)" by (simp_all split: sum.splits option.splits)
  then have "w (wire_contentTopic message) = Some (decoders, callback) \<Longrightarrow> decodedFor E topic w h" for w
    using hash by (auto simp: decodedFor_def hm)
  with wants show thesis by (rule that)
qed

lemma filter_step_backed:
  assumes "filter_step E A A'" and first: "\<And>xs. set (fe_first E xs) \<subseteq> set xs"
    and "\<And>topic s. fsp_subs A topic = Some s \<Longrightarrow> backed E (fsp_asked A) topic s"
    and "fsp_subs A' topic = Some s"
  shows "backed E (fsp_asked A') topic s"
  using assms(1,3,4)
proof (cases rule: filter_step.cases)
  case (asks topic' decoders callback)
  then show ?thesis using assms(3,4) by (auto intro: backed_mono)
next
  case (receives topic' s' message hash)
  have handed: "\<exists>w. (topic', w) \<in> fsp_asked A \<and> decodedFor E topic' w h" if "h \<in> set (handover E topic' (sp_wants s') message hash)" for h
    using handover_decoded [OF first receives(3) that] assms(3) [OF receives(2)] unfolding backed_def by metis
  show ?thesis
    using receives(1,2) assms(3,4) handed by (fastforce simp: backed_def split: if_splits)
qed (use assms(3,4) in \<open>fastforce simp: backed_def emptySub_def restrict_map_def split: if_splits\<close>)+

lemma filter_reachable_backed:
  assumes "(filter_step E)\<^sup>*\<^sup>* emptySpec A" and first: "\<And>xs. set (fe_first E xs) \<subseteq> set xs"
  shows "fsp_subs A topic = Some s \<Longrightarrow> backed E (fsp_asked A) topic s"
  using assms(1)
proof (induction arbitrary: topic s)
  case base
  then show ?case by (simp add: emptySpec_def)
next
  case (step A A')
  then show ?case using filter_step_backed [OF _ first] by blast
qed

text \<open>Every request that is under way comes from a call of \<open>subscribe\<close>.\<close>

lemma asked_subscribed:
  "r \<in> fsp_asked (absFilter E (runEvents (filterExec E) evs newFilter)) \<Longrightarrow>
     \<exists>topic decoders callback. Subscribe decoders callback \<in> set evs \<and> r = (topic, wanted E topic decoders callback)"
proof (induction evs rule: rev_induct)
  case Nil
  then show ?case by (simp add: runEvents_def absFilter_def newFilter_def)
next
  case (snoc e evs)
  let ?F = "runEvents (filterExec E) evs newFilter"
  have run: "runEvents (filterExec E) (evs @ [e]) newFilter = filterExec E e ?F" by (simp add: runEvents_def)
  have inv: "topicsInv ?F" by (rule filterRefinement.run_from_start) simp
  show ?case
  proof (cases "r \<in> fsp_asked (absFilter E ?F)")
    case True
    then show ?thesis using snoc.IH by fastforce
  next
    case False
    then show ?thesis using snoc.prems filterExec_asked [OF inv] unfolding run by fastforce
  qed
qed

section \<open>Properties\<close>


text \<open>C11: What is handed to a callback was asked for with it. The application called \<open>subscribe\<close> with this callback and decoders of
  which one, with the content topic of the message, decoded it; the content topic is not the reserved one of the filter check. The
  decoded message that \<open>Promise.any\<close> selects is one of those it is given.\<close>

theorem handed_was_subscribed:
  assumes first: "\<And>xs. set (fe_first E xs) \<subseteq> set xs"
    and S: "jm_get (fs_subs (runEvents (filterExec E) evs newFilter)) topic = Some S"
    and handed: "(hash, callback, m) \<in> set (su_log S)"
  shows "\<exists>decoders d message. Subscribe decoders callback \<in> set evs \<and> d \<in> set (withCheck E topic decoders) \<and>
    fd_contentTopic d = wire_contentTopic message \<and> fd_contentTopic d \<noteq> reservedContentTopic (fe_ownPeerId E) \<and>
    fe_hashOf E topic message = Inr hash \<and> fd_fromProtoObj d topic message = Inr (Some m)"
proof -
  let ?A = "absFilter E (runEvents (filterExec E) evs newFilter)"
  have run: "(filter_step E)\<^sup>*\<^sup>* emptySpec ?A" by (rule filterRefinement.run_refines) simp
  have "backed E (fsp_asked ?A) topic (absSub S)"
    by (rule filter_reachable_backed [OF run first]) (simp add: S)
  then obtain w where asked: "(topic, w) \<in> fsp_asked ?A" and decoded: "decodedFor E topic w (hash, callback, m)"
    using handed by (auto simp: backed_def absSub_def)
  from asked_subscribed [OF asked] obtain decoders callback' where
    subscribe: "Subscribe decoders callback' \<in> set evs" "w = wanted E topic decoders callback'" by blast
  obtain message ds d where d: "fe_hashOf E topic message = Inr hash" "w (wire_contentTopic message) = Some (ds, callback)" "d \<in> set ds"
    "fd_fromProtoObj d topic message = Inr (Some m)"
    using decoded unfolding decodedFor_def by blast
  have wants: "ds = filter (\<lambda>d. fd_contentTopic d = wire_contentTopic message) (withCheck E topic decoders)" "callback' = callback"
    "wire_contentTopic message \<noteq> reservedContentTopic (fe_ownPeerId E)"
    using d(2) unfolding subscribe(2) wanted_def by (simp_all split: if_splits)
  show ?thesis
    by (intro exI [of _ decoders] exI [of _ d] exI [of _ message]) (use subscribe(1) wants d in simp)
qed

definition wit_decoder :: "nat subDecoder" where
  "wit_decoder = \<lparr>fd_pubsubTopic = ''t'', fd_contentTopic = ''c'', fd_fromProtoObj = (\<lambda>_ _. Inr (Some 5))\<rparr>"

definition wit_message :: wireMessage where
  "wit_message = \<lparr>wire_payload = [], wire_contentTopic = ''c'', wire_version = Absent, wire_timestamp = Absent, wire_meta = Absent,
     wire_rateLimitProof = Absent, wire_ephemeral = Absent\<rparr>"

definition wit_env :: "nat filterEnv" where
  "wit_env = \<lparr>fe_pubsubTopics = [''t''], fe_config = \<lparr>fc_keepAliveIntervalMs = 0, fc_pingsBeforePeerRenewed = 3, fc_enableLightPushFilterCheck = False\<rparr>,
     fe_numPeers = 2, fe_ownPeerId = ''me'', fe_decoderFor = (\<lambda>ct t. \<lparr>fd_pubsubTopic = t, fd_contentTopic = ct, fd_fromProtoObj = (\<lambda>_ _. Inr None)\<rparr>),
     fe_hashOf = (\<lambda>_ _. Inr ''h''), fe_first = (\<lambda>xs. xs)\<rparr>"

definition wit_events :: "nat filterEvent list" where
  "wit_events = [Connections [\<lparr>lc_remotePeer = ''p'', lc_status = ''open'', lc_tags = [CONNECTION_LOCK_TAG]\<rparr>], Subscribe [wit_decoder] 7,
     Subscribed 0 [Inr (CSuccess ''p'')], Incoming ''t'' wit_message ''p'']"

lemma wit_run: "map_option su_log (jm_get (fs_subs (runEvents (filterExec wit_env) wit_events newFilter)) ''t'') = Some [(''h'', 7, 5)]"
  by code_simp

theorem handed_was_subscribed_witness:
  "\<exists>decoders d message. Subscribe decoders 7 \<in> set wit_events \<and> d \<in> set (withCheck wit_env ''t'' decoders) \<and>
    fd_contentTopic d = wire_contentTopic message \<and> fd_contentTopic d \<noteq> reservedContentTopic (fe_ownPeerId wit_env) \<and>
    fe_hashOf wit_env ''t'' message = Inr ''h'' \<and> fd_fromProtoObj d ''t'' message = Inr (Some 5)"
proof -
  obtain S where S: "jm_get (fs_subs (runEvents (filterExec wit_env) wit_events newFilter)) ''t'' = Some S" "su_log S = [(''h'', 7, 5)]"
    using wit_run by auto
  show ?thesis
    by (rule handed_was_subscribed [OF _ S(1)]) (simp_all add: wit_env_def S(2))
qed

end
