(* ===== verification/CipherDelivery.thy ===== *)
theory CipherDelivery
  imports CipherWire FilterWire RelayNode
begin

text \<open>
  Encrypted messages through relay and filter: an application that subscribes to a content topic with decoders of version 0 and with the
  decoder of \<open>message-encryption/src/ecies.ts\<close> gets an encrypted message once, from the decoder that has the key.
\<close>

section \<open>Encoders and decoders of both kinds\<close>

text \<open>What a subscription hands over: a message of version 0 or a decrypted one.\<close>

datatype anyMessage = Plain decodedMessage | Decrypted encryptedMessage

definition sealingEncoder ::
  "'w pbRuntime \<Rightarrow> cryptoLib \<Rightarrow> bytes \<Rightarrow> bytes \<Rightarrow> (nat \<Rightarrow> bytes) \<Rightarrow> eciesEncoder \<Rightarrow> date \<Rightarrow> iencoder" where
  "sealingEncoder RT C ephemPrivateKey iv randomPad enc now =
     \<lparr>ie_pubsubTopic = ce_pubsubTopic enc, ie_contentTopic = ce_contentTopic enc,
      ie_toWire = (\<lambda>m. rbind (eciesEncoder_toWire (wakuEncode RT) C ephemPrivateKey iv randomPad enc now m) (\<lambda>bs. Inr (Some bs))),
      ie_toProtoObj = (\<lambda>m. rbind (ecies_toProtoObj C ephemPrivateKey iv (ee_publicKey enc) randomPad (cipherEncoder.truncate enc) now m)
                                 (\<lambda>p. Inr (Some p)))\<rparr>"

definition plainRelay :: "'w pbRuntime \<Rightarrow> decoder \<Rightarrow> anyMessage relayDecoder" where
  "plainRelay RT dec =
     \<lparr>rd_pubsubTopic = dec_pubsubTopic dec, rd_contentTopic = dec_contentTopic dec,
      rd_fromWireToProtoObj = (\<lambda>bs. rbind (fromWireToProtoObj (wakuDecode RT) bs) (\<lambda>p. Inr (Some p))),
      rd_fromProtoObj = (\<lambda>topic p. Inr (map_option Plain (fromProtoObj topic p)))\<rparr>"

definition eciesRelay :: "'w pbRuntime \<Rightarrow> cryptoLib \<Rightarrow> cipherDecoder \<Rightarrow> anyMessage relayDecoder" where
  "eciesRelay RT C dec =
     \<lparr>rd_pubsubTopic = dec_pubsubTopic dec, rd_contentTopic = dec_contentTopic dec,
      rd_fromWireToProtoObj = (\<lambda>bs. rbind (fromWireToProtoObj (wakuDecode RT) bs) (\<lambda>p. Inr (Some p))),
      rd_fromProtoObj = (\<lambda>topic p. map_sum id (map_option Decrypted) (eciesDecoder_fromProtoObj C dec topic p))\<rparr>"

definition plainSub :: "decoder \<Rightarrow> anyMessage subDecoder" where
  "plainSub d =
     \<lparr>fd_pubsubTopic = dec_pubsubTopic d, fd_contentTopic = dec_contentTopic d,
      fd_fromProtoObj = (\<lambda>topic w. Inr (map_option Plain (fromProtoObj topic (protoOf w))))\<rparr>"

definition eciesSub :: "cryptoLib \<Rightarrow> cipherDecoder \<Rightarrow> anyMessage subDecoder" where
  "eciesSub C dec =
     \<lparr>fd_pubsubTopic = dec_pubsubTopic dec, fd_contentTopic = dec_contentTopic dec,
      fd_fromProtoObj = (\<lambda>topic w. map_sum id (map_option Decrypted) (eciesDecoder_fromProtoObj C dec topic (protoOf w)))\<rparr>"

lemma any_topics [simp]:
  "rd_pubsubTopic (plainRelay RT d) = dec_pubsubTopic d" "rd_contentTopic (plainRelay RT d) = dec_contentTopic d"
  "rd_pubsubTopic (eciesRelay RT C e) = dec_pubsubTopic e" "rd_contentTopic (eciesRelay RT C e) = dec_contentTopic e"
  by (simp_all add: plainRelay_def eciesRelay_def)

section \<open>Lemmas\<close>

lemma map_filter_Nil: "(\<And>x. x \<in> set xs \<Longrightarrow> f x = None) \<Longrightarrow> List.map_filter f xs = []"
  by (induction xs) (simp_all add: map_filter_simps)

text \<open>The bytes of a message that fits the format, for relay, for its validator and for the decoders.\<close>

lemma object_bytes:
  assumes laws: "pbLaws RT F buffers" and ok: "WakuMessage_ok F (wireOf p)"
  shows "relayTopic RT (wakuEncode RT p) = Inr (pm_contentTopic p)"
    and "relayValidator RT (wakuEncode RT p) = (if pm_contentTopic p = [] \<or> pm_payload p = [] then Reject else Accept)"
    and "pm_ephemeral p \<noteq> None \<Longrightarrow> fromWireToProtoObj (wakuDecode RT) (wakuEncode RT p) = Inr p"
proof -
  note L = laws [unfolded pbLaws_def]
  show "relayTopic RT (wakuEncode RT p) = Inr (pm_contentTopic p)"
    using pb_runtime.TopicOnlyMessage_reads_topic [OF L ok] by (simp add: relayTopic_def wakuEncode_def wireOf_def)
  show "relayValidator RT (wakuEncode RT p) = (if pm_contentTopic p = [] \<or> pm_payload p = [] then Reject else Accept)"
    using pb_runtime.WakuMessage_roundtrip [OF L ok]
    by (simp add: relayValidator_def messageValidator_def wakuEncode_def WakuMessage_settled_def wireOf_def)
  show "pm_ephemeral p \<noteq> None \<Longrightarrow> fromWireToProtoObj (wakuDecode RT) (wakuEncode RT p) = Inr p"
    by (auto simp: fromWireToProtoObj_def wakuDecode_wakuEncode [OF laws ok])
qed

text \<open>Among decoders of which one opens the message and the others refuse it, the message is handed over once, opened.\<close>

lemma pushMessage_one:
  assumes first: "\<And>xs. set (first xs) = set xs"
    and opens: "d0 \<in> set ds" "fd_fromProtoObj d0 (su_pubsubTopic S) w = Inr (Some m)"
    and others: "\<And>d. d \<in> set ds \<Longrightarrow> d = d0 \<or> fd_fromProtoObj d (su_pubsubTopic S) w = Inr None"
    and ct: "wire_contentTopic w \<noteq> []"
  shows "pushMessage first hash (ds, cb) w S = S\<lparr>su_log := su_log S @ [(hash, cb, m)]\<rparr>"
proof -
  let ?read = "\<lambda>d. case fd_fromProtoObj d (su_pubsubTopic S) w of Inr (Some m) \<Rightarrow> Some m | _ \<Rightarrow> None"
  have "set (List.map_filter ?read ds) = {m}"
  proof -
    have mem: "y \<in> set (List.map_filter ?read ds) \<longleftrightarrow> (\<exists>d \<in> set ds. ?read d = Some y)" for y by (force simp: map_filter_def)
    have "?read d = Some y \<Longrightarrow> d \<in> set ds \<Longrightarrow> y = m" for d y using others [of d] opens(2) by auto
    then show ?thesis using mem opens by force
  qed
  then have "set (first (List.map_filter ?read ds)) = {m}" by (simp only: first)
  then obtain ms where "first (List.map_filter ?read ds) = m # ms" by (cases "first (List.map_filter ?read ds)") auto
  then show ?thesis using ct by (simp add: pushMessage_def)
qed

lemma processIncomingMessage_one:
  assumes first: "\<And>xs. set (first xs) = set xs" and hash: "hashOf (su_pubsubTopic S) w = Inr h" "h \<notin> set (su_received S)"
    and cb: "jm_get (su_callbacks S) (wire_contentTopic w) = Some (ds, cb)"
    and opens: "d0 \<in> set ds" "fd_fromProtoObj d0 (su_pubsubTopic S) w = Inr (Some m)"
    and others: "\<And>d. d \<in> set ds \<Longrightarrow> d = d0 \<or> fd_fromProtoObj d (su_pubsubTopic S) w = Inr None"
    and ct: "wire_contentTopic w \<noteq> []"
  obtains S' where "processIncomingMessage hashOf first w peer S = Inr S'" "su_log S' = su_log S @ [(h, cb, m)]"
proof -
  obtain S1 dup where n: "notifyMessageReceived peer h S = (S1, dup)" by force
  then have S1: "su_callbacks S1 = su_callbacks S" "su_pubsubTopic S1 = su_pubsubTopic S" "su_log S1 = su_log S" "\<not> dup"
    using hash(2) by (auto simp: notifyMessageReceived_def Let_def split: if_splits)
  have "pushMessage first h (ds, cb) w S1 = S1\<lparr>su_log := su_log S1 @ [(h, cb, m)]\<rparr>"
    using first opens others ct unfolding S1(2) [symmetric] by (rule pushMessage_one)
  then have "processIncomingMessage hashOf first w peer S = Inr (S1\<lparr>su_log := su_log S @ [(h, cb, m)]\<rparr>)"
    using S1 cb by (simp add: processIncomingMessage_def hash(1) n)
  then show thesis by (rule that) simp
qed

section \<open>Properties\<close>

text \<open>C9: Encrypted relay. What a node publishes with an ECIES encoder is accepted by the validator of the receiver, and in any state that the
  receiver has reached, a new subscription with the ECIES decoder of the same topics and key, among any decoders of version 0, hands the
  message over once, decrypted, with the payload, the signer and the date that were sent, after the deliveries to the observers that
  were there. The decoders of version 0, of the same content topic or not, get nothing of it.\<close>

theorem sealed_relay_over_the_wire:
  assumes laws: "pbLaws RT F buffers" "eciesLaws C ephemPriv ephemPub privKey pubKey" "length iv = 16" "padLaw randomPad"
      "signerLaw C sigKey pk"
    and enc: "ecies_createEncoder utf8 sha256 pubsub shard contentTopic pubKey sigKey ephemeral metaSetter = Inr enc"
    and dec: "ecies_createDecoder utf8 sha256 contentTopic privKey
      (case pubsub of Some t \<Rightarrow> Some (Topic t) | None \<Rightarrow> map_option Shard shard) = Inr dec"
    and msg: "length (msg_payload msg) < 2 ^ 24" "cipherFits F enc msg"
    and date: "nullish (msg_timestamp msg) now = Some ms" "\<bar>ms\<bar> < 9000000000000"
    and sent: "eciesEncoder_toWire (wakuEncode RT) C ephemPriv iv randomPad enc now msg = Inr bs" "isWireSizeUnderCap bs"
    and topics: "ce_pubsubTopic enc \<in> set senderTopics" "ce_pubsubTopic enc \<in> set topics"
  shows "relay_send publish senderTopics (sealingEncoder RT C ephemPriv iv randomPad enc now) msg =
      rbind (publish (ce_pubsubTopic enc) bs) (\<lambda>recipients. Inr \<lparr>sdk_successes = recipients, sdk_failures = []\<rparr>) \<and>
    relayValidator RT bs = Accept \<and>
    (\<exists>m. em_payload m = msg_payload msg \<and> em_signaturePublicKey m = (if sigKey = None then None else Some pk) \<and>
       pm_timestamp (dm_proto m) = Some (ms * 1000000) \<and> dm_pubsubTopic m = ce_pubsubTopic enc \<and>
       (let R = runEvents (relayExec (relayTopic RT)) evs (newRelay topics);
            R1 = fst (relay_subscribe (map (plainRelay RT) before @ eciesRelay RT C dec # map (plainRelay RT) after) callback R)
        in relay_delivered (relayTopic RT) (ce_pubsubTopic enc) bs R1 =
             relay_delivered (relayTopic RT) (ce_pubsubTopic enc) bs R @ [(callback, Decrypted m)]))"
proof -
  let ?t = "ce_pubsubTopic enc"
  from ecies_sealed [OF laws(2-5) enc dec msg date] obtain p m where
    wire: "eciesEncoder_toWire (wakuEncode RT) C ephemPriv iv randomPad enc now msg = Inr (wakuEncode RT p)"
    and p: "WakuMessage_ok F (wireOf p)" "pm_payload p \<noteq> []" "pm_contentTopic p = contentTopic" "pm_version p = Some 1" "pm_ephemeral p \<noteq> None"
    and m: "eciesDecoder_fromProtoObj C dec ?t p = Inr (Some m)" "em_payload m = msg_payload msg" "dm_pubsubTopic m = ?t"
      "em_signaturePublicKey m = (if sigKey = None then None else Some pk)" "pm_timestamp (dm_proto m) = Some (ms * 1000000)"
    and decTopics: "dec_pubsubTopic dec = ?t" "dec_contentTopic dec = contentTopic"
    by metis
  have bs: "bs = wakuEncode RT p" using wire sent(1) by simp
  have ct: "contentTopic \<noteq> []" using enc by (auto simp: ecies_createEncoder_def ecies_newEncoder_def rbind_eq_Inr)
  note bytes = object_bytes [OF laws(1) p(1), folded bs, unfolded p(3)]
  let ?at = "\<lambda>d. observe ?t bs \<lparr>ob_id = 0, ob_decoder = d, ob_callback = callback\<rparr>"
  have plain: "?at (plainRelay RT d) = None" for d
    using bytes(3) [OF p(5)] version1_refused [OF p(4)] by (simp add: observe_def plainRelay_def)
  have opened: "?at (eciesRelay RT C dec) = Some (callback, Decrypted m)"
    using bytes(3) [OF p(5)] m(1) by (simp add: observe_def eciesRelay_def)
  define R where "R = runEvents (relayExec (relayTopic RT)) evs (newRelay topics :: anyMessage relay)"
  let ?ds = "map (plainRelay RT) before @ eciesRelay RT C dec # map (plainRelay RT) after"
  obtain R1 os where sub: "relay_subscribe ?ds callback R = (R1, os)" by (metis surj_pair)
  have "List.map_filter ?at (filter (\<lambda>d. rd_pubsubTopic d = ?t \<and> rd_contentTopic d = contentTopic) ?ds) = [(callback, Decrypted m)]"
  proof -
    have none: "List.map_filter ?at (filter q (map (plainRelay RT) ds)) = []" for q ds
      by (rule map_filter_Nil) (auto simp: plain)
    have split: "List.map_filter ?at (xs @ ys) = List.map_filter ?at xs @ List.map_filter ?at ys" for xs ys by (simp add: map_filter_def)
    show ?thesis by (simp add: split none opened decTopics map_filter_simps)
  qed
  then have "relay_delivered (relayTopic RT) ?t bs R1 = relay_delivered (relayTopic RT) ?t bs R @ [(callback, Decrypted m)]"
    using subscription_delivers [of "relayTopic RT" evs topics ?ds callback ?t bs] ct topics(2)
    unfolding R_def [symmetric] Let_def sub prod.case bytes(1) by simp
  moreover have "relay_send publish senderTopics (sealingEncoder RT C ephemPriv iv randomPad enc now) msg =
      rbind (publish ?t bs) (\<lambda>recipients. Inr \<lparr>sdk_successes = recipients, sdk_failures = []\<rparr>)"
    using topics(1) sent by (simp add: relay_send_def sealingEncoder_def)
  moreover have "relayValidator RT bs = Accept" using bytes(2) ct p(2) by simp
  ultimately show ?thesis using m unfolding R_def [symmetric] Let_def sub by auto
qed

text \<open>C17: Encrypted filter. A node pushes the object that it decodes from the bytes of an ECIES encoder; a subscription to its topics, whose
  callback of the content topic has the ECIES decoder with the key among any decoders of version 0, and that has not seen the hash of
  the message, hands it to this callback, once, decrypted, with the payload and the signer that were sent.\<close>

theorem sealed_push_over_the_wire:
  assumes laws: "pbLaws RT F buffers" "eciesLaws C ephemPriv ephemPub privKey pubKey" "length iv = 16" "padLaw randomPad"
      "signerLaw C sigKey pk"
    and enc: "ecies_createEncoder utf8 sha256 pubsub shard contentTopic pubKey sigKey ephemeral metaSetter = Inr enc"
    and dec: "ecies_createDecoder utf8 sha256 contentTopic privKey
      (case pubsub of Some t \<Rightarrow> Some (Topic t) | None \<Rightarrow> map_option Shard shard) = Inr dec"
    and msg: "length (msg_payload msg) < 2 ^ 24" "cipherFits F enc msg"
    and date: "nullish (msg_timestamp msg) now = Some ms" "\<bar>ms\<bar> < 9000000000000"
    and sent: "eciesEncoder_toWire (wakuEncode RT) C ephemPriv iv randomPad enc now msg = Inr bs"
    and node: "fromWireToProtoObj (wakuDecode RT) bs = Inr p" "pushable F topic p" "topic \<noteq> []"
    and S: "jm_get subs topic = Some S" "su_pubsubTopic S = topic" "jm_get (su_callbacks S) contentTopic = Some (ds, cb)"
    and ds: "set ds = insert (eciesSub C dec) (plainSub ` plains)"
    and first: "\<And>xs. set (first xs) = set xs"
    and fresh: "hashOn hashUtf8 hashSha hex topic p \<notin> set (su_received S)"
  shows "\<exists>S' m. jm_get (filter_onRequest (filterNetOver RT answer uuid :: string filterNet)
        (handleIncomingMessage (wireHash hashUtf8 hashSha hex) first) peer [pushBytes RT topic p] subs) topic = Some S' \<and>
      su_log S' = su_log S @ [(hashOn hashUtf8 hashSha hex topic p, cb, Decrypted m)] \<and>
      em_payload m = msg_payload msg \<and> em_signaturePublicKey m = (if sigKey = None then None else Some pk)"
proof -
  from ecies_sealed [OF laws(2-5) enc dec msg date] obtain q m where
    wire: "eciesEncoder_toWire (wakuEncode RT) C ephemPriv iv randomPad enc now msg = Inr (wakuEncode RT q)"
    and q: "WakuMessage_ok F (wireOf q)" "pm_contentTopic q = contentTopic" "pm_version q = Some 1" "pm_ephemeral q \<noteq> None"
    and m: "eciesDecoder_fromProtoObj C dec topic q = Inr (Some m)" "em_payload m = msg_payload msg"
      "em_signaturePublicKey m = (if sigKey = None then None else Some pk)"
    by metis
  have p: "p = q" using object_bytes(3) [OF laws(1) q(1,4)] wire sent node(1) by simp
  let ?w = "WakuMessage_settled (wireOf p)" and ?h = "hashOn hashUtf8 hashSha hex topic p"
  have hash: "wireHash hashUtf8 hashSha hex (su_pubsubTopic S) ?w = Inr ?h" unfolding S(2) by (rule wireHash_total) simp
  have ct: "wire_contentTopic ?w = contentTopic" using q(2) by (simp add: p WakuMessage_settled_def wireOf_def)
  have "contentTopic \<noteq> []" using enc by (auto simp: ecies_createEncoder_def ecies_newEncoder_def rbind_eq_Inr)
  moreover have "fd_fromProtoObj (eciesSub C dec) (su_pubsubTopic S) ?w = Inr (Some (Decrypted m))"
    using m(1) by (simp add: eciesSub_def S(2) p)
  moreover have "d = eciesSub C dec \<or> fd_fromProtoObj d (su_pubsubTopic S) ?w = Inr None" if "d \<in> set ds" for d
    using that version1_refused [OF q(3)] by (auto simp: ds plainSub_def p)
  ultimately obtain S' where S': "processIncomingMessage (wireHash hashUtf8 hashSha hex) first ?w peer S = Inr S'"
      "su_log S' = su_log S @ [(?h, cb, Decrypted m)]"
    using processIncomingMessage_one [of first "wireHash hashUtf8 hashSha hex" S ?w ?h ds cb "eciesSub C dec" "Decrypted m" peer]
      first hash fresh S ct ds by auto
  have "jm_get (filter_onRequest (filterNetOver RT answer uuid :: string filterNet)
      (handleIncomingMessage (wireHash hashUtf8 hashSha hex) first) peer [pushBytes RT topic p] subs) topic = Some S'"
    using push_decoded [OF laws(1) node(2)] node(3) S S'(1) by (simp add: filterNetOver_def handleIncomingMessage_def)
  then show ?thesis using S'(2) m(2,3) by blast
qed

section \<open>Witnesses\<close>

text \<open>A small encrypted message of the demonstration instances.\<close>

lemma demo_sealed:
  obtains enc dec p bs where
    "ecies_createEncoder demoUtf8 demoSha (Some ''t'') None ''c'' (4 # replicate 64 0) (Some [7]) None None = Inr enc"
    and "ecies_createDecoder demoUtf8 demoSha ''c'' (replicate 32 2) (Some (Topic ''t'')) = Inr dec"
    and "eciesEncoder_toWire (wakuEncode demoRuntime) demoCrypto (replicate 32 1) (replicate 16 0) demoPad enc None demoMessage = Inr bs"
    and "ce_pubsubTopic enc = ''t''" "cipherFits demoFormat enc demoMessage" "isWireSizeUnderCap bs" "pushable demoFormat ''t'' p"
    and "fromWireToProtoObj (wakuDecode demoRuntime) bs = Inr p" "dec_pubsubTopic dec = ''t''" "dec_contentTopic dec = ''c''"
    and "length (wire demoFormat (WakuMessage_fields demoFormat (wireOf p))) \<le> 9000"
proof -
  obtain enc where enc: "ecies_createEncoder demoUtf8 demoSha (Some ''t'') None ''c'' (4 # replicate 64 0) (Some [7]) None None = Inr enc"
      "ce_pubsubTopic enc = ''t''" "ce_contentTopic enc = ''c''" "ce_metaSetter enc = None" "ce_ephemeral enc = False"
    by (simp add: ecies_createEncoder_def ecies_newEncoder_def determinePubsubTopic_def nullish_def)
  obtain dec where dec: "ecies_createDecoder demoUtf8 demoSha ''c'' (replicate 32 2) (Some (Topic ''t'')) = Inr dec"
      "dec_pubsubTopic dec = ''t''" "dec_contentTopic dec = ''c''"
    by (simp add: ecies_createDecoder_def ecies_newDecoder_def newDecoder_def determinePubsubTopic_def)
  have fit: "cipherFits demoFormat enc demoMessage" by (simp add: cipherFits_def enc demoFormat_def fits_def demoMessage_def)
  have small: "length (msg_payload demoMessage) < 2 ^ 24" "nullish (msg_timestamp demoMessage) None = Some 7" "\<bar>7 :: int\<bar> < 9000000000000"
    "length (replicate 16 (0 :: byte)) = 16" "length (msg_payload demoMessage) = 2" "msg_rateLimitProof demoMessage = None"
    by (simp_all add: demoMessage_def nullish_def)
  obtain p where p: "eciesEncoder_toWire (wakuEncode demoRuntime) demoCrypto (replicate 32 1) (replicate 16 0) demoPad enc None demoMessage =
        Inr (wakuEncode demoRuntime p)" "WakuMessage_ok demoFormat (wireOf p)" "pm_contentTopic p = ''c''" "pm_version p = Some 1"
      "pm_ephemeral p \<noteq> None" "length (pm_payload p) \<le> 440" "pm_timestamp p = Some 7000000" "pm_rateLimitProof p = None" "pm_meta p = None"
  proof (rule ecies_sealed [OF demo_laws(3) small(4) demo_laws(1,2) enc(1) _ small(1) fit small(2,3)])
    show "ecies_createDecoder demoUtf8 demoSha ''c'' (replicate 32 2)
        (case Some ''t'' of Some t \<Rightarrow> Some (Topic t) | None \<Rightarrow> map_option Shard None) = Inr dec" by (simp add: dec)
  qed (rule that; simp add: small enc)
  let ?wire = "wire demoFormat (WakuMessage_fields demoFormat (wireOf p))"
  obtain e where e: "pm_ephemeral p = Some e" using p(5) by auto
  have payload: "length (fieldBytes demoFormat (10, pf_bytes demoFormat (pm_payload p))) \<le> 1881"
    using demo_field_length [of 10 "pf_bytes demoFormat (pm_payload p)"] demo_bytes_length [of "pm_payload p"] p(6) by linarith
  have "length (pf_string demoFormat ''c'') = 2" "length (pf_uint32 demoFormat 1) = 1" "length (pf_sint64 demoFormat 7000000) = 4"
    "length (pf_bool demoFormat e) = 1"
    by (simp_all add: pf_string_def pf_bytes_def demoFormat_def leb.simps)
  then have small_wire: "length ?wire \<le> 9000"
    using payload demo_field_length [of 18 "pf_string demoFormat ''c''"] demo_field_length [of 24 "pf_uint32 demoFormat 1"]
      demo_field_length [of 80 "pf_sint64 demoFormat 7000000"] demo_field_length [of 248 "pf_bool demoFormat e"]
    by (simp add: WakuMessage_fields_def wireOf_def propOf_def p(3,4,7-9) e)
  moreover have "wakuEncode demoRuntime p = ?wire"
    by (simp add: wakuEncode_def pb_runtime.WakuMessage_bytes [OF demoPb_laws [unfolded pbLaws_def]])
  ultimately have "isWireSizeUnderCap (wakuEncode demoRuntime p)" "pushable demoFormat ''t'' p"
    using p(2) by (simp_all add: isWireSizeUnderCap_def SIZE_CAP_IN_MB_def MB_def pushable_def MessagePush_ok_def fits_def)
      (simp add: demoFormat_def)
  then show thesis
    using that [OF enc(1) dec(1) p(1) enc(2) fit] object_bytes(3) [OF demoPb_laws p(2,5)] dec small_wire by blast
qed

theorem sealed_relay_over_the_wire_witness:
  "\<exists>enc dec bs m. eciesEncoder_toWire (wakuEncode demoRuntime) demoCrypto (replicate 32 1) (replicate 16 0) demoPad enc None demoMessage = Inr bs \<and>
     relayValidator demoRuntime bs = Accept \<and> em_payload m = [4, 5] \<and> em_signaturePublicKey m = Some [9] \<and>
     relay_delivered (relayTopic demoRuntime) ''t'' bs (fst (relay_subscribe
       (map (plainRelay demoRuntime) [\<lparr>dec_pubsubTopic = ''t'', dec_contentTopic = ''c''\<rparr>] @ [eciesRelay demoRuntime demoCrypto dec]) 3
       (newRelay [''t'']))) = [(3, Decrypted m)]"
proof -
  obtain enc dec p bs where demo: "ecies_createEncoder demoUtf8 demoSha (Some ''t'') None ''c'' (4 # replicate 64 0) (Some [7]) None None = Inr enc"
      "ecies_createDecoder demoUtf8 demoSha ''c'' (replicate 32 2) (Some (Topic ''t'')) = Inr dec"
      "eciesEncoder_toWire (wakuEncode demoRuntime) demoCrypto (replicate 32 1) (replicate 16 0) demoPad enc None demoMessage = Inr bs"
      "ce_pubsubTopic enc = ''t''" "cipherFits demoFormat enc demoMessage" "isWireSizeUnderCap bs"
    using demo_sealed by metis
  have none: "relay_delivered decodeTopic t bs (newRelay ts :: anyMessage relay) = []" for decodeTopic t ts
    unfolding delivered_eq [OF relay_reached [where evs = "[]", unfolded runEvents_def, simplified]]
    by (auto simp: newRelay_def observersFor_def map_filter_simps split: sum.splits)
  from sealed_relay_over_the_wire [OF demoPb_laws demo_laws(3) _ demo_laws(1,2) demo(1), of "replicate 16 0" dec demoMessage None 7 bs
      "[''t'']" "[''t'']" "\<lambda>_ _. Inr []" "[]" "[\<lparr>dec_pubsubTopic = ''t'', dec_contentTopic = ''c''\<rparr>]" "[]" 3] demo
  show ?thesis by (auto simp: demoMessage_def nullish_def runEvents_def Let_def none)
qed

theorem sealed_push_over_the_wire_witness:
  "\<exists>enc dec p bs S S' m. eciesEncoder_toWire (wakuEncode demoRuntime) demoCrypto (replicate 32 1) (replicate 16 0) demoPad enc None demoMessage = Inr bs \<and>
     fromWireToProtoObj (wakuDecode demoRuntime) bs = Inr p \<and>
     jm_get (filter_onRequest (filterNetOver demoRuntime undefined ''u'' :: string filterNet)
       (handleIncomingMessage (wireHash (\<lambda>_. []) (\<lambda>b. b) (\<lambda>_. ''h'')) (\<lambda>xs. xs)) ''p'' [pushBytes demoRuntime ''t'' p] [(''t'', S)]) ''t'' = Some S' \<and>
     jm_get (su_callbacks S) ''c'' = Some ([eciesSub demoCrypto dec], 7) \<and> su_log S' = [(''h'', 7, Decrypted m)] \<and> em_payload m = [4, 5]"
proof -
  obtain enc dec p bs where demo: "ecies_createEncoder demoUtf8 demoSha (Some ''t'') None ''c'' (4 # replicate 64 0) (Some [7]) None None = Inr enc"
      "ecies_createDecoder demoUtf8 demoSha ''c'' (replicate 32 2) (Some (Topic ''t'')) = Inr dec"
      "eciesEncoder_toWire (wakuEncode demoRuntime) demoCrypto (replicate 32 1) (replicate 16 0) demoPad enc None demoMessage = Inr bs"
      "cipherFits demoFormat enc demoMessage" "pushable demoFormat ''t'' p" "fromWireToProtoObj (wakuDecode demoRuntime) bs = Inr p"
    using demo_sealed by metis
  let ?S = "(newSubscription ''t'')\<lparr>su_callbacks := [(''c'', ([eciesSub demoCrypto dec], 7))]\<rparr>"
  have "hashOn (\<lambda>_. []) (\<lambda>b. b) (\<lambda>_. ''h'') ''t'' p = ''h''"
    using wireHash_total [of "WakuMessage_settled (wireOf p)" p "\<lambda>_. []" "\<lambda>b. b" "\<lambda>_. ''h''" "''t''"]
    by (auto simp: wireHash_def messageHashStr_def rbind_eq_Inr)
  with sealed_push_over_the_wire [OF demoPb_laws demo_laws(3) _ demo_laws(1,2) demo(1), of "replicate 16 0" dec demoMessage None 7 bs p "''t''"
      "[(''t'', ?S)]" ?S "[eciesSub demoCrypto dec]" 7 "{}" "\<lambda>xs. xs" "\<lambda>_. []" "\<lambda>b. b" "\<lambda>_. ''h''" undefined "''u''" "''p''"] demo
  obtain S' m where "jm_get (filter_onRequest (filterNetOver demoRuntime undefined ''u'' :: string filterNet)
       (handleIncomingMessage (wireHash (\<lambda>_. []) (\<lambda>b. b) (\<lambda>_. ''h'')) (\<lambda>xs. xs)) ''p'' [pushBytes demoRuntime ''t'' p] [(''t'', ?S)]) ''t'' = Some S'"
      "su_log S' = [(''h'', 7, Decrypted m)]" "em_payload m = [4, 5]"
    by (auto simp: demoMessage_def nullish_def jm_get_def newSubscription_def)
  moreover have "jm_get (su_callbacks ?S) ''c'' = Some ([eciesSub demoCrypto dec], 7)" by (simp add: jm_get_def)
  ultimately show ?thesis using demo(3,6) by blast
qed

end
