(* ===== verification/StoreDelivery.thy ===== *)
theory StoreDelivery
  imports CipherDelivery SdkStore Wire
begin

text \<open>
  Encrypted messages from a store: an application that queries a content topic with the decoder of \<open>message-encryption/src/ecies.ts\<close>, beside
  decoders of version 0 for other content topics, gets an encrypted message of the store decrypted and in its place.
\<close>

section \<open>Decoders of both kinds\<close>

definition plainSdk :: "decoder \<Rightarrow> anyMessage sdkDecoder" where
  "plainSdk d =
     \<lparr>sd_pubsubTopic = dec_pubsubTopic d, sd_contentTopic = dec_contentTopic d,
      sd_fromProtoObj = (\<lambda>topic p. Inr (map_option Plain (fromProtoObj topic p)))\<rparr>"

definition eciesSdk :: "cryptoLib \<Rightarrow> cipherDecoder \<Rightarrow> anyMessage sdkDecoder" where
  "eciesSdk C dec =
     \<lparr>sd_pubsubTopic = dec_pubsubTopic dec, sd_contentTopic = dec_contentTopic dec,
      sd_fromProtoObj = (\<lambda>topic p. map_sum id (map_option Decrypted) (eciesDecoder_fromProtoObj C dec topic p))\<rparr>"

section \<open>Lemmas\<close>

text \<open>The map of the decoders has each of them under its content topic.\<close>

lemma decodersAsMap_get:
  "decodersAsMap ds m = Inr m' \<Longrightarrow>
     (\<forall>d \<in> set ds. jm_get m' (sd_contentTopic d) = Some (sd_fromProtoObj d)) \<and> (\<forall>ct. jm_has m ct \<longrightarrow> jm_get m' ct = jm_get m ct)"
proof (induction ds arbitrary: m)
  case (Cons d ds)
  then have "decodersAsMap ds (jm_set (sd_contentTopic d) (sd_fromProtoObj d) m) = Inr m'" "\<not> jm_has m (sd_contentTopic d)"
    by (auto split: if_splits)
  from Cons.IH [OF this(1)] this(2) show ?case by (auto simp: jm_has_def)
qed simp

lemma validated_decoder:
  "validateDecodersAndPubsubTopic configured ds = Inr (topic, contentTopics, decs) \<Longrightarrow> d \<in> set ds \<Longrightarrow>
     jm_get decs (sd_contentTopic d) = Some (sd_fromProtoObj d)"
  using decodersAsMap_get [of ds "[]" decs]
  by (auto simp: validateDecodersAndPubsubTopic_def Let_def rbind_eq_Inr split: if_splits)

lemma toProtoMessage_wireOf: "toProtoMessage (WakuMessage_settled (wireOf p)) = p"
  by (cases p) (simp add: toProtoMessage_def wireOf_def WakuMessage_settled_def settled_def EmptyMessage_def spread_def propOf_def split: option.split)

section \<open>Properties\<close>

text \<open>C18: Encrypted store. A node holds the object that it decoded from the bytes of an ECIES encoder, among other messages, and is queried
  over the generated codecs with the decoder that has the key and with decoders of version 0 for other content topics. When the other
  messages can be decoded and no callback asks to stop, the query ends after all pages and hands over what its decoders accept, in the
  order of the store, and in its place, once, the message, decrypted, with the payload, the signer and the date that were sent.\<close>

theorem sealed_store_over_the_wire:
  assumes laws: "pbLaws RT F buffers" "eciesLaws C ephemPriv ephemPub privKey pubKey" "length iv = 16" "padLaw randomPad"
      "signerLaw C sigKey pk"
    and enc: "ecies_createEncoder utf8 sha256 pubsub shard contentTopic pubKey sigKey ephemeral metaSetter = Inr enc"
    and dec: "ecies_createDecoder utf8 sha256 contentTopic privKey
      (case pubsub of Some t \<Rightarrow> Some (Topic t) | None \<Rightarrow> map_option Shard shard) = Inr dec"
    and msg: "length (msg_payload msg) < 2 ^ 24" "cipherFits F enc msg"
    and date: "nullish (msg_timestamp msg) now = Some ms" "\<bar>ms\<bar> < 9000000000000"
    and sent: "eciesEncoder_toWire (wakuEncode RT) C ephemPriv iv randomPad enc now msg = Inr bs"
    and kept: "fromWireToProtoObj (wakuDecode RT) bs = Inr p" "kv_message kv = Some (WakuMessage_settled (wireOf p))"
      "kv_pubsubTopic kv = Some (ce_pubsubTopic enc)"
    and store: "list_all (storable F) (earlier @ kv # later)" "distinctHashes (earlier @ kv # later)"
    and pages: "0 < k" "k \<le> 100" "length (earlier @ kv # later) + k \<le> k * fuel"
    and S: "validateDecodersAndPubsubTopic (ss_pubsubTopics S) (map plainSdk before @ eciesSdk C dec # map plainSdk after) =
        Inr (topic, contentTopics, decs)" "ss_peers S \<noteq> []"
    and request: "storeQuery_create uuid (queryOptsOf topic contentTopics noOverrides) = Inr request" "StoreQueryRequest_ok F (requestWire request)"
    and others: "list_all (\<lambda>x. \<not> isl (decodeStored decs x)) (earlier @ later)" and continues: "\<And>x. callback x = Inr False"
  shows "\<exists>m. queryWithOrderedCallback fuel (storeNetOver RT (storeNode k (earlier @ kv # later)) uuid) S order
        (map plainSdk before @ eciesSdk C dec # map plainSdk after) callback noOverrides =
      (delivered (map (decodeStored decs) earlier) @ Decrypted m # delivered (map (decodeStored decs) later), Finished) \<and>
    em_payload m = msg_payload msg \<and> em_signaturePublicKey m = (if sigKey = None then None else Some pk) \<and>
    dm_pubsubTopic m = ce_pubsubTopic enc \<and> pm_timestamp (dm_proto m) = Some (ms * 1000000)"
proof -
  from ecies_sealed [OF laws(2-5) enc dec msg date] obtain q m where
    wire: "eciesEncoder_toWire (wakuEncode RT) C ephemPriv iv randomPad enc now msg = Inr (wakuEncode RT q)"
    and q: "WakuMessage_ok F (wireOf q)" "pm_contentTopic q = contentTopic" "pm_ephemeral q \<noteq> None"
    and m: "eciesDecoder_fromProtoObj C dec (ce_pubsubTopic enc) q = Inr (Some m)" "em_payload m = msg_payload msg"
      "em_signaturePublicKey m = (if sigKey = None then None else Some pk)" "dm_pubsubTopic m = ce_pubsubTopic enc"
      "pm_timestamp (dm_proto m) = Some (ms * 1000000)"
    and topics: "dec_contentTopic dec = contentTopic"
    by metis
  have p: "p = q" using object_bytes(3) [OF laws(1) q(1,3)] wire sent kept(1) by simp
  have "jm_get decs contentTopic = Some (sd_fromProtoObj (eciesSdk C dec))"
    using validated_decoder [OF S(1), of "eciesSdk C dec"] topics by (simp add: eciesSdk_def)
  moreover have "contentTopic \<noteq> []" using enc by (auto simp: ecies_createEncoder_def ecies_newEncoder_def rbind_eq_Inr)
  moreover have "wire_contentTopic (WakuMessage_settled (wireOf p)) = contentTopic"
    using q(2) by (simp add: p WakuMessage_settled_def wireOf_def)
  ultimately have kv: "decodeStored decs kv = Inr (Some (Decrypted m))"
    using m(1) by (simp add: decodeStored_def kept toProtoMessage_wireOf eciesSdk_def p)
  have all: "list_all (\<lambda>x. \<not> isl (decodeStored decs x)) (earlier @ kv # later)" using others by (simp add: kv)
  have "queryWithOrderedCallback fuel (storeNetOver RT (storeNode k (earlier @ kv # later)) uuid) S order
        (map plainSdk before @ eciesSdk C dec # map plainSdk after) callback noOverrides =
      (delivered (map (decodeStored decs) (earlier @ kv # later)), Finished)"
    by (rule ordered_query [OF S refl storeNode_answers [OF laws(1) store(1) request] pages(1,2) store(2) pages(3) all continues])
  moreover have "delivered (map (decodeStored decs) (earlier @ kv # later)) =
      delivered (map (decodeStored decs) earlier) @ Decrypted m # delivered (map (decodeStored decs) later)"
    by (simp add: delivered_append) (simp add: kv delivered_def map_filter_simps)
  ultimately show ?thesis using m(2-5) by auto
qed

section \<open>Witnesses\<close>

definition demoKept :: "bytes \<Rightarrow> protoMessage \<Rightarrow> wakuMessageKeyValue" where
  "demoKept h p = \<lparr>kv_messageHash = Some h, kv_message = Some (WakuMessage_settled (wireOf p)), kv_pubsubTopic = Some ''t''\<rparr>"

definition demoOpen :: protoMessage where
  "demoOpen = EmptyMessage\<lparr>pm_payload := [1], pm_contentTopic := ''d''\<rparr>"

lemma settled_settled [simp]: "settled (settled x) = settled x"
  by (simp add: settled_def split: option.split)

lemma settled_fields_eq [simp]:
  "WakuMessage_fields F (WakuMessage_settled w) = WakuMessage_fields F w" "WakuMessage_ok F (WakuMessage_settled w) = WakuMessage_ok F w"
  "WakuMessage_settled (WakuMessage_settled w) = WakuMessage_settled w"
  by (simp_all add: WakuMessage_fields_def WakuMessage_ok_def WakuMessage_settled_def)

lemma demoKept_storable:
  assumes "WakuMessage_ok demoFormat (wireOf p)" and "length (wire demoFormat (WakuMessage_fields demoFormat (wireOf p))) \<le> 9000"
    and "length h < 100"
  shows "storable demoFormat (demoKept h p)"
proof -
  let ?w = "wire demoFormat (WakuMessage_fields demoFormat (wireOf p))"
  have "length (pf_bytes demoFormat ?w) \<le> 18001"
    using leb_length [of "length ?w"] assms(2) by (simp add: pf_bytes_def demoFormat_def nat_mod_distrib)
  moreover have "length (pf_bytes demoFormat h) \<le> 201" using demo_bytes_length [of h] assms(3) by simp
  moreover have "length (pf_string demoFormat ''t'') = 2" by (simp add: pf_string_def pf_bytes_def demoFormat_def leb.simps)
  ultimately have "length (wire demoFormat (WakuMessageKeyValue_fields demoFormat (demoKept h p))) \<le> 22000"
    using demo_field_length [of 10 "pf_bytes demoFormat h"] demo_field_length [of 18 "pf_bytes demoFormat ?w"]
      demo_field_length [of 26 "pf_string demoFormat ''t''"]
    by (simp add: WakuMessageKeyValue_fields_def demoKept_def)
  then show ?thesis
    using assms by (simp add: storable_def WakuMessageKeyValue_ok_def WakuMessageKeyValue_settled_def demoKept_def fits_def)
      (simp add: demoFormat_def)
qed

theorem sealed_store_over_the_wire_witness:
  "\<exists>dec p bs m. fromWireToProtoObj (wakuDecode demoRuntime) bs = Inr p \<and>
     queryWithOrderedCallback 3 (storeNetOver demoRuntime (storeNode 1 [demoKept [0] demoOpen, demoKept [1] p]) ''u'') demoStoreSdk (\<lambda>ms. ms)
       [plainSdk \<lparr>dec_pubsubTopic = ''t'', dec_contentTopic = ''d''\<rparr>, eciesSdk demoCrypto dec] (\<lambda>_. Inr False) noOverrides =
     ([Plain \<lparr>dm_pubsubTopic = ''t'', dm_proto = demoOpen\<rparr>, Decrypted m], Finished) \<and> em_payload m = [4, 5]"
proof -
  obtain enc dec p bs where demo: "ecies_createEncoder demoUtf8 demoSha (Some ''t'') None ''c'' (4 # replicate 64 0) (Some [7]) None None = Inr enc"
      "ecies_createDecoder demoUtf8 demoSha ''c'' (replicate 32 2) (Some (Topic ''t'')) = Inr dec"
      "eciesEncoder_toWire (wakuEncode demoRuntime) demoCrypto (replicate 32 1) (replicate 16 0) demoPad enc None demoMessage = Inr bs"
      "ce_pubsubTopic enc = ''t''" "cipherFits demoFormat enc demoMessage" "pushable demoFormat ''t'' p"
      "fromWireToProtoObj (wakuDecode demoRuntime) bs = Inr p" "dec_pubsubTopic dec = ''t''" "dec_contentTopic dec = ''c''"
      "length (wire demoFormat (WakuMessage_fields demoFormat (wireOf p))) \<le> 9000"
    using demo_sealed by metis
  let ?d = "\<lparr>dec_pubsubTopic = ''t'', dec_contentTopic = ''d''\<rparr>"
  let ?decs = "[(''d'', sd_fromProtoObj (plainSdk ?d)), (''c'', sd_fromProtoObj (eciesSdk demoCrypto dec))]"
  have valid: "validateDecodersAndPubsubTopic (ss_pubsubTopics demoStoreSdk) (map plainSdk [?d] @ eciesSdk demoCrypto dec # map plainSdk []) =
      Inr (''t'', [''d'', ''c''], ?decs)"
    by (simp add: validateDecodersAndPubsubTopic_def demoStoreSdk_def plainSdk_def eciesSdk_def ensurePubsubTopicIsConfigured_def demo(8,9)
        jm_has_def jm_set_def jm_get_def Let_def)
  obtain request where request: "storeQuery_create ''u'' (queryOptsOf ''t'' [''d'', ''c''] noOverrides) = Inr request"
      "StoreQueryRequest_ok demoFormat (requestWire request)"
    by (simp add: storeQuery_create_def queryOptsOf_def noOverrides_def spreadBool_def spread_def storeTime_def truthyStr_def truthyNum_def
        StoreQueryRequest_ok_def requestWire_def demoFormat_def fits_def)
  have opened: "decodeStored ?decs (demoKept [0] demoOpen) = Inr (Some (Plain \<lparr>dm_pubsubTopic = ''t'', dm_proto = demoOpen\<rparr>))"
  proof -
    have "wire_contentTopic (WakuMessage_settled (wireOf demoOpen)) = ''d''" by (simp add: WakuMessage_settled_def wireOf_def demoOpen_def)
    then show ?thesis
      by (simp add: decodeStored_def demoKept_def toProtoMessage_wireOf plainSdk_def jm_get_def fromProtoObj_def versionRejected_def)
        (simp add: demoOpen_def EmptyMessage_def Version_def)
  qed
  have "WakuMessage_ok demoFormat (wireOf demoOpen)" "length (wire demoFormat (WakuMessage_fields demoFormat (wireOf demoOpen))) \<le> 9000"
    by (simp_all add: demoOpen_def EmptyMessage_def wireOf_def propOf_def WakuMessage_ok_def WakuMessage_fields_def fieldBytes_def fits_def
        pf_bytes_def pf_string_def demoFormat_def leb.simps)
  then have storable: "list_all (storable demoFormat) ([demoKept [0] demoOpen] @ demoKept [1] p # [])"
    using demo(6,10) by (simp add: demoKept_storable pushable_def MessagePush_ok_def)
  have "distinctHashes ([demoKept [0] demoOpen] @ demoKept [1] p # [])" by (auto simp: distinctHashes_def demoKept_def)
  with sealed_store_over_the_wire [OF demoPb_laws demo_laws(3) _ demo_laws(1,2) demo(1), of "replicate 16 0" dec demoMessage None 7 bs p "demoKept [1] p"
      "[demoKept [0] demoOpen]" "[]" 1 3 demoStoreSdk "[?d]" "[]" "''t''" "[''d'', ''c'']" ?decs "''u''" request "\<lambda>_. Inr False" "\<lambda>ms. ms"]
    demo storable valid request opened
  obtain m where "queryWithOrderedCallback 3 (storeNetOver demoRuntime (storeNode 1 [demoKept [0] demoOpen, demoKept [1] p]) ''u'') demoStoreSdk (\<lambda>ms. ms)
       [plainSdk ?d, eciesSdk demoCrypto dec] (\<lambda>_. Inr False) noOverrides =
     (delivered [decodeStored ?decs (demoKept [0] demoOpen)] @ [Decrypted m], Finished)" "em_payload m = [4, 5]"
    by (auto simp: demoMessage_def nullish_def demoKept_def demoStoreSdk_def delivered_def map_filter_simps)
  then show ?thesis using demo(7) unfolding opened by (auto simp: delivered_def map_filter_simps)
qed

end
