(* ===== verification/StoreCursor.thy ===== *)
theory StoreCursor
  imports StoreDelivery
begin

text \<open>
  Cursors of the store client (\<open>createCursor\<close> of \<open>sdk/src/store/store.ts\<close>): a query that is given the cursor of a message, over the
  generated codecs, resumes after this message.
\<close>

definition createCursor :: "(string \<Rightarrow> bytes) \<Rightarrow> (bytes \<Rightarrow> bytes) \<Rightarrow> decodedMessage \<Rightarrow> bytes res" where
  "createCursor utf8 sha256 message = messageHashDecoded utf8 sha256 (dm_pubsubTopic message) message"

text \<open>A decoder of version 0 as the store client uses it.\<close>

definition v0Sdk :: "decoder \<Rightarrow> decodedMessage sdkDecoder" where
  "v0Sdk d = \<lparr>sd_pubsubTopic = dec_pubsubTopic d, sd_contentTopic = dec_contentTopic d, sd_fromProtoObj = (\<lambda>topic p. Inr (fromProtoObj topic p))\<rparr>"

text \<open>The options of a query from a cursor, forward or backward.\<close>

definition fromCursor :: "bool \<Rightarrow> bytes \<Rightarrow> queryOverrides" where
  "fromCursor forwards c = noOverrides\<lparr>qo_paginationCursor := Val c, qo_paginationForward := Val forwards\<rparr>"

section \<open>Lemmas\<close>

lemma decodersAsMap_range:
  "decodersAsMap ds m = Inr m' \<Longrightarrow> jm_get m' ct = Some f \<Longrightarrow> f \<in> sd_fromProtoObj ` set ds \<or> jm_get m ct = Some f"
proof (induction ds arbitrary: m)
  case (Cons d ds)
  then have "decodersAsMap ds (jm_set (sd_contentTopic d) (sd_fromProtoObj d) m) = Inr m'" by (auto split: if_splits)
  from Cons.IH [OF this Cons.prems(2)] show ?case by (auto split: if_splits)
qed simp

text \<open>What decoders of version 0 make of a stored message keeps its topic and its fields.\<close>

lemma v0_decodeStored:
  assumes "validateDecodersAndPubsubTopic configured (map v0Sdk ds) = Inr (topic, contentTopics, decs)"
    and "decodeStored decs kv = Inr (Some m)" and "kv_message kv = Some w" and "kv_pubsubTopic kv = Some t"
  shows "m = \<lparr>dm_pubsubTopic = t, dm_proto = toProtoMessage w\<rparr>"
proof -
  have "decodersAsMap (map v0Sdk ds) [] = Inr decs"
    using assms(1) by (auto simp: validateDecodersAndPubsubTopic_def Let_def rbind_eq_Inr split: if_splits)
  moreover obtain f where f: "jm_get decs (wire_contentTopic w) = Some f" "f t (toProtoMessage w) = Inr (Some m)"
    using assms(2-4) by (auto simp: decodeStored_def split: if_splits option.splits)
  ultimately have "f \<in> sd_fromProtoObj ` set (map v0Sdk ds)" using decodersAsMap_range by fastforce
  with f(2) show ?thesis by (auto simp: v0Sdk_def fromProtoObj_def split: if_splits)
qed

text \<open>The cursor of a message is the hash the node has of it, when the timestamp is a whole number of milliseconds.\<close>

lemma createCursor_hash:
  assumes "pm_timestamp p = Some t" and "t \<noteq> 0" and "\<bar>t\<bar> < 2 ^ 63" and "1000000 dvd t"
  shows "createCursor utf8 sha256 \<lparr>dm_pubsubTopic = topic, dm_proto = p\<rparr> = messageHashProto utf8 sha256 topic p"
  using message_hash_of_decoded [OF assms(1-3), of utf8 sha256 topic, THEN conjunct2, THEN conjunct2, rule_format, OF assms(4)]
  by (simp add: createCursor_def)

text \<open>Otherwise it is another one, unless the hash function collides, and no message of the store has it.\<close>

lemma submillisecond_cursor:
  assumes "pm_timestamp p = Some t" and "t \<noteq> 0" and "\<bar>t\<bar> < 2 ^ 63" and "\<not> 1000000 dvd t" and "inj sha256"
  shows "createCursor utf8 sha256 \<lparr>dm_pubsubTopic = topic, dm_proto = p\<rparr> \<noteq> messageHashProto utf8 sha256 topic p"
proof
  let ?u = "js_quot t 1000000 * 1000000"
  assume eq: "createCursor utf8 sha256 \<lparr>dm_pubsubTopic = topic, dm_proto = p\<rparr> = messageHashProto utf8 sha256 topic p"
  let ?pre = "utf8 topic @ pm_payload p @ utf8 (pm_contentTopic p) @ nullish (pm_meta p) []"
  have "messageHashDecoded utf8 sha256 topic \<lparr>dm_pubsubTopic = topic, dm_proto = p\<rparr> = Inr (sha256 (?pre @ bytes_be 8 ?u))"
      "messageHashProto utf8 sha256 topic p = Inr (sha256 (?pre @ bytes_be 8 t))"
    using message_hash_of_decoded [OF assms(1-3), of utf8 sha256 topic] by (simp_all del: bytes_be.simps)
  with eq have "sha256 (?pre @ bytes_be 8 ?u) = sha256 (?pre @ bytes_be 8 t)" by (simp add: createCursor_def del: bytes_be.simps)
  then have bytes: "bytes_be 8 ?u = bytes_be 8 t" using injD [OF assms(5)] by (metis same_append_eq)
  have "?u mod 256 ^ 8 = t mod 256 ^ 8" using arg_cong [OF bytes, of val_be] by (simp add: val_be_bytes_be del: bytes_be.simps)
  then have "(256 ^ 8 :: int) dvd ?u - t" by (simp add: mod_eq_dvd_iff)
  moreover have "\<bar>?u - t\<bar> < 1000000"
  proof -
    have "\<bar>t\<bar> - 1000000 < \<bar>t\<bar> div 1000000 * 1000000" "\<bar>t\<bar> div 1000000 * 1000000 \<le> \<bar>t\<bar>" by linarith+
    then show ?thesis by (cases "t < 0") (auto simp: js_quot_def sgn_if)
  qed
  ultimately have "?u = t" using zdvd_imp_le [of "256 ^ 8" "\<bar>?u - t\<bar>"] by (cases "?u = t") auto
  then have "1000000 dvd t" by (metis dvd_triv_right)
  with assms(4) show False by simp
qed

lemma fromCursor_opts:
  "queryOptsOf topic cts (fromCursor fwd c) = (queryOptsOf topic cts noOverrides)\<lparr>qp_paginationCursor := Some c, qp_paginationForward := fwd\<rparr>"
  by (simp add: queryOptsOf_def fromCursor_def noOverrides_def spread_def spreadBool_def)

section \<open>Properties\<close>

text \<open>C14: Queries resume at a cursor. A message that the client decoded with version 0 and that has a timestamp in whole milliseconds, not 0,
  gives a cursor, and a query that is given it, over the generated codecs, to a node that holds the message under its deterministic hash
  among others, ends with exactly the messages after this one, and a query backward with exactly those before it, in the order of
  the store, whatever the size of the pages (1 to 100).\<close>

theorem query_resumes_at_cursor:
  assumes laws: "pbLaws RT F buffers" and store: "list_all (storable F) (earlier @ kv # later)" "distinctHashes (earlier @ kv # later)"
    and kv: "kv_message kv = Some w" "kv_pubsubTopic kv = Some t" "kv_messageHash kv = Some h"
      "messageHashProto hashUtf8 hashSha t (toProtoMessage w) = Inr h"
    and date: "pm_timestamp (toProtoMessage w) = Some (ms * 1000000)" "ms \<noteq> 0" "\<bar>ms\<bar> < 9000000000000"
    and S: "validateDecodersAndPubsubTopic (ss_pubsubTopics S) (map v0Sdk ds) = Inr (topic, contentTopics, decs)" "ss_peers S \<noteq> []"
    and m: "decodeStored decs kv = Inr (Some m)"
    and request: "storeQuery_create uuid (queryOptsOf topic contentTopics (fromCursor fwd h)) = Inr request"
      "StoreQueryRequest_ok F (requestWire request)"
    and pages: "0 < k" "k \<le> 100" "length (earlier @ kv # later) + k \<le> k * fuel"
  shows "createCursor hashUtf8 hashSha m = Inr h \<and>
    (\<exists>pages. queryGenerator fuel (storeNetOver RT (storeNode k (earlier @ kv # later)) uuid) S (map v0Sdk ds) (fromCursor fwd h) = (pages, Finished) \<and>
       concat (if fwd then pages else rev pages) = map (decodeStored decs) (if fwd then later else earlier))"
proof -
  let ?N = "storeNetOver RT (storeNode k (earlier @ kv # later)) uuid" and ?opts = "queryOptsOf topic contentTopics (fromCursor fwd h)"
  have "\<bar>ms * 1000000\<bar> < 2 ^ 63" using date(3) by (simp add: abs_mult)
  then have cursor: "createCursor hashUtf8 hashSha m = Inr h"
    using createCursor_hash [OF date(1)] date(2) v0_decodeStored [OF S(1) m kv(1,2)] kv(4) by simp
  let ?p = "ss_peers S ! ss_pick S (length (ss_peers S))"
  have answers: "storeAnswers ?N ?opts ?p k (earlier @ kv # later)" by (rule storeNode_answers [OF laws store(1) request])
  have opts: "qp_paginationForward ?opts = fwd" "qp_contentTopics ?opts = Some contentTopics" "qp_paginationCursor ?opts = Some h"
    by (simp_all add: fromCursor_opts) (simp add: queryOptsOf_def noOverrides_def spread_def)
  have gen: "queryGenerator fuel ?N S (map v0Sdk ds) (fromCursor fwd h) = queryPages fuel ?N ?opts decs ?p (Some h)"
    using S validateDecoders_Inr(2) [OF S(1)] opts by (simp add: queryGenerator_def getPeerToUse_def queryPerPage_def)
  show ?thesis
  proof (cases fwd)
    case True
    then have "\<exists>pages. queryPages fuel ?N ?opts decs ?p (Some h) = (pages, Finished) \<and> concat pages = map (decodeStored decs) later"
      using queryPages_forward [OF answers pages(1,2) store(2), of "earlier @ [kv]" later "Some h" fuel decs] pages(3) kv(3) opts(1) by auto
    with True cursor gen show ?thesis by auto
  next
    case False
    then have "\<exists>pages. queryPages fuel ?N ?opts decs ?p (Some h) = (pages, Finished) \<and> concat (rev pages) = map (decodeStored decs) earlier"
      using queryPages_backward [OF answers pages(1,2) store(2), of earlier "kv # later" "Some h" fuel decs] pages(3) kv(3) opts(1) by auto
    with False cursor gen show ?thesis by auto
  qed
qed

section \<open>Witness\<close>

definition demoHash :: "int \<Rightarrow> bytes" where
  "demoHash t = [1, 2] @ bytes_be 8 t"

lemma demoHash_inj: "demoHash s = demoHash t \<Longrightarrow> s mod 256 ^ 8 = t mod 256 ^ 8"
  using val_be_bytes_be [of 8 s] val_be_bytes_be [of 8 t] by (simp add: demoHash_def del: bytes_be.simps)

definition demoDated :: "int \<Rightarrow> wakuMessageKeyValue" where
  "demoDated t = demoKept (demoHash t) (demoProto t)"

lemma demoDated_hash: "t \<noteq> 0 \<Longrightarrow> \<bar>t\<bar> < 2 ^ 63 \<Longrightarrow> messageHashProto (\<lambda>_. []) (\<lambda>b. b) ''t'' (demoProto t) = Inr (demoHash t)"
  using message_hash_of_decoded [of "demoProto t" t "\<lambda>_. []" "\<lambda>b. b" "''t''"] by (simp add: demoProto_def demoHash_def del: bytes_be.simps)

lemma demoDated_storable:
  assumes "t \<in> {1000000, 2000000, 3000000}"
  shows "storable demoFormat (demoDated t)"
  unfolding demoDated_def
proof (rule demoKept_storable)
  show "WakuMessage_ok demoFormat (wireOf (demoProto t))"
    using assms by (auto simp: demoProto_def wireOf_def propOf_def WakuMessage_ok_def fits_def demoFormat_def)
  have "length (pf_sint64 demoFormat 1000000) \<le> 4" "length (pf_sint64 demoFormat 2000000) \<le> 4" "length (pf_sint64 demoFormat 3000000) \<le> 4"
    by (simp_all add: demoFormat_def leb.simps)
  then have "length (pf_sint64 demoFormat t) \<le> 4" using assms by (elim insertE emptyE) (simp_all only:)
  moreover have "length (pf_bytes demoFormat [1, 2]) = 3" "length (pf_string demoFormat ''/app/1/name/proto'') = 18" "length (pf_uint32 demoFormat 0) = 1"
      "length (pf_bool demoFormat False) = 1"
    by (simp_all add: pf_string_def pf_bytes_def demoFormat_def leb.simps)
  ultimately show "length (wire demoFormat (WakuMessage_fields demoFormat (wireOf (demoProto t)))) \<le> 9000"
    using demo_field_length [of 10 "pf_bytes demoFormat [1, 2]"] demo_field_length [of 18 "pf_string demoFormat ''/app/1/name/proto''"]
      demo_field_length [of 24 "pf_uint32 demoFormat 0"] demo_field_length [of 80 "pf_sint64 demoFormat t"]
      demo_field_length [of 248 "pf_bool demoFormat False"]
    by (simp add: demoProto_def wireOf_def propOf_def WakuMessage_fields_def)
  show "length (demoHash t) < 100" by (simp add: demoHash_def del: bytes_be.simps)
qed

theorem query_resumes_at_cursor_witness:
  "\<exists>m pages. createCursor (\<lambda>_. []) (\<lambda>b. b) m = Inr (demoHash 2000000) \<and>
     queryGenerator 4 (storeNetOver demoRuntime (storeNode 1 [demoDated 1000000, demoDated 2000000, demoDated 3000000]) ''u'') demoStoreSdk
       (map v0Sdk [\<lparr>dec_pubsubTopic = ''t'', dec_contentTopic = ''/app/1/name/proto''\<rparr>]) (fromCursor True (demoHash 2000000)) = (pages, Finished) \<and>
     concat pages = [Inr (Some \<lparr>dm_pubsubTopic = ''t'', dm_proto = demoProto 3000000\<rparr>)]"
proof -
  let ?d = "\<lparr>dec_pubsubTopic = ''t'', dec_contentTopic = ''/app/1/name/proto''\<rparr>"
  let ?decs = "[(''/app/1/name/proto'', sd_fromProtoObj (v0Sdk ?d))]"
  have valid: "validateDecodersAndPubsubTopic (ss_pubsubTopics demoStoreSdk) (map v0Sdk [?d]) = Inr (''t'', [''/app/1/name/proto''], ?decs)"
    by (simp add: validateDecodersAndPubsubTopic_def demoStoreSdk_def v0Sdk_def ensurePubsubTopicIsConfigured_def jm_has_def jm_set_def jm_get_def Let_def)
  have fields: "kv_message (demoDated t) = Some (WakuMessage_settled (wireOf (demoProto t)))" "kv_pubsubTopic (demoDated t) = Some ''t''"
      "kv_messageHash (demoDated t) = Some (demoHash t)" for t
    by (simp_all add: demoDated_def demoKept_def)
  have decoded: "decodeStored ?decs (demoDated t) = Inr (Some \<lparr>dm_pubsubTopic = ''t'', dm_proto = demoProto t\<rparr>)" for t
  proof -
    have "wire_contentTopic (WakuMessage_settled (wireOf (demoProto t))) = ''/app/1/name/proto''"
      by (simp add: WakuMessage_settled_def wireOf_def demoProto_def)
    then show ?thesis
      by (simp add: decodeStored_def fields toProtoMessage_wireOf v0Sdk_def jm_get_def fromProtoObj_def versionRejected_def)
        (simp add: demoProto_def Version_def)
  qed
  have fits: "fits (demoHash t)" "fits (pf_utf8 demoFormat ''u'')" "fits (pf_utf8 demoFormat ''t'')" "fits (pf_utf8 demoFormat ''/app/1/name/proto'')" for t
    by (simp_all add: fits_def demoFormat_def demoHash_def del: bytes_be.simps)
  let ?request = "\<lparr>sq_requestId = ''u'', sq_includeData = True, sq_pubsubTopic = Some ''t'', sq_contentTopics = Some [''/app/1/name/proto''],
      sq_timeStart = None, sq_timeEnd = None, sq_messageHashes = [], sq_paginationCursor = Some (demoHash 2000000), sq_paginationForward = True,
      sq_paginationLimit = None\<rparr>"
  have request: "storeQuery_create ''u'' (queryOptsOf ''t'' [''/app/1/name/proto''] (fromCursor True (demoHash 2000000))) = Inr ?request"
    by (simp add: fromCursor_opts storeQuery_create_def) (simp add: queryOptsOf_def noOverrides_def spreadBool_def spread_def storeTime_def
        truthyStr_def truthyNum_def)
  have ok: "StoreQueryRequest_ok demoFormat (requestWire ?request)"
    using fits by (simp add: StoreQueryRequest_ok_def requestWire_def)
  let ?ms = "[demoDated 1000000] @ demoDated 2000000 # [demoDated 3000000]"
  have distinct: "distinctHashes ?ms"
    using demoHash_inj [of 1000000 2000000] demoHash_inj [of 1000000 3000000] demoHash_inj [of 2000000 3000000]
    by (auto simp: distinctHashes_def fields)
  have store: "list_all (storable demoFormat) ?ms" by (simp add: demoDated_storable)
  have hash: "messageHashProto (\<lambda>_. []) (\<lambda>b. b) ''t'' (toProtoMessage (WakuMessage_settled (wireOf (demoProto 2000000)))) = Inr (demoHash 2000000)"
    unfolding toProtoMessage_wireOf by (rule demoDated_hash) simp_all
  have date: "pm_timestamp (toProtoMessage (WakuMessage_settled (wireOf (demoProto 2000000)))) = Some (2 * 1000000)"
    unfolding toProtoMessage_wireOf by (simp add: demoProto_def)
  have small: "ss_peers demoStoreSdk \<noteq> []" "(2 :: int) \<noteq> 0" "\<bar>2 :: int\<bar> < 9000000000000" "0 < (1 :: nat)" "1 \<le> (100 :: nat)" "length ?ms + 1 \<le> 1 * 4"
    by (simp_all add: demoStoreSdk_def)
  note resumes = query_resumes_at_cursor [OF demoPb_laws store distinct fields(1,2,3) hash date small(2,3) valid small(1) decoded request ok small(4-6)]
  then show ?thesis by (auto simp: decoded)
qed

end
