(* ===== verification/Publish.thy ===== *)
theory Publish
  imports JsMap JsString
begin

text \<open>
  \<open>ci/publish.js\<close>: the release script, which publishes every workspace of the repository with npm and, for release candidates, first moves
  the dependencies between the workspaces to the new versions. Manifests are held parsed; npm is a parameter.
\<close>

section \<open>Manifests\<close>

type_synonym dependencies = "(string, string) jsmap"

record manifest =
  mf_name :: string
  mf_private :: "bool option"
  mf_version :: string
  mf_dependencies :: "dependencies option"
  mf_devDependencies :: "dependencies option"
  mf_peerDependencies :: "dependencies option"

record workspaceInfo =
  wi_name :: string
  wi_private :: bool
  wi_version :: string
  wi_workspace :: string
  wi_rawPackageJson :: manifest

text \<open>The workspaces that the root manifest lists, and the manifests by their paths.\<close>

record repository =
  rp_workspaces :: "string list"
  rp_manifests :: "(string, manifest) jsmap"

definition readJSON :: "repository \<Rightarrow> string \<Rightarrow> manifest res" where
  "readJSON R packagePath =
     (case jm_get (rp_manifests R) packagePath of None \<Rightarrow> Inl (Error ''ENOENT'') | Some json \<Rightarrow> Inr json)"

definition readWorkspace :: "repository \<Rightarrow> string \<Rightarrow> workspaceInfo res" where
  "readWorkspace R packagePath =
     rbind (readJSON R packagePath)
       (\<lambda>json. Inr \<lparr>wi_name = mf_name json, wi_private = (mf_private json = Some True), wi_version = mf_version json,
                    wi_workspace = packagePath, wi_rawPackageJson = json\<rparr>)"

section \<open>What is published\<close>

definition NEXT_TAG :: string where "NEXT_TAG = ''next''"

definition LATEST_TAG :: string where "LATEST_TAG = ''latest''"

fun indexOf :: "'a \<Rightarrow> 'a list \<Rightarrow> nat option" where
  "indexOf x [] = None"
| "indexOf x (y # ys) = (if x = y then Some 0 else map_option Suc (indexOf x ys))"

definition readPublishTag :: "string list \<Rightarrow> string" where
  "readPublishTag args =
     (case indexOf ''--tag'' args of
        None \<Rightarrow> LATEST_TAG
      | Some tagIndex \<Rightarrow>
          if tagIndex + 1 < length args \<and> args ! (tagIndex + 1) \<noteq> [] then args ! (tagIndex + 1) else LATEST_TAG)"

definition js_trim :: "string \<Rightarrow> string" where
  "js_trim s = rev (dropWhile is_space (rev (dropWhile is_space s)))"

text \<open>
  \<open>npmView\<close> is the output of \<open>npm view name@version version\<close> or its error. \<open>None\<close> is the \<open>undefined\<close> that the function returns
  where it falls off its end.
\<close>

definition shouldBePublished :: "(string \<Rightarrow> string res) \<Rightarrow> workspaceInfo \<Rightarrow> bool option" where
  "shouldBePublished npmView info =
     (if wi_private info then Some False
      else case npmView (wi_name info @ ''@'' @ wi_version info) of
             Inr stdout \<Rightarrow> if js_trim stdout \<noteq> js_trim (wi_version info) then Some True else None
           | Inl (Error message) \<Rightarrow> if js_includes ''code E404'' message then Some True else None
           | Inl _ \<Rightarrow> None)"

text \<open>The callback of \<open>filter\<close> is asynchronous: what \<open>filter\<close> tests is the promise of the answer, an object, whatever the answer is.\<close>

datatype 'a promise = Promise 'a

fun truthyPromise :: "'a promise \<Rightarrow> bool" where
  "truthyPromise (Promise x) = True"

definition allowed :: "(string \<Rightarrow> string res) \<Rightarrow> workspaceInfo \<Rightarrow> bool promise" where
  "allowed npmView info = Promise (shouldBePublished npmView info = Some True)"

definition publishable :: "(string \<Rightarrow> string res) \<Rightarrow> workspaceInfo list \<Rightarrow> workspaceInfo list" where
  "publishable npmView workspaces = filter (\<lambda>info. truthyPromise (allowed npmView info)) workspaces"

section \<open>Dependencies between the workspaces\<close>

definition publicWorkspaces :: "workspaceInfo list \<Rightarrow> (string, workspaceInfo) jsmap" where
  "publicWorkspaces workspaces = fold (\<lambda>item acc. if \<not> wi_private item then jm_set (wi_name item) item acc else acc) workspaces []"

definition upgradeDeps :: "(string, workspaceInfo) jsmap \<Rightarrow> dependencies \<Rightarrow> dependencies" where
  "upgradeDeps workspaceMap deps =
     fold (\<lambda>name deps. case jm_get deps name of
                         None \<Rightarrow> deps
                       | Some v \<Rightarrow> if v = [] then deps
                                   else (case jm_get workspaceMap name of
                                           None \<Rightarrow> deps
                                         | Some info \<Rightarrow> jm_set name (wi_version info) deps))
       (jm_keys workspaceMap) deps"

definition upgradeManifest :: "(string, workspaceInfo) jsmap \<Rightarrow> manifest \<Rightarrow> manifest" where
  "upgradeManifest workspaceMap json =
     json\<lparr>mf_dependencies := map_option (upgradeDeps workspaceMap) (mf_dependencies json),
          mf_devDependencies := map_option (upgradeDeps workspaceMap) (mf_devDependencies json),
          mf_peerDependencies := map_option (upgradeDeps workspaceMap) (mf_peerDependencies json)\<rparr>"

text \<open>
  The writes are started in the order of the workspaces and not awaited: they are what the function leaves under way.
\<close>

definition upgradeWakuDependencies :: "workspaceInfo list \<Rightarrow> (string \<times> manifest) list" where
  "upgradeWakuDependencies workspaces =
     List.map_filter (\<lambda>info. if wi_private info then None
                             else Some (wi_workspace info, upgradeManifest (publicWorkspaces workspaces) (wi_rawPackageJson info)))
       workspaces"

section \<open>The run\<close>

record publishRun =
  pr_repository :: repository
  pr_writes :: "(string \<times> manifest) list"
  pr_published :: "(string \<times> string) list"

text \<open>\<open>npmVersion\<close> is what \<open>npm version prerelease\<close> makes of the repository; its failure is logged.\<close>

definition makeReleaseCandidate :: "(repository \<Rightarrow> repository res) \<Rightarrow> repository \<Rightarrow> repository" where
  "makeReleaseCandidate npmVersion R = (case npmVersion R of Inl _ \<Rightarrow> R | Inr R' \<Rightarrow> R')"

definition publish_run ::
  "(string \<Rightarrow> string res) \<Rightarrow> (repository \<Rightarrow> repository res) \<Rightarrow> string list \<Rightarrow> repository \<Rightarrow> publishRun res" where
  "publish_run npmView npmVersion args R =
     (let CURRENT_TAG = readPublishTag args;
          R1 = (if CURRENT_TAG = NEXT_TAG then makeReleaseCandidate npmVersion R else R)
      in rbind (mapM (readWorkspace R1) (rp_workspaces R))
           (\<lambda>workspaces.
              Inr \<lparr>pr_repository = R1,
                   pr_writes = (if CURRENT_TAG = NEXT_TAG then upgradeWakuDependencies workspaces else []),
                   pr_published = map (\<lambda>info. (wi_workspace info, CURRENT_TAG)) (publishable npmView workspaces)\<rparr>))"

text \<open>The manifest that \<open>npm publish\<close> reads: a write that is still under way is not there yet.\<close>

definition publishedManifest :: "(string \<Rightarrow> bool) \<Rightarrow> publishRun \<Rightarrow> string \<Rightarrow> manifest option" where
  "publishedManifest landed r path =
     (case map_of (pr_writes r) path of
        Some json \<Rightarrow> if landed path then Some json else jm_get (rp_manifests (pr_repository r)) path
      | None \<Rightarrow> jm_get (rp_manifests (pr_repository r)) path)"

section \<open>Lemmas\<close>

lemma publishable_all: "publishable npmView ws = ws"
  by (simp add: publishable_def allowed_def)

lemma readWorkspaces_paths: "mapM (readWorkspace R) paths = Inr ws \<Longrightarrow> map wi_workspace ws = paths"
  by (induction paths arbitrary: ws) (auto simp: rbind_eq_Inr readWorkspace_def)

lemma readWorkspace_fields:
  "readWorkspace R path = Inr info \<Longrightarrow> jm_get (rp_manifests R) path = Some (wi_rawPackageJson info) \<and>
     wi_name info = mf_name (wi_rawPackageJson info) \<and> wi_version info = mf_version (wi_rawPackageJson info) \<and> wi_workspace info = path"
  by (auto simp: readWorkspace_def readJSON_def rbind_eq_Inr split: option.splits)

lemma publicWorkspaces_get:
  "distinct (map wi_name ws) \<Longrightarrow>
     jm_get (publicWorkspaces ws) name = find (\<lambda>info. wi_name info = name \<and> \<not> wi_private info) ws"
proof -
  assume names: "distinct (map wi_name ws)"
  have "jm_get (fold (\<lambda>item acc. if \<not> wi_private item then jm_set (wi_name item) item acc else acc) ws acc) name =
      (case find (\<lambda>info. wi_name info = name \<and> \<not> wi_private info) ws of Some i \<Rightarrow> Some i | None \<Rightarrow> jm_get acc name)" for acc
    using names
  proof (induction ws arbitrary: acc)
    case (Cons w ws)
    have "find (\<lambda>info. wi_name info = name \<and> \<not> wi_private info) ws = None" if "wi_name w = name"
      using Cons.prems that by (auto simp: find_None_iff image_iff)
    then show ?case using Cons by (auto split: option.split)
  qed simp
  then show ?thesis by (auto simp: publicWorkspaces_def jm_get_def split: option.split)
qed

lemma upgradeDeps_get:
  "jm_get (upgradeDeps m deps) name =
     (case jm_get deps name of
        None \<Rightarrow> None
      | Some v \<Rightarrow> Some (if v = [] then v else case jm_get m name of None \<Rightarrow> v | Some info \<Rightarrow> wi_version info))"
proof -
  define upgrade where "upgrade = (\<lambda>name deps. case jm_get deps name of None \<Rightarrow> deps
     | Some v \<Rightarrow> if v = [] then deps else (case jm_get m name of None \<Rightarrow> deps | Some info \<Rightarrow> jm_set name (wi_version info) deps))"
  define upgraded where "upgraded = (\<lambda>v. if v = [] then v else case jm_get m name of None \<Rightarrow> v | Some info \<Rightarrow> wi_version info)"
  have other: "k \<noteq> name \<Longrightarrow> jm_get (upgrade k deps) name = jm_get deps name" for k deps
    by (auto simp: upgrade_def split: option.split)
  have own: "jm_get (upgrade name deps) name = map_option upgraded (jm_get deps name)" for deps
    by (auto simp: upgrade_def upgraded_def split: option.split)
  have "upgraded (upgraded v) = upgraded v" for v by (auto simp: upgraded_def split: option.split)
  then have idem: "map_option upgraded (map_option upgraded r) = map_option upgraded r" for r by (cases r) simp_all
  have "jm_get (fold upgrade ks deps) name = (if name \<in> set ks then map_option upgraded (jm_get deps name) else jm_get deps name)" for ks deps
  proof (induction ks arbitrary: deps)
    case (Cons k ks)
    then show ?case by (cases "k = name") (simp_all add: own other idem)
  qed simp
  moreover have "upgradeDeps m deps = fold upgrade (jm_keys m) deps" by (simp add: upgradeDeps_def upgrade_def)
  moreover have "name \<notin> set (jm_keys m) \<Longrightarrow> jm_get m name = None" by (simp add: jm_keys_def jm_get_def map_of_eq_None_iff)
  ultimately show ?thesis by (auto simp: upgraded_def split: option.split)
qed

section \<open>Properties\<close>

text \<open>
  The test of \<open>shouldBePublished\<close> has no effect: \<open>filter\<close> sees a promise, which is true. So \<open>npm publish\<close> is run for every workspace, also
  for one that is private and for a version that is already published, whatever npm answers.
\<close>

theorem checks_have_no_effect:
  assumes "publish_run npmView npmVersion args R = Inr r"
  shows "pr_published r = map (\<lambda>path. (path, readPublishTag args)) (rp_workspaces R)"
proof -
  obtain ws where ws: "mapM (readWorkspace (pr_repository r)) (rp_workspaces R) = Inr ws"
      "pr_published r = map (\<lambda>info. (wi_workspace info, readPublishTag args)) ws"
    using assms by (auto simp: publish_run_def Let_def rbind_eq_Inr publishable_all split: if_splits)
  from readWorkspaces_paths [OF ws(1)] show ?thesis by (simp add: ws(2) flip: map_map [of "\<lambda>path. (path, readPublishTag args)" wi_workspace, unfolded comp_def])
qed

text \<open>The version of the public workspace of a name, and the dependency on a name in a section of a manifest.\<close>

definition publicVersion :: "repository \<Rightarrow> string list \<Rightarrow> string \<Rightarrow> string option" where
  "publicVersion R paths name =
     map_option mf_version (find (\<lambda>json. mf_name json = name \<and> mf_private json \<noteq> Some True) (List.map_filter (jm_get (rp_manifests R)) paths))"

definition dependsOn :: "dependencies option \<Rightarrow> string \<Rightarrow> string option" where
  "dependsOn deps name = Option.bind deps (\<lambda>d. jm_get d name)"

definition dependencySections :: "manifest \<Rightarrow> dependencies option list" where
  "dependencySections json = [mf_dependencies json, mf_devDependencies json, mf_peerDependencies json]"

lemma readWorkspaces_raw:
  "mapM (readWorkspace R) paths = Inr ws \<Longrightarrow> List.map_filter (jm_get (rp_manifests R)) paths = map wi_rawPackageJson ws \<and>
     (\<forall>info \<in> set ws. jm_get (rp_manifests R) (wi_workspace info) = Some (wi_rawPackageJson info) \<and> wi_name info = mf_name (wi_rawPackageJson info) \<and>
       wi_version info = mf_version (wi_rawPackageJson info) \<and> (wi_private info \<longleftrightarrow> mf_private (wi_rawPackageJson info) = Some True))"
  by (induction paths arbitrary: ws)
    (auto simp: rbind_eq_Inr readWorkspace_def readJSON_def map_filter_simps split: option.splits)

lemma find_map: "find P (map f xs) = map_option f (find (\<lambda>x. P (f x)) xs)"
  by (induction xs) simp_all

lemma publicWorkspaces_version:
  assumes ws: "mapM (readWorkspace R) paths = Inr ws" and names: "distinct (map wi_name ws)"
  shows "map_option wi_version (jm_get (publicWorkspaces ws) name) = publicVersion R paths name"
proof -
  note raw = readWorkspaces_raw [OF ws]
  have "find (\<lambda>info. wi_name info = name \<and> \<not> wi_private info) ws =
      find (\<lambda>info. mf_name (wi_rawPackageJson info) = name \<and> mf_private (wi_rawPackageJson info) \<noteq> Some True) ws"
    using raw by (intro find_cong) auto
  moreover have "info \<in> set ws" if "find P ws = Some info" for P info using that by (metis find_Some_iff nth_mem)
  ultimately show ?thesis
    using raw by (auto simp: publicWorkspaces_get [OF names] publicVersion_def find_map option.map_comp comp_def intro!: option.map_cong)
qed

lemma upgradeWakuDependencies_get:
  assumes "distinct (map wi_workspace ws)" and "info \<in> set ws" and "\<not> wi_private info"
  shows "map_of (upgradeWakuDependencies ws) (wi_workspace info) = Some (upgradeManifest (publicWorkspaces ws) (wi_rawPackageJson info))"
proof (rule map_of_is_SomeI)
  have writes: "upgradeWakuDependencies ws =
      map (\<lambda>info. (wi_workspace info, upgradeManifest (publicWorkspaces ws) (wi_rawPackageJson info))) (filter (\<lambda>info. \<not> wi_private info) ws)"
    by (simp add: upgradeWakuDependencies_def List.map_filter_def comp_def cong: if_cong)
  show "distinct (map fst (upgradeWakuDependencies ws))" using distinct_map_filter [OF assms(1)] by (simp add: writes comp_def)
  show "(wi_workspace info, upgradeManifest (publicWorkspaces ws) (wi_rawPackageJson info)) \<in> set (upgradeWakuDependencies ws)"
    using assms(2,3) by (auto simp: writes)
qed

text \<open>A release candidate depends on the release candidates of the other workspaces. With \<open>--tag next\<close>, when all writes are done, the
  manifest of a public workspace is the one that npm left after raising the versions, in which every dependency, of each of the three
  kinds, on a public workspace has the version of that workspace; every other dependency, the name and the version stay. The workspaces have
  different paths and names.\<close>

theorem release_candidate_dependencies:
  assumes run: "publish_run npmView npmVersion args R = Inr r" and tag: "readPublishTag args = NEXT_TAG"
    and distinct: "distinct (map (\<lambda>path. map_option mf_name (jm_get (rp_manifests (pr_repository r)) path)) (rp_workspaces R))"
    and old: "path \<in> set (rp_workspaces R)" "jm_get (rp_manifests (pr_repository r)) path = Some old" "mf_private old \<noteq> Some True"
  shows "\<exists>new. publishedManifest (\<lambda>_. True) r path = Some new \<and> mf_name new = mf_name old \<and> mf_version new = mf_version old \<and>
    list_all2 (\<lambda>deps deps'. \<forall>name. dependsOn deps' name =
        map_option (\<lambda>v. if v = [] then v else nullish (publicVersion (pr_repository r) (rp_workspaces R) name) v) (dependsOn deps name))
      (dependencySections old) (dependencySections new)"
proof -
  obtain ws where ws: "mapM (readWorkspace (pr_repository r)) (rp_workspaces R) = Inr ws" "pr_writes r = upgradeWakuDependencies ws"
    using run tag by (auto simp: publish_run_def Let_def rbind_eq_Inr split: if_splits)
  note raw = readWorkspaces_raw [OF ws(1)] and paths = readWorkspaces_paths [OF ws(1)]
  let ?m = "publicWorkspaces ws" and ?new = "upgradeManifest (publicWorkspaces ws) old"
  have "map (\<lambda>path. map_option mf_name (jm_get (rp_manifests (pr_repository r)) path)) (rp_workspaces R) = map Some (map wi_name ws)"
    unfolding paths [symmetric] using raw by simp
  then have names: "distinct (map wi_name ws)" using distinct by (metis distinct_map)
  have distinct_paths: "distinct (map wi_workspace ws)" using distinct unfolding paths by (simp add: distinct_map)
  obtain info where info: "info \<in> set ws" "wi_workspace info = path" using old(1) unfolding paths [symmetric] by auto
  have "\<not> wi_private info" "wi_rawPackageJson info = old" using raw info old by auto
  then have "map_of (pr_writes r) path = Some ?new"
    using upgradeWakuDependencies_get [OF distinct_paths info(1)] info(2) ws(2) by simp
  then have "publishedManifest (\<lambda>_. True) r path = Some ?new" by (simp add: publishedManifest_def)
  moreover have "dependsOn (map_option (upgradeDeps ?m) deps) name =
      map_option (\<lambda>v. if v = [] then v else nullish (publicVersion (pr_repository r) (rp_workspaces R) name) v) (dependsOn deps name)" for deps name
    using publicWorkspaces_version [OF ws(1) names, of name]
    by (cases deps) (auto simp: dependsOn_def upgradeDeps_get nullish_def split: option.splits)
  ultimately show ?thesis by (auto simp: upgradeManifest_def dependencySections_def)
qed

section \<open>Witnesses\<close>

text \<open>Two workspaces, one of them private, that depend on each other; npm raises the versions to 2 and has published all of them before.\<close>

definition demoManifest :: "string \<Rightarrow> bool option \<Rightarrow> string \<Rightarrow> string \<Rightarrow> manifest" where
  "demoManifest name private version dep =
     \<lparr>mf_name = name, mf_private = private, mf_version = version, mf_dependencies = Some [(dep, ''^1''), (''chai'', ''^4'')],
      mf_devDependencies = None, mf_peerDependencies = None\<rparr>"

definition demoRepository :: "string \<Rightarrow> repository" where
  "demoRepository version =
     \<lparr>rp_workspaces = [''a'', ''b'', ''c''],
      rp_manifests = [(''a'', demoManifest ''@waku/a'' None version ''@waku/b''), (''b'', demoManifest ''@waku/b'' None version ''@waku/c''),
                      (''c'', demoManifest ''@waku/c'' (Some True) version ''@waku/a'')]\<rparr>"

definition demoPublish :: "string list \<Rightarrow> publishRun res" where
  "demoPublish args = publish_run (\<lambda>_. Inr ''2'') (\<lambda>_. Inr (demoRepository ''2'')) args (demoRepository ''1'')"

lemma demo_publish:
  "demoPublish [''--tag'', ''next''] =
     Inr \<lparr>pr_repository = demoRepository ''2'',
          pr_writes = [(''a'', (demoManifest ''@waku/a'' None ''2'' ''@waku/b'')\<lparr>mf_dependencies := Some [(''@waku/b'', ''2''), (''chai'', ''^4'')]\<rparr>),
                       (''b'', demoManifest ''@waku/b'' None ''2'' ''@waku/c'')],
          pr_published = [(''a'', ''next''), (''b'', ''next''), (''c'', ''next'')]\<rparr>"
  by code_simp

theorem release_candidate_dependencies_witness:
  "\<exists>r new. demoPublish [''--tag'', ''next''] = Inr r \<and> publishedManifest (\<lambda>_. True) r ''a'' = Some new \<and>
     dependsOn (mf_dependencies new) ''@waku/b'' = Some ''2'' \<and> dependsOn (mf_dependencies new) ''chai'' = Some ''^4''"
proof -
  obtain r where r: "demoPublish [''--tag'', ''next''] = Inr r" "pr_repository r = demoRepository ''2''" using demo_publish by simp
  let ?old = "demoManifest ''@waku/a'' None ''2'' ''@waku/b''"
  have ws: "rp_workspaces (demoRepository ''1'') = [''a'', ''b'', ''c'']" by (simp add: demoRepository_def)
  have gets: "jm_get (rp_manifests (demoRepository ''2'')) ''a'' = Some ?old"
    "jm_get (rp_manifests (demoRepository ''2'')) ''b'' = Some (demoManifest ''@waku/b'' None ''2'' ''@waku/c'')"
    "jm_get (rp_manifests (demoRepository ''2'')) ''c'' = Some (demoManifest ''@waku/c'' (Some True) ''2'' ''@waku/a'')"
    by (simp_all add: demoRepository_def jm_get_def)
  have "readPublishTag [''--tag'', ''next''] = NEXT_TAG" by (simp add: readPublishTag_def NEXT_TAG_def)
  moreover have "distinct (map (\<lambda>path. map_option mf_name (jm_get (rp_manifests (pr_repository r)) path)) (rp_workspaces (demoRepository ''1'')))"
    by (simp add: ws r(2) gets demoManifest_def)
  moreover have "''a'' \<in> set (rp_workspaces (demoRepository ''1''))" by (simp add: ws)
  ultimately obtain new where new: "publishedManifest (\<lambda>_. True) r ''a'' = Some new"
    "dependsOn (mf_dependencies new) name = map_option (\<lambda>v. if v = [] then v else
       nullish (publicVersion (pr_repository r) (rp_workspaces (demoRepository ''1'')) name) v) (dependsOn (mf_dependencies ?old) name)" for name
    using release_candidate_dependencies [OF r(1) [unfolded demoPublish_def], of "''a''" ?old]
    by (auto simp: r(2) gets dependencySections_def) (auto simp: demoManifest_def)
  have "publicVersion (demoRepository ''2'') [''a'', ''b'', ''c''] ''@waku/b'' = Some ''2''"
    "publicVersion (demoRepository ''2'') [''a'', ''b'', ''c''] ''chai'' = None"
    by (simp_all add: publicVersion_def map_filter_simps gets demoManifest_def)
  then have "dependsOn (mf_dependencies new) ''@waku/b'' = Some ''2''" "dependsOn (mf_dependencies new) ''chai'' = Some ''^4''"
    unfolding new(2) r(2) ws by (simp_all add: dependsOn_def demoManifest_def jm_get_def)
  with r(1) new(1) show ?thesis by blast
qed

theorem checks_have_no_effect_witness:
  "\<exists>r. demoPublish [] = Inr r \<and> pr_published r = [(''a'', ''latest''), (''b'', ''latest''), (''c'', ''latest'')] \<and>
     shouldBePublished (\<lambda>_. Inr ''1'') \<lparr>wi_name = ''@waku/a'', wi_private = False, wi_version = ''1'', wi_workspace = ''a'',
       wi_rawPackageJson = demoManifest ''@waku/a'' None ''1'' ''@waku/b''\<rparr> = None"
proof -
  have "\<not> isl (demoPublish [])" by code_simp
  then obtain r where r: "demoPublish [] = Inr r" by (cases "demoPublish []") auto
  have "pr_published r = [(''a'', ''latest''), (''b'', ''latest''), (''c'', ''latest'')]"
    using checks_have_no_effect [OF r [unfolded demoPublish_def]] by (simp add: demoRepository_def readPublishTag_def LATEST_TAG_def)
  moreover have "shouldBePublished (\<lambda>_. Inr ''1'') \<lparr>wi_name = ''@waku/a'', wi_private = False, wi_version = ''1'', wi_workspace = ''a'',
       wi_rawPackageJson = demoManifest ''@waku/a'' None ''1'' ''@waku/b''\<rparr> = None"
    by (simp add: shouldBePublished_def)
  ultimately show ?thesis using r by blast
qed

end
