(* ===== verification/MessageCollector.thy ===== *)
theory MessageCollector
  imports Message StateMachine Complex_Main
begin

text \<open>
  \<open>packages/tests/src/lib/message\_collector.ts\<close> and the collector of the fleet in \<open>lib/index.ts\<close>: what the integration tests collect, how
  long they wait for it and what they check. The node that is asked for messages, the clock and the text codecs are arguments.
\<close>

section \<open>Messages\<close>

text \<open>\<open>MessageRpcResponse\<close>: a message as the REST interface of a node gives it, the payload in base64.\<close>

record messageRpcResponse =
  rr_payload :: string
  rr_contentTopic :: "string option"
  rr_version :: "int option"
  rr_timestamp :: "int option"
  rr_ephemeral :: "bool option"

datatype collected = Rpc messageRpcResponse | Decoded decodedMessage

record messageCollector =
  mc_list :: "collected list"
  mc_nwaku :: "string list option"

text \<open>\<open>mc_nwaku\<close> has the pubsub topics of the node, when there is one.\<close>

definition newCollector :: "string list option \<Rightarrow> messageCollector" where
  "newCollector nwaku = \<lparr>mc_list = [], mc_nwaku = nwaku\<rparr>"

definition collector_callback :: "decodedMessage \<Rightarrow> messageCollector \<Rightarrow> messageCollector" where
  "collector_callback msg C = (if mc_nwaku C = None then C\<lparr>mc_list := mc_list C @ [Decoded msg]\<rparr> else C)"

definition collector_count :: "messageCollector \<Rightarrow> nat" where
  "collector_count C = length (mc_list C)"

definition hasMessage :: "(string \<Rightarrow> bytes) \<Rightarrow> string \<Rightarrow> string \<Rightarrow> messageCollector \<Rightarrow> bool" where
  "hasMessage utf8ToBytes topic text C =
     list_ex (\<lambda>message. case message of
         Rpc r \<Rightarrow> rr_contentTopic r = Some topic \<and> rr_payload r = text
       | Decoded m \<Rightarrow> dm_contentTopic m = topic \<and> dm_payload m = utf8ToBytes text) (mc_list C)"

definition isMessageRpcResponse :: "collected \<Rightarrow> messageCollector \<Rightarrow> bool" where
  "isMessageRpcResponse message C = ((case message of Rpc _ \<Rightarrow> True | Decoded _ \<Rightarrow> False) \<or> mc_nwaku C \<noteq> None)"

definition DefaultTestPubsubTopic :: string where "DefaultTestPubsubTopic = ''/waku/2/rs/0/0''"

definition getPubsubTopicToUse :: "string option \<Rightarrow> messageCollector \<Rightarrow> string" where
  "getPubsubTopicToUse pubsubTopic C =
     (case pubsubTopic of
        Some (c # cs) \<Rightarrow> c # cs
      | _ \<Rightarrow> (case mc_nwaku C of Some ((c # cs) # _) \<Rightarrow> c # cs | _ \<Rightarrow> DefaultTestPubsubTopic))"

section \<open>Waiting\<close>

record waitOptions =
  wo_pubsubTopic :: "string option"
  wo_timeoutDuration :: "int option"
  wo_exact :: "bool option"

definition noWaitOptions :: waitOptions where
  "noWaitOptions = \<lparr>wo_pubsubTopic = None, wo_timeoutDuration = None, wo_exact = None\<rparr>"

definition timeoutOf :: "waitOptions \<Rightarrow> int" where
  "timeoutOf options = (case wo_timeoutDuration options of None \<Rightarrow> 400 | Some t \<Rightarrow> if t = 0 then 400 else t)"

text \<open>
  What surrounds a wait: \<open>we_poll topic k\<close> is the answer of the node in turn \<open>k\<close>, \<open>we_elapsed k\<close> the time since the start when it is
  tested in that turn, \<open>we_pushed k\<close> what the callback is given during the pause after it.
\<close>

record waitEnv =
  we_poll :: "string \<Rightarrow> nat \<Rightarrow> messageRpcResponse list res"
  we_elapsed :: "nat \<Rightarrow> int"
  we_pushed :: "nat \<Rightarrow> decodedMessage list"

definition waitTurn :: "waitEnv \<Rightarrow> string \<Rightarrow> nat \<Rightarrow> messageCollector \<Rightarrow> messageCollector" where
  "waitTurn W topic k C =
     (if mc_nwaku C = None then C
      else case we_poll W topic k of Inl _ \<Rightarrow> C | Inr messages \<Rightarrow> C\<lparr>mc_list := map Rpc messages\<rparr>)"

definition waitPause :: "waitEnv \<Rightarrow> nat \<Rightarrow> messageCollector \<Rightarrow> messageCollector" where
  "waitPause W k C = fold collector_callback (we_pushed W k) C"

text \<open>The loop; \<open>None\<close> when the fuel, the number of turns, is used up.\<close>

fun waitForMessages_loop ::
  "nat \<Rightarrow> waitEnv \<Rightarrow> string \<Rightarrow> int \<Rightarrow> nat \<Rightarrow> bool \<Rightarrow> nat \<Rightarrow> messageCollector \<Rightarrow> (bool \<times> messageCollector) option" where
  "waitForMessages_loop fuel W topic timeout numMessages exact k C =
     (if collector_count C < numMessages
      then (case fuel of
              0 \<Rightarrow> None
            | Suc fuel' \<Rightarrow>
                let C1 = waitTurn W topic k C
                in if we_elapsed W k > timeout * int numMessages then Some (False, C1)
                   else waitForMessages_loop fuel' W topic timeout numMessages exact (Suc k) (waitPause W k C1))
      else Some (if exact then collector_count C = numMessages else True, C))"

declare waitForMessages_loop.simps [simp del]

definition waitForMessages ::
  "nat \<Rightarrow> waitEnv \<Rightarrow> nat \<Rightarrow> waitOptions \<Rightarrow> messageCollector \<Rightarrow> (bool \<times> messageCollector) option" where
  "waitForMessages fuel W numMessages options C =
     waitForMessages_loop fuel W (getPubsubTopicToUse (wo_pubsubTopic options) C) (timeoutOf options) numMessages
       (nullish (wo_exact options) False) 0 C"

section \<open>Checking\<close>

datatype expectedText = TextString string | TextBytes bytes | TextUndefined

record expectedMessage =
  ex_messageText :: expectedText
  ex_contentTopic :: "string option"
  ex_pubsubTopic :: "string option"
  ex_version :: "int option"
  ex_meta :: "bytes option"
  ex_ephemeral :: "bool option"
  ex_timestamp :: "int option"
  ex_checkTimestamp :: "bool option"

text \<open>The text codecs: \<open>Buffer.from(\<dots>, 'base64')\<close> read as UTF-8, and \<open>bytesToUtf8\<close>.\<close>

record textCodec =
  tc_base64ToUtf8 :: "string \<Rightarrow> string"
  tc_bytesToUtf8 :: "bytes \<Rightarrow> string"

definition expect :: "bool \<Rightarrow> string \<Rightarrow> unit res" where
  "expect ok message = (if ok then Inr () else Inl (Error message))"

definition msg_contentTopic_of :: "collected \<Rightarrow> string option" where
  "msg_contentTopic_of message = (case message of Rpc r \<Rightarrow> rr_contentTopic r | Decoded m \<Rightarrow> Some (dm_contentTopic m))"

definition msg_version_of :: "collected \<Rightarrow> int option" where
  "msg_version_of message = (case message of Rpc r \<Rightarrow> rr_version r | Decoded m \<Rightarrow> Some (dm_version m))"

definition msg_ephemeral_of :: "collected \<Rightarrow> bool option" where
  "msg_ephemeral_of message = (case message of Rpc r \<Rightarrow> rr_ephemeral r | Decoded m \<Rightarrow> Some (dm_ephemeral m))"

text \<open>
  \<open>Number(ns) / 1\_000\_000\<close>: the quotient of two doubles, rounded to the nearest double. The dividend is scaled up so that the integer
  that is rounded has more than 53 bits; its last bit stands for the part that was cut off.
\<close>

definition double_quot :: "int \<Rightarrow> int \<Rightarrow> rat" where
  "double_quot a b =
     (let n = \<bar>a\<bar> * 2 ^ 128; q = 2 * (n div b) + (if n mod b = 0 then 0 else 1)
      in of_int (sgn a * to_double q) / 2 ^ 129)"

text \<open>
  The time of a message in milliseconds. The outer \<open>None\<close>: there is none to check (\<open>undefined\<close>, or the number 0); the inner one:
  it is not a number, and no comparison with it holds.
\<close>

definition timestampAsNumber :: "collected \<Rightarrow> rat option option" where
  "timestampAsNumber message =
     (case message of
        Decoded m \<Rightarrow> map_option (map_option of_int) (dm_timestamp m)
      | Rpc r \<Rightarrow> (case rr_timestamp r of
                    None \<Rightarrow> None
                  | Some ns \<Rightarrow> if ns = 0 then None else Some (Some (double_quot (to_double ns) 1000000))))"

definition checkTimestamp :: "int \<Rightarrow> expectedMessage \<Rightarrow> collected \<Rightarrow> unit res" where
  "checkTimestamp now options message =
     (if \<not> nullish (ex_checkTimestamp options) True then Inr ()
      else case timestampAsNumber message of
             None \<Rightarrow> Inr ()
           | Some t \<Rightarrow>
               let (lowerBound, upperBound) =
                     (case ex_timestamp options of Some e \<Rightarrow> (e - 1000, e + 1000) | None \<Rightarrow> (now - 10000, now))
               in expect (case t of None \<Rightarrow> True | Some ms \<Rightarrow> \<not> (ms < of_int lowerBound \<or> of_int upperBound < ms))
                    ''Message timestamp not within the expected range'')"

definition verifyText :: "textCodec \<Rightarrow> expectedMessage \<Rightarrow> collected \<Rightarrow> messageCollector \<Rightarrow> unit res" where
  "verifyText T options message C =
     (if isMessageRpcResponse message C
      then let receivedMessageText = (case message of
                   Rpc r \<Rightarrow> if rr_payload r = [] then TextUndefined else TextString (tc_base64ToUtf8 T (rr_payload r))
                 | Decoded m \<Rightarrow> TextString (tc_bytesToUtf8 T (dm_payload m)))
           in expect (receivedMessageText = ex_messageText options) ''Message text mismatch''
      else case message of
             Rpc _ \<Rightarrow> Inr ()
           | Decoded m \<Rightarrow>
               rbind (expect (dm_pubsubTopic m = getPubsubTopicToUse (ex_pubsubTopic options) C) ''Message pub/sub topic mismatch'')
                 (\<lambda>_. rbind (expect (TextString (tc_bytesToUtf8 T (dm_payload m)) = ex_messageText options) ''Message text mismatch'')
                   (\<lambda>_. expect (dm_meta m \<in> {ex_meta options, None, Some []}) ''Message meta mismatch'')))"

definition verifyReceivedMessage :: "textCodec \<Rightarrow> int \<Rightarrow> nat \<Rightarrow> expectedMessage \<Rightarrow> messageCollector \<Rightarrow> unit res" where
  "verifyReceivedMessage T now index options C =
     (if \<not> index < length (mc_list C) then Inl (Error ''The message list does not have a message at the index'')
      else
        let message = mc_list C ! index
        in rbind (expect (msg_contentTopic_of message = ex_contentTopic options) ''Message content topic mismatch'')
             (\<lambda>_. rbind (expect (msg_version_of message = Some (nullish (ex_version options) 0)) ''Message version mismatch'')
               (\<lambda>_. rbind (case msg_ephemeral_of message of
                              None \<Rightarrow> Inr ()
                            | Some e \<Rightarrow> expect (e = nullish (ex_ephemeral options) False) ''Message ephemeral value mismatch'')
                 (\<lambda>_. rbind (checkTimestamp now options message)
                   (\<lambda>_. verifyText T options message C)))))"

section \<open>The collector of a fleet\<close>

text \<open>\<open>fc_relayNodes\<close> is there when the fleet was created with its flag \<open>withoutFilter\<close>.\<close>

record fleetCollector =
  fc_collectors :: "messageCollector list"
  fc_relayNodes :: bool
  fc_strictChecking :: bool
  fc_messageList :: "decodedMessage list"

text \<open>The constructor of \<open>ServiceNodesFleet\<close>: one collector for each node, with the node.\<close>

definition newFleetCollector :: "string list list \<Rightarrow> bool \<Rightarrow> bool \<Rightarrow> fleetCollector" where
  "newFleetCollector nodes relay strictChecking =
     \<lparr>fc_collectors = map (\<lambda>node. newCollector (Some node)) nodes, fc_relayNodes = relay, fc_strictChecking = strictChecking,
      fc_messageList = []\<rparr>"

definition fleet_callback :: "decodedMessage \<Rightarrow> fleetCollector \<Rightarrow> fleetCollector" where
  "fleet_callback msg F = F\<lparr>fc_messageList := fc_messageList F @ [msg]\<rparr>"

definition quantify :: "bool \<Rightarrow> ('a \<Rightarrow> bool) \<Rightarrow> 'a list \<Rightarrow> bool" where
  "quantify strictChecking P xs = (if strictChecking then list_all P xs else list_ex P xs)"

definition fleet_hasMessage :: "(string \<Rightarrow> bytes) \<Rightarrow> string \<Rightarrow> string \<Rightarrow> fleetCollector \<Rightarrow> bool" where
  "fleet_hasMessage utf8ToBytes topic text F = quantify (fc_strictChecking F) (hasMessage utf8ToBytes topic text) (fc_collectors F)"

definition fleet_verifyReceivedMessage :: "textCodec \<Rightarrow> int \<Rightarrow> nat \<Rightarrow> expectedMessage \<Rightarrow> fleetCollector \<Rightarrow> bool" where
  "fleet_verifyReceivedMessage T now index options F =
     quantify (fc_strictChecking F) (\<lambda>C. \<not> isl (verifyReceivedMessage T now index options C)) (fc_collectors F)"

text \<open>
  \<open>waitForMessages\<close> of the fleet. With relay nodes the first turn of the loop returns; \<open>polls\<close> has the answers of the nodes, a
  rejection of one is that of the call.
\<close>

fun fleet_wait_loop ::
  "nat \<Rightarrow> waitEnv \<Rightarrow> messageRpcResponse list res list \<Rightarrow> int \<Rightarrow> nat \<Rightarrow> bool \<Rightarrow> nat \<Rightarrow> fleetCollector \<Rightarrow> (bool \<times> fleetCollector) res option" where
  "fleet_wait_loop fuel W polls timeout numMessages exact k F =
     (if length (fc_messageList F) < numMessages
      then (case fuel of
              0 \<Rightarrow> None
            | Suc fuel' \<Rightarrow>
                if fc_relayNodes F
                then Some (rbind (mapM id polls)
                             (\<lambda>results. Inr (quantify (fc_strictChecking F) (\<lambda>msgs. numMessages \<le> length msgs) results, F)))
                else if we_elapsed W k > timeout * int numMessages then Some (Inr (False, F))
                else fleet_wait_loop fuel' W polls timeout numMessages exact (Suc k) (fold fleet_callback (we_pushed W k) F))
      else Some (Inr (if exact then length (fc_messageList F) = numMessages else True, F)))"

declare fleet_wait_loop.simps [simp del]

definition fleet_waitForMessages ::
  "nat \<Rightarrow> waitEnv \<Rightarrow> messageRpcResponse list res list \<Rightarrow> nat \<Rightarrow> waitOptions \<Rightarrow> fleetCollector \<Rightarrow> (bool \<times> fleetCollector) res option" where
  "fleet_waitForMessages fuel W polls numMessages options F =
     fleet_wait_loop fuel W polls (timeoutOf options) numMessages (nullish (wo_exact options) False) 0 F"

section \<open>Lemmas\<close>

lemma expect_Inr [simp]: "expect ok message = Inr () \<longleftrightarrow> ok"
  by (simp add: expect_def)

lemma collector_fields [simp]:
  "mc_nwaku (waitTurn W topic k C) = mc_nwaku C" "mc_nwaku (collector_callback msg C) = mc_nwaku C" "mc_nwaku (waitPause W k C) = mc_nwaku C"
proof -
  show cb: "mc_nwaku (collector_callback msg C) = mc_nwaku C" for msg C by (simp add: collector_callback_def)
  have "mc_nwaku (fold collector_callback ms C) = mc_nwaku C" for ms
    by (induction ms arbitrary: C) (simp_all add: cb)
  then show "mc_nwaku (waitPause W k C) = mc_nwaku C" by (simp add: waitPause_def)
qed (auto simp: waitTurn_def split: sum.split)

text \<open>The wait ends: the clock passes the limit at some turn.\<close>

lemma wait_returns:
  assumes "timeout * int n < we_elapsed W (k + d)" and "d < fuel"
  shows "\<exists>b C'. waitForMessages_loop fuel W topic timeout n exact k C = Some (b, C')"
  using assms
proof (induction fuel arbitrary: k d C)
  case (Suc fuel)
  show ?case
  proof (cases d)
    case 0
    then show ?thesis using Suc.prems by (subst waitForMessages_loop.simps) (auto simp: Let_def)
  next
    case (Suc d')
    then have "timeout * int n < we_elapsed W (Suc k + d')" "d' < fuel" using Suc.prems by simp_all
    note Suc.IH [OF this, of "waitPause W k (waitTurn W topic k C)"]
    then show ?thesis by (subst waitForMessages_loop.simps) (auto simp: Let_def)
  qed
qed simp

lemma wait_answer:
  "waitForMessages_loop fuel W topic timeout n exact k C = Some (b, C') \<Longrightarrow>
     (b \<longrightarrow> (if exact then collector_count C' = n else n \<le> collector_count C')) \<and>
     (\<not> b \<longrightarrow> exact \<and> n < collector_count C' \<or> (\<exists>j. k \<le> j \<and> j < k + fuel \<and> timeout * int n < we_elapsed W j))"
proof (induction fuel arbitrary: k C)
  case 0
  then show ?case by (subst (asm) waitForMessages_loop.simps) (auto split: if_splits)
next
  case (Suc fuel)
  show ?case
  proof (cases "collector_count C < n")
    case True
    show ?thesis
    proof (cases "timeout * int n < we_elapsed W k")
      case False
      then have "waitForMessages_loop fuel W topic timeout n exact (Suc k) (waitPause W k (waitTurn W topic k C)) = Some (b, C')"
        using Suc.prems True by (subst (asm) waitForMessages_loop.simps) (simp add: Let_def)
      from Suc.IH [OF this] show ?thesis using Suc_le_lessD by fastforce
    next
      case late: True
      then have "b = False" using Suc.prems True by (subst (asm) waitForMessages_loop.simps) (simp add: Let_def)
      then show ?thesis using late by (intro conjI impI disjI2 exI [of _ k]) simp_all
    qed
  next
    case False
    then show ?thesis using Suc.prems by (subst (asm) waitForMessages_loop.simps) (auto split: if_splits)
  qed
qed

lemma verify_decoded:
  assumes "index < length (mc_list C)" and "mc_list C ! index = Decoded m" and "mc_nwaku C = None"
  shows "verifyReceivedMessage T now index options C = Inr () \<longleftrightarrow>
    ex_contentTopic options = Some (dm_contentTopic m) \<and> nullish (ex_version options) 0 = dm_version m \<and>
    nullish (ex_ephemeral options) False = dm_ephemeral m \<and> checkTimestamp now options (Decoded m) = Inr () \<and>
    getPubsubTopicToUse (ex_pubsubTopic options) C = dm_pubsubTopic m \<and> ex_messageText options = TextString (tc_bytesToUtf8 T (dm_payload m)) \<and>
    dm_meta m \<in> {ex_meta options, None, Some []}"
  using assms
  by (auto simp: verifyReceivedMessage_def verifyText_def isMessageRpcResponse_def msg_contentTopic_of_def msg_version_of_def msg_ephemeral_of_def
      rbind_eq_Inr Let_def)

lemma checkTimestamp_date:
  "dm_timestamp m = Some (Some ms) \<Longrightarrow> checkTimestamp now options (Decoded m) = Inr () \<longleftrightarrow>
     ex_checkTimestamp options = Some False \<or>
     (case ex_timestamp options of Some e \<Rightarrow> \<bar>ms - e\<bar> \<le> 1000 | None \<Rightarrow> now - 10000 \<le> ms \<and> ms \<le> now)"
  by (cases "ex_checkTimestamp options"; cases "ex_timestamp options") (auto simp: checkTimestamp_def timestampAsNumber_def nullish_def abs_le_iff)

section \<open>A fleet\<close>

text \<open>
  What a test does with the collector of a fleet. The collectors of the nodes are private to it: nothing but its constructor writes them.
\<close>

datatype fleetEvent = FleetMessage decodedMessage | FleetWait nat waitEnv "messageRpcResponse list res list" nat waitOptions

fun fleetExec :: "fleetEvent \<Rightarrow> fleetCollector \<Rightarrow> fleetCollector" where
  "fleetExec (FleetMessage msg) F = fleet_callback msg F"
| "fleetExec (FleetWait fuel W polls n options) F =
     (case fleet_waitForMessages fuel W polls n options F of Some (Inr (_, F')) \<Rightarrow> F' | _ \<Rightarrow> F)"

definition emptyCollectors :: "string list list \<Rightarrow> bool \<Rightarrow> fleetCollector \<Rightarrow> bool" where
  "emptyCollectors nodes strictChecking F \<longleftrightarrow>
     fc_collectors F = map (\<lambda>node. newCollector (Some node)) nodes \<and> fc_strictChecking F = strictChecking"

lemma fleet_callbacks_fields [simp]:
  "fc_collectors (fold fleet_callback ms F) = fc_collectors F" "fc_strictChecking (fold fleet_callback ms F) = fc_strictChecking F"
  by (induction ms arbitrary: F) (simp_all add: fleet_callback_def)

lemma fleet_wait_fields:
  "fleet_wait_loop fuel W polls timeout n exact k F = Some (Inr (b, F')) \<Longrightarrow>
     fc_collectors F' = fc_collectors F \<and> fc_strictChecking F' = fc_strictChecking F"
proof (induction fuel arbitrary: k F)
  case 0
  then show ?case by (subst (asm) fleet_wait_loop.simps) (auto split: if_splits)
next
  case (Suc fuel)
  show ?case
  proof (cases "length (fc_messageList F) < n \<and> \<not> fc_relayNodes F \<and> \<not> timeout * int n < we_elapsed W k")
    case True
    then have "fleet_wait_loop fuel W polls timeout n exact (Suc k) (fold fleet_callback (we_pushed W k) F) = Some (Inr (b, F'))"
      using Suc.prems by (subst (asm) fleet_wait_loop.simps) simp
    from Suc.IH [OF this] show ?thesis by simp
  next
    case False
    then show ?thesis using Suc.prems by (subst (asm) fleet_wait_loop.simps) (auto simp: rbind_eq_Inr split: if_splits)
  qed
qed

interpretation fleets: event_system "\<lambda>F. \<exists>relay. F = newFleetCollector nodes relay strictChecking" fleetExec "emptyCollectors nodes strictChecking"
  for nodes strictChecking
proof
  fix F e
  show "\<exists>relay. F = newFleetCollector nodes relay strictChecking \<Longrightarrow> emptyCollectors nodes strictChecking F"
    by (auto simp: newFleetCollector_def emptyCollectors_def)
  show "emptyCollectors nodes strictChecking F \<Longrightarrow> emptyCollectors nodes strictChecking (fleetExec e F)"
    by (cases e) (auto simp: emptyCollectors_def fleet_callback_def fleet_waitForMessages_def dest: fleet_wait_fields split: option.split sum.split)
qed

section \<open>Properties\<close>

text \<open>Waiting ends, and its answer is right. With a clock that passes the limit at the turn \<open>d\<close>, counted from 0, the wait returns within \<open>d + 1\<close> turns.
  It answers yes only with as many messages as were asked for, no more when exactly these were; it answers no only after the limit
  or with more than the exact number.\<close>

theorem collector_wait_outcome:
  assumes "timeoutOf options * int n < we_elapsed W d" and "d < fuel"
  shows "\<exists>answer C'. waitForMessages fuel W n options C = Some (answer, C') \<and>
    (answer \<longrightarrow> n \<le> collector_count C' \<and> (wo_exact options = Some True \<longrightarrow> collector_count C' = n)) \<and>
    (\<not> answer \<longrightarrow> wo_exact options = Some True \<and> n < collector_count C' \<or> (\<exists>j < fuel. timeoutOf options * int n < we_elapsed W j))"
proof -
  obtain answer C' where run: "waitForMessages fuel W n options C = Some (answer, C')"
    using wait_returns [of _ n W 0 d fuel] assms unfolding waitForMessages_def by fastforce
  have "(if nullish (wo_exact options) False then collector_count C' = n else n \<le> collector_count C')" if answer
    using wait_answer [OF run [unfolded waitForMessages_def]] that by simp
  moreover have "nullish (wo_exact options) False \<and> n < collector_count C' \<or> (\<exists>j < fuel. timeoutOf options * int n < we_elapsed W j)" if "\<not> answer"
    using wait_answer [OF run [unfolded waitForMessages_def]] that by auto
  moreover have "nullish (wo_exact options) False \<longleftrightarrow> wo_exact options = Some True" by (cases "wo_exact options") auto
  ultimately show ?thesis using run by auto
qed

text \<open>C40: The check of the tests accepts exactly what was sent. A message without encryption that is encoded, decoded and collected through the
  callback passes the check if and only if the test expects its content topic, version 0, its flag, a date at most a second away (without an expected date:
  one of the last ten seconds), its pubsub topic and the text of its payload. The encoder has no meta setter.\<close>

theorem collected_message_verifies:
  assumes wire: "\<And>p. toProtoObj enc now msg = Inr p \<Longrightarrow> wireDecode (wireEncode p) = Inr p" and meta: "enc_metaSetter enc = None"
    and date: "nullish (msg_timestamp msg) now = Some ms" "ms \<noteq> 0" "\<bar>ms\<bar> < 9000000000000"
    and sent: "toWire wireEncode enc now msg = Inr bs"
    and received: "fromWireToProtoObj wireDecode bs = Inr p" "fromProtoObj topic p = Some m"
    and C: "mc_nwaku C = None"
  shows "verifyReceivedMessage T clock (collector_count C) options (collector_callback m C) = Inr () \<longleftrightarrow>
    ex_contentTopic options = Some (enc_contentTopic enc) \<and> nullish (ex_version options) 0 = 0 \<and>
    nullish (ex_ephemeral options) False = enc_ephemeral enc \<and>
    (ex_checkTimestamp options = Some False \<or>
      (case ex_timestamp options of Some e \<Rightarrow> \<bar>ms - e\<bar> \<le> 1000 | None \<Rightarrow> clock - 10000 \<le> ms \<and> ms \<le> clock)) \<and>
    getPubsubTopicToUse (ex_pubsubTopic options) C = topic \<and> ex_messageText options = TextString (tc_bytesToUtf8 T (msg_payload msg))"
proof -
  have m: "dm_payload m = msg_payload msg" "dm_contentTopic m = enc_contentTopic enc" "dm_timestamp m = Some (Some ms)"
      "dm_ephemeral m = enc_ephemeral enc" "dm_version m = 0" "dm_pubsubTopic m = topic" "dm_meta m = None"
    using message_v0_arrives [where topic = topic and enc = enc, OF wire date] sent received meta by auto
  let ?C = "collector_callback m C"
  have at: "collector_count C < length (mc_list ?C)" "mc_list ?C ! collector_count C = Decoded m" "mc_nwaku ?C = None"
    using C by (simp_all add: collector_callback_def collector_count_def nth_append)
  have topic: "getPubsubTopicToUse t ?C = getPubsubTopicToUse t C" for t
    unfolding getPubsubTopicToUse_def collector_fields ..
  show ?thesis
    unfolding verify_decoded [OF at] m(1,2,4-7) checkTimestamp_date [OF m(3)] topic by simp
qed

text \<open>The checks of a fleet check nothing. Whatever messages its callback is given and whatever waits are done, no message is found and
  no expectation is verified, also the right ones: the collectors of the nodes are asked, and nothing ever fills them. The fleet has a node, or
  does not check strictly.\<close>

theorem fleet_checks_nothing:
  assumes "nodes \<noteq> [] \<or> \<not> strictChecking"
  shows "let F = runEvents fleetExec evs (newFleetCollector nodes relay strictChecking)
    in \<not> fleet_hasMessage utf8ToBytes topic text F \<and> \<not> fleet_verifyReceivedMessage T now index options F"
proof -
  have "emptyCollectors nodes strictChecking (runEvents fleetExec evs (newFleetCollector nodes relay strictChecking))"
    by (rule fleets.run_from_start) blast
  then show ?thesis
    using assms by (cases nodes) (auto simp: emptyCollectors_def fleet_hasMessage_def fleet_verifyReceivedMessage_def quantify_def newCollector_def
        hasMessage_def verifyReceivedMessage_def list_ex_iff)
qed

section \<open>Witnesses\<close>

definition demoWaitEnv :: waitEnv where
  "demoWaitEnv = \<lparr>we_poll = (\<lambda>_ _. Inr []), we_elapsed = (\<lambda>k. 300 * int k),
     we_pushed = (\<lambda>k. if k = 1 then [\<lparr>dm_pubsubTopic = ''t'', dm_proto = demoProto 7000000\<rparr>] else [])\<rparr>"

theorem collector_wait_outcome_witness:
  "\<exists>C'. waitForMessages 5 demoWaitEnv 1 noWaitOptions (newCollector None) = Some (True, C') \<and> 1 \<le> collector_count C'"
proof -
  have "map_option fst (waitForMessages 5 demoWaitEnv 1 noWaitOptions (newCollector None)) = Some True"
    by (simp add: waitForMessages_def waitForMessages_loop.simps numeral_eq_Suc demoWaitEnv_def newCollector_def collector_count_def waitTurn_def
        waitPause_def collector_callback_def noWaitOptions_def timeoutOf_def)
  then show ?thesis
    using collector_wait_outcome [of noWaitOptions 1 demoWaitEnv 2 5 "newCollector None"]
    by (auto simp: demoWaitEnv_def noWaitOptions_def timeoutOf_def)
qed

definition demoExpected :: expectedMessage where
  "demoExpected = \<lparr>ex_messageText = TextString ''hi'', ex_contentTopic = Some ''/app/1/name/proto'', ex_pubsubTopic = Some ''t'', ex_version = None,
     ex_meta = None, ex_ephemeral = None, ex_timestamp = Some 9, ex_checkTimestamp = None\<rparr>"

definition demoText :: textCodec where
  "demoText = \<lparr>tc_base64ToUtf8 = (\<lambda>s. s), tc_bytesToUtf8 = (\<lambda>bs. if bs = [4, 5] then ''hi'' else [])\<rparr>"

theorem collected_message_verifies_witness:
  "\<exists>bs p m. toWire demoWireEncode demoEncoder None demoMessage = Inr bs \<and> fromWireToProtoObj demoWireDecode bs = Inr p \<and>
     fromProtoObj ''t'' p = Some m \<and>
     verifyReceivedMessage demoText 0 0 demoExpected (collector_callback m (newCollector None)) = Inr () \<and>
     verifyReceivedMessage demoText 0 0 (demoExpected\<lparr>ex_messageText := TextString ''ho''\<rparr>) (collector_callback m (newCollector None)) \<noteq> Inr ()"
proof -
  have wire: "demoWireDecode (demoWireEncode p) = Inr p" if "toProtoObj demoEncoder None demoMessage = Inr p" for p
    using that by (auto simp: toProtoObj_def demoEncoder_def demoMessage_def bigIntOfDate_def demoWireDecode_def
        demoWireEncode_def demoProto_def Version_def OneMillion_def val_be_bytes_be simp del: bytes_be.simps)
  have msg: "enc_metaSetter demoEncoder = None" "nullish (msg_timestamp demoMessage) None = Some 7" "(7 :: int) \<noteq> 0" "\<bar>7 :: int\<bar> < 9000000000000"
    by (simp_all add: demoEncoder_def demoMessage_def)
  obtain bs p m where sent: "toWire demoWireEncode demoEncoder None demoMessage = Inr bs" "fromWireToProtoObj demoWireDecode bs = Inr p"
      "fromProtoObj ''t'' p = Some m"
    using message_v0_arrives [where topic = "''t''" and enc = demoEncoder, OF wire msg(2-4)] by blast
  have empty: "mc_nwaku (newCollector None) = None" "collector_count (newCollector None) = 0" by (simp_all add: newCollector_def collector_count_def)
  note verifies = collected_message_verifies [OF wire msg sent empty(1), unfolded empty(2), of demoText 0]
  show ?thesis
    by (intro exI [of _ bs] exI [of _ p] exI [of _ m]) (simp add: sent verifies, simp add: demoExpected_def demoEncoder_def demoMessage_def demoText_def getPubsubTopicToUse_def)
qed

theorem fleet_checks_nothing_witness:
  "\<not> fleet_verifyReceivedMessage demoText 0 0 demoExpected
     (runEvents fleetExec [FleetMessage \<lparr>dm_pubsubTopic = ''t'', dm_proto = demoProto 7000000\<rparr>] (newFleetCollector [[''t'']] False False))"
  using fleet_checks_nothing [of "[[''t'']]" False _ False] by (auto simp: Let_def)

end
