(* ===== verification/TestTools.thy ===== *)
theory TestTools
  imports Message StateMachine
begin

text \<open>
  Helpers of the integration tests (\<open>packages/tests\<close>): names of log files, random payloads, hooks with a time limit, waiting for connections, the
  topics of a test, and the expected order of reversed pages. Mocha, libp2p and the random source are arguments.
\<close>

section \<open>log\_file.ts\<close>

definition clean :: "string \<Rightarrow> string" where
  "clean str = filter (\<lambda>c. c \<notin> {CHR 0x27, CHR '':'', CHR ''('', CHR '')'', CHR ''/''}) (map (\<lambda>c. if c = CHR '' '' then CHR ''_'' else c) str)"

fun suiteName :: "string \<Rightarrow> string list \<Rightarrow> string" where
  "suiteName name [] = name"
| "suiteName name (title # parents) = (if title = [] then name else suiteName (clean title @ ''_'' @ name) parents)"

text \<open>The context is the title of the test and those of the suites around it, from the inside; without one the name is fixed.\<close>

definition makeLogFileName :: "(string \<times> string list) option \<Rightarrow> string" where
  "makeLogFileName ctx = (case ctx of None \<Rightarrow> ''unknown'' | Some (title, parents) \<Rightarrow> suiteName (clean title) parents)"

text \<open>What \<open>find\<close> resolves with: the first line that the file has and that includes the text.\<close>

definition findLine :: "string \<Rightarrow> string list \<Rightarrow> string option" where
  "findLine line lines = find (js_includes line) lines"

section \<open>random\_array.ts\<close>

definition chunkSize :: nat where "chunkSize = 65536"

text \<open>\<open>draw i\<close> is the chunk of random bytes of the round \<open>i\<close>.\<close>

fun randomChunks :: "(nat \<Rightarrow> bytes) \<Rightarrow> nat \<Rightarrow> nat \<Rightarrow> bytes \<Rightarrow> bytes res" where
  "randomChunks draw i 0 buf = Inr buf"
| "randomChunks draw i (Suc n) buf = rbind (u8_set buf (draw i) (i * chunkSize)) (randomChunks draw (Suc i) n)"

definition generateRandomUint8Array :: "(nat \<Rightarrow> bytes) \<Rightarrow> nat \<Rightarrow> bytes res" where
  "generateRandomUint8Array draw sizeInBytes =
     (let chunks = (sizeInBytes + chunkSize - 1) div chunkSize
      in randomChunks draw 0 chunks (replicate sizeInBytes 0))"

section \<open>custom\_mocha\_hooks.ts\<close>

text \<open>The flag of \<open>withGracefulTimeout\<close> and the calls of the callback so far, each with its argument.\<close>

record hook =
  hk_operationCompleted :: bool
  hk_doneCalls :: "exn option list"

datatype hookEvent = OperationResolved | OperationRejected exn | TimeoutFired

definition hookDone :: "hook \<Rightarrow> hook" where
  "hookDone H =
     (if \<not> hk_operationCompleted H then H\<lparr>hk_operationCompleted := True, hk_doneCalls := hk_doneCalls H @ [None]\<rparr> else H)"

fun withGracefulTimeout :: "hookEvent \<Rightarrow> hook \<Rightarrow> hook" where
  "withGracefulTimeout OperationResolved H = hookDone H"
| "withGracefulTimeout (OperationRejected error) H = hookDone H"
| "withGracefulTimeout TimeoutFired H = hookDone H"

definition newHook :: hook where
  "newHook = \<lparr>hk_operationCompleted = False, hk_doneCalls = []\<rparr>"

text \<open>A suite has its time limit and its hooks, each with the limit the suite had when it was registered and that of its operation.\<close>

record suite =
  st_timeout :: int
  st_hooks :: "(int \<times> int) list"

definition MOCHA_HOOK_MAX_TIMEOUT :: int where "MOCHA_HOOK_MAX_TIMEOUT = 50000"

definition hookCustom :: "int option \<Rightarrow> suite \<Rightarrow> suite" where
  "hookCustom timeout s =
     (let t = nullish timeout MOCHA_HOOK_MAX_TIMEOUT;
          timeoutBefore = st_timeout s;
          s1 = s\<lparr>st_timeout := t\<rparr>;
          s2 = s1\<lparr>st_hooks := st_hooks s1 @ [(st_timeout s1, t)]\<rparr>
      in s2\<lparr>st_timeout := timeoutBefore\<rparr>)"

section \<open>waitForConnections.ts and wait\_for\_remote\_peer\_with\_codec.ts\<close>

record connectionWait =
  cw_connectionsLen :: int
  cw_listening :: bool
  cw_resolved :: bool

definition waitForConnections :: "int \<Rightarrow> int \<Rightarrow> connectionWait" where
  "waitForConnections numPeers connections =
     (if connections \<ge> numPeers then \<lparr>cw_connectionsLen = connections, cw_listening = False, cw_resolved = True\<rparr>
      else \<lparr>cw_connectionsLen = connections, cw_listening = True, cw_resolved = False\<rparr>)"

text \<open>The listener of \<open>peer:identify\<close>.\<close>

definition connectionIdentified :: "int \<Rightarrow> connectionWait \<Rightarrow> connectionWait" where
  "connectionIdentified numPeers W =
     (if \<not> cw_listening W then W
      else let W1 = W\<lparr>cw_connectionsLen := cw_connectionsLen W + 1\<rparr>
           in if cw_connectionsLen W1 \<ge> numPeers then W1\<lparr>cw_listening := False, cw_resolved := True\<rparr> else W1)"

text \<open>
  \<open>waitForRemotePeerWithCodec\<close>: the number of identifications after which it resolves, 0 when it does at once, \<open>None\<close> when none of
  them is enough. An identification is a peer with its protocols.
\<close>

fun identifiedWithCodec :: "string \<Rightarrow> nat \<Rightarrow> (string \<times> string list) list \<Rightarrow> nat option" where
  "identifiedWithCodec protocol n [] = None"
| "identifiedWithCodec protocol n ((peer, protocols) # evs) =
     (if protocol \<in> set protocols then Some (Suc n) else identifiedWithCodec protocol (Suc n) evs)"

definition waitForRemotePeerWithCodec :: "string list \<Rightarrow> string \<Rightarrow> string \<Rightarrow> (string \<times> string list) list \<Rightarrow> nat option" where
  "waitForRemotePeerWithCodec connectedPeers protocol nodePeerId evs =
     (if nodePeerId \<in> set connectedPeers then Some 0 else identifiedWithCodec protocol 0 evs)"

section \<open>generate\_test\_data.ts\<close>

record testData =
  td_contentTopics :: "string list"
  td_encoders :: "encoder list"
  td_decoders :: "decoder list"

definition testContentTopic :: "nat \<Rightarrow> string" where
  "testContentTopic i = ''/test/'' @ show_nat (i + 1) @ ''/waku-multi/default''"

definition generateTestData ::
  "(string \<Rightarrow> bytes) \<Rightarrow> (bytes \<Rightarrow> bytes) \<Rightarrow> nat \<Rightarrow> string option \<Rightarrow> testData res" where
  "generateTestData utf8 sha256 topicCount pubsubTopic =
     (let contentTopics = map testContentTopic [0..<topicCount]
      in rbind (mapM (\<lambda>topic. createEncoder utf8 sha256 pubsubTopic None topic None None) contentTopics)
           (\<lambda>encoders. rbind (mapM (\<lambda>topic. createDecoder utf8 sha256 topic (map_option Topic pubsubTopic)) contentTopics)
             (\<lambda>decoders. Inr \<lparr>td_contentTopics = contentTopics, td_encoders = encoders, td_decoders = decoders\<rparr>)))"

section \<open>tests/store/utils.ts\<close>

text \<open>The loop of \<open>chunkAndReverseArray\<close>; with a chunk size of 0 it does not end, which is \<open>None\<close>.\<close>

function chunkAndReverse_loop :: "'a list \<Rightarrow> nat \<Rightarrow> nat \<Rightarrow> 'a list \<Rightarrow> 'a list option" where
  "chunkAndReverse_loop arr sz i result =
     (if \<not> i < length arr then Some result
      else if sz = 0 then None
      else chunkAndReverse_loop arr sz (i + sz) (result @ rev (take sz (drop i arr))))"
  by pat_completeness auto
termination by (relation "measure (\<lambda>(arr, sz, i, _). length arr - i)") auto

declare chunkAndReverse_loop.simps [simp del]

definition chunkAndReverseArray :: "'a list \<Rightarrow> nat \<Rightarrow> 'a list option" where
  "chunkAndReverseArray arr sz = map_option rev (chunkAndReverse_loop arr sz 0 [])"

section \<open>Lemmas\<close>

text \<open>A name of a log file has none of the characters that are cleaned away.\<close>

lemma log_file_name_clean:
  assumes "c \<in> {CHR '' '', CHR 0x27, CHR '':'', CHR ''('', CHR '')'', CHR ''/''}"
  shows "c \<notin> set (makeLogFileName ctx)"
proof -
  have clean: "c \<notin> set (clean s)" for s using assms by (auto simp: clean_def)
  have "c \<notin> set name \<Longrightarrow> c \<notin> set (suiteName name parents)" for name parents
    by (induction name parents rule: suiteName.induct) (use assms clean in auto)
  then show ?thesis using clean assms by (auto simp: makeLogFileName_def split: option.split)
qed

text \<open>
  A random array is made only of a whole number of chunks: otherwise the last chunk, which has always the full size, does not fit and \<open>set\<close>
  throws.
\<close>

lemma randomChunks_fits:
  assumes draw: "\<And>i. length (draw i) = chunkSize"
  shows "length buf = (i + n) * chunkSize \<Longrightarrow>
    randomChunks draw i n buf = Inr (take (i * chunkSize) buf @ concat (map draw [i..<i + n]))"
proof (induction n arbitrary: i buf)
  case (Suc n)
  let ?b = "take (i * chunkSize) buf @ draw i @ drop (i * chunkSize + chunkSize) buf"
  have set: "u8_set buf (draw i) (i * chunkSize) = Inr ?b" using Suc.prems by (simp add: u8_set_def draw algebra_simps)
  have "length ?b = (Suc i + n) * chunkSize" using Suc.prems by (simp add: draw algebra_simps)
  from Suc.IH [OF this] have "randomChunks draw i (Suc n) buf = Inr (take (Suc i * chunkSize) ?b @ concat (map draw [Suc i..<Suc i + n]))"
    by (simp add: set)
  moreover have "take (Suc i * chunkSize) ?b = take (i * chunkSize) buf @ draw i" using Suc.prems by (simp add: draw algebra_simps)
  moreover have "[i..<i + Suc n] = i # [Suc i..<Suc i + n]" by (simp add: upt_conv_Cons)
  ultimately show ?case by simp
qed simp

lemma randomChunks_overflow:
  assumes draw: "\<And>i. length (draw i) = chunkSize"
  shows "length buf < (i + n) * chunkSize \<Longrightarrow> 0 < n \<Longrightarrow> randomChunks draw i n buf = Inl RangeError"
proof (induction n arbitrary: i buf)
  case (Suc n)
  show ?case
  proof (cases "i * chunkSize + chunkSize \<le> length buf")
    case True
    then have n: "0 < n" using Suc.prems by (cases n) (simp_all add: algebra_simps)
    obtain b where b: "u8_set buf (draw i) (i * chunkSize) = Inr b" using True by (simp add: u8_set_def draw)
    then have "length b < (Suc i + n) * chunkSize" using Suc.prems u8_set_length [OF b] by (simp add: algebra_simps)
    with Suc.IH n b show ?thesis by simp
  next
    case False
    then show ?thesis by (simp add: u8_set_def draw)
  qed
qed simp

lemma random_array_sizes:
  assumes draw: "\<And>i. length (draw i) = chunkSize"
  shows "generateRandomUint8Array draw sz =
    (if chunkSize dvd sz then Inr (concat (map draw [0..<sz div chunkSize])) else Inl RangeError)"
proof (cases "chunkSize dvd sz")
  case True
  then obtain n where n: "sz = n * chunkSize" by (metis dvdE mult.commute)
  have "(sz + chunkSize - 1) div chunkSize = n" "sz div chunkSize = n" unfolding n by (simp_all add: chunkSize_def)
  then show ?thesis
    using True randomChunks_fits [where i = 0 and n = n and draw = draw, OF draw, of "replicate sz 0"]
    by (simp add: generateRandomUint8Array_def n)
next
  case False
  have positive: "0 < chunkSize" by (simp add: chunkSize_def)
  define q r where "q = sz div chunkSize" and "r = sz mod chunkSize"
  then have sz: "sz = q * chunkSize + r" "0 < r" "r < chunkSize" using False positive by (simp_all add: dvd_eq_mod_eq_0)
  then have "sz + chunkSize - 1 = (r - 1) + Suc q * chunkSize" by simp
  then have "(sz + chunkSize - 1) div chunkSize = Suc q + (r - 1) div chunkSize" using positive by (simp only: div_mult_self1)
  then have chunks: "(sz + chunkSize - 1) div chunkSize = Suc q" using sz(3) by simp
  have "sz < (sz + chunkSize - 1) div chunkSize * chunkSize" "0 < (sz + chunkSize - 1) div chunkSize"
    unfolding chunks using sz by simp_all
  then show ?thesis
    using False randomChunks_overflow [where i = 0 and draw = draw, OF draw, of "replicate sz 0"]
    by (simp add: generateRandomUint8Array_def Let_def)
qed

text \<open>The callback of a hook is called once, whatever happens first, and never with an error: a hook that failed counts as passed.\<close>

definition hookOk :: "hook \<Rightarrow> bool" where
  "hookOk H \<longleftrightarrow> hk_doneCalls H = (if hk_operationCompleted H then [None] else [])"

lemma hookExec_ok: "hookOk H \<Longrightarrow> hookOk (withGracefulTimeout e H) \<and> hk_operationCompleted (withGracefulTimeout e H)"
  by (cases e) (auto simp: hookOk_def hookDone_def)

interpretation hooks: event_system "\<lambda>H. H = newHook" withGracefulTimeout hookOk
  by unfold_locales (simp add: newHook_def hookOk_def, simp add: hookExec_ok)

lemma hook_called_once:
  "hk_doneCalls (runEvents withGracefulTimeout evs newHook) = (if evs = [] then [] else [None])"
proof (cases evs rule: rev_cases)
  case Nil
  then show ?thesis by (simp add: runEvents_def newHook_def)
next
  case (snoc evs' e)
  have "hookOk (runEvents withGracefulTimeout evs' newHook)" by (rule hooks.run_from_start) simp
  from hookExec_ok [OF this, of e] show ?thesis by (simp add: snoc runEvents_def hookOk_def)
qed

lemma hookCustom_restores: "st_timeout (hookCustom timeout s) = st_timeout s"
  "st_hooks (hookCustom timeout s) = st_hooks s @ [(nullish timeout MOCHA_HOOK_MAX_TIMEOUT, nullish timeout MOCHA_HOOK_MAX_TIMEOUT)]"
  by (simp_all add: hookCustom_def Let_def)

text \<open>The wait for connections ends with the identification that makes up the number; peers that leave meanwhile are not subtracted.\<close>

lemma connection_wait:
  "let W = ((connectionIdentified numPeers) ^^ n) (waitForConnections numPeers connections)
   in (cw_resolved W \<longleftrightarrow> numPeers \<le> connections + int n) \<and> (cw_listening W \<longleftrightarrow> \<not> cw_resolved W) \<and>
     (cw_listening W \<longrightarrow> cw_connectionsLen W = connections + int n)"
  by (induction n) (auto simp: Let_def waitForConnections_def connectionIdentified_def)

text \<open>The wait for the codec of a peer ends when any other peer is identified with it, and at once for a connected peer without it.\<close>

lemma codec_of_another_peer:
  "nodePeerId \<notin> set connected \<Longrightarrow> protocol \<in> set protocols \<Longrightarrow> waitForRemotePeerWithCodec connected protocol nodePeerId [(other, protocols)] = Some 1"
  "nodePeerId \<in> set connected \<Longrightarrow> waitForRemotePeerWithCodec connected protocol nodePeerId [] = Some 0"
  by (simp_all add: waitForRemotePeerWithCodec_def)

text \<open>The encoders and the decoders of a test belong together: the same topics, each content topic once.\<close>

lemma testContentTopic_inj: "testContentTopic i = testContentTopic j \<longleftrightarrow> i = j"
proof
  assume "testContentTopic i = testContentTopic j"
  moreover have "show_nat k = show_int (int k)" for k by (simp add: show_int_def)
  ultimately have "show_int (int (i + 1)) = show_int (int (j + 1))" by (simp add: testContentTopic_def)
  then show "i = j" by (simp only: show_int_inj)
qed simp

lemma test_data_matches:
  assumes "generateTestData utf8 sha256 n pubsubTopic = Inr D"
  shows "distinct (td_contentTopics D) \<and> length (td_contentTopics D) = n \<and>
    map enc_contentTopic (td_encoders D) = td_contentTopics D \<and> map dec_contentTopic (td_decoders D) = td_contentTopics D \<and>
    map enc_pubsubTopic (td_encoders D) = map dec_pubsubTopic (td_decoders D)"
proof -
  let ?cts = "map testContentTopic [0..<n]"
  have "mapM (\<lambda>topic. createEncoder utf8 sha256 pubsubTopic None topic None None) cts = Inr es \<Longrightarrow>
      mapM (\<lambda>topic. createDecoder utf8 sha256 topic (map_option Topic pubsubTopic)) cts = Inr ds \<Longrightarrow>
      map enc_contentTopic es = cts \<and> map dec_contentTopic ds = cts \<and> map enc_pubsubTopic es = map dec_pubsubTopic ds" for cts es ds
  proof (induction cts arbitrary: es ds)
    case (Cons ct cts)
    then show ?case
      by (auto simp: rbind_eq_Inr createEncoder_def newEncoder_def createDecoder_def newDecoder_def split: if_splits option.splits)
  qed simp
  moreover have "distinct ?cts" by (simp add: distinct_map inj_on_def testContentTopic_inj)
  ultimately show ?thesis using assms by (auto simp: generateTestData_def Let_def rbind_eq_Inr)
qed

text \<open>The chunks in the opposite order, each in its own order, as pages that are fetched backward come.\<close>

fun chunks :: "nat \<Rightarrow> 'a list \<Rightarrow> 'a list list" where
  "chunks k xs = (if xs = [] \<or> k = 0 then [] else take k xs # chunks k (drop k xs))"

declare chunks.simps [simp del]

lemma chunkAndReverse_loop_chunks:
  "0 < k \<Longrightarrow> chunkAndReverse_loop arr k i result = Some (result @ concat (map rev (chunks k (drop i arr))))"
proof (induction arr k i result rule: chunkAndReverse_loop.induct)
  case (1 arr k i result)
  then show ?case
    by (subst chunkAndReverse_loop.simps, subst chunks.simps) (auto simp: add.commute)
qed

lemma reversed_pages:
  "0 < k \<Longrightarrow> chunkAndReverseArray arr k = Some (concat (rev (chunks k arr)))"
  by (simp add: chunkAndReverseArray_def chunkAndReverse_loop_chunks rev_concat rev_map comp_def)

end
