(* ===== verification/ServiceNode.thy ===== *)
theory ServiceNode
  imports MessageCollector
begin

text \<open>
  The service nodes of the integration tests, containers of another implementation: the command line they are started with
  (\<open>packages/tests/src/lib/dockerode.ts\<close>), their start with its retries, and the calls of their REST interface
  (\<open>lib/service\_node.ts\<close>). Docker, the ports and the network are arguments.
\<close>

section \<open>Arguments\<close>

text \<open>A value of \<open>Args\<close>: printed as it is, or a list of which each element is an argument of its own.\<close>

datatype argValue = Single string | Several "string list"

type_synonym args = "(string, argValue) jsmap"

definition kebab_char :: "char \<Rightarrow> string" where
  "kebab_char c = (if lower_char c \<noteq> c then [CHR ''-'', lower_char c] else [c])"

definition kebabKey :: "string \<Rightarrow> string" where
  "kebabKey key = concat (map kebab_char key)"

definition argsToArray :: "args \<Rightarrow> string list" where
  "argsToArray args =
     concat (map (\<lambda>(key, v). case v of
         Several vals \<Rightarrow> map (\<lambda>val. ''--'' @ kebabKey key @ ''='' @ val) vals
       | Single val \<Rightarrow> [''--'' @ kebabKey key @ ''='' @ val]) args)"

definition boolStr :: "bool \<Rightarrow> string" where
  "boolStr b = (if b then ''true'' else ''false'')"

definition defaultArgs :: args where
  "defaultArgs =
     [(''listenAddress'', Single ''0.0.0.0''), (''relay'', Single (boolStr False)), (''rest'', Single (boolStr True)),
      (''restAdmin'', Single (boolStr True)), (''websocketSupport'', Single (boolStr True)), (''logLevel'', Single ''TRACE''),
      (''clusterId'', Single ''0''), (''shard'', Several [''0''])]"

record ports =
  po_tcpPort :: nat
  po_websocketPort :: nat
  po_restPort :: nat
  po_discv5UdpPort :: nat

definition flagSet :: "args \<Rightarrow> string \<Rightarrow> bool" where
  "flagSet args key = (jm_get args key = Some (Single (boolStr True)))"

text \<open>\<open>Object.assign\<close>: each property of a source replaces that of the target or is added to it.\<close>

definition objectAssign :: "(string, 'v) jsmap \<Rightarrow> (string, 'v) jsmap list \<Rightarrow> (string, 'v) jsmap" where
  "objectAssign target sources = fold (\<lambda>source m. fold (\<lambda>(k, v). jm_set k v) source m) sources target"

text \<open>
  The arguments of a start: \<open>peerExchange\<close> is whether the caller's arguments have it. For go-waku the caller's log level is set if it is
  missing, in the object of the caller.
\<close>

definition callerArgs :: "bool \<Rightarrow> args \<Rightarrow> args" where
  "callerArgs isGoWaku args = (if isGoWaku \<and> \<not> jm_has args ''logLevel'' then jm_set ''logLevel'' (Single ''DEBUG'') args else args)"

definition mergedArgs :: "bool \<Rightarrow> ports \<Rightarrow> args \<Rightarrow> args" where
  "mergedArgs isGoWaku p args =
     (let args = callerArgs isGoWaku args;
          legacyFilter = nullish (jm_get args ''legacyFilter'') (Single (boolStr False));
          rest = jm_delete ''legacyFilter'' args;
          peerExchange = flagSet args ''peerExchange''
      in objectAssign defaultArgs
           [[(''rest'', Single (boolStr True)), (''restPort'', Single (show_nat (po_restPort p))), (''tcpPort'', Single (show_nat (po_tcpPort p))),
             (''websocketPort'', Single (show_nat (po_websocketPort p)))] @
            (if peerExchange then [(''discv5UdpPort'', Single (show_nat (po_discv5UdpPort p)))] else []) @
            (if isGoWaku then [(''minRelayPeersToPublish'', Single ''0''), (''legacyFilter'', legacyFilter)] else []),
            [(''restAddress'', Single ''0.0.0.0'')],
            rest])"

section \<open>The container\<close>

text \<open>
  What a container is created with: the bound and the exposed ports, whether the tree of the relay's membership is mounted, and its command.
\<close>

record containerConfig =
  cc_PortBindings :: "(string \<times> string) list"
  cc_ExposedPorts :: "string list"
  cc_Mounts :: "(string \<times> string) list"
  cc_Cmd :: "string list"

text \<open>\<open>dk_running\<close> are the containers that run; the next one gets the number \<open>dk_next\<close>. \<open>sn_docker\<close> is the container id of the instance, once it has one.\<close>

record serviceNode =
  sn_docker :: "nat option option"
  sn_args :: "args option"
  sn_restPort :: "nat option"
  sn_websocketPort :: "nat option"
  sn_peerId :: "string option"
  sn_multiaddrWithId :: "string option"

record docker =
  dk_next :: nat
  dk_running :: "nat list"
  dk_configs :: "containerConfig list"

definition newServiceNode :: serviceNode where
  "newServiceNode = \<lparr>sn_docker = None, sn_args = None, sn_restPort = None, sn_websocketPort = None, sn_peerId = None, sn_multiaddrWithId = None\<rparr>"

definition docker_stop :: "docker \<Rightarrow> nat option \<Rightarrow> docker" where
  "docker_stop D containerId = (case containerId of None \<Rightarrow> D | Some c \<Rightarrow> D\<lparr>dk_running := filter (\<lambda>x. x \<noteq> c) (dk_running D)\<rparr>)"

definition service_stop :: "serviceNode \<times> docker \<Rightarrow> serviceNode \<times> docker" where
  "service_stop = (\<lambda>(S, D). case sn_docker S of None \<Rightarrow> (S, D) | Some c \<Rightarrow> (S\<lparr>sn_docker := None\<rparr>, docker_stop D c))"

text \<open>
  One attempt of \<open>start\<close>: the address chosen for its container, the ports found free, whether Docker creates and starts the container,
  whether it connects it to the network, and whether the node reports in its log that it is ready. \<open>params\<close> are the parameters of
  the environment, one argument when they are set.
\<close>

record attempt =
  at_containerIp :: string
  at_ports :: ports
  at_started :: "unit res"
  at_connected :: "unit res"
  at_ready :: "unit res"

definition containerCmd :: "string option \<Rightarrow> string \<Rightarrow> args \<Rightarrow> string list" where
  "containerCmd params containerIp args =
     argsToArray args @ (case params of Some (c # cs) \<Rightarrow> [c # cs] | _ \<Rightarrow> []) @ [''--nat=extip:'' @ containerIp]"

definition containerConfigOf :: "string option \<Rightarrow> string \<Rightarrow> ports \<Rightarrow> args \<Rightarrow> containerConfig" where
  "containerConfigOf params containerIp p args =
     (let tcp = map (\<lambda>n. (show_nat n @ ''/tcp'', show_nat n)) [po_restPort p, po_tcpPort p, po_websocketPort p];
          udp = (if flagSet args ''peerExchange'' then [(show_nat (po_discv5UdpPort p) @ ''/udp'', show_nat (po_discv5UdpPort p))] else [])
      in \<lparr>cc_PortBindings = tcp @ udp,
          cc_ExposedPorts = map fst tcp @ map fst udp,
          cc_Mounts = (case jm_get args ''rlnRelayEthClientAddress'' of
                         Some (Single (_ # _)) \<Rightarrow> [(''/tmp/rln_tree.db'', ''/rln_tree.db'')]
                       | _ \<Rightarrow> []),
          cc_Cmd = containerCmd params containerIp args\<rparr>)"

text \<open>The id of the container is kept once it is connected.\<close>

definition startContainer :: "string option \<Rightarrow> attempt \<Rightarrow> args \<Rightarrow> docker \<Rightarrow> docker \<times> nat res" where
  "startContainer params A args D =
     (case at_started A of
        Inl e \<Rightarrow> (D, Inl e)
      | Inr _ \<Rightarrow>
          let D1 = D\<lparr>dk_next := dk_next D + 1, dk_running := dk_running D @ [dk_next D],
                     dk_configs := dk_configs D @ [containerConfigOf params (at_containerIp A) (at_ports A) args]\<rparr>
          in (D1, rbind (at_connected A) (\<lambda>_. Inr (dk_next D))))"

definition start_attempt ::
  "bool \<Rightarrow> string option \<Rightarrow> args \<Rightarrow> attempt \<Rightarrow> serviceNode \<times> docker \<Rightarrow> (serviceNode \<times> docker) \<times> unit res" where
  "start_attempt isGoWaku params args A = (\<lambda>(S, D).
     let merged = mergedArgs isGoWaku (at_ports A) args;
         S1 = S\<lparr>sn_docker := Some None, sn_restPort := Some (po_restPort (at_ports A)), sn_websocketPort := Some (po_websocketPort (at_ports A))\<rparr>
     in case startContainer params A merged D of
          (D1, Inl e) \<Rightarrow> (service_stop (S1, D1), Inl e)
        | (D1, Inr c) \<Rightarrow>
            let S2 = S1\<lparr>sn_docker := Some (Some c), sn_args := Some merged\<rparr>
            in (case at_ready A of
                  Inl e \<Rightarrow> ((S2\<lparr>sn_docker := Some None\<rparr>, docker_stop D1 (Some c)), Inl e)
                | Inr _ \<Rightarrow> ((S2, D1), Inr ())))"

text \<open>\<open>start\<close>: the attempts of \<open>pRetry\<close>, until one succeeds, and the last error when none does.\<close>

fun service_start ::
  "bool \<Rightarrow> string option \<Rightarrow> args \<Rightarrow> attempt list \<Rightarrow> serviceNode \<times> docker \<Rightarrow> (serviceNode \<times> docker) \<times> unit res" where
  "service_start isGoWaku params args [] st = (st, Inl (Error ''no attempt''))"
| "service_start isGoWaku params args [A] st = start_attempt isGoWaku params args A st"
| "service_start isGoWaku params args (A # A' # As) st =
     (case start_attempt isGoWaku params args A st of
        (st1, Inr _) \<Rightarrow> (st1, Inr ())
      | (st1, Inl _) \<Rightarrow> service_start isGoWaku params args (A' # As) st1)"

section \<open>The REST interface\<close>

record messageRpcQuery =
  rq_payload :: string
  rq_contentTopic :: string
  rq_timestamp :: "int option"

text \<open>\<open>toMessageRpcQuery\<close>; \<open>base64\<close> is the text of the payload. An invalid date makes \<open>BigInt\<close> throw.\<close>

definition toMessageRpcQuery :: "(bytes \<Rightarrow> string) \<Rightarrow> bytes \<Rightarrow> string \<Rightarrow> date option \<Rightarrow> messageRpcQuery res" where
  "toMessageRpcQuery base64 payload contentTopic timestamp =
     (case timestamp of
        None \<Rightarrow> Inr \<lparr>rq_payload = base64 payload, rq_contentTopic = contentTopic, rq_timestamp = None\<rparr>
      | Some None \<Rightarrow> Inl RangeError
      | Some (Some ms) \<Rightarrow> Inr \<lparr>rq_payload = base64 payload, rq_contentTopic = contentTopic, rq_timestamp = Some (ms * OneMillion)\<rparr>)"

text \<open>\<open>encodeURIComponent\<close>: the characters that stay, and the UTF-8 bytes of the others in hexadecimal.\<close>

definition hexDigit :: "nat \<Rightarrow> char" where
  "hexDigit d = (if d < 10 then char_of (48 + d) else char_of (55 + d))"

definition unreserved :: "char \<Rightarrow> bool" where
  "unreserved c = (let n = (of_char c :: nat) in 48 \<le> n \<and> n \<le> 57 \<or> 65 \<le> n \<and> n \<le> 90 \<or> 97 \<le> n \<and> n \<le> 122 \<or> c \<in> {CHR ''-'', CHR ''_'', CHR ''.'', CHR ''!'', CHR ''~'', CHR ''*'', CHR 0x27, CHR ''('', CHR '')''})"

definition encodeURIComponent :: "(string \<Rightarrow> bytes) \<Rightarrow> string \<Rightarrow> string" where
  "encodeURIComponent utf8 s =
     concat (map (\<lambda>c. if unreserved c then [c]
                      else concat (map (\<lambda>b. [CHR ''%'', hexDigit (unat b div 16), hexDigit (unat b mod 16)]) (utf8 [c]))) s)"

datatype restMethod = GET | POST

datatype restBody = NoBody | TopicsBody "string list" | MessageBody messageRpcQuery

record restRequest =
  rt_url :: string
  rt_method :: restMethod
  rt_body :: restBody

definition httpUrl :: "serviceNode \<Rightarrow> string" where
  "httpUrl S = ''http://127.0.0.1:'' @ (case sn_restPort S of None \<Rightarrow> ''undefined'' | Some p \<Rightarrow> show_nat p)"

definition checkProcess :: "serviceNode \<Rightarrow> unit res" where
  "checkProcess S = (case sn_docker S of Some (Some _) \<Rightarrow> Inr () | _ \<Rightarrow> Inl (Error ''container hasn't started''))"

text \<open>\<open>fetch\<close> is the answer to a request; what is thrown by it or by \<open>processResponse\<close> is logged and thrown again.\<close>

definition restCall :: "(restRequest \<Rightarrow> 'r res) \<Rightarrow> serviceNode \<Rightarrow> string \<Rightarrow> restMethod \<Rightarrow> restBody \<Rightarrow> ('r \<Rightarrow> 'a res) \<Rightarrow> 'a res" where
  "restCall fetch S endpoint method body processResponse =
     rbind (checkProcess S)
       (\<lambda>_. rbind (fetch \<lparr>rt_url = httpUrl S @ endpoint, rt_method = method, rt_body = body\<rparr>) processResponse)"

text \<open>A response: the status and the messages in its body, \<open>None\<close> when the body is not a list of them; a hole in it is \<open>None\<close>.\<close>

record restResponse =
  rs_status :: int
  rs_messages :: "messageRpcResponse option list option"

definition pubsubTopicOf :: "string option \<Rightarrow> serviceNode \<Rightarrow> string" where
  "pubsubTopicOf pubsubTopic S =
     (case pubsubTopic of
        Some (c # cs) \<Rightarrow> c # cs
      | _ \<Rightarrow> (case Option.bind (sn_args S) (\<lambda>args. jm_get args ''pubsubTopic'') of
                Some (Several ((c # cs) # _)) \<Rightarrow> c # cs
              | Some (Single (c # _)) \<Rightarrow> [c]
              | _ \<Rightarrow> DefaultTestPubsubTopic))"

definition node_messages ::
  "(string \<Rightarrow> bytes) \<Rightarrow> (restRequest \<Rightarrow> restResponse res) \<Rightarrow> serviceNode \<Rightarrow> string option \<Rightarrow> messageRpcResponse option list res" where
  "node_messages utf8 fetch S pubsubTopic =
     restCall fetch S (''/relay/v1/messages/'' @ encodeURIComponent utf8 (pubsubTopicOf pubsubTopic S)) GET NoBody
       (\<lambda>response. Inr (nullish (rs_messages response) []))"

definition node_messagesAutosharding ::
  "(string \<Rightarrow> bytes) \<Rightarrow> (restRequest \<Rightarrow> restResponse res) \<Rightarrow> serviceNode \<Rightarrow> string \<Rightarrow> messageRpcResponse list res" where
  "node_messagesAutosharding utf8 fetch S contentTopic =
     restCall fetch S (''/relay/v1/auto/messages/'' @ encodeURIComponent utf8 contentTopic) GET NoBody
       (\<lambda>response. Inr (List.map_filter id (nullish (rs_messages response) [])))"

text \<open>\<open>now\<close> is the time in milliseconds; the timestamp is set in the object of the caller, which is returned.\<close>

definition stamped :: "int \<Rightarrow> messageRpcQuery \<Rightarrow> messageRpcQuery" where
  "stamped now message = (case rq_timestamp message of None \<Rightarrow> message\<lparr>rq_timestamp := Some (now * OneMillion)\<rparr> | Some _ \<Rightarrow> message)"

definition node_sendMessage ::
  "(string \<Rightarrow> bytes) \<Rightarrow> (restRequest \<Rightarrow> restResponse res) \<Rightarrow> int \<Rightarrow> serviceNode \<Rightarrow> messageRpcQuery \<Rightarrow> string option \<Rightarrow> bool res" where
  "node_sendMessage utf8 fetch now S message pubsubTopic =
     rbind (checkProcess S)
       (\<lambda>_. restCall fetch S (''/relay/v1/messages/'' @ encodeURIComponent utf8 (pubsubTopicOf pubsubTopic S)) POST (MessageBody (stamped now message))
              (\<lambda>response. Inr (rs_status response = 200)))"

definition node_sendMessageAutosharding ::
  "(restRequest \<Rightarrow> restResponse res) \<Rightarrow> int \<Rightarrow> serviceNode \<Rightarrow> messageRpcQuery \<Rightarrow> bool res" where
  "node_sendMessageAutosharding fetch now S message =
     rbind (checkProcess S)
       (\<lambda>_. restCall fetch S ''/relay/v1/auto/messages'' POST (MessageBody (stamped now message)) (\<lambda>response. Inr (rs_status response = 200)))"

definition ensureSubscriptions :: "(restRequest \<Rightarrow> restResponse res) \<Rightarrow> serviceNode \<Rightarrow> string list option \<Rightarrow> bool res" where
  "ensureSubscriptions fetch S pubsubTopics =
     restCall fetch S ''/relay/v1/subscriptions'' POST (TopicsBody (nullish pubsubTopics [DefaultTestPubsubTopic]))
       (\<lambda>response. Inr (rs_status response = 200))"

definition ensureSubscriptionsAutosharding :: "(restRequest \<Rightarrow> restResponse res) \<Rightarrow> serviceNode \<Rightarrow> string list \<Rightarrow> bool res" where
  "ensureSubscriptionsAutosharding fetch S contentTopics =
     rbind (checkProcess S)
       (\<lambda>_. restCall fetch S ''/relay/v1/subscriptions'' POST (TopicsBody contentTopics) (\<lambda>response. Inr (rs_status response = 200)))"

definition node_healthy :: "(restRequest \<Rightarrow> restResponse res) \<Rightarrow> serviceNode \<Rightarrow> bool res" where
  "node_healthy fetch S =
     rbind (checkProcess S) (\<lambda>_. restCall fetch S ''/health'' GET NoBody (\<lambda>response. Inr (rs_status response = 200)))"

text \<open>
  The peer id, remembered from the first address with a websocket that the node reports; an address is the names of its protocols and its
  peer id.
\<close>

definition getPeerId :: "(string list \<times> string option) list res \<Rightarrow> serviceNode \<Rightarrow> (serviceNode \<times> string) res" where
  "getPeerId listenAddresses S =
     (case sn_peerId S of
        Some p \<Rightarrow> Inr (S, p)
      | None \<Rightarrow>
          rbind (checkProcess S)
            (\<lambda>_. rbind listenAddresses
              (\<lambda>mas. case find (\<lambda>(names, _). ''ws'' \<in> set names) mas of
                       None \<Rightarrow> Inl (Error ''did not return a ws multiaddr'')
                     | Some (_, None) \<Rightarrow> Inl (Error ''multiaddr does not contain peerId'')
                     | Some (_, Some p) \<Rightarrow> if p = [] then Inl (Error ''multiaddr does not contain peerId'') else Inr (S\<lparr>sn_peerId := Some p\<rparr>, p))))"

definition getMultiaddrWithId :: "(string list \<times> string option) list res \<Rightarrow> serviceNode \<Rightarrow> (serviceNode \<times> string) res" where
  "getMultiaddrWithId listenAddresses S =
     (case sn_multiaddrWithId S of
        Some ma \<Rightarrow> Inr (S, ma)
      | None \<Rightarrow>
          rbind (getPeerId listenAddresses S)
            (\<lambda>(S1, p).
               let ma = ''/ip4/127.0.0.1/tcp/'' @ (case sn_websocketPort S1 of None \<Rightarrow> ''undefined'' | Some n \<Rightarrow> show_nat n) @ ''/ws/p2p/'' @ p
               in Inr (S1\<lparr>sn_multiaddrWithId := Some ma\<rparr>, ma)))"

section \<open>Command lines\<close>

lemma map_of_rev_distinct: "distinct (map fst xs) \<Longrightarrow> map_of (rev xs) = map_of xs"
  by (rule map_of_inject_set [THEN iffD2]) (auto simp: rev_map [symmetric])

lemma objectAssign_get:
  "jm_get (objectAssign target (sources @ [source])) k =
     (case map_of (rev source) k of None \<Rightarrow> jm_get (objectAssign target sources) k | Some v \<Rightarrow> Some v)"
  unfolding objectAssign_def by (simp add: jm.get_fold_set)

text \<open>The arguments of the caller replace the defaults and those of the ports.\<close>

lemma caller_arguments_win:
  assumes "jm_wf args" and "k \<noteq> ''legacyFilter''" and "jm_get args k = Some v"
  shows "jm_get (mergedArgs isGoWaku p args) k = Some v"
proof -
  let ?rest = "jm_delete ''legacyFilter'' (callerArgs isGoWaku args)"
  have "jm_wf ?rest" using assms(1) by (simp add: callerArgs_def)
  then have "map_of (rev ?rest) = map_of ?rest" by (intro map_of_rev_distinct) (simp add: jm_wf_def jm_keys_def)
  moreover have "jm_get ?rest k = Some v" using assms(2,3) by (auto simp: callerArgs_def jm_has_def)
  ultimately have "map_of (rev ?rest) k = Some v" by (simp add: jm_get_def)
  then show ?thesis
    using objectAssign_get [of defaultArgs "[_, _]" ?rest k] by (simp add: mergedArgs_def Let_def)
qed

lemma lower_char_code:
  "lower_char c \<noteq> c \<Longrightarrow> (of_char (lower_char c) :: nat) = of_char c + 32"
  by (auto simp: lower_char_def Let_def split: if_splits)

lemma lower_char_inj:
  assumes "lower_char c \<noteq> c" and "lower_char d \<noteq> d" and "lower_char c = lower_char d"
  shows "c = d"
  using lower_char_code [OF assms(1)] lower_char_code [OF assms(2)] assms(3)
  by (metis add_right_cancel of_char_eq_iff)

text \<open>Options that have no dash in their name keep different names on the command line.\<close>

lemma kebabKey_injective:
  "CHR ''-'' \<notin> set k \<Longrightarrow> CHR ''-'' \<notin> set k' \<Longrightarrow> kebabKey k = kebabKey k' \<Longrightarrow> k = k'"
proof (induction k arbitrary: k')
  case Nil
  then show ?case by (cases k') (auto simp: kebabKey_def kebab_char_def split: if_splits)
next
  case (Cons c cs)
  then obtain d ds where k': "k' = d # ds" by (cases k') (auto simp: kebabKey_def kebab_char_def split: if_splits)
  have "c = d \<and> kebabKey cs = kebabKey ds"
    using Cons.prems lower_char_inj [of c d] by (auto simp: k' kebabKey_def kebab_char_def split: if_splits)
  with Cons show ?case by (simp add: k')
qed

text \<open>
  The ports that the node is told on its command line are those the container binds, unless the caller gives others: Docker and the REST calls
  keep the ports that were found free.
\<close>

lemma rest_port_bound:
  assumes "jm_wf args"
  shows "jm_get (mergedArgs isGoWaku p args) ''restPort'' =
      (case jm_get args ''restPort'' of None \<Rightarrow> Some (Single (show_nat (po_restPort p))) | Some v \<Rightarrow> Some v)"
    and "(show_nat (po_restPort p) @ ''/tcp'', show_nat (po_restPort p)) \<in> set (cc_PortBindings (containerConfigOf params ip p (mergedArgs isGoWaku p args)))"
proof -
  have rest: "map_of (rev (jm_delete ''legacyFilter'' (callerArgs g args))) ''restPort'' = jm_get args ''restPort''" for g
  proof -
    let ?rest = "jm_delete ''legacyFilter'' (callerArgs g args)"
    have "jm_wf ?rest" using assms by (simp add: callerArgs_def)
    then have "map_of (rev ?rest) = map_of ?rest" by (intro map_of_rev_distinct) (simp add: jm_wf_def jm_keys_def)
    moreover have "jm_get ?rest ''restPort'' = jm_get args ''restPort''" by (simp add: callerArgs_def)
    ultimately show ?thesis by (simp add: jm_get_def)
  qed
  show "jm_get (mergedArgs isGoWaku p args) ''restPort'' =
      (case jm_get args ''restPort'' of None \<Rightarrow> Some (Single (show_nat (po_restPort p))) | Some v \<Rightarrow> Some v)"
    by (simp add: mergedArgs_def objectAssign_def Let_def jm.get_fold_set rest split: option.split)
qed (simp add: containerConfigOf_def Let_def)

section \<open>Starting and stopping\<close>

definition dockerWf :: "docker \<Rightarrow> bool" where
  "dockerWf D = (\<forall>c \<in> set (dk_running D). c < dk_next D)"

lemma dockerWf_drop_next: "dockerWf D \<Longrightarrow> filter (\<lambda>c. c \<noteq> dk_next D) (dk_running D) = dk_running D"
  by (auto simp: dockerWf_def filter_id_conv)

lemmas start_defs = start_attempt_def startContainer_def service_stop_def docker_stop_def Let_def

lemma start_attempt_outcome:
  assumes "dockerWf D" and "at_connected A = Inr ()"
    and "start_attempt isGoWaku params args A (S, D) = ((S', D'), r)"
  shows "dockerWf D'"
    and "r = Inr () \<Longrightarrow> \<exists>c. c \<notin> set (dk_running D) \<and> sn_docker S' = Some (Some c) \<and> dk_running D' = dk_running D @ [c]"
    and "r \<noteq> Inr () \<Longrightarrow> dk_running D' = dk_running D \<and> checkProcess S' \<noteq> Inr ()"
  using assms by (auto simp: start_defs dockerWf_def less_SucI dockerWf_drop_next [OF assms(1)] checkProcess_def split: sum.splits)

text \<open>
  When a container that starts can be connected, a start leaves one more container, that of the node, or none if it fails.
\<close>

lemma service_start_outcome:
  assumes "dockerWf D" and "\<forall>A \<in> set As. at_connected A = Inr ()"
    and "service_start isGoWaku params args As (S, D) = ((S', D'), r)" and "As \<noteq> []"
  shows "dockerWf D' \<and>
    (if r = Inr () then \<exists>c. c \<notin> set (dk_running D) \<and> sn_docker S' = Some (Some c) \<and> dk_running D' = dk_running D @ [c]
     else dk_running D' = dk_running D \<and> checkProcess S' \<noteq> Inr ())"
  using assms
proof (induction As arbitrary: S D)
  case (Cons A As)
  obtain S1 D1 r1 where a: "start_attempt isGoWaku params args A (S, D) = ((S1, D1), r1)" by (metis surj_pair)
  have "at_connected A = Inr ()" using Cons by simp
  note out = start_attempt_outcome [OF Cons.prems(1) this a]
  show ?case
  proof (cases As)
    case Nil
    then show ?thesis using Cons.prems a out by auto
  next
    case As: (Cons A' As')
    show ?thesis
    proof (cases r1)
      case (Inl e)
      then have "service_start isGoWaku params args As (S1, D1) = ((S', D'), r)" using Cons.prems(3) a As by simp
      then show ?thesis using Cons.IH [of D1 S1] Cons.prems out Inl As by auto
    next
      case (Inr u)
      then show ?thesis using Cons.prems a out As by auto
    qed
  qed
qed simp

text \<open>A start stops no container that ran before it, not that of the same node either: each attempt forgets it.\<close>

lemma start_attempt_keeps:
  "dockerWf D \<Longrightarrow> start_attempt isGoWaku params args A (S, D) = ((S', D'), r) \<Longrightarrow>
     dockerWf D' \<and> set (dk_running D) \<subseteq> set (dk_running D') \<and> sn_peerId S' = sn_peerId S \<and> sn_multiaddrWithId S' = sn_multiaddrWithId S"
  by (auto simp: start_defs dockerWf_def less_SucI rbind_def split: sum.splits)

lemma service_start_keeps:
  "dockerWf D \<Longrightarrow> service_start isGoWaku params args As (S, D) = ((S', D'), r) \<Longrightarrow>
     set (dk_running D) \<subseteq> set (dk_running D') \<and> sn_peerId S' = sn_peerId S \<and> sn_multiaddrWithId S' = sn_multiaddrWithId S"
proof (induction As arbitrary: S D)
  case (Cons A As)
  obtain S1 D1 r1 where a: "start_attempt isGoWaku params args A (S, D) = ((S1, D1), r1)" by (metis surj_pair)
  note k = start_attempt_keeps [OF Cons.prems(1) a]
  show ?case
  proof (cases As)
    case Nil
    then show ?thesis using Cons.prems a k by auto
  next
    case As: (Cons A' As')
    show ?thesis
    proof (cases r1)
      case (Inl e)
      then have "service_start isGoWaku params args As (S1, D1) = ((S', D'), r)" using Cons.prems(2) a As by simp
      then show ?thesis using Cons.IH [of D1 S1] k by auto
    next
      case (Inr u)
      then show ?thesis using Cons.prems a k As by auto
    qed
  qed
qed simp

text \<open>
  A node that is started while it runs leaves its container running with nobody to stop it, and so does an attempt whose container
  starts but cannot be connected to the network.
\<close>

lemma started_twice_leaks:
  assumes "dockerWf D" and "sn_docker S = Some (Some c)" and "c \<in> set (dk_running D)"
    and "\<forall>A \<in> set As. at_connected A = Inr ()" and "As \<noteq> []"
    and "service_start isGoWaku params args As (S, D) = ((S1, D1), Inr ())"
    and "service_stop (S1, D1) = (S2, D2)"
  shows "c \<in> set (dk_running D2) \<and> sn_docker S2 = None"
proof -
  obtain c' where "c' \<notin> set (dk_running D)" "sn_docker S1 = Some (Some c')" "dk_running D1 = dk_running D @ [c']"
    using service_start_outcome [OF assms(1,4,6,5)] by auto
  with assms(3,7) show ?thesis by (auto simp: service_stop_def docker_stop_def)
qed

lemma unconnected_leaks:
  assumes "at_started A = Inr ()" and "at_connected A = Inl e"
  shows "\<exists>S' D'. start_attempt isGoWaku params args A (S, D) = ((S', D'), Inl e) \<and> dk_running D' = dk_running D @ [dk_next D] \<and> sn_docker S' = None"
  using assms by (simp add: start_defs)

text \<open>
  The address of a node is remembered when it is stopped: started again, with another container, it still answers the old one.
\<close>

lemma address_survives_restart:
  assumes "dockerWf D" and "getMultiaddrWithId addresses S = Inr (S1, ma)"
    and "service_start isGoWaku params args As (service_stop (S1, D)) = ((S2, D2), r)"
  shows "getMultiaddrWithId addresses' S2 = Inr (S2, ma)"
proof -
  have "sn_multiaddrWithId S1 = Some ma"
    using assms(2) by (auto simp: getMultiaddrWithId_def rbind_def Let_def split: option.splits sum.splits prod.splits)
  moreover obtain S' D' where st: "service_stop (S1, D) = (S', D')" by (metis surj_pair)
  then have "sn_multiaddrWithId S' = sn_multiaddrWithId S1" "dockerWf D'"
    using assms(1) by (auto simp: service_stop_def docker_stop_def dockerWf_def split: option.splits)
  moreover have "sn_multiaddrWithId S2 = sn_multiaddrWithId S'"
    using service_start_keeps [OF calculation(3)] assms(3) st by metis
  ultimately show ?thesis by (simp add: getMultiaddrWithId_def)
qed

lemma getPeerId_docker: "getPeerId addresses S = Inr (S', p) \<Longrightarrow> sn_docker S' = sn_docker S"
proof (cases "sn_peerId S")
  case None
  assume g: "getPeerId addresses S = Inr (S', p)"
  then obtain mas where "addresses = Inr mas" by (auto simp: getPeerId_def None rbind_eq_Inr)
  with g show ?thesis
    by (cases "find (\<lambda>(names, _). ''ws'' \<in> set names) mas") (auto simp: getPeerId_def None rbind_eq_Inr split: option.splits if_splits)
qed (simp add: getPeerId_def)

lemma getMultiaddrWithId_docker: "getMultiaddrWithId addresses S = Inr (S', ma) \<Longrightarrow> sn_docker S' = sn_docker S"
  by (cases "sn_multiaddrWithId S") (auto simp: getMultiaddrWithId_def rbind_eq_Inr Let_def dest: getPeerId_docker)

section \<open>Requests\<close>

text \<open>A topic is one segment of the path.\<close>

lemma hexDigit_not_slash: "d < 16 \<Longrightarrow> hexDigit d \<noteq> CHR 0x2F"
proof -
  assume "d < 16"
  then have "(of_char (hexDigit d) :: nat) \<noteq> 47" by (simp add: hexDigit_def)
  then show ?thesis by force
qed

lemma escaped_not_slash:
  "CHR 0x2F \<notin> set (concat (map (\<lambda>b :: byte. [CHR ''%'', hexDigit (unat b div 16), hexDigit (unat b mod 16)]) bs))"
proof (induction bs)
  case (Cons b bs)
  have "unat b div 16 < 16" using unsigned_less [of b, where 'a = nat] by simp
  then have "CHR 0x2F \<noteq> hexDigit (unat b div 16)" by (rule hexDigit_not_slash [symmetric])
  moreover have "CHR 0x2F \<noteq> hexDigit (unat b mod 16)" by (rule hexDigit_not_slash [symmetric]) simp
  moreover have "CHR 0x2F \<noteq> CHR ''%''" by simp
  ultimately show ?case using Cons.IH by (simp only: list.map concat.simps set_append set_simps Un_iff insert_iff empty_iff simp_thms)
qed simp

lemma slash_reserved: "\<not> unreserved (CHR 0x2F)"
  by (simp add: unreserved_def Let_def)

lemma topic_is_one_segment: "CHR 0x2F \<notin> set (encodeURIComponent utf8 s)"
proof (induction s)
  case (Cons c s)
  have "CHR 0x2F \<noteq> c" if "unreserved c" using that slash_reserved by metis
  with Cons show ?case
    by (simp add: encodeURIComponent_def escaped_not_slash del: set_concat)
qed (simp add: encodeURIComponent_def)

end
