(* ===== verification/TestRun.thy ===== *)
theory TestRun
  imports ServiceNode TestTools
begin

text \<open>
  What the integration tests put together from service nodes: fleets of them (\<open>packages/tests/src/lib/index.ts\<close>), a node of each kind
  (\<open>lib/runNodes.ts\<close>), the messages of the store tests (\<open>tests/store/utils.ts\<close>), the end of a test (\<open>utils/teardown.ts\<close>) and the
  version of the image (\<open>utils/waku\_versions\_utils.ts\<close>).
\<close>

section \<open>Fleets\<close>

definition clusterArg :: "int option \<Rightarrow> argValue" where
  "clusterArg clusterId = Single (case clusterId of None \<Rightarrow> ''undefined'' | Some c \<Rightarrow> show_int c)"

definition getArgs :: "(string \<Rightarrow> bytes) \<Rightarrow> (bytes \<Rightarrow> bytes) \<Rightarrow> networkConfig \<Rightarrow> args \<Rightarrow> args res" where
  "getArgs utf8 sha256 config args =
     rbind (derivePubsubTopicsFromNetworkConfig utf8 sha256 config)
       (\<lambda>pubsubTopics. Inr (objectAssign
          [(''lightpush'', Single (boolStr True)), (''filter'', Single (boolStr True)), (''discv5Discovery'', Single (boolStr True)),
           (''peerExchange'', Single (boolStr True)), (''relay'', Single (boolStr True)), (''pubsubTopic'', Several pubsubTopics),
           (''clusterId'', clusterArg (propVal (nc_clusterId config)))] [args]))"

text \<open>
  The nodes of a fleet start together; they are started here one after the other, which changes only the numbers of the containers. All of
  them are started, whether or not another one fails.
\<close>

fun startNodes :: "bool \<Rightarrow> args \<Rightarrow> string option \<Rightarrow> attempt list list \<Rightarrow> docker \<Rightarrow> docker \<times> serviceNode res list" where
  "startNodes isGoWaku args params [] D = (D, [])"
| "startNodes isGoWaku args params (As # Ass) D =
     (case service_start isGoWaku params args As (newServiceNode, D) of
        ((S, D1), r) \<Rightarrow>
          let (D2, rs) = startNodes isGoWaku args params Ass D1
          in (D2, rbind r (\<lambda>_. Inr S) # rs))"

record serviceNodesFleet =
  sf_nodes :: "serviceNode list"
  sf_strictChecking :: bool
  sf_messageCollector :: fleetCollector

text \<open>\<open>pubsubTopics\<close> of a node.\<close>

definition node_pubsubTopics :: "serviceNode \<Rightarrow> string list" where
  "node_pubsubTopics S =
     (case Option.bind (sn_args S) (\<lambda>args. jm_get args ''pubsubTopic'') of Some (Several ts) \<Rightarrow> ts | Some (Single t) \<Rightarrow> map (\<lambda>c. [c]) t | None \<Rightarrow> [])"

definition newServiceNodesFleet :: "serviceNode list \<Rightarrow> bool \<Rightarrow> bool \<Rightarrow> serviceNodesFleet" where
  "newServiceNodesFleet nodes relay strictChecking =
     \<lparr>sf_nodes = nodes, sf_strictChecking = strictChecking,
      sf_messageCollector = newFleetCollector (map node_pubsubTopics nodes) relay strictChecking\<rparr>"

definition createAndRun ::
  "(string \<Rightarrow> bytes) \<Rightarrow> (bytes \<Rightarrow> bytes) \<Rightarrow> bool \<Rightarrow> string option \<Rightarrow> attempt list list \<Rightarrow> bool \<Rightarrow> networkConfig \<Rightarrow> args \<Rightarrow> bool \<Rightarrow> docker \<Rightarrow>
     docker \<times> serviceNodesFleet res" where
  "createAndRun utf8 sha256 isGoWaku params nodes strictChecking config args withoutFilter D =
     (case getArgs utf8 sha256 config args of
        Inl e \<Rightarrow> (D, if nodes = [] then Inr (newServiceNodesFleet [] withoutFilter strictChecking) else Inl e)
      | Inr a \<Rightarrow>
          let (D1, rs) = startNodes isGoWaku a params nodes D
          in (D1, rbind (mapM id rs) (\<lambda>ns. Inr (newServiceNodesFleet ns withoutFilter strictChecking))))"

text \<open>The nodes are given the same message object, which the first one that has a container stamps.\<close>

definition sendRelayMessage ::
  "(string \<Rightarrow> bytes) \<Rightarrow> (serviceNode \<Rightarrow> restRequest \<Rightarrow> restResponse res) \<Rightarrow> int \<Rightarrow> serviceNodesFleet \<Rightarrow> messageRpcQuery \<Rightarrow> string option \<Rightarrow> bool res" where
  "sendRelayMessage utf8 fetch now F message pubsubTopic =
     rbind (mapM (\<lambda>S. node_sendMessage utf8 (fetch S) now S (stamped now message) (Some (nullish pubsubTopic DefaultTestPubsubTopic))) (sf_nodes F))
       (\<lambda>sent. Inr (list_all id sent))"

definition confirmMessageLength ::
  "(string \<Rightarrow> bytes) \<Rightarrow> (serviceNode \<Rightarrow> restRequest \<Rightarrow> restResponse res) \<Rightarrow> serviceNodesFleet \<Rightarrow> nat \<Rightarrow> unit res" where
  "confirmMessageLength utf8 fetch F numMessages =
     rbind (mapM (\<lambda>S. node_messages utf8 (fetch S) S None) (sf_nodes F))
       (\<lambda>lists. expect (quantify (sf_strictChecking F) (\<lambda>msgs. length msgs = numMessages) lists) ''length'')"

section \<open>A node of each kind\<close>

text \<open>\<open>wa_start\<close> and the others return the node as they leave it. The functions of a node of the library: its creation from the network configuration, \<open>start\<close>, \<open>dial\<close> and \<open>waitForPeers\<close>.\<close>

record 'w wakuActions =
  wa_create :: "shardInfo \<Rightarrow> 'w res"
  wa_start :: "'w \<Rightarrow> 'w res"
  wa_dial :: "string \<Rightarrow> 'w \<Rightarrow> 'w res"
  wa_waitForPeers :: "'w \<Rightarrow> 'w res"

definition runArgs :: "string list \<Rightarrow> shardInfo \<Rightarrow> args" where
  "runArgs pubsubTopics shardInfo =
     [(''filter'', Single (boolStr True)), (''lightpush'', Single (boolStr True)), (''relay'', Single (boolStr True)), (''store'', Single (boolStr True)),
      (''pubsubTopic'', Several pubsubTopics), (''clusterId'', clusterArg (sh_clusterId shardInfo))]"

definition connectNodes ::
  "(restRequest \<Rightarrow> restResponse res) \<Rightarrow> (string list \<times> string option) list res \<Rightarrow> 'w wakuActions \<Rightarrow> string list \<Rightarrow> serviceNode \<Rightarrow> 'w \<Rightarrow> (serviceNode \<times> 'w) res" where
  "connectNodes fetch listenAddresses A pubsubTopics S waku =
     rbind (getMultiaddrWithId listenAddresses S)
       (\<lambda>(S1, ma). rbind (wa_dial A ma waku)
         (\<lambda>waku1. rbind (wa_waitForPeers A waku1)
           (\<lambda>waku2. rbind (ensureSubscriptions fetch S1 (Some pubsubTopics))
             (\<lambda>_. Inr (S1, waku2)))))"

text \<open>
  A node that cannot be created is an error, one whose \<open>start\<close> rejects is used all the same: the variable has been assigned. The state of
  Docker afterwards is returned with the result, also when it is an error.\<close>

definition runNodes ::
  "(string \<Rightarrow> bytes) \<Rightarrow> (bytes \<Rightarrow> bytes) \<Rightarrow> bool \<Rightarrow> string option \<Rightarrow> attempt list \<Rightarrow> (restRequest \<Rightarrow> restResponse res) \<Rightarrow>
     (string list \<times> string option) list res \<Rightarrow> 'w wakuActions \<Rightarrow> networkConfig \<Rightarrow> docker \<Rightarrow> docker \<times> (serviceNode \<times> 'w) res" where
  "runNodes utf8 sha256 isGoWaku params attempts fetch listenAddresses A config D =
     (case rbind (derivePubsubTopicsFromNetworkConfig utf8 sha256 config)
             (\<lambda>topics. rbind (pubsubTopicsToShardInfo topics) (\<lambda>info. Inr (topics, info))) of
        Inl e \<Rightarrow> (D, Inl e)
      | Inr (pubsubTopics, shardInfo) \<Rightarrow>
          (case service_start isGoWaku params (runArgs pubsubTopics shardInfo) attempts (newServiceNode, D) of
             ((S, D1), Inl e) \<Rightarrow> (D1, Inl e)
           | ((S, D1), Inr _) \<Rightarrow>
               (D1, case wa_create A shardInfo of
                      Inl _ \<Rightarrow> Inl (Error ''Failed to initialize waku'')
                    | Inr waku \<Rightarrow>
                        connectNodes fetch listenAddresses A pubsubTopics S (case wa_start A waku of Inl _ \<Rightarrow> waku | Inr started \<Rightarrow> started))))"

section \<open>Messages of the store tests\<close>

definition sendOne ::
  "(string \<Rightarrow> bytes) \<Rightarrow> (bytes \<Rightarrow> string) \<Rightarrow> (restRequest \<Rightarrow> restResponse res) \<Rightarrow> int \<Rightarrow> serviceNode \<Rightarrow> string \<Rightarrow> string \<Rightarrow> nat \<Rightarrow> unit res" where
  "sendOne utf8 base64 fetch now S contentTopic pubsubTopic i =
     rbind (toMessageRpcQuery base64 [of_nat i] contentTopic None)
       (\<lambda>query. rbind (node_sendMessage utf8 fetch now S query (Some pubsubTopic))
         (\<lambda>sent. expect sent ''expected true''))"

text \<open>\<open>clock i\<close> is the time at which the message \<open>i\<close> is sent.\<close>

definition sendMessages ::
  "(string \<Rightarrow> bytes) \<Rightarrow> (bytes \<Rightarrow> string) \<Rightarrow> (restRequest \<Rightarrow> restResponse res) \<Rightarrow> (nat \<Rightarrow> int) \<Rightarrow> serviceNode \<Rightarrow> nat \<Rightarrow> string \<Rightarrow> string \<Rightarrow> unit list res" where
  "sendMessages utf8 base64 fetch clock S numMessages contentTopic pubsubTopic =
     mapM (\<lambda>i. sendOne utf8 base64 fetch (clock i) S contentTopic pubsubTopic i) [0..<numMessages]"

definition sendMessagesAutosharding ::
  "(bytes \<Rightarrow> string) \<Rightarrow> (restRequest \<Rightarrow> restResponse res) \<Rightarrow> (nat \<Rightarrow> int) \<Rightarrow> serviceNode \<Rightarrow> nat \<Rightarrow> string \<Rightarrow> unit list res" where
  "sendMessagesAutosharding base64 fetch clock S numMessages contentTopic =
     mapM (\<lambda>i. rbind (toMessageRpcQuery base64 [of_nat i] contentTopic None)
                 (\<lambda>query. rbind (node_sendMessageAutosharding fetch (clock i) S query) (\<lambda>sent. expect sent ''expected true''))) [0..<numMessages]"

text \<open>The pages of the generator, each a list of awaited messages, of which those that are \<open>undefined\<close> are skipped.\<close>

definition processQueriedMessages :: "decodedMessage option list list \<Rightarrow> string option \<Rightarrow> decodedMessage list res" where
  "processQueriedMessages pages expectedTopic =
     mapM (\<lambda>msg. rbind (expect (Some (dm_pubsubTopic msg) = expectedTopic) ''pubsubTopic'') (\<lambda>_. Inr msg))
       (List.map_filter id (concat pages))"

section \<open>The end of a test\<close>

text \<open>Stopping a node: \<open>outcomes\<close> has for each attempt whether Docker stops the container; without a container nothing is asked.\<close>

fun retriedStop :: "unit res list \<Rightarrow> serviceNode \<times> docker \<Rightarrow> (serviceNode \<times> docker) \<times> unit res" where
  "retriedStop [] st = (st, Inl (Error ''no attempt''))"
| "retriedStop (r # rs) (S, D) =
     (case (sn_docker S, r) of
        (Some (Some c), Inl e) \<Rightarrow> if rs = [] then ((S, D), Inl e) else retriedStop rs (S, D)
      | _ \<Rightarrow> (service_stop (S, D), Inr ()))"

text \<open>All nodes are stopped; the call is rejected when one cannot be, without waiting for the others.\<close>

fun stopNwakuNodes :: "(serviceNode \<times> unit res list) list \<Rightarrow> docker \<Rightarrow> docker \<times> serviceNode list \<times> unit res list" where
  "stopNwakuNodes [] D = (D, [], [])"
| "stopNwakuNodes ((S, outcomes) # nodes) D =
     (let ((S1, D1), r) = retriedStop outcomes (S, D);
          (D2, Ss, rs) = stopNwakuNodes nodes D1
      in (D2, S1 # Ss, r # rs))"

section \<open>Versions\<close>

definition isDigit :: "char \<Rightarrow> bool" where
  "isDigit c = (let n = (of_char c :: nat) in 48 \<le> n \<and> n \<le> 57)"

text \<open>\<open>/(?:v)?(\\d+\\.\\d+(?:\\.\\d+)?)/\<close> at one position, and its first match.\<close>

definition digitsAt :: "string \<Rightarrow> (string \<times> string) option" where
  "digitsAt s = (if takeWhile isDigit s = [] then None else Some (takeWhile isDigit s, dropWhile isDigit s))"

definition dotDigitsAt :: "string \<Rightarrow> (string \<times> string) option" where
  "dotDigitsAt s =
     (case s of
        [] \<Rightarrow> None
      | c # cs \<Rightarrow> if c = CHR ''.'' then map_option (\<lambda>(ds, rest). (c # ds, rest)) (digitsAt cs) else None)"

definition numberAt :: "string \<Rightarrow> string option" where
  "numberAt s =
     Option.bind (digitsAt s)
       (\<lambda>(major, s1). Option.bind (dotDigitsAt s1)
         (\<lambda>(minor, s2). Some (major @ minor @ (case dotDigitsAt s2 of None \<Rightarrow> [] | Some (patch, _) \<Rightarrow> patch))))"

definition versionAt :: "string \<Rightarrow> string option" where
  "versionAt s =
     (case s of
        [] \<Rightarrow> None
      | c # cs \<Rightarrow> if c = CHR ''v'' then map_option ((#) c) (numberAt cs) else numberAt s)"

fun versionMatch :: "string \<Rightarrow> string option" where
  "versionMatch [] = None"
| "versionMatch (c # cs) = (case versionAt (c # cs) of Some m \<Rightarrow> Some m | None \<Rightarrow> versionMatch cs)"

text \<open>\<open>compare\<close> is the comparison of the locale with numbers compared by value.\<close>

definition isNwakuAtLeast :: "(string \<Rightarrow> string \<Rightarrow> int) \<Rightarrow> string \<Rightarrow> string \<Rightarrow> bool" where
  "isNwakuAtLeast compare imageName requiredVersion =
     (case versionMatch imageName of None \<Rightarrow> True | Some m \<Rightarrow> compare (drop 1 m) requiredVersion \<ge> 0)"

section \<open>Lemmas\<close>

text \<open>The arguments of the caller replace those of a fleet.\<close>

lemma fleet_arguments:
  assumes "jm_wf args" and "jm_get args k = Some v" and "getArgs utf8 sha256 config args = Inr merged"
  shows "jm_get merged k = Some v"
proof -
  have "map_of (rev args) = map_of args" using assms(1) by (intro map_of_rev_distinct) (simp add: jm_wf_def jm_keys_def)
  then have "map_of (rev args) k = Some v" using assms(2) by (simp add: jm_get_def)
  then show ?thesis using assms(3) objectAssign_get [of _ "[]" args k] by (auto simp: getArgs_def rbind_eq_Inr)
qed

text \<open>
  A node of each kind: one container more when the service node could be started, that of the node that is returned. It is still there when
  something later fails, and nothing that is returned refers to it.
\<close>

lemma runNodes_containers:
  assumes "dockerWf D" and "\<forall>A \<in> set attempts. at_connected A = Inr ()" and "attempts \<noteq> []"
    and "runNodes utf8 sha256 isGoWaku params attempts fetch addresses A config D = (D', r)"
  shows "dk_running D' = dk_running D \<and> isl r \<or>
    (\<exists>c. c \<notin> set (dk_running D) \<and> dk_running D' = dk_running D @ [c] \<and> (\<forall>S w. r = Inr (S, w) \<longrightarrow> sn_docker S = Some (Some c)))"
proof (cases "rbind (derivePubsubTopicsFromNetworkConfig utf8 sha256 config)
             (\<lambda>topics. rbind (pubsubTopicsToShardInfo topics) (\<lambda>info. Inr (topics, info)))")
  case (Inl e)
  then show ?thesis using assms(4) by (auto simp: runNodes_def)
next
  case (Inr ti)
  obtain topics info where ti: "ti = (topics, info)" by (cases ti)
  obtain S D1 r1 where start: "service_start isGoWaku params (runArgs topics info) attempts (newServiceNode, D) = ((S, D1), r1)"
    by (metis surj_pair)
  note outcome = service_start_outcome [OF assms(1,2) start assms(3)]
  have docker: "connectNodes fetch addresses A topics S w = Inr (S', w') \<Longrightarrow> sn_docker S' = sn_docker S" for w S' w'
    by (auto simp: connectNodes_def rbind_eq_Inr dest: getMultiaddrWithId_docker)
  show ?thesis
    using assms(4) outcome docker by (cases r1) (auto simp: runNodes_def Inr ti start split: sum.splits)
qed

text \<open>
  The messages of a test are sent exactly when the node runs and answers each of these requests with the status 200: the number of the
  message as its payload and the time at which it is sent, in nanoseconds, as its timestamp.
\<close>

definition sentRequest :: "(string \<Rightarrow> bytes) \<Rightarrow> (bytes \<Rightarrow> string) \<Rightarrow> serviceNode \<Rightarrow> string \<Rightarrow> string \<Rightarrow> int \<Rightarrow> nat \<Rightarrow> restRequest" where
  "sentRequest utf8 base64 S contentTopic pubsubTopic now i =
     \<lparr>rt_url = httpUrl S @ ''/relay/v1/messages/'' @ encodeURIComponent utf8 pubsubTopic, rt_method = POST,
      rt_body = MessageBody \<lparr>rq_payload = base64 [of_nat i], rq_contentTopic = contentTopic, rq_timestamp = Some (now * OneMillion)\<rparr>\<rparr>"

lemma pubsubTopicOf_given [simp]: "t \<noteq> [] \<Longrightarrow> pubsubTopicOf (Some t) S = t"
  by (cases t) (simp_all add: pubsubTopicOf_def)

lemma sendOne_iff:
  "pubsubTopic \<noteq> [] \<Longrightarrow> sendOne utf8 base64 fetch now S contentTopic pubsubTopic i = Inr () \<longleftrightarrow>
     checkProcess S = Inr () \<and> (\<exists>r. fetch (sentRequest utf8 base64 S contentTopic pubsubTopic now i) = Inr r \<and> rs_status r = 200)"
  by (auto simp: sendOne_def toMessageRpcQuery_def node_sendMessage_def restCall_def stamped_def sentRequest_def rbind_eq_Inr)

lemma sendMessages_iff:
  assumes "pubsubTopic \<noteq> []"
  shows "sendMessages utf8 base64 fetch clock S n contentTopic pubsubTopic = Inr us \<longleftrightarrow>
    us = replicate n () \<and> (\<forall>i<n. checkProcess S = Inr () \<and>
      (\<exists>r. fetch (sentRequest utf8 base64 S contentTopic pubsubTopic (clock i) i) = Inr r \<and> rs_status r = 200))"
  by (auto simp: sendMessages_def mapM_Inr_iff list_all2_conv_all_nth sendOne_iff [OF assms] intro!: nth_equalityI)

text \<open>The messages of the pages, in their order, when all of them have the expected topic.\<close>

lemma processQueriedMessages_iff:
  "processQueriedMessages pages expectedTopic = Inr msgs \<longleftrightarrow>
     msgs = List.map_filter id (concat pages) \<and> (\<forall>m \<in> set msgs. Some (dm_pubsubTopic m) = expectedTopic)"
proof -
  have "mapM (\<lambda>msg. rbind (expect (Some (dm_pubsubTopic msg) = expectedTopic) ''pubsubTopic'') (\<lambda>_. Inr msg)) ms = Inr msgs \<longleftrightarrow>
      msgs = ms \<and> (\<forall>m \<in> set msgs. Some (dm_pubsubTopic m) = expectedTopic)" for ms
    by (induction ms arbitrary: msgs) (auto simp: rbind_eq_Inr)
  then show ?thesis by (simp add: processQueriedMessages_def)
qed

text \<open>A stop that is resolved has stopped the container, however many of its attempts failed.\<close>

lemma retriedStop_done:
  "retriedStop outcomes (S, D) = ((S', D'), Inr ()) \<Longrightarrow> (S', D') = service_stop (S, D)"
  by (induction outcomes "(S, D)" rule: retriedStop.induct)
     (auto split: option.splits sum.splits if_splits simp del: split_paired_All)

lemma tear_down:
  "stopNwakuNodes nodes D = (D', Ss, rs) \<Longrightarrow> list_all (\<lambda>r. r = Inr ()) rs \<Longrightarrow>
     set (dk_running D') = set (dk_running D) - {c. \<exists>(S, _) \<in> set nodes. sn_docker S = Some (Some c)} \<and> length Ss = length nodes \<and>
     list_all (\<lambda>S. sn_docker S = None) Ss"
proof (induction nodes arbitrary: D D' Ss rs)
  case (Cons n nodes)
  obtain S outcomes where n: "n = (S, outcomes)" by (cases n)
  obtain S1 D1 r where a: "retriedStop outcomes (S, D) = ((S1, D1), r)" by (metis surj_pair)
  obtain D2 Ss' rs' where b: "stopNwakuNodes nodes D1 = (D2, Ss', rs')" by (metis surj_pair)
  have eqs: "D' = D2" "Ss = S1 # Ss'" "rs = r # rs'" using Cons.prems(1) by (simp_all add: n a b)
  then have "(S1, D1) = service_stop (S, D)" using retriedStop_done a Cons.prems(2) by simp
  then have "set (dk_running D1) = set (dk_running D) - {c. sn_docker S = Some (Some c)}" "sn_docker S1 = None"
    by (auto simp: service_stop_def docker_stop_def split: option.splits)
  moreover note Cons.IH [OF b]
  ultimately show ?case using Cons.prems(2) by (auto simp: eqs n)
qed simp

text \<open>
  The first character of the match is dropped whether or not it is a \<open>v\<close>: of a version without one the first digit is lost.
\<close>

lemma version_without_v:
  "isNwakuAtLeast compare ''wakuorg/nwaku:v0.31.0'' v \<longleftrightarrow> compare ''0.31.0'' v \<ge> 0"
  "isNwakuAtLeast compare ''wakuorg/nwaku:0.31.0'' v \<longleftrightarrow> compare ''.31.0'' v \<ge> 0"
  "isNwakuAtLeast compare ''wakuorg/nwaku:latest'' v"
  by (simp_all add: isNwakuAtLeast_def versionAt_def numberAt_def digitsAt_def dotDigitsAt_def isDigit_def)

end
