(* ===== verification/Spec2Isabelle.thy ===== *)
theory Spec2Isabelle
  imports UtilsCommon Enr Encryption StreamManager CoreFilter CoreStore Metadata ConnectionManager PeerManager HealthIndicator
    SdkLightPush SdkStore SdkFilter Relay DnsDiscovery LocalPeerCache PeerExchange Waku Wire
    FilterWire RelayNode NodeCreation Bloom Lifecycle CipherWire ExchangeWire FilterSpec CipherDelivery StoreDelivery StoreCursor
    Publish MessageCollector TestTools ServiceNode TestRun
begin

text \<open>
  A verification library for js-waku, the TypeScript implementation of the Waku messaging protocols. The packages of the repository
  are under \<open>packages/\<close>; every path below is relative to it, except that of the release script in \<open>ci/\<close>.

  \<^bold>\<open>The program.\<close> An application publishes messages on content topics. A content topic is hashed to a shard and a shard belongs to a pubsub
  topic (\<open>utils/src/common/sharding\<close>). A message is encoded by an encoder (\<open>core/src/lib/message\<close>), encrypted or not
  (\<open>message-encryption\<close>), written in the protobuf format (\<open>proto/src/generated\<close>), and either broadcast over gossipsub (\<open>relay\<close>) or handed
  to a service node: pushed (\<open>light_push\<close>), queried from a store (\<open>store\<close>), or pushed back by a filter node (\<open>filter\<close>). Each of these
  has a core client, which speaks to one peer over a stream of the stream manager, and an SDK class, which speaks to several peers that
  the peer manager has locked. Peers are found by DNS trees, by peer exchange and in a local cache (\<open>discovery\<close>), written to libp2p's
  peer store, and dialled by the connection manager, which keeps them alive. A peer describes itself in a signed node record (\<open>enr\<close>);
  its shards are confirmed by a metadata handshake.

  \<^bold>\<open>The theories.\<close>
  \<^item> \<open>WakuPrelude\<close>, \<open>JsMap\<close>, \<open>JsString\<close>, \<open>JsBytes\<close>: exceptions as values (\<open>'a res\<close>), the JavaScript values the code uses
    (properties that may be absent, insertion-ordered maps and sets, slices, strings, byte arrays, the rounding of numbers) and their lemmas.
    \<open>StateMachine\<close>: runs of events on a state and the rule for invariants, a locale that every component with asynchronous calls interprets.
  \<^item> \<open>Sharding\<close> (\<open>utils/src/common/sharding\<close>), \<open>RelayShardCodec\<close> (\<open>relay_shard_codec.ts\<close>), \<open>UtilsCommon\<close> (\<open>to_async_iterator.ts\<close>,
    \<open>random_subset.ts\<close>, grouping and the byte helpers).
  \<^item> \<open>EnrCodecs\<close>, \<open>Enr\<close>, \<open>EnrDemo\<close> (\<open>enr/src\<close>): the field codecs, the record with its setters and getters, signing, encoding and decoding.
  \<^item> \<open>Message\<close> (\<open>version_0.ts\<close>, \<open>to_proto_message.ts\<close>, \<open>message-hash\<close>), \<open>Encryption\<close> (\<open>message-encryption/src\<close>).
  \<^item> \<open>Protobuf\<close>, \<open>ProtobufDemo\<close>, \<open>ProtoMessage\<close>, \<open>ProtoStore\<close>, \<open>ProtoFilter\<close>, \<open>ProtoRpc\<close> (\<open>proto/src/generated\<close>): the generated codecs over
    the protons runtime. \<open>Wire\<close>, \<open>FilterWire\<close>, \<open>RelayNode\<close>, \<open>ExchangeWire\<close>, \<open>CipherWire\<close>: the clients of the store, of light push and of
    filter, relay with gossipsub, peer exchange and the metadata handshake, and encrypted messages over these codecs. \<open>CipherDelivery\<close>,
    \<open>StoreDelivery\<close>: encrypted messages through relay, filter and a store. \<open>StoreCursor\<close>: queries that resume at a message.
  \<^item> \<open>StreamManager\<close>, \<open>CoreProtocol\<close> (\<open>light_push\<close>), \<open>CoreFilter\<close>, \<open>CoreStore\<close>, \<open>Metadata\<close>, \<open>KeepAlive\<close>, \<open>ConnectionManager\<close> (\<open>core/src/lib\<close>).
  \<^item> \<open>PeerManager\<close>, \<open>HealthIndicator\<close>, \<open>SdkLightPush\<close>, \<open>SdkStore\<close>, \<open>SdkFilter\<close>, \<open>Waku\<close> (\<open>sdk/src\<close>). \<open>NodeCreation\<close> (\<open>sdk/src/create\<close>,
    \<open>relay/src/create.ts\<close>): the options a node gives to libp2p. \<open>Lifecycle\<close>: the event listeners of a light node while it is made, started,
    stopped and started again, and its filter monitors are. \<open>FilterSpec\<close>: what the filter client promises, as an abstract machine that
    \<open>SdkFilter\<close> implements.
  \<^item> \<open>Relay\<close> (\<open>relay/src\<close>), with the list of live observers as its specification.
  \<^item> \<open>EnrTree\<close>, \<open>FetchNodes\<close>, \<open>Dns\<close>, \<open>PeerStore\<close>, \<open>DnsDiscovery\<close>, \<open>LocalPeerCache\<close>, \<open>PeerExchange\<close> (\<open>discovery/src\<close>).
  \<^item> \<open>Bloom\<close> (\<open>sds/src\<close>): the table of error rates and the sizes of a bloom filter.
  \<^item> \<open>MessageCollector\<close>, \<open>TestTools\<close>, \<open>ServiceNode\<close>, \<open>TestRun\<close> (\<open>tests/src\<close>, \<open>tests/tests/store/utils.ts\<close>): what the integration tests wait for and
    check, their helpers, the service nodes they run in containers, and their runs. \<open>Publish\<close> (\<open>ci/publish.js\<close>): the release script.

  \<^bold>\<open>How code becomes definitions.\<close> A definition has the name of the function or method it models; a field of a class is a field of a
  record, and a method takes the record and returns it updated. Exceptions and rejected promises are \<open>Inl\<close>; results in the style of
  the code (\<open>success\<close>/\<open>failure\<close> objects) are datatypes. An asynchronous method whose interleaving matters is cut at its \<open>await\<close>s: what it still has to do
  is a task in the state, and events resume tasks in any order (\<open>StreamManager\<close>, \<open>ConnectionManager\<close>, \<open>PeerExchange\<close>, \<open>SdkFilter\<close>).
  JavaScript numbers that are integers are \<open>int\<close>, which is exact below 2 to the 53; where a computation leaves that range the rounding
  is written out (\<open>to_double\<close>). Bytes are 8-bit words, the tags of the wire format and the 32-bit fields of records are words.
  Random draws, clocks, timers and identifiers are arguments. Aliasing is modelled where objects are shared, by identifiers.

  \<^bold>\<open>What the code calls.\<close> Code outside the repository is a parameter, collected in a record (\<open>enrLib\<close>, \<open>cryptoLib\<close>, \<open>pbRuntime\<close>,
  \<open>peerStore\<close>, the \<open>\<dots>Net\<close> records for streams) with the documented laws as a predicate or locale (\<open>peer_store\<close>, \<open>pb_runtime\<close>), and
  a concrete instance shows that the laws can hold. Interfaces between components are locales as well, interpreted on the models:
  \<open>event_system\<close>, \<open>refinement\<close> (each event is some steps of a specification), \<open>core_operation\<close> (an operation of a core client answers about the peer that was asked), \<open>node_source\<close> and \<open>total_source\<close> (what the
  collection of nodes asks of a source; interpreted on the DNS search), \<open>message_codec\<close> (an encoder with the fields it writes and a
  decoder that reads them back; one instance for each message type).

  \<^bold>\<open>Loops and fuel.\<close> Loops over data are structural recursion or have a termination proof. \<open>decodeFields\<close> is a partial function, and
  \<open>decoders_return\<close> proves that it returns. Fuel stands for turns of a generator (\<open>queryPages\<close>: one more than there are pages
  suffices), for nested calls and draws of the DNS search (\<open>getPeers_returns\<close> gives the bound; \<open>root_cycle_never_returns\<close> is a tree for which no
  fuel suffices), for polls of \<open>waitForPeers\<close> and for blocks of the key derivation.

  \<^bold>\<open>What is shown.\<close> Round trips: from the encoder of a message, encrypted or not, through the wire format to the decoder and to a reader of the
  topic only, all messages of the protocols, encryption envelopes, node records, relay shard fields, the peer cache. Delivery: a store query
  delivers the store, from the beginning or from a cursor, relay and filter deliver to the right callbacks and filter at most once, all three also over the wire format, and
  deliver encrypted messages to who has the key; the filter
  client refines its specification, and what a callback gets was subscribed with it; a push
  reports every peer; a metadata handshake informs both nodes; exchanged peers reach the peer store, those before a record that throws when one does. Types: whatever bytes arrive, an accepted
  message is well formed. State: limits of dialling, of locked peers, of pings, streams and queries, in every interleaving; the listeners of a node after
  any starts and stops; confirmed handshakes are backed by the peer store. Errors and security: a node record whose content was not signed
  is refused, a DNS root is returned only if its signature verifies. Termination and bounds: dialling, retries, peer exchange, node
  collection, decoders. The tests: the check of a collected message accepts exactly what was sent, waits end, starts and stops account for
  every container. Where the code departs from what it documents, a theorem states what it does, and the manifest lists the finding.

  \<^bold>\<open>Not modelled.\<close> \<open>insert\<close> and \<open>lookup\<close> of the bloom filter are abstract in the code. Key generation draws random bytes; the
  conversions of \<open>utils/src/bytes\<close>, the primitives of WebCrypto and libp2p itself are other packages. Logging, type declarations, re-exports
  and polyfills have no behaviour. Of the tests the cases themselves, the pulling of images and the reading of logs are left out, of the build its
  configuration and the server of the browser tests. The generated files repeat the codec of a Waku message; it is modelled once, from
  \<open>message.ts\<close>.

  \<^bold>\<open>What is left.\<close> The listeners of the discovery services and of relay next to those of \<open>Lifecycle\<close>.
\<close>

end
